(* ===== verification/Rust_Prelude.thy ===== *)
theory Rust_Prelude
  imports Main "HOL-Library.Sublist"
begin

text \<open>
  The part of the Rust language and of its standard library that the modelled code uses.

  A Rust \<^verbatim>\<open>str\<close> is a sequence of Unicode scalar values: \<open>str\<close> is a list of code points.
  The source slices strings by byte offsets that always lie on character boundaries, so
  an offset of the model counts characters where the source counts bytes; nothing in the
  modelled code depends on the difference (the byte lengths it compares are those of
  ASCII-only prefixes).  \<open>lit\<close> turns an ASCII literal into such a list.

  An \<^verbatim>\<open>anyhow::Result\<close> is \<open>'a result\<close>: \<open>Inl\<close> carries the message of the \<^verbatim>\<open>bail!\<close>,
  \<^verbatim>\<open>ensure!\<close> or \<^verbatim>\<open>context\<close> that made it.
\<close>

named_theorems str_simps \<open>facts on the string operations of the Rust standard library\<close>

type_synonym rchar = nat
type_synonym str = "rchar list"
type_synonym 'a result = "string + 'a"

definition lit :: "string \<Rightarrow> str" where
  "lit s = map of_char s"

definition result_bind :: "'a result \<Rightarrow> ('a \<Rightarrow> 'b result) \<Rightarrow> 'b result" where
  "result_bind r f = (case r of Inl e \<Rightarrow> Inl e | Inr x \<Rightarrow> f x)"

definition ensure :: "bool \<Rightarrow> string \<Rightarrow> unit result" where
  "ensure b msg = (if b then Inr () else Inl msg)"

definition is_ok :: "'a result \<Rightarrow> bool" where
  "is_ok r = (case r of Inl _ \<Rightarrow> False | Inr _ \<Rightarrow> True)"

section \<open>Characters\<close>

text \<open>\<^verbatim>\<open>char::is_whitespace\<close>: the Unicode property White\_Space.\<close>

definition is_ws :: "rchar \<Rightarrow> bool" where
  "is_ws c \<longleftrightarrow> (9 \<le> c \<and> c \<le> 13) \<or> c = 32 \<or> c = 133 \<or> c = 160 \<or> c = 5760
     \<or> (8192 \<le> c \<and> c \<le> 8202) \<or> c = 8232 \<or> c = 8233 \<or> c = 8239 \<or> c = 8287 \<or> c = 12288"

definition is_ascii_digit :: "rchar \<Rightarrow> bool" where
  "is_ascii_digit c \<longleftrightarrow> 48 \<le> c \<and> c \<le> 57"

definition is_ascii_uppercase :: "rchar \<Rightarrow> bool" where
  "is_ascii_uppercase c \<longleftrightarrow> 65 \<le> c \<and> c \<le> 90"

definition is_ascii_lowercase :: "rchar \<Rightarrow> bool" where
  "is_ascii_lowercase c \<longleftrightarrow> 97 \<le> c \<and> c \<le> 122"

definition is_ascii_alphabetic :: "rchar \<Rightarrow> bool" where
  "is_ascii_alphabetic c \<longleftrightarrow> is_ascii_uppercase c \<or> is_ascii_lowercase c"

definition is_ascii_alphanumeric :: "rchar \<Rightarrow> bool" where
  "is_ascii_alphanumeric c \<longleftrightarrow> is_ascii_alphabetic c \<or> is_ascii_digit c"

definition is_ascii_hexdigit :: "rchar \<Rightarrow> bool" where
  "is_ascii_hexdigit c \<longleftrightarrow> is_ascii_digit c \<or> (65 \<le> c \<and> c \<le> 70) \<or> (97 \<le> c \<and> c \<le> 102)"

definition ascii_lower :: "rchar \<Rightarrow> rchar" where
  "ascii_lower c = (if is_ascii_uppercase c then c + 32 else c)"

definition ascii_upper :: "rchar \<Rightarrow> rchar" where
  "ascii_upper c = (if is_ascii_lowercase c then c - 32 else c)"

definition to_ascii_lowercase :: "str \<Rightarrow> str" where
  "to_ascii_lowercase s = map ascii_lower s"

definition to_ascii_uppercase :: "str \<Rightarrow> str" where
  "to_ascii_uppercase s = map ascii_upper s"

definition eq_ignore_ascii_case :: "str \<Rightarrow> str \<Rightarrow> bool" where
  "eq_ignore_ascii_case a b \<longleftrightarrow> to_ascii_lowercase a = to_ascii_lowercase b"

lemmas char_defs = is_ws_def is_ascii_digit_def is_ascii_uppercase_def is_ascii_lowercase_def
  is_ascii_alphabetic_def is_ascii_alphanumeric_def is_ascii_hexdigit_def

lemma alphanumeric_not_ws [simp]: "is_ascii_alphanumeric c \<Longrightarrow> \<not> is_ws c"
  by (auto simp: char_defs)

lemma space_is_ws [simp]: "is_ws 32" "is_ws 10" "is_ws 13" "is_ws 9"
  by (simp_all add: is_ws_def)

lemma dash_not_ws [simp]: "\<not> is_ws 45"
  by (simp add: is_ws_def)

lemma length_to_ascii [simp]:
  "length (to_ascii_lowercase s) = length s" "length (to_ascii_uppercase s) = length s"
  by (simp_all add: to_ascii_lowercase_def to_ascii_uppercase_def)

section \<open>Prefixes, suffixes, trimming\<close>

definition starts_with :: "str \<Rightarrow> str \<Rightarrow> bool" where
  "starts_with s p \<longleftrightarrow> take (length p) s = p"

definition ends_with :: "str \<Rightarrow> str \<Rightarrow> bool" where
  "ends_with s p \<longleftrightarrow> starts_with (rev s) (rev p)"

definition strip_prefix :: "str \<Rightarrow> str \<Rightarrow> str option" where
  "strip_prefix s p = (if starts_with s p then Some (drop (length p) s) else None)"

definition strip_suffix :: "str \<Rightarrow> str \<Rightarrow> str option" where
  "strip_suffix s p = (if ends_with s p then Some (take (length s - length p) s) else None)"

definition trim_start_by :: "(rchar \<Rightarrow> bool) \<Rightarrow> str \<Rightarrow> str" where
  "trim_start_by p s = dropWhile p s"

definition trim_end_by :: "(rchar \<Rightarrow> bool) \<Rightarrow> str \<Rightarrow> str" where
  "trim_end_by p s = rev (dropWhile p (rev s))"

definition trim_start :: "str \<Rightarrow> str" where
  "trim_start s = trim_start_by is_ws s"

definition trim_end :: "str \<Rightarrow> str" where
  "trim_end s = trim_end_by is_ws s"

definition trim :: "str \<Rightarrow> str" where
  "trim s = trim_start (trim_end s)"

lemma starts_with_iff: "starts_with s p \<longleftrightarrow> (\<exists>t. s = p @ t)"
  unfolding starts_with_def by (metis append_eq_conv_conj append_take_drop_id)

lemma starts_with_append [simp]: "starts_with (p @ t) p"
  by (auto simp: starts_with_iff)

lemma ends_with_iff: "ends_with s p \<longleftrightarrow> (\<exists>t. s = t @ p)"
proof -
  have "(\<exists>t. rev s = rev p @ t) \<longleftrightarrow> (\<exists>t. s = t @ p)"
    by (metis rev_append rev_rev_ident)
  then show ?thesis by (simp add: ends_with_def starts_with_iff)
qed

lemma strip_prefix_Some: "strip_prefix s p = Some t \<longleftrightarrow> s = p @ t"
  by (auto simp: strip_prefix_def starts_with_iff)

lemma strip_prefix_append [simp]: "strip_prefix (p @ t) p = Some t"
  by (simp add: strip_prefix_Some)

lemma strip_suffix_append [simp]: "strip_suffix (t @ p) p = Some t"
  by (auto simp: strip_suffix_def ends_with_iff)

lemma strip_suffix_Some: "strip_suffix s p = Some t \<longleftrightarrow> s = t @ p"
  by (auto simp: strip_suffix_def ends_with_iff)

lemma trim_end_Nil [simp]: "trim_end [] = []"
  by (simp add: trim_end_def trim_end_by_def)

lemma trim_end_snoc: "trim_end (s @ [c]) = (if is_ws c then trim_end s else s @ [c])"
  by (simp add: trim_end_def trim_end_by_def)

lemma trim_end_append_word:
  assumes "w \<noteq> []" and "\<not> is_ws (last w)"
  shows "trim_end (s @ w) = s @ w"
  using assms by (metis append_assoc append_butlast_last_id trim_end_snoc)

lemma trim_end_idem [simp]: "trim_end (trim_end s) = trim_end s"
  by (induction s rule: rev_induct) (simp_all add: trim_end_snoc)

lemma trim_end_decomp: "\<exists>u. s = trim_end s @ u \<and> list_all is_ws u"
proof
  show "s = trim_end s @ rev (takeWhile is_ws (rev s)) \<and> list_all is_ws (rev (takeWhile is_ws (rev s)))"
    unfolding trim_end_def trim_end_by_def
    by (metis (no_types, lifting) list_all_iff rev_append rev_rev_ident set_rev set_takeWhileD
        takeWhile_dropWhile_id)
qed

lemma trim_end_last: "trim_end s \<noteq> [] \<Longrightarrow> \<not> is_ws (last (trim_end s))"
  by (induction s rule: rev_induct) (auto simp: trim_end_snoc)

section \<open>Splitting\<close>

text \<open>\<^verbatim>\<open>str::split_whitespace\<close>: the maximal runs of non-whitespace characters.\<close>

function split_whitespace :: "str \<Rightarrow> str list" where
  "split_whitespace [] = []"
| "split_whitespace (c # s) =
     (if is_ws c then split_whitespace s
      else (c # takeWhile (\<lambda>d. \<not> is_ws d) s) # split_whitespace (dropWhile (\<lambda>d. \<not> is_ws d) s))"
  by pat_completeness auto
termination
  by (relation "measure length") (auto simp: length_dropWhile_le le_imp_less_Suc)

text \<open>\<^verbatim>\<open>str::split_inclusive\<close> at a newline: every piece but the last ends with the newline.\<close>

fun split_inclusive_nl :: "str \<Rightarrow> str list" where
  "split_inclusive_nl [] = []"
| "split_inclusive_nl (c # s) =
     (if c = 10 then [c] # split_inclusive_nl s
      else (case split_inclusive_nl s of [] \<Rightarrow> [[c]] | l # ls \<Rightarrow> (c # l) # ls))"

text \<open>\<^verbatim>\<open>str::lines\<close> strips the newline of each piece, and a carriage return before it.\<close>

definition strip_line_ending :: "str \<Rightarrow> str" where
  "strip_line_ending l =
     (case strip_suffix l [10] of
        None \<Rightarrow> l
      | Some l' \<Rightarrow> (case strip_suffix l' [13] of None \<Rightarrow> l' | Some l'' \<Rightarrow> l''))"

definition lines :: "str \<Rightarrow> str list" where
  "lines s = map strip_line_ending (split_inclusive_nl s)"

text \<open>\<^verbatim>\<open>[T]::join\<close>.\<close>

fun join :: "str \<Rightarrow> str list \<Rightarrow> str" where
  "join sep [] = []"
| "join sep [l] = l"
| "join sep (l # ls) = l @ sep @ join sep ls"

text \<open>\<^verbatim>\<open>str::split\<close> at one character.\<close>

fun split_at_char :: "rchar \<Rightarrow> str \<Rightarrow> str list" where
  "split_at_char d [] = [[]]"
| "split_at_char d (c # s) =
     (if c = d then [] # split_at_char d s
      else (case split_at_char d s of [] \<Rightarrow> [[c]] | l # ls \<Rightarrow> (c # l) # ls))"

section \<open>Searching\<close>

text \<open>\<^verbatim>\<open>str::find\<close>: the offset of the first occurrence.\<close>

fun str_find :: "str \<Rightarrow> str \<Rightarrow> nat option" where
  "str_find [] p = (if p = [] then Some 0 else None)"
| "str_find (c # s) p =
     (if starts_with (c # s) p then Some 0 else map_option Suc (str_find s p))"

definition contains :: "str \<Rightarrow> str \<Rightarrow> bool" where
  "contains s p \<longleftrightarrow> str_find s p \<noteq> None"

text \<open>\<^verbatim>\<open>str::match_indices\<close>: the disjoint occurrences from the left, for a non-empty pattern;
  \<open>skip\<close> is what is left of the occurrence found last.\<close>

fun match_indices_from :: "str \<Rightarrow> nat \<Rightarrow> nat \<Rightarrow> str \<Rightarrow> nat list" where
  "match_indices_from p n skip [] = []"
| "match_indices_from p n (Suc k) (c # s) = match_indices_from p (Suc n) k s"
| "match_indices_from p n 0 (c # s) =
     (if starts_with (c # s) p then n # match_indices_from p (Suc n) (length p - 1) s
      else match_indices_from p (Suc n) 0 s)"

definition match_indices :: "str \<Rightarrow> str \<Rightarrow> nat list" where
  "match_indices s p = match_indices_from p 0 0 s"

text \<open>\<^verbatim>\<open>str::rmatch_indices\<close>: the disjoint occurrences from the right, the last one first.\<close>

definition rmatch_indices :: "str \<Rightarrow> str \<Rightarrow> nat list" where
  "rmatch_indices s p =
     map (\<lambda>i. length s - i - length p) (match_indices (rev s) (rev p))"

text \<open>\<^verbatim>\<open>str::rfind\<close>: the offset of the last occurrence.\<close>

definition str_rfind :: "str \<Rightarrow> str \<Rightarrow> nat option" where
  "str_rfind s p = map_option (\<lambda>i. length s - i - length p) (str_find (rev s) (rev p))"

lemma str_find_Some:
  "str_find s p = Some i \<Longrightarrow> i \<le> length s \<and> starts_with (drop i s) p"
  by (induction s p arbitrary: i rule: str_find.induct)
     (auto simp: starts_with_def split: if_splits)

lemma str_find_append: "str_find (a @ p @ b) p \<noteq> None"
proof (induction a)
  case Nil
  show ?case by (cases "p @ b") (simp_all, metis starts_with_append)
next
  case (Cons c a)
  then show ?case by simp
qed

lemma contains_iff: "contains s p \<longleftrightarrow> (\<exists>a b. s = a @ p @ b)"
proof
  assume "contains s p"
  then obtain i where "str_find s p = Some i" by (auto simp: contains_def)
  then have "starts_with (drop i s) p" by (simp add: str_find_Some)
  then show "\<exists>a b. s = a @ p @ b" by (metis append_take_drop_id starts_with_iff)
next
  assume "\<exists>a b. s = a @ p @ b"
  then show "contains s p" using str_find_append by (auto simp: contains_def)
qed

section \<open>Numbers\<close>

definition digit_val :: "rchar \<Rightarrow> nat" where
  "digit_val c = c - 48"

fun digits_val :: "nat \<Rightarrow> str \<Rightarrow> nat" where
  "digits_val acc [] = acc"
| "digits_val acc (c # s) = digits_val (10 * acc + digit_val c) s"

text \<open>\<^verbatim>\<open>str::parse\<close> into an unsigned integer with a given maximum: an optional plus sign, at
  least one digit, no overflow.\<close>

definition parse_unsigned :: "nat \<Rightarrow> str \<Rightarrow> nat option" where
  "parse_unsigned mx s =
     (let ds = (case s of c # t \<Rightarrow> if c = 43 \<and> t \<noteq> [] then t else s | [] \<Rightarrow> []) in
      if ds \<noteq> [] \<and> list_all is_ascii_digit ds \<and> digits_val 0 ds \<le> mx
      then Some (digits_val 0 ds) else None)"

definition u64_max :: nat where "u64_max = 2 ^ 64 - 1"
definition u32_max :: nat where "u32_max = 2 ^ 32 - 1"

definition parse_u64 :: "str \<Rightarrow> nat option" where "parse_u64 s = parse_unsigned u64_max s"
definition parse_u32 :: "str \<Rightarrow> nat option" where "parse_u32 s = parse_unsigned u32_max s"

text \<open>\<^verbatim>\<open>Display\<close> of an unsigned integer, and \<^verbatim>\<open>{:04}\<close>-like padding with zeros.\<close>

fun show_nat :: "nat \<Rightarrow> str" where
  "show_nat n = (if n < 10 then [48 + n] else show_nat (n div 10) @ [48 + n mod 10])"

declare show_nat.simps [simp del]

definition pad_zero :: "nat \<Rightarrow> str \<Rightarrow> str" where
  "pad_zero w s = replicate (w - length s) 48 @ s"

text \<open>Saturating arithmetic of \<^verbatim>\<open>u64\<close> and \<^verbatim>\<open>usize\<close> (64 bits).\<close>

definition saturating_add_u64 :: "nat \<Rightarrow> nat \<Rightarrow> nat" where
  "saturating_add_u64 a b = min (a + b) u64_max"

definition saturating_sub :: "nat \<Rightarrow> nat \<Rightarrow> nat" where
  "saturating_sub a b = a - b"

lemma digits_val_append: "digits_val acc (s @ t) = digits_val (digits_val acc s) t"
  by (induction s arbitrary: acc) auto

lemma digits_val_show_nat [simp]: "digits_val 0 (show_nat n) = n"
proof (induction n rule: show_nat.induct)
  case (1 n)
  show ?case
    by (subst show_nat.simps) (use "1.IH" in \<open>auto simp: digits_val_append digit_val_def\<close>)
qed

lemma show_nat_digits: "list_all is_ascii_digit (show_nat n)"
proof (induction n rule: show_nat.induct)
  case (1 n)
  have "n < 10 \<Longrightarrow> is_ascii_digit (48 + n)" and "is_ascii_digit (48 + n mod 10)"
    by (simp_all add: is_ascii_digit_def)
  then show ?case by (subst show_nat.simps) (use "1.IH" in simp)
qed

lemma show_nat_not_Nil [simp]: "show_nat n \<noteq> []"
  by (subst show_nat.simps) simp

lemma parse_show_nat:
  assumes "n \<le> mx"
  shows "parse_unsigned mx (show_nat n) = Some n"
proof -
  obtain c t where ct: "show_nat n = c # t" by (meson neq_Nil_conv show_nat_not_Nil)
  have "is_ascii_digit c" using show_nat_digits [of n] ct by simp
  then have "c \<noteq> 43" by (auto simp: is_ascii_digit_def)
  then show ?thesis
    using assms show_nat_digits [of n] digits_val_show_nat [of n] ct
    by (simp add: parse_unsigned_def)
qed

lemma parse_unsigned_le: "parse_unsigned mx s = Some n \<Longrightarrow> n \<le> mx"
  by (auto simp: parse_unsigned_def Let_def split: if_splits list.splits)

end
