(* ===== verification/Sql_Tables.thy ===== *)
theory Sql_Tables
  imports Rust_Prelude
begin

text \<open>
  The SQL the repositories send to the bundled engine, as operations on a table (the list of
  its rows in rowid order), and the two engine functions whose result the statements depend
  on: \<^verbatim>\<open>CAST(text AS INTEGER)\<close> and \<^verbatim>\<open>LIKE\<close> with a trailing wildcard.  A key of a table is a
  function on its rows; the lemmas on \<open>unique_on\<close> say, for any key, what the statements keep
  of its uniqueness.
\<close>

named_theorems sql_simps \<open>unfolding rules of the table operations\<close>

type_synonym 'r table = "'r list"

definition sql_count :: "('r \<Rightarrow> bool) \<Rightarrow> 'r table \<Rightarrow> nat" where
  "sql_count P t = length (filter P t)"

definition sql_exists :: "('r \<Rightarrow> bool) \<Rightarrow> 'r table \<Rightarrow> bool" where
  "sql_exists P t = list_ex P t"

definition sql_select :: "('r \<Rightarrow> bool) \<Rightarrow> 'r table \<Rightarrow> 'r option" where
  "sql_select P t = (case filter P t of [] \<Rightarrow> None | r # _ \<Rightarrow> Some r)"

definition sql_update :: "('r \<Rightarrow> bool) \<Rightarrow> ('r \<Rightarrow> 'r) \<Rightarrow> 'r table \<Rightarrow> 'r table" where
  "sql_update P f t = map (\<lambda>r. if P r then f r else r) t"

definition sql_delete :: "('r \<Rightarrow> bool) \<Rightarrow> 'r table \<Rightarrow> 'r table" where
  "sql_delete P t = filter (\<lambda>r. \<not> P r) t"

definition sql_insert :: "'r \<Rightarrow> 'r table \<Rightarrow> 'r table" where
  "sql_insert r t = t @ [r]"

lemma sql_exists_iff [sql_simps]: "sql_exists P t \<longleftrightarrow> (\<exists>r \<in> set t. P r)"
  by (simp add: sql_exists_def list_ex_iff)

lemma sql_count_pos [sql_simps]: "0 < sql_count P t \<longleftrightarrow> (\<exists>r \<in> set t. P r)"
  by (auto simp: sql_count_def filter_empty_conv)

lemma sql_select_Some: "sql_select P t = Some r \<Longrightarrow> r \<in> set t \<and> P r"
proof -
  assume "sql_select P t = Some r"
  then obtain rs where "filter P t = r # rs" by (auto simp: sql_select_def split: list.splits)
  then have "r \<in> set (filter P t)" by simp
  then show ?thesis by simp
qed

lemma sql_select_None: "sql_select P t = None \<longleftrightarrow> (\<forall>r \<in> set t. \<not> P r)"
  by (simp add: sql_select_def list.case_eq_if filter_empty_conv)

lemma set_sql_update: "set (sql_update P f t) = (\<lambda>r. if P r then f r else r) ` set t"
  by (simp add: sql_update_def)

lemma sql_update_ball:
  assumes "\<And>r. r \<in> set t \<Longrightarrow> P r \<Longrightarrow> Q (f r)" "\<And>r. r \<in> set t \<Longrightarrow> \<not> P r \<Longrightarrow> Q r"
  shows "\<forall>r \<in> set (sql_update P f t). Q r"
  using assms by (auto simp: sql_update_def)

lemma sql_update_mem: "r \<in> set t \<Longrightarrow> (if P r then f r else r) \<in> set (sql_update P f t)"
  by (simp add: sql_update_def del: if_image_distrib)

lemma set_sql_delete [simp]: "set (sql_delete P t) = {r \<in> set t. \<not> P r}"
  by (simp add: sql_delete_def)

lemma set_sql_insert [simp]: "set (sql_insert r t) = insert r (set t)"
  by (simp add: sql_insert_def)

lemma sql_count_insert:
  "sql_count P (sql_insert r t) = sql_count P t + (if P r then 1 else 0)"
  by (simp add: sql_count_def sql_insert_def)

lemma sql_count_delete_le: "sql_count P (sql_delete Q t) \<le> sql_count P t"
  by (induction t) (auto simp: sql_count_def sql_delete_def)

lemma sql_count_update_le:
  assumes "\<And>r. r \<in> set t \<Longrightarrow> Q r \<Longrightarrow> P (f r) \<Longrightarrow> P r"
  shows "sql_count P (sql_update Q f t) \<le> sql_count P t"
  using assms by (induction t) (auto simp: sql_count_def sql_update_def)

lemma sql_count_le_1:
  assumes "distinct (map k t)" and "\<And>r. P r \<Longrightarrow> k r = c"
  shows "sql_count P t \<le> 1"
  using assms(1)
proof (induction t)
  case Nil
  then show ?case by (simp add: sql_count_def)
next
  case (Cons r t)
  show ?case
  proof (cases "P r")
    case True
    then have "k r = c" by (rule assms(2))
    have "\<not> P s" if "s \<in> set t" for s
      using assms(2) [of s] that \<open>k r = c\<close> Cons.prems by (auto simp: image_iff)
    then show ?thesis by (simp add: sql_count_def filter_empty_conv)
  next
    case False
    with Cons show ?thesis by (simp add: sql_count_def)
  qed
qed

text \<open>A key of a table: unique values in a column, kept by every statement that does not
  insert a present key or write the column.\<close>

definition unique_on :: "('r \<Rightarrow> 'k) \<Rightarrow> 'r table \<Rightarrow> bool" where
  "unique_on key t \<longleftrightarrow> distinct (map key t)"

lemma unique_on_Nil [simp]: "unique_on key []"
  by (simp add: unique_on_def)

lemma unique_on_insert:
  "unique_on key t \<Longrightarrow> \<forall>r' \<in> set t. key r' \<noteq> key r \<Longrightarrow> unique_on key (sql_insert r t)"
  by (auto simp: unique_on_def sql_insert_def image_iff)

lemma unique_on_delete: "unique_on key t \<Longrightarrow> unique_on key (sql_delete P t)"
  by (simp add: unique_on_def sql_delete_def distinct_map_filter)

lemma unique_on_update:
  assumes "unique_on key t" and "\<And>r. key (f r) = key r"
  shows "unique_on key (sql_update P f t)"
proof -
  have "key \<circ> (\<lambda>r. if P r then f r else r) = key" using assms(2) by auto
  then have "map key (sql_update P f t) = map key t"
    by (simp add: sql_update_def)
  then show ?thesis using assms(1) by (simp add: unique_on_def)
qed

lemma unique_on_eq: "unique_on key t \<Longrightarrow> r \<in> set t \<Longrightarrow> s \<in> set t \<Longrightarrow> key r = key s \<Longrightarrow> r = s"
  by (auto simp: unique_on_def distinct_map dest: inj_onD)

lemma unique_on_count: "unique_on key t \<Longrightarrow> (\<And>r. P r \<Longrightarrow> key r = c) \<Longrightarrow> sql_count P t \<le> 1"
  unfolding unique_on_def by (rule sql_count_le_1)

text \<open>The one row that a key selects.\<close>

lemma unique_on_count_one:
  assumes "unique_on key t" "r \<in> set t" "P r" "\<And>s. P s \<Longrightarrow> key s = key r"
  shows "sql_count P t = 1"
proof -
  have "sql_count P t \<le> 1" by (rule unique_on_count [OF assms(1)]) (rule assms(4))
  moreover have "0 < sql_count P t" using assms(2,3) by (auto simp: sql_count_pos)
  ultimately show ?thesis by linarith
qed

lemma unique_on_select:
  assumes "unique_on key t" "r \<in> set t" "P r" "\<And>s. P s \<Longrightarrow> key s = key r"
  shows "sql_select P t = Some r"
proof (cases "sql_select P t")
  case None
  with assms(2,3) show ?thesis by (simp add: sql_select_None)
next
  case (Some s)
  then have "s \<in> set t" "P s" by (simp_all add: sql_select_Some)
  with assms Some show ?thesis using unique_on_eq by metis
qed

section \<open>Engine functions\<close>

text \<open>\<^verbatim>\<open>str_to_i64\<close>: the optional sign and the digits at the start of the trimmed text, clamped
  to the 64-bit range; 0 where there is no digit.\<close>

definition i64_max :: int where "i64_max = 2 ^ 63 - 1"
definition i64_min :: int where "i64_min = - (2 ^ 63)"

definition sql_space :: "rchar \<Rightarrow> bool" where
  "sql_space c \<longleftrightarrow> c = 32 \<or> (9 \<le> c \<and> c \<le> 13)"

definition str_to_i64 :: "str \<Rightarrow> int" where
  "str_to_i64 input =
     (let s = trim_end_by sql_space (trim_start_by sql_space input);
          signed = (s \<noteq> [] \<and> (hd s = 43 \<or> hd s = 45));
          ds = takeWhile is_ascii_digit (if signed then tl s else s);
          v = int (digits_val 0 ds);
          v = (if signed \<and> hd s = 45 then - v else v)
      in if ds = [] then 0 else max i64_min (min i64_max v))"

definition cast_le :: "str \<Rightarrow> str \<Rightarrow> bool" where
  "cast_le a b \<longleftrightarrow> str_to_i64 a \<le> str_to_i64 b"

text \<open>Text columns compare byte by byte, which orders UTF-8 like the code points.\<close>

fun text_le :: "str \<Rightarrow> str \<Rightarrow> bool" where
  "text_le [] b = True"
| "text_le (x # a) [] = False"
| "text_le (x # a) (y # b) = (x < y \<or> (x = y \<and> text_le a b))"

text \<open>\<^verbatim>\<open>column LIKE 'prefix%'\<close>: a prefix up to the case of ASCII letters; both texts end at a
  NUL character.\<close>

definition sqlite_text_prefix :: "str \<Rightarrow> str" where
  "sqlite_text_prefix s = takeWhile (\<lambda>c. c \<noteq> 0) s"

definition like_prefix :: "str \<Rightarrow> str \<Rightarrow> bool" where
  "like_prefix p s \<longleftrightarrow>
     eq_ignore_ascii_case (take (length p) (sqlite_text_prefix s)) p"

text \<open>The next rowid of a table with an \<^verbatim>\<open>INTEGER PRIMARY KEY\<close>.\<close>

definition next_rowid :: "('r \<Rightarrow> int) \<Rightarrow> 'r table \<Rightarrow> int" where
  "next_rowid i t = fold max (map i t) 0 + 1"

lemma fold_max_ge: "(m::int) \<le> fold max xs m \<and> (\<forall>x \<in> set xs. x \<le> fold max xs m)"
proof (induction xs arbitrary: m)
  case (Cons x xs)
  then show ?case using max.cobounded1 [of x m] max.cobounded2 [of m x]
    by (metis fold_simps(2) max.bounded_iff set_ConsD)
qed simp

lemma next_rowid_fresh: "r \<in> set t \<Longrightarrow> i r < next_rowid i t"
  using fold_max_ge [where xs = "map i t" and m = 0] by (fastforce simp: next_rowid_def)

lemma is_ascii_digitD: "is_ascii_digit c \<Longrightarrow> 48 \<le> c \<and> c \<le> 57"
  by (simp add: is_ascii_digit_def)

text \<open>Equally long digit strings compare the same as texts and as numbers.\<close>

lemma digits_val_bound:
  assumes "list_all is_ascii_digit s"
  shows "digits_val acc s < (acc + 1) * 10 ^ length s"
  using assms
proof (induction s arbitrary: acc)
  case (Cons c s)
  then have c: "digit_val c \<le> 9" using is_ascii_digitD [of c] by (auto simp: digit_val_def)
  from Cons have "digits_val (10 * acc + digit_val c) s < (10 * acc + digit_val c + 1) * 10 ^ length s"
    by simp
  also have "\<dots> \<le> (10 * acc + 10) * 10 ^ length s" using c by (intro mult_le_mono1) simp
  finally show ?case by (simp add: algebra_simps)
qed simp

lemma digits_val_lower:
  "acc * 10 ^ length s \<le> digits_val acc s"
proof (induction s arbitrary: acc)
  case (Cons c s)
  have "acc * 10 ^ length (c # s) \<le> (10 * acc + digit_val c) * 10 ^ length s"
    by (simp add: algebra_simps)
  also have "\<dots> \<le> digits_val (10 * acc + digit_val c) s" by (rule Cons.IH)
  finally show ?case by simp
qed simp

lemma digits_val_mono_acc:
  assumes "list_all is_ascii_digit a" "list_all is_ascii_digit b" "length a = length b" "m < n"
  shows "digits_val m a < digits_val n b"
proof -
  have "digits_val m a < (m + 1) * 10 ^ length a" using assms(1) by (rule digits_val_bound)
  also have "\<dots> \<le> n * 10 ^ length b"
    unfolding assms(3) using assms(4) by (intro mult_le_mono1) simp
  also have "\<dots> \<le> digits_val n b" by (rule digits_val_lower)
  finally show ?thesis .
qed

lemma text_le_digits:
  assumes "list_all is_ascii_digit a" "list_all is_ascii_digit b" "length a = length b"
  shows "text_le a b \<longleftrightarrow> digits_val acc a \<le> digits_val acc b"
  using assms
proof (induction a b arbitrary: acc rule: text_le.induct)
  case (3 x a y b)
  then have d: "list_all is_ascii_digit a" "list_all is_ascii_digit b" "length a = length b"
    and xy: "48 \<le> x" "48 \<le> y" using is_ascii_digitD [of x] is_ascii_digitD [of y] by auto
  consider "x < y" | "x = y" | "y < x" by linarith
  then show ?case
  proof cases
    case 1
    then have "10 * acc + digit_val x < 10 * acc + digit_val y"
      using xy by (simp add: digit_val_def)
    from digits_val_mono_acc [OF d this] 1 show ?thesis by simp
  next
    case 2
    with "3.IH" d show ?thesis by simp
  next
    case 3
    then have "10 * acc + digit_val y < 10 * acc + digit_val x"
      using xy by (simp add: digit_val_def)
    from digits_val_mono_acc [OF d(2,1) d(3) [symmetric] this] 3 show ?thesis by simp
  qed
qed auto

end
