(* ===== verification/Agent_Types.thy ===== *)
theory Agent_Types
  imports Sql_Tables
begin

text \<open>
  The enumerations of the agent domain (\<^verbatim>\<open>src/src/agent.rs\<close>) with their database values, the
  state graph of the Git finalization journal, and the registry: the tables of the agent
  database that the repositories read and write, one record per row and one list per table.
\<close>

section \<open>Git modes\<close>

datatype AgentGitMode = Off | Commit | CommitAndPush

fun git_mode_next :: "AgentGitMode \<Rightarrow> AgentGitMode" where
  "git_mode_next Off = Commit"
| "git_mode_next Commit = CommitAndPush"
| "git_mode_next CommitAndPush = Off"

fun git_mode_database_value :: "AgentGitMode \<Rightarrow> string" where
  "git_mode_database_value Off = ''off''"
| "git_mode_database_value Commit = ''commit''"
| "git_mode_database_value CommitAndPush = ''commit-and-push''"

definition git_mode_from_database :: "string \<Rightarrow> AgentGitMode result" where
  "git_mode_from_database v =
     (if v = ''off'' then Inr Off
      else if v = ''commit'' then Inr Commit
      else if v = ''commit-and-push'' then Inr CommitAndPush
      else Inl ''Unknown agent Git mode'')"

section \<open>Git finalization states\<close>

datatype GitFinalizationState =
  Working | Tracking | CommitPending | PushPending | Completed | Cancelled

fun gfs_database_value :: "GitFinalizationState \<Rightarrow> string" where
  "gfs_database_value Working = ''working''"
| "gfs_database_value Tracking = ''tracking''"
| "gfs_database_value CommitPending = ''commit_pending''"
| "gfs_database_value PushPending = ''push_pending''"
| "gfs_database_value Completed = ''completed''"
| "gfs_database_value Cancelled = ''cancelled''"

definition gfs_from_database :: "string \<Rightarrow> GitFinalizationState result" where
  "gfs_from_database v =
     (if v = ''working'' then Inr Working
      else if v = ''tracking'' then Inr Tracking
      else if v = ''commit_pending'' then Inr CommitPending
      else if v = ''push_pending'' then Inr PushPending
      else if v = ''completed'' then Inr Completed
      else if v = ''cancelled'' then Inr Cancelled
      else Inl ''Unknown Git finalization state'')"

definition gfs_is_terminal :: "GitFinalizationState \<Rightarrow> bool" where
  "gfs_is_terminal s \<longleftrightarrow> s \<in> {Completed, Cancelled}"

definition gfs_is_finalizing :: "GitFinalizationState \<Rightarrow> bool" where
  "gfs_is_finalizing s \<longleftrightarrow> s \<in> {Tracking, CommitPending, PushPending}"

fun gfs_status_label :: "GitFinalizationState \<Rightarrow> string" where
  "gfs_status_label Working = ''WORKING''"
| "gfs_status_label Tracking = ''FINALIZING''"
| "gfs_status_label CommitPending = ''FINALIZING''"
| "gfs_status_label PushPending = ''PUSH-PENDING''"
| "gfs_status_label Completed = ''DONE''"
| "gfs_status_label Cancelled = ''CANCELLED''"

fun can_transition_to :: "GitFinalizationState \<Rightarrow> GitFinalizationState \<Rightarrow> bool" where
  "can_transition_to Working next \<longleftrightarrow> next \<in> {Working, Tracking, Cancelled}"
| "can_transition_to Tracking next \<longleftrightarrow> next \<in> {Tracking, CommitPending}"
| "can_transition_to CommitPending next \<longleftrightarrow> next \<in> {CommitPending, PushPending, Completed}"
| "can_transition_to PushPending next \<longleftrightarrow> next \<in> {PushPending, Completed}"
| "can_transition_to Completed next \<longleftrightarrow> False"
| "can_transition_to Cancelled next \<longleftrightarrow> False"

section \<open>Session controls\<close>

datatype AgentSessionControlAction = Stop | Interrupt

datatype AgentSessionControlState =
  Running | StopRequested | Stopped | InterruptRequested | ReadyInteractive | Interactive
| ResumeRequested

fun scs_database_value :: "AgentSessionControlState \<Rightarrow> string" where
  "scs_database_value Running = ''running''"
| "scs_database_value StopRequested = ''stop_requested''"
| "scs_database_value Stopped = ''stopped''"
| "scs_database_value InterruptRequested = ''interrupt_requested''"
| "scs_database_value ReadyInteractive = ''ready_interactive''"
| "scs_database_value Interactive = ''interactive''"
| "scs_database_value ResumeRequested = ''resume_requested''"

definition scs_from_database :: "string \<Rightarrow> AgentSessionControlState result" where
  "scs_from_database v =
     (if v = ''running'' then Inr Running
      else if v = ''stop_requested'' then Inr StopRequested
      else if v = ''stopped'' then Inr Stopped
      else if v = ''interrupt_requested'' then Inr InterruptRequested
      else if v = ''ready_interactive'' then Inr ReadyInteractive
      else if v = ''interactive'' then Inr Interactive
      else if v = ''resume_requested'' then Inr ResumeRequested
      else Inl ''Unknown Codex session control state'')"

fun requested_action :: "AgentSessionControlState \<Rightarrow> AgentSessionControlAction option" where
  "requested_action StopRequested = Some Stop"
| "requested_action InterruptRequested = Some Interrupt"
| "requested_action _ = None"

section \<open>Worker states\<close>

text \<open>The values of \<^verbatim>\<open>agent_workers.state\<close> the statements write and test.\<close>

datatype WorkerState = WDispatching | WRunning | WFinalizing | WCompleted | WAbandoned | WSuperseded

definition worker_active :: "WorkerState \<Rightarrow> bool" where
  "worker_active s \<longleftrightarrow> s \<in> {WDispatching, WRunning, WFinalizing}"

section \<open>Rows\<close>

record project_row =
  p_id :: int
  p_path :: str
  p_name :: str
  p_enabled :: bool
  p_git_mode :: AgentGitMode
  p_last_run_at :: "str option"
  p_last_success_at :: "str option"
  p_last_failure_at :: "str option"
  p_last_blocked_recovery_at :: "str option"
  p_failure_count :: int
  p_updated_at :: str
  p_registered_at :: str
  p_codex_provider :: "str option"
  p_codex_model :: "str option"
  p_codex_reasoning_effort :: "str option"
  p_codex_fast_enabled :: bool
  p_last_scan_at :: "str option"
  p_last_daemon_scan_status :: "str option"
  p_last_daemon_scan_error :: "str option"

record lease_row =
  l_project :: int
  l_holder :: str
  l_acquired_at :: str
  l_expires_at :: str

record worker_row =
  w_token :: str
  w_project :: int
  w_state :: WorkerState
  w_protocol_version :: int
  w_lease_holder :: str
  w_service_label :: str
  w_binary_path :: str
  w_command_arguments :: str
  w_path_env :: str
  w_codex_path :: "str option"
  w_task_selection :: str
  w_resume_session_id :: "str option"
  w_pid :: "int option"
  w_created_at :: str
  w_started_at :: "str option"
  w_heartbeat_at :: "str option"
  w_finished_at :: "str option"
  w_run_id :: "int option"
  w_error :: "str option"
  w_service_cleaned_at :: "str option"

record run_row =
  r_id :: int
  r_project :: int
  r_status :: string
  r_started_at :: str
  r_finished_at :: "str option"
  r_exit_code :: "int option"
  r_log_dir :: "str option"
  r_stdout_path :: "str option"
  r_stderr_path :: "str option"
  r_summary :: "str option"
  r_codex_session_id :: "str option"
  r_worker_token :: "str option"

record control_row =
  sc_project :: int
  sc_session :: str
  sc_state :: AgentSessionControlState
  sc_child_pid :: "int option"
  sc_run_token :: "str option"
  sc_interactive_holder :: "str option"
  sc_interactive_launch_token :: "str option"
  sc_stdout_path :: "str option"
  sc_stderr_path :: "str option"
  sc_updated_at :: str

record journal_row =
  g_project :: int
  g_session :: str
  g_state :: GitFinalizationState
  g_git_mode :: AgentGitMode
  g_starting_head :: "str option"
  g_branch_ref :: "str option"
  g_upstream_ref :: "str option"
  g_worktree_baseline :: str
  g_task_identity :: "str option"
  g_owner_run_token :: "str option"
  g_commit_oid :: "str option"
  g_generation :: int
  g_last_error :: "str option"
  g_created_at :: str
  g_updated_at :: str
  g_completed_at :: "str option"
  g_acknowledged_at :: "str option"
  g_acknowledged_run_id :: "int option"

record launch_row =
  gl_project :: int
  gl_run_token :: str
  gl_git_mode :: AgentGitMode
  gl_starting_head :: str
  gl_branch_ref :: "str option"
  gl_upstream_ref :: "str option"
  gl_worktree_baseline :: str
  gl_created_at :: str

record session_mode_row =
  sm_project :: int
  sm_session :: str
  sm_git_mode :: AgentGitMode

record checkin_row =
  dc_holder :: str
  dc_mode :: str
  dc_started_at :: str
  dc_checked_in_at :: str
  dc_expires_at :: str

record registry =
  projects :: "project_row table"
  runs :: "run_row table"
  leases :: "lease_row table"
  workers :: "worker_row table"
  controls :: "control_row table"
  journals :: "journal_row table"
  launches :: "launch_row table"
  session_modes :: "session_mode_row table"
  checkins :: "checkin_row table"

text \<open>An operation of the store: its result, or the error it raises, and the registry after it.
  A transaction that is dropped before its commit leaves the registry as it was.\<close>

type_synonym 'a db = "registry \<Rightarrow> 'a result \<times> registry"

definition project_exists :: "registry \<Rightarrow> int \<Rightarrow> bool" where
  "project_exists db pid = sql_exists (\<lambda>p. p_id p = pid) (projects db)"

record AgentRunOutcome =
  o_project :: int
  o_status :: string
  o_started_at :: str
  o_finished_at :: "str option"
  o_exit_code :: "int option"
  o_log_dir :: "str option"
  o_stdout_path :: "str option"
  o_stderr_path :: "str option"
  o_summary :: "str option"
  o_codex_session_id :: "str option"

text \<open>What a finished run leaves on its project.\<close>

definition update_project_after_run :: "AgentRunOutcome \<Rightarrow> registry \<Rightarrow> registry" where
  "update_project_after_run oc db =
     (let at = (case o_finished_at oc of None \<Rightarrow> o_started_at oc | Some t \<Rightarrow> t);
          upd = (\<lambda>f. db\<lparr>projects := sql_update (\<lambda>p. p_id p = o_project oc) f (projects db)\<rparr>)
      in if o_status oc \<in> {''success'', ''idle''} then
           upd (\<lambda>p. p\<lparr>p_last_run_at := Some at, p_last_success_at := Some at,
                      p_last_failure_at := None, p_last_blocked_recovery_at := None,
                      p_failure_count := 0, p_updated_at := at\<rparr>)
         else if o_status oc = ''blocked'' then
           upd (\<lambda>p. p\<lparr>p_last_run_at := Some at, p_last_blocked_recovery_at := Some at,
                      p_updated_at := at\<rparr>)
         else if o_status oc \<in> {''failure'', ''timeout''} then
           upd (\<lambda>p. p\<lparr>p_last_run_at := Some at, p_last_failure_at := Some at,
                      p_failure_count := p_failure_count p + 1, p_updated_at := at\<rparr>)
         else upd (\<lambda>p. p\<lparr>p_last_run_at := Some at, p_updated_at := at\<rparr>))"

definition worker_lease_holder :: "str \<Rightarrow> str" where
  "worker_lease_holder token = lit ''clt-worker-'' @ token"

section \<open>Facts on the enumerations\<close>

lemma git_mode_next_cycle: "git_mode_next (git_mode_next (git_mode_next m)) = m"
  by (cases m) auto

text \<open>The ranks by which the journal's states only move forward.\<close>

fun gfs_rank :: "GitFinalizationState \<Rightarrow> nat" where
  "gfs_rank Working = 0"
| "gfs_rank Tracking = 1"
| "gfs_rank CommitPending = 2"
| "gfs_rank PushPending = 3"
| "gfs_rank Completed = 4"
| "gfs_rank Cancelled = 4"

lemma can_transition_to_rank: "can_transition_to s t \<Longrightarrow> s = t \<or> gfs_rank s < gfs_rank t"
  by (cases s; cases t) auto

lemma can_transition_terminal: "gfs_is_terminal s \<Longrightarrow> \<not> can_transition_to s t"
  by (cases s) (auto simp: gfs_is_terminal_def)

lemma update_project_after_run_frame [simp]:
  "runs (update_project_after_run oc db) = runs db"
  "leases (update_project_after_run oc db) = leases db"
  "workers (update_project_after_run oc db) = workers db"
  "controls (update_project_after_run oc db) = controls db"
  "journals (update_project_after_run oc db) = journals db"
  "launches (update_project_after_run oc db) = launches db"
  "session_modes (update_project_after_run oc db) = session_modes db"
  "checkins (update_project_after_run oc db) = checkins db"
  by (simp_all add: update_project_after_run_def Let_def)

lemma map_sql_update:
  assumes "\<And>r. k (f r) = k r"
  shows "map k (sql_update P f t) = map k t"
  using assms by (simp add: sql_update_def)

text \<open>What identifies a project: no transaction on workers, journals or sessions writes it.\<close>

definition project_key :: "project_row \<Rightarrow> int \<times> str" where
  "project_key p = (p_id p, p_path p)"

lemma project_key_ids: "map project_key ps = map project_key qs \<Longrightarrow> map p_id ps = map p_id qs"
  and project_key_paths: "map project_key ps = map project_key qs \<Longrightarrow> map p_path ps = map p_path qs"
proof -
  have "map p_id xs = map fst (map project_key xs)" "map p_path xs = map snd (map project_key xs)" for xs
    by (simp_all add: project_key_def)
  then show "map project_key ps = map project_key qs \<Longrightarrow> map p_id ps = map p_id qs"
    "map project_key ps = map project_key qs \<Longrightarrow> map p_path ps = map p_path qs" by metis+
qed

lemma update_project_after_run_keys [simp]:
  "map project_key (projects (update_project_after_run oc db)) = map project_key (projects db)"
  by (simp add: update_project_after_run_def Let_def map_sql_update project_key_def)

lemma update_project_after_run_ids [simp]:
  "map p_id (projects (update_project_after_run oc db)) = map p_id (projects db)"
  by (rule project_key_ids) (rule update_project_after_run_keys)

lemma project_exists_after_run [simp]:
  "project_exists (update_project_after_run oc db) pid = project_exists db pid"
proof -
  have "project_exists d pid \<longleftrightarrow> pid \<in> set (map p_id (projects d))" for d
    by (auto simp: project_exists_def sql_exists_iff)
  then show ?thesis by (simp only: update_project_after_run_ids)
qed

end
