(* ===== verification/Workers_Leases.thy ===== *)
theory Workers_Leases
  imports Agent_Types "HOL-Library.Product_Lexorder" "HOL-Library.List_Lexorder"
begin

text \<open>
  The repository of independent workers and project leases
  (\<^verbatim>\<open>src/src/agent/repositories/workers_leases.rs\<close>): every statement and every transaction as a
  function on the registry, the invariant they keep, the step relation of the store, and
  the safety properties that make a lease an exclusive right to run a project.
\<close>

section \<open>Lease reads\<close>

definition lease_for_project :: "registry \<Rightarrow> int \<Rightarrow> (lease_row \<times> project_row) option" where
  "lease_for_project db pid =
     (case sql_select (\<lambda>l. l_project l = pid) (leases db) of
        None \<Rightarrow> None
      | Some l \<Rightarrow> map_option (\<lambda>p. (l, p)) (sql_select (\<lambda>p. p_id p = l_project l) (projects db)))"

text \<open>\<^verbatim>\<open>JOIN projects p ON p.id = ...\<close>: the rows whose project exists, each with it, in the order
  the query asks for (\<^verbatim>\<open>COLLATE NOCASE\<close> folds ASCII letters).\<close>

definition join_project :: "registry \<Rightarrow> ('r \<Rightarrow> int) \<Rightarrow> 'r \<Rightarrow> ('r \<times> project_row) option" where
  "join_project db f r = map_option (\<lambda>p. (r, p)) (sql_select (\<lambda>p. p_id p = f r) (projects db))"

definition list_active_leases :: "registry \<Rightarrow> str \<Rightarrow> (lease_row \<times> project_row) list" where
  "list_active_leases db now =
     sort_key (\<lambda>(l, p). (str_to_i64 (l_expires_at l), to_ascii_lowercase (p_name p)))
       (List.map_filter (join_project db l_project)
          (filter (\<lambda>l. \<not> cast_le (l_expires_at l) now) (leases db)))"

definition has_active_worker :: "registry \<Rightarrow> int \<Rightarrow> bool" where
  "has_active_worker db pid =
     sql_exists (\<lambda>w. w_project w = pid \<and> worker_active (w_state w)) (workers db)"

section \<open>Acquiring a lease\<close>

definition reattached_holder :: "str \<Rightarrow> bool" where
  "reattached_holder h = like_prefix (lit ''clt-reattached-'') h"

text \<open>\<^verbatim>\<open>INSERT OR IGNORE INTO leases\<close>: ignored where the project has a lease; an unknown project
  violates the foreign key.\<close>

definition insert_lease :: "lease_row \<Rightarrow> bool db" where
  "insert_lease l db =
     (if sql_exists (\<lambda>l'. l_project l' = l_project l) (leases db) then (Inr False, db)
      else if \<not> project_exists db (l_project l) then (Inl ''FOREIGN KEY constraint failed'', db)
      else (Inr True, db\<lparr>leases := sql_insert l (leases db)\<rparr>))"

definition try_acquire_lease :: "int \<Rightarrow> str \<Rightarrow> str \<Rightarrow> str \<Rightarrow> bool db" where
  "try_acquire_lease pid holder acquired_at expires_at db =
     (let db1 = db\<lparr>leases := sql_delete (\<lambda>l. l_project l = pid \<and> text_le (l_expires_at l) acquired_at
                     \<and> \<not> reattached_holder (l_holder l)
                     \<and> \<not> sql_exists (\<lambda>w. w_project w = l_project l \<and> w_lease_holder w = l_holder l
                                          \<and> worker_active (w_state w)) (workers db)) (leases db)\<rparr>
      in insert_lease \<lparr>l_project = pid, l_holder = holder, l_acquired_at = acquired_at,
                       l_expires_at = expires_at\<rparr> db1)"

definition git_finalization_token_prefix :: str where
  "git_finalization_token_prefix = lit ''clt-git-finalization:''"

definition show_int :: "int \<Rightarrow> str" where
  "show_int i = (if i < 0 then lit ''-'' @ show_nat (nat (- i)) else show_nat (nat i))"

definition journal_open :: "GitFinalizationState \<Rightarrow> bool" where
  "journal_open s \<longleftrightarrow> s \<in> {Working, Tracking, CommitPending, PushPending}"

definition journal_of :: "control_row \<Rightarrow> journal_row \<Rightarrow> bool" where
  "journal_of sc g \<longleftrightarrow> g_project g = sc_project sc \<and> g_session g = sc_session sc"

definition shared_holder :: "str \<Rightarrow> bool" where
  "shared_holder h \<longleftrightarrow> like_prefix (lit ''clt-shared-interactive-'') h
     \<or> like_prefix (lit ''clt-stopped-shared-interactive-'') h
     \<or> like_prefix (lit ''clt-readonly-interactive-'') h
     \<or> like_prefix (lit ''clt-stopped-readonly-interactive-'') h"

text \<open>The predicate shared by all finalizer lease checks: this control does not fence a
  commit proof or publication.\<close>

definition nonblocking_control :: "registry \<Rightarrow> control_row \<Rightarrow> bool" where
  "nonblocking_control db sc \<longleftrightarrow>
     sc_state sc = Stopped
     \<or> (sc_state sc = ResumeRequested \<and> sc_child_pid sc = None \<and> sc_interactive_holder sc = None
        \<and> sc_interactive_launch_token sc = None
        \<and> sql_exists (\<lambda>g. journal_of sc g \<and> journal_open (g_state g)
             \<and> sc_run_token sc = Some (git_finalization_token_prefix @ show_int (g_generation g)))
           (journals db))
     \<or> (sc_state sc \<in> {ReadyInteractive, Interactive, StopRequested}
        \<and> (case sc_interactive_holder sc of None \<Rightarrow> False | Some h \<Rightarrow> shared_holder h)
        \<and> ((sc_state sc = ReadyInteractive \<and> sc_child_pid sc = None
              \<and> sc_interactive_launch_token sc = None)
           \<or> (sc_state sc \<in> {Interactive, StopRequested}
              \<and> sc_interactive_launch_token sc \<noteq> None
              \<and> sc_interactive_launch_token sc = sc_interactive_holder sc))
        \<and> \<not> sql_exists (\<lambda>g. journal_of sc g \<and> g_state g \<notin> {Completed, Cancelled}) (journals db))"

definition controls_allow_finalization :: "registry \<Rightarrow> int \<Rightarrow> bool" where
  "controls_allow_finalization db pid \<longleftrightarrow>
     \<not> sql_exists (\<lambda>sc. sc_project sc = pid \<and> \<not> nonblocking_control db sc) (controls db)"

definition repair_recovery_fences :: "int \<Rightarrow> str \<Rightarrow> registry \<Rightarrow> registry" where
  "repair_recovery_fences pid now db =
     (let open_of = (\<lambda>sc. sql_select (\<lambda>g. journal_of sc g \<and> journal_open (g_state g)) (journals db))
      in db\<lparr>controls := sql_update
              (\<lambda>sc. sc_project sc = pid \<and> sc_state sc = ResumeRequested \<and> sc_child_pid sc = None
                 \<and> sc_interactive_holder sc = None \<and> sc_interactive_launch_token sc = None
                 \<and> (case sc_run_token sc of None \<Rightarrow> False
                    | Some t \<Rightarrow> like_prefix git_finalization_token_prefix t)
                 \<and> open_of sc \<noteq> None)
              (\<lambda>sc. sc\<lparr>sc_run_token := map_option
                          (\<lambda>g. git_finalization_token_prefix @ show_int (g_generation g)) (open_of sc),
                       sc_updated_at := now\<rparr>)
              (controls db)\<rparr>)"

definition try_acquire_git_finalization_lease ::
  "int \<Rightarrow> str \<Rightarrow> str \<Rightarrow> str \<Rightarrow> str option \<Rightarrow> bool db" where
  "try_acquire_git_finalization_lease pid holder acquired_at expires_at reclaim_holder db =
     (let db1 = repair_recovery_fences pid acquired_at db;
          db2 = db1\<lparr>leases := sql_delete
                  (\<lambda>l. l_project l = pid
                     \<and> ((\<not> reattached_holder (l_holder l) \<and> cast_le (l_expires_at l) acquired_at)
                        \<or> reclaim_holder = Some (l_holder l))
                     \<and> \<not> has_active_worker db1 (l_project l)
                     \<and> controls_allow_finalization db1 pid)
                  (leases db1)\<rparr>
      in if sql_exists (\<lambda>g. g_project g = pid \<and> journal_open (g_state g)) (journals db2)
            \<and> \<not> has_active_worker db2 pid \<and> controls_allow_finalization db2 pid
         then (case insert_lease \<lparr>l_project = pid, l_holder = holder, l_acquired_at = acquired_at,
                                  l_expires_at = expires_at\<rparr> db2 of
                 (Inl e, _) \<Rightarrow> (Inl e, db)
               | (Inr b, db3) \<Rightarrow> (Inr b, db3))
         else (Inr False, db2))"

section \<open>Renewing, checking and releasing a lease\<close>

definition renew_git_finalization_lease :: "int \<Rightarrow> str \<Rightarrow> str \<Rightarrow> bool db" where
  "renew_git_finalization_lease pid holder expires_at db =
     (let P = (\<lambda>l. l_project l = pid \<and> l_holder l = holder \<and> \<not> has_active_worker db pid
                   \<and> controls_allow_finalization db pid)
      in (Inr (sql_count P (leases db) = 1),
          db\<lparr>leases := sql_update P (\<lambda>l. l\<lparr>l_expires_at := expires_at\<rparr>) (leases db)\<rparr>))"

definition git_finalization_lease_is_owned :: "registry \<Rightarrow> int \<Rightarrow> str \<Rightarrow> str \<Rightarrow> bool" where
  "git_finalization_lease_is_owned db pid holder now =
     (sql_count (\<lambda>l. l_project l = pid \<and> l_holder l = holder \<and> \<not> cast_le (l_expires_at l) now
                   \<and> \<not> has_active_worker db pid \<and> controls_allow_finalization db pid) (leases db) = 1)"

definition renew_lease :: "int \<Rightarrow> str \<Rightarrow> str \<Rightarrow> bool db" where
  "renew_lease pid holder expires_at db =
     (let P = (\<lambda>l. l_project l = pid \<and> l_holder l = holder);
          db1 = db\<lparr>leases := sql_update P (\<lambda>l. l\<lparr>l_expires_at := expires_at\<rparr>) (leases db)\<rparr>
      in if 0 < sql_count P (leases db) then (Inr True, db1)
         else (Inr (0 < sql_count P (leases db1)), db1))"

definition release_lease :: "int \<Rightarrow> str \<Rightarrow> bool db" where
  "release_lease pid holder db =
     (let P = (\<lambda>l. l_project l = pid \<and> l_holder l = holder)
      in (Inr (0 < sql_count P (leases db)), db\<lparr>leases := sql_delete P (leases db)\<rparr>))"

section \<open>Reserving and claiming a worker\<close>

record AgentWorkerReservation =
  res_project :: int
  res_token :: str
  res_expected_lease_holder :: str
  res_max_active_workers :: nat
  res_protocol_version :: int
  res_service_label :: str
  res_binary_path :: str
  res_command_arguments :: str
  res_path_env :: str
  res_codex_path :: "str option"
  res_task_selection :: str
  res_resume_session_id :: "str option"
  res_created_at :: str

definition reserved_worker :: "AgentWorkerReservation \<Rightarrow> worker_row" where
  "reserved_worker r =
     \<lparr>w_token = res_token r, w_project = res_project r, w_state = WDispatching,
      w_protocol_version = res_protocol_version r,
      w_lease_holder = worker_lease_holder (res_token r),
      w_service_label = res_service_label r, w_binary_path = res_binary_path r,
      w_command_arguments = res_command_arguments r, w_path_env = res_path_env r,
      w_codex_path = res_codex_path r, w_task_selection = res_task_selection r,
      w_resume_session_id = res_resume_session_id r, w_pid = None,
      w_created_at = res_created_at r, w_started_at = None,
      w_heartbeat_at = Some (res_created_at r), w_finished_at = None, w_run_id = None,
      w_error = None, w_service_cleaned_at = None\<rparr>"

text \<open>The unique constraints of \<^verbatim>\<open>agent_workers\<close>: token, lease holder, service label, and the
  partial index that admits one active worker per project.\<close>

definition worker_conflicts :: "worker_row \<Rightarrow> worker_row \<Rightarrow> bool" where
  "worker_conflicts w v \<longleftrightarrow> w_token v = w_token w \<or> w_lease_holder v = w_lease_holder w
     \<or> w_service_label v = w_service_label w
     \<or> (w_project v = w_project w \<and> worker_active (w_state v) \<and> worker_active (w_state w))"

definition has_own_lease :: "registry \<Rightarrow> worker_row \<Rightarrow> bool" where
  "has_own_lease db w =
     sql_exists (\<lambda>l. l_project l = w_project w \<and> l_holder l = w_lease_holder w) (leases db)"

definition claimable :: "registry \<Rightarrow> str \<Rightarrow> worker_row \<Rightarrow> bool" where
  "claimable db token w \<longleftrightarrow> w_token w = token \<and> w_state w = WDispatching \<and> has_own_lease db w"

definition claim_row :: "int \<Rightarrow> str \<Rightarrow> worker_row \<Rightarrow> worker_row" where
  "claim_row pid started_at w =
     w\<lparr>w_state := WRunning, w_pid := Some pid, w_started_at := Some started_at,
       w_heartbeat_at := Some started_at, w_error := None\<rparr>"

definition reserve_worker :: "AgentWorkerReservation \<Rightarrow> (int \<times> str) option \<Rightarrow> bool db" where
  "reserve_worker r initial_claim db =
     (let w = reserved_worker r;
          transfer = (\<lambda>l. l_project l = res_project r \<and> l_holder l = res_expected_lease_holder r);
          db1 = db\<lparr>workers := sql_insert w (workers db)\<rparr>;
          db2 = db1\<lparr>leases := sql_update transfer (\<lambda>l. l\<lparr>l_holder := w_lease_holder w\<rparr>) (leases db1)\<rparr>;
          db3 = db2\<lparr>workers := sql_update
                  (\<lambda>v. w_project v = res_project r \<and> w_state v = WAbandoned \<and> w_token v \<noteq> res_token r)
                  (\<lambda>v. v\<lparr>w_state := WSuperseded\<rparr>) (workers db2)\<rparr>
      in if int (res_max_active_workers r) > i64_max then
           (Inl ''Maximum active worker count is outside the supported range'', db)
         else if res_max_active_workers r = 0
              \<or> sql_count (\<lambda>v. worker_active (w_state v)) (workers db) \<ge> res_max_active_workers r
         then (Inr False, db)
         else if sql_exists (worker_conflicts w) (workers db) then (Inr False, db)
         else if \<not> project_exists db (res_project r) then (Inl ''FOREIGN KEY constraint failed'', db)
         else if sql_count transfer (leases db) \<noteq> 1 then (Inr False, db)
         else (case initial_claim of
                 None \<Rightarrow> (Inr True, db3)
               | Some (pid, started_at) \<Rightarrow>
                   if sql_count (claimable db3 (res_token r)) (workers db3) \<noteq> 1 then (Inr False, db)
                   else (Inr True, db3\<lparr>workers := sql_update (claimable db3 (res_token r))
                                          (claim_row pid started_at) (workers db3)\<rparr>)))"

definition claim_worker :: "str \<Rightarrow> int \<Rightarrow> str \<Rightarrow> bool db" where
  "claim_worker token pid started_at db =
     (if sql_count (claimable db token) (workers db) = 1
      then (Inr True, db\<lparr>workers := sql_update (claimable db token) (claim_row pid started_at)
                                   (workers db)\<rparr>)
      else (Inr (sql_count (\<lambda>w. w_token w = token \<and> w_state w = WRunning \<and> w_pid w = Some pid
                              \<and> has_own_lease db w) (workers db) = 1),
            db\<lparr>workers := sql_update (claimable db token) (claim_row pid started_at) (workers db)\<rparr>))"

definition renew_worker :: "str \<Rightarrow> int \<Rightarrow> str \<Rightarrow> str \<Rightarrow> bool db" where
  "renew_worker token pid heartbeat_at lease_expires_at db =
     (let owns = (\<lambda>w. w_token w = token \<and> w_state w = WRunning \<and> w_pid w = Some pid)
      in case sql_select (\<lambda>w. owns w \<and> has_own_lease db w) (workers db) of
           None \<Rightarrow> (Inr False, db)
         | Some w0 \<Rightarrow>
             let db1 = db\<lparr>workers := sql_update owns (\<lambda>w. w\<lparr>w_heartbeat_at := Some heartbeat_at\<rparr>)
                                       (workers db)\<rparr>;
                 lease = (\<lambda>l. l_project l = w_project w0 \<and> l_holder l = w_lease_holder w0);
                 db2 = db1\<lparr>leases := sql_update lease (\<lambda>l. l\<lparr>l_expires_at := lease_expires_at\<rparr>)
                                       (leases db1)\<rparr>
             in if sql_count owns (workers db) \<noteq> 1
                   \<and> sql_count (\<lambda>w. owns w \<and> w_heartbeat_at w = Some heartbeat_at) (workers db1) \<noteq> 1
                then (Inr False, db)
                else if sql_count lease (leases db) \<noteq> 1
                        \<and> sql_count (\<lambda>l. lease l \<and> l_expires_at l = lease_expires_at) (leases db2) \<noteq> 1
                then (Inr False, db)
                else (Inr True, db2))"

section \<open>Listing and inspecting workers\<close>

definition list_workers_by_terminal_state :: "registry \<Rightarrow> bool \<Rightarrow> (worker_row \<times> project_row) list result" where
  "list_workers_by_terminal_state db terminal =
     (let rows = sort_key (\<lambda>(w, p). (str_to_i64 (w_created_at w), w_token w))
                   (List.map_filter (join_project db w_project)
                      (filter (\<lambda>w. worker_active (w_state w) \<noteq> terminal) (workers db)));
          pid_ok = (\<lambda>(w, p). case w_pid w of None \<Rightarrow> True | Some i \<Rightarrow> 0 \<le> i \<and> i \<le> int u32_max)
      in if list_all pid_ok rows then Inr rows
         else Inl ''Agent worker PID is outside the supported range'')"

fun worker_state_database_value :: "WorkerState \<Rightarrow> string" where
  "worker_state_database_value WDispatching = ''dispatching''"
| "worker_state_database_value WRunning = ''running''"
| "worker_state_database_value WFinalizing = ''finalizing''"
| "worker_state_database_value WCompleted = ''completed''"
| "worker_state_database_value WAbandoned = ''abandoned''"
| "worker_state_database_value WSuperseded = ''superseded''"

definition worker_fence_snapshot :: "registry \<Rightarrow> str \<Rightarrow> int \<Rightarrow> str" where
  "worker_fence_snapshot db token expected_pid =
     (case sql_select (\<lambda>w. w_token w = token) (workers db) of
        None \<Rightarrow> lit ''worker=missing expected_pid='' @ show_int expected_pid
      | Some w \<Rightarrow>
          lit ''state='' @ lit (worker_state_database_value (w_state w))
          @ lit '' worker_pid='' @ (case w_pid w of None \<Rightarrow> lit ''missing'' | Some p \<Rightarrow> show_int p)
          @ lit '' expected_pid='' @ show_int expected_pid
          @ lit '' worker_lease_holder='' @ w_lease_holder w
          @ lit '' project_lease='' @
            (case sql_select (\<lambda>l. l_project l = w_project w) (leases db) of
               None \<Rightarrow> lit ''missing''
             | Some l \<Rightarrow> l_holder l @ lit ''@'' @ l_expires_at l)
          @ lit '' heartbeat_at='' @
            (case w_heartbeat_at w of None \<Rightarrow> lit ''missing'' | Some t \<Rightarrow> t))"

section \<open>Superseding and cleaning\<close>

definition supersede_abandoned_workers_for_lease :: "int \<Rightarrow> str \<Rightarrow> nat db" where
  "supersede_abandoned_workers_for_lease pid holder db =
     (let P = (\<lambda>w. w_project w = pid \<and> w_state w = WAbandoned
                 \<and> sql_exists (\<lambda>l. l_project l = w_project w \<and> l_holder l = holder) (leases db))
      in (Inr (sql_count P (workers db)),
          db\<lparr>workers := sql_update P (\<lambda>w. w\<lparr>w_state := WSuperseded\<rparr>) (workers db)\<rparr>))"

definition mark_worker_service_cleaned :: "str \<Rightarrow> str \<Rightarrow> bool db" where
  "mark_worker_service_cleaned token cleaned_at db =
     (let P = (\<lambda>w. w_token w = token \<and> \<not> worker_active (w_state w))
      in (Inr (sql_count P (workers db) = 1),
          db\<lparr>workers := sql_update P (\<lambda>w. w\<lparr>w_service_cleaned_at := Some cleaned_at\<rparr>) (workers db)\<rparr>))"

section \<open>Recording the end of a worker\<close>

definition outcome_row :: "AgentRunOutcome \<Rightarrow> str \<Rightarrow> int \<Rightarrow> run_row" where
  "outcome_row oc token rid =
     \<lparr>r_id = rid, r_project = o_project oc, r_status = o_status oc,
      r_started_at = o_started_at oc, r_finished_at = o_finished_at oc,
      r_exit_code = o_exit_code oc, r_log_dir = o_log_dir oc, r_stdout_path = o_stdout_path oc,
      r_stderr_path = o_stderr_path oc, r_summary = o_summary oc,
      r_codex_session_id = o_codex_session_id oc, r_worker_token = Some token\<rparr>"

text \<open>\<^verbatim>\<open>INSERT OR IGNORE INTO runs\<close> for a worker, then the id of the worker's run: a new one
  (which also updates the project), or the one recorded before.\<close>

definition record_worker_run :: "AgentRunOutcome \<Rightarrow> str \<Rightarrow> int db" where
  "record_worker_run oc token db =
     (if sql_exists (\<lambda>r. r_worker_token r = Some token) (runs db)
      then (case sql_select (\<lambda>r. r_worker_token r = Some token \<and> r_project r = o_project oc) (runs db) of
              None \<Rightarrow> (Inl ''Agent database query returned no rows'', db)
            | Some r \<Rightarrow> (Inr (r_id r), db))
      else if \<not> project_exists db (o_project oc) then (Inl ''FOREIGN KEY constraint failed'', db)
      else let rid = next_rowid r_id (runs db)
           in (Inr rid, update_project_after_run oc
                          (db\<lparr>runs := sql_insert (outcome_row oc token rid) (runs db)\<rparr>)))"

record AgentWorkerAbandonment =
  ab_token :: str
  ab_expected_state :: WorkerState
  ab_expected_pid :: "int option"
  ab_expected_heartbeat_at :: "str option"
  ab_finished_at :: str
  ab_error :: str
  ab_permitted_successor :: "str option"

definition abandonment_outcome :: "AgentWorkerAbandonment \<Rightarrow> worker_row \<Rightarrow> AgentRunOutcome" where
  "abandonment_outcome a w =
     \<lparr>o_project = w_project w, o_status = ''failure'',
      o_started_at = (case w_started_at w of None \<Rightarrow> w_created_at w | Some t \<Rightarrow> t),
      o_finished_at = Some (ab_finished_at a), o_exit_code = None,
      o_log_dir = None, o_stdout_path = None, o_stderr_path = None,
      o_summary = Some (ab_error a), o_codex_session_id = None\<rparr>"

definition abandon_row :: "AgentWorkerAbandonment \<Rightarrow> int \<Rightarrow> worker_row \<Rightarrow> worker_row" where
  "abandon_row a rid v = v\<lparr>w_state := WAbandoned, w_finished_at := Some (ab_finished_at a),
     w_error := Some (ab_error a), w_run_id := Some rid\<rparr>"

definition abandon_fenced :: "AgentWorkerAbandonment \<Rightarrow> worker_row \<Rightarrow> bool" where
  "abandon_fenced a w \<longleftrightarrow> w_token w = ab_token a \<and> w_state w = ab_expected_state a
     \<and> w_pid w = ab_expected_pid a \<and> w_heartbeat_at w = ab_expected_heartbeat_at a"

definition lease_holder_of :: "registry \<Rightarrow> int \<Rightarrow> str option" where
  "lease_holder_of db pid = map_option l_holder (sql_select (\<lambda>l. l_project l = pid) (leases db))"

definition own_lease :: "worker_row \<Rightarrow> lease_row \<Rightarrow> bool" where
  "own_lease w l \<longleftrightarrow> l_project l = w_project w \<and> l_holder l = w_lease_holder w"

definition abandon_worker :: "AgentWorkerAbandonment \<Rightarrow> bool db" where
  "abandon_worker a db =
     (case sql_select (abandon_fenced a) (workers db) of
        None \<Rightarrow> (Inr False, db)
      | Some w \<Rightarrow>
          if \<not> (lease_holder_of db (w_project w) = None
                \<or> lease_holder_of db (w_project w) = Some (w_lease_holder w)
                \<or> lease_holder_of db (w_project w) = ab_permitted_successor a)
          then (Inr False, db)
          else case record_worker_run (abandonment_outcome a w) (ab_token a) db of
                 (Inl e, _) \<Rightarrow> (Inl e, db)
               | (Inr rid, db1) \<Rightarrow>
                   let db2 = db1\<lparr>workers := sql_update (abandon_fenced a) (abandon_row a rid) (workers db1)\<rparr>
                   in if sql_count (abandon_fenced a) (workers db1) \<noteq> 1 then (Inr False, db)
                      else if lease_holder_of db (w_project w) = Some (w_lease_holder w)
                      then (if sql_count (own_lease w) (leases db2) \<noteq> 1 then (Inr False, db)
                            else (Inr True, db2\<lparr>leases := sql_delete (own_lease w) (leases db2)\<rparr>))
                      else (Inr True, db2))"

record AgentWorkerFinalization =
  fin_token :: str
  fin_expected_pid :: "int option"
  fin_expected_lease_holder :: str
  fin_status :: string
  fin_finished_at :: str
  fin_exit_code :: "int option"
  fin_log_dir :: "str option"
  fin_stdout_path :: "str option"
  fin_stderr_path :: "str option"
  fin_summary :: "str option"
  fin_codex_session_id :: "str option"
  fin_error :: "str option"

definition finalization_outcome :: "AgentWorkerFinalization \<Rightarrow> worker_row \<Rightarrow> AgentRunOutcome" where
  "finalization_outcome f w =
     \<lparr>o_project = w_project w, o_status = fin_status f,
      o_started_at = (case w_started_at w of None \<Rightarrow> w_created_at w | Some t \<Rightarrow> t),
      o_finished_at = Some (fin_finished_at f), o_exit_code = fin_exit_code f,
      o_log_dir = fin_log_dir f, o_stdout_path = fin_stdout_path f,
      o_stderr_path = fin_stderr_path f, o_summary = fin_summary f,
      o_codex_session_id = fin_codex_session_id f\<rparr>"

definition finalize_fenced :: "AgentWorkerFinalization \<Rightarrow> WorkerState \<Rightarrow> worker_row \<Rightarrow> bool" where
  "finalize_fenced f st v \<longleftrightarrow> w_token v = fin_token f \<and> w_state v = st \<and> w_pid v = fin_expected_pid f"

definition complete_row :: "AgentWorkerFinalization \<Rightarrow> int \<Rightarrow> worker_row \<Rightarrow> worker_row" where
  "complete_row f rid v = v\<lparr>w_state := WCompleted, w_finished_at := Some (fin_finished_at f),
     w_run_id := Some rid, w_error := fin_error f\<rparr>"

definition finalize_worker :: "AgentWorkerFinalization \<Rightarrow> int option db" where
  "finalize_worker f db =
     (case sql_select (\<lambda>w. w_token w = fin_token f) (workers db) of
        None \<Rightarrow> (Inr None, db)
      | Some w \<Rightarrow>
          if w_state w = WCompleted then
            (case w_run_id w of
               None \<Rightarrow> (Inl ''Completed agent worker is missing its run ID'', db)
             | Some rid \<Rightarrow> (Inr (Some rid), db))
          else if \<not> worker_active (w_state w) \<or> w_pid w \<noteq> fin_expected_pid f then (Inr None, db)
          else if sql_count (\<lambda>l. l_project l = w_project w \<and> l_holder l = fin_expected_lease_holder f)
                    (leases db) \<noteq> 1
          then (Inr None, db)
          else if sql_count (finalize_fenced f (w_state w)) (workers db) \<noteq> 1 then (Inr None, db)
          else
            let db1 = db\<lparr>workers := sql_update (finalize_fenced f (w_state w))
                          (\<lambda>v. v\<lparr>w_state := WFinalizing\<rparr>) (workers db)\<rparr>
            in case record_worker_run (finalization_outcome f w) (fin_token f) db1 of
                 (Inl e, _) \<Rightarrow> (Inl e, db)
               | (Inr rid, db2) \<Rightarrow>
                   let mine = (\<lambda>v. w_token v = fin_token f \<and> w_state v = WFinalizing);
                       db3 = db2\<lparr>workers := sql_update mine (complete_row f rid) (workers db2)\<rparr>
                   in if sql_count mine (workers db2) \<noteq> 1 then (Inr None, db)
                      else (Inr (Some rid),
                            db3\<lparr>leases := sql_delete
                               (\<lambda>l. l_project l = w_project w
                                  \<and> Some (l_holder l) = map_option w_lease_holder
                                       (sql_select (\<lambda>v. w_token v = fin_token f) (workers db3)))
                               (leases db3)\<rparr>))"

end
