(* ===== verification/Lease_Safety.thy ===== *)
theory Lease_Safety
  imports Workers_Leases
begin

text \<open>
  Correctness of the worker and lease repository: the invariant of its tables, its
  preservation by every transaction, the step relation of the store with its reachable
  states, and the exclusiveness of leases.
\<close>

section \<open>The invariant of the tables\<close>

text \<open>The constraints of the schema (keys, foreign keys, the partial unique index), and what the
  transactions keep beyond them: a worker's lease holder is derived from its token, a
  claimed worker has a process, and a run is recorded for exactly the workers that ended.\<close>

definition one_active :: "worker_row table \<Rightarrow> bool" where
  "one_active t \<longleftrightarrow> (\<forall>w \<in> set t. \<forall>v \<in> set t. worker_active (w_state w) \<longrightarrow> worker_active (w_state v)
     \<longrightarrow> w_project w = w_project v \<longrightarrow> w = v)"

definition worker_wf :: "worker_row \<Rightarrow> bool" where
  "worker_wf w \<longleftrightarrow> w_lease_holder w = worker_lease_holder (w_token w)
     \<and> (w_state w = WRunning \<longrightarrow> w_pid w \<noteq> None) \<and> (w_state w = WDispatching \<longrightarrow> w_pid w = None)"

definition workers_ok :: "worker_row table \<Rightarrow> bool" where
  "workers_ok t \<longleftrightarrow> unique_on w_token t \<and> unique_on w_lease_holder t \<and> unique_on w_service_label t
     \<and> one_active t \<and> (\<forall>w \<in> set t. worker_wf w)"

definition leases_ok :: "registry \<Rightarrow> bool" where
  "leases_ok db \<longleftrightarrow> unique_on l_project (leases db)
     \<and> (\<forall>l \<in> set (leases db). project_exists db (l_project l))"

definition run_recorded :: "run_row table \<Rightarrow> worker_row \<Rightarrow> bool" where
  "run_recorded t w \<longleftrightarrow> (\<exists>r \<in> set t. r_worker_token r = Some (w_token w) \<and> r_project r = w_project w
     \<and> w_run_id w = Some (r_id r))"

definition no_run :: "run_row table \<Rightarrow> str \<Rightarrow> bool" where
  "no_run t token \<longleftrightarrow> (\<forall>r \<in> set t. r_worker_token r \<noteq> Some token)"

definition runs_ok :: "registry \<Rightarrow> bool" where
  "runs_ok db \<longleftrightarrow> unique_on r_id (runs db)
     \<and> (\<forall>r \<in> set (runs db). \<forall>s \<in> set (runs db). r_worker_token r \<noteq> None
          \<longrightarrow> r_worker_token r = r_worker_token s \<longrightarrow> r = s)
     \<and> (\<forall>r \<in> set (runs db). \<forall>t. r_worker_token r = Some t \<longrightarrow> (\<exists>w \<in> set (workers db). w_token w = t))
     \<and> (\<forall>w \<in> set (workers db). if worker_active (w_state w) then no_run (runs db) (w_token w)
          else run_recorded (runs db) w)"

definition registry_inv :: "registry \<Rightarrow> bool" where
  "registry_inv db \<longleftrightarrow> unique_on p_id (projects db) \<and> leases_ok db \<and> workers_ok (workers db)
     \<and> (\<forall>w \<in> set (workers db). project_exists db (w_project w)) \<and> runs_ok db"

definition empty_registry :: registry where
  "empty_registry = \<lparr>projects = [], runs = [], leases = [], workers = [], controls = [],
     journals = [], launches = [], session_modes = [], checkins = []\<rparr>"

lemma registry_inv_empty: "registry_inv (empty_registry\<lparr>projects := ps\<rparr>) \<longleftrightarrow> unique_on p_id ps"
  by (simp add: registry_inv_def empty_registry_def leases_ok_def workers_ok_def runs_ok_def one_active_def)

lemmas registry_inv_defs = registry_inv_def leases_ok_def

lemma registry_invD:
  assumes "registry_inv db"
  shows "unique_on p_id (projects db)" "leases_ok db" "workers_ok (workers db)"
    "\<And>w. w \<in> set (workers db) \<Longrightarrow> project_exists db (w_project w)" "runs_ok db"
  using assms by (simp_all add: registry_inv_def)

lemma runs_okD:
  assumes "runs_ok db"
  shows "unique_on r_id (runs db)"
    "\<And>r s. r \<in> set (runs db) \<Longrightarrow> s \<in> set (runs db) \<Longrightarrow> r_worker_token r \<noteq> None \<Longrightarrow>
       r_worker_token r = r_worker_token s \<Longrightarrow> r = s"
    "\<And>r t. r \<in> set (runs db) \<Longrightarrow> r_worker_token r = Some t \<Longrightarrow> \<exists>w \<in> set (workers db). w_token w = t"
    "\<And>w. w \<in> set (workers db) \<Longrightarrow> worker_active (w_state w) \<Longrightarrow> no_run (runs db) (w_token w)"
    "\<And>w. w \<in> set (workers db) \<Longrightarrow> \<not> worker_active (w_state w) \<Longrightarrow> run_recorded (runs db) w"
  using assms unfolding runs_ok_def by (blast, blast, blast, metis, metis)

lemma project_exists_frame [simp]:
  "project_exists (db\<lparr>leases := x\<rparr>) pid = project_exists db pid"
  "project_exists (db\<lparr>workers := y\<rparr>) pid = project_exists db pid"
  "project_exists (db\<lparr>runs := z\<rparr>) pid = project_exists db pid"
  "project_exists (db\<lparr>controls := c\<rparr>) pid = project_exists db pid"
  by (simp_all add: project_exists_def)

lemma runs_ok_frame [simp]:
  "runs_ok (db\<lparr>leases := x\<rparr>) = runs_ok db" "runs_ok (db\<lparr>controls := c\<rparr>) = runs_ok db"
  by (simp_all add: runs_ok_def)

text \<open>Statements that touch only leases keep the invariant when they keep its key.\<close>

lemma registry_inv_leases:
  assumes "registry_inv db" "unique_on l_project x" "\<forall>l \<in> set x. project_exists db (l_project l)"
  shows "registry_inv (db\<lparr>leases := x\<rparr>)"
  using assms by (simp add: registry_inv_defs)

lemma registry_inv_delete_lease:
  "registry_inv db \<Longrightarrow> registry_inv (db\<lparr>leases := sql_delete P (leases db)\<rparr>)"
  by (rule registry_inv_leases) (auto simp: registry_inv_defs unique_on_delete)

lemma registry_inv_update_lease:
  assumes "registry_inv db" "\<And>l. l_project (f l) = l_project l"
  shows "registry_inv (db\<lparr>leases := sql_update P f (leases db)\<rparr>)"
  using assms by (intro registry_inv_leases) (auto simp: registry_inv_defs unique_on_update set_sql_update)

lemma insert_lease_inv:
  assumes "registry_inv db"
  shows "registry_inv (snd (insert_lease l db))"
  using assms by (auto simp: insert_lease_def sql_exists_iff intro!: registry_inv_leases unique_on_insert)
    (auto simp: registry_inv_defs)

lemma registry_inv_controls: "registry_inv db \<Longrightarrow> registry_inv (db\<lparr>controls := c\<rparr>)"
  by (simp add: registry_inv_defs)

text \<open>Updates of worker rows: the identity columns stay, the state moves so that no worker
  becomes active, and the recorded runs stay in step.\<close>

definition same_identity :: "(worker_row \<Rightarrow> worker_row) \<Rightarrow> bool" where
  "same_identity f \<longleftrightarrow> (\<forall>w. w_token (f w) = w_token w \<and> w_lease_holder (f w) = w_lease_holder w
     \<and> w_service_label (f w) = w_service_label w \<and> w_project (f w) = w_project w)"

lemma workers_ok_update:
  assumes ok: "workers_ok t" and id: "same_identity f"
    and act: "\<And>w. w \<in> set t \<Longrightarrow> P w \<Longrightarrow> worker_active (w_state (f w)) \<Longrightarrow> worker_active (w_state w)"
    and wf: "\<And>w. w \<in> set t \<Longrightarrow> P w \<Longrightarrow> worker_wf w \<Longrightarrow> worker_wf (f w)"
  shows "workers_ok (sql_update P f t)"
proof -
  let ?g = "\<lambda>w. if P w then f w else w"
  have act': "worker_active (w_state (?g w)) \<Longrightarrow> worker_active (w_state w)" if "w \<in> set t" for w
    using act that by (cases "P w") auto
  have proj: "w_project (?g w) = w_project w" for w using id by (simp add: same_identity_def)
  have "one_active (sql_update P f t)"
    unfolding one_active_def set_sql_update
  proof (intro ballI impI)
    fix a b assume "a \<in> ?g ` set t" "b \<in> ?g ` set t" and ab: "worker_active (w_state a)"
      "worker_active (w_state b)" "w_project a = w_project b"
    then obtain w v where "w \<in> set t" "v \<in> set t" and a: "a = ?g w" and b: "b = ?g v" by blast
    moreover have "w_project w = w_project v" using ab(3) proj a b by metis
    ultimately have "w = v"
      using ok act' ab(1,2) unfolding workers_ok_def one_active_def a b by blast
    then show "a = b" using a b by simp
  qed
  moreover have "\<forall>w \<in> set (sql_update P f t). worker_wf w"
    using ok wf by (auto simp: workers_ok_def set_sql_update)
  ultimately show ?thesis
    using ok id by (auto simp: workers_ok_def same_identity_def intro!: unique_on_update)
qed

lemma registry_inv_update_worker:
  assumes inv: "registry_inv db" and id: "same_identity f"
    and act: "\<And>w. w \<in> set (workers db) \<Longrightarrow> P w \<Longrightarrow>
                worker_active (w_state (f w)) = worker_active (w_state w) \<and> w_run_id (f w) = w_run_id w"
    and wf: "\<And>w. w \<in> set (workers db) \<Longrightarrow> P w \<Longrightarrow> worker_wf w \<Longrightarrow> worker_wf (f w)"
  shows "registry_inv (db\<lparr>workers := sql_update P f (workers db)\<rparr>)"
proof -
  have w: "workers_ok (sql_update P f (workers db))"
    using inv id act wf by (intro workers_ok_update) (auto simp: registry_inv_def)
  have id': "w_token (f w) = w_token w" "w_project (f w) = w_project w" for w
    using id by (simp_all add: same_identity_def)
  have "runs_ok (db\<lparr>workers := sql_update P f (workers db)\<rparr>)"
    unfolding runs_ok_def
  proof (intro conjI ballI)
    fix v assume "v \<in> set (workers (db\<lparr>workers := sql_update P f (workers db)\<rparr>))"
    then obtain w where w: "w \<in> set (workers db)" "v = (if P w then f w else w)"
      by (auto simp: set_sql_update)
    then show "if worker_active (w_state v) then no_run (runs (db\<lparr>workers := sql_update P f (workers db)\<rparr>)) (w_token v)
          else run_recorded (runs (db\<lparr>workers := sql_update P f (workers db)\<rparr>)) v"
      using inv act [of w] id' by (auto simp: registry_inv_def runs_ok_def run_recorded_def)
  next
    fix r assume r: "r \<in> set (runs (db\<lparr>workers := sql_update P f (workers db)\<rparr>))"
    show "\<forall>t. r_worker_token r = Some t \<longrightarrow>
        (\<exists>w \<in> set (workers (db\<lparr>workers := sql_update P f (workers db)\<rparr>)). w_token w = t)"
    proof (intro allI impI)
      fix t assume "r_worker_token r = Some t"
      with r obtain w where w: "w \<in> set (workers db)" "w_token w = t"
        using runs_okD(3) [OF registry_invD(5) [OF inv]] by auto
      then show "\<exists>w \<in> set (workers (db\<lparr>workers := sql_update P f (workers db)\<rparr>)). w_token w = t"
        using id'(1) by (intro bexI [of _ "if P w then f w else w"]) (auto simp: set_sql_update)
    qed
  qed (use runs_okD(1,2) [OF registry_invD(5) [OF inv]] in auto)
  then show ?thesis
    using inv w id' by (auto simp: registry_inv_defs set_sql_update)
qed

section \<open>Every transaction keeps the invariant\<close>

lemma try_acquire_lease_inv:
  "registry_inv db \<Longrightarrow> registry_inv (snd (try_acquire_lease pid h a e db))"
  unfolding try_acquire_lease_def Let_def
  by (intro insert_lease_inv registry_inv_delete_lease)

lemma repair_recovery_fences_inv: "registry_inv db \<Longrightarrow> registry_inv (repair_recovery_fences pid now db)"
  by (simp add: repair_recovery_fences_def Let_def registry_inv_controls)

lemma repair_recovery_fences_frame [simp]:
  "leases (repair_recovery_fences pid now db) = leases db"
  "workers (repair_recovery_fences pid now db) = workers db"
  "journals (repair_recovery_fences pid now db) = journals db"
  "projects (repair_recovery_fences pid now db) = projects db"
  "runs (repair_recovery_fences pid now db) = runs db"
  by (simp_all add: repair_recovery_fences_def Let_def)

lemma insert_lease_inv_split:
  "registry_inv db \<Longrightarrow> insert_lease l db = (r, db') \<Longrightarrow> registry_inv db'"
  using insert_lease_inv [of db l] by simp

lemma try_acquire_git_finalization_lease_inv:
  assumes "registry_inv db"
  shows "registry_inv (snd (try_acquire_git_finalization_lease pid h a e rc db))"
proof -
  have "registry_inv (repair_recovery_fences pid a db)"
    using assms by (rule repair_recovery_fences_inv)
  from registry_inv_delete_lease [OF this] show ?thesis
    using assms by (auto simp: try_acquire_git_finalization_lease_def Let_def
        intro: insert_lease_inv_split split: prod.splits sum.splits)
qed

lemma renew_lease_inv: "registry_inv db \<Longrightarrow> registry_inv (snd (renew_lease pid h e db))"
  by (simp add: renew_lease_def Let_def registry_inv_update_lease)

lemma renew_git_finalization_lease_inv:
  "registry_inv db \<Longrightarrow> registry_inv (snd (renew_git_finalization_lease pid h e db))"
  by (simp add: renew_git_finalization_lease_def Let_def registry_inv_update_lease)

lemma release_lease_inv: "registry_inv db \<Longrightarrow> registry_inv (snd (release_lease pid h db))"
  by (simp add: release_lease_def Let_def registry_inv_delete_lease)

lemma worker_active_simps [simp]:
  "worker_active WDispatching" "worker_active WRunning" "worker_active WFinalizing"
  "\<not> worker_active WCompleted" "\<not> worker_active WAbandoned" "\<not> worker_active WSuperseded"
  by (simp_all add: worker_active_def)

lemma claim_row_same_identity: "same_identity (claim_row pid at)"
  by (simp add: same_identity_def claim_row_def)

lemma claim_update_inv:
  assumes "registry_inv db"
  shows "registry_inv (db\<lparr>workers := sql_update (claimable d token) (claim_row pid at) (workers db)\<rparr>)"
  using assms claim_row_same_identity
  by (rule registry_inv_update_worker) (auto simp: claimable_def claim_row_def worker_wf_def)

lemma claim_worker_inv: "registry_inv db \<Longrightarrow> registry_inv (snd (claim_worker token pid at db))"
  by (simp add: claim_worker_def claim_update_inv)

lemma supersede_update_inv:
  assumes "registry_inv db" "\<And>w. P w \<Longrightarrow> w_state w = WAbandoned"
  shows "registry_inv (db\<lparr>workers := sql_update P (\<lambda>w. w\<lparr>w_state := WSuperseded\<rparr>) (workers db)\<rparr>)"
  using assms(1)
  by (rule registry_inv_update_worker) (auto simp: same_identity_def worker_wf_def dest: assms(2))

lemma supersede_abandoned_inv:
  "registry_inv db \<Longrightarrow> registry_inv (snd (supersede_abandoned_workers_for_lease pid h db))"
  unfolding supersede_abandoned_workers_for_lease_def Let_def snd_conv
  by (rule supersede_update_inv) simp_all

lemma mark_worker_service_cleaned_inv:
  assumes "registry_inv db"
  shows "registry_inv (snd (mark_worker_service_cleaned token at db))"
  unfolding mark_worker_service_cleaned_def Let_def snd_conv using assms
  by (rule registry_inv_update_worker) (auto simp: same_identity_def worker_wf_def)

lemma renew_worker_inv:
  assumes "registry_inv db"
  shows "registry_inv (snd (renew_worker token pid hb e db))"
proof -
  have "registry_inv (db\<lparr>workers := sql_update P (\<lambda>w. w\<lparr>w_heartbeat_at := Some hb\<rparr>) (workers db)\<rparr>)" for P
    using assms by (rule registry_inv_update_worker) (auto simp: same_identity_def worker_wf_def)
  then have "registry_inv (db\<lparr>workers := sql_update P (\<lambda>w. w\<lparr>w_heartbeat_at := Some hb\<rparr>) (workers db),
      leases := sql_update Q (\<lambda>l. l\<lparr>l_expires_at := e\<rparr>) (leases db)\<rparr>)" for P Q
    using registry_inv_update_lease [of "db\<lparr>workers := sql_update P (\<lambda>w. w\<lparr>w_heartbeat_at := Some hb\<rparr>) (workers db)\<rparr>"
        "\<lambda>l. l\<lparr>l_expires_at := e\<rparr>" Q] by simp
  then show ?thesis
    using assms by (auto simp: renew_worker_def Let_def split: option.splits)
qed

text \<open>A reservation adds one dispatching worker and hands it the lease.\<close>

lemma insert_worker_inv:
  assumes inv: "registry_inv db" and new: "\<not> sql_exists (worker_conflicts (reserved_worker r)) (workers db)"
    and proj: "project_exists db (res_project r)"
  shows "registry_inv (db\<lparr>workers := sql_insert (reserved_worker r) (workers db)\<rparr>)"
proof -
  let ?w = "reserved_worker r"
  have w: "w_token ?w = res_token r" "w_project ?w = res_project r" "w_state ?w = WDispatching"
    "worker_wf ?w" by (simp_all add: reserved_worker_def worker_wf_def)
  have nc: "\<not> worker_conflicts ?w v" if "v \<in> set (workers db)" for v
    using new that by (simp add: sql_exists_iff)
  then have ok: "workers_ok (sql_insert ?w (workers db))"
    using registry_invD(3) [OF inv] w
    by (auto simp: workers_ok_def worker_conflicts_def one_active_def intro!: unique_on_insert)
  have fresh: "no_run (runs db) (res_token r)"
    unfolding no_run_def using runs_okD(3) [OF registry_invD(5) [OF inv]] nc w(1)
    by (metis worker_conflicts_def)
  have "runs_ok (db\<lparr>workers := sql_insert ?w (workers db)\<rparr>)"
    using registry_invD(5) [OF inv] fresh w unfolding runs_ok_def by simp blast
  with ok proj w inv show ?thesis by (auto simp: registry_inv_defs)
qed

lemma reserve_worker_inv:
  assumes inv: "registry_inv db"
  shows "registry_inv (snd (reserve_worker r c db))"
proof (cases "sql_exists (worker_conflicts (reserved_worker r)) (workers db) \<or> \<not> project_exists db (res_project r)")
  case True
  then show ?thesis using inv by (auto simp: reserve_worker_def Let_def)
next
  case False
  let ?w = "reserved_worker r"
  let ?t = "\<lambda>l. l_project l = res_project r \<and> l_holder l = res_expected_lease_holder r"
  let ?a = "\<lambda>v. w_project v = res_project r \<and> w_state v = WAbandoned \<and> w_token v \<noteq> res_token r"
  define db1 where "db1 = db\<lparr>workers := sql_insert ?w (workers db)\<rparr>"
  define db2 where "db2 = db1\<lparr>leases := sql_update ?t (\<lambda>l. l\<lparr>l_holder := w_lease_holder ?w\<rparr>) (leases db1)\<rparr>"
  define db3 where "db3 = db2\<lparr>workers := sql_update ?a (\<lambda>v. v\<lparr>w_state := WSuperseded\<rparr>) (workers db2)\<rparr>"
  have "registry_inv db1" unfolding db1_def using inv False by (simp add: insert_worker_inv)
  then have "registry_inv db2" unfolding db2_def by (rule registry_inv_update_lease) simp
  then have inv3: "registry_inv db3" unfolding db3_def by (rule supersede_update_inv) simp
  have "snd (reserve_worker r c db) \<in> {db, db3} \<union>
      range (\<lambda>(pid, at). db3\<lparr>workers := sql_update (claimable db3 (res_token r)) (claim_row pid at) (workers db3)\<rparr>)"
    unfolding reserve_worker_def Let_def db1_def [symmetric] db2_def [symmetric] db3_def [symmetric]
    by (auto split: option.splits)
  then show ?thesis using inv inv3 claim_update_inv [OF inv3] by auto
qed

text \<open>Recording a run and ending the worker are one transaction.\<close>

lemma record_worker_run_active:
  assumes inv: "registry_inv db" and none: "no_run (runs db) token" and p: "project_exists db (o_project oc)"
  shows "record_worker_run oc token db =
    (Inr (next_rowid r_id (runs db)),
     update_project_after_run oc (db\<lparr>runs := sql_insert (outcome_row oc token (next_rowid r_id (runs db))) (runs db)\<rparr>))"
  using none p by (simp add: record_worker_run_def no_run_def sql_exists_iff Let_def)

lemma end_worker_inv:
  assumes inv: "registry_inv db" and w: "w \<in> set (workers db)" "worker_active (w_state w)"
    and oc: "o_project oc = w_project w" and rid: "rid = next_rowid r_id (runs db)"
    and P: "\<And>v. v \<in> set (workers db) \<Longrightarrow> P v \<longleftrightarrow> v = w"
    and f: "same_identity f" "\<not> worker_active (w_state (f w))" "w_run_id (f w) = Some rid"
  shows "registry_inv ((update_project_after_run oc
           (db\<lparr>runs := sql_insert (outcome_row oc (w_token w) rid) (runs db)\<rparr>))
             \<lparr>workers := sql_update P f (workers db)\<rparr>)" (is "registry_inv ?db'")
proof -
  let ?r = "outcome_row oc (w_token w) rid"
  have r: "r_worker_token ?r = Some (w_token w)" "r_project ?r = w_project w" "r_id ?r = rid"
    using oc by (simp_all add: outcome_row_def)
  have id: "w_token (f v) = w_token v" "w_project (f v) = w_project v" "w_lease_holder (f v) = w_lease_holder v" for v
    using f(1) by (simp_all add: same_identity_def)
  note ok = registry_invD [OF inv] and rok = runs_okD [OF registry_invD(5) [OF inv]]
  have ids: "r_id s \<noteq> rid" if "s \<in> set (runs db)" for s
    using next_rowid_fresh [OF that, of r_id] rid by simp
  have none: "r_worker_token s \<noteq> Some (w_token w)" if "s \<in> set (runs db)" for s
    using rok(4) [OF w] that by (simp add: no_run_def)
  have wok: "workers_ok (sql_update P f (workers db))"
  proof (rule workers_ok_update [OF ok(3) f(1)])
    fix v assume v: "v \<in> set (workers db)" "P v"
    then have "v = w" using P by simp
    then show "worker_active (w_state (f v)) \<Longrightarrow> worker_active (w_state v)" using f(2) by simp
    show "worker_wf v \<Longrightarrow> worker_wf (f v)"
      using f(2) \<open>v = w\<close> id by (auto simp: worker_wf_def)
  qed
  have set': "set (workers ?db') = (\<lambda>v. if P v then f v else v) ` set (workers db)"
    by (simp add: set_sql_update)
  have runs': "set (runs ?db') = insert ?r (set (runs db))" by simp
  have "runs_ok ?db'"
    unfolding runs_ok_def
  proof (intro conjI)
    show "unique_on r_id (runs ?db')" using rok(1) ids r(3) by (simp add: unique_on_insert)
    show "\<forall>x \<in> set (runs ?db'). \<forall>s \<in> set (runs ?db'). r_worker_token x \<noteq> None \<longrightarrow>
            r_worker_token x = r_worker_token s \<longrightarrow> x = s"
      using rok(2) none r(1) unfolding runs' by (metis insertE)
    show "\<forall>x \<in> set (runs ?db'). \<forall>t. r_worker_token x = Some t \<longrightarrow> (\<exists>v \<in> set (workers ?db'). w_token v = t)"
    proof (intro ballI allI impI)
      fix x t assume "x \<in> set (runs ?db')" "r_worker_token x = Some t"
      then have "\<exists>v \<in> set (workers db). w_token v = t"
        using rok(3) r(1) w(1) unfolding runs' by auto
      then show "\<exists>v \<in> set (workers ?db'). w_token v = t"
        using id(1) unfolding set' by auto
    qed
    show "\<forall>v \<in> set (workers ?db'). if worker_active (w_state v) then no_run (runs ?db') (w_token v)
            else run_recorded (runs ?db') v"
    proof
      fix v assume "v \<in> set (workers ?db')"
      then obtain u where u: "u \<in> set (workers db)" "v = (if P u then f u else u)" unfolding set' by blast
      show "if worker_active (w_state v) then no_run (runs ?db') (w_token v) else run_recorded (runs ?db') v"
      proof (cases "u = w")
        case True
        with u P have v: "v = f w" by simp
        then have "run_recorded (runs ?db') v"
          using r f(3) id unfolding run_recorded_def runs' by auto
        with v f(2) show ?thesis by simp
      next
        case False
        with u P have v: "v = u" by simp
        have "w_token u \<noteq> w_token w"
          using ok(3) unique_on_eq [of w_token, OF _ u(1) w(1)] False by (auto simp: workers_ok_def)
        with v rok(4,5) [OF u(1)] r(1) show ?thesis
          unfolding no_run_def run_recorded_def runs' by auto
      qed
    qed
  qed
  moreover have "\<forall>v \<in> set (workers ?db'). project_exists ?db' (w_project v)"
    using ok(4) id(2) unfolding set' by auto
  moreover have "leases_ok ?db'" using ok(2) by (simp add: leases_ok_def)
  moreover have "unique_on p_id (projects ?db')" using ok(1) by (simp add: unique_on_def)
  ultimately show ?thesis using wok by (simp add: registry_inv_def)
qed

lemma workers_ok_token:
  "workers_ok t \<Longrightarrow> w \<in> set t \<Longrightarrow> v \<in> set t \<Longrightarrow> w_token w = w_token v \<Longrightarrow> w = v"
  using unique_on_eq [of w_token t w v] by (simp add: workers_ok_def)

lemma count_unique:
  assumes "unique_on k t" "w \<in> set t" "P w" "\<And>v. P v \<Longrightarrow> k v = k w"
  shows "sql_count P t = 1"
proof -
  have "sql_count P t \<le> 1" using assms(1,4) by (rule unique_on_count)
  moreover have "0 < sql_count P t" using assms(2,3) sql_count_pos by blast
  ultimately show ?thesis by simp
qed

text \<open>The effect of a successful abandonment, and that it can fail only at its fences.\<close>

definition abandoned_db :: "AgentWorkerAbandonment \<Rightarrow> worker_row \<Rightarrow> registry \<Rightarrow> registry" where
  "abandoned_db a w db =
     (let rid = next_rowid r_id (runs db); oc = abandonment_outcome a w;
          db1 = update_project_after_run oc (db\<lparr>runs := sql_insert (outcome_row oc (w_token w) rid) (runs db)\<rparr>);
          db2 = db1\<lparr>workers := sql_update (abandon_fenced a) (abandon_row a rid) (workers db)\<rparr>
      in if lease_holder_of db (w_project w) = Some (w_lease_holder w)
         then db2\<lparr>leases := sql_delete (own_lease w) (leases db)\<rparr> else db2)"

lemma lease_holder_of_Some:
  assumes "leases_ok db"
  shows "lease_holder_of db pid = Some h \<longleftrightarrow> (\<exists>l \<in> set (leases db). l_project l = pid \<and> l_holder l = h)"
proof
  assume "lease_holder_of db pid = Some h"
  then show "\<exists>l \<in> set (leases db). l_project l = pid \<and> l_holder l = h"
    unfolding lease_holder_of_def using sql_select_Some by fastforce
next
  assume "\<exists>l \<in> set (leases db). l_project l = pid \<and> l_holder l = h"
  then obtain l where "l \<in> set (leases db)" "l_project l = pid" "l_holder l = h" by blast
  with assms have "sql_select (\<lambda>l. l_project l = pid) (leases db) = Some l"
    by (intro unique_on_select [of l_project]) (auto simp: leases_ok_def)
  with \<open>l_holder l = h\<close> show "lease_holder_of db pid = Some h" by (simp add: lease_holder_of_def)
qed

lemma count_own_lease:
  assumes "leases_ok db" "lease_holder_of db (w_project w) = Some (w_lease_holder w)"
  shows "sql_count (own_lease w) (leases db) = 1"
proof -
  from assms obtain l where l: "l \<in> set (leases db)" "l_project l = w_project w" "l_holder l = w_lease_holder w"
    by (auto simp: lease_holder_of_Some)
  show ?thesis
    using assms(1) l by (intro count_unique [of l_project _ l]) (auto simp: leases_ok_def own_lease_def)
qed

lemma abandon_worker_effect:
  assumes inv: "registry_inv db" and w: "w \<in> set (workers db)" "abandon_fenced a w"
    and act: "worker_active (w_state w)"
    and lease: "lease_holder_of db (w_project w) \<in> {None, Some (w_lease_holder w), ab_permitted_successor a}"
  shows "abandon_worker a db = (Inr True, abandoned_db a w db)"
proof -
  have tok: "ab_token a = w_token w" using w(2) by (simp add: abandon_fenced_def)
  have u: "unique_on w_token (workers db)" using registry_invD(3) [OF inv] by (simp add: workers_ok_def)
  have sel: "sql_select (abandon_fenced a) (workers db) = Some w"
    using u w by (rule unique_on_select) (simp add: abandon_fenced_def tok)
  have cnt: "sql_count (abandon_fenced a) (workers db) = 1"
    using u w by (rule count_unique) (simp add: abandon_fenced_def tok)
  have rec: "record_worker_run (abandonment_outcome a w) (w_token w) db =
    (Inr (next_rowid r_id (runs db)), update_project_after_run (abandonment_outcome a w)
       (db\<lparr>runs := sql_insert (outcome_row (abandonment_outcome a w) (w_token w) (next_rowid r_id (runs db))) (runs db)\<rparr>))"
    using inv runs_okD(4) [OF registry_invD(5) [OF inv] w(1) act] registry_invD(4) [OF inv w(1)]
    by (intro record_worker_run_active) (simp_all add: abandonment_outcome_def)
  show ?thesis
    using sel cnt lease count_own_lease [OF registry_invD(2) [OF inv], of w]
    by (auto simp: abandon_worker_def abandoned_db_def Let_def tok rec)
qed

lemma abandoned_db_inv:
  assumes inv: "registry_inv db" and w: "w \<in> set (workers db)" "abandon_fenced a w" "worker_active (w_state w)"
  shows "registry_inv (abandoned_db a w db)"
proof -
  let ?rid = "next_rowid r_id (runs db)" and ?oc = "abandonment_outcome a w"
  have P: "abandon_fenced a v \<longleftrightarrow> v = w" if "v \<in> set (workers db)" for v
    using workers_ok_token [OF registry_invD(3) [OF inv] that w(1)] w(2) by (auto simp: abandon_fenced_def)
  have e: "registry_inv ((update_project_after_run ?oc
       (db\<lparr>runs := sql_insert (outcome_row ?oc (w_token w) ?rid) (runs db)\<rparr>))
          \<lparr>workers := sql_update (abandon_fenced a) (abandon_row a ?rid) (workers db)\<rparr>)"
    using P by (intro end_worker_inv [OF inv w(1) w(3)])
      (auto simp: abandonment_outcome_def abandon_row_def same_identity_def)
  from this registry_inv_delete_lease [OF this, of "own_lease w"] show ?thesis
    by (simp add: abandoned_db_def Let_def)
qed

lemma abandon_worker_inv:
  assumes inv: "registry_inv db" and act: "worker_active (ab_expected_state a)"
  shows "registry_inv (snd (abandon_worker a db))"
proof (cases "sql_select (abandon_fenced a) (workers db)")
  case None
  then show ?thesis using inv by (simp add: abandon_worker_def)
next
  case (Some w)
  then have w: "w \<in> set (workers db)" "abandon_fenced a w" by (simp_all add: sql_select_Some)
  with act have aw: "worker_active (w_state w)" by (simp add: abandon_fenced_def)
  show ?thesis
  proof (cases "lease_holder_of db (w_project w) \<in> {None, Some (w_lease_holder w), ab_permitted_successor a}")
    case True
    then show ?thesis
      using abandon_worker_effect [OF inv w aw True] abandoned_db_inv [OF inv w aw] by simp
  next
    case False
    then show ?thesis using Some inv by (simp add: abandon_worker_def)
  qed
qed

text \<open>The effect of a successful finalization.\<close>

definition finalized_db :: "AgentWorkerFinalization \<Rightarrow> worker_row \<Rightarrow> registry \<Rightarrow> registry" where
  "finalized_db f w db =
     (let rid = next_rowid r_id (runs db); oc = finalization_outcome f w
      in (update_project_after_run oc (db\<lparr>runs := sql_insert (outcome_row oc (w_token w) rid) (runs db)\<rparr>))
           \<lparr>workers := sql_update (\<lambda>v. w_token v = w_token w)
                         (\<lambda>v. complete_row f rid (v\<lparr>w_state := WFinalizing\<rparr>)) (workers db),
            leases := sql_delete (own_lease w) (leases db)\<rparr>)"

definition finalize_ready :: "AgentWorkerFinalization \<Rightarrow> worker_row \<Rightarrow> registry \<Rightarrow> bool" where
  "finalize_ready f w db \<longleftrightarrow> w \<in> set (workers db) \<and> w_token w = fin_token f
     \<and> worker_active (w_state w) \<and> w_pid w = fin_expected_pid f
     \<and> lease_holder_of db (w_project w) = Some (fin_expected_lease_holder f)"

lemma sql_update_cong:
  assumes "\<And>r. r \<in> set t \<Longrightarrow> P r = Q r" "\<And>r. r \<in> set t \<Longrightarrow> Q r \<Longrightarrow> f r = g r"
  shows "sql_update P f t = sql_update Q g t"
  using assms by (auto simp: sql_update_def)

lemma sql_update_twice:
  "sql_update P f (sql_update Q g t) =
     map (\<lambda>r. let r' = (if Q r then g r else r) in if P r' then f r' else r') t"
  by (simp add: sql_update_def Let_def)

lemma finalize_worker_effect:
  assumes inv: "registry_inv db" and rdy: "finalize_ready f w db"
  shows "finalize_worker f db = (Inr (Some (next_rowid r_id (runs db))), finalized_db f w db)"
proof -
  let ?rid = "next_rowid r_id (runs db)" and ?oc = "finalization_outcome f w"
  have w: "w \<in> set (workers db)" "w_token w = fin_token f" "worker_active (w_state w)"
    "w_pid w = fin_expected_pid f" using rdy by (simp_all add: finalize_ready_def)
  note wok = registry_invD(3) [OF inv]
  have u: "unique_on w_token (workers db)" using wok by (simp add: workers_ok_def)
  have eq: "w_token v = fin_token f \<longleftrightarrow> v = w" if "v \<in> set (workers db)" for v
    using workers_ok_token [OF wok that w(1)] w(2) by auto
  have sel: "sql_select (\<lambda>w. w_token w = fin_token f) (workers db) = Some w"
    using u w(1,2) by (rule unique_on_select) (simp add: w(2))
  have nc: "w_state w \<noteq> WCompleted" using w(3) by auto
  have lease: "sql_count (\<lambda>l. l_project l = w_project w \<and> l_holder l = fin_expected_lease_holder f) (leases db) = 1"
  proof -
    obtain l where "l \<in> set (leases db)" "l_project l = w_project w" "l_holder l = fin_expected_lease_holder f"
      using rdy registry_invD(2) [OF inv] by (auto simp: finalize_ready_def lease_holder_of_Some)
    then show ?thesis using registry_invD(2) [OF inv]
      by (intro count_unique [of l_project _ l]) (auto simp: leases_ok_def)
  qed
  have cnt: "sql_count (finalize_fenced f (w_state w)) (workers db) = 1"
    using u w(1) by (rule count_unique) (simp_all add: finalize_fenced_def w)
  let ?t1 = "sql_update (finalize_fenced f (w_state w)) (\<lambda>v. v\<lparr>w_state := WFinalizing\<rparr>) (workers db)"
  let ?mine = "\<lambda>v. w_token v = fin_token f \<and> w_state v = WFinalizing"
  have u1: "unique_on w_token ?t1" using u by (rule unique_on_update) simp
  have w1: "w\<lparr>w_state := WFinalizing\<rparr> \<in> set ?t1"
    using w by (force simp: set_sql_update finalize_fenced_def)
  have cnt1: "sql_count ?mine ?t1 = 1"
    using u1 w1 by (rule count_unique) (simp_all add: w(2))
  have t2: "sql_update ?mine (complete_row f ?rid) ?t1 =
      sql_update (\<lambda>v. w_token v = w_token w) (\<lambda>v. complete_row f ?rid (v\<lparr>w_state := WFinalizing\<rparr>)) (workers db)"
    unfolding sql_update_twice unfolding sql_update_def
  proof (rule map_cong [OF refl])
    fix v assume v: "v \<in> set (workers db)"
    show "(let r' = if finalize_fenced f (w_state w) v then v\<lparr>w_state := WFinalizing\<rparr> else v
           in if ?mine r' then complete_row f ?rid r' else r') =
          (if w_token v = w_token w then complete_row f ?rid (v\<lparr>w_state := WFinalizing\<rparr>) else v)"
      using eq [OF v] w by (auto simp: finalize_fenced_def)
  qed
  have sel3: "map_option w_lease_holder (sql_select (\<lambda>v. w_token v = fin_token f)
      (sql_update (\<lambda>v. w_token v = w_token w) (\<lambda>v. complete_row f ?rid (v\<lparr>w_state := WFinalizing\<rparr>)) (workers db)))
      = Some (w_lease_holder w)" (is "map_option _ (sql_select ?Q ?t3) = _")
  proof -
    have u3: "unique_on w_token ?t3" using u by (rule unique_on_update) (simp add: complete_row_def)
    have "complete_row f ?rid (w\<lparr>w_state := WFinalizing\<rparr>) \<in> set ?t3"
      using w(1) by (force simp: set_sql_update)
    then have "sql_select ?Q ?t3 = Some (complete_row f ?rid (w\<lparr>w_state := WFinalizing\<rparr>))"
      by (rule unique_on_select [OF u3]) (simp_all add: complete_row_def w(2))
    then show ?thesis by (simp add: complete_row_def)
  qed
  have rec: "record_worker_run ?oc (fin_token f) (db\<lparr>workers := ?t1\<rparr>) =
    (Inr ?rid, update_project_after_run ?oc (db\<lparr>workers := ?t1, runs := sql_insert (outcome_row ?oc (fin_token f) ?rid) (runs db)\<rparr>))"
    using runs_okD(4) [OF registry_invD(5) [OF inv] w(1,3)] registry_invD(4) [OF inv w(1)] w(2)
    by (simp add: record_worker_run_def no_run_def sql_exists_iff Let_def finalization_outcome_def)
  have up: "(update_project_after_run ?oc (db\<lparr>workers := ?t1, runs := R\<rparr>))\<lparr>workers := x\<rparr> =
      (update_project_after_run ?oc (db\<lparr>runs := R\<rparr>))\<lparr>workers := x\<rparr>" for R x
    by (simp add: update_project_after_run_def Let_def)
  have own: "own_lease w = (\<lambda>l. l_project l = w_project w \<and> l_holder l = w_lease_holder w)"
    by (simp add: own_lease_def fun_eq_iff)
  show ?thesis
    unfolding finalize_worker_def sel option.case
    using nc w(3,4) lease cnt
    by (simp add: rec cnt1 t2 sel3 [unfolded w(2)] finalized_db_def Let_def w(2) own up)
qed

lemma finalize_worker_cases:
  assumes inv: "registry_inv db"
  shows "(\<exists>w. finalize_ready f w db) \<or> snd (finalize_worker f db) = db"
proof (rule disjCI)
  assume no: "snd (finalize_worker f db) \<noteq> db"
  then obtain w where sel: "sql_select (\<lambda>w. w_token w = fin_token f) (workers db) = Some w"
    by (cases "sql_select (\<lambda>w. w_token w = fin_token f) (workers db)") (auto simp: finalize_worker_def)
  have "worker_active (w_state w)" "w_pid w = fin_expected_pid f"
    "sql_count (\<lambda>l. l_project l = w_project w \<and> l_holder l = fin_expected_lease_holder f) (leases db) = 1"
    using no sel by (auto simp: finalize_worker_def Let_def split: if_splits option.splits)
  moreover from this(3) have "lease_holder_of db (w_project w) = Some (fin_expected_lease_holder f)"
    unfolding lease_holder_of_Some [OF registry_invD(2) [OF inv]]
    using sql_count_pos [of "\<lambda>l. l_project l = w_project w \<and> l_holder l = fin_expected_lease_holder f"]
    by (metis zero_less_one)
  ultimately show "\<exists>w. finalize_ready f w db"
    using sql_select_Some [OF sel] by (auto simp: finalize_ready_def)
qed

lemma finalized_db_inv:
  assumes inv: "registry_inv db" and rdy: "finalize_ready f w db"
  shows "registry_inv (finalized_db f w db)"
proof -
  let ?rid = "next_rowid r_id (runs db)" and ?oc = "finalization_outcome f w"
  have w: "w \<in> set (workers db)" "worker_active (w_state w)" using rdy by (simp_all add: finalize_ready_def)
  have P: "w_token v = w_token w \<longleftrightarrow> v = w" if "v \<in> set (workers db)" for v
    using workers_ok_token [OF registry_invD(3) [OF inv] that w(1)] by auto
  have e: "registry_inv ((update_project_after_run ?oc
       (db\<lparr>runs := sql_insert (outcome_row ?oc (w_token w) ?rid) (runs db)\<rparr>))
          \<lparr>workers := sql_update (\<lambda>v. w_token v = w_token w)
              (\<lambda>v. complete_row f ?rid (v\<lparr>w_state := WFinalizing\<rparr>)) (workers db)\<rparr>)"
    using P by (intro end_worker_inv [OF inv w])
      (auto simp: finalization_outcome_def complete_row_def same_identity_def)
  from registry_inv_delete_lease [OF this, of "own_lease w"] show ?thesis
    by (simp add: finalized_db_def Let_def)
qed

lemma finalize_worker_inv:
  assumes "registry_inv db"
  shows "registry_inv (snd (finalize_worker f db))"
  using finalize_worker_cases [OF assms, of f] finalize_worker_effect [OF assms, of f]
    finalized_db_inv [OF assms, of f] assms by auto

end
