(* ===== verification/Transition_Systems.thy ===== *)
theory Transition_Systems
  imports Main
begin

text \<open>
  Three interfaces the components share.  \<^verbatim>\<open>invariant_system\<close> is a store whose operations are steps
  of a relation and whose initial states and steps keep an invariant; \<^verbatim>\<open>exclusive_lease\<close> is a
  store that grants at most one live lease per key, with what follows for a race of claimants;
  \<^verbatim>\<open>versioned_cells\<close> is a store of cells that change only by a compare-and-set on their version.
\<close>

section \<open>Reachable states and invariants\<close>

inductive reach :: "('s \<Rightarrow> bool) \<Rightarrow> ('s \<Rightarrow> 's \<Rightarrow> bool) \<Rightarrow> 's \<Rightarrow> bool"
  for init :: "'s \<Rightarrow> bool" and step :: "'s \<Rightarrow> 's \<Rightarrow> bool" where
  reach_init: "init s \<Longrightarrow> reach init step s"
| reach_step: "reach init step s \<Longrightarrow> step s s' \<Longrightarrow> reach init step s'"

inductive steps :: "('s \<Rightarrow> 's \<Rightarrow> bool) \<Rightarrow> 's \<Rightarrow> 's \<Rightarrow> bool" for step :: "'s \<Rightarrow> 's \<Rightarrow> bool" where
  steps_refl: "steps step s s"
| steps_snoc: "steps step s s' \<Longrightarrow> step s' s'' \<Longrightarrow> steps step s s''"

locale invariant_system =
  fixes init :: "'s \<Rightarrow> bool" and step :: "'s \<Rightarrow> 's \<Rightarrow> bool" and inv :: "'s \<Rightarrow> bool"
  assumes init_inv: "init s \<Longrightarrow> inv s"
    and step_inv: "inv s \<Longrightarrow> step s s' \<Longrightarrow> inv s'"
begin

lemma reach_inv: "reach init step s \<Longrightarrow> inv s"
  by (induction rule: reach.induct) (auto intro: init_inv step_inv)

lemma steps_inv: "steps step s s' \<Longrightarrow> inv s \<Longrightarrow> inv s'"
  by (induction rule: steps.induct) (auto intro: step_inv)

text \<open>A reflexive and transitive relation that every step from a good state establishes holds
  along every run.\<close>

lemma steps_rel:
  assumes "steps step s s'" "inv s" and refl: "\<And>s. R s s" and trans: "\<And>a b c. R a b \<Longrightarrow> R b c \<Longrightarrow> R a c"
    and one: "\<And>a b. inv a \<Longrightarrow> step a b \<Longrightarrow> R a b"
  shows "R s s'"
  using assms(1,2)
proof (induction rule: steps.induct)
  case (steps_refl s)
  show ?case by (rule refl)
next
  case (steps_snoc s s' s'')
  then have "inv s'" by (blast intro: steps_inv)
  with steps_snoc show ?case by (blast intro: trans one)
qed

end

section \<open>Exclusive leases\<close>

text \<open>The claimants of a race, and those that were granted the lease, in order.\<close>

fun winners :: "('a \<Rightarrow> 's \<Rightarrow> bool \<times> 's) \<Rightarrow> 'a list \<Rightarrow> 's \<Rightarrow> 'a list" where
  "winners acquire [] s = []"
| "winners acquire (a # as) s =
     (case acquire a s of (won, s') \<Rightarrow> (if won then [a] else []) @ winners acquire as s')"

fun after_race :: "('a \<Rightarrow> 's \<Rightarrow> bool \<times> 's) \<Rightarrow> 'a list \<Rightarrow> 's \<Rightarrow> 's" where
  "after_race acquire [] s = s"
| "after_race acquire (a # as) s = after_race acquire as (snd (acquire a s))"

locale exclusive_lease =
  fixes acquire :: "'a \<Rightarrow> 's \<Rightarrow> bool \<times> 's" and key :: "'a \<Rightarrow> 'k" and who :: "'a \<Rightarrow> 'h"
    and holder :: "'s \<Rightarrow> 'k \<Rightarrow> 'h option" and shielded :: "'s \<Rightarrow> 'a \<Rightarrow> bool"
    and shields :: "'a \<Rightarrow> 'a \<Rightarrow> bool" and valid :: "'s \<Rightarrow> bool"
  assumes valid_acquire: "valid s \<Longrightarrow> valid (snd (acquire a s))"
    and granted: "valid s \<Longrightarrow> acquire a s = (True, s') \<Longrightarrow> holder s' (key a) = Some (who a)"
    and granted_shields: "valid s \<Longrightarrow> acquire a s = (True, s') \<Longrightarrow> key b = key a \<Longrightarrow> shields a b \<Longrightarrow>
          shielded s' b"
    and shielded_refused: "valid s \<Longrightarrow> shielded s a \<Longrightarrow> \<not> fst (acquire a s)"
    and shielded_kept: "valid s \<Longrightarrow> shielded s a \<Longrightarrow> holder (snd (acquire a s)) (key a) = holder s (key a)"
    and shielded_stays: "valid s \<Longrightarrow> shielded s a \<Longrightarrow> shielded s b \<Longrightarrow> shielded (snd (acquire a s)) b"
begin

lemma shielded_race:
  assumes "valid s" "\<forall>a \<in> set as. key a = k" "\<forall>a \<in> set as. shielded s a"
  shows "winners acquire as s = [] \<and> holder (after_race acquire as s) k = holder s k"
  using assms
proof (induction as arbitrary: s)
  case (Cons a as)
  have refused: "\<not> fst (acquire a s)" using Cons.prems by (intro shielded_refused) auto
  have kept: "holder (snd (acquire a s)) k = holder s k"
    using shielded_kept [of s a] Cons.prems by auto
  have "valid (snd (acquire a s))" using Cons.prems(1) by (rule valid_acquire)
  moreover have "\<forall>b \<in> set as. shielded (snd (acquire a s)) b"
    using Cons.prems by (auto intro: shielded_stays)
  ultimately show ?case
    using Cons.IH [of "snd (acquire a s)"] Cons.prems(2) refused kept by (auto split: prod.splits)
qed simp

lemma race_at_most_one:
  assumes "valid s" "\<forall>a \<in> set as. key a = k" "\<forall>a \<in> set as. \<forall>b \<in> set as. shields a b"
  shows "winners acquire as s = [] \<or>
    (\<exists>a \<in> set as. winners acquire as s = [a] \<and> holder (after_race acquire as s) k = Some (who a))"
  using assms
proof (induction as arbitrary: s)
  case (Cons a as)
  obtain won s' where acq: "acquire a s = (won, s')" by fastforce
  then have val: "valid s'" using valid_acquire [OF Cons.prems(1), of a] by simp
  show ?case
  proof (cases won)
    case False
    then show ?thesis using Cons.IH [OF val] Cons.prems(2,3) acq by auto
  next
    case True
    then have "holder s' k = Some (who a)" "\<forall>b \<in> set as. shielded s' b"
      using granted granted_shields acq Cons.prems by auto
    then show ?thesis using shielded_race [OF val, of as k] Cons.prems(2) acq True by auto
  qed
qed simp

end

section \<open>Cells with a version\<close>

locale versioned_cells =
  fixes cas :: "'a \<Rightarrow> 's \<Rightarrow> bool \<times> 's" and key :: "'a \<Rightarrow> 'k" and expects :: "'a \<Rightarrow> int"
    and version :: "'s \<Rightarrow> 'k \<Rightarrow> int" and valid :: "'s \<Rightarrow> bool"
  assumes valid_cas: "valid s \<Longrightarrow> valid (snd (cas a s))"
    and accepted: "valid s \<Longrightarrow> cas a s = (True, s') \<Longrightarrow>
          expects a = version s (key a) \<and> version s' (key a) = version s (key a) + 1"
    and refused: "valid s \<Longrightarrow> cas a s = (False, s') \<Longrightarrow> version s' = version s"
    and elsewhere: "valid s \<Longrightarrow> k \<noteq> key a \<Longrightarrow> version (snd (cas a s)) k = version s k"
begin

text \<open>The accepted updates of a cell expect consecutive versions, from the first one on: none is
  lost, none is applied twice.\<close>

lemma accepted_versions:
  assumes "valid s"
  shows "version s k \<le> version (after_race cas as s) k
    \<and> map expects (filter (\<lambda>a. key a = k) (winners cas as s)) = [version s k .. version (after_race cas as s) k - 1]"
  using assms
proof (induction as arbitrary: s)
  case (Cons a as)
  obtain won s' where step: "cas a s = (won, s')" by fastforce
  then have val: "valid s'" using valid_cas [OF Cons.prems, of a] by simp
  note IH = Cons.IH [OF val]
  show ?case
  proof (cases "won \<and> key a = k")
    case True
    then have "expects a = version s k" "version s' k = version s k + 1"
      using accepted [OF Cons.prems] step by auto
    then show ?thesis using IH step True by (simp add: upto_rec1)
  next
    case False
    then have "version s' k = version s k"
      using refused [OF Cons.prems] elsewhere [OF Cons.prems, of k a] step by (cases won) auto
    then show ?thesis using IH step False by auto
  qed
qed simp

lemma same_version_single_winner:
  assumes "valid s" "\<forall>a \<in> set as. key a = k \<and> expects a = n"
  shows "length (winners cas as s) \<le> 1"
proof -
  have sub: "set (winners cas bs t) \<subseteq> set bs" for bs t
    by (induction bs arbitrary: t) (force split: prod.splits)+
  then have all: "\<forall>a \<in> set (winners cas as s). key a = k \<and> expects a = n" using assms(2) by blast
  then have "filter (\<lambda>a. key a = k) (winners cas as s) = winners cas as s" by (simp add: filter_id_conv)
  moreover have "distinct (map expects (filter (\<lambda>a. key a = k) (winners cas as s)))"
    using accepted_versions [OF assms(1), of k as] by simp
  ultimately have "distinct (map expects (winners cas as s))" by simp
  moreover have "set (map expects (winners cas as s)) \<subseteq> {n}" using all by auto
  ultimately have "length (map expects (winners cas as s)) \<le> card {n}"
    by (metis card_mono distinct_card finite.emptyI finite.insertI)
  then show ?thesis by simp
qed

end

end
