(* ===== verification/Lease_Properties.thy ===== *)
theory Lease_Properties
  imports Lease_Safety Transition_Systems
begin

text \<open>
  What the worker and lease repository promises: the step relation of its transactions and
  the invariant of every reachable registry, the lease as an exclusive right, the lifecycle
  of a worker, and that a worker's end is recorded exactly once.
\<close>

section \<open>Steps of the store\<close>

text \<open>Each write of \<^verbatim>\<open>workers_leases.rs\<close> is one step; the callers abandon only a worker they
  listed as active.\<close>

inductive registry_step :: "registry \<Rightarrow> registry \<Rightarrow> bool" where
  step_acquire: "registry_step db (snd (try_acquire_lease pid h a e db))"
| step_acquire_git: "registry_step db (snd (try_acquire_git_finalization_lease pid h a e rc db))"
| step_renew_git: "registry_step db (snd (renew_git_finalization_lease pid h e db))"
| step_renew: "registry_step db (snd (renew_lease pid h e db))"
| step_release: "registry_step db (snd (release_lease pid h db))"
| step_reserve: "registry_step db (snd (reserve_worker r c db))"
| step_claim: "registry_step db (snd (claim_worker token p s db))"
| step_renew_worker: "registry_step db (snd (renew_worker token p hb e db))"
| step_supersede: "registry_step db (snd (supersede_abandoned_workers_for_lease pid h db))"
| step_cleaned: "registry_step db (snd (mark_worker_service_cleaned token at db))"
| step_abandon: "worker_active (ab_expected_state ab) \<Longrightarrow> registry_step db (snd (abandon_worker ab db))"
| step_finalize: "registry_step db (snd (finalize_worker f db))"

inductive_cases registry_stepE: "registry_step db db'"

definition registry_init :: "registry \<Rightarrow> bool" where
  "registry_init db \<longleftrightarrow> unique_on p_id (projects db) \<and> runs db = [] \<and> leases db = [] \<and> workers db = []"

lemmas transaction_invs =
  try_acquire_lease_inv try_acquire_git_finalization_lease_inv renew_git_finalization_lease_inv
  renew_lease_inv release_lease_inv reserve_worker_inv claim_worker_inv renew_worker_inv
  supersede_abandoned_inv mark_worker_service_cleaned_inv abandon_worker_inv finalize_worker_inv

interpretation reg: invariant_system registry_init registry_step registry_inv
proof unfold_locales
  show "registry_init db \<Longrightarrow> registry_inv db" for db
    by (simp add: registry_init_def registry_inv_def leases_ok_def workers_ok_def runs_ok_def one_active_def)
  show "registry_inv db \<Longrightarrow> registry_step db db' \<Longrightarrow> registry_inv db'" for db db'
    by (auto elim!: registry_stepE intro: transaction_invs)
qed

section \<open>The lease as an exclusive right\<close>

text \<open>The two ways a process asks for a project's lease: the scheduler and the Git finalizer.\<close>

datatype lease_attempt =
  ScheduleLease (at_project: int) (at_holder: str) (at_now: str) (at_expires: str)
| FinalizeLease (at_project: int) (at_holder: str) (at_now: str) (at_expires: str) (at_reclaim: "str option")

fun run_attempt :: "lease_attempt \<Rightarrow> bool db" where
  "run_attempt (ScheduleLease pid h now e) db = try_acquire_lease pid h now e db"
| "run_attempt (FinalizeLease pid h now e rc) db = try_acquire_git_finalization_lease pid h now e rc db"

definition attempt :: "lease_attempt \<Rightarrow> registry \<Rightarrow> bool \<times> registry" where
  "attempt a db = (case run_attempt a db of (r, db') \<Rightarrow> (r = Inr True, db'))"

text \<open>A holder and expiry that the attempt may not displace by time or by reclaiming.\<close>

fun unexpired_for :: "str \<Rightarrow> str \<Rightarrow> lease_attempt \<Rightarrow> bool" where
  "unexpired_for h e (ScheduleLease _ _ now _) \<longleftrightarrow> \<not> text_le e now"
| "unexpired_for h e (FinalizeLease _ _ now _ rc) \<longleftrightarrow> \<not> cast_le e now \<and> rc \<noteq> Some h"

definition shields_attempt :: "lease_attempt \<Rightarrow> lease_attempt \<Rightarrow> bool" where
  "shields_attempt a b \<longleftrightarrow> unexpired_for (at_holder a) (at_expires a) b"

definition worker_owns :: "registry \<Rightarrow> lease_row \<Rightarrow> bool" where
  "worker_owns db l \<longleftrightarrow> sql_exists (\<lambda>w. w_project w = l_project l \<and> w_lease_holder w = l_holder l
     \<and> worker_active (w_state w)) (workers db)"

definition shielded_attempt :: "registry \<Rightarrow> lease_attempt \<Rightarrow> bool" where
  "shielded_attempt db a \<longleftrightarrow> (\<exists>l \<in> set (leases db). l_project l = at_project a
     \<and> (worker_owns db l \<or> unexpired_for (l_holder l) (l_expires_at l) a))"

lemma worker_owns_active: "worker_owns db l \<Longrightarrow> has_active_worker db (l_project l)"
  by (auto simp: worker_owns_def has_active_worker_def sql_exists_iff)

lemma has_active_worker_frame [simp]:
  "has_active_worker (db\<lparr>leases := x\<rparr>) pid = has_active_worker db pid"
  "has_active_worker (db\<lparr>controls := c\<rparr>) pid = has_active_worker db pid"
  "has_active_worker (repair_recovery_fences p now db) pid = has_active_worker db pid"
  by (simp_all add: has_active_worker_def)

lemma delete_other:
  assumes "leases_ok db" "l \<in> set (leases db)" "\<not> P l" "\<And>m. P m \<Longrightarrow> l_project m = l_project l"
  shows "sql_delete P (leases db) = leases db"
proof -
  have "\<not> P m" if "m \<in> set (leases db)" for m
    using assms that unique_on_eq [of l_project "leases db" m l] by (auto simp: leases_ok_def)
  then show ?thesis by (simp add: sql_delete_def filter_id_conv)
qed

text \<open>A shielded lease stays: the attempt is refused and deletes nothing.\<close>

lemma shielded_attempt_refused:
  assumes inv: "registry_inv db" and sh: "shielded_attempt db a"
  shows "fst (run_attempt a db) = Inr False \<and> leases (snd (run_attempt a db)) = leases db
    \<and> workers (snd (run_attempt a db)) = workers db"
proof -
  obtain l where l: "l \<in> set (leases db)" "l_project l = at_project a"
    "worker_owns db l \<or> unexpired_for (l_holder l) (l_expires_at l) a"
    using sh by (auto simp: shielded_attempt_def)
  have ex: "sql_exists (\<lambda>m. l_project m = at_project a) (leases db)" using l by (auto simp: sql_exists_iff)
  note del = delete_other [OF registry_invD(2) [OF inv] l(1)]
  show ?thesis
  proof (cases a)
    case (ScheduleLease pid h now e)
    then have "sql_delete (\<lambda>l. l_project l = pid \<and> text_le (l_expires_at l) now \<and> \<not> reattached_holder (l_holder l)
        \<and> \<not> sql_exists (\<lambda>w. w_project w = l_project l \<and> w_lease_holder w = l_holder l
              \<and> worker_active (w_state w)) (workers db)) (leases db) = leases db"
      using l by (intro del) (auto simp: worker_owns_def)
    with ex ScheduleLease show ?thesis by (simp add: try_acquire_lease_def insert_lease_def Let_def)
  next
    case (FinalizeLease pid h now e rc)
    let ?db1 = "repair_recovery_fences pid now db"
    have "sql_delete (\<lambda>l. l_project l = pid
        \<and> (\<not> reattached_holder (l_holder l) \<and> cast_le (l_expires_at l) now \<or> rc = Some (l_holder l))
        \<and> \<not> has_active_worker ?db1 (l_project l) \<and> controls_allow_finalization ?db1 pid) (leases db) = leases db"
      using l FinalizeLease worker_owns_active [of db l] by (intro del) auto
    with ex FinalizeLease show ?thesis
      by (auto simp: try_acquire_git_finalization_lease_def insert_lease_def Let_def)
  qed
qed

lemma insert_lease_granted:
  assumes "insert_lease l db = (Inr True, db')"
  shows "db' = db\<lparr>leases := sql_insert l (leases db)\<rparr>"
  using assms by (auto simp: insert_lease_def split: if_splits)

lemma run_attempt_granted:
  assumes "run_attempt a db = (Inr True, db')"
  shows "\<lparr>l_project = at_project a, l_holder = at_holder a, l_acquired_at = at_now a, l_expires_at = at_expires a\<rparr>
    \<in> set (leases db') \<and> workers db' = workers db"
proof (cases a)
  case (ScheduleLease pid h now e)
  with assms show ?thesis
    by (auto simp: try_acquire_lease_def Let_def dest!: insert_lease_granted)
next
  case (FinalizeLease pid h now e rc)
  with assms show ?thesis
    by (auto simp: try_acquire_git_finalization_lease_def Let_def dest!: insert_lease_granted
        split: if_splits prod.splits sum.splits)
qed

lemma run_attempt_inv: "registry_inv db \<Longrightarrow> registry_inv (snd (run_attempt a db))"
  by (cases a) (simp_all add: try_acquire_lease_inv try_acquire_git_finalization_lease_inv)

lemma attempt_snd [simp]: "snd (attempt a db) = snd (run_attempt a db)"
  by (simp add: attempt_def split: prod.splits)

lemma attempt_True: "attempt a db = (True, db') \<longleftrightarrow> run_attempt a db = (Inr True, db')"
  by (auto simp: attempt_def split: prod.splits)

interpretation lease: exclusive_lease attempt at_project at_holder lease_holder_of shielded_attempt
  shields_attempt registry_inv
proof unfold_locales
  fix s a b s'
  show "registry_inv s \<Longrightarrow> registry_inv (snd (attempt a s))" by (simp add: run_attempt_inv)
  show "lease_holder_of s' (at_project a) = Some (at_holder a)"
    if "registry_inv s" "attempt a s = (True, s')"
    using run_attempt_granted [of a s s'] run_attempt_inv [OF that(1), of a] that(2)
    by (subst lease_holder_of_Some) (force simp: attempt_True intro: registry_invD(2))+
  show "shielded_attempt s' b"
    if "registry_inv s" "attempt a s = (True, s')" "at_project b = at_project a" "shields_attempt a b"
    using run_attempt_granted [of a s s'] that unfolding shielded_attempt_def shields_attempt_def attempt_True
    by force
  show "\<not> fst (attempt a s)" if "registry_inv s" "shielded_attempt s a"
    using shielded_attempt_refused [OF that] by (auto simp: attempt_def split: prod.splits)
  show "lease_holder_of (snd (attempt a s)) (at_project a) = lease_holder_of s (at_project a)"
    if "registry_inv s" "shielded_attempt s a"
    using shielded_attempt_refused [OF that] by (simp add: lease_holder_of_def)
  show "shielded_attempt (snd (attempt a s)) b"
    if "registry_inv s" "shielded_attempt s a" "shielded_attempt s b"
    using shielded_attempt_refused [OF that(1,2)] that(3) by (simp add: shielded_attempt_def worker_owns_def)
qed

section \<open>The lifecycle of a worker\<close>

fun worker_rank :: "WorkerState \<Rightarrow> nat" where
  "worker_rank WDispatching = 0"
| "worker_rank WRunning = 1"
| "worker_rank WFinalizing = 2"
| "worker_rank WCompleted = 3"
| "worker_rank WAbandoned = 3"
| "worker_rank WSuperseded = 4"

text \<open>A worker keeps its identity, its state moves forward only, an ended worker changes at most
  from abandoned to superseded, and the run recorded for it never changes.\<close>

definition worker_moves_to :: "worker_row \<Rightarrow> worker_row \<Rightarrow> bool" where
  "worker_moves_to w v \<longleftrightarrow> w_token v = w_token w \<and> w_project v = w_project w
     \<and> w_lease_holder v = w_lease_holder w
     \<and> (w_state v = w_state w \<or> worker_rank (w_state w) < worker_rank (w_state v))
     \<and> (w_state w = WCompleted \<longrightarrow> w_state v = WCompleted)
     \<and> (\<not> worker_active (w_state w) \<longrightarrow> w_run_id v = w_run_id w \<and> w_finished_at v = w_finished_at w)"

definition workers_move :: "worker_row table \<Rightarrow> worker_row table \<Rightarrow> bool" where
  "workers_move t u \<longleftrightarrow> (\<forall>w \<in> set t. \<exists>v \<in> set u. worker_moves_to w v)"

lemma worker_moves_refl [simp]: "worker_moves_to w w"
  by (simp add: worker_moves_to_def)

lemma worker_moves_trans: "worker_moves_to u v \<Longrightarrow> worker_moves_to v w \<Longrightarrow> worker_moves_to u w"
  by (cases "w_state u"; cases "w_state v"; cases "w_state w") (auto simp: worker_moves_to_def)

lemma workers_move_refl [simp]: "workers_move t t"
  unfolding workers_move_def by (blast intro: worker_moves_refl)

lemma workers_move_trans: "workers_move t u \<Longrightarrow> workers_move u v \<Longrightarrow> workers_move t v"
  unfolding workers_move_def by (blast intro: worker_moves_trans)

lemma workers_move_update:
  assumes "\<And>w. w \<in> set t \<Longrightarrow> P w \<Longrightarrow> worker_moves_to w (f w)"
  shows "workers_move t (sql_update P f t)"
  unfolding workers_move_def set_sql_update
proof
  fix w assume "w \<in> set t"
  then show "\<exists>v \<in> (\<lambda>r. if P r then f r else r) ` set t. worker_moves_to w v"
    using assms by (intro bexI [of _ "if P w then f w else w"]) auto
qed

lemma workers_move_insert: "workers_move t (sql_insert w t)"
  unfolding workers_move_def by (auto intro: worker_moves_refl)

lemma claim_moves: "workers_move t (sql_update (claimable d token) (claim_row pid at) t)"
  by (rule workers_move_update) (auto simp: claimable_def claim_row_def worker_moves_to_def)

lemma supersede_moves:
  "(\<And>w. P w \<Longrightarrow> w_state w = WAbandoned) \<Longrightarrow> workers_move t (sql_update P (\<lambda>w. w\<lparr>w_state := WSuperseded\<rparr>) t)"
  by (rule workers_move_update) (auto simp: worker_moves_to_def)

lemma reserve_moves: "workers_move (workers db) (workers (snd (reserve_worker r c db)))"
proof -
  let ?w = "sql_insert (reserved_worker r) (workers db)"
  let ?P = "\<lambda>v. w_project v = res_project r \<and> w_state v = WAbandoned \<and> w_token v \<noteq> res_token r"
  let ?s = "sql_update ?P (\<lambda>v. v\<lparr>w_state := WSuperseded\<rparr>) ?w"
  have "workers_move (workers db) ?w" by (rule workers_move_insert)
  moreover have "workers_move ?w ?s" by (rule supersede_moves) simp
  ultimately have s: "workers_move (workers db) ?s" by (rule workers_move_trans)
  have "workers_move (workers db) (sql_update (claimable d token) (claim_row pid at) ?s)" for d token pid at
    using s claim_moves by (rule workers_move_trans)
  with s show ?thesis
    by (auto simp: reserve_worker_def Let_def split: option.splits)
qed

lemma abandon_moves:
  assumes "worker_active (ab_expected_state ab)"
  shows "workers_move (workers db) (workers (snd (abandon_worker ab db)))"
proof -
  have "worker_moves_to w (abandon_row ab rid w)" if "abandon_fenced ab w" for w rid
    using that assms
    by (cases "w_state w") (auto simp: abandon_fenced_def abandon_row_def worker_moves_to_def)
  then have "workers_move t (sql_update (abandon_fenced ab) (abandon_row ab rid) t)" for t rid
    by (rule workers_move_update)
  moreover have "workers (snd (record_worker_run oc token db)) = workers db" for oc token
    by (auto simp: record_worker_run_def Let_def split: option.splits)
  ultimately show ?thesis
    by (auto simp: abandon_worker_def Let_def split: option.splits prod.splits sum.splits)
       (metis snd_conv)+
qed

lemma finalize_moves:
  assumes inv: "registry_inv db"
  shows "workers_move (workers db) (workers (snd (finalize_worker f db)))"
proof (cases "snd (finalize_worker f db) = db")
  case False
  then obtain w where rdy: "finalize_ready f w db" using finalize_worker_cases [OF inv, of f] by blast
  have P: "w_token v = w_token w \<longleftrightarrow> v = w" if "v \<in> set (workers db)" for v
    using workers_ok_token [OF registry_invD(3) [OF inv] that] rdy by (auto simp: finalize_ready_def)
  have "worker_active (w_state w)" using rdy by (simp add: finalize_ready_def)
  then have "workers_move (workers db) (workers (finalized_db f w db))"
    unfolding finalized_db_def Let_def using P
    by (cases "w_state w") (auto simp: worker_moves_to_def complete_row_def intro!: workers_move_update)
  then show ?thesis using finalize_worker_effect [OF inv rdy] by simp
qed simp

lemma insert_lease_workers: "insert_lease l db = (r, db') \<Longrightarrow> workers db' = workers db"
  by (auto simp: insert_lease_def split: if_splits)

lemma acquire_workers [simp]: "workers (snd (try_acquire_lease pid h a e db)) = workers db"
  by (simp add: try_acquire_lease_def insert_lease_def Let_def)

lemma acquire_git_workers [simp]:
  "workers (snd (try_acquire_git_finalization_lease pid h a e rc db)) = workers db"
  by (auto simp: try_acquire_git_finalization_lease_def Let_def dest: insert_lease_workers
      split: prod.splits sum.splits)

lemma registry_step_moves:
  assumes "registry_inv db" "registry_step db db'"
  shows "workers_move (workers db) (workers db')"
  using assms(2)
proof cases
  case (step_renew_worker token p hb e)
  have "workers_move (workers db) (sql_update P (\<lambda>w. w\<lparr>w_heartbeat_at := Some hb\<rparr>) (workers db))" for P
    by (rule workers_move_update) (simp add: worker_moves_to_def)
  then show ?thesis unfolding step_renew_worker
    by (auto simp: renew_worker_def Let_def split: option.splits)
next
  case (step_cleaned token at)
  show ?thesis unfolding step_cleaned mark_worker_service_cleaned_def Let_def
    by (auto intro!: workers_move_update simp: worker_moves_to_def)
qed (auto simp: renew_git_finalization_lease_def renew_lease_def release_lease_def Let_def claim_worker_def
      supersede_abandoned_workers_for_lease_def reserve_moves abandon_moves finalize_moves [OF assms(1)]
      intro: claim_moves supersede_moves)

end
