(* ===== verification/Worker_Theorems.thy ===== *)
theory Worker_Theorems
  imports Lease_Properties
begin

text \<open>
  The theorems on workers and leases, each with an instance on a concrete registry: the
  invariant of reachable registries, the exclusiveness of a lease, the cap on active workers,
  the lifecycle of a worker, and that one of finalization and abandonment ends it, once.
\<close>

section \<open>A registry for the instances\<close>

definition demo_project :: "int \<Rightarrow> project_row" where
  "demo_project i = \<lparr>p_id = i, p_path = lit ''/p'' @ [48 + nat i], p_name = lit ''p'', p_enabled = True,
     p_git_mode = CommitAndPush, p_last_run_at = None, p_last_success_at = None,
     p_last_failure_at = None, p_last_blocked_recovery_at = None, p_failure_count = 0,
     p_updated_at = lit ''1000'', p_registered_at = lit ''0900'', p_codex_provider = None, p_codex_model = None,
     p_codex_reasoning_effort = None, p_codex_fast_enabled = False, p_last_scan_at = None,
     p_last_daemon_scan_status = None, p_last_daemon_scan_error = None\<rparr>"

definition demo_init :: registry where
  "demo_init = empty_registry\<lparr>projects := [demo_project 1, demo_project 2]\<rparr>"

definition demo_reservation :: AgentWorkerReservation where
  "demo_reservation = \<lparr>res_project = 1, res_token = lit ''t1'',
     res_expected_lease_holder = lit ''pid-7'', res_max_active_workers = 2,
     res_protocol_version = 3, res_service_label = lit ''clt-w-t1'', res_binary_path = lit ''/bin/clt'',
     res_command_arguments = lit ''[]'', res_path_env = lit ''/bin'', res_codex_path = None,
     res_task_selection = lit ''ready'', res_resume_session_id = None, res_created_at = lit ''1001''\<rparr>"

definition demo_leased :: registry where
  "demo_leased = snd (try_acquire_lease 1 (lit ''pid-7'') (lit ''1000'') (lit ''1060'') demo_init)"

definition demo_reserved :: registry where
  "demo_reserved = snd (reserve_worker demo_reservation None demo_leased)"

definition demo_running :: registry where
  "demo_running = snd (claim_worker (lit ''t1'') 42 (lit ''1002'') demo_reserved)"

definition demo_worker :: worker_row where
  "demo_worker = claim_row 42 (lit ''1002'') (reserved_worker demo_reservation)"

definition demo_finalization :: AgentWorkerFinalization where
  "demo_finalization = \<lparr>fin_token = lit ''t1'', fin_expected_pid = Some 42,
     fin_expected_lease_holder = worker_lease_holder (lit ''t1''), fin_status = ''success'',
     fin_finished_at = lit ''1030'', fin_exit_code = Some 0, fin_log_dir = None, fin_stdout_path = None,
     fin_stderr_path = None, fin_summary = Some (lit ''done''), fin_codex_session_id = None,
     fin_error = None\<rparr>"

definition demo_abandonment :: AgentWorkerAbandonment where
  "demo_abandonment = \<lparr>ab_token = lit ''t1'', ab_expected_state = WRunning, ab_expected_pid = Some 42,
     ab_expected_heartbeat_at = Some (lit ''1002''), ab_finished_at = lit ''1050'',
     ab_error = lit ''lost'', ab_permitted_successor = None\<rparr>"

lemma demo_init_ok: "registry_init demo_init"
  by (simp add: registry_init_def demo_init_def empty_registry_def unique_on_def demo_project_def)

lemma demo_reach: "reach registry_init registry_step demo_running"
proof -
  have "reach registry_init registry_step demo_init" using demo_init_ok by (rule reach_init)
  then have "reach registry_init registry_step demo_leased"
    unfolding demo_leased_def by (rule reach_step) (rule step_acquire)
  then have "reach registry_init registry_step demo_reserved"
    unfolding demo_reserved_def by (rule reach_step) (rule step_reserve)
  then show ?thesis unfolding demo_running_def by (rule reach_step) (rule step_claim)
qed

lemma demo_running_rows:
  "workers demo_running = [demo_worker]"
  "map l_holder (leases demo_running) = [worker_lease_holder (lit ''t1'')]"
  "map l_project (leases demo_running) = [1]"
  "runs demo_running = []"
  by code_simp+

lemma demo_worker_cols:
  "w_token demo_worker = lit ''t1''" "w_project demo_worker = 1" "w_state demo_worker = WRunning"
  "w_pid demo_worker = Some 42" "w_lease_holder demo_worker = worker_lease_holder (lit ''t1'')"
  "w_heartbeat_at demo_worker = Some (lit ''1002'')"
  by (simp_all add: demo_worker_def claim_row_def reserved_worker_def demo_reservation_def)

lemma demo_running_inv: "registry_inv demo_running"
  using demo_reach by (rule reg.reach_inv)

section \<open>Theorems\<close>

text \<open>In every registry the transactions of the worker and lease repository can reach, a project
  has at most one lease and at most one active worker, keys are unique and refer to existing
  projects, a claimed worker has a process id, and a run is recorded for exactly the workers
  that ended, under their token and run id.\<close>

theorem reachable_registry_inv:
  assumes "reach registry_init registry_step db"
  shows "registry_inv db"
  using assms by (rule reg.reach_inv)

theorem reachable_registry_inv_witness: "registry_inv demo_running"
  using demo_reach by (rule reachable_registry_inv)

text \<open>C2: while an active worker holds its project's lease, neither the scheduler nor the Git
  finalizer takes the lease, however late the attempt and whatever holder it reclaims.\<close>

theorem active_worker_keeps_lease:
  assumes "reach registry_init registry_step db" and "w \<in> set (workers db)" and "worker_active (w_state w)"
    and "lease_holder_of db (w_project w) = Some (w_lease_holder w)" and "at_project a = w_project w"
  shows "fst (run_attempt a db) = Inr False \<and> leases (snd (run_attempt a db)) = leases db
    \<and> lease_holder_of (snd (run_attempt a db)) (w_project w) = Some (w_lease_holder w)"
proof -
  have inv: "registry_inv db" using assms(1) by (rule reg.reach_inv)
  then have "shielded_attempt db a"
    using assms(2-5) unfolding shielded_attempt_def lease_holder_of_Some [OF registry_invD(2) [OF inv]]
    unfolding worker_owns_def sql_exists_iff by metis
  from shielded_attempt_refused [OF inv this] show ?thesis
    using assms(4) by (simp add: lease_holder_of_def)
qed

theorem active_worker_keeps_lease_witness:
  "fst (run_attempt (FinalizeLease 1 (lit ''f'') (lit ''9999'') (lit ''9999'') (Some (worker_lease_holder (lit ''t1''))))
          demo_running) = Inr False"
proof -
  have "lease_holder_of demo_running 1 = Some (worker_lease_holder (lit ''t1''))" by code_simp
  then show ?thesis
    using active_worker_keeps_lease [OF demo_reach, of demo_worker
        "FinalizeLease 1 (lit ''f'') (lit ''9999'') (lit ''9999'') (Some (worker_lease_holder (lit ''t1'')))"]
    by (simp add: demo_running_rows demo_worker_cols)
qed

text \<open>Of any sequence of attempts, by schedulers and finalizers in any order, on one project
  whose requested leases outlive the other attempts, at most one is granted, and its holder
  is the project's holder at the end.\<close>

theorem lease_race_single_winner:
  assumes "registry_inv db" and "\<forall>a \<in> set as. at_project a = pid"
    and "\<forall>a \<in> set as. \<forall>b \<in> set as. unexpired_for (at_holder a) (at_expires a) b"
  shows "winners attempt as db = [] \<or> (\<exists>a \<in> set as. winners attempt as db = [a]
    \<and> lease_holder_of (after_race attempt as db) pid = Some (at_holder a))"
  using assms by (intro lease.race_at_most_one) (simp_all add: shields_attempt_def)

definition demo_race :: "lease_attempt list" where
  "demo_race = [ScheduleLease 1 (lit ''a'') (lit ''1000'') (lit ''1060''),
     FinalizeLease 1 (lit ''b'') (lit ''1001'') (lit ''1061'') None,
     ScheduleLease 1 (lit ''c'') (lit ''1002'') (lit ''1062'')]"

theorem lease_race_single_winner_witness:
  "\<exists>a \<in> set demo_race. winners attempt demo_race demo_init = [a]
    \<and> lease_holder_of (after_race attempt demo_race demo_init) 1 = Some (at_holder a)"
proof -
  have inv: "registry_inv demo_init" using demo_init_ok by (rule reg.init_inv)
  have p: "\<forall>a \<in> set demo_race. at_project a = 1" by (simp add: demo_race_def)
  have sh: "\<forall>a \<in> set demo_race. \<forall>b \<in> set demo_race. unexpired_for (at_holder a) (at_expires a) b" by code_simp
  have "winners attempt demo_race demo_init \<noteq> []" by code_simp
  with lease_race_single_winner [OF inv p sh] show ?thesis by blast
qed

text \<open>The scheduler's acquisition on every branch.  A lease of the project stands unless its
  expiry is past, it is not a reattached process's and no active worker owns it; then the
  attempt is refused.  Otherwise the project gets the requested lease, or the foreign key
  fails where the project is unknown.  Leases of other projects never change.\<close>

definition lease_stands :: "registry \<Rightarrow> str \<Rightarrow> lease_row \<Rightarrow> bool" where
  "lease_stands db now l \<longleftrightarrow> \<not> text_le (l_expires_at l) now \<or> reattached_holder (l_holder l) \<or> worker_owns db l"

theorem try_acquire_lease_spec:
  "fst (try_acquire_lease pid h now e db) =
     (if \<exists>l \<in> set (leases db). l_project l = pid \<and> lease_stands db now l then Inr False
      else if project_exists db pid then Inr True else Inl ''FOREIGN KEY constraint failed'')
   \<and> filter (\<lambda>l. l_project l \<noteq> pid) (leases (snd (try_acquire_lease pid h now e db))) =
     filter (\<lambda>l. l_project l \<noteq> pid) (leases db)
   \<and> (fst (try_acquire_lease pid h now e db) = Inr True \<longrightarrow>
       filter (\<lambda>l. l_project l = pid) (leases (snd (try_acquire_lease pid h now e db))) =
         [\<lparr>l_project = pid, l_holder = h, l_acquired_at = now, l_expires_at = e\<rparr>])"
proof -
  let ?D = "\<lambda>l. l_project l = pid \<and> text_le (l_expires_at l) now \<and> \<not> reattached_holder (l_holder l)
     \<and> \<not> sql_exists (\<lambda>w. w_project w = l_project l \<and> w_lease_holder w = l_holder l
           \<and> worker_active (w_state w)) (workers db)"
  have D: "?D l \<longleftrightarrow> l_project l = pid \<and> \<not> lease_stands db now l" for l
    by (auto simp: lease_stands_def worker_owns_def)
  show ?thesis
    unfolding try_acquire_lease_def D Let_def insert_lease_def
    by (auto simp: sql_exists_iff project_exists_def sql_insert_def sql_delete_def filter_empty_conv
        intro!: filter_cong)
qed

theorem try_acquire_lease_spec_witness:
  "fst (try_acquire_lease 1 (lit ''x'') (lit ''1059'') (lit ''1100'') demo_leased) = Inr False
   \<and> filter (\<lambda>l. l_project l = 1) (leases (snd (try_acquire_lease 1 (lit ''x'') (lit ''1060'') (lit ''1100'') demo_leased))) =
      [\<lparr>l_project = 1, l_holder = lit ''x'', l_acquired_at = lit ''1060'', l_expires_at = lit ''1100''\<rparr>]"
proof
  show "fst (try_acquire_lease 1 (lit ''x'') (lit ''1059'') (lit ''1100'') demo_leased) = Inr False" by code_simp
  have "fst (try_acquire_lease 1 (lit ''x'') (lit ''1060'') (lit ''1100'') demo_leased) = Inr True" by code_simp
  with try_acquire_lease_spec [of 1 "lit ''x''" "lit ''1060''" "lit ''1100''" demo_leased]
  show "filter (\<lambda>l. l_project l = 1) (leases (snd (try_acquire_lease 1 (lit ''x'') (lit ''1060'') (lit ''1100'') demo_leased))) =
      [\<lparr>l_project = 1, l_holder = lit ''x'', l_acquired_at = lit ''1060'', l_expires_at = lit ''1100''\<rparr>]"
    by blast
qed



text \<open>What a reservation does where its guards pass.\<close>

lemma sql_count_update_same:
  assumes "\<And>r. P r \<Longrightarrow> Q (f r) = Q r"
  shows "sql_count Q (sql_update P f t) = sql_count Q t"
  unfolding sql_count_def sql_update_def using assms by (induction t) auto

lemma sql_count_singleton:
  assumes "unique_on k t" "x \<in> set t" "P x" "\<And>r. r \<in> set t \<Longrightarrow> P r \<Longrightarrow> r = x"
  shows "sql_count P t = 1"
proof -
  have "sql_count P t = sql_count (\<lambda>r. r = x) t"
    unfolding sql_count_def using assms(3,4) by (intro arg_cong [of _ _ length] filter_cong) auto
  then show ?thesis using count_unique [of k t x "\<lambda>r. r = x"] assms(1,2) by simp
qed

lemma in_sql_update: "r \<in> set t \<Longrightarrow> (if P r then f r else r) \<in> set (sql_update P f t)"
  unfolding set_sql_update by (rule imageI)

definition reserved_db :: "AgentWorkerReservation \<Rightarrow> registry \<Rightarrow> registry" where
  "reserved_db r db = db\<lparr>
     workers := sql_update (\<lambda>v. w_project v = res_project r \<and> w_state v = WAbandoned \<and> w_token v \<noteq> res_token r)
                  (\<lambda>v. v\<lparr>w_state := WSuperseded\<rparr>) (sql_insert (reserved_worker r) (workers db)),
     leases := sql_update (\<lambda>l. l_project l = res_project r \<and> l_holder l = res_expected_lease_holder r)
                  (\<lambda>l. l\<lparr>l_holder := worker_lease_holder (res_token r)\<rparr>) (leases db)\<rparr>"

lemma reserve_worker_cases:
  obtains "snd (reserve_worker r c db) = db" "fst (reserve_worker r c db) \<noteq> Inr True"
  | d where "reserve_worker r c db = (Inr True, d)"
    "d = reserved_db r db \<or> (\<exists>pid at. d = (reserved_db r db)\<lparr>workers :=
        sql_update (claimable (reserved_db r db) (res_token r)) (claim_row pid at) (workers (reserved_db r db))\<rparr>)"
    "sql_count (\<lambda>v. worker_active (w_state v)) (workers db) < res_max_active_workers r"
    "sql_count (\<lambda>l. l_project l = res_project r \<and> l_holder l = res_expected_lease_holder r) (leases db) = 1"
proof -
  have d: "reserved_db r db = db\<lparr>
     workers := sql_insert (reserved_worker r) (workers db),
     leases := sql_update (\<lambda>l. l_project l = res_project r \<and> l_holder l = res_expected_lease_holder r)
                  (\<lambda>l. l\<lparr>l_holder := w_lease_holder (reserved_worker r)\<rparr>) (leases db),
     workers := sql_update (\<lambda>v. w_project v = res_project r \<and> w_state v = WAbandoned \<and> w_token v \<noteq> res_token r)
                  (\<lambda>v. v\<lparr>w_state := WSuperseded\<rparr>) (sql_insert (reserved_worker r) (workers db))\<rparr>"
    by (simp add: reserved_db_def reserved_worker_def)
  show thesis
  proof (cases "fst (reserve_worker r c db) = Inr True")
    case True
    then have g: "sql_count (\<lambda>v. worker_active (w_state v)) (workers db) < res_max_active_workers r"
      "sql_count (\<lambda>l. l_project l = res_project r \<and> l_holder l = res_expected_lease_holder r) (leases db) = 1"
      by (auto simp: reserve_worker_def Let_def split: if_splits)
    have "snd (reserve_worker r c db) = reserved_db r db \<or> (\<exists>pid at. snd (reserve_worker r c db) =
        (reserved_db r db)\<lparr>workers := sql_update (claimable (reserved_db r db) (res_token r)) (claim_row pid at)
             (workers (reserved_db r db))\<rparr>)"
      using True unfolding d by (auto simp: reserve_worker_def Let_def split: if_splits option.splits)
    with True g that(2) show thesis by (metis prod.collapse)
  next
    case False
    then have "snd (reserve_worker r c db) = db"
      by (auto simp: reserve_worker_def Let_def split: if_splits option.splits)
    with False that(1) show thesis by blast
  qed
qed

lemma reserved_db_active:
  "sql_count (\<lambda>w. worker_active (w_state w)) (workers (reserved_db r db))
     = Suc (sql_count (\<lambda>w. worker_active (w_state w)) (workers db))"
proof -
  have "worker_active (w_state (reserved_worker r))" by (simp add: reserved_worker_def)
  then show ?thesis unfolding reserved_db_def by (simp, subst sql_count_update_same) (simp_all add: sql_count_insert)
qed

lemma claim_active:
  "sql_count (\<lambda>w. worker_active (w_state w)) (sql_update (claimable d token) (claim_row pid at) t)
     = sql_count (\<lambda>w. worker_active (w_state w)) t"
  by (rule sql_count_update_same) (simp add: claimable_def claim_row_def)

lemma reserved_worker_in:
  "reserved_worker r \<in> set (workers (reserved_db r db))"
proof -
  have "w_state (reserved_worker r) \<noteq> WAbandoned" by (simp add: reserved_worker_def)
  then show ?thesis unfolding reserved_db_def by (force simp: set_sql_update)
qed

lemma reserved_db_holder:
  assumes "registry_inv db" "leases d = leases (reserved_db r db)"
    "sql_count (\<lambda>l. l_project l = res_project r \<and> l_holder l = res_expected_lease_holder r) (leases db) = 1"
  shows "lease_holder_of db (res_project r) = Some (res_expected_lease_holder r)
    \<and> lease_holder_of d (res_project r) = Some (worker_lease_holder (res_token r))"
proof -
  obtain l where l: "l \<in> set (leases db)" "l_project l = res_project r" "l_holder l = res_expected_lease_holder r"
    using assms(3) sql_count_pos [of "\<lambda>l. l_project l = res_project r \<and> l_holder l = res_expected_lease_holder r"]
    by (metis zero_less_one)
  have ok: "leases_ok db" using assms(1) by (rule registry_invD)
  let ?f = "\<lambda>l. l\<lparr>l_holder := worker_lease_holder (res_token r)\<rparr>"
  have "unique_on l_project (leases d)"
    using ok unfolding assms(2) reserved_db_def by (simp add: leases_ok_def unique_on_update)
  moreover have "?f l \<in> set (leases d)"
    using l unfolding assms(2) reserved_db_def by (force simp: set_sql_update)
  ultimately have "sql_select (\<lambda>m. l_project m = res_project r) (leases d) = Some (?f l)"
    by (rule unique_on_select) (simp_all add: l)
  then show ?thesis using l ok by (auto simp: lease_holder_of_Some) (simp add: lease_holder_of_def)
qed

text \<open>A reservation that succeeds adds exactly one active worker, the dispatching (or, with an
  initial claim, running) one it names, stays within the cap, and moves the project's lease
  from the expected holder to the worker; one that does not succeed changes nothing.\<close>

theorem reserve_worker_effect:
  assumes inv: "registry_inv db"
  shows "case reserve_worker r c db of
      (Inr True, db') \<Rightarrow> sql_count (\<lambda>w. worker_active (w_state w)) (workers db')
            = Suc (sql_count (\<lambda>w. worker_active (w_state w)) (workers db))
          \<and> sql_count (\<lambda>w. worker_active (w_state w)) (workers db') \<le> res_max_active_workers r
          \<and> lease_holder_of db (res_project r) = Some (res_expected_lease_holder r)
          \<and> lease_holder_of db' (res_project r) = Some (worker_lease_holder (res_token r))
          \<and> has_active_worker db' (res_project r)
    | (_, db') \<Rightarrow> db' = db"
proof (cases rule: reserve_worker_cases [of r c db])
  case 1
  then show ?thesis by (cases "reserve_worker r c db") (auto split: sum.splits bool.splits)
next
  case (2 d)
  have w: "\<exists>w \<in> set (workers d). w_project w = res_project r \<and> worker_active (w_state w)"
    using 2(2)
  proof (elim disjE exE)
    show ?thesis if "d = reserved_db r db"
      using reserved_worker_in [of r db] that by (intro bexI [of _ "reserved_worker r"]) (simp_all add: reserved_worker_def)
  next
    fix pid at assume d: "d = (reserved_db r db)\<lparr>workers := sql_update (claimable (reserved_db r db) (res_token r))
        (claim_row pid at) (workers (reserved_db r db))\<rparr>"
    let ?w = "reserved_worker r"
    have "(if claimable (reserved_db r db) (res_token r) ?w then claim_row pid at ?w else ?w) \<in> set (workers d)"
      using in_sql_update [OF reserved_worker_in] unfolding d by simp
    then show ?thesis by (rule bexI [rotated]) (simp add: claim_row_def reserved_worker_def)
  qed
  have "leases d = leases (reserved_db r db)" using 2(2) by auto
  note h = reserved_db_holder [OF inv this 2(4)]
  have "sql_count (\<lambda>w. worker_active (w_state w)) (workers d) = Suc (sql_count (\<lambda>w. worker_active (w_state w)) (workers db))"
    using 2(2) by (auto simp: reserved_db_active claim_active)
  with 2(1,3) h w show ?thesis by (simp add: has_active_worker_def sql_exists_iff)
qed

theorem reserve_worker_effect_witness:
  "lease_holder_of (snd (reserve_worker demo_reservation None demo_leased)) 1 = Some (worker_lease_holder (lit ''t1''))"
proof -
  have "registry_inv demo_leased"
    unfolding demo_leased_def using demo_init_ok by (intro try_acquire_lease_inv reg.init_inv)
  from reserve_worker_effect [OF this, of demo_reservation None]
  have "fst (reserve_worker demo_reservation None demo_leased) = Inr True \<longrightarrow>
      lease_holder_of (snd (reserve_worker demo_reservation None demo_leased)) (res_project demo_reservation)
        = Some (worker_lease_holder (res_token demo_reservation))"
    by (auto split: prod.splits)
  moreover have "fst (reserve_worker demo_reservation None demo_leased) = Inr True" by code_simp
  ultimately show ?thesis by (simp add: demo_reservation_def)
qed

text \<open>C4: a finalization that reports a run id has recorded the run and completed its worker, and
  every later finalization of the same worker, whatever it carries, reports that id again
  and changes nothing: the worker's end is recorded exactly once.\<close>

lemma finalized_worker_in:
  assumes inv: "registry_inv db" and rdy: "finalize_ready f w db"
  shows "complete_row f (next_rowid r_id (runs db)) (w\<lparr>w_state := WFinalizing\<rparr>) \<in> set (workers (finalized_db f w db))"
  using in_sql_update [of w "workers db" "\<lambda>v. w_token v = w_token w"
      "\<lambda>v. complete_row f (next_rowid r_id (runs db)) (v\<lparr>w_state := WFinalizing\<rparr>)"] rdy
  by (simp add: finalize_ready_def finalized_db_def Let_def)

lemma finalize_again:
  assumes inv: "registry_inv db" and w: "w \<in> set (workers db)" "w_token w = fin_token f"
    "w_state w = WCompleted" "w_run_id w = Some rid"
  shows "finalize_worker f db = (Inr (Some rid), db)"
proof -
  have "sql_select (\<lambda>w. w_token w = fin_token f) (workers db) = Some w"
    using registry_invD(3) [OF inv] w by (intro unique_on_select [of w_token]) (auto simp: workers_ok_def)
  then show ?thesis using w by (simp add: finalize_worker_def)
qed

lemma finalize_worker_Some:
  assumes inv: "registry_inv db" and r: "finalize_worker f db = (Inr (Some rid), db')"
  shows "\<exists>w \<in> set (workers db'). w_token w = fin_token f \<and> w_state w = WCompleted \<and> w_run_id w = Some rid"
proof (cases "\<exists>w. finalize_ready f w db")
  case True
  then obtain w where rdy: "finalize_ready f w db" by blast
  then have "w_token w = fin_token f" by (simp add: finalize_ready_def)
  with finalized_worker_in [OF inv rdy] finalize_worker_effect [OF inv rdy] r show ?thesis
    by (intro bexI [of _ "complete_row f rid (w\<lparr>w_state := WFinalizing\<rparr>)"]) (simp_all add: complete_row_def)
next
  case False
  then have "db' = db" using finalize_worker_cases [OF inv, of f] r by auto
  obtain w where sel: "sql_select (\<lambda>w. w_token w = fin_token f) (workers db) = Some w"
    using r by (auto simp: finalize_worker_def split: option.splits)
  have "w_state w = WCompleted \<and> w_run_id w = Some rid"
  proof (rule ccontr)
    assume no: "\<not> (w_state w = WCompleted \<and> w_run_id w = Some rid)"
    then have "worker_active (w_state w)" "w_pid w = fin_expected_pid f"
      "sql_count (\<lambda>l. l_project l = w_project w \<and> l_holder l = fin_expected_lease_holder f) (leases db) = 1"
      using r sel by (auto simp: finalize_worker_def Let_def split: if_splits option.splits)
    moreover from this(3) have "lease_holder_of db (w_project w) = Some (fin_expected_lease_holder f)"
      unfolding lease_holder_of_Some [OF registry_invD(2) [OF inv]]
      using sql_count_pos [of "\<lambda>l. l_project l = w_project w \<and> l_holder l = fin_expected_lease_holder f"]
      by (metis zero_less_one)
    ultimately have "finalize_ready f w db" using sql_select_Some [OF sel] by (simp add: finalize_ready_def)
    with False show False by blast
  qed
  with sql_select_Some [OF sel] \<open>db' = db\<close> show ?thesis by blast
qed

theorem finalize_exactly_once:
  assumes inv: "registry_inv db" and r: "finalize_worker f db = (Inr (Some rid), db')" and "fin_token g = fin_token f"
  shows "finalize_worker g db' = (Inr (Some rid), db')
    \<and> length (filter (\<lambda>r. r_worker_token r = Some (fin_token f)) (runs db')) = 1
    \<and> (\<exists>r \<in> set (runs db'). r_worker_token r = Some (fin_token f) \<and> r_id r = rid)"
proof -
  have inv': "registry_inv db'" using finalize_worker_inv [OF inv, of f] r by simp
  obtain w where w: "w \<in> set (workers db')" "w_token w = fin_token f" "w_state w = WCompleted" "w_run_id w = Some rid"
    using finalize_worker_Some [OF inv r] by blast
  have ok: "runs_ok db'" using inv' by (rule registry_invD)
  have "run_recorded (runs db') w" using runs_okD(5) [OF ok w(1)] w(3) by simp
  then obtain x where x: "x \<in> set (runs db')" "r_worker_token x = Some (fin_token f)" "r_id x = rid"
    using w by (auto simp: run_recorded_def)
  have one: "sql_count (\<lambda>r. r_worker_token r = Some (fin_token f)) (runs db') = 1"
    using runs_okD(1) [OF ok] x(1,2)
  proof (rule sql_count_singleton)
    show "r = x" if "r \<in> set (runs db')" "r_worker_token r = Some (fin_token f)" for r
      using that x(1,2) by (intro runs_okD(2) [OF ok]) simp_all
  qed
  show ?thesis
    using finalize_again [OF inv' w(1) _ w(3,4), of g] w(2) assms(3) one x by (auto simp: sql_count_def)
qed

theorem finalize_exactly_once_witness:
  "fst (finalize_worker (demo_finalization\<lparr>fin_status := ''failure'', fin_expected_pid := None\<rparr>)
     (snd (finalize_worker demo_finalization demo_running))) = Inr (Some 1)"
proof -
  have "fst (finalize_worker demo_finalization demo_running) = Inr (Some 1)" by code_simp
  then have "finalize_worker demo_finalization demo_running
      = (Inr (Some 1), snd (finalize_worker demo_finalization demo_running))" by (metis prod.collapse)
  from finalize_exactly_once [OF demo_running_inv this,
      of "demo_finalization\<lparr>fin_status := ''failure'', fin_expected_pid := None\<rparr>"]
  show ?thesis by simp
qed

text \<open>Abandoning a worker listed as active, on every branch.  It succeeds exactly where a worker
  still matches the observed state, process and heartbeat and the project's lease is gone,
  the worker's own or the permitted successor's; then the worker is abandoned with a failure
  run, its own lease is deleted and a successor's is kept.  Otherwise nothing changes.\<close>

theorem abandon_worker_spec:
  assumes inv: "registry_inv db" and act: "worker_active (ab_expected_state a)"
  shows "case abandon_worker a db of
      (Inr True, db') \<Rightarrow> (\<exists>w \<in> set (workers db). abandon_fenced a w
          \<and> lease_holder_of db (w_project w) \<in> {None, Some (w_lease_holder w), ab_permitted_successor a}
          \<and> abandon_row a (next_rowid r_id (runs db)) w \<in> set (workers db')
          \<and> runs db' = runs db @ [outcome_row (abandonment_outcome a w) (w_token w) (next_rowid r_id (runs db))]
          \<and> (lease_holder_of db (w_project w) = Some (w_lease_holder w) \<longrightarrow> lease_holder_of db' (w_project w) = None)
          \<and> (lease_holder_of db (w_project w) \<noteq> Some (w_lease_holder w) \<longrightarrow> leases db' = leases db))
    | (res, db') \<Rightarrow> res = Inr False \<and> db' = db
        \<and> \<not> (\<exists>w \<in> set (workers db). abandon_fenced a w
          \<and> lease_holder_of db (w_project w) \<in> {None, Some (w_lease_holder w), ab_permitted_successor a})"
proof (cases "\<exists>w \<in> set (workers db). abandon_fenced a w
     \<and> lease_holder_of db (w_project w) \<in> {None, Some (w_lease_holder w), ab_permitted_successor a}")
  case True
  then obtain w where w: "w \<in> set (workers db)" "abandon_fenced a w"
    "lease_holder_of db (w_project w) \<in> {None, Some (w_lease_holder w), ab_permitted_successor a}" by blast
  have aw: "worker_active (w_state w)" using w(2) act by (simp add: abandon_fenced_def)
  let ?d = "abandoned_db a w db"
  have eff: "abandon_worker a db = (Inr True, ?d)" using abandon_worker_effect [OF inv w(1,2) aw w(3)] .
  have "abandon_row a (next_rowid r_id (runs db)) w \<in> set (workers ?d)"
    using in_sql_update [OF w(1), of "abandon_fenced a" "abandon_row a (next_rowid r_id (runs db))"] w(2)
    by (simp add: abandoned_db_def Let_def)
  moreover have "runs ?d = runs db @ [outcome_row (abandonment_outcome a w) (w_token w) (next_rowid r_id (runs db))]"
    by (simp add: abandoned_db_def Let_def sql_insert_def)
  moreover have "lease_holder_of ?d (w_project w) = None" if h: "lease_holder_of db (w_project w) = Some (w_lease_holder w)"
  proof -
    have "l_holder l = w_lease_holder w" if "l \<in> set (leases db)" "l_project l = w_project w" for l
      using h that lease_holder_of_Some [OF registry_invD(2) [OF inv], of "w_project w" "l_holder l"] by auto
    then have "sql_select (\<lambda>l. l_project l = w_project w) (leases ?d) = None"
      using h by (auto simp: sql_select_None abandoned_db_def Let_def own_lease_def)
    then show ?thesis by (simp add: lease_holder_of_def)
  qed
  moreover have "leases ?d = leases db" if "lease_holder_of db (w_project w) \<noteq> Some (w_lease_holder w)"
    using that by (simp add: abandoned_db_def Let_def)
  ultimately have "\<exists>w \<in> set (workers db). abandon_fenced a w
          \<and> lease_holder_of db (w_project w) \<in> {None, Some (w_lease_holder w), ab_permitted_successor a}
          \<and> abandon_row a (next_rowid r_id (runs db)) w \<in> set (workers ?d)
          \<and> runs ?d = runs db @ [outcome_row (abandonment_outcome a w) (w_token w) (next_rowid r_id (runs db))]
          \<and> (lease_holder_of db (w_project w) = Some (w_lease_holder w) \<longrightarrow> lease_holder_of ?d (w_project w) = None)
          \<and> (lease_holder_of db (w_project w) \<noteq> Some (w_lease_holder w) \<longrightarrow> leases ?d = leases db)"
    using w by (intro bexI [of _ w]) blast+
  then show ?thesis unfolding eff by simp
next
  case False
  then have "abandon_worker a db = (Inr False, db)"
    using sql_select_Some [of "abandon_fenced a" "workers db"]
    by (auto simp: abandon_worker_def split: option.splits)
  with False show ?thesis by simp
qed

theorem abandon_worker_spec_witness:
  "lease_holder_of (snd (abandon_worker demo_abandonment demo_running)) 1 = None
    \<and> length (runs (snd (abandon_worker demo_abandonment demo_running))) = 1"
proof -
  have "worker_active (ab_expected_state demo_abandonment)" by (simp add: demo_abandonment_def)
  note spec = abandon_worker_spec [OF demo_running_inv this]
  have "fst (abandon_worker demo_abandonment demo_running) = Inr True" by code_simp
  then obtain d where d: "abandon_worker demo_abandonment demo_running = (Inr True, d)" by (metis prod.collapse)
  have "lease_holder_of demo_running 1 = Some (worker_lease_holder (lit ''t1''))" by code_simp
  then show ?thesis using spec by (simp add: d demo_running_rows demo_worker_cols)
qed

text \<open>Once a worker is abandoned, its finalization finds nothing to do, and once it is finalized,
  its abandonment does not: exactly one of the two competing ends is recorded.\<close>

lemma finalize_ended:
  assumes inv: "registry_inv db" and w: "w \<in> set (workers db)" "w_token w = fin_token f"
    "w_state w \<in> {WAbandoned, WSuperseded}"
  shows "finalize_worker f db = (Inr None, db)"
proof -
  have "sql_select (\<lambda>w. w_token w = fin_token f) (workers db) = Some w"
    using registry_invD(3) [OF inv] w by (intro unique_on_select [of w_token]) (auto simp: workers_ok_def)
  then show ?thesis using w by (auto simp: finalize_worker_def)
qed

lemma abandoned_worker_in:
  assumes inv: "registry_inv db" and act: "worker_active (ab_expected_state a)" and ab: "abandon_worker a db = (Inr True, d)"
  shows "\<exists>w. abandon_fenced a w \<and> abandon_row a (next_rowid r_id (runs db)) w \<in> set (workers d)"
proof -
  obtain w where w: "sql_select (abandon_fenced a) (workers db) = Some w"
    "lease_holder_of db (w_project w) \<in> {None, Some (w_lease_holder w), ab_permitted_successor a}"
    using ab by (auto simp: abandon_worker_def split: option.splits if_splits)
  note w1 = sql_select_Some [OF w(1)]
  then have "worker_active (w_state w)" using act by (simp add: abandon_fenced_def)
  then have "d = abandoned_db a w db" using abandon_worker_effect [OF inv _ _ _ w(2)] w1 ab by simp
  then show ?thesis
    using in_sql_update [of w "workers db" "abandon_fenced a" "abandon_row a (next_rowid r_id (runs db))"] w1
    by (intro exI [of _ w]) (simp add: abandoned_db_def Let_def)
qed

theorem finalize_abandon_exclusive:
  assumes inv: "registry_inv db" and act: "worker_active (ab_expected_state a)" and tok: "ab_token a = fin_token f"
  shows "(\<forall>d. abandon_worker a db = (Inr True, d) \<longrightarrow> finalize_worker f d = (Inr None, d))
    \<and> (\<forall>rid d. finalize_worker f db = (Inr (Some rid), d) \<longrightarrow> abandon_worker a d = (Inr False, d))"
proof (intro conjI allI impI)
  fix d assume ab: "abandon_worker a db = (Inr True, d)"
  have d: "registry_inv d" using abandon_worker_inv [OF inv act] ab by simp
  obtain w where w: "abandon_fenced a w" "abandon_row a (next_rowid r_id (runs db)) w \<in> set (workers d)"
    using abandoned_worker_in [OF inv act ab] by blast
  then show "finalize_worker f d = (Inr None, d)"
    using tok by (intro finalize_ended [OF d w(2)]) (simp_all add: abandon_row_def abandon_fenced_def)
next
  fix rid d assume fin: "finalize_worker f db = (Inr (Some rid), d)"
  have d: "registry_inv d" using finalize_worker_inv [OF inv, of f] fin by simp
  obtain w where w: "w \<in> set (workers d)" "w_token w = fin_token f" "w_state w = WCompleted"
    using finalize_worker_Some [OF inv fin] by blast
  have "\<not> abandon_fenced a v" if "v \<in> set (workers d)" for v
    using workers_ok_token [OF registry_invD(3) [OF d] that w(1)] w act tok by (auto simp: abandon_fenced_def)
  then have "sql_select (abandon_fenced a) (workers d) = None" by (simp add: sql_select_None)
  then show "abandon_worker a d = (Inr False, d)" by (simp add: abandon_worker_def)
qed

theorem finalize_abandon_exclusive_witness:
  "fst (finalize_worker demo_finalization (snd (abandon_worker demo_abandonment demo_running))) = Inr None"
proof -
  have "worker_active (ab_expected_state demo_abandonment)" "ab_token demo_abandonment = fin_token demo_finalization"
    by (simp_all add: demo_abandonment_def demo_finalization_def)
  note ex = finalize_abandon_exclusive [OF demo_running_inv this]
  have "fst (abandon_worker demo_abandonment demo_running) = Inr True" by code_simp
  then obtain d where d: "abandon_worker demo_abandonment demo_running = (Inr True, d)" by (metis prod.collapse)
  with ex have "finalize_worker demo_finalization d = (Inr None, d)" by blast
  with d show ?thesis by simp
qed

end
