(* ===== verification/Git_Journals.thy ===== *)
theory Git_Journals
  imports Workers_Leases
begin

text \<open>
  The repository of Git launch boundaries and managed Git finalization journals
  (\<^verbatim>\<open>src/src/agent/repositories/git_journals.rs\<close>).  A journal follows one Codex session's work from
  \<^verbatim>\<open>working\<close> to a proven commit or push; every change of it is a compare-and-set on its
  generation.  Each transaction is a function on the registry; the time the code reads from
  the clock is its argument \<open>now\<close>.

  \<^verbatim>\<open>generation = generation + 1\<close> is an unbounded sum here.  The compare-and-set refuses the
  generation after \<^verbatim>\<open>i64::MAX\<close> as the code does; the cancelling statements do not check it, and
  a journal would need \<^verbatim>\<open>2^63 - 1\<close> updates before the engine's sum leaves the integers.
\<close>

named_theorems journal_defs \<open>definitions of the journal transactions\<close>

section \<open>Keys and common conditions\<close>

definition journal_at :: "int \<Rightarrow> str \<Rightarrow> journal_row \<Rightarrow> bool" where
  "journal_at pid sid g \<longleftrightarrow> g_project g = pid \<and> g_session g = sid"

definition control_at :: "int \<Rightarrow> str \<Rightarrow> control_row \<Rightarrow> bool" where
  "control_at pid sid sc \<longleftrightarrow> sc_project sc = pid \<and> sc_session sc = sid"

definition has_launch :: "registry \<Rightarrow> int \<Rightarrow> bool" where
  "has_launch db pid = sql_exists (\<lambda>a. gl_project a = pid) (launches db)"

definition recovery_token :: "int \<Rightarrow> str" where
  "recovery_token gen = git_finalization_token_prefix @ show_int gen"

text \<open>A control without a process, an interactive holder or a pending interactive launch.\<close>

definition unattended :: "control_row \<Rightarrow> bool" where
  "unattended sc \<longleftrightarrow> sc_child_pid sc = None \<and> sc_interactive_holder sc = None
     \<and> sc_interactive_launch_token sc = None"

definition idle_control :: "control_row \<Rightarrow> bool" where
  "idle_control sc \<longleftrightarrow> sc_state sc \<in> {Stopped, ResumeRequested} \<and> unattended sc"

definition live_lease :: "int \<Rightarrow> str \<Rightarrow> lease_row \<Rightarrow> bool" where
  "live_lease pid now l \<longleftrightarrow> l_project l = pid \<and> \<not> cast_le (l_expires_at l) now"

text \<open>\<^verbatim>\<open>INSERT INTO session_controls ... ON CONFLICT DO UPDATE SET state, run_token, updated_at\<close>.\<close>

definition stop_control :: "int \<Rightarrow> str \<Rightarrow> str option \<Rightarrow> str \<Rightarrow> registry \<Rightarrow> registry" where
  "stop_control pid sid token now db =
     (if sql_exists (control_at pid sid) (controls db)
      then db\<lparr>controls := sql_update (control_at pid sid)
             (\<lambda>sc. sc\<lparr>sc_state := Stopped, sc_run_token := token, sc_updated_at := now\<rparr>) (controls db)\<rparr>
      else db\<lparr>controls := sql_insert
             \<lparr>sc_project = pid, sc_session = sid, sc_state = Stopped, sc_child_pid = None,
              sc_run_token = token, sc_interactive_holder = None, sc_interactive_launch_token = None,
              sc_stdout_path = None, sc_stderr_path = None, sc_updated_at = now\<rparr> (controls db)\<rparr>)"

section \<open>Session Git modes\<close>

definition session_can_enable_git :: "registry \<Rightarrow> int \<Rightarrow> str \<Rightarrow> str \<Rightarrow> str \<Rightarrow> bool" where
  "session_can_enable_git db pid sid lease_holder now \<longleftrightarrow>
     sql_count (\<lambda>(m, l). l_project l = sm_project m \<and> sm_project m = pid \<and> sm_session m = sid
         \<and> sm_git_mode m = Off \<and> l_holder l = lease_holder \<and> \<not> cast_le (l_expires_at l) now
         \<and> \<not> sql_exists (journal_at (sm_project m) (sm_session m)) (journals db)
         \<and> \<not> has_launch db (sm_project m)
         \<and> \<not> sql_exists (\<lambda>w. w_project w = sm_project m \<and> worker_active (w_state w)
                \<and> w_lease_holder w \<noteq> lease_holder) (workers db)
         \<and> \<not> sql_exists (\<lambda>sc. sc_project sc = sm_project m \<and> \<not> idle_control sc) (controls db))
       (List.product (session_modes db) (leases db)) = 1"

record NewGitFinalization =
  nf_project :: int
  nf_session :: str
  nf_git_mode :: AgentGitMode
  nf_starting_head :: "str option"
  nf_branch_ref :: "str option"
  nf_upstream_ref :: "str option"
  nf_worktree_baseline :: str
  nf_task_identity :: "str option"
  nf_owner_run_token :: "str option"
  nf_created_at :: str

definition new_journal :: "NewGitFinalization \<Rightarrow> journal_row" where
  "new_journal f =
     \<lparr>g_project = nf_project f, g_session = nf_session f, g_state = Working,
      g_git_mode = nf_git_mode f, g_starting_head = nf_starting_head f,
      g_branch_ref = nf_branch_ref f, g_upstream_ref = nf_upstream_ref f,
      g_worktree_baseline = nf_worktree_baseline f, g_task_identity = nf_task_identity f,
      g_owner_run_token = nf_owner_run_token f, g_commit_oid = None, g_generation = 0,
      g_last_error = None, g_created_at = nf_created_at f, g_updated_at = nf_created_at f,
      g_completed_at = None, g_acknowledged_at = None, g_acknowledged_run_id = None\<rparr>"

definition enable_session_git :: "NewGitFinalization \<Rightarrow> str \<Rightarrow> str \<Rightarrow> bool db" where
  "enable_session_git f lease_holder now db =
     (if nf_git_mode f = Off \<or> nf_starting_head f = None \<or> nf_task_identity f = None
         \<or> nf_owner_run_token f = None
      then (Inl ''Enabling session Git requires a complete boundary and owner'', db)
      else if \<not> session_can_enable_git db (nf_project f) (nf_session f) lease_holder now
      then (Inr False, db)
      else if sql_exists (journal_at (nf_project f) (nf_session f)) (journals db)
      then (Inl ''UNIQUE constraint failed'', db)
      else if \<not> project_exists db (nf_project f) then (Inl ''FOREIGN KEY constraint failed'', db)
      else (Inr True, db\<lparr>journals := sql_insert (new_journal f) (journals db),
              session_modes := sql_update
                (\<lambda>m. sm_project m = nf_project f \<and> sm_session m = nf_session f)
                (\<lambda>m. m\<lparr>sm_git_mode := nf_git_mode f\<rparr>) (session_modes db)\<rparr>))"

text \<open>\<^verbatim>\<open>INSERT OR IGNORE\<close> of the mode \<^verbatim>\<open>off\<close> for the control the log belongs to.\<close>

definition recover_unmanaged_session_git_mode :: "int \<Rightarrow> str \<Rightarrow> str \<Rightarrow> unit db" where
  "recover_unmanaged_session_git_mode pid sid stderr_path db =
     (if sql_exists (\<lambda>sc. control_at pid sid sc \<and> sc_stderr_path sc = Some stderr_path
           \<and> \<not> sql_exists (journal_at pid sid) (journals db) \<and> \<not> has_launch db pid) (controls db)
         \<and> \<not> sql_exists (\<lambda>m. sm_project m = pid \<and> sm_session m = sid) (session_modes db)
      then if \<not> project_exists db pid then (Inl ''FOREIGN KEY constraint failed'', db)
           else (Inr (), db\<lparr>session_modes := sql_insert
                   \<lparr>sm_project = pid, sm_session = sid, sm_git_mode = Off\<rparr> (session_modes db)\<rparr>)
      else (Inr (), db))"

definition session_git_mode :: "int option \<Rightarrow> registry \<Rightarrow> int \<Rightarrow> str \<Rightarrow> AgentGitMode option" where
  "session_git_mode pending_migration db pid sid =
     (if (case pending_migration of None \<Rightarrow> False | Some v \<Rightarrow> v \<le> 19) then None
      else map_option sm_git_mode
             (sql_select (\<lambda>m. sm_project m = pid \<and> sm_session m = sid) (session_modes db)))"

section \<open>Launch boundaries\<close>

record AgentGitStartState =
  gs_starting_head :: str
  gs_branch_ref :: "str option"
  gs_upstream_ref :: "str option"
  gs_worktree_baseline :: str

definition launch_at :: "int \<Rightarrow> str \<Rightarrow> launch_row \<Rightarrow> bool" where
  "launch_at pid token a \<longleftrightarrow> gl_project a = pid \<and> gl_run_token a = token"

definition launch_start :: "launch_row \<Rightarrow> AgentGitStartState" where
  "launch_start a = \<lparr>gs_starting_head = gl_starting_head a, gs_branch_ref = gl_branch_ref a,
     gs_upstream_ref = gl_upstream_ref a, gs_worktree_baseline = gl_worktree_baseline a\<rparr>"

definition exact_launch :: "int \<Rightarrow> str \<Rightarrow> AgentGitMode \<Rightarrow> AgentGitStartState \<Rightarrow> launch_row \<Rightarrow> bool" where
  "exact_launch pid token mode start a \<longleftrightarrow>
     launch_at pid token a \<and> gl_git_mode a = mode \<and> launch_start a = start"

definition record_git_launch_state ::
  "int \<Rightarrow> str \<Rightarrow> AgentGitMode \<Rightarrow> AgentGitStartState \<Rightarrow> str \<Rightarrow> bool db" where
  "record_git_launch_state pid token mode start created_at db =
     (let fresh = \<not> sql_exists (launch_at pid token) (launches db)
      in if mode = Off then (Inl ''A Git launch state cannot use Git mode off'', db)
         else if 0 < sql_count (\<lambda>a. gl_project a = pid \<and> gl_run_token a \<noteq> token) (launches db)
         then (Inl ''A prior automated run has an unconsumed Git launch boundary'', db)
         else if fresh \<and> \<not> project_exists db pid then (Inl ''FOREIGN KEY constraint failed'', db)
         else if fresh then
           (Inr True, db\<lparr>launches := sql_insert
              \<lparr>gl_project = pid, gl_run_token = token, gl_git_mode = mode,
               gl_starting_head = gs_starting_head start, gl_branch_ref = gs_branch_ref start,
               gl_upstream_ref = gs_upstream_ref start,
               gl_worktree_baseline = gs_worktree_baseline start, gl_created_at = created_at\<rparr>
              (launches db)\<rparr>)
         else if sql_count (exact_launch pid token mode start) (launches db) \<noteq> 1
         then (Inl ''Automated run already has a different immutable Git launch boundary'', db)
         else (Inr False, db))"

definition has_other_git_launch_state :: "registry \<Rightarrow> int \<Rightarrow> str \<Rightarrow> bool" where
  "has_other_git_launch_state db pid token =
     (sql_count (\<lambda>a. gl_project a = pid \<and> gl_run_token a \<noteq> token) (launches db) \<noteq> 0)"

definition git_launch_state_for_project ::
  "registry \<Rightarrow> int \<Rightarrow> (str \<times> AgentGitMode \<times> AgentGitStartState) option result" where
  "git_launch_state_for_project db pid =
     (case sort_key (\<lambda>a. (gl_created_at a, gl_run_token a)) (filter (\<lambda>a. gl_project a = pid) (launches db)) of
        [] \<Rightarrow> Inr None
      | [a] \<Rightarrow> Inr (Some (gl_run_token a, gl_git_mode a, launch_start a))
      | _ \<Rightarrow> Inl ''Project has more than one unconsumed Git launch boundary'')"

definition reclaim_unchanged_git_launch_state ::
  "int \<Rightarrow> str \<Rightarrow> AgentGitMode \<Rightarrow> AgentGitStartState \<Rightarrow> bool db" where
  "reclaim_unchanged_git_launch_state pid token mode start db =
     (let terminal_worker = (sql_count (\<lambda>w. w_token w = token \<and> w_project w = pid
            \<and> w_state w \<in> {WCompleted, WAbandoned, WSuperseded}) (workers db) = 1);
          any_session = (sql_count (\<lambda>sc. sc_project sc = pid \<and> sc_run_token sc = Some token)
            (controls db) \<noteq> 0)
      in if \<not> terminal_worker \<or> any_session then (Inr False, db)
         else (Inr (sql_count (exact_launch pid token mode start) (launches db) = 1),
               db\<lparr>launches := sql_delete (exact_launch pid token mode start) (launches db)\<rparr>))"

definition git_launch_state :: "registry \<Rightarrow> int \<Rightarrow> str \<Rightarrow> (AgentGitMode \<times> AgentGitStartState) option" where
  "git_launch_state db pid token =
     map_option (\<lambda>a. (gl_git_mode a, launch_start a)) (sql_select (launch_at pid token) (launches db))"

definition delete_git_launch_state :: "int \<Rightarrow> str \<Rightarrow> bool db" where
  "delete_git_launch_state pid token db =
     (Inr (sql_count (launch_at pid token) (launches db) = 1),
      db\<lparr>launches := sql_delete (launch_at pid token) (launches db)\<rparr>)"

section \<open>Creating and reading journals\<close>

definition running_owner :: "int \<Rightarrow> str \<Rightarrow> str \<Rightarrow> control_row \<Rightarrow> bool" where
  "running_owner pid sid token sc \<longleftrightarrow>
     control_at pid sid sc \<and> sc_state sc = Running \<and> sc_run_token sc = Some token"

definition create_git_finalization :: "NewGitFinalization \<Rightarrow> bool db" where
  "create_git_finalization f db =
     (if nf_session f = [] then (Inl ''Git finalization requires a Codex session ID'', db)
      else if nf_git_mode f = Off
      then (Inl ''Git finalization cannot be created when Git automation is off'', db)
      else if (case nf_owner_run_token f of None \<Rightarrow> False
               | Some token \<Rightarrow> \<not> sql_exists (running_owner (nf_project f) (nf_session f) token) (controls db))
      then (Inr False, db)
      else if sql_exists (journal_at (nf_project f) (nf_session f)) (journals db) then (Inr False, db)
      else if \<not> project_exists db (nf_project f) then (Inl ''FOREIGN KEY constraint failed'', db)
      else (Inr True, db\<lparr>journals := sql_insert (new_journal f) (journals db)\<rparr>))"

definition git_finalization :: "registry \<Rightarrow> int \<Rightarrow> str \<Rightarrow> journal_row option" where
  "git_finalization db pid sid = sql_select (journal_at pid sid) (journals db)"

definition list_pending_git_finalizations :: "registry \<Rightarrow> int option \<Rightarrow> journal_row list" where
  "list_pending_git_finalizations db pid =
     sort_key (\<lambda>g. (str_to_i64 (g_updated_at g), g_project g, g_session g))
       (filter (\<lambda>g. journal_open (g_state g) \<and> (pid = None \<or> pid = Some (g_project g))) (journals db))"

definition list_unacknowledged_completed_git_finalizations ::
  "registry \<Rightarrow> int option \<Rightarrow> journal_row list" where
  "list_unacknowledged_completed_git_finalizations db pid =
     sort_key (\<lambda>g. (case g_completed_at g of None \<Rightarrow> 0 | Some t \<Rightarrow> 1 + (str_to_i64 t - i64_min),
                     g_project g, g_session g))
       (filter (\<lambda>g. g_state g = Completed \<and> g_acknowledged_at g = None
                 \<and> (pid = None \<or> pid = Some (g_project g))) (journals db))"

section \<open>Compare and set\<close>

record cas_request =
  cq_project :: int
  cq_session :: str
  cq_expected_generation :: int
  cq_next_state :: GitFinalizationState
  cq_task_identity :: "str option"
  cq_worktree_baseline :: "str option"
  cq_require_running_owner :: bool
  cq_owner_run_token :: "str option"
  cq_commit_oid :: "str option"
  cq_last_error :: "str option"
  cq_updated_at :: str

definition option_or :: "'a option \<Rightarrow> 'a option \<Rightarrow> 'a option" where
  "option_or a b = (case a of None \<Rightarrow> b | Some _ \<Rightarrow> a)"

text \<open>The checks of the proposed row against the current one, in the order of the code.\<close>

definition cas_rejection :: "journal_row \<Rightarrow> cas_request \<Rightarrow> string option" where
  "cas_rejection g q =
     (if \<not> can_transition_to (g_state g) (cq_next_state q)
      then Some ''Invalid Git finalization transition''
      else if cq_next_state q = PushPending \<and> g_git_mode g \<noteq> CommitAndPush
      then Some ''Only commit-and-push finalizations may enter push_pending''
      else if g_task_identity g \<noteq> None \<and> cq_task_identity q \<noteq> None
              \<and> g_task_identity g \<noteq> cq_task_identity q
      then Some ''Git finalization task identity cannot change after completion intent is recorded''
      else if gfs_is_finalizing (cq_next_state q)
              \<and> option_or (cq_task_identity q) (g_task_identity g) = None
      then Some ''Git finalization cannot enter the state without a task identity''
      else if g_commit_oid g \<noteq> None \<and> cq_commit_oid q \<noteq> None \<and> g_commit_oid g \<noteq> cq_commit_oid q
      then Some ''Git finalization commit OID cannot change once recorded''
      else if cq_next_state q \<in> {PushPending, Completed}
              \<and> option_or (cq_commit_oid q) (g_commit_oid g) = None
      then Some ''Git finalization cannot enter the state without a commit OID''
      else if cq_next_state q = Completed
              \<and> ((g_git_mode g = Commit \<and> g_state g \<noteq> CommitPending)
                 \<or> (g_git_mode g = CommitAndPush \<and> g_state g \<noteq> PushPending))
      then Some ''Git finalization cannot complete before its configured commit or push step''
      else None)"

definition cas_row :: "cas_request \<Rightarrow> journal_row \<Rightarrow> journal_row" where
  "cas_row q g = g\<lparr>g_state := cq_next_state q,
     g_task_identity := option_or (g_task_identity g) (cq_task_identity q),
     g_worktree_baseline := (case cq_worktree_baseline q of None \<Rightarrow> g_worktree_baseline g | Some b \<Rightarrow> b),
     g_owner_run_token := cq_owner_run_token q,
     g_commit_oid := (if cq_commit_oid q = None then g_commit_oid g else cq_commit_oid q),
     g_generation := g_generation g + 1,
     g_last_error := cq_last_error q,
     g_updated_at := cq_updated_at q,
     g_completed_at := (if gfs_is_terminal (cq_next_state q) then Some (cq_updated_at q) else None)\<rparr>"

text \<open>The partial unique index: one journal of a project may be finalizing.\<close>

definition finalizing_conflict :: "registry \<Rightarrow> cas_request \<Rightarrow> bool" where
  "finalizing_conflict db q \<longleftrightarrow> gfs_is_finalizing (cq_next_state q)
     \<and> sql_exists (\<lambda>g. g_project g = cq_project q \<and> g_session g \<noteq> cq_session q
          \<and> gfs_is_finalizing (g_state g)) (journals db)"

definition resume_fence :: "int \<Rightarrow> str \<Rightarrow> int \<Rightarrow> control_row \<Rightarrow> bool" where
  "resume_fence pid sid gen sc \<longleftrightarrow> control_at pid sid sc \<and> sc_state sc = ResumeRequested
     \<and> unattended sc \<and> sc_run_token sc = Some (recovery_token gen)"

definition advance_fence :: "cas_request \<Rightarrow> control_row table \<Rightarrow> control_row table" where
  "advance_fence q t =
     (let fence = resume_fence (cq_project q) (cq_session q) (cq_expected_generation q)
      in if gfs_is_terminal (cq_next_state q) then sql_delete fence t
         else sql_update fence
                (\<lambda>sc. sc\<lparr>sc_run_token := Some (recovery_token (cq_expected_generation q + 1)),
                         sc_updated_at := cq_updated_at q\<rparr>) t)"

definition compare_and_set_git_finalization :: "cas_request \<Rightarrow> bool db" where
  "compare_and_set_git_finalization q db =
     (let pid = cq_project q; sid = cq_session q;
          mine = (\<lambda>g. journal_at pid sid g \<and> g_generation g = cq_expected_generation q);
          db1 = db\<lparr>journals := sql_update mine (cas_row q) (journals db)\<rparr>
      in case git_finalization db pid sid of
           None \<Rightarrow> (Inr False, db)
         | Some g \<Rightarrow>
             if g_generation g \<noteq> cq_expected_generation q then (Inr False, db)
             else if cq_require_running_owner q \<and> cq_owner_run_token q = None
             then (Inl ''Git completion intent requires a running owner token'', db)
             else if cq_require_running_owner q
                     \<and> sql_count (running_owner pid sid (the (cq_owner_run_token q))) (controls db) \<noteq> 1
             then (Inr False, db)
             else case cas_rejection g q of
                    Some e \<Rightarrow> (Inl e, db)
                  | None \<Rightarrow>
                      if finalizing_conflict db q then (Inl ''UNIQUE constraint failed'', db)
                      else if sql_count mine (journals db) \<noteq> 1 then (Inr False, db1)
                      else if cq_expected_generation q \<ge> i64_max
                      then (Inl ''Git finalization generation overflowed'', db)
                      else (Inr True, db1\<lparr>controls := advance_fence q (controls db1)\<rparr>))"

text \<open>The six entry points: what each fixes of the request.\<close>

definition compare_and_set_git_finalization_blocking where
  "compare_and_set_git_finalization_blocking pid sid gen next owner oid err at =
     compare_and_set_git_finalization
       \<lparr>cq_project = pid, cq_session = sid, cq_expected_generation = gen, cq_next_state = next,
        cq_task_identity = None, cq_worktree_baseline = None, cq_require_running_owner = False,
        cq_owner_run_token = owner, cq_commit_oid = oid, cq_last_error = err, cq_updated_at = at\<rparr>"

definition compare_and_set_owned_git_finalization where
  "compare_and_set_owned_git_finalization pid sid gen next owner oid err at =
     compare_and_set_git_finalization
       \<lparr>cq_project = pid, cq_session = sid, cq_expected_generation = gen, cq_next_state = next,
        cq_task_identity = None, cq_worktree_baseline = None, cq_require_running_owner = True,
        cq_owner_run_token = Some owner, cq_commit_oid = oid, cq_last_error = err, cq_updated_at = at\<rparr>"

definition compare_and_set_git_finalization_with_identity where
  "compare_and_set_git_finalization_with_identity pid sid gen next identity owner at =
     compare_and_set_git_finalization
       \<lparr>cq_project = pid, cq_session = sid, cq_expected_generation = gen, cq_next_state = next,
        cq_task_identity = Some identity, cq_worktree_baseline = None, cq_require_running_owner = True,
        cq_owner_run_token = owner, cq_commit_oid = None, cq_last_error = None, cq_updated_at = at\<rparr>"

definition track_git_finalization_with_manifest where
  "track_git_finalization_with_manifest pid sid gen identity baseline owner at =
     compare_and_set_git_finalization
       \<lparr>cq_project = pid, cq_session = sid, cq_expected_generation = gen, cq_next_state = Tracking,
        cq_task_identity = Some identity, cq_worktree_baseline = Some baseline,
        cq_require_running_owner = True, cq_owner_run_token = Some owner, cq_commit_oid = None,
        cq_last_error = None, cq_updated_at = at\<rparr>"

definition reseal_git_finalization_manifest where
  "reseal_git_finalization_manifest pid sid gen identity baseline owner at =
     compare_and_set_git_finalization
       \<lparr>cq_project = pid, cq_session = sid, cq_expected_generation = gen, cq_next_state = CommitPending,
        cq_task_identity = Some identity, cq_worktree_baseline = Some baseline,
        cq_require_running_owner = True, cq_owner_run_token = Some owner, cq_commit_oid = None,
        cq_last_error = None, cq_updated_at = at\<rparr>"

definition recover_git_finalization_intent where
  "recover_git_finalization_intent pid sid gen identity owner at =
     compare_and_set_git_finalization
       \<lparr>cq_project = pid, cq_session = sid, cq_expected_generation = gen, cq_next_state = Tracking,
        cq_task_identity = Some identity, cq_worktree_baseline = None, cq_require_running_owner = False,
        cq_owner_run_token = owner, cq_commit_oid = None, cq_last_error = None, cq_updated_at = at\<rparr>"

section \<open>Acknowledging a completed journal\<close>

text \<open>\<^verbatim>\<open>ORDER BY id DESC LIMIT 1\<close> and \<^verbatim>\<open>COALESCE(MAX(id), 0)\<close>.\<close>

definition last_by :: "('r \<Rightarrow> int) \<Rightarrow> 'r table \<Rightarrow> 'r option" where
  "last_by key t = (case rev (sort_key key t) of [] \<Rightarrow> None | r # _ \<Rightarrow> Some r)"

definition max_run_id :: "(run_row \<Rightarrow> bool) \<Rightarrow> registry \<Rightarrow> int option" where
  "max_run_id P db = map_option r_id (last_by r_id (filter P (runs db)))"

definition late_resume :: "int \<Rightarrow> str \<Rightarrow> control_row \<Rightarrow> bool" where
  "late_resume pid sid sc \<longleftrightarrow> control_at pid sid sc \<and> sc_state sc = ResumeRequested
     \<and> sc_child_pid sc = None \<and> sc_interactive_holder sc = None
     \<and> (case sc_run_token sc of None \<Rightarrow> False | Some t \<Rightarrow> like_prefix git_finalization_token_prefix t)"

definition option_ge :: "nat option \<Rightarrow> nat option \<Rightarrow> bool" where
  "option_ge a b = (case (a, b) of (_, None) \<Rightarrow> True | (None, Some _) \<Rightarrow> False | (Some x, Some y) \<Rightarrow> x \<ge> y)"

text \<open>The session's latest run already acknowledges the journal when it succeeded no earlier
  than the journal completed.\<close>

definition run_acknowledges :: "str \<Rightarrow> run_row \<Rightarrow> bool" where
  "run_acknowledges completed_at r \<longleftrightarrow> r_status r \<in> {''success'', ''idle''}
     \<and> option_ge (Option.bind (r_finished_at r) parse_u64) (parse_u64 completed_at)"

definition recovered_summary :: "str option \<Rightarrow> str" where
  "recovered_summary oid =
     lit ''CLT recovered the proven Git finalization at commit ''
     @ (case oid of None \<Rightarrow> lit ''unknown'' | Some s \<Rightarrow> take 12 s)
     @ lit '' after an interrupted run acknowledgement.''"

definition recovered_run :: "int \<Rightarrow> str \<Rightarrow> str \<Rightarrow> str \<Rightarrow> int \<Rightarrow> run_row" where
  "recovered_run pid sid completed_at summary rid =
     \<lparr>r_id = rid, r_project = pid, r_status = ''success'', r_started_at = completed_at,
      r_finished_at = Some completed_at, r_exit_code = None, r_log_dir = None, r_stdout_path = None,
      r_stderr_path = None, r_summary = Some summary, r_codex_session_id = Some sid,
      r_worker_token = None\<rparr>"

definition recovered_outcome :: "int \<Rightarrow> str \<Rightarrow> str \<Rightarrow> str \<Rightarrow> AgentRunOutcome" where
  "recovered_outcome pid sid completed_at summary =
     \<lparr>o_project = pid, o_status = ''success'', o_started_at = completed_at,
      o_finished_at = Some completed_at, o_exit_code = None, o_log_dir = None, o_stdout_path = None,
      o_stderr_path = None, o_summary = Some summary, o_codex_session_id = Some sid\<rparr>"

text \<open>The run that acknowledges the journal: the session's latest one, or a recovered success.\<close>

definition acknowledging_run :: "int \<Rightarrow> str \<Rightarrow> str \<Rightarrow> str \<Rightarrow> int db" where
  "acknowledging_run pid sid completed_at summary db =
     (let rid = next_rowid r_id (runs db);
          fresh = if \<not> project_exists db pid then (Inl ''FOREIGN KEY constraint failed'', db)
            else (Inr rid, db\<lparr>runs := sql_insert (recovered_run pid sid completed_at summary rid) (runs db)\<rparr>)
      in case last_by r_id (filter (\<lambda>r. r_project r = pid \<and> r_codex_session_id r = Some sid) (runs db)) of
           Some r \<Rightarrow> if run_acknowledges completed_at r then (Inr (r_id r), db) else fresh
         | None \<Rightarrow> fresh)"

definition acknowledge_completed_git_finalization_session :: "int \<Rightarrow> str \<Rightarrow> str \<Rightarrow> bool db" where
  "acknowledge_completed_git_finalization_session pid sid now db =
     (case sql_select (\<lambda>g. journal_at pid sid g \<and> g_state g = Completed) (journals db) of
        None \<Rightarrow> (Inr False, db)
      | Some g \<Rightarrow>
          (case g_completed_at g of
             None \<Rightarrow> (Inl ''completed_at is not text'', db)
           | Some completed_at \<Rightarrow>
               let summary = recovered_summary (g_commit_oid g) in
               if g_acknowledged_at g \<noteq> None
               then (Inr True, db\<lparr>controls := sql_delete (late_resume pid sid) (controls db)\<rparr>)
               else case acknowledging_run pid sid completed_at summary db of
                      (Inl e, _) \<Rightarrow> (Inl e, db)
                    | (Inr rid, db1) \<Rightarrow>
                        let latest = (case max_run_id (\<lambda>r. r_project r = pid) db1 of None \<Rightarrow> 0 | Some i \<Rightarrow> i);
                            db2 = (if latest = rid
                                   then update_project_after_run (recovered_outcome pid sid completed_at summary) db1
                                   else db1);
                            unmarked = (\<lambda>g. journal_at pid sid g \<and> g_state g = Completed
                                          \<and> g_acknowledged_at g = None);
                            db3 = db2\<lparr>journals := sql_update unmarked
                                    (\<lambda>g. g\<lparr>g_acknowledged_at := Some now, g_acknowledged_run_id := Some rid\<rparr>)
                                    (journals db2)\<rparr>
                        in if sql_count unmarked (journals db2) \<noteq> 1
                           then (Inl ''Git finalization acknowledgement changed inside its exclusive transaction'', db)
                           else (Inr True, db3\<lparr>controls := sql_delete
                                   (\<lambda>sc. late_resume pid sid sc
                                      \<and> sql_exists (\<lambda>g. journal_at pid sid g \<and> g_state g = Completed)
                                          (journals db3)) (controls db3)\<rparr>)))"

section \<open>Cancelling and retiring journals\<close>

definition cancel_row :: "str option \<Rightarrow> str \<Rightarrow> journal_row \<Rightarrow> journal_row" where
  "cancel_row reason at g = g\<lparr>g_state := Cancelled, g_owner_run_token := None,
     g_generation := g_generation g + 1, g_last_error := reason, g_updated_at := at,
     g_completed_at := Some at\<rparr>"

text \<open>A cancelled attempt's failure does not cool the project down.\<close>

definition clear_cancelled_attempt_failure :: "int \<Rightarrow> str \<Rightarrow> str \<Rightarrow> registry \<Rightarrow> registry" where
  "clear_cancelled_attempt_failure pid sid at db =
     db\<lparr>projects := sql_update
         (\<lambda>p. p_id p = pid \<and> sql_exists (\<lambda>r. max_run_id (\<lambda>r. r_project r = pid) db = Some (r_id r)
            \<and> r_status r = ''failure'' \<and> r_finished_at r \<noteq> None \<and> r_finished_at r = p_last_failure_at p
            \<and> (r_codex_session_id r = Some sid
               \<or> sql_exists (\<lambda>w. w_run_id w = Some (r_id r)
                    \<and> sql_exists (\<lambda>g. g_project g = w_project w \<and> g_owner_run_token g = Some (w_token w)
                         \<and> journal_at pid sid g) (journals db)) (workers db))) (runs db))
         (\<lambda>p. p\<lparr>p_failure_count := 0, p_last_failure_at := None, p_last_blocked_recovery_at := None,
                p_updated_at := at\<rparr>)
         (projects db)\<rparr>"

definition can_delete_idle_task :: "registry \<Rightarrow> int \<Rightarrow> str \<Rightarrow> int \<Rightarrow> str option \<Rightarrow> str \<Rightarrow> bool" where
  "can_delete_idle_task db pid sid gen identity now \<longleftrightarrow>
     sql_count (\<lambda>g. journal_at pid sid g \<and> g_state g = Working \<and> g_generation g = gen
       \<and> g_task_identity g = identity \<and> g_commit_oid g = None
       \<and> \<not> sql_exists (\<lambda>sc. control_at pid sid sc \<and> \<not> idle_control sc) (controls db)
       \<and> \<not> sql_exists (\<lambda>w. w_project w = pid \<and> worker_active (w_state w)
            \<and> (Some (w_token w) = g_owner_run_token g \<or> w_resume_session_id w = Some sid
               \<or> sql_exists (\<lambda>sc. control_at pid sid sc \<and> sc_run_token sc = Some (w_token w)) (controls db)
               \<or> (w_resume_session_id w = None \<and> w_task_selection w \<noteq> lit ''supervisor_review''
                  \<and> \<not> sql_exists (\<lambda>sc. sc_project sc = pid \<and> sc_session sc \<noteq> sid
                         \<and> sc_run_token sc = Some (w_token w)) (controls db)))) (workers db)
       \<and> \<not> has_launch db pid
       \<and> \<not> sql_exists (\<lambda>l. live_lease pid now l
            \<and> \<not> sql_exists (\<lambda>w. w_project w = pid \<and> w_lease_holder w = l_holder l
                  \<and> worker_active (w_state w)) (workers db)
            \<and> \<not> sql_exists (\<lambda>sc. sc_project sc = pid \<and> sc_session sc \<noteq> sid
                  \<and> sc_interactive_holder sc = Some (l_holder l)) (controls db)) (leases db))
       (journals db) = 1"

definition unbound_journal :: "journal_row \<Rightarrow> bool" where
  "unbound_journal g \<longleftrightarrow> g_state g = Working \<and> g_task_identity g = None \<and> g_commit_oid g = None
     \<and> g_owner_run_token g = None \<and> g_completed_at g = None \<and> g_acknowledged_at g = None
     \<and> g_acknowledged_run_id g = None"

text \<open>The control of the abandoned session itself: its exact resume fence, or a plain stop.\<close>

definition exact_idle :: "str \<Rightarrow> control_row \<Rightarrow> bool" where
  "exact_idle token sc \<longleftrightarrow> (sc_state sc = ResumeRequested \<and> sc_run_token sc = Some token)
     \<or> (sc_state sc = Stopped \<and> (sc_run_token sc = None \<or> sc_run_token sc = Some token))"

definition fenced_idle :: "registry \<Rightarrow> control_row \<Rightarrow> bool" where
  "fenced_idle db sc \<longleftrightarrow> unattended sc \<and> (sc_state sc = Stopped
     \<or> (sc_state sc = ResumeRequested
        \<and> sql_exists (\<lambda>g. journal_of sc g \<and> journal_open (g_state g)
             \<and> sc_run_token sc = Some (recovery_token (g_generation g))) (journals db)))"

definition owns_idle_project :: "registry \<Rightarrow> journal_row \<Rightarrow> str \<Rightarrow> str \<Rightarrow> bool" where
  "owns_idle_project db g holder now \<longleftrightarrow>
     sql_count (\<lambda>l. live_lease (g_project g) now l \<and> l_holder l = holder
       \<and> \<not> has_active_worker db (g_project g)
       \<and> \<not> sql_exists (\<lambda>sc. sc_project sc = g_project g \<and> \<not> fenced_idle db sc) (controls db)
       \<and> \<not> sql_exists (\<lambda>sc. control_at (g_project g) (g_session g) sc
              \<and> \<not> exact_idle (recovery_token (g_generation g)) sc) (controls db)) (leases db) = 1"

definition cancel_orphaned_working_git_finalization ::
  "journal_row \<Rightarrow> str \<Rightarrow> str \<Rightarrow> str \<Rightarrow> str \<Rightarrow> bool db" where
  "cancel_orphaned_working_git_finalization expected holder reason updated_at now db =
     (let pid = g_project expected; sid = g_session expected;
          mine = (\<lambda>g. journal_at pid sid g \<and> g_state g = Working \<and> g_generation g = g_generation expected
                    \<and> g_task_identity g = None \<and> g_commit_oid g = None \<and> g_owner_run_token g = None)
      in case git_finalization db pid sid of
           None \<Rightarrow> (Inr False, db)
         | Some current \<Rightarrow>
             if current \<noteq> expected \<or> \<not> unbound_journal current then (Inr False, db)
             else if \<not> owns_idle_project db expected holder now then (Inr False, db)
             else if g_generation expected \<ge> i64_max
             then (Inl ''Abandoned Git journal generation overflowed'', db)
             else if sql_count mine (journals db) \<noteq> 1 then (Inr False, db)
             else (Inr True, db\<lparr>journals := sql_update mine (cancel_row (Some reason) updated_at) (journals db),
                     controls := sql_delete (\<lambda>sc. control_at pid sid sc \<and> unattended sc
                       \<and> exact_idle (recovery_token (g_generation expected)) sc) (controls db)\<rparr>))"

definition retire_abandoned_unbound_git_finalization ::
  "int \<Rightarrow> str \<Rightarrow> int \<Rightarrow> bool \<Rightarrow> str \<Rightarrow> str \<Rightarrow> bool db" where
  "retire_abandoned_unbound_git_finalization pid sid gen completed_task reason updated_at db =
     (let idle_project = (sql_count (\<lambda>g. journal_at pid sid g \<and> g_state g = Working \<and> g_generation g = gen
            \<and> g_task_identity g = None \<and> g_commit_oid g = None \<and> g_completed_at g = None
            \<and> g_acknowledged_at g = None \<and> (g_owner_run_token g \<noteq> None \<or> completed_task)
            \<and> \<not> has_active_worker db pid
            \<and> \<not> sql_exists (\<lambda>w. w_project w = pid \<and> g_owner_run_token g = Some (w_token w)
                   \<and> worker_active (w_state w)) (workers db)
            \<and> \<not> has_launch db pid
            \<and> \<not> sql_exists (live_lease pid updated_at) (leases db)
            \<and> \<not> sql_exists (\<lambda>sc. sc_project sc = pid \<and> (\<not> idle_control sc
                   \<or> sql_exists (\<lambda>w. sc_run_token sc = Some (w_token w) \<and> worker_active (w_state w))
                       (workers db))) (controls db)) (journals db) = 1);
          db1 = clear_cancelled_attempt_failure pid sid updated_at db
      in if \<not> idle_project then (Inr False, db)
         else (Inr True, db1\<lparr>journals := sql_update
                 (\<lambda>g. journal_at pid sid g \<and> g_state g = Working \<and> g_generation g = gen)
                 (cancel_row (Some reason) updated_at) (journals db1),
                 controls := sql_delete (\<lambda>sc. control_at pid sid sc \<and> idle_control sc) (controls db1)\<rparr>))"

definition superseded_reason :: "journal_row \<Rightarrow> str" where
  "superseded_reason completed =
     lit ''Superseded unsealed attempt: the same task was completed in Codex session ''
     @ g_session completed @ lit '' with verified commit ''
     @ (case g_commit_oid completed of None \<Rightarrow> [] | Some oid \<Rightarrow> oid)"

definition retire_superseded_working_git_finalization ::
  "journal_row \<Rightarrow> journal_row \<Rightarrow> str \<Rightarrow> bool db" where
  "retire_superseded_working_git_finalization expected completed updated_at db =
     (let pid = g_project expected; sid = g_session expected;
          db1 = clear_cancelled_attempt_failure pid sid updated_at db
      in if g_state expected \<noteq> Working \<or> g_commit_oid expected \<noteq> None \<or> g_completed_at expected \<noteq> None
            \<or> g_acknowledged_at expected \<noteq> None \<or> g_task_identity expected = None
            \<or> g_state completed \<noteq> Completed \<or> g_commit_oid completed = None
            \<or> pid \<noteq> g_project completed \<or> sid = g_session completed
            \<or> g_task_identity expected \<noteq> g_task_identity completed
         then (Inr False, db)
         else if git_finalization db pid sid \<noteq> Some expected
              \<or> git_finalization db (g_project completed) (g_session completed) \<noteq> Some completed
         then (Inr False, db)
         else if has_active_worker db pid \<or> has_launch db pid
              \<or> sql_exists (live_lease pid updated_at) (leases db)
              \<or> sql_exists (\<lambda>sc. sc_project sc = pid \<and> \<not> idle_control sc) (controls db)
         then (Inr False, db)
         else (Inr True, db1\<lparr>journals := sql_update (journal_at pid sid)
                 (cancel_row (Some (superseded_reason completed)) updated_at) (journals db1),
                 controls := sql_delete (control_at pid sid) (controls db1)\<rparr>))"

datatype GitTaskCancellation = ExternalCompletion | Deletion

fun cancellation_reason :: "GitTaskCancellation \<Rightarrow> str" where
  "cancellation_reason ExternalCompletion = lit ''Managed Git proof was cancelled because a user explicitly moved the task to Done as an external completion''"
| "cancellation_reason Deletion = lit ''Managed Git proof was cancelled because a user explicitly deleted the idle task''"

text \<open>The part that fences the whole project: refused while anything is active, and otherwise a
  fresh lease; \<open>None\<close> where the journal is not the expected one.\<close>

definition fence_project_for_cancellation ::
  "int \<Rightarrow> str \<Rightarrow> int \<Rightarrow> str option \<Rightarrow> str \<Rightarrow> str \<Rightarrow> str \<Rightarrow> bool db" where
  "fence_project_for_cancellation pid sid gen identity holder acquired_at expires_at db =
     (let db1 = db\<lparr>leases := sql_delete (\<lambda>l. l_project l = pid \<and> cast_le (l_expires_at l) acquired_at)
                  (leases db)\<rparr>
      in if has_active_worker db pid
         then (Inl ''An active agent worker still owns this task or has not registered its task ownership'', db)
         else if sql_exists (\<lambda>sc. sc_project sc = pid \<and> \<not> idle_control sc) (controls db)
         then (Inl ''A Codex session in this project is still active'', db)
         else if has_launch db pid
         then (Inl ''The project has an unconsumed Git launch boundary'', db)
         else if sql_exists (\<lambda>l. l_project l = pid) (leases db1)
         then (Inl ''This project still has an active project lease'', db)
         else if \<not> sql_exists (\<lambda>g. journal_at pid sid g \<and> g_state g = Working \<and> g_generation g = gen
                     \<and> g_task_identity g = identity \<and> g_commit_oid g = None) (journals db1)
         then (Inr False, db1)
         else case insert_lease \<lparr>l_project = pid, l_holder = holder, l_acquired_at = acquired_at,
                                 l_expires_at = expires_at\<rparr> db1 of
                (Inl e, _) \<Rightarrow> (Inl e, db)
              | (Inr inserted, db2) \<Rightarrow> (Inr inserted, db2))"

definition cancel_idle_working_git_finalization ::
  "int \<Rightarrow> str \<Rightarrow> int \<Rightarrow> str option \<Rightarrow> str \<Rightarrow> str \<Rightarrow> str \<Rightarrow> GitTaskCancellation \<Rightarrow> bool db" where
  "cancel_idle_working_git_finalization pid sid gen identity holder acquired_at expires_at c db =
     (let session_scoped_deletion = (c = Deletion \<and> can_delete_idle_task db pid sid gen identity acquired_at);
          mine = (\<lambda>g. journal_at pid sid g \<and> g_state g = Working \<and> g_generation g = gen
                    \<and> g_task_identity g = identity)
      in case (if session_scoped_deletion then (Inr True, db)
               else fence_project_for_cancellation pid sid gen identity holder acquired_at expires_at db) of
           (Inl e, _) \<Rightarrow> (Inl e, db)
         | (Inr False, db1) \<Rightarrow> (Inr False, db1)
         | (Inr True, db1) \<Rightarrow>
             let db2 = clear_cancelled_attempt_failure pid sid acquired_at db1;
                 db3 = db2\<lparr>journals := sql_update mine
                         (cancel_row (Some (cancellation_reason c)) acquired_at) (journals db2)\<rparr>
             in if sql_count mine (journals db2) \<noteq> 1 then (Inr False, db)
                else (Inr True,
                      if c = Deletion then stop_control pid sid None acquired_at db3
                      else db3\<lparr>controls := sql_delete (\<lambda>sc. control_at pid sid sc \<and> idle_control sc)
                                              (controls db3)\<rparr>))"

end
