(* ===== verification/Git_Recovery.thy ===== *)
theory Git_Recovery
  imports Git_Journals
begin

text \<open>
  Explicit and automatic recovery of an interrupted Git attempt
  (\<^verbatim>\<open>begin_missing_git_recovery_blocking\<close> and \<^verbatim>\<open>finish_missing_git_recovery_blocking\<close> of
  \<^verbatim>\<open>src/src/agent/repositories/git_journals.rs\<close>): the project is reserved only when its latest
  run, its journal and every owner are exactly the ones that were reviewed.
\<close>

record recovery_request =
  rq_project :: int
  rq_project_path :: str
  rq_session :: str
  rq_expected_run :: int
  rq_expected_journal :: "journal_row option"
  rq_require_resume_requested :: bool
  rq_restart :: bool
  rq_stale_start :: bool
  rq_writer_conflict :: "(int \<times> str) option"
  rq_holder :: str
  rq_acquired_at :: str
  rq_expires_at :: str

definition expected_owner :: "recovery_request \<Rightarrow> str option" where
  "expected_owner q = Option.bind (rq_expected_journal q) g_owner_run_token"

text \<open>The run the recovery was reviewed for: the latest one of the project, of the session, or of
  the journal's owner, by the kind of recovery.\<close>

definition recovery_run_id :: "registry \<Rightarrow> recovery_request \<Rightarrow> int option" where
  "recovery_run_id db q =
     (let pid = rq_project q;
          of_session = max_run_id (\<lambda>r. r_project r = pid \<and> r_codex_session_id r = Some (rq_session q)) db;
          of_owner = (case expected_owner q of None \<Rightarrow> None
             | Some token \<Rightarrow> map_option r_id
                 (sql_select (\<lambda>r. r_project r = pid \<and> r_worker_token r = Some token) (runs db)));
          zero = (\<lambda>x. case x of None \<Rightarrow> 0 | Some i \<Rightarrow> i)
      in if rq_restart q \<and> (rq_require_resume_requested q \<or> rq_stale_start q)
         then Some (max (zero of_owner) (zero of_session))
         else if rq_restart q then option_or of_session of_owner
         else max_run_id (\<lambda>r. r_project r = pid) db)"

definition recovery_run_current :: "registry \<Rightarrow> recovery_request \<Rightarrow> bool" where
  "recovery_run_current db q \<longleftrightarrow>
     sql_count (\<lambda>r. r_id r = rq_expected_run q \<and> r_project r = rq_project q
       \<and> (rq_restart q \<or> r_status r \<in> {''failure'', ''timeout''})
       \<and> sql_exists (\<lambda>p. p_id p = rq_project q \<and> p_path p = rq_project_path q) (projects db)
       \<and> recovery_run_id db q = Some (r_id r)) (runs db) = 1"

definition branch_recovery_reason :: str where
  "branch_recovery_reason =
     lit ''User explicitly retired the previous Git attempt after changing checkout branches''"

definition recoverable_journal :: "registry \<Rightarrow> recovery_request \<Rightarrow> journal_row \<Rightarrow> bool" where
  "recoverable_journal db q expected \<longleftrightarrow>
     git_finalization db (rq_project q) (rq_session q) = Some expected \<and> g_commit_oid expected = None
     \<and> (if rq_restart q then g_state expected \<in> {Working, Cancelled}
        else g_state expected \<in> {Working, Tracking, CommitPending}
             \<or> (g_state expected = Cancelled \<and> g_last_error expected = Some branch_recovery_reason))"

definition recovery_busy :: "registry \<Rightarrow> recovery_request \<Rightarrow> bool" where
  "recovery_busy db q \<longleftrightarrow>
     (let pid = rq_project q; sid = rq_session q in
      sql_exists (\<lambda>g. g_project g = pid \<and> (g_session g = sid \<or> g_state g \<notin> {Completed, Cancelled})
          \<and> \<not> (rq_expected_journal q \<noteq> None \<and> g_session g = sid)
          \<and> \<not> (rq_restart q \<and> g_session g \<noteq> sid \<and> g_state g = Working)) (journals db)
      \<or> has_launch db pid \<or> has_active_worker db pid
      \<or> sql_exists (\<lambda>l. l_project l = pid) (leases db)
      \<or> sql_exists (\<lambda>sc. sc_project sc = pid \<and> (\<not> unattended sc
          \<or> (sc_state sc \<noteq> Stopped
             \<and> \<not> (sc_state sc = ResumeRequested
                  \<and> (sc_session sc = sid
                     \<or> (rq_restart q \<and> sql_exists (\<lambda>g. journal_at pid (sc_session sc) g
                          \<and> g_state g = Working) (journals db))))))) (controls db))"

definition enabled_project :: "registry \<Rightarrow> int \<Rightarrow> bool" where
  "enabled_project db pid = sql_exists (\<lambda>p. p_id p = pid \<and> p_enabled p) (projects db)"

text \<open>Two consecutive failed runs of the session, their workers settled, and the resume request
  of the later one.\<close>

definition writer_conflict_evidence :: "registry \<Rightarrow> recovery_request \<Rightarrow> int \<Rightarrow> str \<Rightarrow> bool" where
  "writer_conflict_evidence db q previous token \<longleftrightarrow>
     (let pid = rq_project q; sid = rq_session q;
          fence_token = (case rq_expected_journal q of None \<Rightarrow> False
             | Some g \<Rightarrow> token = recovery_token (g_generation g))
      in sql_count (\<lambda>r. r_project r = pid \<and> r_codex_session_id r = Some sid
           \<and> r_id r \<in> {rq_expected_run q, previous} \<and> r_status r = ''failure'' \<and> r_finished_at r \<noteq> None
           \<and> r_exit_code r \<noteq> None \<and> r_exit_code r \<noteq> Some 0
           \<and> (r_worker_token r = None
              \<or> sql_exists (\<lambda>w. r_worker_token r = Some (w_token w) \<and> w_project w = pid
                   \<and> w_state w = WCompleted \<and> w_run_id w = Some (r_id r)) (workers db))
           \<and> max_run_id (\<lambda>s. r_project s = pid \<and> r_codex_session_id s = Some sid
                \<and> r_id s < rq_expected_run q) db = Some previous
           \<and> enabled_project db pid
           \<and> sql_exists (\<lambda>sc. control_at pid sid sc \<and> sc_state sc = ResumeRequested
                \<and> sc_run_token sc = Some token) (controls db)
           \<and> (r_id r \<noteq> rq_expected_run q \<or> r_worker_token r = None \<or> r_worker_token r = Some token
              \<or> fence_token)
           \<and> (rq_expected_journal q \<noteq> None
              \<or> sql_exists (\<lambda>m. sm_project m = pid \<and> sm_session m = sid \<and> sm_git_mode m = Off)
                  (session_modes db))) (runs db) = 2)"

definition stale_start_evidence :: "registry \<Rightarrow> recovery_request \<Rightarrow> journal_row \<Rightarrow> bool" where
  "stale_start_evidence db q expected \<longleftrightarrow>
     (let pid = rq_project q; sid = rq_session q; owner = g_owner_run_token expected in
      sql_count (\<lambda>r. r_id r = rq_expected_run q \<and> r_project r = pid
        \<and> (r_codex_session_id r = Some sid
           \<or> (r_codex_session_id r = None \<and> owner \<noteq> None \<and> r_worker_token r = owner))
        \<and> r_status r \<in> {''failure'', ''blocked'', ''timeout''} \<and> r_finished_at r \<noteq> None
        \<and> ((owner \<noteq> None \<and> r_worker_token r = owner)
           \<or> (r_worker_token r = None \<and> r_codex_session_id r = Some sid))
        \<and> \<not> sql_exists (\<lambda>w. r_worker_token r = Some (w_token w)
               \<and> (w_state w \<noteq> WCompleted \<or> w_run_id w \<noteq> Some (r_id r))) (workers db)
        \<and> \<not> sql_exists (\<lambda>sc. control_at pid sid sc
               \<and> (sc_state sc \<noteq> ResumeRequested \<or> sc_run_token sc = None \<or> owner = None
                  \<or> sc_run_token sc \<noteq> owner)) (controls db)
        \<and> enabled_project db pid) (runs db) = 1)"

definition failed_activation_evidence :: "registry \<Rightarrow> recovery_request \<Rightarrow> journal_row \<Rightarrow> bool" where
  "failed_activation_evidence db q expected \<longleftrightarrow>
     (let pid = rq_project q; sid = rq_session q; owner = g_owner_run_token expected in
      sql_count (\<lambda>(sc, r). r_project r = sc_project sc \<and> control_at pid sid sc
        \<and> owner \<noteq> None \<and> sc_run_token sc = owner \<and> r_id r = rq_expected_run q \<and> r_status r = ''failure''
        \<and> r_finished_at r \<noteq> None
        \<and> (r_codex_session_id r = None \<or> r_codex_session_id r = Some sid)
        \<and> ((r_worker_token r = owner
             \<and> sql_exists (\<lambda>w. owner = Some (w_token w) \<and> w_project w = pid
                  \<and> w_state w = WCompleted \<and> w_run_id w = Some (r_id r)) (workers db))
           \<or> (r_worker_token r = None \<and> r_codex_session_id r = Some sid))
        \<and> enabled_project db pid) (List.product (controls db) (runs db)) = 1)"

text \<open>The guards of the transaction in the order of the code: the first that fails is its error.\<close>

definition recovery_refusal :: "registry \<Rightarrow> recovery_request \<Rightarrow> string option" where
  "recovery_refusal db q =
     (let journal = rq_expected_journal q;
          working = (case journal of None \<Rightarrow> True | Some g \<Rightarrow> g_state g = Working)
      in if \<not> recovery_run_current db q then Some ''The latest run changed; review recovery again''
         else if (case journal of None \<Rightarrow> False | Some g \<Rightarrow> \<not> recoverable_journal db q g)
         then Some ''The Git recovery record changed or has a verified commit; review recovery again''
         else if recovery_busy db q
         then Some ''Recovery requires an idle project with no surviving Git journal or launch record''
         else if rq_writer_conflict q \<noteq> None
                 \<and> \<not> (rq_restart q \<and> \<not> rq_require_resume_requested q \<and> \<not> rq_stale_start q \<and> working)
         then Some ''Writer conflict recovery requires unsealed work''
         else if (case rq_writer_conflict q of None \<Rightarrow> False
                  | Some (previous, token) \<Rightarrow> \<not> writer_conflict_evidence db q previous token)
         then Some ''The writer conflict evidence or idle owner changed; preserving its attempt''
         else if rq_stale_start q \<and> journal = None
         then Some ''Stale activation recovery needs its old journal''
         else if rq_stale_start q
                 \<and> \<not> (rq_restart q \<and> \<not> rq_require_resume_requested q \<and> g_state (the journal) = Working
                      \<and> g_task_identity (the journal) = None \<and> g_starting_head (the journal) \<noteq> None)
         then Some ''Stale activation recovery requires an unbound attempt''
         else if rq_stale_start q \<and> \<not> stale_start_evidence db q (the journal)
         then Some ''The stale activation owner changed or stopped; preserving its attempt''
         else if rq_restart q \<and> rq_require_resume_requested q \<and> journal = None
         then Some ''Automatic activation recovery needs its old journal''
         else if rq_restart q \<and> rq_require_resume_requested q
                 \<and> \<not> (g_state (the journal) = Working \<and> g_task_identity (the journal) = None
                      \<and> g_owner_run_token (the journal) \<noteq> None)
         then Some ''Automatic activation recovery requires an unbound attempt''
         else if rq_restart q \<and> rq_require_resume_requested q
                 \<and> \<not> failed_activation_evidence db q (the journal)
         then Some ''The failed activation owner changed; preserving its attempt''
         else if rq_require_resume_requested q
                 \<and> sql_count (\<lambda>sc. control_at (rq_project q) (rq_session q) sc
                      \<and> sc_state sc = ResumeRequested) (controls db) \<noteq> 1
         then Some ''The session was stopped before automatic branch recovery; preserving its attempt''
         else None)"

definition recovery_reason :: "recovery_request \<Rightarrow> str" where
  "recovery_reason q =
     (if rq_writer_conflict q \<noteq> None
      then lit ''Automatically restarted persistent Codex writer conflict; old Git boundary preserved''
      else if rq_stale_start q \<or> (rq_restart q \<and> rq_require_resume_requested q)
      then lit ''Automatically restarted failed task activation; old Git boundary preserved''
      else if rq_restart q
      then lit ''Owner explicitly restarted the unfinished task; old Git boundary preserved''
      else branch_recovery_reason)"

definition retires_journal :: "recovery_request \<Rightarrow> bool" where
  "retires_journal q \<longleftrightarrow> (case rq_expected_journal q of None \<Rightarrow> False
     | Some g \<Rightarrow> \<not> rq_restart q \<or> g_state g \<noteq> Cancelled)"

definition missing_git_recovery_token :: "int \<Rightarrow> str" where
  "missing_git_recovery_token run = lit ''clt-git-recovery:'' @ show_int run"

definition begin_missing_git_recovery :: "recovery_request \<Rightarrow> unit db" where
  "begin_missing_git_recovery q db =
     (case recovery_refusal db q of
        Some e \<Rightarrow> (Inl e, db)
      | None \<Rightarrow>
          let pid = rq_project q; sid = rq_session q; at = rq_acquired_at q;
              db1 = (if retires_journal q
                     then db\<lparr>journals := sql_update (journal_at pid sid)
                            (cancel_row (Some (recovery_reason q)) at) (journals db)\<rparr>
                     else db)
          in case insert_lease \<lparr>l_project = pid, l_holder = rq_holder q, l_acquired_at = at,
                                l_expires_at = rq_expires_at q\<rparr> db1 of
               (Inl e, _) \<Rightarrow> (Inl e, db)
             | (Inr False, _) \<Rightarrow> (Inl ''UNIQUE constraint failed'', db)
             | (Inr True, db2) \<Rightarrow>
                 (Inr (), stop_control pid sid (Some (missing_git_recovery_token (rq_expected_run q))) at db2))"

definition finish_missing_git_recovery :: "int \<Rightarrow> str \<Rightarrow> str \<Rightarrow> unit db" where
  "finish_missing_git_recovery pid holder now db =
     (let P = (\<lambda>p. p_id p = pid
            \<and> sql_exists (\<lambda>l. live_lease pid now l \<and> l_holder l = holder) (leases db))
      in (if sql_count P (projects db) = 1 then Inr ()
          else Inl ''Recovery lost its project reservation; check the queued task before retrying'',
          db\<lparr>projects := sql_update P (\<lambda>p. p\<lparr>p_failure_count := 0, p_last_failure_at := None,
               p_last_blocked_recovery_at := None, p_updated_at := now\<rparr>) (projects db)\<rparr>))"

end
