(* ===== verification/Journal_Safety.thy ===== *)
theory Journal_Safety
  imports Git_Recovery
begin

text \<open>
  The invariant of the Git journals and the abstract machine their transactions refine: a
  journal is created working, advanced by an accepted compare-and-set, cancelled before it
  is published, or acknowledged once completed; nothing else happens to it.
\<close>

section \<open>Invariant and evolution of a journal\<close>

definition journal_wf :: "journal_row \<Rightarrow> bool" where
  "journal_wf g \<longleftrightarrow> g_git_mode g \<noteq> Off \<and> 0 \<le> g_generation g
     \<and> (gfs_is_finalizing (g_state g) \<or> g_state g = Completed \<longrightarrow> g_task_identity g \<noteq> None)
     \<and> (g_state g \<in> {PushPending, Completed} \<longrightarrow> g_commit_oid g \<noteq> None)
     \<and> (g_state g = PushPending \<longrightarrow> g_git_mode g = CommitAndPush)
     \<and> (g_completed_at g \<noteq> None \<longleftrightarrow> gfs_is_terminal (g_state g))
     \<and> (g_acknowledged_at g \<noteq> None \<longrightarrow> g_state g = Completed)
     \<and> (g_acknowledged_run_id g \<noteq> None \<longleftrightarrow> g_acknowledged_at g \<noteq> None)"

definition journal_key :: "journal_row \<Rightarrow> int \<times> str" where
  "journal_key g = (g_project g, g_session g)"

definition one_finalizing :: "journal_row table \<Rightarrow> bool" where
  "one_finalizing t \<longleftrightarrow> (\<forall>g \<in> set t. \<forall>h \<in> set t. gfs_is_finalizing (g_state g)
     \<longrightarrow> gfs_is_finalizing (g_state h) \<longrightarrow> g_project g = g_project h \<longrightarrow> g = h)"

definition journals_wf :: "journal_row table \<Rightarrow> bool" where
  "journals_wf t \<longleftrightarrow> unique_on journal_key t \<and> one_finalizing t \<and> (\<forall>g \<in> set t. journal_wf g)"

text \<open>What may become of a journal: its boundary is fixed, its identity and commit are written
  once, its state only moves forward, and a published journal only gains its
  acknowledgement.  Every other change raises the generation.\<close>

definition journal_boundary where
  "journal_boundary g = (journal_key g, g_git_mode g, g_starting_head g, g_branch_ref g, g_upstream_ref g,
     g_created_at g)"

definition written_once :: "'a option \<Rightarrow> 'a option \<Rightarrow> bool" where
  "written_once a b \<longleftrightarrow> (a \<noteq> None \<longrightarrow> b = a)"

definition unacknowledged :: "journal_row \<Rightarrow> journal_row" where
  "unacknowledged g = g\<lparr>g_acknowledged_at := None, g_acknowledged_run_id := None\<rparr>"

definition state_forward :: "GitFinalizationState \<Rightarrow> GitFinalizationState \<Rightarrow> bool" where
  "state_forward s t \<longleftrightarrow> gfs_rank s \<le> gfs_rank t \<and> (gfs_is_terminal s \<longrightarrow> t = s)"

definition journal_evolves :: "journal_row \<Rightarrow> journal_row \<Rightarrow> bool" where
  "journal_evolves g h \<longleftrightarrow>
     journal_boundary h = journal_boundary g
     \<and> written_once (g_task_identity g) (g_task_identity h) \<and> written_once (g_commit_oid g) (g_commit_oid h)
     \<and> state_forward (g_state g) (g_state h)
     \<and> g_generation g \<le> g_generation h
     \<and> (g_generation h = g_generation g \<or> g_state g = Completed \<longrightarrow> unacknowledged h = unacknowledged g)
     \<and> (g_acknowledged_at g \<noteq> None \<longrightarrow> h = g)"

definition journals_evolve :: "journal_row table \<Rightarrow> journal_row table \<Rightarrow> bool" where
  "journals_evolve t u \<longleftrightarrow> (\<forall>g \<in> set t. \<exists>h \<in> set u. journal_evolves g h)"

lemma journal_evolves_refl: "journal_evolves g g"
  by (simp add: journal_evolves_def written_once_def state_forward_def)

lemma journals_evolve_refl: "journals_evolve t t"
  by (auto simp: journals_evolve_def intro: journal_evolves_refl)

lemma written_once_trans: "written_once a b \<Longrightarrow> written_once b c \<Longrightarrow> written_once a c"
  by (simp add: written_once_def)

lemma state_forward_trans: "state_forward a b \<Longrightarrow> state_forward b c \<Longrightarrow> state_forward a c"
  by (auto simp: state_forward_def)

lemma unacknowledged_gen: "unacknowledged h = unacknowledged g \<Longrightarrow> g_generation h = g_generation g"
  and unacknowledged_state: "unacknowledged h = unacknowledged g \<Longrightarrow> g_state h = g_state g"
  unfolding unacknowledged_def by (cases g; cases h; simp)+

lemma journal_evolvesD:
  assumes "journal_evolves g h"
  shows "journal_boundary h = journal_boundary g" "written_once (g_task_identity g) (g_task_identity h)"
    "written_once (g_commit_oid g) (g_commit_oid h)" "state_forward (g_state g) (g_state h)"
    "g_generation g \<le> g_generation h"
    "g_generation h = g_generation g \<or> g_state g = Completed \<Longrightarrow> unacknowledged h = unacknowledged g"
    "g_acknowledged_at g \<noteq> None \<Longrightarrow> h = g"
  using assms unfolding journal_evolves_def by blast+

lemma journal_evolves_trans:
  assumes fg: "journal_evolves f g" and gh: "journal_evolves g h"
  shows "journal_evolves f h"
proof -
  note f = journal_evolvesD [OF fg] and g = journal_evolvesD [OF gh]
  have same: "unacknowledged h = unacknowledged f" if "g_generation h = g_generation f \<or> g_state f = Completed"
  proof -
    have gen: "g_generation h = g_generation f \<Longrightarrow> g_generation g = g_generation f" using f(5) g(5) by simp
    then have fg': "unacknowledged g = unacknowledged f" using that f(6) by blast
    then have "g_generation h = g_generation g \<or> g_state g = Completed"
      using that gen unacknowledged_state [OF fg'] by auto
    from g(6) [OF this] fg' show ?thesis by simp
  qed
  have last: "h = f" if "g_acknowledged_at f \<noteq> None"
  proof -
    from f(7) [OF that] have "g = f" .
    moreover from this that have "h = g" using g(7) by blast
    ultimately show ?thesis by simp
  qed
  have "journal_boundary h = journal_boundary f" using f(1) g(1) by simp
  moreover have "g_generation f \<le> g_generation h" using f(5) g(5) by simp
  ultimately show ?thesis unfolding journal_evolves_def
    using same last written_once_trans [OF f(2) g(2)] written_once_trans [OF f(3) g(3)]
      state_forward_trans [OF f(4) g(4)] by blast
qed

lemma journals_evolve_trans: "journals_evolve t u \<Longrightarrow> journals_evolve u v \<Longrightarrow> journals_evolve t v"
  unfolding journals_evolve_def by (meson journal_evolves_trans)

section \<open>The abstract machine\<close>

definition ack_row :: "str \<Rightarrow> int \<Rightarrow> journal_row \<Rightarrow> journal_row" where
  "ack_row at rid g = g\<lparr>g_acknowledged_at := Some at, g_acknowledged_run_id := Some rid\<rparr>"

text \<open>The moves that acknowledge nothing, and the acknowledgement by a run.\<close>

inductive plain_move :: "journal_row table \<Rightarrow> journal_row table \<Rightarrow> bool" where
  move_keep: "plain_move t t"
| move_create: "nf_git_mode f \<noteq> Off \<Longrightarrow> \<not> sql_exists (journal_at (nf_project f) (nf_session f)) t \<Longrightarrow>
    plain_move t (sql_insert (new_journal f) t)"
| move_advance: "(\<And>g. g \<in> set t \<Longrightarrow> P g \<Longrightarrow> journal_at (cq_project q) (cq_session q) g \<and> cas_rejection g q = None) \<Longrightarrow>
    (gfs_is_finalizing (cq_next_state q) \<Longrightarrow>
       \<not> sql_exists (\<lambda>g. g_project g = cq_project q \<and> g_session g \<noteq> cq_session q \<and> gfs_is_finalizing (g_state g)) t) \<Longrightarrow>
    plain_move t (sql_update P (cas_row q) t)"
| move_cancel: "(\<And>g. g \<in> set t \<Longrightarrow> P g \<Longrightarrow> g_state g \<notin> {PushPending, Completed}) \<Longrightarrow>
    plain_move t (sql_update P (cancel_row reason at) t)"

inductive journal_move :: "journal_row table \<Rightarrow> journal_row table \<Rightarrow> bool" where
  move_plain: "plain_move t u \<Longrightarrow> journal_move t u"
| move_acknowledge: "(\<And>g. g \<in> set t \<Longrightarrow> P g \<Longrightarrow> g_state g = Completed \<and> g_acknowledged_at g = None) \<Longrightarrow>
    journal_move t (sql_update P (ack_row at rid) t)"

lemma option_or_None [simp]: "option_or a b = None \<longleftrightarrow> a = None \<and> b = None"
  by (cases a) (simp_all add: option_or_def)

lemma cas_rejection_None:
  assumes "cas_rejection g q = None"
  shows "can_transition_to (g_state g) (cq_next_state q)"
    "cq_next_state q = PushPending \<Longrightarrow> g_git_mode g = CommitAndPush"
    "g_task_identity g \<noteq> None \<Longrightarrow> cq_task_identity q \<noteq> None \<Longrightarrow> g_task_identity g = cq_task_identity q"
    "gfs_is_finalizing (cq_next_state q) \<Longrightarrow> cq_task_identity q \<noteq> None \<or> g_task_identity g \<noteq> None"
    "g_commit_oid g \<noteq> None \<Longrightarrow> cq_commit_oid q \<noteq> None \<Longrightarrow> g_commit_oid g = cq_commit_oid q"
    "cq_next_state q \<in> {PushPending, Completed} \<Longrightarrow> cq_commit_oid q \<noteq> None \<or> g_commit_oid g \<noteq> None"
    "cq_next_state q = Completed \<Longrightarrow> g_git_mode g = Commit \<Longrightarrow> g_state g = CommitPending"
    "cq_next_state q = Completed \<Longrightarrow> g_git_mode g = CommitAndPush \<Longrightarrow> g_state g = PushPending"
  using assms by (simp_all add: cas_rejection_def split: if_splits)

lemma journal_row_keys [simp]:
  "journal_key (cas_row q g) = journal_key g"
  "journal_key (cancel_row r at g) = journal_key g"
  "journal_key (ack_row at rid g) = journal_key g"
  by (simp_all add: journal_key_def cas_row_def cancel_row_def ack_row_def)

lemma completed_from_finalizing: "can_transition_to s Completed \<Longrightarrow> gfs_is_finalizing s"
  by (cases s) (auto simp: gfs_is_finalizing_def)

lemma cas_row_fields:
  "g_state (cas_row q g) = cq_next_state q"
  "g_git_mode (cas_row q g) = g_git_mode g"
  "g_generation (cas_row q g) = g_generation g + 1"
  "g_task_identity (cas_row q g) = option_or (g_task_identity g) (cq_task_identity q)"
  "g_commit_oid (cas_row q g) = option_or (cq_commit_oid q) (g_commit_oid g)"
  "g_completed_at (cas_row q g) \<noteq> None \<longleftrightarrow> gfs_is_terminal (cq_next_state q)"
  "g_acknowledged_at (cas_row q g) = g_acknowledged_at g"
  "g_acknowledged_run_id (cas_row q g) = g_acknowledged_run_id g"
  "journal_boundary (cas_row q g) = journal_boundary g"
  by (simp_all add: cas_row_def option_or_def journal_boundary_def journal_key_def split: option.split)

lemma cancel_row_fields:
  "g_state (cancel_row r at g) = Cancelled"
  "g_git_mode (cancel_row r at g) = g_git_mode g"
  "g_generation (cancel_row r at g) = g_generation g + 1"
  "g_task_identity (cancel_row r at g) = g_task_identity g"
  "g_commit_oid (cancel_row r at g) = g_commit_oid g"
  "g_completed_at (cancel_row r at g) = Some at"
  "g_acknowledged_at (cancel_row r at g) = g_acknowledged_at g"
  "g_acknowledged_run_id (cancel_row r at g) = g_acknowledged_run_id g"
  "journal_boundary (cancel_row r at g) = journal_boundary g"
  by (simp_all add: cancel_row_def journal_boundary_def journal_key_def)

lemma journal_wf_open_unacknowledged:
  "journal_wf g \<Longrightarrow> g_state g \<noteq> Completed \<Longrightarrow> g_acknowledged_at g = None"
  by (auto simp: journal_wf_def)

lemma written_once_option_or: "written_once a (option_or a b)"
  by (cases a) (simp_all add: written_once_def option_or_def)

lemma cas_row_wf:
  assumes wf: "journal_wf g" and ok: "cas_rejection g q = None"
  shows "journal_wf (cas_row q g)"
proof -
  note c = cas_rejection_None [OF ok]
  have nc: "g_state g \<noteq> Completed" using c(1) by auto
  have ack: "g_acknowledged_at g = None" by (rule journal_wf_open_unacknowledged [OF wf nc])
  have "cq_next_state q = Completed \<Longrightarrow> g_task_identity g \<noteq> None"
    using c(1) wf completed_from_finalizing [of "g_state g"] by (simp add: journal_wf_def)
  then have id: "gfs_is_finalizing (cq_next_state q) \<or> cq_next_state q = Completed \<Longrightarrow>
      option_or (g_task_identity g) (cq_task_identity q) \<noteq> None" using c(4) by auto
  have oid: "cq_next_state q \<in> {PushPending, Completed} \<Longrightarrow> option_or (cq_commit_oid q) (g_commit_oid g) \<noteq> None"
    using c(6) by auto
  show ?thesis unfolding journal_wf_def cas_row_fields
    using wf c(2) ack id oid unfolding journal_wf_def by simp
qed

lemma cas_row_evolves:
  assumes wf: "journal_wf g" and ok: "cas_rejection g q = None"
  shows "journal_evolves g (cas_row q g)"
proof -
  note c = cas_rejection_None [OF ok]
  have nt: "\<not> gfs_is_terminal (g_state g)" using c(1) can_transition_terminal by blast
  then have nc: "g_state g \<noteq> Completed" by (auto simp: gfs_is_terminal_def)
  have fw: "state_forward (g_state g) (cq_next_state q)"
    using can_transition_to_rank [OF c(1)] nt by (auto simp: state_forward_def)
  have oid: "written_once (g_commit_oid g) (option_or (cq_commit_oid q) (g_commit_oid g))"
    using c(5) by (cases "cq_commit_oid q") (simp_all add: written_once_def option_or_def)
  show ?thesis unfolding journal_evolves_def cas_row_fields
    using fw nc oid written_once_option_or journal_wf_open_unacknowledged [OF wf nc] by simp
qed

lemma cancel_row_wf:
  assumes "journal_wf g" "g_state g \<noteq> Completed"
  shows "journal_wf (cancel_row r at g)"
proof -
  have "gfs_is_terminal Cancelled" "\<not> gfs_is_finalizing Cancelled"
    by (simp_all add: gfs_is_terminal_def gfs_is_finalizing_def)
  then show ?thesis unfolding journal_wf_def cancel_row_fields
    using journal_wf_open_unacknowledged [OF assms] assms(1) by (simp add: journal_wf_def)
qed

lemma cancel_row_evolves:
  assumes "journal_wf g" "g_state g \<noteq> Completed"
  shows "journal_evolves g (cancel_row r at g)"
proof -
  have "state_forward (g_state g) Cancelled"
    using assms(2) by (cases "g_state g") (simp_all add: state_forward_def gfs_is_terminal_def)
  then show ?thesis unfolding journal_evolves_def cancel_row_fields
    using assms(2) journal_wf_open_unacknowledged [OF assms] by (simp add: written_once_def)
qed

lemma ack_row_wf: "journal_wf g \<Longrightarrow> g_state g = Completed \<Longrightarrow> journal_wf (ack_row at rid g)"
  by (auto simp: journal_wf_def ack_row_def)

lemma ack_row_evolves: "g_acknowledged_at g = None \<Longrightarrow> journal_evolves g (ack_row at rid g)"
  by (simp add: journal_evolves_def ack_row_def journal_boundary_def journal_key_def written_once_def
      state_forward_def unacknowledged_def)

lemma new_journal_wf: "nf_git_mode f \<noteq> Off \<Longrightarrow> journal_wf (new_journal f)"
  by (auto simp: journal_wf_def new_journal_def gfs_is_terminal_def gfs_is_finalizing_def)

section \<open>The machine keeps the invariant\<close>

text \<open>An update that keeps keys and well-formedness, where a row it makes finalizing has no
  finalizing sibling.\<close>

lemma journals_wf_update:
  assumes wf: "journals_wf t"
    and key: "\<And>g. journal_key (f g) = journal_key g"
    and row: "\<And>g. g \<in> set t \<Longrightarrow> P g \<Longrightarrow> journal_wf (f g)"
    and sole: "\<And>g h. g \<in> set t \<Longrightarrow> P g \<Longrightarrow> gfs_is_finalizing (g_state (f g)) \<Longrightarrow> h \<in> set t \<Longrightarrow> h \<noteq> g \<Longrightarrow>
       g_project h = g_project g \<Longrightarrow> \<not> gfs_is_finalizing (g_state (if P h then f h else h))"
  shows "journals_wf (sql_update P f t)"
proof -
  let ?u = "\<lambda>g. if P g then f g else g"
  have proj: "g_project (?u g) = g_project g" for g using key [of g] by (simp add: journal_key_def)
  have "one_finalizing (sql_update P f t)"
    unfolding one_finalizing_def set_sql_update
  proof (intro ballI impI)
    fix x y assume xy: "x \<in> ?u ` set t" "y \<in> ?u ` set t"
      and fin: "gfs_is_finalizing (g_state x)" "gfs_is_finalizing (g_state y)" and pr: "g_project x = g_project y"
    then obtain g h where gh: "g \<in> set t" "h \<in> set t" "x = ?u g" "y = ?u h" by blast
    have p: "g_project g = g_project h" using pr gh(3,4) proj by metis
    have "g = h"
    proof (rule ccontr)
      assume "g \<noteq> h"
      have fin': "gfs_is_finalizing (g_state (?u g))" "gfs_is_finalizing (g_state (?u h))"
        using fin unfolding gh(3,4) .
      have "\<not> P g" using sole [OF gh(1) _ _ gh(2)] fin' p \<open>g \<noteq> h\<close> by metis
      moreover have "\<not> P h" using sole [OF gh(2) _ _ gh(1)] fin' p \<open>g \<noteq> h\<close> by metis
      ultimately have "gfs_is_finalizing (g_state g)" "gfs_is_finalizing (g_state h)" using fin' by simp_all
      then show False using wf gh(1,2) p \<open>g \<noteq> h\<close> unfolding journals_wf_def one_finalizing_def by blast
    qed
    with gh show "x = y" by simp
  qed
  moreover have "unique_on journal_key (sql_update P f t)"
    using wf key by (auto simp: journals_wf_def intro: unique_on_update)
  moreover have "\<forall>g \<in> set (sql_update P f t). journal_wf g"
    using wf row by (intro sql_update_ball) (simp_all add: journals_wf_def)
  ultimately show ?thesis by (simp add: journals_wf_def)
qed

lemma journals_evolve_update:
  assumes "\<And>g. g \<in> set t \<Longrightarrow> P g \<Longrightarrow> journal_evolves g (f g)"
  shows "journals_evolve t (sql_update P f t)"
  unfolding journals_evolve_def
proof
  fix g assume "g \<in> set t"
  then have "journal_evolves g (if P g then f g else g)" using assms journal_evolves_refl by simp
  with sql_update_mem [OF \<open>g \<in> set t\<close>] show "\<exists>h \<in> set (sql_update P f t). journal_evolves g h" by blast
qed

lemma plain_move_wf:
  assumes "plain_move t u" "journals_wf t"
  shows "journals_wf u"
  using assms
proof (induction rule: plain_move.induct)
  case (move_create f t)
  have "\<not> gfs_is_finalizing (g_state (new_journal f))" by (simp add: new_journal_def gfs_is_finalizing_def)
  moreover have "unique_on journal_key (sql_insert (new_journal f) t)"
    using move_create by (intro unique_on_insert)
      (auto simp: journals_wf_def journal_key_def new_journal_def sql_exists_iff journal_at_def)
  ultimately show ?case using move_create new_journal_wf [of f]
    by (auto simp: journals_wf_def one_finalizing_def)
next
  case (move_advance t P q)
  note wf = \<open>journals_wf t\<close>
  have rows: "journal_wf g" if "g \<in> set t" for g using wf that by (simp add: journals_wf_def)
  show ?case
  proof (rule journals_wf_update [OF wf])
    fix g h assume gh: "g \<in> set t" "P g" "gfs_is_finalizing (g_state (cas_row q g))" "h \<in> set t" "h \<noteq> g"
      and p: "g_project h = g_project g"
    have at: "journal_at (cq_project q) (cq_session q) g" using move_advance(1) gh by blast
    have "journal_key h \<noteq> journal_key g"
      using unique_on_eq [of journal_key t h g] wf gh by (auto simp: journals_wf_def)
    then have "g_session h \<noteq> cq_session q" using at p by (auto simp: journal_at_def journal_key_def)
    moreover from this have "\<not> P h" using move_advance(1) [of h] gh(4) by (auto simp: journal_at_def)
    ultimately show "\<not> gfs_is_finalizing (g_state (if P h then cas_row q h else h))"
      using move_advance(2) gh(3,4) at p by (auto simp: cas_row_def sql_exists_iff journal_at_def)
  qed (use rows move_advance(1) in \<open>auto intro: cas_row_wf\<close>)
next
  case (move_cancel t P reason at)
  then show ?case
    by (intro journals_wf_update) (auto simp: journals_wf_def cancel_row_fields gfs_is_finalizing_def
        intro!: cancel_row_wf)
qed simp

lemma journal_move_wf:
  assumes "journal_move t u" "journals_wf t"
  shows "journals_wf u"
  using assms
proof (induction rule: journal_move.induct)
  case (move_acknowledge t P at rid)
  have "\<not> gfs_is_finalizing (g_state (ack_row at rid g))" if "g \<in> set t" "P g" for g
    using move_acknowledge(1) that by (auto simp: ack_row_def gfs_is_finalizing_def)
  then show ?case using move_acknowledge
    by (intro journals_wf_update) (auto simp: journals_wf_def intro: ack_row_wf)
qed (rule plain_move_wf)

lemma plain_move_evolve:
  assumes "plain_move t u" "journals_wf t"
  shows "journals_evolve t u"
  using assms
proof (induction rule: plain_move.induct)
  case (move_create f t)
  then show ?case by (auto simp: journals_evolve_def intro: journal_evolves_refl)
next
  case (move_advance t P q)
  then show ?case by (intro journals_evolve_update) (auto simp: journals_wf_def intro: cas_row_evolves)
next
  case (move_cancel t P reason at)
  then show ?case by (intro journals_evolve_update) (auto simp: journals_wf_def intro!: cancel_row_evolves)
qed (rule journals_evolve_refl)

lemma journal_move_evolve:
  assumes "journal_move t u" "journals_wf t"
  shows "journals_evolve t u"
  using assms
proof (induction rule: journal_move.induct)
  case (move_acknowledge t P at rid)
  then show ?case by (intro journals_evolve_update) (auto intro: ack_row_evolves)
qed (rule plain_move_evolve)

text \<open>A plain move names no new acknowledging run.\<close>

lemma plain_move_acks:
  assumes "plain_move t u" "h \<in> set u" "g_acknowledged_run_id h = Some rid"
  shows "\<exists>g \<in> set t. g_project g = g_project h \<and> g_acknowledged_run_id g = Some rid"
  using assms
proof (induction rule: plain_move.induct)
  case (move_create f t)
  then show ?case by (auto simp: new_journal_def)
next
  case (move_advance t P q)
  then show ?case by (auto simp: set_sql_update cas_row_def split: if_splits)
next
  case (move_cancel t P reason at)
  then show ?case by (auto simp: set_sql_update cancel_row_def split: if_splits)
qed auto

end
