(* ===== verification/Journal_Refinement.thy ===== *)
theory Journal_Refinement
  imports Journal_Safety Lease_Properties
begin

text \<open>
  Every transaction on the Git journals refines the abstract journal machine, and keeps the
  invariant of the whole registry.
\<close>

named_theorems plain_moves \<open>the abstract move of each transaction but the acknowledgement\<close>
named_theorems journal_moves \<open>the abstract move of each transaction\<close>
named_theorems core_simps \<open>the part of the registry the worker invariant depends on\<close>

section \<open>The moves of the transactions\<close>

lemma git_finalization_Some:
  "git_finalization db pid sid = Some g \<Longrightarrow> g \<in> set (journals db) \<and> journal_at pid sid g"
  unfolding git_finalization_def by (rule sql_select_Some)

lemma journal_at_key: "journal_at pid sid g \<longleftrightarrow> journal_key g = (pid, sid)"
  by (simp add: journal_at_def journal_key_def)

text \<open>The row a transaction reads by its key is the only one its statements match.\<close>

lemma journal_unique:
  assumes "journals_wf (journals db)" "git_finalization db pid sid = Some g"
    "h \<in> set (journals db)" "journal_at pid sid h"
  shows "h = g"
  using assms git_finalization_Some [OF assms(2)] unique_on_eq [of journal_key "journals db" h g]
  by (auto simp: journals_wf_def journal_at_key)

lemma create_move [plain_moves]: "plain_move (journals db) (journals (snd (create_git_finalization f db)))"
  by (auto simp: create_git_finalization_def intro: move_keep move_create)

lemma enable_move [plain_moves]: "plain_move (journals db) (journals (snd (enable_session_git f h now db)))"
  by (auto simp: enable_session_git_def intro: move_keep move_create)

lemma compare_and_set_move [plain_moves]:
  assumes wf: "journals_wf (journals db)"
  shows "plain_move (journals db) (journals (snd (compare_and_set_git_finalization q db)))"
proof -
  let ?mine = "\<lambda>g. journal_at (cq_project q) (cq_session q) g \<and> g_generation g = cq_expected_generation q"
  have adv: "plain_move (journals db) (sql_update ?mine (cas_row q) (journals db))"
    if "git_finalization db (cq_project q) (cq_session q) = Some g" "cas_rejection g q = None"
      "\<not> finalizing_conflict db q" for g
  proof (rule move_advance)
    show "journal_at (cq_project q) (cq_session q) h \<and> cas_rejection h q = None"
      if "h \<in> set (journals db)" "?mine h" for h
      using that journal_unique [OF wf \<open>git_finalization db _ _ = Some g\<close>] \<open>cas_rejection g q = None\<close> by blast
    show "\<not> sql_exists (\<lambda>g. g_project g = cq_project q \<and> g_session g \<noteq> cq_session q
        \<and> gfs_is_finalizing (g_state g)) (journals db)" if "gfs_is_finalizing (cq_next_state q)"
      using that \<open>\<not> finalizing_conflict db q\<close> by (simp add: finalizing_conflict_def)
  qed
  show ?thesis unfolding compare_and_set_git_finalization_def Let_def
    by (auto intro: move_keep adv split: option.split)
qed

lemma cancel_orphaned_move [plain_moves]:
  "plain_move (journals db) (journals (snd (cancel_orphaned_working_git_finalization g h r at now db)))"
  unfolding cancel_orphaned_working_git_finalization_def Let_def
  by (auto intro: move_keep move_cancel split: option.split)

lemma clear_failure_frame [simp]:
  "runs (clear_cancelled_attempt_failure pid sid at db) = runs db"
  "leases (clear_cancelled_attempt_failure pid sid at db) = leases db"
  "workers (clear_cancelled_attempt_failure pid sid at db) = workers db"
  "controls (clear_cancelled_attempt_failure pid sid at db) = controls db"
  "journals (clear_cancelled_attempt_failure pid sid at db) = journals db"
  "launches (clear_cancelled_attempt_failure pid sid at db) = launches db"
  "session_modes (clear_cancelled_attempt_failure pid sid at db) = session_modes db"
  "map project_key (projects (clear_cancelled_attempt_failure pid sid at db)) = map project_key (projects db)"
  by (simp_all add: clear_cancelled_attempt_failure_def map_sql_update project_key_def)

lemma retire_abandoned_move [plain_moves]:
  "plain_move (journals db) (journals (snd (retire_abandoned_unbound_git_finalization pid sid gen c r at db)))"
  by (auto simp: retire_abandoned_unbound_git_finalization_def Let_def intro: move_keep move_cancel)

lemma retire_superseded_move [plain_moves]:
  assumes "journals_wf (journals db)"
  shows "plain_move (journals db) (journals (snd (retire_superseded_working_git_finalization g c at db)))"
proof -
  have "plain_move (journals db) (sql_update (journal_at (g_project g) (g_session g)) (cancel_row r at) (journals db))"
    if "git_finalization db (g_project g) (g_session g) = Some g" "g_state g = Working" for r
    using journal_unique [OF assms that(1)] that(2) by (intro move_cancel) force
  then show ?thesis
    by (auto simp: retire_superseded_working_git_finalization_def Let_def intro: move_keep)
qed

lemma insert_lease_frame:
  "insert_lease l db = (r, db') \<Longrightarrow> journals db' = journals db \<and> projects db' = projects db \<and> runs db' = runs db
     \<and> workers db' = workers db \<and> controls db' = controls db \<and> launches db' = launches db
     \<and> session_modes db' = session_modes db"
  by (auto simp: insert_lease_def split: if_splits)

lemma fence_project_frame:
  "fence_project_for_cancellation pid sid gen i h a e db = (r, db') \<Longrightarrow>
     journals db' = journals db \<and> projects db' = projects db \<and> runs db' = runs db \<and> workers db' = workers db
     \<and> controls db' = controls db \<and> launches db' = launches db \<and> session_modes db' = session_modes db"
  by (auto simp: fence_project_for_cancellation_def Let_def split: if_splits prod.splits sum.splits
      dest!: insert_lease_frame)

lemma stop_control_frame [simp]:
  "runs (stop_control pid sid t at db) = runs db" "leases (stop_control pid sid t at db) = leases db"
  "workers (stop_control pid sid t at db) = workers db" "journals (stop_control pid sid t at db) = journals db"
  "projects (stop_control pid sid t at db) = projects db" "launches (stop_control pid sid t at db) = launches db"
  "session_modes (stop_control pid sid t at db) = session_modes db"
  by (simp_all add: stop_control_def)

lemma cancel_idle_move [plain_moves]:
  "plain_move (journals db) (journals (snd (cancel_idle_working_git_finalization pid sid gen i h a e c db)))"
proof -
  let ?first = "if c = Deletion \<and> can_delete_idle_task db pid sid gen i a then (Inr True, db)
     else fence_project_for_cancellation pid sid gen i h a e db"
  obtain r db1 where first: "?first = (r, db1)" by fastforce
  then have same: "journals db1 = journals db" by (auto split: if_splits dest: fence_project_frame)
  have "plain_move (journals db) (sql_update (\<lambda>g. journal_at pid sid g \<and> g_state g = Working
      \<and> g_generation g = gen \<and> g_task_identity g = i) (cancel_row r at) (journals db))" for r at
    by (intro move_cancel) auto
  with same show ?thesis
    unfolding cancel_idle_working_git_finalization_def Let_def first
    by (auto intro: move_keep split: sum.split bool.split)
qed

lemma begin_recovery_move [plain_moves]:
  assumes "journals_wf (journals db)"
  shows "plain_move (journals db) (journals (snd (begin_missing_git_recovery q db)))"
proof -
  have cancel: "plain_move (journals db)
      (sql_update (journal_at (rq_project q) (rq_session q)) (cancel_row r at) (journals db))"
    if ok: "recovery_refusal db q = None" and ret: "retires_journal q" for r at
  proof -
    obtain g where g: "rq_expected_journal q = Some g" using ret by (auto simp: retires_journal_def split: option.splits)
    with ok have "recoverable_journal db q g" by (auto simp: recovery_refusal_def Let_def split: if_splits)
    then have sel: "git_finalization db (rq_project q) (rq_session q) = Some g"
      and "g_state g \<notin> {PushPending, Completed}"
      by (auto simp: recoverable_journal_def split: if_splits)
    with journal_unique [OF assms sel] show ?thesis by (intro move_cancel) auto
  qed
  show ?thesis unfolding begin_missing_git_recovery_def Let_def
    by (auto simp: cancel split: option.split prod.split sum.split bool.split dest!: insert_lease_frame
        intro: move_keep)
qed

lemma acknowledging_run_frame:
  "acknowledging_run pid sid c s db = (r, db') \<Longrightarrow> journals db' = journals db \<and> projects db' = projects db
     \<and> leases db' = leases db \<and> workers db' = workers db \<and> controls db' = controls db
     \<and> launches db' = launches db \<and> session_modes db' = session_modes db"
  by (auto simp: acknowledging_run_def Let_def split: option.splits if_splits)

lemma acknowledge_move [journal_moves]:
  "journal_move (journals db) (journals (snd (acknowledge_completed_git_finalization_session pid sid now db)))"
proof -
  have "journal_move (journals db) (sql_update (\<lambda>g. journal_at pid sid g \<and> g_state g = Completed
      \<and> g_acknowledged_at g = None) (ack_row now rid) (journals db))" for rid
    by (intro move_acknowledge) auto
  then show ?thesis
    unfolding acknowledge_completed_git_finalization_session_def Let_def ack_row_def [abs_def]
    by (auto split: option.split prod.split sum.split dest!: acknowledging_run_frame intro: move_plain move_keep)
qed

lemma launch_moves [plain_moves]:
  "plain_move (journals db) (journals (snd (record_git_launch_state pid t m s at db)))"
  "plain_move (journals db) (journals (snd (reclaim_unchanged_git_launch_state pid t m s db)))"
  "plain_move (journals db) (journals (snd (delete_git_launch_state pid t db)))"
  "plain_move (journals db) (journals (snd (recover_unmanaged_session_git_mode pid sid p db)))"
  "plain_move (journals db) (journals (snd (finish_missing_git_recovery pid h now db)))"
  by (auto simp: record_git_launch_state_def reclaim_unchanged_git_launch_state_def
      delete_git_launch_state_def recover_unmanaged_session_git_mode_def finish_missing_git_recovery_def Let_def
      intro: move_keep)

lemmas journal_move_intros [journal_moves] = plain_moves [THEN move_plain]

section \<open>The invariant of the whole registry\<close>

definition control_key :: "control_row \<Rightarrow> int \<times> str" where
  "control_key sc = (sc_project sc, sc_session sc)"

definition mode_key :: "session_mode_row \<Rightarrow> int \<times> str" where
  "mode_key m = (sm_project m, sm_session m)"

text \<open>One launch boundary per project: the table is keyed by project and run, and the code never
  adds a second run's boundary.\<close>

definition store_inv :: "registry \<Rightarrow> bool" where
  "store_inv db \<longleftrightarrow> registry_inv db \<and> journals_wf (journals db)
     \<and> (\<forall>g \<in> set (journals db). project_exists db (g_project g))
     \<and> unique_on gl_project (launches db) \<and> unique_on control_key (controls db)
     \<and> unique_on mode_key (session_modes db)"

lemma store_invD:
  assumes "store_inv db"
  shows "registry_inv db" "journals_wf (journals db)"
    "\<And>g. g \<in> set (journals db) \<Longrightarrow> project_exists db (g_project g)"
    "unique_on gl_project (launches db)" "unique_on control_key (controls db)"
    "unique_on mode_key (session_modes db)"
  using assms by (simp_all add: store_inv_def)

text \<open>What the worker invariant depends on.\<close>

definition core where
  "core db = (map project_key (projects db), runs db, leases db, workers db)"

lemma project_exists_ids: "project_exists db pid \<longleftrightarrow> pid \<in> set (map p_id (projects db))"
  by (auto simp: project_exists_def sql_exists_iff)

lemma registry_inv_core:
  assumes "core db' = core db"
  shows "registry_inv db' = registry_inv db"
proof -
  have ids: "map p_id (projects db') = map p_id (projects db)" using assms by (intro project_key_ids) (simp add: core_def)
  then have ex: "project_exists db' = project_exists db" by (simp add: fun_eq_iff project_exists_ids)
  have "unique_on p_id (projects db') = unique_on p_id (projects db)" using ids by (simp add: unique_on_def)
  then show ?thesis using assms ex
    by (simp add: core_def registry_inv_def leases_ok_def runs_ok_def)
qed

text \<open>The other tables: keys that stay unique, and journals whose project stays.\<close>

definition side_ok :: "registry \<Rightarrow> registry \<Rightarrow> bool" where
  "side_ok db db' \<longleftrightarrow> map project_key (projects db') = map project_key (projects db)
     \<and> (unique_on gl_project (launches db) \<longrightarrow> unique_on gl_project (launches db'))
     \<and> (unique_on control_key (controls db) \<longrightarrow> unique_on control_key (controls db'))
     \<and> (unique_on mode_key (session_modes db) \<longrightarrow> unique_on mode_key (session_modes db'))
     \<and> (\<forall>g \<in> set (journals db'). project_exists db (g_project g) \<or> (\<exists>h \<in> set (journals db). g_project h = g_project g))"

lemma store_invI:
  assumes inv: "store_inv db" and reg: "registry_inv db'" and side: "side_ok db db'"
    and move: "journal_move (journals db) (journals db')"
  shows "store_inv db'"
proof -
  have ex: "project_exists db' = project_exists db"
    using project_key_ids [of "projects db'" "projects db"] side
    by (simp add: fun_eq_iff project_exists_ids side_ok_def del: map_eq_conv)
  have "\<forall>g \<in> set (journals db'). project_exists db' (g_project g)"
    using side store_invD(3) [OF inv] unfolding side_ok_def ex by metis
  then show ?thesis using inv reg side journal_move_wf [OF move]
    by (simp add: store_inv_def side_ok_def)
qed

lemma journal_update_projects:
  assumes "\<And>g. journal_key (f g) = journal_key g"
  shows "\<forall>g \<in> set (sql_update P f t). \<exists>h \<in> set t. g_project h = g_project g"
proof (rule sql_update_ball)
  show "\<exists>h \<in> set t. g_project h = g_project (f g)" if "g \<in> set t" for g
    using assms [of g] that by (auto simp: journal_key_def)
qed auto

lemma control_keys:
  "control_key (sc\<lparr>sc_state := s, sc_run_token := t, sc_updated_at := u\<rparr>) = control_key sc"
  "control_key (sc\<lparr>sc_run_token := t, sc_updated_at := u\<rparr>) = control_key sc"
  by (simp_all add: control_key_def)

lemma unique_advance_fence: "unique_on control_key t \<Longrightarrow> unique_on control_key (advance_fence q t)"
  by (auto simp: advance_fence_def Let_def control_keys intro: unique_on_delete unique_on_update)

lemma unique_stop_control:
  assumes "unique_on control_key (controls db)"
  shows "unique_on control_key (controls (stop_control pid sid t at db))"
  using assms unfolding stop_control_def
  by (auto simp: control_keys intro!: unique_on_update unique_on_insert)
    (auto simp: control_key_def sql_exists_iff control_at_def)

end
