(* ===== verification/Journal_Store.thy ===== *)
theory Journal_Store
  imports Journal_Refinement
begin

text \<open>
  The store of both repositories as one transition system: the worker and lease transactions
  and the Git transactions interleave freely, and every reachable registry satisfies the
  invariant of all tables.
\<close>

section \<open>Side conditions of the Git transactions\<close>

lemma side_ok_journals:
  assumes "\<forall>g \<in> set (journals db'). project_exists db (g_project g) \<or> (\<exists>h \<in> set (journals db). g_project h = g_project g)"
    "map project_key (projects db') = map project_key (projects db)" "launches db' = launches db"
    "unique_on control_key (controls db) \<Longrightarrow> unique_on control_key (controls db')"
    "unique_on mode_key (session_modes db) \<Longrightarrow> unique_on mode_key (session_modes db')"
  shows "side_ok db db'"
  using assms by (simp add: side_ok_def)

lemma side_ok_refl: "side_ok db db"
  by (auto simp: side_ok_def)

lemma side_ok_same:
  assumes "journals db' = journals db" "map project_key (projects db') = map project_key (projects db)"
    "launches db' = launches db" "session_modes db' = session_modes db"
    "unique_on control_key (controls db) \<Longrightarrow> unique_on control_key (controls db')"
  shows "side_ok db db'"
  using assms by (auto simp: side_ok_def)

lemma side_ok_update:
  assumes "journals db' = sql_update P f (journals db)" "\<And>g. journal_key (f g) = journal_key g"
    "map project_key (projects db') = map project_key (projects db)" "launches db' = launches db"
    "session_modes db' = session_modes db"
    "unique_on control_key (controls db) \<Longrightarrow> unique_on control_key (controls db')"
  shows "side_ok db db'"
  using assms journal_update_projects [of f P "journals db"] by (intro side_ok_journals) auto

lemma new_journal_project: "g_project (new_journal f) = nf_project f"
  by (simp add: new_journal_def)

lemma create_side: "side_ok db (snd (create_git_finalization f db))"
  unfolding create_git_finalization_def
  by (auto simp: new_journal_project intro!: side_ok_journals)

lemma enable_side: "side_ok db (snd (enable_session_git f h now db))"
proof -
  have "unique_on mode_key t \<Longrightarrow> unique_on mode_key (sql_update P (\<lambda>m. m\<lparr>sm_git_mode := x\<rparr>) t)" for t P x
    by (rule unique_on_update) (simp_all add: mode_key_def)
  then show ?thesis unfolding enable_session_git_def
    by (auto simp: new_journal_project intro!: side_ok_journals)
qed

lemma recover_unmanaged_side: "side_ok db (snd (recover_unmanaged_session_git_mode pid sid p db))"
proof -
  have "unique_on mode_key (sql_insert \<lparr>sm_project = pid, sm_session = sid, sm_git_mode = Off\<rparr> t)"
    if "unique_on mode_key t" "\<not> sql_exists (\<lambda>m. sm_project m = pid \<and> sm_session m = sid) t" for t
    using that by (intro unique_on_insert) (auto simp: mode_key_def sql_exists_iff)
  then show ?thesis unfolding recover_unmanaged_session_git_mode_def
    by (auto intro!: side_ok_journals)
qed

lemma launch_sides:
  "side_ok db (snd (record_git_launch_state pid t m s at db))"
  "side_ok db (snd (reclaim_unchanged_git_launch_state pid t m s db))"
  "side_ok db (snd (delete_git_launch_state pid t db))"
proof -
  have "unique_on gl_project (sql_insert a (launches db))"
    if "unique_on gl_project (launches db)" "\<not> sql_exists (launch_at pid t) (launches db)"
      "sql_count (\<lambda>a. gl_project a = pid \<and> gl_run_token a \<noteq> t) (launches db) = 0" "gl_project a = pid" for a
    using that by (intro unique_on_insert) (auto simp: sql_exists_iff sql_count_def filter_empty_conv launch_at_def)
  then show "side_ok db (snd (record_git_launch_state pid t m s at db))"
    by (auto simp: record_git_launch_state_def Let_def side_ok_def)
  show "side_ok db (snd (reclaim_unchanged_git_launch_state pid t m s db))"
    "side_ok db (snd (delete_git_launch_state pid t db))"
    by (auto simp: reclaim_unchanged_git_launch_state_def delete_git_launch_state_def Let_def side_ok_def
        intro: unique_on_delete)
qed

lemma compare_and_set_side: "side_ok db (snd (compare_and_set_git_finalization q db))"
  unfolding compare_and_set_git_finalization_def Let_def
  by (auto split: option.split intro!: side_ok_refl side_ok_update [where P = "\<lambda>g. journal_at (cq_project q) (cq_session q) g
        \<and> g_generation g = cq_expected_generation q" and f = "cas_row q"] unique_advance_fence)

lemma cancel_orphaned_side: "side_ok db (snd (cancel_orphaned_working_git_finalization g h r at now db))"
  unfolding cancel_orphaned_working_git_finalization_def Let_def
  by (auto split: option.split intro!: side_ok_refl side_ok_update unique_on_delete)

lemma retire_abandoned_side: "side_ok db (snd (retire_abandoned_unbound_git_finalization pid sid gen c r at db))"
  unfolding retire_abandoned_unbound_git_finalization_def Let_def
  by (auto intro!: side_ok_refl side_ok_update unique_on_delete)

lemma retire_superseded_side: "side_ok db (snd (retire_superseded_working_git_finalization g c at db))"
  unfolding retire_superseded_working_git_finalization_def Let_def
  by (auto intro!: side_ok_refl side_ok_update unique_on_delete)

lemma cancel_idle_side:
  "side_ok db (snd (cancel_idle_working_git_finalization pid sid gen i h a e c db))"
proof -
  let ?first = "if c = Deletion \<and> can_delete_idle_task db pid sid gen i a then (Inr True, db)
     else fence_project_for_cancellation pid sid gen i h a e db"
  obtain r db1 where first: "?first = (r, db1)" by fastforce
  then have same: "journals db1 = journals db" "projects db1 = projects db" "controls db1 = controls db"
    "launches db1 = launches db" "session_modes db1 = session_modes db"
    by (auto split: if_splits dest: fence_project_frame)
  have ids: "map project_key (projects (clear_cancelled_attempt_failure pid sid a db1)) = map project_key (projects db)"
    using clear_failure_frame(8) [of pid sid a db1] same(2) by simp
  show ?thesis
  proof (cases r)
    case (Inl e)
    then show ?thesis
      unfolding cancel_idle_working_git_finalization_def Let_def first by (simp add: side_ok_refl)
  next
    case (Inr won)
    show ?thesis
    proof (cases won)
      case False
      have "side_ok db db1" using same by (intro side_ok_same) simp_all
      with False Inr show ?thesis
        unfolding cancel_idle_working_git_finalization_def Let_def first by simp
    next
      case True
      with Inr show ?thesis
        unfolding cancel_idle_working_git_finalization_def Let_def first
        by (auto simp: same simp del: clear_failure_frame(8) simp add: ids
            intro!: side_ok_refl side_ok_update unique_on_delete unique_stop_control)
    qed
  qed
qed

lemma begin_recovery_side: "side_ok db (snd (begin_missing_git_recovery q db))"
proof -
  let ?l = "\<lparr>l_project = rq_project q, l_holder = rq_holder q, l_acquired_at = rq_acquired_at q,
                                l_expires_at = rq_expires_at q\<rparr>"
  let ?db1 = "if retires_journal q
     then db\<lparr>journals := sql_update (journal_at (rq_project q) (rq_session q))
            (cancel_row (Some (recovery_reason q)) (rq_acquired_at q)) (journals db)\<rparr> else db"
  obtain r db2 where ins: "insert_lease ?l ?db1 = (r, db2)" by fastforce
  have js: "journals db2 = sql_update (\<lambda>g. retires_journal q \<and> journal_at (rq_project q) (rq_session q) g)
      (cancel_row (Some (recovery_reason q)) (rq_acquired_at q)) (journals db)"
    using insert_lease_frame [OF ins] by (simp add: sql_update_def)
  have "projects db2 = projects db" "controls db2 = controls db" "launches db2 = launches db"
    "session_modes db2 = session_modes db" using insert_lease_frame [OF ins] by simp_all
  then show ?thesis unfolding begin_missing_git_recovery_def Let_def ins
    by (auto split: option.split sum.split bool.split intro!: side_ok_refl side_ok_update [OF _ journal_row_keys(2)] js unique_stop_control)
qed

lemma finish_recovery_side: "side_ok db (snd (finish_missing_git_recovery pid h now db))"
  by (rule side_ok_same) (simp_all add: finish_missing_git_recovery_def Let_def map_sql_update project_key_def)

text \<open>The acknowledgement's effect: on every path but the last it changes at most the controls.\<close>

lemma acknowledge_cases:
  fixes db pid sid now
  defines "db' \<equiv> snd (acknowledge_completed_git_finalization_session pid sid now db)"
  obtains (none) "db' = db"
  | (late) "db' = db\<lparr>controls := sql_delete (late_resume pid sid) (controls db)\<rparr>"
  | (marked) g :: journal_row and at rid db1 db2 P where "acknowledging_run pid sid at (recovered_summary (g_commit_oid g)) db = (Inr rid, db1)"
      "db2 = (if (case max_run_id (\<lambda>r. r_project r = pid) db1 of None \<Rightarrow> 0 | Some i \<Rightarrow> i) = rid
              then update_project_after_run (recovered_outcome pid sid at (recovered_summary (g_commit_oid g))) db1
              else db1)"
      "db' = db2\<lparr>journals := sql_update (\<lambda>g. journal_at pid sid g \<and> g_state g = Completed \<and> g_acknowledged_at g = None)
            (ack_row now rid) (journals db2), controls := sql_delete P (controls db2)\<rparr>"
proof -
  let ?sel = "sql_select (\<lambda>g. journal_at pid sid g \<and> g_state g = Completed) (journals db)"
  note d = db'_def acknowledge_completed_git_finalization_session_def Let_def
  consider "?sel = None" | g where "?sel = Some g" "g_completed_at g = None"
    | g at where "?sel = Some g" "g_completed_at g = Some at" "g_acknowledged_at g \<noteq> None"
    | g at where "?sel = Some g" "g_completed_at g = Some at" "g_acknowledged_at g = None"
    by (metis not_None_eq)
  then show thesis
  proof cases
    case 1
    then show thesis using none unfolding d by simp
  next
    case 2
    then show thesis using none unfolding d by simp
  next
    case 3
    then show thesis using late unfolding d by simp
  next
    case g: (4 g at)
    obtain r db1 where run: "acknowledging_run pid sid at (recovered_summary (g_commit_oid g)) db = (r, db1)" by fastforce
    show thesis
    proof (cases r)
      case (Inl e)
      then show thesis using none g run
        unfolding d by simp
    next
      case (Inr rid)
      define db2 where "db2 = (if (case max_run_id (\<lambda>r. r_project r = pid) db1 of None \<Rightarrow> 0 | Some i \<Rightarrow> i) = rid
         then update_project_after_run (recovered_outcome pid sid at (recovered_summary (g_commit_oid g))) db1
         else db1)"
      let ?um = "\<lambda>g. journal_at pid sid g \<and> g_state g = Completed \<and> g_acknowledged_at g = None"
      let ?js = "sql_update ?um (ack_row now rid) (journals db2)"
      have "db' = (if sql_count ?um (journals db2) \<noteq> 1 then db
         else db2\<lparr>journals := ?js, controls := sql_delete (\<lambda>sc. late_resume pid sid sc
              \<and> sql_exists (\<lambda>g. journal_at pid sid g \<and> g_state g = Completed) ?js) (controls db2)\<rparr>)"
        unfolding d by (simp add: g run Inr db2_def [symmetric] ack_row_def [abs_def])
      with none marked [OF run [unfolded Inr] db2_def] show thesis by (simp split: if_splits)
    qed
  qed
qed

lemma acknowledge_side: "side_ok db (snd (acknowledge_completed_git_finalization_session pid sid now db))"
proof (cases rule: acknowledge_cases [where pid = pid and sid = sid and now = now and db = db])
  case none
  then show ?thesis by (simp add: side_ok_refl)
next
  case late
  then show ?thesis by (auto intro!: side_ok_same unique_on_delete)
next
  case (marked g at rid db1 db2 P)
  note frame = acknowledging_run_frame [OF marked(1)]
  have "journals db2 = journals db" "controls db2 = controls db" "launches db2 = launches db"
    "session_modes db2 = session_modes db" "map project_key (projects db2) = map project_key (projects db)"
    using frame by (simp_all add: marked(2) del: map_eq_conv)
  then show ?thesis unfolding marked(3)
    by (intro side_ok_update [where f = "ack_row now rid"]) (simp_all add: unique_on_delete del: map_eq_conv)
qed

lemmas git_sides = create_side enable_side recover_unmanaged_side launch_sides compare_and_set_side
  cancel_orphaned_side retire_abandoned_side retire_superseded_side cancel_idle_side begin_recovery_side
  finish_recovery_side acknowledge_side

section \<open>The worker invariant under the Git transactions\<close>

lemma core_unchanged:
  "core (snd (create_git_finalization f db)) = core db"
  "core (snd (enable_session_git f h now db)) = core db"
  "core (snd (recover_unmanaged_session_git_mode pid sid p db)) = core db"
  "core (snd (record_git_launch_state pid t m s at db)) = core db"
  "core (snd (reclaim_unchanged_git_launch_state pid t m s db)) = core db"
  "core (snd (delete_git_launch_state pid t db)) = core db"
  by (simp_all add: core_def create_git_finalization_def enable_session_git_def
      recover_unmanaged_session_git_mode_def record_git_launch_state_def
      reclaim_unchanged_git_launch_state_def delete_git_launch_state_def Let_def split: option.split)

lemma core_compare_and_set: "core (snd (compare_and_set_git_finalization q db)) = core db"
  by (simp add: compare_and_set_git_finalization_def core_def Let_def split: option.split)

lemma core_cancelled:
  "core (snd (cancel_orphaned_working_git_finalization g h r at now db)) = core db"
  "core (snd (retire_abandoned_unbound_git_finalization pid sid gen c r at db)) = core db"
  "core (snd (retire_superseded_working_git_finalization g c' at db)) = core db"
  by (simp_all add: cancel_orphaned_working_git_finalization_def retire_abandoned_unbound_git_finalization_def
      retire_superseded_working_git_finalization_def core_def Let_def del: map_eq_conv split: option.split)

lemma core_finish: "core (snd (finish_missing_git_recovery pid h now db)) = core db"
  by (simp add: finish_missing_git_recovery_def core_def Let_def map_sql_update project_key_def)

lemmas git_cores = core_unchanged core_compare_and_set core_cancelled core_finish

lemma registry_inv_core_db:
  "core db' = core db \<Longrightarrow> registry_inv db \<Longrightarrow> registry_inv db'"
  using registry_inv_core by blast

lemma fence_project_inv:
  assumes "registry_inv db" "fence_project_for_cancellation pid sid gen i h a e db = (r, db')"
  shows "registry_inv db'"
proof -
  let ?db1 = "db\<lparr>leases := sql_delete (\<lambda>l. l_project l = pid \<and> cast_le (l_expires_at l) a) (leases db)\<rparr>"
  have "registry_inv ?db1" using assms(1) by (rule registry_inv_delete_lease)
  then show ?thesis using assms
    by (auto simp: fence_project_for_cancellation_def Let_def split: if_splits prod.splits sum.splits
        dest: insert_lease_inv_split [rotated])
qed

lemma cancel_idle_inv:
  assumes "registry_inv db"
  shows "registry_inv (snd (cancel_idle_working_git_finalization pid sid gen i h a e c db))"
proof -
  let ?first = "if c = Deletion \<and> can_delete_idle_task db pid sid gen i a then (Inr True, db)
     else fence_project_for_cancellation pid sid gen i h a e db"
  obtain r db1 where first: "?first = (r, db1)" by fastforce
  then have inv: "registry_inv db1" using assms by (auto split: if_splits dest: fence_project_inv)
  have cf: "core (clear_cancelled_attempt_failure pid sid a db1) = core db1"
    by (simp add: core_def del: map_eq_conv)
  have cd: "core (stop_control p s t at d) = core d" "core (d\<lparr>journals := x\<rparr>) = core d"
    "core (d\<lparr>controls := y\<rparr>) = core d" for p s t at d x y
    by (simp_all add: core_def)
  show ?thesis
  proof (cases "r = Inr True")
    case True
    have core: "registry_inv d" if "core d = core db1" for d using registry_inv_core_db [OF that inv] .
    show ?thesis using True assms
      unfolding cancel_idle_working_git_finalization_def Let_def first by (simp add: core cf cd)
  next
    case False
    then show ?thesis using inv assms
      unfolding cancel_idle_working_git_finalization_def Let_def first by (auto split: sum.split bool.split)
  qed
qed

lemma begin_recovery_inv:
  assumes "registry_inv db"
  shows "registry_inv (snd (begin_missing_git_recovery q db))"
proof -
  let ?l = "\<lparr>l_project = rq_project q, l_holder = rq_holder q, l_acquired_at = rq_acquired_at q,
                                l_expires_at = rq_expires_at q\<rparr>"
  let ?db1 = "if retires_journal q
     then db\<lparr>journals := sql_update (journal_at (rq_project q) (rq_session q))
            (cancel_row (Some (recovery_reason q)) (rq_acquired_at q)) (journals db)\<rparr> else db"
  obtain r db2 where ins: "insert_lease ?l ?db1 = (r, db2)" by fastforce
  have "core ?db1 = core db" by (simp add: core_def)
  then have "registry_inv ?db1" using assms by (rule registry_inv_core_db)
  then have inv: "registry_inv db2" using ins by (rule insert_lease_inv_split)
  have "core (stop_control p s t at db2) = core db2" for p s t at by (simp add: core_def)
  then have "registry_inv (stop_control p s t at db2)" for p s t at using inv by (rule registry_inv_core_db)
  then show ?thesis using assms unfolding begin_missing_git_recovery_def Let_def ins
    by (auto split: option.split sum.split bool.split)
qed

text \<open>A recovered run has no worker.\<close>

lemma registry_inv_insert_run:
  assumes inv: "registry_inv db" and run: "r_worker_token r = None" "r_id r = next_rowid r_id (runs db)"
  shows "registry_inv (db\<lparr>runs := sql_insert r (runs db)\<rparr>)"
proof -
  note ok = runs_okD [OF registry_invD(5) [OF inv]]
  let ?t = "sql_insert r (runs db)"
  have old: "s \<in> set (runs db)" if "s \<in> set ?t" "r_worker_token s \<noteq> None" for s using that run(1) by auto
  have "runs_ok (db\<lparr>runs := ?t\<rparr>)" unfolding runs_ok_def
  proof (intro conjI ballI allI impI)
    show "unique_on r_id (runs (db\<lparr>runs := ?t\<rparr>))"
      using ok(1) next_rowid_fresh [of _ "runs db" r_id] run(2) by (simp, intro unique_on_insert) force+
  next
    fix s u assume "s \<in> set (runs (db\<lparr>runs := ?t\<rparr>))" "u \<in> set (runs (db\<lparr>runs := ?t\<rparr>))"
      and "r_worker_token s \<noteq> None" "r_worker_token s = r_worker_token u"
    then show "s = u" by (intro ok(2)) (auto simp: run(1))
  next
    fix s t assume "s \<in> set (runs (db\<lparr>runs := ?t\<rparr>))" "r_worker_token s = Some t"
    then show "\<exists>w \<in> set (workers (db\<lparr>runs := ?t\<rparr>)). w_token w = t" using ok(3) [of s t] old [of s] by simp
  next
    fix w assume "w \<in> set (workers (db\<lparr>runs := ?t\<rparr>))"
    then show "if worker_active (w_state w) then no_run (runs (db\<lparr>runs := ?t\<rparr>)) (w_token w)
        else run_recorded (runs (db\<lparr>runs := ?t\<rparr>)) w"
      using ok(4,5) [of w] run(1) by (simp add: no_run_def run_recorded_def)
  qed
  then show ?thesis using inv by (simp add: registry_inv_defs)
qed

lemma acknowledge_inv:
  assumes "registry_inv db"
  shows "registry_inv (snd (acknowledge_completed_git_finalization_session pid sid now db))"
proof (cases rule: acknowledge_cases [where pid = pid and sid = sid and now = now and db = db])
  case none
  with assms show ?thesis by simp
next
  case late
  with assms show ?thesis by (simp add: registry_inv_controls)
next
  case (marked g at rid db1 db2 P)
  have inv: "registry_inv db1"
    using marked(1) assms
    by (auto simp: acknowledging_run_def Let_def recovered_run_def split: option.splits if_splits
        intro!: registry_inv_insert_run)
  have "core db2 = core db1" by (simp add: core_def marked(2) del: map_eq_conv)
  then have "core (db2\<lparr>journals := x, controls := y\<rparr>) = core db1" for x y by (simp add: core_def)
  then show ?thesis unfolding marked(3) using inv by (rule registry_inv_core_db)
qed

section \<open>Both repositories as one transition system\<close>

inductive git_step :: "registry \<Rightarrow> registry \<Rightarrow> bool" where
  git_create: "git_step db (snd (create_git_finalization f db))"
| git_enable: "git_step db (snd (enable_session_git f h now db))"
| git_unmanaged: "git_step db (snd (recover_unmanaged_session_git_mode pid sid p db))"
| git_launch: "git_step db (snd (record_git_launch_state pid t m s at db))"
| git_reclaim: "git_step db (snd (reclaim_unchanged_git_launch_state pid t m s db))"
| git_delete_launch: "git_step db (snd (delete_git_launch_state pid t db))"
| git_compare_and_set: "git_step db (snd (compare_and_set_git_finalization q db))"
| git_acknowledge: "git_step db (snd (acknowledge_completed_git_finalization_session pid sid now db))"
| git_cancel_orphaned: "git_step db (snd (cancel_orphaned_working_git_finalization g h r at now db))"
| git_retire_abandoned: "git_step db (snd (retire_abandoned_unbound_git_finalization pid sid gen c r at db))"
| git_retire_superseded: "git_step db (snd (retire_superseded_working_git_finalization g c' at db))"
| git_cancel_idle: "git_step db (snd (cancel_idle_working_git_finalization pid sid gen i h a e k db))"
| git_begin_recovery: "git_step db (snd (begin_missing_git_recovery rq db))"
| git_finish_recovery: "git_step db (snd (finish_missing_git_recovery pid h now db))"

inductive_cases git_stepE: "git_step db db'"

definition store_step :: "registry \<Rightarrow> registry \<Rightarrow> bool" where
  "store_step db db' \<longleftrightarrow> registry_step db db' \<or> git_step db db'"

definition store_init :: "registry \<Rightarrow> bool" where
  "store_init db \<longleftrightarrow> registry_init db \<and> controls db = [] \<and> journals db = [] \<and> launches db = []
     \<and> session_modes db = []"

lemma git_step_side: "git_step db db' \<Longrightarrow> side_ok db db'"
  by (induction rule: git_step.induct) (rule git_sides)+

lemma git_step_move: "git_step db db' \<Longrightarrow> journals_wf (journals db) \<Longrightarrow> journal_move (journals db) (journals db')"
  by (induction rule: git_step.induct) (rule journal_moves; assumption?)+

lemma git_step_inv: "git_step db db' \<Longrightarrow> registry_inv db \<Longrightarrow> registry_inv db'"
  by (induction rule: git_step.induct)
    (auto intro: registry_inv_core_db [OF git_cores(1)] registry_inv_core_db [OF git_cores(2)]
      registry_inv_core_db [OF git_cores(3)] registry_inv_core_db [OF git_cores(4)]
      registry_inv_core_db [OF git_cores(5)] registry_inv_core_db [OF git_cores(6)]
      registry_inv_core_db [OF git_cores(7)] registry_inv_core_db [OF git_cores(8)]
      registry_inv_core_db [OF git_cores(9)] registry_inv_core_db [OF git_cores(10)]
      registry_inv_core_db [OF git_cores(11)] cancel_idle_inv begin_recovery_inv acknowledge_inv)

section \<open>The invariant system of the store\<close>

text \<open>The worker and lease transactions leave the journals, launch boundaries and modes alone,
  and write controls only to repair a fence.\<close>

definition git_tables where
  "git_tables db = (map project_key (projects db), journals db, launches db, session_modes db, map control_key (controls db))"

lemma git_tables_simps [simp]:
  "git_tables (db\<lparr>leases := x\<rparr>) = git_tables db" "git_tables (db\<lparr>workers := w\<rparr>) = git_tables db"
  "git_tables (db\<lparr>runs := r\<rparr>) = git_tables db"
  "git_tables (update_project_after_run oc db) = git_tables db"
  by (simp_all add: git_tables_def del: map_eq_conv)

lemma git_tables_repair [simp]: "git_tables (repair_recovery_fences pid now db) = git_tables db"
  by (simp add: git_tables_def repair_recovery_fences_def Let_def map_sql_update control_keys)

lemma git_tables_insert_lease: "insert_lease l db = (r, db') \<Longrightarrow> git_tables db' = git_tables db"
  by (auto dest: insert_lease_frame simp: git_tables_def)

lemma git_tables_record_run: "record_worker_run oc t db = (r, db') \<Longrightarrow> git_tables db' = git_tables db"
  by (auto simp: record_worker_run_def Let_def split: if_splits option.splits)

lemma git_tables_acquire: "git_tables (snd (try_acquire_lease pid h a e db)) = git_tables db"
  unfolding try_acquire_lease_def Let_def
  using git_tables_insert_lease [OF prod.collapse [symmetric]] by (metis git_tables_simps(1))

lemma git_tables_acquire_git:
  "git_tables (snd (try_acquire_git_finalization_lease pid h a e rc db)) = git_tables db"
  unfolding try_acquire_git_finalization_lease_def Let_def
  by (auto split: prod.split sum.split dest!: git_tables_insert_lease)

lemma git_tables_reserve: "git_tables (snd (reserve_worker r c db)) = git_tables db"
  by (simp add: reserve_worker_def Let_def split: option.split prod.split)

lemma git_tables_renew_worker: "git_tables (snd (renew_worker t p hb e db)) = git_tables db"
  by (simp add: renew_worker_def Let_def split: option.split)

lemma git_tables_abandon: "git_tables (snd (abandon_worker a db)) = git_tables db"
  unfolding abandon_worker_def Let_def
  by (auto split: option.split prod.split sum.split dest!: git_tables_record_run)

lemma git_tables_finalize: "git_tables (snd (finalize_worker f db)) = git_tables db"
  unfolding finalize_worker_def Let_def
  by (auto split: option.split prod.split sum.split dest!: git_tables_record_run)

lemma git_tables_small:
  "git_tables (snd (renew_git_finalization_lease pid h e db)) = git_tables db"
  "git_tables (snd (renew_lease pid h e db)) = git_tables db"
  "git_tables (snd (release_lease pid h db)) = git_tables db"
  "git_tables (snd (claim_worker t p s db)) = git_tables db"
  "git_tables (snd (supersede_abandoned_workers_for_lease pid h db)) = git_tables db"
  "git_tables (snd (mark_worker_service_cleaned t at db)) = git_tables db"
  by (simp_all add: renew_git_finalization_lease_def renew_lease_def release_lease_def claim_worker_def
      supersede_abandoned_workers_for_lease_def mark_worker_service_cleaned_def Let_def)

lemmas git_tables_frames = git_tables_acquire git_tables_acquire_git git_tables_reserve git_tables_renew_worker
  git_tables_abandon git_tables_finalize git_tables_small

lemma registry_step_tables: "registry_step db db' \<Longrightarrow> git_tables db' = git_tables db"
  by (induction rule: registry_step.induct) (rule git_tables_frames)+

lemma registry_step_side: "registry_step db db' \<Longrightarrow> side_ok db db'"
  using registry_step_tables [of db db']
  by (intro side_ok_same) (simp_all add: git_tables_def unique_on_def del: map_eq_conv)

lemma registry_step_journals: "registry_step db db' \<Longrightarrow> journals db' = journals db"
  using registry_step_tables [of db db'] by (simp add: git_tables_def)

lemma store_step_move:
  "store_step db db' \<Longrightarrow> journals_wf (journals db) \<Longrightarrow> journal_move (journals db) (journals db')"
  by (auto simp: store_step_def registry_step_journals intro: move_plain [OF move_keep] git_step_move)

lemma store_step_registry_inv: "store_step db db' \<Longrightarrow> registry_inv db \<Longrightarrow> registry_inv db'"
  unfolding store_step_def using git_step_inv reg.step_inv by blast

interpretation store: invariant_system store_init store_step store_inv
proof unfold_locales
  show "store_init db \<Longrightarrow> store_inv db" for db
    using reg.init_inv [of db] by (simp add: store_init_def store_inv_def journals_wf_def one_finalizing_def)
  show "store_inv db'" if "store_inv db" "store_step db db'" for db db'
  proof (rule store_invI [OF that(1)])
    show "registry_inv db'" using that store_invD(1) store_step_registry_inv by blast
    show "side_ok db db'" using that(2) unfolding store_step_def by (auto intro: registry_step_side git_step_side)
    show "journal_move (journals db) (journals db')" using that store_invD(2) store_step_move by blast
  qed
qed

end
