(* ===== verification/Journal_Theorems.thy ===== *)
theory Journal_Theorems
  imports Journal_Store Worker_Theorems
begin

text \<open>
  What the Git journals promise: every reachable registry is consistent, a journal only moves
  forward and is never lost, its updates are linear in the generation, it completes only
  through the configured step, its recovery fence stays in step with it, and its
  acknowledgement happens once.
\<close>

section \<open>The compare-and-set as a versioned cell\<close>

definition cas_attempt :: "cas_request \<Rightarrow> registry \<Rightarrow> bool \<times> registry" where
  "cas_attempt q db = (case compare_and_set_git_finalization q db of (r, db') \<Rightarrow> (r = Inr True, db'))"

definition cas_key :: "cas_request \<Rightarrow> int \<times> str" where
  "cas_key q = (cq_project q, cq_session q)"

text \<open>The generation of a session's journal, -1 where it has none.\<close>

definition journal_version :: "registry \<Rightarrow> int \<times> str \<Rightarrow> int" where
  "journal_version db k = (case git_finalization db (fst k) (snd k) of None \<Rightarrow> -1 | Some g \<Rightarrow> g_generation g)"

definition cas_mine :: "cas_request \<Rightarrow> journal_row \<Rightarrow> bool" where
  "cas_mine q g \<longleftrightarrow> journal_at (cq_project q) (cq_session q) g \<and> g_generation g = cq_expected_generation q"

text \<open>Every outcome of the compare-and-set on a consistent registry.\<close>

lemma compare_and_set_cases [consumes 1, case_names refused accepted]:
  assumes wf: "journals_wf (journals db)"
  obtains (refused) r where "compare_and_set_git_finalization q db = (r, db)" "r \<noteq> Inr True"
  | (accepted) g where "git_finalization db (cq_project q) (cq_session q) = Some g"
      "g_generation g = cq_expected_generation q" "cas_rejection g q = None" "\<not> finalizing_conflict db q"
      "cq_require_running_owner q \<Longrightarrow> \<exists>t. cq_owner_run_token q = Some t
         \<and> sql_count (running_owner (cq_project q) (cq_session q) t) (controls db) = 1"
      "cq_expected_generation q < i64_max"
      "compare_and_set_git_finalization q db = (Inr True,
         db\<lparr>journals := sql_update (cas_mine q) (cas_row q) (journals db), controls := advance_fence q (controls db)\<rparr>)"
proof -
  note d = compare_and_set_git_finalization_def Let_def
  show thesis
  proof (cases "git_finalization db (cq_project q) (cq_session q)")
    case None
    then show thesis using refused [of "Inr False"] unfolding d by simp
  next
    case (Some g)
    note g = git_finalization_Some [OF Some]
    have mine: "(\<lambda>g. journal_at (cq_project q) (cq_session q) g \<and> g_generation g = cq_expected_generation q) = cas_mine q"
      by (simp add: fun_eq_iff cas_mine_def)
    show thesis
    proof (cases "g_generation g = cq_expected_generation q")
      case False
      with Some show thesis using refused [of "Inr False"] unfolding d by simp
    next
      case True
      have "sql_count (cas_mine q) (journals db) \<le> 1"
        using wf by (intro unique_on_count [of journal_key _ _ "(cq_project q, cq_session q)"])
          (auto simp: journals_wf_def cas_mine_def journal_at_key)
      moreover have "0 < sql_count (cas_mine q) (journals db)"
        using g True by (auto simp: sql_count_pos cas_mine_def)
      ultimately have one: "sql_count (cas_mine q) (journals db) = 1" by simp
      show thesis
      proof (cases "cas_rejection g q = None \<and> \<not> finalizing_conflict db q \<and> cq_expected_generation q < i64_max
          \<and> (cq_require_running_owner q \<longrightarrow> (\<exists>t. cq_owner_run_token q = Some t
             \<and> sql_count (running_owner (cq_project q) (cq_session q) t) (controls db) = 1))")
        case ok: True
        have "compare_and_set_git_finalization q db = (Inr True,
         db\<lparr>journals := sql_update (cas_mine q) (cas_row q) (journals db), controls := advance_fence q (controls db)\<rparr>)"
          unfolding d mine using Some True ok one by (cases "cq_require_running_owner q") auto
        then show thesis using accepted Some True ok by blast
      next
        case False
        have "\<exists>r. compare_and_set_git_finalization q db = (r, db) \<and> r \<noteq> Inr True"
          unfolding d mine using Some True False one
          by (cases "cq_owner_run_token q") (auto split: option.split)
        then show thesis using refused by blast
      qed
    qed
  qed
qed

lemma compare_and_set_accepts:
  assumes wf: "journals_wf (journals db)" and "git_finalization db (cq_project q) (cq_session q) = Some g"
    "g_generation g = cq_expected_generation q" "cas_rejection g q = None" "\<not> finalizing_conflict db q"
    "cq_require_running_owner q \<Longrightarrow> \<exists>t. cq_owner_run_token q = Some t
       \<and> sql_count (running_owner (cq_project q) (cq_session q) t) (controls db) = 1"
    "cq_expected_generation q < i64_max"
  shows "fst (compare_and_set_git_finalization q db) = Inr True"
proof -
  let ?mine = "\<lambda>g. journal_at (cq_project q) (cq_session q) g \<and> g_generation g = cq_expected_generation q"
  have "sql_count ?mine (journals db) \<le> 1"
    using wf by (intro unique_on_count [of journal_key _ _ "(cq_project q, cq_session q)"])
      (auto simp: journals_wf_def journal_at_key)
  moreover have "0 < sql_count ?mine (journals db)"
    using git_finalization_Some [OF assms(2)] assms(3) by (auto simp: sql_count_pos)
  ultimately have "sql_count ?mine (journals db) = 1" by simp
  then show ?thesis unfolding compare_and_set_git_finalization_def Let_def
    using assms(2-7) by (cases "cq_require_running_owner q") auto
qed

lemma cas_wf: "journals_wf (journals db) \<Longrightarrow> journals_wf (journals (snd (cas_attempt q db)))"
  using compare_and_set_move [of db q] plain_move_wf by (auto simp: cas_attempt_def split: prod.split)

lemma git_finalization_iff:
  assumes "journals_wf (journals db)"
  shows "git_finalization db pid sid = Some g \<longleftrightarrow> g \<in> set (journals db) \<and> journal_key g = (pid, sid)"
proof
  assume "git_finalization db pid sid = Some g"
  then show "g \<in> set (journals db) \<and> journal_key g = (pid, sid)" using git_finalization_Some journal_at_key by blast
next
  assume "g \<in> set (journals db) \<and> journal_key g = (pid, sid)"
  with assms show "git_finalization db pid sid = Some g" unfolding git_finalization_def
    by (intro unique_on_select [where key = journal_key]) (auto simp: journals_wf_def journal_at_key)
qed

lemma git_finalization_update:
  assumes wf: "journals_wf (journals db)" "journals_wf (sql_update P f (journals db))"
    and key: "\<And>g. journal_key (f g) = journal_key g"
  shows "git_finalization (db\<lparr>journals := sql_update P f (journals db), controls := c\<rparr>) pid sid =
    map_option (\<lambda>g. if P g then f g else g) (git_finalization db pid sid)"
proof (cases "git_finalization db pid sid")
  case None
  then have "\<forall>h \<in> set (journals db). \<not> journal_at pid sid h" by (simp add: git_finalization_def sql_select_None)
  then have "\<forall>h \<in> set (sql_update P f (journals db)). \<not> journal_at pid sid h"
    using key by (intro sql_update_ball) (simp_all add: journal_at_key)
  then have "sql_select (journal_at pid sid) (sql_update P f (journals db)) = None" by (simp add: sql_select_None)
  then show ?thesis using None by (simp add: git_finalization_def)
next
  case (Some g)
  then have "g \<in> set (journals db)" "journal_key g = (pid, sid)" using git_finalization_iff [OF wf(1)] by auto
  then have "(if P g then f g else g) \<in> set (sql_update P f (journals db))"
    "journal_key (if P g then f g else g) = (pid, sid)" using key by (blast intro: sql_update_mem, simp)
  moreover have "journals_wf (journals (db\<lparr>journals := sql_update P f (journals db), controls := c\<rparr>))"
    using wf(2) by simp
  ultimately have "git_finalization (db\<lparr>journals := sql_update P f (journals db), controls := c\<rparr>) pid sid =
      Some (if P g then f g else g)" by (subst git_finalization_iff) simp_all
  then show ?thesis using Some by simp
qed

lemma journal_version_accepted:
  assumes wf: "journals_wf (journals db)" and acc: "cas_attempt q db = (True, db')"
  shows "cq_expected_generation q = journal_version db (cas_key q)
    \<and> journal_version db' (cas_key q) = journal_version db (cas_key q) + 1
    \<and> (\<forall>k. k \<noteq> cas_key q \<longrightarrow> journal_version db' k = journal_version db k)"
  using wf
proof (cases rule: compare_and_set_cases [where q = q])
  case (refused r)
  with acc show ?thesis by (simp add: cas_attempt_def)
next
  case (accepted g)
  have db': "db' = db\<lparr>journals := sql_update (cas_mine q) (cas_row q) (journals db), controls := advance_fence q (controls db)\<rparr>"
    using acc accepted(7) by (simp add: cas_attempt_def)
  have wf': "journals_wf (sql_update (cas_mine q) (cas_row q) (journals db))"
    using cas_wf [OF wf, of q] acc db' by simp
  have sel: "git_finalization db' pid sid = map_option (\<lambda>g. if cas_mine q g then cas_row q g else g)
      (git_finalization db pid sid)" for pid sid
    unfolding db' by (rule git_finalization_update [OF wf wf']) simp
  have other: "journal_version db' k = journal_version db k" if "k \<noteq> cas_key q" for k
  proof -
    have "\<not> cas_mine q h" if "git_finalization db (fst k) (snd k) = Some h" for h
      using git_finalization_Some [OF that] \<open>k \<noteq> cas_key q\<close> by (cases k) (auto simp: cas_mine_def journal_at_def cas_key_def)
    then show ?thesis by (simp add: journal_version_def sel split: option.split)
  qed
  have "cas_mine q g" using accepted(1,2) git_finalization_Some by (simp add: cas_mine_def)
  then show ?thesis using other accepted(1,2) by (simp add: journal_version_def cas_key_def sel cas_row_fields(3))
qed

lemma cas_refused: "journals_wf (journals db) \<Longrightarrow> cas_attempt q db = (False, db') \<Longrightarrow> db' = db"
  by (erule compare_and_set_cases [where q = q]) (auto simp: cas_attempt_def)

interpretation cas: versioned_cells cas_attempt cas_key cq_expected_generation journal_version
  "\<lambda>db. journals_wf (journals db)"
proof unfold_locales
  fix db :: registry and q k assume wf: "journals_wf (journals db)"
  show "journals_wf (journals (snd (cas_attempt q db)))" using wf by (rule cas_wf)
  show "cq_expected_generation q = journal_version db (cas_key q)
      \<and> journal_version db' (cas_key q) = journal_version db (cas_key q) + 1"
    if "cas_attempt q db = (True, db')" for db' using journal_version_accepted [OF wf that] by simp
  show "journal_version db' = journal_version db" if "cas_attempt q db = (False, db')" for db'
    using cas_refused [OF wf that] by simp
  show "journal_version (snd (cas_attempt q db)) k = journal_version db k" if "k \<noteq> cas_key q"
    using journal_version_accepted [OF wf, of q] cas_refused [OF wf, of q] that
    by (cases "cas_attempt q db"; cases "fst (cas_attempt q db)"; cases k) auto
qed

section \<open>Steps that complete a journal\<close>

lemma plain_move_completes:
  assumes "plain_move t u" "journals_wf t" "g \<in> set t" "h \<in> set u" "journal_key h = journal_key g"
    and new: "g_state h = Completed" "g_state g \<noteq> Completed"
  shows "g_state g = (if g_git_mode g = CommitAndPush then PushPending else CommitPending)
    \<and> g_task_identity h = g_task_identity g \<and> g_task_identity h \<noteq> None \<and> g_commit_oid h \<noteq> None"
  using assms(1)
proof (cases rule: plain_move.cases)
  case move_keep
  then show ?thesis using unique_on_eq [of journal_key t h g] assms by (auto simp: journals_wf_def)
next
  case (move_create f)
  then have "h \<in> set t" using assms(4) new(1) by (auto simp: new_journal_def)
  then show ?thesis using unique_on_eq [of journal_key t h g] assms by (auto simp: journals_wf_def)
next
  case (move_advance P q)
  obtain h0 where h0: "h0 \<in> set t" "h = (if P h0 then cas_row q h0 else h0)"
    using assms(4) move_advance(1) by (auto simp: sql_update_def)
  then have "h0 = g" using unique_on_eq [of journal_key t h0 g] assms(2,3,5)
    by (cases "P h0") (auto simp: journals_wf_def)
  with h0 new have h: "P g" "h = cas_row q g" by (auto split: if_splits)
  then have ok: "cas_rejection g q = None" "cq_next_state q = Completed"
    using move_advance(2) [OF assms(3)] new(1) by (simp_all add: cas_row_fields)
  note c = cas_rejection_None [OF ok(1)]
  have wf: "journal_wf g" using assms(2,3) by (simp add: journals_wf_def)
  have fin: "gfs_is_finalizing (g_state g)" using c(1) ok(2) completed_from_finalizing by simp
  then have "g_task_identity g \<noteq> None" using wf by (simp add: journal_wf_def)
  moreover have "g_git_mode g \<noteq> Off" using wf by (simp add: journal_wf_def)
  ultimately show ?thesis using c(6-8) ok(2) unfolding h(2) cas_row_fields
    by (cases "g_git_mode g") (auto simp: option_or_def split: option.splits)
next
  case (move_cancel P reason at)
  then obtain h0 where h0: "h0 \<in> set t" "h = (if P h0 then cancel_row reason at h0 else h0)"
    using assms(4) by (auto simp: sql_update_def)
  then have "h = h0" using new(1) by (auto simp: cancel_row_fields split: if_splits)
  then show ?thesis using unique_on_eq [of journal_key t h g] h0(1) assms by (auto simp: journals_wf_def)
qed

lemma journal_move_completes:
  assumes "journal_move t u" "journals_wf t" "g \<in> set t" "h \<in> set u" "journal_key h = journal_key g"
    and new: "g_state h = Completed" "g_state g \<noteq> Completed"
  shows "g_state g = (if g_git_mode g = CommitAndPush then PushPending else CommitPending)
    \<and> g_task_identity h = g_task_identity g \<and> g_task_identity h \<noteq> None \<and> g_commit_oid h \<noteq> None"
  using assms(1)
proof (cases rule: journal_move.cases)
  case move_plain
  then show ?thesis using plain_move_completes assms(2-7) by blast
next
  case (move_acknowledge P at rid)
  then obtain h0 where h0: "h0 \<in> set t" "h = (if P h0 then ack_row at rid h0 else h0)"
    using assms(4) by (auto simp: sql_update_def)
  then have "journal_key h0 = journal_key h" "g_state h0 = Completed"
    using new(1) move_acknowledge(2) [of h0] by (auto split: if_splits)
  then have "h0 = g" using unique_on_eq [of journal_key t h0 g] h0(1) assms(2,3,5) by (auto simp: journals_wf_def)
  with \<open>g_state h0 = Completed\<close> new(2) show ?thesis by simp
qed

section \<open>The recovery fence\<close>

lemma nonblocking_journal:
  assumes "\<And>g. journal_of sc g \<Longrightarrow> g \<in> set (journals db) \<longleftrightarrow> g \<in> set (journals db')"
  shows "nonblocking_control db' sc = nonblocking_control db sc"
  using assms unfolding nonblocking_control_def sql_exists_iff by blast

text \<open>An accepted update changes the control of its own session only if that is the journal's
  fence, and the fence follows the generation.\<close>

lemma accepted_fence_follows:
  assumes wf: "journals_wf (journals db)" and g: "git_finalization db (cq_project q) (cq_session q) = Some g"
    "g_generation g = cq_expected_generation q" "cas_rejection g q = None"
    and sc: "sc \<in> set (advance_fence q (controls db))"
    and ok: "\<And>sc. sc \<in> set (controls db) \<Longrightarrow> sc_project sc = pid \<Longrightarrow> nonblocking_control db sc"
    and pid: "sc_project sc = pid"
  shows "nonblocking_control (db\<lparr>journals := sql_update (cas_mine q) (cas_row q) (journals db), controls := c\<rparr>) sc"
proof -
  let ?db' = "db\<lparr>journals := sql_update (cas_mine q) (cas_row q) (journals db), controls := c\<rparr>"
  let ?fence = "resume_fence (cq_project q) (cq_session q) (cq_expected_generation q)"
  have mine: "cas_mine q g" "g \<in> set (journals db)"
    using git_finalization_Some [OF g(1)] g(2) by (simp_all add: cas_mine_def)
  have only: "cas_mine q h \<Longrightarrow> h \<in> set (journals db) \<Longrightarrow> h = g" for h
    using journal_unique [OF wf g(1)] by (simp add: cas_mine_def)
  have open_g: "journal_open (g_state g)"
    using cas_rejection_None(1) [OF g(3)] by (cases "g_state g") (simp_all add: journal_open_def)
  have "cas_row q g \<in> set (journals ?db')" using sql_update_mem [OF mine(2), of "cas_mine q" "cas_row q"] mine(1) by simp
  note row = this
  show ?thesis
  proof (cases "journal_of sc g")
    case False
    have "h \<in> set (journals db) \<longleftrightarrow> h \<in> set (journals ?db')" if "journal_of sc h" for h
    proof -
      have "\<not> cas_mine q h" using that False mine(1) by (auto simp: cas_mine_def journal_of_def journal_at_def)
      moreover have "h \<noteq> cas_row q k" if "cas_mine q k" for k
        using \<open>journal_of sc h\<close> False that mine(1)
        by (auto simp: cas_mine_def journal_of_def journal_at_def cas_row_def)
      ultimately show ?thesis by (auto simp: sql_update_def)
    qed
    then have "nonblocking_control ?db' sc = nonblocking_control db sc" by (rule nonblocking_journal)
    moreover have "\<not> ?fence s" if "s \<in> set (controls db)" "sc_project s = sc_project sc" "sc_session s = sc_session sc" for s
      using that False mine(1) by (auto simp: resume_fence_def control_at_def cas_mine_def journal_of_def journal_at_def)
    then have "sc \<in> set (controls db)"
      using sc by (auto simp: advance_fence_def Let_def sql_update_def split: if_splits)
    ultimately show ?thesis using ok pid by blast
  next
    case True
    have old: "nonblocking_control db s \<Longrightarrow> sc_project s = sc_project sc \<Longrightarrow> sc_session s = sc_session sc \<Longrightarrow>
        sc_state s = Stopped \<or> ?fence s" for s
    proof -
      assume nb: "nonblocking_control db s" and eq: "sc_project s = sc_project sc" "sc_session s = sc_session sc"
      have js: "journal_of s g" using True eq by (simp add: journal_of_def)
      have key: "journal_of s h \<Longrightarrow> h \<in> set (journals db) \<Longrightarrow> h = g" for h
        using journal_unique [OF wf g(1), of h] mine(1) js
        by (auto simp: journal_of_def journal_at_def cas_mine_def)
      have nt: "g_state g \<notin> {Completed, Cancelled}" using open_g by (auto simp: journal_open_def)
      have at: "control_at (cq_project q) (cq_session q) s"
        using js mine(1) by (simp add: control_at_def journal_of_def cas_mine_def journal_at_def)
      from nb consider "sc_state s = Stopped"
        | h where "sc_state s = ResumeRequested" "unattended s" "h \<in> set (journals db)" "journal_of s h"
            "sc_run_token s = Some (recovery_token (g_generation h))"
        | "\<not> (\<exists>h \<in> set (journals db). journal_of s h \<and> g_state h \<notin> {Completed, Cancelled})"
        unfolding nonblocking_control_def sql_exists_iff unattended_def recovery_token_def by blast
      then show "sc_state s = Stopped \<or> ?fence s"
      proof cases
        case (2 h)
        with key have "h = g" by blast
        with 2 at g(2) show ?thesis by (simp add: resume_fence_def)
      next
        case 3
        with js nt mine(2) show ?thesis by blast
      qed simp
    qed
    show ?thesis
    proof (cases "gfs_is_terminal (cq_next_state q)")
      case True
      then have "sc \<in> set (controls db)" "\<not> ?fence sc" using sc by (auto simp: advance_fence_def Let_def)
      with old [of sc] ok pid have "sc_state sc = Stopped" by blast
      then show ?thesis by (simp add: nonblocking_control_def)
    next
      case False
      then obtain s where s: "s \<in> set (controls db)"
        "sc = (if ?fence s then s\<lparr>sc_run_token := Some (recovery_token (cq_expected_generation q + 1)),
                         sc_updated_at := cq_updated_at q\<rparr> else s)"
        using sc by (auto simp: advance_fence_def Let_def sql_update_def)
      then have eq: "sc_project s = sc_project sc" "sc_session s = sc_session sc" by auto
      show ?thesis
      proof (cases "?fence s")
        case fence: True
        have "journal_of sc (cas_row q g)" using \<open>journal_of sc g\<close> by (simp add: journal_of_def cas_row_def)
        moreover have "journal_open (g_state (cas_row q g))"
          using False by (cases "cq_next_state q") (simp_all add: cas_row_fields journal_open_def gfs_is_terminal_def)
        moreover have "sc_run_token sc = Some (git_finalization_token_prefix @ show_int (g_generation (cas_row q g)))"
          using s(2) fence g(2) by (simp add: recovery_token_def cas_row_fields)
        ultimately show ?thesis using row fence s(2)
          by (auto simp: nonblocking_control_def sql_exists_iff resume_fence_def unattended_def)
      next
        case nofence: False
        then have "sc = s" using s(2) by simp
        with old [of s] ok s(1) pid nofence have "sc_state sc = Stopped" by blast
        then show ?thesis by (simp add: nonblocking_control_def)
      qed
    qed
  qed
qed

lemma compare_and_set_keeps_fences:
  assumes wf: "journals_wf (journals db)" and ok: "controls_allow_finalization db pid"
  shows "controls_allow_finalization (snd (compare_and_set_git_finalization q db)) pid"
  using wf
proof (cases rule: compare_and_set_cases [where q = q])
  case (refused r)
  with ok show ?thesis by simp
next
  case (accepted g)
  have "nonblocking_control db sc" if "sc \<in> set (controls db)" "sc_project sc = pid" for sc
    using ok that by (auto simp: controls_allow_finalization_def sql_exists_iff)
  from accepted_fence_follows [OF wf accepted(1-3) _ this] show ?thesis
    unfolding accepted(7) by (auto simp: controls_allow_finalization_def sql_exists_iff)
qed

section \<open>Acknowledgement\<close>

lemma acknowledged_stays:
  assumes wf: "journals_wf (journals db)" and g: "git_finalization db pid sid = Some g" "g_acknowledged_at g \<noteq> None"
  shows "acknowledge_completed_git_finalization_session pid sid now db =
    (Inr True, db\<lparr>controls := sql_delete (late_resume pid sid) (controls db)\<rparr>)"
proof -
  have mem: "g \<in> set (journals db)" "journal_key g = (pid, sid)" using g(1) git_finalization_iff [OF wf] by auto
  then have "journal_wf g" using wf by (simp add: journals_wf_def)
  then have st: "g_state g = Completed" "g_completed_at g \<noteq> None"
    using g(2) by (auto simp: journal_wf_def gfs_is_terminal_def)
  have "sql_select (\<lambda>g. journal_at pid sid g \<and> g_state g = Completed) (journals db) = Some g"
    using wf mem st(1) by (intro unique_on_select [where key = journal_key]) (auto simp: journals_wf_def journal_at_key)
  then show ?thesis using g(2) st(2)
    by (auto simp: acknowledge_completed_git_finalization_session_def)
qed

lemma acknowledge_marks:
  assumes wf: "journals_wf (journals db)"
    and ack: "acknowledge_completed_git_finalization_session pid sid now db = (Inr True, db')"
  shows "\<exists>g. git_finalization db' pid sid = Some g \<and> g_acknowledged_at g \<noteq> None \<and> g_state g = Completed"
proof -
  let ?done = "\<lambda>g. journal_at pid sid g \<and> g_state g = Completed"
  have mv: "journals_wf (journals db')" using acknowledge_move [of db pid sid now] wf ack journal_move_wf by simp
  obtain g where g: "sql_select ?done (journals db) = Some g"
    using ack by (cases "sql_select ?done (journals db)") (auto simp: acknowledge_completed_git_finalization_session_def)
  then have mem: "g \<in> set (journals db)" "journal_key g = (pid, sid)" "g_state g = Completed"
    using sql_select_Some [OF g] by (auto simp: journal_at_key)
  have "\<exists>h \<in> set (journals db'). journal_key h = (pid, sid) \<and> g_acknowledged_at h \<noteq> None \<and> g_state h = Completed"
  proof (cases "g_acknowledged_at g")
    case (Some t)
    then have "db' = db\<lparr>controls := sql_delete (late_resume pid sid) (controls db)\<rparr>"
      using acknowledged_stays [OF wf, of pid sid g now] ack mem git_finalization_iff [OF wf, of pid sid g] by simp
    then show ?thesis using mem Some by auto
  next
    case None
    let ?um = "\<lambda>g. journal_at pid sid g \<and> g_state g = Completed \<and> g_acknowledged_at g = None"
    obtain rid where js: "journals db' = sql_update ?um (ack_row now rid) (journals db)"
      using ack g None unfolding acknowledge_completed_git_finalization_session_def Let_def ack_row_def [abs_def]
      by (auto split: option.splits prod.splits sum.splits if_splits dest!: acknowledging_run_frame)
    have "?um g" using mem None by (simp add: journal_at_key)
    then have "ack_row now rid g \<in> set (journals db')"
      using sql_update_mem [OF mem(1), of ?um "ack_row now rid"] js by simp
    then show ?thesis using mem by (intro bexI [of _ "ack_row now rid g"]) (auto simp: ack_row_def journal_key_def)
  qed
  then show ?thesis using git_finalization_iff [OF mv] by blast
qed

end
