(* ===== verification/Sessions_Runs.thy ===== *)
theory Sessions_Runs
  imports Git_Journals
begin

text \<open>
  The repository of Codex session controls, runs and daemon check-ins
  (\<^verbatim>\<open>src/src/agent/repositories/sessions_runs.rs\<close>) and the dispositions of interactive guardians
  (\<^verbatim>\<open>src/src/session_control.rs\<close>).  A session control is the row through which the scheduler, the
  worker, the terminal interface and the interactive guardian hand one Codex session to each
  other.  The clock readings of a transaction are its arguments \<open>now\<close> (\<^verbatim>\<open>agent_timestamp\<close>) and
  \<open>expires\<close> (\<^verbatim>\<open>agent_timestamp_after\<close>).
\<close>

section \<open>Interactive guardians\<close>

datatype InteractiveCodexResumeMode = ResumeExecMode | WritableIdle | WritableShared

datatype InteractiveGuardianDisposition =
  ResumeExec | PreserveIdleSession | RestoreStopped | PreserveSharedSession | RestoreStoppedShared

definition is_stopped_shared_interactive_holder :: "str \<Rightarrow> bool" where
  "is_stopped_shared_interactive_holder h \<longleftrightarrow> starts_with h (lit ''clt-stopped-shared-interactive-'')
     \<or> starts_with h (lit ''clt-stopped-readonly-interactive-'')"

definition from_handoff :: "InteractiveCodexResumeMode \<Rightarrow> str \<Rightarrow> InteractiveGuardianDisposition" where
  "from_handoff mode from_holder =
     (if mode = ResumeExecMode then ResumeExec
      else if mode = WritableShared then
        (if is_stopped_shared_interactive_holder from_holder then RestoreStoppedShared
         else PreserveSharedSession)
      else if starts_with from_holder (lit ''clt-stopped-interactive-'') then RestoreStopped
      else PreserveIdleSession)"

definition holds_project_lease :: "InteractiveGuardianDisposition \<Rightarrow> bool" where
  "holds_project_lease d \<longleftrightarrow> d \<notin> {PreserveSharedSession, RestoreStoppedShared}"

fun guardian_holder_prefix :: "InteractiveGuardianDisposition \<Rightarrow> str" where
  "guardian_holder_prefix ResumeExec = lit ''clt-interactive-worker''"
| "guardian_holder_prefix PreserveIdleSession = lit ''clt-idle-interactive-worker''"
| "guardian_holder_prefix RestoreStopped = lit ''clt-stopped-interactive-worker''"
| "guardian_holder_prefix PreserveSharedSession = lit ''clt-shared-interactive-worker''"
| "guardian_holder_prefix RestoreStoppedShared = lit ''clt-stopped-shared-interactive-worker''"

definition from_guardian_holder :: "str \<Rightarrow> InteractiveGuardianDisposition option" where
  "from_guardian_holder h =
     (if starts_with h (lit ''clt-stopped-readonly-interactive-worker-'') then Some RestoreStoppedShared
      else if starts_with h (lit ''clt-readonly-interactive-worker-'') then Some PreserveSharedSession
      else find (\<lambda>d. starts_with h (guardian_holder_prefix d))
             [ResumeExec, PreserveIdleSession, RestoreStopped, PreserveSharedSession, RestoreStoppedShared])"

text \<open>The process id between the first two dashes after the prefix.\<close>

definition guardian_process_id :: "str \<Rightarrow> nat option" where
  "guardian_process_id h =
     Option.bind (from_guardian_holder h) (\<lambda>d.
     Option.bind (strip_prefix h (guardian_holder_prefix d)) (\<lambda>suffix.
     Option.bind (strip_prefix suffix (lit ''-'')) (\<lambda>rest.
     parse_u32 (takeWhile (\<lambda>c. c \<noteq> 45) rest))))"

text \<open>The holder a guardian names itself by: its process, the clock and a counter.\<close>

definition interactive_guardian_holder :: "InteractiveGuardianDisposition \<Rightarrow> nat \<Rightarrow> nat \<Rightarrow> nat \<Rightarrow> str" where
  "interactive_guardian_holder d process generation sequence =
     guardian_holder_prefix d @ lit ''-'' @ show_nat process @ lit ''-'' @ show_nat generation
       @ lit ''-'' @ show_nat sequence"

section \<open>Runs\<close>

definition plain_run :: "AgentRunOutcome \<Rightarrow> int \<Rightarrow> run_row" where
  "plain_run oc rid =
     \<lparr>r_id = rid, r_project = o_project oc, r_status = o_status oc,
      r_started_at = o_started_at oc, r_finished_at = o_finished_at oc,
      r_exit_code = o_exit_code oc, r_log_dir = o_log_dir oc, r_stdout_path = o_stdout_path oc,
      r_stderr_path = o_stderr_path oc, r_summary = o_summary oc,
      r_codex_session_id = o_codex_session_id oc, r_worker_token = None\<rparr>"

definition record_run_outcome :: "AgentRunOutcome \<Rightarrow> int db" where
  "record_run_outcome oc db =
     (let rid = next_rowid r_id (runs db)
      in if \<not> project_exists db (o_project oc) then (Inl ''FOREIGN KEY constraint failed'', db)
         else (Inr rid, update_project_after_run oc
                 (db\<lparr>runs := sql_insert (plain_run oc rid) (runs db)\<rparr>)))"

text \<open>\<^verbatim>\<open>JOIN projects ... ORDER BY r.id DESC\<close>.\<close>

definition runs_newest_first :: "registry \<Rightarrow> (run_row \<Rightarrow> bool) \<Rightarrow> (run_row \<times> project_row) list" where
  "runs_newest_first db P =
     rev (sort_key (\<lambda>(r, p). r_id r) (List.map_filter (join_project db r_project) (filter P (runs db))))"

definition first_row :: "'a list \<Rightarrow> 'a option" where
  "first_row xs = (case xs of [] \<Rightarrow> None | x # _ \<Rightarrow> Some x)"

text \<open>A negative \<^verbatim>\<open>LIMIT\<close> is no limit.\<close>

definition list_recent_runs :: "registry \<Rightarrow> int \<Rightarrow> (run_row \<times> project_row) list" where
  "list_recent_runs db limit =
     (let rs = runs_newest_first db (\<lambda>_. True) in if limit < 0 then rs else take (nat limit) rs)"

definition latest_run_for_project :: "registry \<Rightarrow> int \<Rightarrow> (run_row \<times> project_row) option" where
  "latest_run_for_project db pid = first_row (runs_newest_first db (\<lambda>r. r_project r = pid))"

definition latest_run_for_codex_session ::
  "registry \<Rightarrow> int \<Rightarrow> str \<Rightarrow> bool \<Rightarrow> int option \<Rightarrow> (run_row \<times> project_row) option" where
  "latest_run_for_codex_session db pid sid output_only before_run_id =
     first_row (runs_newest_first db (\<lambda>r. r_project r = pid \<and> r_codex_session_id r = Some sid
       \<and> (\<not> output_only \<or> r_stdout_path r \<noteq> None \<or> r_stderr_path r \<noteq> None)
       \<and> (case before_run_id of None \<Rightarrow> True | Some i \<Rightarrow> r_id r < i)))"

definition run_for_worker_token :: "registry \<Rightarrow> int \<Rightarrow> str \<Rightarrow> (run_row \<times> project_row) option" where
  "run_for_worker_token db pid token =
     first_row (List.map_filter (join_project db r_project)
       (filter (\<lambda>r. r_project r = pid \<and> r_worker_token r = Some token) (runs db)))"

section \<open>Daemon check-ins\<close>

definition record_daemon_checkin :: "checkin_row \<Rightarrow> unit db" where
  "record_daemon_checkin c db =
     (Inr (), if sql_exists (\<lambda>d. dc_holder d = dc_holder c) (checkins db)
              then db\<lparr>checkins := sql_update (\<lambda>d. dc_holder d = dc_holder c) (\<lambda>_. c) (checkins db)\<rparr>
              else db\<lparr>checkins := sql_insert c (checkins db)\<rparr>)"

definition clear_daemon_checkin :: "str \<Rightarrow> bool db" where
  "clear_daemon_checkin holder db =
     (Inr (0 < sql_count (\<lambda>d. dc_holder d = holder) (checkins db)),
      db\<lparr>checkins := sql_delete (\<lambda>d. dc_holder d = holder) (checkins db)\<rparr>)"

definition list_daemon_checkins :: "registry \<Rightarrow> checkin_row list" where
  "list_daemon_checkins db =
     sort_key (\<lambda>d. (- str_to_i64 (dc_checked_in_at d), dc_holder d)) (checkins db)"

section \<open>Cleaning the history\<close>

record AgentCleanSummary =
  cs_projects_reset :: nat
  cs_runs_deleted :: nat
  cs_leases_deleted :: nat
  cs_daemon_checkins_deleted :: nat
  cs_run_log_dirs_removed :: nat
  cs_service_logs_truncated :: nat

definition project_failed :: "project_row \<Rightarrow> bool" where
  "project_failed p \<longleftrightarrow> p_failure_count p \<noteq> 0 \<or> p_last_failure_at p \<noteq> None \<or> p_last_blocked_recovery_at p \<noteq> None"

definition clean_agent_history :: "str \<Rightarrow> AgentCleanSummary db" where
  "clean_agent_history cleaned_at db =
     (if sql_exists (\<lambda>w. worker_active (w_state w)) (workers db)
      then (Inl ''Cannot clean agent history while independent workers are active'', db)
      else if sql_exists (\<lambda>g. journal_open (g_state g)) (journals db)
      then (Inl ''Cannot clean agent history while Git finalization is pending'', db)
      else if launches db \<noteq> []
      then (Inl ''Cannot clean agent history while an unconsumed Git launch boundary remains'', db)
      else if sql_exists (\<lambda>l. \<not> cast_le (l_expires_at l) cleaned_at) (leases db)
      then (Inl ''Cannot clean agent history while project leases are active'', db)
      else (Inr \<lparr>cs_projects_reset = sql_count project_failed (projects db), cs_runs_deleted = length (runs db),
                 cs_leases_deleted = length (leases db), cs_daemon_checkins_deleted = length (checkins db),
                 cs_run_log_dirs_removed = 0, cs_service_logs_truncated = 0\<rparr>,
            db\<lparr>projects := sql_update project_failed
                 (\<lambda>p. p\<lparr>p_failure_count := 0, p_last_failure_at := None, p_last_blocked_recovery_at := None,
                        p_updated_at := cleaned_at\<rparr>) (projects db),
               workers := [], journals := [], launches := [], runs := [], leases := [], checkins := []\<rparr>))"

section \<open>Registering a running session\<close>

definition known_worker :: "registry \<Rightarrow> str \<Rightarrow> bool" where
  "known_worker db token \<longleftrightarrow> sql_count (\<lambda>w. w_token w = token) (workers db) = 1"

text \<open>The join of a worker with the lease it holds.\<close>

definition fenced_pair :: "int \<Rightarrow> str \<Rightarrow> worker_row \<times> lease_row \<Rightarrow> bool" where
  "fenced_pair pid token = (\<lambda>(w, l). l_project l = w_project w \<and> l_holder l = w_lease_holder w
     \<and> w_token w = token \<and> w_project w = pid \<and> worker_active (w_state w))"

definition fenced_worker :: "registry \<Rightarrow> int \<Rightarrow> str \<Rightarrow> bool" where
  "fenced_worker db pid token \<longleftrightarrow>
     sql_count (fenced_pair pid token) (List.product (workers db) (leases db)) = 1"

definition running_control :: "int \<Rightarrow> str \<Rightarrow> int \<Rightarrow> str \<Rightarrow> str \<Rightarrow> str \<Rightarrow> str \<Rightarrow> control_row" where
  "running_control pid sid child token out err now =
     \<lparr>sc_project = pid, sc_session = sid, sc_state = Running, sc_child_pid = Some child,
      sc_run_token = Some token, sc_interactive_holder = None, sc_interactive_launch_token = None,
      sc_stdout_path = Some out, sc_stderr_path = Some err, sc_updated_at = now\<rparr>"

text \<open>\<^verbatim>\<open>ON CONFLICT DO UPDATE\<close>: a pending stop or interrupt of the same run survives.\<close>

definition rerun_control :: "int \<Rightarrow> str \<Rightarrow> str \<Rightarrow> str \<Rightarrow> str \<Rightarrow> control_row \<Rightarrow> control_row" where
  "rerun_control child token out err now sc =
     (let same = (sc_run_token sc = Some token)
      in sc\<lparr>sc_state := (if same \<and> sc_state sc \<in> {StopRequested, InterruptRequested} then sc_state sc else Running),
            sc_child_pid := Some child, sc_run_token := Some token,
            sc_interactive_holder := (if same \<and> sc_state sc = InterruptRequested
                                      then sc_interactive_holder sc else None),
            sc_stdout_path := Some out, sc_stderr_path := Some err, sc_updated_at := now\<rparr>)"

definition upsert_running :: "int \<Rightarrow> str \<Rightarrow> int \<Rightarrow> str \<Rightarrow> str \<Rightarrow> str \<Rightarrow> str \<Rightarrow> registry \<Rightarrow> registry" where
  "upsert_running pid sid child token out err now db =
     (if sql_exists (control_at pid sid) (controls db)
      then db\<lparr>controls := sql_update (control_at pid sid) (rerun_control child token out err now) (controls db)\<rparr>
      else db\<lparr>controls := sql_insert (running_control pid sid child token out err now) (controls db)\<rparr>)"

definition mode_at :: "int \<Rightarrow> str \<Rightarrow> session_mode_row \<Rightarrow> bool" where
  "mode_at pid sid m \<longleftrightarrow> sm_project m = pid \<and> sm_session m = sid"

definition insert_mode :: "int \<Rightarrow> str \<Rightarrow> AgentGitMode \<Rightarrow> registry \<Rightarrow> registry" where
  "insert_mode pid sid mode db =
     (if sql_exists (mode_at pid sid) (session_modes db) then db
      else db\<lparr>session_modes := sql_insert \<lparr>sm_project = pid, sm_session = sid, sm_git_mode = mode\<rparr>
                (session_modes db)\<rparr>)"

definition launched_journal :: "str \<Rightarrow> str \<Rightarrow> launch_row \<Rightarrow> journal_row" where
  "launched_journal sid now a =
     new_journal \<lparr>nf_project = gl_project a, nf_session = sid, nf_git_mode = gl_git_mode a,
       nf_starting_head = Some (gl_starting_head a), nf_branch_ref = gl_branch_ref a,
       nf_upstream_ref = gl_upstream_ref a, nf_worktree_baseline = gl_worktree_baseline a,
       nf_task_identity = None, nf_owner_run_token = Some (gl_run_token a), nf_created_at = now\<rparr>"

text \<open>The rows of \<^verbatim>\<open>git_finalizations LEFT JOIN agent_git_launch_states\<close> whose boundary agrees.\<close>

definition owned_journal :: "int \<Rightarrow> str \<Rightarrow> AgentGitMode \<Rightarrow> str \<Rightarrow> journal_row \<Rightarrow> bool" where
  "owned_journal pid sid mode token g \<longleftrightarrow> journal_at pid sid g \<and> g_state g = Working \<and> g_git_mode g = mode
     \<and> g_owner_run_token g = Some token"

definition boundary_agrees :: "journal_row \<Rightarrow> launch_row \<Rightarrow> bool" where
  "boundary_agrees g a \<longleftrightarrow> g_git_mode g = gl_git_mode a \<and> g_starting_head g = Some (gl_starting_head a)
     \<and> g_branch_ref g = gl_branch_ref a \<and> g_upstream_ref g = gl_upstream_ref a
     \<and> g_worktree_baseline g = gl_worktree_baseline a"

definition agreeing_rows :: "registry \<Rightarrow> int \<Rightarrow> str \<Rightarrow> AgentGitMode \<Rightarrow> str \<Rightarrow> nat" where
  "agreeing_rows db pid sid mode token =
     length (concat (map (\<lambda>g. case filter (\<lambda>a. gl_project a = g_project g
                                   \<and> g_owner_run_token g = Some (gl_run_token a)) (launches db) of
                              [] \<Rightarrow> [None] | ls \<Rightarrow> map Some (filter (boundary_agrees g) ls))
                       (filter (owned_journal pid sid mode token) (journals db))))"

text \<open>The part that turns the scheduler's launch boundary into the session's journal.\<close>

definition consume_launch_state :: "int \<Rightarrow> str \<Rightarrow> str \<Rightarrow> AgentGitMode \<Rightarrow> str \<Rightarrow> unit db" where
  "consume_launch_state pid sid token mode now db =
     (let launch = sql_select (\<lambda>a. launch_at pid token a \<and> gl_git_mode a = mode) (launches db);
          inserted = (launch \<noteq> None \<and> \<not> sql_exists (journal_at pid sid) (journals db));
          db1 = (if inserted
                 then db\<lparr>journals := sql_insert (launched_journal sid now (the launch)) (journals db)\<rparr>
                 else db)
      in if sql_count (owned_journal pid sid mode token) (journals db1) \<noteq> 1
            \<or> (\<not> inserted \<and> agreeing_rows db1 pid sid mode token \<noteq> 1)
         then (Inl ''Automated run has no compatible scheduler-owned Git launch state'', db)
         else if \<not> inserted then (Inr (), db1)
         else if sql_count (launch_at pid token) (launches db1) \<noteq> 1
         then (Inl ''Automated run lost its Git launch state'', db)
         else (Inr (), db1\<lparr>launches := sql_delete (launch_at pid token) (launches db1)\<rparr>))"

text \<open>The session's Git mode is fixed at its first run; with Git on, the journal must be this run's.\<close>

definition register_git_mode :: "int \<Rightarrow> str \<Rightarrow> str \<Rightarrow> AgentGitMode \<Rightarrow> str \<Rightarrow> unit db" where
  "register_git_mode pid sid token mode now db =
     (let db1 = insert_mode pid sid mode db
      in if sql_count (\<lambda>m. mode_at pid sid m \<and> sm_git_mode m = mode) (session_modes db1) \<noteq> 1
         then (Inl ''Codex session cannot change its original Git mode'', db)
         else if mode = Off then
           (if sql_exists (journal_at pid sid) (journals db1) \<or> sql_exists (launch_at pid token) (launches db1)
            then (Inl ''Codex session has managed Git evidence and cannot register with Git off'', db)
            else (Inr (), db1))
         else consume_launch_state pid sid token mode now db1)"

definition mark_session_running ::
  "int \<Rightarrow> str \<Rightarrow> int \<Rightarrow> str \<Rightarrow> str \<Rightarrow> str \<Rightarrow> AgentGitMode option \<Rightarrow> str \<Rightarrow> unit db" where
  "mark_session_running pid sid child token out err git_mode now db =
     (let db1 = upsert_running pid sid child token out err now db
      in if known_worker db token \<and> \<not> fenced_worker db pid token
         then (Inl ''Codex session worker generation no longer owns its lease'', db)
         else if fenced_worker db pid token
              \<and> sql_exists (\<lambda>sc. control_at pid sid sc \<and> sc_run_token sc \<noteq> None
                    \<and> sc_run_token sc \<noteq> Some token) (controls db)
         then (Inl ''Codex session belongs to a different active run generation'', db)
         else if \<not> project_exists db pid then (Inl ''FOREIGN KEY constraint failed'', db)
         else (case git_mode of
                 None \<Rightarrow> (Inr (), db1)
               | Some mode \<Rightarrow>
                   (case register_git_mode pid sid token mode now db1 of
                      (Inl e, _) \<Rightarrow> (Inl e, db)
                    | (Inr _, db2) \<Rightarrow> (Inr (), db2))))"

section \<open>Requests and handoffs\<close>

text \<open>Most transactions are one guarded update of the control.\<close>

definition control_update :: "(control_row \<Rightarrow> bool) \<Rightarrow> (control_row \<Rightarrow> control_row) \<Rightarrow> bool db" where
  "control_update P f db =
     (Inr (0 < sql_count P (controls db)), db\<lparr>controls := sql_update P f (controls db)\<rparr>)"

definition control_delete :: "(control_row \<Rightarrow> bool) \<Rightarrow> bool db" where
  "control_delete P db =
     (Inr (0 < sql_count P (controls db)), db\<lparr>controls := sql_delete P (controls db)\<rparr>)"

text \<open>The row without a process and without an interactive owner, in a given state.\<close>

definition settled :: "AgentSessionControlState \<Rightarrow> str \<Rightarrow> control_row \<Rightarrow> control_row" where
  "settled st now sc = sc\<lparr>sc_state := st, sc_child_pid := None, sc_interactive_holder := None,
     sc_interactive_launch_token := None, sc_updated_at := now\<rparr>"

definition ready_for :: "str \<Rightarrow> str \<Rightarrow> control_row \<Rightarrow> control_row" where
  "ready_for holder now sc = sc\<lparr>sc_state := ReadyInteractive, sc_child_pid := None,
     sc_interactive_holder := Some holder, sc_interactive_launch_token := None, sc_updated_at := now\<rparr>"

definition running_generation :: "int \<Rightarrow> str \<Rightarrow> int \<Rightarrow> str \<Rightarrow> control_row \<Rightarrow> bool" where
  "running_generation pid sid child token sc \<longleftrightarrow> control_at pid sid sc \<and> sc_state sc = Running
     \<and> sc_child_pid sc = Some child \<and> sc_run_token sc = Some token"

definition request_session_interrupt :: "int \<Rightarrow> str \<Rightarrow> int \<Rightarrow> str \<Rightarrow> str \<Rightarrow> str \<Rightarrow> bool db" where
  "request_session_interrupt pid sid child token holder now =
     control_update (running_generation pid sid child token)
       (\<lambda>sc. sc\<lparr>sc_state := InterruptRequested, sc_interactive_holder := Some holder, sc_updated_at := now\<rparr>)"

definition cancel_session_interrupt_handoff :: "int \<Rightarrow> str \<Rightarrow> str \<Rightarrow> str \<Rightarrow> bool db" where
  "cancel_session_interrupt_handoff pid sid holder now =
     control_update (\<lambda>sc. control_at pid sid sc \<and> sc_state sc \<in> {InterruptRequested, ReadyInteractive}
         \<and> sc_interactive_holder sc = Some holder)
       (\<lambda>sc. sc\<lparr>sc_state := (if sc_state sc = InterruptRequested then Running else ResumeRequested),
                sc_child_pid := (if sc_state sc = InterruptRequested then sc_child_pid sc else None),
                sc_interactive_holder := None, sc_interactive_launch_token := None, sc_updated_at := now\<rparr>)"

definition stopped_control :: "int \<Rightarrow> str \<Rightarrow> str \<Rightarrow> control_row" where
  "stopped_control pid sid now =
     \<lparr>sc_project = pid, sc_session = sid, sc_state = Stopped, sc_child_pid = None, sc_run_token = None,
      sc_interactive_holder = None, sc_interactive_launch_token = None, sc_stdout_path = None,
      sc_stderr_path = None, sc_updated_at = now\<rparr>"

text \<open>\<^verbatim>\<open>INSERT ... ON CONFLICT DO NOTHING\<close>.\<close>

definition insert_control :: "control_row \<Rightarrow> bool db" where
  "insert_control sc db =
     (if sql_exists (control_at (sc_project sc) (sc_session sc)) (controls db) then (Inr False, db)
      else if \<not> project_exists db (sc_project sc) then (Inl ''FOREIGN KEY constraint failed'', db)
      else (Inr True, db\<lparr>controls := sql_insert sc (controls db)\<rparr>))"

definition register_planning_session :: "int \<Rightarrow> str \<Rightarrow> str \<Rightarrow> str \<Rightarrow> bool db" where
  "register_planning_session pid sid lease_holder now db =
     (if sql_exists (\<lambda>l. live_lease pid now l \<and> l_holder l = lease_holder) (leases db)
         \<and> \<not> has_active_worker db pid
         \<and> \<not> sql_exists (\<lambda>sc. sc_project sc = pid \<and> \<not> idle_control sc) (controls db)
      then insert_control (stopped_control pid sid now) db else (Inr False, db))"

definition register_shared_planning_session :: "int \<Rightarrow> str \<Rightarrow> str \<Rightarrow> bool db" where
  "register_shared_planning_session pid sid now = insert_control (stopped_control pid sid now)"

definition ready_control :: "int \<Rightarrow> str \<Rightarrow> str \<Rightarrow> str \<Rightarrow> control_row" where
  "ready_control pid sid holder now =
     (stopped_control pid sid now)\<lparr>sc_state := ReadyInteractive, sc_interactive_holder := Some holder\<rparr>"

definition reserve_idle_session_interactive_for_state ::
  "int \<Rightarrow> str \<Rightarrow> str \<Rightarrow> str option \<Rightarrow> AgentSessionControlState option \<Rightarrow> str \<Rightarrow> bool db" where
  "reserve_idle_session_interactive_for_state pid sid holder expected_token expected_state now db =
     (if starts_with holder (lit ''clt-stopped-interactive-'') then
        control_update (\<lambda>sc. control_at pid sid sc \<and> idle_control sc \<and> Some (sc_state sc) = expected_state
            \<and> sql_exists (\<lambda>l. live_lease pid now l \<and> l_holder l = holder) (leases db)
            \<and> \<not> has_active_worker db pid \<and> sc_run_token sc = expected_token
            \<and> \<not> sql_exists (\<lambda>o'. sc_project o' = pid \<and> sc_session o' \<noteq> sid \<and> \<not> idle_control o') (controls db))
          (ready_for holder now) db
      else if sql_exists (control_at pid sid) (controls db)
              \<or> sql_exists (\<lambda>sc. sc_project sc = pid \<and> sc_state sc \<noteq> Stopped) (controls db)
      then (Inr False, db)
      else insert_control (ready_control pid sid holder now) db)"

definition shared_use_allowed :: "registry \<Rightarrow> int \<Rightarrow> str \<Rightarrow> bool \<Rightarrow> bool" where
  "shared_use_allowed db pid sid has_manual_owner \<longleftrightarrow> has_manual_owner
     \<or> sql_exists (\<lambda>l. l_project l = pid) (leases db)
     \<or> sql_exists (\<lambda>sc. sc_project sc = pid \<and> sc_session sc \<noteq> sid \<and> sc_state sc \<noteq> Stopped) (controls db)"

definition reserve_shared_session_interactive ::
  "int \<Rightarrow> str \<Rightarrow> str \<Rightarrow> str option \<Rightarrow> bool \<Rightarrow> str \<Rightarrow> bool db" where
  "reserve_shared_session_interactive pid sid holder expected_token has_manual_owner now db =
     (if is_stopped_shared_interactive_holder holder then
        control_update (\<lambda>sc. control_at pid sid sc
            \<and> (sc_state sc = Stopped
               \<or> (sc_state sc = ResumeRequested \<and> sc_child_pid sc = None \<and> sc_interactive_holder sc = None
                  \<and> \<not> sql_exists (\<lambda>w. w_project w = pid \<and> worker_active (w_state w)
                         \<and> (Some (w_token w) = expected_token \<or> w_resume_session_id w = Some sid)) (workers db)))
            \<and> sc_run_token sc = expected_token \<and> shared_use_allowed db pid sid has_manual_owner)
          (ready_for holder now) db
      else if sql_exists (control_at pid sid) (controls db) \<or> \<not> shared_use_allowed db pid sid has_manual_owner
      then (Inr False, db)
      else insert_control (ready_control pid sid holder now) db)"

definition cancel_idle_session_interactive :: "int \<Rightarrow> str \<Rightarrow> str \<Rightarrow> str \<Rightarrow> bool db" where
  "cancel_idle_session_interactive pid sid holder now =
     (let mine = (\<lambda>sc. control_at pid sid sc \<and> sc_state sc = ReadyInteractive
                     \<and> sc_interactive_holder sc = Some holder)
      in if starts_with holder (lit ''clt-stopped-interactive-'') \<or> is_stopped_shared_interactive_holder holder
         then control_update mine (settled Stopped now) else control_delete mine)"

definition request_session_stop :: "int \<Rightarrow> str \<Rightarrow> int \<Rightarrow> str \<Rightarrow> str \<Rightarrow> bool db" where
  "request_session_stop pid sid child token now =
     control_update (running_generation pid sid child token)
       (\<lambda>sc. sc\<lparr>sc_state := StopRequested, sc_updated_at := now\<rparr>)"

definition request_interactive_session_stop :: "int \<Rightarrow> str \<Rightarrow> int \<Rightarrow> str \<Rightarrow> str \<Rightarrow> bool db" where
  "request_interactive_session_stop pid sid child holder now =
     control_update (\<lambda>sc. control_at pid sid sc \<and> sc_state sc = Interactive \<and> sc_child_pid sc = Some child
         \<and> sc_interactive_holder sc = Some holder \<and> sc_interactive_launch_token sc = Some holder)
       (\<lambda>sc. sc\<lparr>sc_state := StopRequested, sc_updated_at := now\<rparr>)"

definition request_stopped_session_resume :: "int \<Rightarrow> str \<Rightarrow> str option \<Rightarrow> str \<Rightarrow> bool db" where
  "request_stopped_session_resume pid sid token now =
     control_update (\<lambda>sc. control_at pid sid sc \<and> sc_state sc = Stopped \<and> sc_run_token sc = token)
       (settled ResumeRequested now)"

definition transition_session_control_state ::
  "int \<Rightarrow> str \<Rightarrow> AgentSessionControlState \<Rightarrow> AgentSessionControlState \<Rightarrow> str \<Rightarrow> bool db" where
  "transition_session_control_state pid sid st st' now =
     control_update (\<lambda>sc. control_at pid sid sc \<and> sc_state sc = st)
       (\<lambda>sc. sc\<lparr>sc_state := st', sc_child_pid := (if st' = Running then sc_child_pid sc else None),
                sc_interactive_launch_token := None, sc_updated_at := now\<rparr>)"

definition recover_stale_automated_session_control ::
  "int \<Rightarrow> str \<Rightarrow> AgentSessionControlState \<Rightarrow> AgentSessionControlState \<Rightarrow> int \<Rightarrow> str option \<Rightarrow> str \<Rightarrow> bool db" where
  "recover_stale_automated_session_control pid sid st st' child token now =
     control_update (\<lambda>sc. control_at pid sid sc \<and> sc_state sc = st \<and> sc_child_pid sc = Some child
         \<and> sc_run_token sc = token)
       (settled st' now)"

definition claim_orphaned_session_supervision :: "control_row \<Rightarrow> str \<Rightarrow> str \<Rightarrow> str \<Rightarrow> bool db" where
  "claim_orphaned_session_supervision expected holder now expires db =
     (let pid = sc_project expected; sid = sc_session expected in
      case (sc_child_pid expected, sc_run_token expected) of
        (Some child, Some token) \<Rightarrow>
          if child = 0 \<or> token = [] \<or> holder = [] \<or> sc_interactive_launch_token expected \<noteq> None
             \<or> sc_state expected \<notin> {Running, StopRequested, InterruptRequested}
          then (Inr False, db)
          else if sql_exists (\<lambda>sc. control_at pid sid sc \<and> sc_child_pid sc = Some child
                    \<and> sc_run_token sc = Some token \<and> sc_state sc \<in> {Running, StopRequested, InterruptRequested}
                    \<and> sc_interactive_launch_token sc = None) (controls db)
                  \<and> \<not> sql_exists (\<lambda>l. l_project l = pid) (leases db)
                  \<and> \<not> has_active_worker db pid
                  \<and> \<not> sql_exists (\<lambda>sc. sc_project sc = pid \<and> sc_session sc \<noteq> sid \<and> sc_state sc \<noteq> Stopped) (controls db)
          then insert_lease \<lparr>l_project = pid, l_holder = holder, l_acquired_at = now, l_expires_at = expires\<rparr> db
          else (Inr False, db)
      | _ \<Rightarrow> (Inr False, db))"

section \<open>The end of an automated run\<close>

definition lease_of :: "int \<Rightarrow> str \<Rightarrow> lease_row \<Rightarrow> bool" where
  "lease_of pid holder l \<longleftrightarrow> l_project l = pid \<and> l_holder l = holder"

definition transfer_lease :: "int \<Rightarrow> str \<Rightarrow> str \<Rightarrow> str \<Rightarrow> str \<Rightarrow> registry \<Rightarrow> registry" where
  "transfer_lease pid from_holder to_holder now expires db =
     db\<lparr>leases := sql_update (lease_of pid from_holder)
         (\<lambda>l. l\<lparr>l_holder := to_holder, l_acquired_at := now, l_expires_at := expires\<rparr>) (leases db)\<rparr>"

definition drop_lease :: "int \<Rightarrow> str \<Rightarrow> registry \<Rightarrow> registry" where
  "drop_lease pid holder db = db\<lparr>leases := sql_delete (lease_of pid holder) (leases db)\<rparr>"

fun terminal_state :: "AgentSessionControlState \<Rightarrow> AgentSessionControlState option" where
  "terminal_state Running = Some ResumeRequested"
| "terminal_state StopRequested = Some Stopped"
| "terminal_state InterruptRequested = Some ReadyInteractive"
| "terminal_state _ = None"

text \<open>The lease of an interrupted run goes to the interactive owner: transferred from the run's
  holder, acquired when the project has none, or already his.\<close>

definition hand_lease :: "int \<Rightarrow> str \<Rightarrow> str \<Rightarrow> str \<Rightarrow> str \<Rightarrow> bool db" where
  "hand_lease pid lease_holder interactive_holder now expires db =
     (if sql_exists (lease_of pid lease_holder) (leases db)
      then (Inr True, transfer_lease pid lease_holder interactive_holder now expires db)
      else case insert_lease \<lparr>l_project = pid, l_holder = interactive_holder, l_acquired_at = now,
                              l_expires_at = expires\<rparr> db of
             (Inr False, _) \<Rightarrow>
               (Inr (map_option l_holder (sql_select (\<lambda>l. l_project l = pid) (leases db))
                       = Some interactive_holder), db)
           | r \<Rightarrow> r)"

definition exited_control :: "AgentSessionControlState \<Rightarrow> str \<Rightarrow> control_row \<Rightarrow> control_row" where
  "exited_control st now sc = sc\<lparr>sc_state := st, sc_child_pid := None,
     sc_interactive_holder := (if st = ReadyInteractive then sc_interactive_holder sc else None),
     sc_updated_at := now\<rparr>"

definition finalize_automated_session_after_exit ::
  "int \<Rightarrow> int \<Rightarrow> str \<Rightarrow> str \<Rightarrow> str option \<Rightarrow> str \<Rightarrow> str \<Rightarrow> bool db" where
  "finalize_automated_session_after_exit pid child token lease_holder reattached now expires db =
     (if reattached \<noteq> None \<and> sql_count (lease_of pid lease_holder) (leases db) \<noteq> 1 then (Inr False, db)
      else case sql_select (\<lambda>sc. sc_project sc = pid \<and> sc_child_pid sc = Some child
               \<and> sc_run_token sc = Some token
               \<and> (case reattached of None \<Rightarrow> True
                  | Some sid \<Rightarrow> sc_session sc = sid \<and> sc_interactive_launch_token sc = None)) (controls db) of
        None \<Rightarrow> (Inr False, db)
      | Some sc \<Rightarrow>
          (case terminal_state (sc_state sc) of
             None \<Rightarrow> (Inr False, db)
           | Some st \<Rightarrow>
               let mine = (\<lambda>c. control_at pid (sc_session sc) c \<and> sc_state c = sc_state sc
                     \<and> sc_child_pid c = Some child \<and> sc_run_token c = Some token);
                   finish = (\<lambda>d. d\<lparr>controls := sql_update mine (exited_control st now) (controls d)\<rparr>)
               in if st = ReadyInteractive then
                    (case sc_interactive_holder sc of
                       None \<Rightarrow> (Inr False, db)
                     | Some h \<Rightarrow>
                         (case hand_lease pid lease_holder h now expires db of
                            (Inl e, _) \<Rightarrow> (Inl e, db)
                          | (Inr False, _) \<Rightarrow> (Inr False, db)
                          | (Inr True, db1) \<Rightarrow>
                              if sql_count mine (controls db) \<noteq> 1 then (Inr False, db)
                              else (Inr True, finish db1)))
                  else if sql_count mine (controls db) \<noteq> 1 then (Inr False, db)
                  else (Inr True, drop_lease pid lease_holder (finish db))))"

definition finalize_reattached_automated_session :: "control_row \<Rightarrow> str \<Rightarrow> str \<Rightarrow> str \<Rightarrow> bool db" where
  "finalize_reattached_automated_session expected holder now expires db =
     (case (sc_child_pid expected, sc_run_token expected) of
        (Some child, Some token) \<Rightarrow>
          finalize_automated_session_after_exit (sc_project expected) child token holder
            (Some (sc_session expected)) now expires db
      | _ \<Rightarrow> (Inr False, db))"

definition finalize_reaped_automated_session :: "int \<Rightarrow> int \<Rightarrow> str \<Rightarrow> str \<Rightarrow> str \<Rightarrow> str \<Rightarrow> bool db" where
  "finalize_reaped_automated_session pid child token lease_holder =
     finalize_automated_session_after_exit pid child token lease_holder None"

definition complete_session_stop :: "int \<Rightarrow> str \<Rightarrow> str \<Rightarrow> str \<Rightarrow> bool db" where
  "complete_session_stop pid sid token now db =
     control_update (\<lambda>sc. control_at pid sid sc \<and> sc_state sc = StopRequested \<and> sc_run_token sc = Some token
         \<and> (\<not> sql_exists (\<lambda>w. w_token w = token) (workers db)
            \<or> sql_exists (fenced_pair pid token) (List.product (workers db) (leases db))))
       (settled Stopped now) db"

definition complete_session_interrupt_handoff ::
  "int \<Rightarrow> str \<Rightarrow> str \<Rightarrow> str \<Rightarrow> str \<Rightarrow> str \<Rightarrow> str option db" where
  "complete_session_interrupt_handoff pid sid token from_holder now expires db =
     (let mine = (\<lambda>sc. control_at pid sid sc \<and> sc_state sc = InterruptRequested \<and> sc_run_token sc = Some token)
      in case sql_select mine (controls db) of
           None \<Rightarrow> (Inr None, db)
         | Some sc \<Rightarrow>
             (case sc_interactive_holder sc of
                None \<Rightarrow> (Inr None, db)
              | Some h \<Rightarrow>
                  if \<not> sql_exists (lease_of pid from_holder) (leases db) then (Inr None, db)
                  else let db1 = transfer_lease pid from_holder h now expires db
                       in (Inr (Some h), db1\<lparr>controls := sql_update mine
                             (\<lambda>sc. sc\<lparr>sc_state := ReadyInteractive, sc_child_pid := None,
                                      sc_interactive_launch_token := None, sc_updated_at := now\<rparr>)
                             (controls db1)\<rparr>)))"

section \<open>Interactive sessions\<close>

definition recover_stale_interactive_session_control ::
  "int \<Rightarrow> str \<Rightarrow> AgentSessionControlState \<Rightarrow> AgentSessionControlState \<Rightarrow> str option \<Rightarrow> str \<Rightarrow> bool db" where
  "recover_stale_interactive_session_control pid sid st st' holder now =
     control_update (\<lambda>sc. control_at pid sid sc \<and> sc_state sc = st \<and> sc_interactive_holder sc = holder)
       (settled st' now)"

definition begin_stopped_session_interactive :: "int \<Rightarrow> str \<Rightarrow> str \<Rightarrow> str option \<Rightarrow> str \<Rightarrow> bool db" where
  "begin_stopped_session_interactive pid sid holder expected_token now =
     control_update (\<lambda>sc. control_at pid sid sc \<and> sc_state sc = Stopped \<and> sc_run_token sc = expected_token)
       (ready_for holder now)"

definition adopt_interactive_guardian ::
  "int \<Rightarrow> str option \<Rightarrow> str \<Rightarrow> str \<Rightarrow> str \<Rightarrow> str \<Rightarrow> bool db" where
  "adopt_interactive_guardian pid session from_holder guardian now expires db =
     (case from_guardian_holder guardian of
        None \<Rightarrow> (Inl ''Invalid interactive guardian holder'', db)
      | Some d \<Rightarrow>
          if holds_project_lease d \<and> \<not> sql_exists (lease_of pid from_holder) (leases db)
          then (Inr False, db)
          else let db1 = (if holds_project_lease d then transfer_lease pid from_holder guardian now expires db else db)
               in case session of
                    None \<Rightarrow> (Inr True, db1)
                  | Some sid \<Rightarrow>
                      let mine = (\<lambda>sc. control_at pid sid sc \<and> sc_state sc = ReadyInteractive
                                     \<and> sc_interactive_holder sc = Some from_holder)
                      in if \<not> sql_exists mine (controls db) then (Inr False, db)
                         else (Inr True, db1\<lparr>controls := sql_update mine
                                (\<lambda>sc. sc\<lparr>sc_state := Interactive, sc_interactive_holder := Some guardian,
                                   sc_interactive_launch_token := Some guardian, sc_child_pid := None,
                                   sc_updated_at := now\<rparr>) (controls db1)\<rparr>))"

text \<open>\<^verbatim>\<open>UPDATE leases SET expires_at ... WHERE holder = ?3 AND expires_at > ?4\<close>, a comparison of texts.\<close>

definition renewable :: "int \<Rightarrow> str \<Rightarrow> str \<Rightarrow> lease_row \<Rightarrow> bool" where
  "renewable pid holder now l \<longleftrightarrow> lease_of pid holder l \<and> \<not> text_le (l_expires_at l) now"

definition extend_lease :: "int \<Rightarrow> str \<Rightarrow> str \<Rightarrow> str \<Rightarrow> registry \<Rightarrow> registry" where
  "extend_lease pid holder now expires db =
     db\<lparr>leases := sql_update (renewable pid holder now) (\<lambda>l. l\<lparr>l_expires_at := expires\<rparr>) (leases db)\<rparr>"

definition register_interactive_guardian_child ::
  "int \<Rightarrow> str \<Rightarrow> str \<Rightarrow> int \<Rightarrow> str \<Rightarrow> str \<Rightarrow> bool db" where
  "register_interactive_guardian_child pid sid guardian child now expires db =
     (case from_guardian_holder guardian of
        None \<Rightarrow> (Inl ''Invalid interactive guardian holder'', db)
      | Some d \<Rightarrow>
          let mine = (\<lambda>sc. control_at pid sid sc \<and> sc_state sc = Interactive
                \<and> sc_interactive_holder sc = Some guardian
                \<and> sc_interactive_launch_token sc = Some guardian \<and> sc_child_pid sc = None);
              db1 = (if holds_project_lease d then extend_lease pid guardian now expires db else db)
          in if holds_project_lease d \<and> sql_count (renewable pid guardian now) (leases db) \<noteq> 1
             then (Inr False, db)
             else if sql_count mine (controls db) \<noteq> 1 then (Inr False, db)
             else (Inr True, db1\<lparr>controls := sql_update mine
                     (\<lambda>sc. sc\<lparr>sc_child_pid := Some child, sc_updated_at := now\<rparr>) (controls db1)\<rparr>))"

text \<open>An interactive session that ends: back to automation, unless a stop was asked for or the
  session was idle or shared.\<close>

definition guardian_end :: "InteractiveGuardianDisposition \<Rightarrow> str \<Rightarrow> control_row \<Rightarrow> control_row" where
  "guardian_end d now sc =
     settled (if d = ResumeExec \<and> sc_state sc \<noteq> StopRequested then ResumeRequested else Stopped) now sc"

definition finish_interactive_guardian ::
  "int \<Rightarrow> str \<Rightarrow> str \<Rightarrow> InteractiveGuardianDisposition \<Rightarrow> str \<Rightarrow> bool db" where
  "finish_interactive_guardian pid sid guardian d now db =
     (let mine = (\<lambda>sc. control_at pid sid sc \<and> sc_state sc \<in> {Interactive, StopRequested}
                    \<and> sc_interactive_holder sc = Some guardian);
          db1 = db\<lparr>controls := sql_update mine (guardian_end d now) (controls db)\<rparr>
      in if \<not> sql_exists mine (controls db) then (Inr False, db)
         else (Inr True, if holds_project_lease d then drop_lease pid guardian db1 else db1))"

definition recover_stale_interactive_guardian ::
  "int \<Rightarrow> str \<Rightarrow> str \<Rightarrow> int option \<Rightarrow> InteractiveGuardianDisposition \<Rightarrow> str \<Rightarrow> bool db" where
  "recover_stale_interactive_guardian pid sid guardian child d now db =
     (let mine = (\<lambda>sc. control_at pid sid sc \<and> sc_state sc \<in> {Interactive, StopRequested}
                    \<and> sc_interactive_holder sc = Some guardian
                    \<and> sc_interactive_launch_token sc = Some guardian \<and> sc_child_pid sc = child);
          db1 = db\<lparr>controls := sql_update mine (guardian_end d now) (controls db)\<rparr>
      in if sql_count mine (controls db) \<noteq> 1 then (Inr False, db)
         else (Inr True, if holds_project_lease d then drop_lease pid guardian db1 else db1))"

section \<open>Reading controls\<close>

text \<open>\<^verbatim>\<open>u32::try_from\<close> of the stored process id.\<close>

definition control_record :: "control_row \<Rightarrow> control_row result" where
  "control_record sc =
     (case sc_child_pid sc of
        Some c \<Rightarrow> if 0 \<le> c \<and> c < 2 ^ 32 then Inr sc
                  else Inl ''Codex session child PID is outside the supported range''
      | None \<Rightarrow> Inr sc)"

definition session_control :: "registry \<Rightarrow> int \<Rightarrow> str \<Rightarrow> control_row option result" where
  "session_control db pid sid =
     (case sql_select (control_at pid sid) (controls db) of
        None \<Rightarrow> Inr None
      | Some sc \<Rightarrow> map_sum id Some (control_record sc))"

fun collect_results :: "'a result list \<Rightarrow> 'a list result" where
  "collect_results [] = Inr []"
| "collect_results (Inl e # rs) = Inl e"
| "collect_results (Inr x # rs) = map_sum id ((#) x) (collect_results rs)"

definition session_controls_for_project :: "registry \<Rightarrow> int \<Rightarrow> control_row list result" where
  "session_controls_for_project db pid =
     collect_results (map control_record
       (sort_key (\<lambda>sc. (sc_updated_at sc, sc_session sc)) (filter (\<lambda>sc. sc_project sc = pid) (controls db))))"

definition suspending_session_project_ids :: "registry \<Rightarrow> int set" where
  "suspending_session_project_ids db = set (map sc_project (filter (\<lambda>sc. sc_state sc \<noteq> Stopped) (controls db)))"

section \<open>Resume requests\<close>

definition requested_control :: "int \<Rightarrow> str \<Rightarrow> control_row \<Rightarrow> bool" where
  "requested_control pid sid sc \<longleftrightarrow> control_at pid sid sc \<and> sc_state sc = ResumeRequested
     \<and> sc_child_pid sc = None \<and> sc_interactive_holder sc = None"

definition ensure_pending_git_finalization_resume_requested :: "int \<Rightarrow> str \<Rightarrow> str \<Rightarrow> bool db" where
  "ensure_pending_git_finalization_resume_requested pid sid now db =
     (case sql_select (\<lambda>g. journal_at pid sid g \<and> journal_open (g_state g)) (journals db) of
        None \<Rightarrow> (Inr False, db)
      | Some g \<Rightarrow>
          let token = recovery_token (g_generation g);
              tagged = sql_update (requested_control pid sid)
                         (\<lambda>sc. sc\<lparr>sc_run_token := Some token, sc_updated_at := now\<rparr>) (controls db);
              restored = (if sql_exists (control_at pid sid) tagged then tagged
                          else sql_insert ((stopped_control pid sid now)
                                 \<lparr>sc_state := ResumeRequested, sc_run_token := Some token\<rparr>) tagged)
          in (Inr (sql_count (requested_control pid sid) restored = 1), db\<lparr>controls := restored\<rparr>))"

definition retire_completed_resume_request :: "control_row \<Rightarrow> str \<Rightarrow> bool db" where
  "retire_completed_resume_request expected now db =
     (let pid = sc_project expected; sid = sc_session expected;
          mine = (\<lambda>sc. control_at pid sid sc \<and> sc_state sc = ResumeRequested \<and> unattended sc
            \<and> sc_run_token sc = sc_run_token expected \<and> sc_updated_at sc = sc_updated_at expected
            \<and> \<not> has_active_worker db pid
            \<and> \<not> sql_exists (live_lease pid now) (leases db)
            \<and> \<not> has_launch db pid
            \<and> \<not> sql_exists (\<lambda>g. journal_at pid sid g \<and> \<not> gfs_is_terminal (g_state g)) (journals db)
            \<and> (sql_exists (journal_at pid sid) (journals db)
               \<or> (case sql_select (mode_at pid sid) (session_modes db) of
                    Some m \<Rightarrow> sm_git_mode m = Off
                  | None \<Rightarrow> map_option p_git_mode (sql_select (\<lambda>p. p_id p = pid) (projects db)) = Some Off)))
      in if sc_state expected \<noteq> ResumeRequested \<or> \<not> unattended expected then (Inr False, db)
         else (Inr (sql_count mine (controls db) = 1),
               db\<lparr>controls := sql_update mine (\<lambda>sc. sc\<lparr>sc_state := Stopped, sc_updated_at := now\<rparr>)
                    (controls db)\<rparr>))"

definition clear_orphaned_resume_requested_session :: "int \<Rightarrow> str \<Rightarrow> str \<Rightarrow> bool db" where
  "clear_orphaned_resume_requested_session pid sid now db =
     (if has_active_worker db pid \<or> sql_exists (live_lease pid now) (leases db) then (Inr False, db)
      else control_delete (requested_control pid sid) db)"

definition planning_session_can_start :: "registry \<Rightarrow> int \<Rightarrow> str \<Rightarrow> bool" where
  "planning_session_can_start db pid sid \<longleftrightarrow>
     \<not> sql_exists (\<lambda>sc. control_at pid sid sc
         \<and> (sc_state sc \<noteq> Stopped \<or> sc_run_token sc \<noteq> None \<or> \<not> unattended sc)) (controls db)
     \<and> \<not> sql_exists (\<lambda>r. r_project r = pid \<and> r_codex_session_id r = Some sid) (runs db)
     \<and> \<not> sql_exists (mode_at pid sid) (session_modes db)
     \<and> \<not> sql_exists (journal_at pid sid) (journals db)"

record AgentKnownSessionRegistration =
  ks_project :: int
  ks_session :: str
  ks_child_pid :: int
  ks_run_token :: str
  ks_stdout_path :: str
  ks_stderr_path :: str
  ks_lease_holder :: str
  ks_claim_requested_resume :: bool
  ks_claim_planning_session :: bool

definition register_known_session_with_child ::
  "AgentKnownSessionRegistration \<Rightarrow> str \<Rightarrow> str \<Rightarrow> bool db" where
  "register_known_session_with_child k now expires db =
     (let pid = ks_project k; sid = ks_session k;
          db1 = extend_lease pid (ks_lease_holder k) now expires db;
          row = running_control pid sid (ks_child_pid k) (ks_run_token k) (ks_stdout_path k) (ks_stderr_path k) now;
          start = (\<lambda>sc. sc\<lparr>sc_state := Running, sc_child_pid := Some (ks_child_pid k),
                     sc_run_token := Some (ks_run_token k), sc_stdout_path := Some (ks_stdout_path k),
                     sc_stderr_path := Some (ks_stderr_path k), sc_updated_at := now\<rparr>);
          requested = (\<lambda>sc. control_at pid sid sc \<and> sc_state sc = ResumeRequested);
          planned = (\<lambda>sc. control_at pid sid sc \<and> ks_claim_planning_session k \<and> sc_state sc = Stopped
                       \<and> sc_run_token sc = None \<and> unattended sc)
      in if sql_count (renewable pid (ks_lease_holder k) now) (leases db) \<noteq> 1 then (Inr False, db)
         else if ks_claim_planning_session k
                 \<and> (ks_claim_requested_resume k \<or> \<not> planning_session_can_start db pid sid)
         then (Inr False, db)
         else if ks_claim_requested_resume k then
           (if sql_count requested (controls db) \<noteq> 1 then (Inr False, db)
            else (Inr True, db1\<lparr>controls := sql_update requested
                    (\<lambda>sc. (start sc)\<lparr>sc_interactive_holder := None, sc_interactive_launch_token := None\<rparr>)
                    (controls db)\<rparr>))
         else if sql_exists (control_at pid sid) (controls db) then
           (if sql_count planned (controls db) \<noteq> 1 then (Inr False, db)
            else (Inr True, db1\<lparr>controls := sql_update planned start (controls db)\<rparr>))
         else if \<not> project_exists db pid then (Inl ''FOREIGN KEY constraint failed'', db)
         else (Inr True, db1\<lparr>controls := sql_insert row (controls db)\<rparr>))"

definition clear_running_session_control :: "int \<Rightarrow> str \<Rightarrow> str option \<Rightarrow> bool db" where
  "clear_running_session_control pid sid token db =
     (if (case token of
            None \<Rightarrow> has_active_worker db pid
          | Some t \<Rightarrow> known_worker db t \<and> \<not> fenced_worker db pid t)
      then (Inr False, db)
      else control_delete (\<lambda>sc. control_at pid sid sc \<and> sc_state sc = Running
             \<and> (token = None \<or> sc_run_token sc = token)) db)"

definition clear_autonomous_push_resume_request :: "int \<Rightarrow> str \<Rightarrow> bool db" where
  "clear_autonomous_push_resume_request pid sid db =
     (let mine = (\<lambda>sc. control_at pid sid sc \<and> sc_state sc = ResumeRequested \<and> sc_child_pid sc = None
            \<and> sql_exists (\<lambda>g. journal_at pid sid g \<and> g_state g = PushPending) (journals db)
            \<and> \<not> has_active_worker db pid)
      in (Inr (sql_count mine (controls db) = 1),
          db\<lparr>controls := sql_delete mine (controls db)\<rparr>))"

end
