(* ===== verification/Session_Machine.thy ===== *)
theory Session_Machine
  imports Sessions_Runs Journal_Store
begin

text \<open>
  The session control as an abstract machine: the states a control may be in with the columns
  each state promises, the edges between them, and the table moves every transaction of the
  three repositories refines.
\<close>

named_theorems control_moves \<open>the abstract move of each transaction on the controls\<close>

section \<open>What a state promises\<close>

text \<open>A control that runs names its process and its run; an interactive control names its
  owner; a control at rest names neither a process nor an owner.  A recorded process id is a
  \<^verbatim>\<open>u32\<close>, so reading a control back never fails.\<close>

definition pid_in_range :: "int option \<Rightarrow> bool" where
  "pid_in_range child = (case child of None \<Rightarrow> True | Some c \<Rightarrow> 0 \<le> c \<and> c < 2 ^ 32)"

definition control_ok :: "control_row \<Rightarrow> bool" where
  "control_ok sc \<longleftrightarrow> pid_in_range (sc_child_pid sc) \<and>
     (case sc_state sc of
        Running \<Rightarrow> sc_child_pid sc \<noteq> None \<and> sc_run_token sc \<noteq> None \<and> sc_interactive_holder sc = None
      | StopRequested \<Rightarrow> sc_child_pid sc \<noteq> None
      | InterruptRequested \<Rightarrow> sc_child_pid sc \<noteq> None \<and> sc_run_token sc \<noteq> None \<and> sc_interactive_holder sc \<noteq> None
      | ReadyInteractive \<Rightarrow> sc_child_pid sc = None \<and> sc_interactive_holder sc \<noteq> None
      | Interactive \<Rightarrow> sc_interactive_holder sc \<noteq> None \<and> sc_interactive_launch_token sc = sc_interactive_holder sc
      | Stopped \<Rightarrow> sc_child_pid sc = None \<and> sc_interactive_holder sc = None
      | ResumeRequested \<Rightarrow> sc_child_pid sc = None \<and> sc_interactive_holder sc = None)"

lemma pid_in_range_simps [simp]: "pid_in_range None" "pid_in_range (Some c) \<longleftrightarrow> 0 \<le> c \<and> c < 2 ^ 32"
  by (simp_all add: pid_in_range_def)

lemma control_ok_pid: "control_ok sc \<Longrightarrow> pid_in_range (sc_child_pid sc)"
  by (simp add: control_ok_def)

section \<open>The edges\<close>

fun session_edge :: "AgentSessionControlState \<Rightarrow> AgentSessionControlState \<Rightarrow> bool" where
  "session_edge Running s \<longleftrightarrow> s \<in> {Running, StopRequested, InterruptRequested, ResumeRequested}"
| "session_edge StopRequested s \<longleftrightarrow> s \<in> {StopRequested, Stopped}"
| "session_edge InterruptRequested s \<longleftrightarrow> s \<in> {InterruptRequested, Running, ReadyInteractive}"
| "session_edge ReadyInteractive s \<longleftrightarrow> s \<in> {ReadyInteractive, Interactive, ResumeRequested, Stopped}"
| "session_edge Interactive s \<longleftrightarrow> s \<in> {Interactive, StopRequested, ResumeRequested, Stopped}"
| "session_edge Stopped s \<longleftrightarrow> s \<in> {Stopped, ResumeRequested, ReadyInteractive}"
| "session_edge ResumeRequested s \<longleftrightarrow> s \<in> {ResumeRequested, Stopped, ReadyInteractive}"

text \<open>A run registers itself: from any state, except over its own pending request.\<close>

definition registers :: "control_row \<Rightarrow> control_row \<Rightarrow> bool" where
  "registers sc sc' \<longleftrightarrow> sc_state sc' = Running
     \<and> \<not> (sc_state sc \<in> {StopRequested, InterruptRequested} \<and> sc_run_token sc' = sc_run_token sc)"

definition control_next :: "control_row \<Rightarrow> control_row \<Rightarrow> bool" where
  "control_next sc sc' \<longleftrightarrow> control_key sc' = control_key sc \<and> (control_ok sc \<longrightarrow> control_ok sc')
     \<and> (registers sc sc' \<or> session_edge (sc_state sc) (sc_state sc')
          \<and> (sc_state sc = StopRequested \<longrightarrow> sc_run_token sc' = sc_run_token sc))"

text \<open>Only a control whose run or request is over may disappear.\<close>

definition removable :: "AgentSessionControlState \<Rightarrow> bool" where
  "removable s \<longleftrightarrow> s \<notin> {StopRequested, InterruptRequested, Interactive}"

inductive controls_move :: "control_row table \<Rightarrow> control_row table \<Rightarrow> bool" where
  cm_keep: "controls_move t t"
| cm_update: "(\<And>sc. sc \<in> set t \<Longrightarrow> P sc \<Longrightarrow> control_next sc (f sc)) \<Longrightarrow> controls_move t (sql_update P f t)"
| cm_insert: "control_ok sc \<Longrightarrow> \<not> sql_exists (\<lambda>c. control_key c = control_key sc) t \<Longrightarrow>
    controls_move t (sql_insert sc t)"
| cm_delete: "(\<And>sc. sc \<in> set t \<Longrightarrow> P sc \<Longrightarrow> control_ok sc \<Longrightarrow> removable (sc_state sc)) \<Longrightarrow> controls_move t (sql_delete P t)"

lemma control_next_refl: "control_next sc sc"
  by (cases "sc_state sc") (simp_all add: control_next_def)

lemma control_at_key: "control_at pid sid sc \<longleftrightarrow> control_key sc = (pid, sid)"
  by (simp add: control_at_def control_key_def)

text \<open>What every move keeps, and what becomes of a row.\<close>

lemma controls_move_ok:
  assumes "controls_move t t'" "\<forall>sc \<in> set t. control_ok sc"
  shows "\<forall>sc \<in> set t'. control_ok sc"
  using assms
proof (induction rule: controls_move.induct)
  case (cm_update t P f)
  then show ?case by (intro sql_update_ball) (auto simp: control_next_def)
qed auto

lemma controls_move_unique:
  assumes "controls_move t t'" "unique_on control_key t"
  shows "unique_on control_key t'"
  using assms
proof (induction rule: controls_move.induct)
  case (cm_update t P f)
  have "map control_key (sql_update P f t) = map control_key t"
    using cm_update(1) by (auto simp: sql_update_def control_next_def)
  with cm_update(2) show ?case by (simp only: unique_on_def)
next
  case (cm_insert sc t)
  then show ?case by (intro unique_on_insert) (auto simp: sql_exists_iff)
qed (auto intro: unique_on_delete)

lemma controls_move_row:
  assumes "controls_move t t'" "sc \<in> set t" "control_ok sc"
  shows "(\<exists>sc' \<in> set t'. control_next sc sc') \<or> removable (sc_state sc)"
  using assms
proof (induction rule: controls_move.induct)
  case (cm_update t P f)
  then have "control_next sc (if P sc then f sc else sc)" by (simp add: control_next_refl)
  with sql_update_mem [OF cm_update(2), of P f] show ?case by blast
next
  case (cm_delete t P)
  then show ?case by (cases "P sc") (auto intro: control_next_refl simp: sql_delete_def)
qed (auto intro: control_next_refl)

section \<open>The moves of the session transactions\<close>

lemmas control_defs = control_next_def control_ok_def registers_def control_key_def control_at_def

lemma control_update_controls: "controls (snd (control_update P f db)) = sql_update P f (controls db)"
  by (simp add: control_update_def)

lemma control_delete_controls: "controls (snd (control_delete P db)) = sql_delete P (controls db)"
  by (simp add: control_delete_def)

lemma control_update_move:
  assumes "\<And>sc. P sc \<Longrightarrow> control_next sc (f sc)"
  shows "controls_move (controls db) (controls (snd (control_update P f db)))"
  unfolding control_update_controls using assms by (intro cm_update) auto

lemma control_delete_move:
  assumes "\<And>sc. P sc \<Longrightarrow> removable (sc_state sc)"
  shows "controls_move (controls db) (controls (snd (control_delete P db)))"
  unfolding control_delete_controls using assms by (intro cm_delete) auto

lemma insert_control_move:
  assumes "control_ok sc"
  shows "controls_move (controls db) (controls (snd (insert_control sc db)))"
proof -
  have "control_at (sc_project sc) (sc_session sc) = (\<lambda>c. control_key c = control_key sc)"
    by (auto simp: fun_eq_iff control_key_def control_at_def)
  then show ?thesis using assms unfolding insert_control_def by (auto intro: cm_keep cm_insert)
qed

text \<open>The columns after the statements that put a control to rest or hand it over.\<close>

lemma settled_fields:
  "sc_state (settled st now sc) = st" "control_key (settled st now sc) = control_key sc"
  "sc_run_token (settled st now sc) = sc_run_token sc"
  "st \<in> {Stopped, ResumeRequested} \<Longrightarrow> control_ok (settled st now sc)"
  by (auto simp: settled_def control_key_def control_ok_def)

lemma ready_for_fields:
  "sc_state (ready_for h now sc) = ReadyInteractive" "control_key (ready_for h now sc) = control_key sc"
  "sc_run_token (ready_for h now sc) = sc_run_token sc" "control_ok (ready_for h now sc)"
  by (auto simp: ready_for_def control_key_def control_ok_def)

lemma settled_next:
  "session_edge (sc_state sc) st \<Longrightarrow> st \<in> {Stopped, ResumeRequested} \<Longrightarrow> control_next sc (settled st now sc)"
  using settled_fields [of st now sc] by (simp add: control_next_def)

lemma ready_for_next:
  "sc_state sc \<in> {Stopped, ResumeRequested} \<Longrightarrow> control_next sc (ready_for h now sc)"
  using ready_for_fields [of h now sc] by (auto simp: control_next_def)

lemma fresh_controls_ok:
  "control_ok (stopped_control pid sid now)" "control_ok (ready_control pid sid h now)"
  "pid_in_range (Some child) \<Longrightarrow> control_ok (running_control pid sid child token out err now)"
  by (simp_all add: control_ok_def stopped_control_def ready_control_def running_control_def)

lemma request_moves [control_moves]:
  "controls_move (controls db) (controls (snd (request_session_interrupt pid sid child token h now db)))"
  "controls_move (controls db) (controls (snd (cancel_session_interrupt_handoff pid sid h now db)))"
  "controls_move (controls db) (controls (snd (request_session_stop pid sid child token now db)))"
  "controls_move (controls db) (controls (snd (request_interactive_session_stop pid sid child h now db)))"
  "controls_move (controls db) (controls (snd (request_stopped_session_resume pid sid tok now db)))"
proof -
  show "controls_move (controls db) (controls (snd (request_session_interrupt pid sid child token h now db)))"
    unfolding request_session_interrupt_def
    by (rule control_update_move) (simp add: control_defs running_generation_def)
  show "controls_move (controls db) (controls (snd (cancel_session_interrupt_handoff pid sid h now db)))"
    unfolding cancel_session_interrupt_handoff_def
    by (rule control_update_move) (auto simp: control_defs)
  show "controls_move (controls db) (controls (snd (request_session_stop pid sid child token now db)))"
    unfolding request_session_stop_def
    by (rule control_update_move) (simp add: control_defs running_generation_def)
  show "controls_move (controls db) (controls (snd (request_interactive_session_stop pid sid child h now db)))"
    unfolding request_interactive_session_stop_def
    by (rule control_update_move) (simp add: control_defs)
  show "controls_move (controls db) (controls (snd (request_stopped_session_resume pid sid tok now db)))"
    unfolding request_stopped_session_resume_def
    by (rule control_update_move) (simp add: settled_next)
qed

lemma reservation_moves [control_moves]:
  "controls_move (controls db) (controls (snd (register_planning_session pid sid h now db)))"
  "controls_move (controls db) (controls (snd (register_shared_planning_session pid sid now db)))"
  "controls_move (controls db) (controls (snd (reserve_idle_session_interactive_for_state pid sid h tok st now db)))"
  "controls_move (controls db) (controls (snd (reserve_shared_session_interactive pid sid h tok m now db)))"
  "controls_move (controls db) (controls (snd (cancel_idle_session_interactive pid sid h now db)))"
  "controls_move (controls db) (controls (snd (begin_stopped_session_interactive pid sid h tok now db)))"
proof -
  note ins = insert_control_move [OF fresh_controls_ok(1)] insert_control_move [OF fresh_controls_ok(2)]
  show "controls_move (controls db) (controls (snd (register_planning_session pid sid h now db)))"
    by (simp add: register_planning_session_def ins cm_keep)
  show "controls_move (controls db) (controls (snd (register_shared_planning_session pid sid now db)))"
    by (simp add: register_shared_planning_session_def ins)
  show "controls_move (controls db) (controls (snd (reserve_idle_session_interactive_for_state pid sid h tok st now db)))"
    unfolding reserve_idle_session_interactive_for_state_def
    by (auto simp: idle_control_def intro!: ins cm_keep control_update_move ready_for_next)
  show "controls_move (controls db) (controls (snd (reserve_shared_session_interactive pid sid h tok m now db)))"
    unfolding reserve_shared_session_interactive_def
    by (auto intro!: ins cm_keep control_update_move ready_for_next)
  show "controls_move (controls db) (controls (snd (cancel_idle_session_interactive pid sid h now db)))"
    unfolding cancel_idle_session_interactive_def Let_def
    by (auto simp: removable_def intro!: control_update_move control_delete_move settled_next)
  show "controls_move (controls db) (controls (snd (begin_stopped_session_interactive pid sid h tok now db)))"
    unfolding begin_stopped_session_interactive_def
    by (auto intro!: control_update_move ready_for_next)
qed

lemma recover_moves [control_moves]:
  "(st, st') \<in> {(Running, ResumeRequested), (StopRequested, Stopped)} \<Longrightarrow>
     controls_move (controls db) (controls (snd (recover_stale_automated_session_control pid sid st st' child tok now db)))"
  "st \<in> {ReadyInteractive, Interactive} \<Longrightarrow>
     controls_move (controls db) (controls (snd (recover_stale_interactive_session_control pid sid st ResumeRequested holder now db)))"
  "controls_move (controls db) (controls (snd (complete_session_stop pid sid token now db)))"
  unfolding recover_stale_automated_session_control_def recover_stale_interactive_session_control_def
    complete_session_stop_def
  by (auto intro!: control_update_move settled_next)

lemma guardian_end_next:
  assumes "sc_state sc \<in> {Interactive, StopRequested}"
  shows "control_next sc (guardian_end d now sc)"
  unfolding guardian_end_def using assms by (auto intro!: settled_next)

lemma guardian_moves [control_moves]:
  "controls_move (controls db) (controls (snd (finish_interactive_guardian pid sid h d now db)))"
  "controls_move (controls db) (controls (snd (recover_stale_interactive_guardian pid sid h child d now db)))"
  unfolding finish_interactive_guardian_def recover_stale_interactive_guardian_def Let_def
  by (auto simp: drop_lease_def intro!: cm_keep cm_update guardian_end_next)

lemma lease_frames [simp]:
  "controls (transfer_lease pid f t now e db) = controls db" "controls (drop_lease pid f db) = controls db"
  "controls (extend_lease pid f now e db) = controls db"
  by (simp_all add: transfer_lease_def drop_lease_def extend_lease_def)

lemma adopt_moves [control_moves]:
  "controls_move (controls db) (controls (snd (adopt_interactive_guardian pid s f g now e db)))"
  "pid_in_range (Some child) \<Longrightarrow> controls_move (controls db) (controls (snd (register_interactive_guardian_child pid sid g child now e db)))"
  unfolding adopt_interactive_guardian_def register_interactive_guardian_child_def Let_def
  by (auto split: option.split simp: control_defs intro!: cm_keep cm_update)

lemma complete_handoff_move [control_moves]:
  "controls_move (controls db) (controls (snd (complete_session_interrupt_handoff pid sid tok f now e db)))"
  unfolding complete_session_interrupt_handoff_def Let_def
  by (auto split: option.split simp: control_defs intro!: cm_keep cm_update)

lemma exited_next:
  assumes "terminal_state (sc_state sc) = Some st"
  shows "control_next sc (exited_control st now sc)"
  using assms by (cases "sc_state sc") (auto simp: control_defs exited_control_def)

lemma hand_lease_controls: "hand_lease pid f h now e db = (r, db') \<Longrightarrow> controls db' = controls db"
  by (auto simp: hand_lease_def split: if_splits prod.splits sum.splits bool.splits dest!: insert_lease_frame)

lemma finalize_session_move [control_moves]:
  "controls_move (controls db) (controls (snd (finalize_automated_session_after_exit pid child tok h re now e db)))"
proof -
  let ?fin = "\<lambda>sid s st. sql_update (\<lambda>c. control_at pid sid c \<and> sc_state c = s
      \<and> sc_child_pid c = Some child \<and> sc_run_token c = Some tok) (exited_control st now) (controls db)"
  have mv: "controls_move (controls db) (?fin sid s st)" if "terminal_state s = Some st" for sid s st
    using that by (intro cm_update exited_next) auto
  have hand: "controls_move (controls db) (controls (snd (case hand_lease pid h x now e db of
        (Inl er, _) \<Rightarrow> (Inl er, db) | (Inr False, _) \<Rightarrow> (Inr False, db)
      | (Inr True, db1) \<Rightarrow> if c then (Inr False, db) else (Inr True, db1\<lparr>controls := sql_update P f (controls db1)\<rparr>))))"
    if "controls_move (controls db) (sql_update P f (controls db))" for x c P f
  proof (cases "hand_lease pid h x now e db")
    case (Pair r d)
    with that hand_lease_controls [OF Pair] show ?thesis
      by (auto split: sum.split bool.split intro: cm_keep)
  qed
  show ?thesis
    unfolding finalize_automated_session_after_exit_def Let_def
    by (simp add: cm_keep mv hand split: option.split)
qed

lemma finalize_session_wrapper_moves [control_moves]:
  "controls_move (controls db) (controls (snd (finalize_reattached_automated_session sc h now e db)))"
  "controls_move (controls db) (controls (snd (finalize_reaped_automated_session pid child tok h now e db)))"
  unfolding finalize_reattached_automated_session_def finalize_reaped_automated_session_def
  by (auto split: option.split intro: cm_keep finalize_session_move)

lemma resume_moves [control_moves]:
  "controls_move (controls db) (controls (snd (retire_completed_resume_request sc now db)))"
  "controls_move (controls db) (controls (snd (clear_orphaned_resume_requested_session pid sid now db)))"
  "controls_move (controls db) (controls (snd (clear_running_session_control pid sid tok db)))"
  "controls_move (controls db) (controls (snd (clear_autonomous_push_resume_request pid sid db)))"
proof -
  show "controls_move (controls db) (controls (snd (retire_completed_resume_request sc now db)))"
    unfolding retire_completed_resume_request_def Let_def
    by (auto intro!: cm_keep cm_update) (auto simp: control_defs unattended_def)
  show "controls_move (controls db) (controls (snd (clear_orphaned_resume_requested_session pid sid now db)))"
    "controls_move (controls db) (controls (snd (clear_running_session_control pid sid tok db)))"
    "controls_move (controls db) (controls (snd (clear_autonomous_push_resume_request pid sid db)))"
    unfolding clear_orphaned_resume_requested_session_def clear_running_session_control_def
      clear_autonomous_push_resume_request_def Let_def
    by (auto simp: removable_def requested_control_def intro!: cm_keep cm_delete control_delete_move)
qed

lemma ensure_resume_move [control_moves]:
  "controls_move (controls db) (controls (snd (ensure_pending_git_finalization_resume_requested pid sid now db)))"
proof -
  let ?tag = "\<lambda>tok. sql_update (requested_control pid sid) (\<lambda>sc. sc\<lparr>sc_run_token := tok, sc_updated_at := now\<rparr>) (controls db)"
  have tag: "controls_move (controls db) (?tag tok)" for tok
    by (rule cm_update) (auto simp: control_defs requested_control_def)
  have none: "?tag tok = controls db" if "\<not> sql_exists (control_at pid sid) (?tag tok)" for tok
  proof -
    have "\<not> requested_control pid sid sc" if "sc \<in> set (controls db)" for sc
      using that sql_update_mem [of sc "controls db" "requested_control pid sid"
          "\<lambda>sc. sc\<lparr>sc_run_token := tok, sc_updated_at := now\<rparr>"] \<open>\<not> sql_exists (control_at pid sid) (?tag tok)\<close>
      by (auto simp: sql_exists_iff requested_control_def control_at_def simp del: if_image_distrib split: if_splits)
    then show ?thesis by (simp add: sql_update_def map_idI)
  qed
  have new: "controls_move (controls db) (sql_insert ((stopped_control pid sid now)
      \<lparr>sc_state := ResumeRequested, sc_run_token := tok\<rparr>) (controls db))"
    if "\<not> sql_exists (control_at pid sid) (controls db)" for tok
    using that by (intro cm_insert)
      (simp_all add: control_at_key [abs_def] control_ok_def control_key_def stopped_control_def)
  have both: "controls_move (controls db) (if sql_exists (control_at pid sid) (?tag tok) then ?tag tok
      else sql_insert ((stopped_control pid sid now)\<lparr>sc_state := ResumeRequested, sc_run_token := tok\<rparr>) (?tag tok))" for tok
    using tag [of tok] none [of tok] new [of tok] by (cases "sql_exists (control_at pid sid) (?tag tok)") auto
  show ?thesis
    unfolding ensure_pending_git_finalization_resume_requested_def Let_def
    by (simp add: cm_keep both split: option.split)
qed

text \<open>A run that registers: over a pending request of its own the request stays.\<close>

lemma rerun_next:
  assumes "pid_in_range (Some child)"
  shows "control_next sc (rerun_control child token out err now sc)"
proof (cases "sc_run_token sc = Some token \<and> sc_state sc \<in> {StopRequested, InterruptRequested}")
  case True
  with assms show ?thesis by (auto simp: rerun_control_def control_defs Let_def)
next
  case False
  then have "sc_state (rerun_control child token out err now sc) = Running"
    "sc_run_token (rerun_control child token out err now sc) = Some token"
    "sc_child_pid (rerun_control child token out err now sc) = Some child"
    "control_key (rerun_control child token out err now sc) = control_key sc"
    "sc_interactive_holder (rerun_control child token out err now sc) = None"
    by (auto simp: rerun_control_def Let_def control_key_def)
  with False assms show ?thesis by (auto simp: control_next_def registers_def control_ok_def)
qed

lemma upsert_move:
  "pid_in_range (Some child) \<Longrightarrow>
     controls_move (controls db) (controls (upsert_running pid sid child token out err now db))"
  unfolding upsert_running_def
  by (auto simp: control_at_key [abs_def] running_control_def control_key_def control_ok_def
      intro!: cm_update cm_insert rerun_next)

lemma consume_controls: "consume_launch_state pid sid token mode now db = (r, db') \<Longrightarrow> controls db' = controls db"
  by (auto simp: consume_launch_state_def Let_def split: if_splits)

lemma insert_mode_controls [simp]: "controls (insert_mode pid sid mode db) = controls db"
  by (simp add: insert_mode_def)

lemma register_mode_controls: "register_git_mode pid sid token mode now db = (r, db') \<Longrightarrow> controls db' = controls db"
  by (auto simp: register_git_mode_def Let_def dest!: consume_controls split: if_splits)

lemma mark_running_move [control_moves]:
  assumes "pid_in_range (Some child)"
  shows "controls_move (controls db) (controls (snd (mark_session_running pid sid child token out err m now db)))"
proof -
  let ?db1 = "upsert_running pid sid child token out err now db"
  have "controls_move (controls db) (controls (snd (case register_git_mode pid sid token mode now ?db1 of
      (Inl e, _) \<Rightarrow> (Inl e, db) | (Inr _, db2) \<Rightarrow> (Inr (), db2))))" for mode
    using upsert_move [OF assms] by (auto split: prod.split sum.split dest!: register_mode_controls intro: cm_keep)
  then show ?thesis unfolding mark_session_running_def Let_def
    by (simp add: cm_keep upsert_move [OF assms] split: option.split)
qed

lemma register_known_move [control_moves]:
  "pid_in_range (Some (ks_child_pid k)) \<Longrightarrow> controls_move (controls db) (controls (snd (register_known_session_with_child k now e db)))"
  unfolding register_known_session_with_child_def Let_def
  by (auto simp: control_at_key [abs_def] intro!: cm_keep cm_update cm_insert fresh_controls_ok)
    (auto simp: control_defs unattended_def running_control_def)

section \<open>The moves of the other repositories\<close>

lemma fence_tag_next:
  "sc_state sc = ResumeRequested \<Longrightarrow> control_next sc (sc\<lparr>sc_run_token := tok, sc_updated_at := now\<rparr>)"
  by (simp add: control_defs)

lemma repair_move: "controls_move (controls db) (controls (repair_recovery_fences pid now db))"
  unfolding repair_recovery_fences_def Let_def by (auto intro!: cm_update fence_tag_next)

lemma advance_fence_move: "controls_move t (advance_fence q t)"
  unfolding advance_fence_def Let_def
  by (auto simp: resume_fence_def removable_def intro!: cm_update cm_delete fence_tag_next)

lemma stop_control_move:
  assumes "\<And>sc. sc \<in> set (controls db) \<Longrightarrow> control_at pid sid sc \<Longrightarrow> sc_state sc \<in> {Stopped, ResumeRequested}"
  shows "controls_move (controls db) (controls (stop_control pid sid tok now db))"
proof -
  have "control_next sc (sc\<lparr>sc_state := Stopped, sc_run_token := tok, sc_updated_at := now\<rparr>)"
    if "sc_state sc \<in> {Stopped, ResumeRequested}" for sc
    using that by (auto simp: control_defs)
  then show ?thesis using assms unfolding stop_control_def
    by (auto simp: control_at_key [abs_def] control_key_def control_ok_def intro!: cm_update cm_insert)
qed

lemma git_move_small [control_moves]:
  "controls_move (controls db) (controls (snd (create_git_finalization f db)))"
  "controls_move (controls db) (controls (snd (enable_session_git f h now db)))"
  "controls_move (controls db) (controls (snd (recover_unmanaged_session_git_mode pid sid p db)))"
  "controls_move (controls db) (controls (snd (record_git_launch_state pid t m s at db)))"
  "controls_move (controls db) (controls (snd (reclaim_unchanged_git_launch_state pid t m s db)))"
  "controls_move (controls db) (controls (snd (delete_git_launch_state pid t db)))"
  "controls_move (controls db) (controls (snd (finish_missing_git_recovery pid h now db)))"
  by (simp_all add: create_git_finalization_def enable_session_git_def recover_unmanaged_session_git_mode_def
      record_git_launch_state_def reclaim_unchanged_git_launch_state_def delete_git_launch_state_def
      finish_missing_git_recovery_def Let_def cm_keep split: option.split)

lemma compare_and_set_controls [control_moves]:
  "controls_move (controls db) (controls (snd (compare_and_set_git_finalization q db)))"
  by (simp add: compare_and_set_git_finalization_def Let_def cm_keep advance_fence_move split: option.split)

lemma exact_idle_removable: "exact_idle tok sc \<Longrightarrow> removable (sc_state sc)"
  by (auto simp: exact_idle_def removable_def)

lemma idle_removable: "idle_control sc \<Longrightarrow> removable (sc_state sc)"
  by (auto simp: idle_control_def removable_def)

lemma cancelled_controls [control_moves]:
  "controls_move (controls db) (controls (snd (cancel_orphaned_working_git_finalization g h r at now db)))"
  "controls_move (controls db) (controls (snd (retire_abandoned_unbound_git_finalization pid sid gen c r at db)))"
  "controls_move (controls db) (controls (snd (retire_superseded_working_git_finalization g c' at db)))"
proof -
  show "controls_move (controls db) (controls (snd (cancel_orphaned_working_git_finalization g h r at now db)))"
    unfolding cancel_orphaned_working_git_finalization_def Let_def
    by (auto split: option.split intro!: cm_keep cm_delete intro: exact_idle_removable)
  show "controls_move (controls db) (controls (snd (retire_abandoned_unbound_git_finalization pid sid gen c r at db)))"
    unfolding retire_abandoned_unbound_git_finalization_def Let_def
    by (auto intro!: cm_keep cm_delete intro: idle_removable)
  show "controls_move (controls db) (controls (snd (retire_superseded_working_git_finalization g c' at db)))"
    unfolding retire_superseded_working_git_finalization_def Let_def
    by (auto intro!: cm_keep cm_delete) (auto simp: control_at_def sql_exists_iff intro: idle_removable)
qed

lemma acknowledge_controls [control_moves]:
  "controls_move (controls db) (controls (snd (acknowledge_completed_git_finalization_session pid sid now db)))"
proof -
  have late: "removable (sc_state sc)" if "late_resume pid sid sc" for sc
    using that by (simp add: late_resume_def removable_def)
  have del: "controls_move (controls db) (sql_delete (\<lambda>sc. late_resume pid sid sc \<and> Q sc) (controls db))"
    "controls_move (controls db) (sql_delete (late_resume pid sid) (controls db))" for Q
    by (intro cm_delete late; simp)+
  show ?thesis
    unfolding acknowledge_completed_git_finalization_session_def Let_def
    by (auto split: option.split prod.split sum.split dest!: acknowledging_run_frame intro: cm_keep del)
qed

lemma sql_count_ex: "sql_count P t \<noteq> 0 \<Longrightarrow> \<exists>r \<in> set t. P r"
  by (auto simp: sql_count_def filter_empty_conv)

lemma cancel_idle_controls [control_moves]:
  "controls_move (controls db) (controls (snd (cancel_idle_working_git_finalization pid sid gen i h a e c db)))"
proof -
  let ?first = "if c = Deletion \<and> can_delete_idle_task db pid sid gen i a then (Inr True, db)
     else fence_project_for_cancellation pid sid gen i h a e db"
  obtain r db1 where first: "?first = (r, db1)" by fastforce
  then have same: "controls db1 = controls db" by (auto split: if_splits dest: fence_project_frame)
  have idle: "idle_control sc" if "r = Inr True" "sc \<in> set (controls db)" "control_at pid sid sc" for sc
  proof (cases "c = Deletion \<and> can_delete_idle_task db pid sid gen i a")
    case True
    then have "\<not> sql_exists (\<lambda>sc. control_at pid sid sc \<and> \<not> idle_control sc) (controls db)"
      unfolding can_delete_idle_task_def by (metis (no_types, lifting) sql_count_ex zero_neq_one)
    with that show ?thesis by (auto simp: sql_exists_iff)
  next
    case False
    with first that(1) have "\<not> sql_exists (\<lambda>sc. sc_project sc = pid \<and> \<not> idle_control sc) (controls db)"
      by (auto simp: fence_project_for_cancellation_def Let_def split: if_splits)
    with that(2,3) show ?thesis by (auto simp: sql_exists_iff control_at_def)
  qed
  have stop: "controls_move (controls db) (controls (stop_control pid sid t at d))"
    if "r = Inr True" "controls d = controls db" for t at d
    using idle [OF that(1)] stop_control_move [of d pid sid t at] that(2) by (auto simp: idle_control_def)
  have del: "controls_move (controls db) (sql_delete (\<lambda>sc. control_at pid sid sc \<and> idle_control sc) (controls db))"
    by (rule cm_delete) (auto intro: idle_removable)
  show ?thesis
  proof (cases "r = Inr True")
    case True
    with stop del same show ?thesis
      unfolding cancel_idle_working_git_finalization_def Let_def first by (simp add: cm_keep)
  next
    case False
    with same show ?thesis unfolding cancel_idle_working_git_finalization_def Let_def first
      by (auto simp: cm_keep split: sum.split bool.split)
  qed
qed

lemma begin_recovery_controls [control_moves]:
  "controls_move (controls db) (controls (snd (begin_missing_git_recovery q db)))"
proof (cases "recovery_refusal db q")
  case None
  then have "\<not> recovery_busy db q" by (auto simp: recovery_refusal_def Let_def split: if_splits)
  then have "sc_state sc \<in> {Stopped, ResumeRequested}"
    if "sc \<in> set (controls db)" "control_at (rq_project q) (rq_session q) sc" for sc
    using that by (auto simp: recovery_busy_def Let_def sql_exists_iff control_at_def)
  then have stop: "controls_move (controls db) (controls (stop_control (rq_project q) (rq_session q) t at d))"
    if "controls d = controls db" for t at d
    using stop_control_move [of d "rq_project q" "rq_session q" t at] that by auto
  show ?thesis unfolding begin_missing_git_recovery_def Let_def None
    by (auto split: prod.split sum.split bool.split intro!: stop cm_keep dest!: insert_lease_frame)
next
  case (Some e)
  then show ?thesis by (simp add: begin_missing_git_recovery_def cm_keep)
qed

lemma git_step_controls: "git_step db db' \<Longrightarrow> controls_move (controls db) (controls db')"
  by (induction rule: git_step.induct) (rule control_moves)+

end
