(* ===== verification/Session_Store.thy ===== *)
theory Session_Store
  imports Session_Machine
begin

text \<open>
  The whole store as one transition system: the transactions on workers and leases, on Git
  journals and on sessions, runs and check-ins interleave freely.  Every reachable registry
  satisfies the invariant of all tables, and the journals evolve as their machine allows.
\<close>

named_theorems session_effects \<open>what the session transactions change beyond the controls\<close>

section \<open>The worker and lease transactions\<close>

lemma repair_frame:
  "journals (repair_recovery_fences pid now db) = journals db" "leases (repair_recovery_fences pid now db) = leases db"
  by (simp_all add: repair_recovery_fences_def Let_def)

lemma acquire_git_controls:
  "controls_move (controls db) (controls (snd (try_acquire_git_finalization_lease pid h a e rc db)))"
  unfolding try_acquire_git_finalization_lease_def Let_def
  by (auto split: prod.split sum.split dest!: insert_lease_frame intro: cm_keep repair_move)

lemma record_run_controls: "record_worker_run oc t db = (r, db') \<Longrightarrow> controls db' = controls db"
  by (auto simp: record_worker_run_def Let_def split: if_splits option.splits)

lemma registry_controls:
  "controls (snd (try_acquire_lease pid h a e db)) = controls db"
  "controls (snd (renew_git_finalization_lease pid h e db)) = controls db"
  "controls (snd (renew_lease pid h e db)) = controls db"
  "controls (snd (release_lease pid h db)) = controls db"
  "controls (snd (reserve_worker r c db)) = controls db"
  "controls (snd (claim_worker token p s db)) = controls db"
  "controls (snd (renew_worker token p hb e db)) = controls db"
  "controls (snd (supersede_abandoned_workers_for_lease pid h db)) = controls db"
  "controls (snd (mark_worker_service_cleaned token at db)) = controls db"
proof -
  have "controls (snd (insert_lease l d)) = controls d" for l d by (simp add: insert_lease_def)
  then show "controls (snd (try_acquire_lease pid h a e db)) = controls db"
    by (simp add: try_acquire_lease_def Let_def)
qed (simp_all add: renew_git_finalization_lease_def renew_lease_def release_lease_def reserve_worker_def
      claim_worker_def renew_worker_def supersede_abandoned_workers_for_lease_def
      mark_worker_service_cleaned_def Let_def split: option.split prod.split)

lemma ending_controls:
  "controls (snd (abandon_worker ab db)) = controls db" "controls (snd (finalize_worker f db)) = controls db"
  unfolding abandon_worker_def finalize_worker_def Let_def
  by (auto split: option.split prod.split sum.split dest!: record_run_controls)

lemma registry_step_controls: "registry_step db db' \<Longrightarrow> controls_move (controls db) (controls db')"
  by (induction rule: registry_step.induct) (simp_all add: registry_controls ending_controls cm_keep acquire_git_controls)

section \<open>What a session transaction changes\<close>

text \<open>Most of them write the controls and the leases only.\<close>

definition session_effect :: "registry \<Rightarrow> registry \<Rightarrow> bool" where
  "session_effect db db' \<longleftrightarrow> db' = db\<lparr>leases := leases db', controls := controls db'\<rparr>
     \<and> (registry_inv db \<longrightarrow> registry_inv (db\<lparr>leases := leases db'\<rparr>))"

lemma session_effect_refl: "session_effect db db"
  by (simp add: session_effect_def)

lemma session_effect_controls: "session_effect db (db\<lparr>controls := t\<rparr>)"
  by (simp add: session_effect_def)

lemma session_effectE:
  assumes "session_effect db d"
  obtains x y where "d = db\<lparr>leases := x, controls := y\<rparr>" "registry_inv db \<longrightarrow> registry_inv (db\<lparr>leases := x\<rparr>)"
  using assms unfolding session_effect_def by blast

lemma session_effect_set:
  assumes "session_effect db d"
  shows "session_effect db (d\<lparr>controls := t\<rparr>)"
proof -
  obtain x y where d: "d = db\<lparr>leases := x, controls := y\<rparr>" and inv: "registry_inv db \<longrightarrow> registry_inv (db\<lparr>leases := x\<rparr>)"
    using assms by (rule session_effectE)
  show ?thesis unfolding session_effect_def d using inv by simp
qed

lemma session_effect_leases:
  "session_effect db (transfer_lease pid f t now e db)" "session_effect db (extend_lease pid f now e db)"
  "session_effect db (drop_lease pid h (db\<lparr>controls := c\<rparr>))"
  by (auto simp: session_effect_def transfer_lease_def extend_lease_def drop_lease_def
      intro: registry_inv_update_lease registry_inv_delete_lease)

lemma session_effect_insert: "insert_lease l db = (r, db') \<Longrightarrow> session_effect db db'"
  using insert_lease_inv [of db l]
  by (auto simp: session_effect_def insert_lease_def split: if_splits)

lemma control_effects:
  "session_effect db (snd (control_update P f db))" "session_effect db (snd (control_delete P db))"
  "session_effect db (snd (insert_control sc db))"
  by (simp_all add: control_update_def control_delete_def insert_control_def session_effect_controls session_effect_refl)

lemma request_effects [session_effects]:
  "session_effect db (snd (request_session_interrupt pid sid child token h now db))"
  "session_effect db (snd (cancel_session_interrupt_handoff pid sid h now db))"
  "session_effect db (snd (request_session_stop pid sid child token now db))"
  "session_effect db (snd (request_interactive_session_stop pid sid child h now db))"
  "session_effect db (snd (request_stopped_session_resume pid sid tok now db))"
  "session_effect db (snd (recover_stale_automated_session_control pid sid st st' child tok now db))"
  "session_effect db (snd (recover_stale_interactive_session_control pid sid st st' holder now db))"
  "session_effect db (snd (complete_session_stop pid sid token now db))"
  "session_effect db (snd (begin_stopped_session_interactive pid sid h tok now db))"
  by (simp_all add: request_session_interrupt_def cancel_session_interrupt_handoff_def request_session_stop_def
      request_interactive_session_stop_def request_stopped_session_resume_def
      recover_stale_automated_session_control_def recover_stale_interactive_session_control_def
      complete_session_stop_def begin_stopped_session_interactive_def control_effects)

lemma reserve_effects [session_effects]:
  "session_effect db (snd (register_planning_session pid sid h now db))"
  "session_effect db (snd (register_shared_planning_session pid sid now db))"
  "session_effect db (snd (reserve_idle_session_interactive_for_state pid sid h tok st'' now db))"
  "session_effect db (snd (reserve_shared_session_interactive pid sid h tok m now db))"
  "session_effect db (snd (cancel_idle_session_interactive pid sid h now db))"
  by (simp_all add: register_planning_session_def register_shared_planning_session_def
      reserve_idle_session_interactive_for_state_def reserve_shared_session_interactive_def
      cancel_idle_session_interactive_def Let_def control_effects session_effect_refl)

lemma resume_effects [session_effects]:
  "session_effect db (snd (retire_completed_resume_request sc now db))"
  "session_effect db (snd (clear_orphaned_resume_requested_session pid sid now db))"
  "session_effect db (snd (clear_running_session_control pid sid tok db))"
  "session_effect db (snd (clear_autonomous_push_resume_request pid sid db))"
  "session_effect db (snd (ensure_pending_git_finalization_resume_requested pid sid now db))"
  by (simp_all add: retire_completed_resume_request_def clear_orphaned_resume_requested_session_def
      clear_running_session_control_def clear_autonomous_push_resume_request_def
      ensure_pending_git_finalization_resume_requested_def Let_def control_effects session_effect_refl
      session_effect_controls split: option.split)

lemmas effect_intros = session_effect_refl session_effect_controls session_effect_set session_effect_leases

lemma guardian_effects [session_effects]:
  "session_effect db (snd (finish_interactive_guardian pid sid h d now db))"
  "session_effect db (snd (recover_stale_interactive_guardian pid sid h child' d now db))"
  "session_effect db (snd (adopt_interactive_guardian pid s f g now e db))"
  "session_effect db (snd (register_interactive_guardian_child pid sid g child now e db))"
  "session_effect db (snd (complete_session_interrupt_handoff pid sid token f now e db))"
  "session_effect db (snd (register_known_session_with_child k now e db))"
  by (simp_all add: finish_interactive_guardian_def recover_stale_interactive_guardian_def
      adopt_interactive_guardian_def register_interactive_guardian_child_def
      complete_session_interrupt_handoff_def register_known_session_with_child_def Let_def
      effect_intros split: option.split)

lemma claim_orphaned_effect [session_effects]:
  "session_effect db (snd (claim_orphaned_session_supervision sc h now e db))"
proof -
  have "session_effect db (snd (insert_lease l db))" for l
    by (rule session_effect_insert [OF prod.collapse [symmetric]])
  then show ?thesis
    by (simp add: claim_orphaned_session_supervision_def Let_def session_effect_refl split: option.split)
qed

lemma claim_orphaned_move [control_moves]:
  "controls_move (controls db) (controls (snd (claim_orphaned_session_supervision sc h now e db)))"
proof -
  have "controls (snd (insert_lease l db)) = controls db" for l by (simp add: insert_lease_def)
  then show ?thesis
    by (simp add: claim_orphaned_session_supervision_def Let_def cm_keep split: option.split)
qed

lemma hand_lease_effect: "hand_lease pid f h now e db = (r, db') \<Longrightarrow> session_effect db db'"
  by (auto simp: hand_lease_def effect_intros split: if_splits prod.splits sum.splits bool.splits
      dest: session_effect_insert)

lemma finalize_session_effect [session_effects]:
  "session_effect db (snd (finalize_automated_session_after_exit pid child tok h re now e db))"
proof -
  have hand: "session_effect db (snd (case hand_lease pid h x now e db of
        (Inl er, _) \<Rightarrow> (Inl er, db) | (Inr False, _) \<Rightarrow> (Inr False, db)
      | (Inr True, db1) \<Rightarrow> if c then (Inr False, db) else (Inr True, db1\<lparr>controls := sql_update P f (controls db1)\<rparr>)))"
    for x c P f
  proof (cases "hand_lease pid h x now e db")
    case (Pair r d)
    with hand_lease_effect [OF Pair] show ?thesis
      by (auto split: sum.split bool.split intro: session_effect_refl session_effect_set)
  qed
  show ?thesis unfolding finalize_automated_session_after_exit_def Let_def
    by (simp add: effect_intros hand split: option.split)
qed

lemma finalize_wrapper_effects [session_effects]:
  "session_effect db (snd (finalize_reattached_automated_session sc h now e db))"
  "session_effect db (snd (finalize_reaped_automated_session pid child tok h now e db))"
  unfolding finalize_reattached_automated_session_def finalize_reaped_automated_session_def
  by (auto split: option.split intro: session_effect_refl finalize_session_effect)

section \<open>The invariant\<close>

definition agent_inv :: "registry \<Rightarrow> bool" where
  "agent_inv db \<longleftrightarrow> store_inv db \<and> (\<forall>sc \<in> set (controls db). control_ok sc)"

lemma agent_invD:
  assumes "agent_inv db"
  shows "store_inv db" "\<And>sc. sc \<in> set (controls db) \<Longrightarrow> control_ok sc"
  using assms by (simp_all add: agent_inv_def)

lemma agent_invI:
  assumes "agent_inv db" "store_inv db'" "controls_move (controls db) (controls db')"
  shows "agent_inv db'"
  using assms controls_move_ok by (simp add: agent_inv_def)

lemma session_effect_inv:
  assumes inv: "agent_inv db" and move: "controls_move (controls db) (controls db')" and eff: "session_effect db db'"
  shows "agent_inv db'"
proof (rule agent_invI [OF inv _ move])
  note st = agent_invD(1) [OF inv]
  obtain x y where d: "db' = db\<lparr>leases := x, controls := y\<rparr>" and lea: "registry_inv db \<longrightarrow> registry_inv (db\<lparr>leases := x\<rparr>)"
    using eff by (rule session_effectE)
  have "core db' = core (db\<lparr>leases := x\<rparr>)" by (simp add: d core_def)
  then have reg: "registry_inv db'" using lea store_invD(1) [OF st] by (blast intro: registry_inv_core_db)
  have "unique_on control_key (controls db')" using move store_invD(5) [OF st] by (rule controls_move_unique)
  then show "store_inv db'"
    using reg st by (simp add: store_inv_def project_exists_def d)
qed

section \<open>Registering a run\<close>

lemma upsert_frame [simp]:
  "journals (upsert_running p s c t x y n db) = journals db" "projects (upsert_running p s c t x y n db) = projects db"
  "launches (upsert_running p s c t x y n db) = launches db" "core (upsert_running p s c t x y n db) = core db"
  "session_modes (upsert_running p s c t x y n db) = session_modes db"
  by (simp_all add: upsert_running_def core_def)

lemma insert_mode_frame [simp]:
  "journals (insert_mode p s m db) = journals db" "projects (insert_mode p s m db) = projects db"
  "launches (insert_mode p s m db) = launches db" "core (insert_mode p s m db) = core db"
  by (simp_all add: insert_mode_def core_def)

lemma insert_mode_unique:
  assumes "unique_on mode_key (session_modes db)"
  shows "unique_on mode_key (session_modes (insert_mode p s m db))"
proof -
  have "unique_on mode_key (sql_insert \<lparr>sm_project = p, sm_session = s, sm_git_mode = m\<rparr> (session_modes db))"
    if "\<not> sql_exists (mode_at p s) (session_modes db)"
    using that assms by (intro unique_on_insert) (auto simp: mode_key_def mode_at_def sql_exists_iff)
  then show ?thesis using assms by (simp add: insert_mode_def)
qed

text \<open>The effect of turning a launch boundary into a journal.\<close>

lemma consume_cases [consumes 1, case_names same inserted]:
  assumes "consume_launch_state pid sid token mode now db = (Inr u, db')"
  obtains (same) "db' = db" "sql_count (owned_journal pid sid mode token) (journals db) = 1"
      "agreeing_rows db pid sid mode token = 1"
  | (inserted) a where "sql_select (\<lambda>a. launch_at pid token a \<and> gl_git_mode a = mode) (launches db) = Some a"
      "\<not> sql_exists (journal_at pid sid) (journals db)"
      "db' = db\<lparr>journals := sql_insert (launched_journal sid now a) (journals db),
               launches := sql_delete (launch_at pid token) (launches db)\<rparr>"
proof (cases "sql_select (\<lambda>a. launch_at pid token a \<and> gl_git_mode a = mode) (launches db) \<noteq> None
    \<and> \<not> sql_exists (journal_at pid sid) (journals db)")
  case True
  then obtain a where "sql_select (\<lambda>a. launch_at pid token a \<and> gl_git_mode a = mode) (launches db) = Some a" by blast
  with True assms show thesis
    by (intro inserted) (simp_all add: consume_launch_state_def Let_def eq_commute [of _ db'] split: if_splits)
next
  case False
  then have "db' = db" "sql_count (owned_journal pid sid mode token) (journals db) = 1"
    "agreeing_rows db pid sid mode token = 1"
    using assms unfolding consume_launch_state_def Let_def by (simp_all only: if_False split: if_splits) simp_all
  then show thesis by (rule same)
qed

lemma register_mode_cases [consumes 1, case_names off git]:
  assumes "register_git_mode pid sid token mode now db = (Inr u, db')"
  obtains (off) "db' = insert_mode pid sid Off db"
  | (git) "mode \<noteq> Off" "consume_launch_state pid sid token mode now (insert_mode pid sid mode db) = (Inr u, db')"
  using assms by (auto simp: register_git_mode_def Let_def split: if_splits)

lemma mark_running_cases [case_names refused plain git]:
  fixes pid sid child token out err m now db
  defines "db' \<equiv> snd (mark_session_running pid sid child token out err m now db)"
    and "db1 \<equiv> upsert_running pid sid child token out err now db"
  obtains (refused) "db' = db"
  | (plain) "project_exists db pid" "db' = db1 \<or> db' = insert_mode pid sid Off db1"
  | (git) mode where "project_exists db pid" "mode \<noteq> Off"
      "consume_launch_state pid sid token mode now (insert_mode pid sid mode db1) = (Inr (), db')"
proof -
  let ?late = "known_worker db token \<and> \<not> fenced_worker db pid token"
  let ?other = "fenced_worker db pid token \<and> sql_exists (\<lambda>sc. control_at pid sid sc \<and> sc_run_token sc \<noteq> None
      \<and> sc_run_token sc \<noteq> Some token) (controls db)"
  note d = db'_def mark_session_running_def Let_def db1_def [symmetric]
  show thesis
  proof (cases "?late \<or> ?other \<or> \<not> project_exists db pid")
    case True
    then have "db' = db" unfolding d by auto
    then show thesis by (rule refused)
  next
    case False
    then have ok: "?late = False" "?other = False" "project_exists db pid" by blast+
    show thesis
    proof (cases m)
      case None
      then have "db' = db1" unfolding d ok by (simp add: ok)
      with ok(3) show thesis by (intro plain) simp_all
    next
      case (Some mode)
      obtain r d' where reg: "register_git_mode pid sid token mode now db1 = (r, d')" by fastforce
      show thesis
      proof (cases r)
        case (Inl e)
        with Some reg have "db' = db" unfolding d ok by (simp add: ok)
        then show thesis by (rule refused)
      next
        case (Inr u)
        with Some reg have "db' = d'" unfolding d ok by (simp add: ok)
        with reg Inr have "register_git_mode pid sid token mode now db1 = (Inr (), db')" by simp
        then show thesis
        proof (cases rule: register_mode_cases)
          case off
          with ok(3) show thesis by (intro plain) simp_all
        next
          case g: git
          with ok(3) show thesis by (intro git [of mode]) simp_all
        qed
      qed
    qed
  qed
qed

lemma launched_journal_project: "g_project (launched_journal sid now a) = gl_project a"
  by (simp add: launched_journal_def new_journal_def)

lemma mark_running_journals:
  "plain_move (journals db) (journals (snd (mark_session_running pid sid child token out err m now db)))"
proof (cases rule: mark_running_cases [where pid = pid and sid = sid and child = child and token = token
      and out = out and err = err and m = m and now = now and db = db])
  case (git mode)
  show ?thesis using git(3)
  proof (cases rule: consume_cases)
    case (inserted a)
    then have "gl_project a = pid" "gl_git_mode a = mode" by (auto dest!: sql_select_Some simp: launch_at_def)
    with inserted git(2) show ?thesis by (auto simp: launched_journal_def intro!: move_create)
  qed (simp add: move_keep)
qed (auto intro: move_keep)

lemma mark_running_side:
  assumes child: "pid_in_range (Some child)"
  shows "side_ok db (snd (mark_session_running pid sid child token out err m now db))"
proof (cases rule: mark_running_cases [where pid = pid and sid = sid and child = child and token = token
      and out = out and err = err and m = m and now = now and db = db])
  case refused
  then show ?thesis by (simp add: side_ok_refl)
next
  case plain
  with controls_move_unique [OF upsert_move [OF child]] show ?thesis
    by (auto simp: side_ok_def insert_mode_unique)
next
  case (git mode)
  let ?d = "insert_mode pid sid mode (upsert_running pid sid child token out err now db)"
  have un: "unique_on control_key (controls ?d)" if "unique_on control_key (controls db)"
    using that controls_move_unique [OF upsert_move [OF child]] by simp
  have um: "unique_on mode_key (session_modes ?d)" if "unique_on mode_key (session_modes db)"
    using that by (intro insert_mode_unique) simp
  show ?thesis using git(3)
  proof (cases rule: consume_cases)
    case same
    with un um show ?thesis by (auto simp: side_ok_def)
  next
    case (inserted a)
    then have "gl_project a = pid" by (auto dest!: sql_select_Some simp: launch_at_def)
    with inserted(3) un um git(1) show ?thesis
      by (auto simp: side_ok_def launched_journal_project intro: unique_on_delete)
  qed
qed

lemma mark_running_core: "core (snd (mark_session_running pid sid child token out err m now db)) = core db"
proof (cases rule: mark_running_cases [where pid = pid and sid = sid and child = child and token = token
      and out = out and err = err and m = m and now = now and db = db])
  case (git mode)
  show ?thesis using git(3)
  proof (cases rule: consume_cases)
    case same
    then show ?thesis by simp
  next
    case (inserted a)
    have "core (d\<lparr>journals := x, launches := y\<rparr>) = core d" for d :: registry and x y by (simp add: core_def)
    then show ?thesis unfolding inserted(3) by simp
  qed
qed auto

section \<open>The transition system\<close>

text \<open>\<^verbatim>\<open>recover_stale_automated_session_control\<close> and \<^verbatim>\<open>recover_stale_interactive_session_control\<close> take the
  states as arguments; the steps are the pairs their callers pass.  The process id of a registered
  child is a \<^verbatim>\<open>u32\<close>.  \<^verbatim>\<open>transition_session_control_state\<close>
  has no reachable call outside the tests and is not a step.\<close>

inductive session_step :: "registry \<Rightarrow> registry \<Rightarrow> bool" where
  ses_mark: "pid_in_range (Some child) \<Longrightarrow> session_step db (snd (mark_session_running pid sid child token out err m now db))"
| ses_interrupt: "session_step db (snd (request_session_interrupt pid sid child token h now db))"
| ses_cancel_interrupt: "session_step db (snd (cancel_session_interrupt_handoff pid sid h now db))"
| ses_stop: "session_step db (snd (request_session_stop pid sid child token now db))"
| ses_interactive_stop: "session_step db (snd (request_interactive_session_stop pid sid child h now db))"
| ses_resume: "session_step db (snd (request_stopped_session_resume pid sid tok now db))"
| ses_planning: "session_step db (snd (register_planning_session pid sid h now db))"
| ses_shared_planning: "session_step db (snd (register_shared_planning_session pid sid now db))"
| ses_reserve_idle: "session_step db (snd (reserve_idle_session_interactive_for_state pid sid h tok st'' now db))"
| ses_reserve_shared: "session_step db (snd (reserve_shared_session_interactive pid sid h tok b now db))"
| ses_cancel_idle: "session_step db (snd (cancel_idle_session_interactive pid sid h now db))"
| ses_recover_automated: "(st, st') \<in> {(Running, ResumeRequested), (StopRequested, Stopped)} \<Longrightarrow>
    session_step db (snd (recover_stale_automated_session_control pid sid st st' child tok now db))"
| ses_claim_orphaned: "session_step db (snd (claim_orphaned_session_supervision sc h now e db))"
| ses_finalize_reattached: "session_step db (snd (finalize_reattached_automated_session sc h now e db))"
| ses_finalize_reaped: "session_step db (snd (finalize_reaped_automated_session pid child token h now e db))"
| ses_recover_interactive: "st \<in> {ReadyInteractive, Interactive} \<Longrightarrow>
    session_step db (snd (recover_stale_interactive_session_control pid sid st ResumeRequested holder now db))"
| ses_begin_stopped: "session_step db (snd (begin_stopped_session_interactive pid sid h tok now db))"
| ses_adopt: "session_step db (snd (adopt_interactive_guardian pid s f g now e db))"
| ses_register_child: "pid_in_range (Some child) \<Longrightarrow> session_step db (snd (register_interactive_guardian_child pid sid g child now e db))"
| ses_finish_guardian: "session_step db (snd (finish_interactive_guardian pid sid h d now db))"
| ses_recover_guardian: "session_step db (snd (recover_stale_interactive_guardian pid sid h child' d now db))"
| ses_complete_stop: "session_step db (snd (complete_session_stop pid sid token now db))"
| ses_handoff: "session_step db (snd (complete_session_interrupt_handoff pid sid token f now e db))"
| ses_ensure: "session_step db (snd (ensure_pending_git_finalization_resume_requested pid sid now db))"
| ses_retire: "session_step db (snd (retire_completed_resume_request sc now db))"
| ses_clear_orphaned: "session_step db (snd (clear_orphaned_resume_requested_session pid sid now db))"
| ses_known: "pid_in_range (Some (ks_child_pid k)) \<Longrightarrow> session_step db (snd (register_known_session_with_child k now e db))"
| ses_clear_running: "session_step db (snd (clear_running_session_control pid sid tok db))"
| ses_clear_push: "session_step db (snd (clear_autonomous_push_resume_request pid sid db))"
| ses_record_run: "session_step db (snd (record_run_outcome oc db))"
| ses_checkin: "session_step db (snd (record_daemon_checkin c db))"
| ses_clear_checkin: "session_step db (snd (clear_daemon_checkin holder' db))"

lemma record_run_frame:
  "controls (snd (record_run_outcome oc db)) = controls db" "journals (snd (record_run_outcome oc db)) = journals db"
  by (simp_all add: record_run_outcome_def Let_def)

lemma checkin_frame:
  "controls (snd (record_daemon_checkin c db)) = controls db" "controls (snd (clear_daemon_checkin h db)) = controls db"
  "journals (snd (record_daemon_checkin c db)) = journals db" "journals (snd (clear_daemon_checkin h db)) = journals db"
  by (simp_all add: record_daemon_checkin_def clear_daemon_checkin_def)

lemma session_step_controls: "session_step db db' \<Longrightarrow> controls_move (controls db) (controls db')"
  by (induction rule: session_step.induct)
    (simp_all add: control_moves record_run_frame checkin_frame cm_keep)

lemma session_effect_journals: "session_effect db db' \<Longrightarrow> journals db' = journals db"
  by (auto elim!: session_effectE)

lemma session_step_plain: "session_step db db' \<Longrightarrow> plain_move (journals db) (journals db')"
  by (induction rule: session_step.induct)
    (simp_all add: session_effects [THEN session_effect_journals] mark_running_journals record_run_frame
      checkin_frame move_keep)

lemma session_step_journals: "session_step db db' \<Longrightarrow> journal_move (journals db) (journals db')"
  by (rule move_plain [OF session_step_plain])

lemma record_run_inv:
  assumes "agent_inv db"
  shows "agent_inv (snd (record_run_outcome oc db))"
proof (rule agent_invI [OF assms])
  note st = agent_invD(1) [OF assms]
  let ?rid = "next_rowid r_id (runs db)"
  let ?d = "db\<lparr>runs := sql_insert (plain_run oc ?rid) (runs db)\<rparr>"
  have "registry_inv ?d"
    using store_invD(1) [OF st] by (rule registry_inv_insert_run) (simp_all add: plain_run_def)
  moreover have "core (update_project_after_run oc ?d) = core ?d" by (simp add: core_def del: map_eq_conv)
  ultimately have "registry_inv (update_project_after_run oc ?d)" by (blast intro: registry_inv_core_db)
  then have "registry_inv (snd (record_run_outcome oc db))"
    using store_invD(1) [OF st] by (simp add: record_run_outcome_def Let_def)
  moreover have "side_ok db (snd (record_run_outcome oc db))"
    by (rule side_ok_same) (simp_all add: record_run_outcome_def Let_def del: map_eq_conv)
  ultimately show "store_inv (snd (record_run_outcome oc db))"
    using store_invI [OF st] by (simp add: record_run_frame move_plain move_keep)
qed (simp add: record_run_frame cm_keep)

lemma checkin_inv:
  assumes "agent_inv db"
  shows "agent_inv (snd (record_daemon_checkin c db))" "agent_inv (snd (clear_daemon_checkin h db))"
proof -
  have "core (db\<lparr>checkins := x\<rparr>) = core db" for x by (simp add: core_def)
  then have "registry_inv (db\<lparr>checkins := x\<rparr>)" for x
    using store_invD(1) [OF agent_invD(1) [OF assms]] by (blast intro: registry_inv_core_db)
  then have "agent_inv (db\<lparr>checkins := x\<rparr>)" for x
    using assms by (simp add: agent_inv_def store_inv_def project_exists_def)
  then show "agent_inv (snd (record_daemon_checkin c db))" "agent_inv (snd (clear_daemon_checkin h db))"
    by (simp_all add: record_daemon_checkin_def clear_daemon_checkin_def)
qed

lemma mark_running_inv:
  assumes "agent_inv db" and child: "pid_in_range (Some child)"
  shows "agent_inv (snd (mark_session_running pid sid child token out err m now db))"
proof (rule agent_invI [OF assms(1) _ mark_running_move [OF child]])
  show "store_inv (snd (mark_session_running pid sid child token out err m now db))"
    using registry_inv_core_db [OF mark_running_core store_invD(1)] agent_invD(1) [OF assms(1)]
    by (blast intro: store_invI mark_running_side [OF child] move_plain mark_running_journals)
qed

lemma session_step_inv: "session_step db db' \<Longrightarrow> agent_inv db \<Longrightarrow> agent_inv db'"
  by (induction rule: session_step.induct)
    (blast intro: mark_running_inv record_run_inv checkin_inv control_moves
      session_effect_inv [OF _ _ session_effects(1)] session_effect_inv [OF _ _ session_effects(2)] session_effects session_effect_inv)+

definition agent_step :: "registry \<Rightarrow> registry \<Rightarrow> bool" where
  "agent_step db db' \<longleftrightarrow> store_step db db' \<or> session_step db db'"

lemma agent_step_controls: "agent_step db db' \<Longrightarrow> controls_move (controls db) (controls db')"
  unfolding agent_step_def store_step_def
  using registry_step_controls git_step_controls session_step_controls by blast

lemma agent_step_journals:
  "agent_step db db' \<Longrightarrow> journals_wf (journals db) \<Longrightarrow> journal_move (journals db) (journals db')"
  unfolding agent_step_def using store_step_move session_step_journals by blast

interpretation agent: invariant_system store_init agent_step agent_inv
proof unfold_locales
  show "store_init db \<Longrightarrow> agent_inv db" for db
    using store.init_inv [of db] by (simp add: agent_inv_def store_init_def)
  show "agent_inv db'" if "agent_inv db" "agent_step db db'" for db db'
  proof (cases "session_step db db'")
    case True
    then show ?thesis using that(1) by (rule session_step_inv)
  next
    case False
    then have "store_step db db'" using that(2) by (simp add: agent_step_def)
    then have "store_inv db'" by (rule store.step_inv [OF agent_invD(1) [OF that(1)]])
    then show ?thesis using agent_invI [OF that(1)] agent_step_controls [OF that(2)] by blast
  qed
qed

lemma agent_reach_store: "reach store_init agent_step db \<Longrightarrow> store_inv db"
  using agent.reach_inv agent_invD(1) by blast

lemma agent_steps_store: "steps agent_step db db' \<Longrightarrow> reach store_init agent_step db \<Longrightarrow> store_inv db'"
  using agent.steps_inv agent.reach_inv agent_invD(1) by blast

lemma agent_steps_evolve:
  assumes "reach store_init agent_step db" "steps agent_step db db'"
  shows "journals_evolve (journals db) (journals db')"
proof (rule agent.steps_rel [OF assms(2) agent.reach_inv [OF assms(1)]])
  show "journals_evolve (journals a) (journals b)" if "agent_inv a" "agent_step a b" for a b
    using agent_step_journals [OF that(2) store_invD(2) [OF agent_invD(1) [OF that(1)]]]
      journal_move_evolve store_invD(2) [OF agent_invD(1) [OF that(1)]] by blast
qed (auto intro: journals_evolve_refl journals_evolve_trans)

end
