(* ===== verification/Git_Theorems.thy ===== *)
theory Git_Theorems
  imports Journal_Theorems Session_Store
begin

text \<open>
  The properties of the Git journal repository and of its interplay with workers and leases,
  with a concrete history of one journal from its creation to its acknowledgement.
\<close>

section \<open>Leases under the Git transactions\<close>

definition project_leases :: "registry \<Rightarrow> int \<Rightarrow> lease_row list" where
  "project_leases db pid = filter (\<lambda>l. l_project l = pid) (leases db)"

lemma lease_holder_project_leases:
  "project_leases db' pid = project_leases db pid \<Longrightarrow> lease_holder_of db' pid = lease_holder_of db pid"
  by (simp add: lease_holder_of_def sql_select_def project_leases_def)

lemma insert_lease_other:
  "insert_lease l db = (r, db') \<Longrightarrow> l_project l \<noteq> pid \<Longrightarrow> project_leases db' pid = project_leases db pid"
  by (auto simp: insert_lease_def project_leases_def sql_insert_def split: if_splits)

lemma fence_project_leases:
  assumes "fence_project_for_cancellation p sid gen i h a e db = (r, db')" "has_active_worker db pid"
  shows "project_leases db' pid = project_leases db pid"
proof (cases "p = pid")
  case True
  then show ?thesis using assms by (simp add: fence_project_for_cancellation_def Let_def)
next
  case False
  have "project_leases (db\<lparr>leases := sql_delete (\<lambda>l. l_project l = p \<and> Q l) (leases db)\<rparr>) pid = project_leases db pid"
    for Q using False unfolding project_leases_def sql_delete_def by (auto intro!: filter_cong)
  then show ?thesis using assms(1) False unfolding fence_project_for_cancellation_def Let_def
    by (auto split: if_splits prod.splits sum.splits dest!: insert_lease_other [where pid = pid])
qed

lemma same_leases: "core db' = core db \<Longrightarrow> leases db' = leases db"
  by (simp add: core_def)

lemma cancel_idle_leases:
  assumes "has_active_worker db pid"
  shows "project_leases (snd (cancel_idle_working_git_finalization p sid gen i h a e c db)) pid = project_leases db pid"
proof -
  let ?first = "if c = Deletion \<and> can_delete_idle_task db p sid gen i a then (Inr True, db)
     else fence_project_for_cancellation p sid gen i h a e db"
  obtain r db1 where first: "?first = (r, db1)" by fastforce
  then have "project_leases db1 pid = project_leases db pid"
    using assms by (auto split: if_splits dest: fence_project_leases)
  then show ?thesis
    unfolding cancel_idle_working_git_finalization_def Let_def first
    by (auto simp: project_leases_def split: sum.split bool.split)
qed

lemma begin_recovery_leases:
  assumes "has_active_worker db pid"
  shows "project_leases (snd (begin_missing_git_recovery q db)) pid = project_leases db pid"
proof (cases "rq_project q = pid")
  case True
  then have "recovery_busy db q" using assms by (simp add: recovery_busy_def)
  then show ?thesis by (auto simp: begin_missing_git_recovery_def recovery_refusal_def Let_def)
next
  case False
  have "project_leases (stop_control p s t at d) pid = project_leases d pid" for p s t at d
    by (simp add: project_leases_def)
  then show ?thesis using False unfolding begin_missing_git_recovery_def Let_def
    by (auto split: option.split prod.split sum.split bool.split dest!: insert_lease_other [where pid = pid])
       (simp_all add: project_leases_def)
qed

lemma acknowledge_leases: "leases (snd (acknowledge_completed_git_finalization_session pid sid now db)) = leases db"
proof (cases rule: acknowledge_cases [where pid = pid and sid = sid and now = now and db = db])
  case (marked g at rid db1 db2 P)
  then show ?thesis using acknowledging_run_frame [OF marked(1)] by simp
qed simp_all

lemma git_step_leases:
  assumes "git_step db db'" "has_active_worker db pid"
  shows "project_leases db' pid = project_leases db pid"
  using assms
proof (induction rule: git_step.induct)
  case (git_cancel_idle db p sid gen i h a e k)
  then show ?case by (rule cancel_idle_leases)
next
  case (git_begin_recovery db rq)
  then show ?case by (rule begin_recovery_leases)
next
  case (git_acknowledge db p sid now)
  then show ?case by (simp add: project_leases_def acknowledge_leases)
qed (simp_all only: project_leases_def same_leases [OF core_unchanged(1)] same_leases [OF core_unchanged(2)]
    same_leases [OF core_unchanged(3)] same_leases [OF core_unchanged(4)] same_leases [OF core_unchanged(5)]
    same_leases [OF core_unchanged(6)] same_leases [OF core_compare_and_set] same_leases [OF core_cancelled(1)]
    same_leases [OF core_cancelled(2)] same_leases [OF core_cancelled(3)] same_leases [OF core_finish])

section \<open>Launch boundaries\<close>

lemma recorded_launch:
  assumes inv: "unique_on gl_project (launches db)"
    and rec: "record_git_launch_state pid token mode start at db = (Inr b, db')"
  shows "\<exists>a \<in> set (launches db'). exact_launch pid token mode start a"
proof (cases b)
  case True
  then show ?thesis using rec
    by (auto simp: record_git_launch_state_def Let_def exact_launch_def launch_at_def launch_start_def split: if_splits)
next
  case False
  then have "db' = db" "sql_count (exact_launch pid token mode start) (launches db) = 1"
    using rec by (auto simp: record_git_launch_state_def Let_def split: if_splits)
  then show ?thesis using sql_count_pos [of "exact_launch pid token mode start" "launches db"] by simp
qed

lemma sole_launch:
  assumes "unique_on gl_project t" "a \<in> set t"
  shows "filter (\<lambda>b. gl_project b = gl_project a) t = [a]"
  using assms
proof (induction t)
  case (Cons b t)
  show ?case
  proof (cases "b = a")
    case True
    then have "\<forall>c \<in> set t. gl_project c \<noteq> gl_project a" using Cons.prems(1) by (auto simp: unique_on_def image_iff)
    with True show ?thesis by (simp add: filter_empty_conv)
  next
    case False
    then have "gl_project b \<noteq> gl_project a" using Cons.prems by (auto simp: unique_on_def image_iff)
    with False show ?thesis using Cons by (simp add: unique_on_def)
  qed
qed simp

section \<open>A journal's history\<close>

definition demo_new :: NewGitFinalization where
  "demo_new = \<lparr>nf_project = 1, nf_session = lit ''s1'', nf_git_mode = CommitAndPush,
     nf_starting_head = Some (lit ''abc''), nf_branch_ref = Some (lit ''main''), nf_upstream_ref = None,
     nf_worktree_baseline = lit ''{}'', nf_task_identity = None, nf_owner_run_token = None,
     nf_created_at = lit ''1000''\<rparr>"

definition demo_update :: "int \<Rightarrow> GitFinalizationState \<Rightarrow> str option \<Rightarrow> str option \<Rightarrow> cas_request" where
  "demo_update gen next identity oid = \<lparr>cq_project = 1, cq_session = lit ''s1'', cq_expected_generation = gen,
     cq_next_state = next, cq_task_identity = identity, cq_worktree_baseline = None,
     cq_require_running_owner = False, cq_owner_run_token = None, cq_commit_oid = oid, cq_last_error = None,
     cq_updated_at = lit ''1005''\<rparr>"

definition demo_updates :: "cas_request list" where
  "demo_updates = [demo_update 0 Tracking (Some (lit ''task'')) None, demo_update 0 Cancelled None None,
     demo_update 1 CommitPending None None, demo_update 2 PushPending None (Some (lit ''c0ffee'')),
     demo_update 3 Completed None None]"

definition demo_journal :: registry where
  "demo_journal = snd (create_git_finalization demo_new demo_init)"

definition demo_pushing :: registry where
  "demo_pushing = after_race cas_attempt (butlast demo_updates) demo_journal"

definition demo_published :: registry where
  "demo_published = snd (compare_and_set_git_finalization (demo_update 3 Completed None None) demo_pushing)"

lemma store_reach_git: "reach store_init agent_step db \<Longrightarrow> git_step db db' \<Longrightarrow> reach store_init agent_step db'"
  by (erule reach_step) (simp add: agent_step_def store_step_def)

lemma steps_cas_race: "steps agent_step db0 db \<Longrightarrow> steps agent_step db0 (after_race cas_attempt qs db)"
proof (induction qs arbitrary: db)
  case (Cons q qs)
  have "snd (cas_attempt q db) = snd (compare_and_set_git_finalization q db)"
    by (simp add: cas_attempt_def split: prod.split)
  then have "agent_step db (snd (cas_attempt q db))" using git_compare_and_set [of db q] by (simp add: agent_step_def store_step_def)
  with Cons.prems have "steps agent_step db0 (snd (cas_attempt q db))" by (rule steps_snoc)
  with Cons.IH show ?case by simp
qed simp

lemma reach_steps: "steps step s s' \<Longrightarrow> reach init step s \<Longrightarrow> reach init step s'"
  by (induction rule: steps.induct) (auto intro: reach_step)

lemma demo_journal_reach: "reach store_init agent_step demo_journal"
proof -
  have "store_init demo_init"
    using demo_init_ok by (simp add: store_init_def demo_init_def empty_registry_def)
  then show ?thesis unfolding demo_journal_def
    by (rule store_reach_git [OF reach_init git_create])
qed

lemma demo_pushing_reach: "reach store_init agent_step demo_pushing"
  unfolding demo_pushing_def by (rule reach_steps [OF steps_cas_race [OF steps_refl] demo_journal_reach])

text \<open>In every state the repositories can reach, in any interleaving of their transactions
  on workers, leases, Git journals, sessions, runs and check-ins, the schema's keys and
  references hold; a project has at most one finalizing journal, one active worker, one lease
  and one launch boundary; every journal carries the proofs its state claims (an identity from
  tracking on, a commit once it is pushed or completed, a completion time exactly when it is
  terminal); and every session control names what its state promises: a running one its process
  and run, an interrupted one also its interactive owner, an interactive one its guardian, one
  at rest neither a process nor an owner.\<close>

theorem reachable_agent_inv:
  assumes "reach store_init agent_step db"
  shows "agent_inv db"
  using assms by (rule agent.reach_inv)

theorem reachable_agent_inv_witness: "agent_inv demo_journal"
  using demo_journal_reach by (rule reachable_agent_inv)


lemma demo_journal_rows: "journals demo_journal = [new_journal demo_new]"
  by code_simp


text \<open>The updates of a journal are linear: for any sequence of compare-and-set requests, by
  any processes, the accepted ones for one session expect consecutive generations from the
  journal's own on, each exactly once, and the journal ends at the next one.\<close>

theorem journal_updates_linear:
  assumes "reach store_init agent_step db"
  shows "map cq_expected_generation (filter (\<lambda>q. cas_key q = k) (winners cas_attempt qs db)) =
    [journal_version db k .. journal_version (after_race cas_attempt qs db) k - 1]"
  using cas.accepted_versions [of db k qs] store_invD(2) [OF agent_reach_store [OF assms]] by blast

theorem journal_updates_linear_witness:
  "map cq_expected_generation (winners cas_attempt demo_updates demo_journal) = [0, 1, 2, 3]"
proof -
  have "filter (\<lambda>q. cas_key q = (1, lit ''s1'')) (winners cas_attempt demo_updates demo_journal) =
      winners cas_attempt demo_updates demo_journal" by code_simp
  moreover have "journal_version demo_journal (1, lit ''s1'') = 0"
    "journal_version (after_race cas_attempt demo_updates demo_journal) (1, lit ''s1'') = 4" by code_simp+
  ultimately show ?thesis
    using journal_updates_linear [OF demo_journal_reach, of "(1, lit ''s1'')" demo_updates] by (simp add: upto_rec1)
qed

text \<open>The compare-and-set of a journal on a consistent registry: it is accepted exactly when the
  journal has the expected generation, the required owner runs, every check of the proposed
  row passes, no other journal of the project is finalizing and the generation can grow; it
  then writes that journal's row and its recovery fence; otherwise, error or refusal, the
  registry is unchanged.\<close>

theorem compare_and_set_spec:
  assumes "store_inv db" and "compare_and_set_git_finalization q db = (r, db')"
  shows "(r = Inr True \<longleftrightarrow> (\<exists>g. git_finalization db (cq_project q) (cq_session q) = Some g
        \<and> g_generation g = cq_expected_generation q \<and> cas_rejection g q = None \<and> \<not> finalizing_conflict db q
        \<and> (cq_require_running_owner q \<longrightarrow> (\<exists>t. cq_owner_run_token q = Some t
             \<and> sql_count (running_owner (cq_project q) (cq_session q) t) (controls db) = 1))
        \<and> cq_expected_generation q < i64_max))
    \<and> db' = (if r = Inr True
        then db\<lparr>journals := sql_update (journal_at (cq_project q) (cq_session q)) (cas_row q) (journals db),
                controls := advance_fence q (controls db)\<rparr>
        else db)"
proof -
  have wf: "journals_wf (journals db)" using assms(1) by (rule store_invD)
  have sole: "sql_update (cas_mine q) (cas_row q) (journals db) =
      sql_update (journal_at (cq_project q) (cq_session q)) (cas_row q) (journals db)"
    if "git_finalization db (cq_project q) (cq_session q) = Some g" "g_generation g = cq_expected_generation q" for g
    unfolding sql_update_def using journal_unique [OF wf that(1)] that(2)
    by (intro map_cong) (auto simp: cas_mine_def)
  show ?thesis using wf
  proof (cases rule: compare_and_set_cases [where q = q])
    case (refused e)
    have "\<not> (\<exists>g. git_finalization db (cq_project q) (cq_session q) = Some g
        \<and> g_generation g = cq_expected_generation q \<and> cas_rejection g q = None \<and> \<not> finalizing_conflict db q
        \<and> (cq_require_running_owner q \<longrightarrow> (\<exists>t. cq_owner_run_token q = Some t
             \<and> sql_count (running_owner (cq_project q) (cq_session q) t) (controls db) = 1))
        \<and> cq_expected_generation q < i64_max)"
      using compare_and_set_accepts [OF wf, of q] refused by (metis fst_conv)
    then show ?thesis using refused assms(2) by auto
  next
    case (accepted g)
    then show ?thesis using assms(2) sole by auto
  qed
qed

theorem compare_and_set_spec_witness:
  "fst (compare_and_set_git_finalization (demo_update 0 Tracking (Some (lit ''task'')) None) demo_journal) = Inr True"
proof -
  let ?q = "demo_update 0 Tracking (Some (lit ''task'')) None"
  have inv: "store_inv demo_journal" by (rule agent_reach_store [OF demo_journal_reach])
  have "git_finalization demo_journal (cq_project ?q) (cq_session ?q) = Some (new_journal demo_new)"
    "g_generation (new_journal demo_new) = cq_expected_generation ?q" "cas_rejection (new_journal demo_new) ?q = None"
    "\<not> finalizing_conflict demo_journal ?q" "\<not> cq_require_running_owner ?q" "cq_expected_generation ?q < i64_max"
    by code_simp+
  with compare_and_set_spec [OF inv prod.collapse [symmetric], of ?q] show ?thesis by blast
qed

text \<open>C6: a journal becomes completed only from the step its Git mode configures: after a proven
  push in mode commit-and-push, after a proven commit in mode commit, with the task it was
  tracking and a recorded commit.  No transaction of either repository takes a shorter way.\<close>

theorem completion_requires_proof:
  assumes "reach store_init agent_step db" and "agent_step db db'"
    and "g \<in> set (journals db)" and "h \<in> set (journals db')" and "journal_key h = journal_key g"
    and "g_state h = Completed" and "g_state g \<noteq> Completed"
  shows "g_state g = (if g_git_mode g = CommitAndPush then PushPending else CommitPending)
    \<and> g_task_identity h = g_task_identity g \<and> g_task_identity h \<noteq> None \<and> g_commit_oid h \<noteq> None"
proof -
  have wf: "journals_wf (journals db)" using agent_reach_store [OF assms(1)] by (rule store_invD)
  from journal_move_completes [OF agent_step_journals [OF assms(2) wf] wf assms(3-7)] show ?thesis .
qed

theorem completion_requires_proof_witness:
  "g_state (hd (journals demo_pushing)) = PushPending \<and> g_commit_oid (hd (journals demo_published)) \<noteq> None"
proof -
  let ?g = "hd (journals demo_pushing)" and ?h = "hd (journals demo_published)"
  have step: "agent_step demo_pushing demo_published"
    unfolding demo_published_def agent_step_def store_step_def by (blast intro: git_compare_and_set)
  have "journals demo_pushing \<noteq> []" "journals demo_published \<noteq> []" by code_simp+
  then have mem: "?g \<in> set (journals demo_pushing)" "?h \<in> set (journals demo_published)" by simp_all
  have "journal_key ?h = journal_key ?g" "g_state ?h = Completed" "g_state ?g \<noteq> Completed"
    "g_git_mode ?g = CommitAndPush" by code_simp+
  with completion_requires_proof [OF demo_pushing_reach step mem] show ?thesis by simp
qed

text \<open>An update of a journal never blocks the finalizer of a project: where every control lets
  a finalizer take the project's lease, it still does after any compare-and-set, because the
  recovery fence of the session is renamed with the generation or removed with a terminal state.\<close>

theorem compare_and_set_keeps_fence:
  assumes "store_inv db" and "controls_allow_finalization db pid"
  shows "controls_allow_finalization (snd (compare_and_set_git_finalization q db)) pid"
  using store_invD(2) [OF assms(1)] assms(2) by (rule compare_and_set_keeps_fences)

definition demo_fenced :: registry where
  "demo_fenced = demo_journal\<lparr>controls := [\<lparr>sc_project = 1, sc_session = lit ''s1'', sc_state = ResumeRequested,
     sc_child_pid = None, sc_run_token = Some (recovery_token 0), sc_interactive_holder = None,
     sc_interactive_launch_token = None, sc_stdout_path = None, sc_stderr_path = None, sc_updated_at = lit ''1001''\<rparr>]\<rparr>"

theorem compare_and_set_keeps_fence_witness:
  "controls_allow_finalization
     (snd (compare_and_set_git_finalization (demo_update 0 Tracking (Some (lit ''task'')) None) demo_fenced)) 1"
proof -
  have "core demo_fenced = core demo_journal" "journals demo_fenced = journals demo_journal"
    "launches demo_fenced = launches demo_journal" "session_modes demo_fenced = session_modes demo_journal"
    "projects demo_fenced = projects demo_journal"
    by (simp_all add: demo_fenced_def core_def)
  moreover have "unique_on control_key (controls demo_fenced)" by (simp add: demo_fenced_def unique_on_def)
  ultimately have inv: "store_inv demo_fenced"
    using agent_reach_store [OF demo_journal_reach] registry_inv_core_db [of demo_fenced demo_journal]
    by (simp add: store_inv_def project_exists_def)
  have "controls_allow_finalization demo_fenced 1" by code_simp
  with inv show ?thesis by (rule compare_and_set_keeps_fence)
qed

text \<open>A completed journal is acknowledged once: when an acknowledgement has succeeded, any later
  one, after whatever transactions in between, succeeds again and changes nothing but a late
  resume request, so no second run is recorded for it.\<close>

theorem acknowledge_once:
  assumes "reach store_init agent_step db"
    and "acknowledge_completed_git_finalization_session pid sid now db = (Inr True, db1)"
    and "steps agent_step db1 db2"
  shows "acknowledge_completed_git_finalization_session pid sid later db2 =
    (Inr True, db2\<lparr>controls := sql_delete (late_resume pid sid) (controls db2)\<rparr>)"
proof -
  have r1: "reach store_init agent_step db1"
    using store_reach_git [OF assms(1) git_acknowledge [of db pid sid now]] assms(2) by simp
  obtain g where g: "git_finalization db1 pid sid = Some g" "g_acknowledged_at g \<noteq> None"
    using acknowledge_marks [OF store_invD(2) [OF agent_reach_store [OF assms(1)]] assms(2)] by blast
  have key: "g_project g = pid" "g_session g = sid" using git_finalization_Some [OF g(1)] by (simp_all add: journal_at_def)
  have wf2: "journals_wf (journals db2)"
    using agent_steps_store [OF assms(3) r1] by (rule store_invD)
  obtain h where h: "h \<in> set (journals db2)" "journal_evolves g h"
    using agent_steps_evolve [OF r1 assms(3)] git_finalization_Some [OF g(1)] by (auto simp: journals_evolve_def)
  then have "h = g" using journal_evolvesD(7) g(2) by blast
  then have "git_finalization db2 pid sid = Some g"
    using h(1) key git_finalization_iff [OF wf2] by (simp add: journal_key_def)
  from acknowledged_stays [OF wf2 this g(2)] show ?thesis .
qed

definition demo_acknowledged :: registry where
  "demo_acknowledged = snd (acknowledge_completed_git_finalization_session 1 (lit ''s1'') (lit ''1010'') demo_published)"

lemma demo_published_reach: "reach store_init agent_step demo_published"
  unfolding demo_published_def by (rule store_reach_git [OF demo_pushing_reach git_compare_and_set])

theorem acknowledge_once_witness:
  "runs (snd (acknowledge_completed_git_finalization_session 1 (lit ''s1'') (lit ''2000'') demo_acknowledged)) =
   runs demo_acknowledged \<and> length (runs demo_acknowledged) = 1"
proof -
  have "fst (acknowledge_completed_git_finalization_session 1 (lit ''s1'') (lit ''1010'') demo_published) = Inr True"
    by code_simp
  then have "acknowledge_completed_git_finalization_session 1 (lit ''s1'') (lit ''1010'') demo_published =
      (Inr True, demo_acknowledged)" by (simp add: demo_acknowledged_def prod_eq_iff)
  from acknowledge_once [OF demo_published_reach this steps_refl, of "lit ''2000''"]
  have "runs (snd (acknowledge_completed_git_finalization_session 1 (lit ''s1'') (lit ''2000'') demo_acknowledged)) =
   runs demo_acknowledged" by simp
  moreover have "length (runs demo_acknowledged) = 1" by code_simp
  ultimately show ?thesis by simp
qed

text \<open>No Git transaction takes the lease of a project with an active worker: cancelling,
  retiring, recovering and acknowledging leave the holder of such a project's lease as it was.\<close>

theorem git_step_respects_active_worker:
  assumes "git_step db db'" and "has_active_worker db pid"
  shows "lease_holder_of db' pid = lease_holder_of db pid"
  using git_step_leases [OF assms] by (rule lease_holder_project_leases)

theorem git_step_respects_active_worker_witness:
  "lease_holder_of (snd (cancel_idle_working_git_finalization 1 (lit ''s1'') 0 None (lit ''h'') (lit ''9999'')
     (lit ''9999'') ExternalCompletion demo_running)) 1 = Some (worker_lease_holder (lit ''t1''))"
proof -
  have "has_active_worker demo_running 1" "lease_holder_of demo_running 1 = Some (worker_lease_holder (lit ''t1''))"
    by code_simp+
  with git_step_respects_active_worker [OF git_cancel_idle [of demo_running 1 "lit ''s1''" 0 None "lit ''h''"
      "lit ''9999''" "lit ''9999''" ExternalCompletion]] show ?thesis by simp
qed

text \<open>A recorded launch boundary is the one every reader sees: once a run has recorded its
  boundary, the project has exactly that boundary, recording it again is accepted without a
  change, and no other run, mode or starting state can be recorded over it.\<close>

theorem launch_boundary_round_trip:
  assumes "store_inv db" and "record_git_launch_state pid token mode start at db = (Inr b, db')"
  shows "git_launch_state_for_project db' pid = Inr (Some (token, mode, start))
    \<and> git_launch_state db' pid token = Some (mode, start)
    \<and> record_git_launch_state pid token mode start at' db' = (Inr False, db')
    \<and> ((token', mode', start') \<noteq> (token, mode, start) \<longrightarrow>
         (\<exists>e. record_git_launch_state pid token' mode' start' at' db' = (Inl e, db')))"
proof -
  have uq: "unique_on gl_project (launches db')"
    using launch_sides(1) [of db pid token mode start at] store_invD(4) [OF assms(1)] assms(2) by (simp add: side_ok_def)
  obtain a where a: "a \<in> set (launches db')" "exact_launch pid token mode start a"
    using recorded_launch [OF store_invD(4) [OF assms(1)] assms(2)] by blast
  then have ap: "gl_project a = pid" "gl_run_token a = token" "gl_git_mode a = mode" "launch_start a = start"
    by (simp_all add: exact_launch_def launch_at_def)
  have sole: "filter (\<lambda>b. gl_project b = pid) (launches db') = [a]" using sole_launch [OF uq a(1)] ap(1) by simp
  have only: "b \<in> set (launches db') \<Longrightarrow> gl_project b = pid \<Longrightarrow> b = a" for b
    using unique_on_eq [OF uq _ a(1)] ap(1) by simp
  have fil: "filter P (launches db') = filter P [a]" if "\<And>b. P b \<Longrightarrow> gl_project b = pid" for P
    using sole that by (metis (mono_tags, lifting) filter_cong filter_filter)
  have "mode \<noteq> Off" using assms(2) by (auto simp: record_git_launch_state_def Let_def split: if_splits)
  have n1: "sql_count (\<lambda>b. gl_project b = pid \<and> gl_run_token b \<noteq> t) (launches db') = (if t = token then 0 else 1)" for t
    using fil [of "\<lambda>b. gl_project b = pid \<and> gl_run_token b \<noteq> t"] ap by (auto simp: sql_count_def)
  have n2: "sql_count (exact_launch pid t m s) (launches db') = (if (t, m, s) = (token, mode, start) then 1 else 0)" for t m s
    using fil [of "exact_launch pid t m s"] ap by (auto simp: sql_count_def exact_launch_def launch_at_def)
  have n3: "sql_exists (launch_at pid token) (launches db')" using a ap by (auto simp: sql_exists_iff launch_at_def)
  have "git_launch_state db' pid token = Some (mode, start)"
    using fil [of "launch_at pid token"] ap by (simp add: git_launch_state_def sql_select_def launch_at_def)
  moreover have "git_launch_state_for_project db' pid = Inr (Some (token, mode, start))"
    using sole ap by (simp add: git_launch_state_for_project_def)
  moreover have "record_git_launch_state pid token mode start at' db' = (Inr False, db')"
    using n1 n2 n3 \<open>mode \<noteq> Off\<close> by (simp add: record_git_launch_state_def Let_def)
  moreover have "\<exists>e. record_git_launch_state pid token' mode' start' at' db' = (Inl e, db')"
    if "(token', mode', start') \<noteq> (token, mode, start)"
    using n1 [of token'] n2 [of token' mode' start'] n3 that by (auto simp: record_git_launch_state_def Let_def)
  ultimately show ?thesis by blast
qed

definition demo_start :: AgentGitStartState where
  "demo_start = \<lparr>gs_starting_head = lit ''abc'', gs_branch_ref = Some (lit ''main''), gs_upstream_ref = None,
     gs_worktree_baseline = lit ''{}''\<rparr>"

theorem launch_boundary_round_trip_witness:
  "git_launch_state_for_project (snd (record_git_launch_state 1 (lit ''t1'') Commit demo_start (lit ''1'') demo_journal)) 1 =
   Inr (Some (lit ''t1'', Commit, demo_start))"
proof -
  have "fst (record_git_launch_state 1 (lit ''t1'') Commit demo_start (lit ''1'') demo_journal) = Inr True" by code_simp
  then have "record_git_launch_state 1 (lit ''t1'') Commit demo_start (lit ''1'') demo_journal =
     (Inr True, snd (record_git_launch_state 1 (lit ''t1'') Commit demo_start (lit ''1'') demo_journal))"
    by (simp add: prod_eq_iff)
  from launch_boundary_round_trip [OF agent_reach_store [OF demo_journal_reach] this] show ?thesis by blast
qed

end
