(* ===== verification/Control_Theorems.thy ===== *)
theory Control_Theorems
  imports Git_Theorems
begin

text \<open>
  The properties of session controls: the protocol every transaction follows, the fate of a
  request to stop, the registration of a run with its Git boundary, the end of an automated run
  and of its lease, the names of interactive guardians, and the cleaning of the history.
\<close>

section \<open>Guardian names\<close>

lemma guardian_prefixes:
  "starts_with (guardian_holder_prefix d @ lit ''-'' @ s) (guardian_holder_prefix d') \<longleftrightarrow> d' = d"
  "\<not> starts_with (guardian_holder_prefix d @ lit ''-'' @ s) (lit ''clt-stopped-readonly-interactive-worker-'')"
  "\<not> starts_with (guardian_holder_prefix d @ lit ''-'' @ s) (lit ''clt-readonly-interactive-worker-'')"
  by (cases d; cases d'; simp add: lit_def starts_with_def)+

lemma from_guardian_holder_prefix: "from_guardian_holder (guardian_holder_prefix d @ lit ''-'' @ s) = Some d"
  unfolding from_guardian_holder_def using guardian_prefixes [of d s] by (cases d) simp_all

lemma digits_before_dash: "takeWhile (\<lambda>c. c \<noteq> 45) (show_nat n @ lit ''-'' @ s) = show_nat n"
proof -
  have "\<forall>c \<in> set (show_nat n). c \<noteq> 45"
    using show_nat_digits [of n] by (auto simp: list_all_iff is_ascii_digit_def)
  then show ?thesis by (simp add: takeWhile_append lit_def)
qed

text \<open>A guardian's name says how its session ends and which process it is: whatever the clock
  and the counter, parsing the name gives back the disposition and the process id, so
  that a guardian that died is found by the process its own name carries.\<close>

theorem guardian_holder_round_trip:
  assumes "process < 2 ^ 32"
  shows "from_guardian_holder (interactive_guardian_holder d process generation sequence) = Some d
    \<and> guardian_process_id (interactive_guardian_holder d process generation sequence) = Some process"
proof -
  have "parse_u32 (show_nat process) = Some process"
    using assms unfolding parse_u32_def by (intro parse_show_nat) (simp add: u32_max_def)
  then show ?thesis
    by (simp add: interactive_guardian_holder_def guardian_process_id_def from_guardian_holder_prefix
        digits_before_dash del: append_assoc append.simps(2))
qed

theorem guardian_holder_round_trip_witness:
  "guardian_process_id (interactive_guardian_holder RestoreStopped 4711 99 3) = Some 4711"
  using guardian_holder_round_trip [of 4711 RestoreStopped 99 3] by simp

section \<open>The protocol of a control\<close>

definition control_of :: "registry \<Rightarrow> int \<times> str \<Rightarrow> control_row option" where
  "control_of db k = sql_select (\<lambda>sc. control_key sc = k) (controls db)"

lemma control_of_None: "control_of db k = None \<longleftrightarrow> (\<forall>sc \<in> set (controls db). control_key sc \<noteq> k)"
  by (simp add: control_of_def sql_select_None)

lemma control_of_mem: "control_of db k = Some sc \<Longrightarrow> sc \<in> set (controls db) \<and> control_key sc = k"
  unfolding control_of_def by (rule sql_select_Some)

lemma control_of_eq:
  assumes "unique_on control_key (controls db)" "sc \<in> set (controls db)"
  shows "control_of db (control_key sc) = Some sc"
proof -
  obtain x where x: "control_of db (control_key sc) = Some x"
    using assms(2) control_of_None [of db "control_key sc"] by blast
  then show ?thesis using control_of_mem [OF x] unique_on_eq [OF assms(1), of x sc] assms(2) by simp
qed

lemma agent_controls_unique: "agent_inv db \<Longrightarrow> unique_on control_key (controls db)"
  using agent_invD(1) store_invD(5) by blast

text \<open>A removed row leaves none of its key behind.\<close>

lemma controls_move_gone:
  assumes "controls_move t t'" "unique_on control_key t" "sc \<in> set t" "control_ok sc"
    "\<forall>sc' \<in> set t'. \<not> control_next sc sc'"
  shows "removable (sc_state sc) \<and> (\<forall>sc' \<in> set t'. control_key sc' \<noteq> control_key sc)"
  using assms
proof (induction rule: controls_move.induct)
  case (cm_keep t)
  then show ?case using control_next_refl by blast
next
  case (cm_update t P f)
  have "control_next sc (if P sc then f sc else sc)" using cm_update(1) [OF cm_update(3)] control_next_refl by simp
  with sql_update_mem [OF cm_update(3), of P f] cm_update(5) show ?case by blast
next
  case (cm_insert x t)
  then show ?case using control_next_refl by auto
next
  case (cm_delete t P)
  then have "P sc" using control_next_refl [of sc] by auto
  moreover from this have "control_key sc' \<noteq> control_key sc" if "sc' \<in> set (sql_delete P t)" for sc'
    using that unique_on_eq [OF cm_delete(2), of sc' sc] cm_delete(3) by auto
  ultimately show ?case using cm_delete by blast
qed

text \<open>A run of session \<^verbatim>\<open>s1\<close> that is asked to stop, and stops.\<close>

definition demo_session :: registry where
  "demo_session = snd (mark_session_running 1 (lit ''s1'') 77 (lit ''t1'') (lit ''out'') (lit ''err'') None (lit ''1000'') demo_init)"

definition demo_stopping :: registry where
  "demo_stopping = snd (request_session_stop 1 (lit ''s1'') 77 (lit ''t1'') (lit ''1001'') demo_session)"

definition demo_stopped :: registry where
  "demo_stopped = snd (complete_session_stop 1 (lit ''s1'') (lit ''t1'') (lit ''1002'') demo_stopping)"

lemma session_reach: "reach store_init agent_step db \<Longrightarrow> session_step db db' \<Longrightarrow> reach store_init agent_step db'"
  by (erule reach_step) (simp add: agent_step_def)

lemma demo_control_reach:
  "reach store_init agent_step demo_session" "reach store_init agent_step demo_stopping"
proof -
  have "store_init demo_init"
    using demo_init_ok by (simp add: store_init_def demo_init_def empty_registry_def)
  then show "reach store_init agent_step demo_session"
    unfolding demo_session_def by (rule session_reach [OF reach_init ses_mark]) simp
  then show "reach store_init agent_step demo_stopping"
    unfolding demo_stopping_def by (rule session_reach [OF _ ses_stop])
qed

lemma demo_stop_step: "agent_step demo_stopping demo_stopped"
  unfolding demo_stopped_def agent_step_def by (blast intro: ses_complete_stop)

lemma demo_control_states:
  "map sc_state (controls demo_stopping) = [StopRequested]" "map sc_state (controls demo_stopped) = [Stopped]"
  "control_of demo_stopping (1, lit ''s1'') = Some (hd (controls demo_stopping))"
  "control_of demo_stopped (1, lit ''s1'') = Some (hd (controls demo_stopped))"
  by code_simp+



lemma stop_request_step:
  assumes "agent_inv db" "agent_step db db'" "sc \<in> set (controls db)" "sc_state sc = StopRequested"
  shows "\<exists>x \<in> set (controls db'). control_key x = control_key sc
    \<and> (sc_state x \<in> {StopRequested, Stopped} \<and> sc_run_token x = sc_run_token sc
       \<or> sc_state x = Running \<and> sc_run_token x \<noteq> sc_run_token sc)"
proof -
  have "\<exists>x \<in> set (controls db'). control_next sc x"
    using controls_move_row [OF agent_step_controls [OF assms(2)] assms(3) agent_invD(2) [OF assms(1,3)]] assms(4)
    by (simp add: removable_def)
  then show ?thesis using assms(4) by (auto simp: control_next_def registers_def)
qed



section \<open>The end of an automated run\<close>

lemma lease_of_project:
  assumes "agent_inv db"
  shows "unique_on l_project (leases db)"
  using store_invD(1) [OF agent_invD(1) [OF assms]] by (simp add: registry_inv_defs)

text \<open>Giving the lease to an interactive owner makes him its holder.\<close>

lemma hand_lease_holder:
  assumes un: "unique_on l_project (leases db)" and hand: "hand_lease pid f h now e db = (Inr True, db')"
  shows "\<exists>l \<in> set (leases db'). lease_of pid h l"
proof (cases "sql_exists (lease_of pid f) (leases db)")
  case True
  then obtain l where "l \<in> set (leases db)" "lease_of pid f l" by (auto simp: sql_exists_iff)
  moreover have "db' = transfer_lease pid f h now e db" using hand True by (simp add: hand_lease_def)
  ultimately have "l\<lparr>l_holder := h, l_acquired_at := now, l_expires_at := e\<rparr> \<in> set (leases db')"
    using sql_update_mem [of l "leases db" "lease_of pid f" "\<lambda>l. l\<lparr>l_holder := h, l_acquired_at := now, l_expires_at := e\<rparr>"]
    by (simp add: transfer_lease_def)
  moreover have "lease_of pid h (l\<lparr>l_holder := h, l_acquired_at := now, l_expires_at := e\<rparr>)"
    using \<open>lease_of pid f l\<close> by (simp add: lease_of_def)
  ultimately show ?thesis by blast
next
  case False
  let ?l = "\<lparr>l_project = pid, l_holder = h, l_acquired_at = now, l_expires_at = e\<rparr>"
  show ?thesis
  proof (cases "sql_exists (\<lambda>l. l_project l = pid) (leases db)")
    case True
    then have "insert_lease ?l db = (Inr False, db)" by (simp add: insert_lease_def)
    with False have "hand_lease pid f h now e db =
        (Inr (map_option l_holder (sql_select (\<lambda>l. l_project l = pid) (leases db)) = Some h), db)"
      by (simp add: hand_lease_def)
    with hand have "map_option l_holder (sql_select (\<lambda>l. l_project l = pid) (leases db)) = Some h" and same: "db' = db"
      by auto
    then obtain l where l: "sql_select (\<lambda>l. l_project l = pid) (leases db) = Some l" "l_holder l = h" by blast
    then have "l \<in> set (leases db')" "lease_of pid h l"
      using sql_select_Some [OF l(1)] same by (simp_all add: lease_of_def)
    then show ?thesis by blast
  next
    case none: False
    with hand False have "leases db' = sql_insert ?l (leases db)"
      unfolding hand_lease_def insert_lease_def by (cases "project_exists db pid") auto
    then have "?l \<in> set (leases db')" "lease_of pid h ?l" by (simp_all add: lease_of_def)
    then show ?thesis by blast
  qed
qed

text \<open>A statement that matches one control changes what is found under its key only.\<close>

lemma control_of_update:
  assumes un: "unique_on control_key (controls db)" and sc: "sc \<in> set (controls db)"
    and only: "\<And>x. x \<in> set (controls db) \<Longrightarrow> P x \<longleftrightarrow> x = sc" and key: "control_key (f sc) = control_key sc"
    and upd: "controls db' = sql_update P f (controls db)"
  shows "control_of db' k = (if k = control_key sc then Some (f sc) else control_of db k)"
proof -
  have same: "control_key (if P x then f x else x) = control_key x" if "x \<in> set (controls db)" for x
    using only [OF that] key by simp
  then have "map control_key (controls db') = map control_key (controls db)"
    unfolding upd sql_update_def by simp
  then have un': "unique_on control_key (controls db')" using un by (simp only: unique_on_def)
  have mem: "(if P x then f x else x) \<in> set (controls db')" if "x \<in> set (controls db)" for x
    using sql_update_mem [OF that] upd by simp
  show ?thesis
  proof (cases "control_of db k")
    case None
    then have "control_of db' k = None" using same
      by (auto simp: control_of_None upd set_sql_update simp del: if_image_distrib)
    moreover have "k \<noteq> control_key sc" using None sc by (auto simp: control_of_None)
    ultimately show ?thesis using None by simp
  next
    case (Some x)
    then have x: "x \<in> set (controls db)" "control_key x = k" using control_of_mem by blast+
    then have "control_of db' k = Some (if P x then f x else x)"
      using control_of_eq [OF un' mem [OF x(1)]] same [OF x(1)] by simp
    then show ?thesis using Some x only [OF x(1)] unique_on_eq [OF un, of x sc] sc by auto
  qed
qed

lemma exited_key: "control_key (exited_control st now sc) = control_key sc"
  by (simp add: exited_control_def control_key_def)



section \<open>A run registers its session\<close>

lemma launch_unique:
  assumes "unique_on gl_project (launches db)" "a \<in> set (launches db)" "b \<in> set (launches db)"
    "gl_project a = gl_project b"
  shows "a = b"
  using unique_on_eq [OF assms(1), of a b] assms by simp

lemma sql_count_one:
  assumes "sql_count P t = 1" "r \<in> set t" "P r"
  shows "filter P t = [r]"
proof -
  obtain x where "filter P t = [x]" using assms(1) by (auto simp: sql_count_def length_Suc_conv)
  moreover have "r \<in> set (filter P t)" using assms(2,3) by simp
  ultimately show ?thesis by simp
qed

text \<open>The journal a registration finds in place agrees with the boundary the scheduler recorded.\<close>

lemma agreeing_boundary:
  assumes un: "unique_on gl_project (launches db)" and one: "agreeing_rows db pid sid mode token = 1"
    and g: "g \<in> set (journals db)" "owned_journal pid sid mode token g"
    and sole: "sql_count (owned_journal pid sid mode token) (journals db) = 1"
    and a: "a \<in> set (launches db)" "launch_at pid token a"
  shows "boundary_agrees g a"
proof -
  let ?mine = "\<lambda>a. gl_project a = g_project g \<and> g_owner_run_token g = Some (gl_run_token a)"
  let ?ls = "filter ?mine (launches db)"
  have mine: "?mine a" using g(2) a(2) by (simp add: owned_journal_def journal_at_def launch_at_def)
  then have "?ls \<noteq> []" using a(1) by (auto simp: filter_empty_conv)
  then have "length (filter (boundary_agrees g) ?ls) = 1"
    using one unfolding agreeing_rows_def sql_count_one [OF sole g] by (cases ?ls) simp_all
  then have "filter (boundary_agrees g) ?ls \<noteq> []" by (metis length_0_conv zero_neq_one)
  then obtain b where "b \<in> set ?ls" "boundary_agrees g b" by (auto simp: filter_empty_conv)
  moreover from this have "b = a" using launch_unique [OF un _ a(1)] mine by auto
  ultimately show ?thesis by simp
qed

lemma launched_agrees: "boundary_agrees (launched_journal sid now a) a"
  by (simp add: boundary_agrees_def launched_journal_def new_journal_def)

lemma mark_git_consumes:
  assumes "mark_session_running pid sid child token out err (Some mode) now db = (Inr (), db')" "mode \<noteq> Off"
  shows "consume_launch_state pid sid token mode now
    (insert_mode pid sid mode (upsert_running pid sid child token out err now db)) = (Inr (), db')"
proof -
  have "register_git_mode pid sid token mode now (upsert_running pid sid child token out err now db) = (Inr (), db')"
    using assms(1) unfolding mark_session_running_def Let_def
    by (simp split: if_splits prod.splits sum.splits)
  then show ?thesis using assms(2) by (auto simp: register_git_mode_def Let_def split: if_splits)
qed

text \<open>A run that registers its session with Git on owns the session's journal: the journal is
  the one the session already had, or a new one made from the boundary the scheduler recorded
  for this very run, which is consumed by it.  Either way the journal agrees with every boundary
  recorded for the run and names the run as its owner.\<close>

theorem registered_run_owns_journal:
  assumes "reach store_init agent_step db"
    and "mark_session_running pid sid child token out err (Some mode) now db = (Inr (), db')" and "mode \<noteq> Off"
    and "pid_in_range (Some child)"
  shows "\<exists>g. git_finalization db' pid sid = Some g \<and> g_state g = Working \<and> g_git_mode g = mode
    \<and> g_owner_run_token g = Some token
    \<and> (\<forall>a \<in> set (launches db). launch_at pid token a \<longrightarrow> boundary_agrees g a)
    \<and> (case git_finalization db pid sid of
         Some h \<Rightarrow> h = g \<and> launches db' = launches db
       | None \<Rightarrow> git_launch_state db pid token \<noteq> None \<and> git_launch_state db' pid token = None)"
proof -
  let ?d = "insert_mode pid sid mode (upsert_running pid sid child token out err now db)"
  note st = agent_reach_store [OF assms(1)]
  note con = mark_git_consumes [OF assms(2,3)]
  have wf': "journals_wf (journals db')"
    using mark_running_inv [OF agent.reach_inv [OF assms(1)] assms(4), of pid sid token out err "Some mode" now]
      assms(2) store_invD(2) agent_invD(1) by simp
  show ?thesis using con
  proof (cases rule: consume_cases)
    case (inserted a)
    then have a: "a \<in> set (launches db)" "launch_at pid token a" "gl_git_mode a = mode"
      by (auto dest!: sql_select_Some)
    let ?g = "launched_journal sid now a"
    have "?g \<in> set (journals db')" "journal_key ?g = (pid, sid)"
      using inserted(3) a(2) by (simp_all add: launched_journal_def new_journal_def journal_key_def launch_at_def)
    then have g: "git_finalization db' pid sid = Some ?g" using git_finalization_iff [OF wf'] by blast
    have fresh: "git_finalization db pid sid = None"
      using inserted(2) by (auto simp: git_finalization_def sql_select_None sql_exists_iff)
    have agree: "boundary_agrees ?g b" if "b \<in> set (launches db)" "launch_at pid token b" for b
      using launch_unique [OF store_invD(4) [OF st] a(1) that(1)] that(2) a(2) launched_agrees by (simp add: launch_at_def)
    have "git_launch_state db pid token \<noteq> None" "git_launch_state db' pid token = None"
      using a inserted(3) by (auto simp: git_launch_state_def sql_select_None)
    with g fresh agree a(2,3) show ?thesis
      by (intro exI [of _ ?g]) (simp add: launched_journal_def new_journal_def launch_at_def)
  next
    case same
    have [simp]: "agreeing_rows ?d = agreeing_rows db" by (simp add: agreeing_rows_def fun_eq_iff)
    have sole: "sql_count (owned_journal pid sid mode token) (journals db) = 1" and
      one: "agreeing_rows db pid sid mode token = 1" using same(2,3) by simp_all
    obtain g where g: "g \<in> set (journals db)" "owned_journal pid sid mode token g"
      using sql_count_ex [of "owned_journal pid sid mode token" "journals db"] sole by auto
    then have "journal_key g = (pid, sid)" by (simp add: owned_journal_def journal_at_key)
    with g(1) have "git_finalization db pid sid = Some g" using git_finalization_iff [OF store_invD(2) [OF st]] by blast
    moreover from this have "git_finalization db' pid sid = Some g" by (simp add: same(1) git_finalization_def)
    ultimately show ?thesis
      using g(2) agreeing_boundary [OF store_invD(4) [OF st] one g sole]
      by (intro exI [of _ g]) (simp add: owned_journal_def same(1))
  qed
qed

text \<open>The run of a project whose scheduler recorded a boundary.\<close>

definition demo_boundary :: registry where
  "demo_boundary = snd (record_git_launch_state 1 (lit ''t1'') Commit
     \<lparr>gs_starting_head = lit ''abc'', gs_branch_ref = None, gs_upstream_ref = None, gs_worktree_baseline = lit ''{}''\<rparr>
     (lit ''999'') demo_init)"

definition demo_registered :: registry where
  "demo_registered = snd (mark_session_running 1 (lit ''s1'') 77 (lit ''t1'') (lit ''out'') (lit ''err'')
     (Some Commit) (lit ''1000'') demo_boundary)"

theorem registered_run_owns_journal_witness:
  "\<exists>g. git_finalization demo_registered 1 (lit ''s1'') = Some g \<and> g_starting_head g = Some (lit ''abc'')
    \<and> launches demo_registered = []"
proof -
  have "store_init demo_init"
    using demo_init_ok by (simp add: store_init_def demo_init_def empty_registry_def)
  then have r: "reach store_init agent_step demo_boundary"
    unfolding demo_boundary_def by (rule store_reach_git [OF reach_init git_launch])
  have "fst (mark_session_running 1 (lit ''s1'') 77 (lit ''t1'') (lit ''out'') (lit ''err'')
     (Some Commit) (lit ''1000'') demo_boundary) = Inr ()" by code_simp
  then have m: "mark_session_running 1 (lit ''s1'') 77 (lit ''t1'') (lit ''out'') (lit ''err'')
     (Some Commit) (lit ''1000'') demo_boundary = (Inr (), demo_registered)" by (simp add: demo_registered_def prod_eq_iff)
  have a: "hd (launches demo_boundary) \<in> set (launches demo_boundary)" "launch_at 1 (lit ''t1'') (hd (launches demo_boundary))"
    "gl_starting_head (hd (launches demo_boundary)) = lit ''abc''" "launches demo_registered = []" by code_simp+
  from registered_run_owns_journal [OF r m] a show ?thesis by (auto simp: boundary_agrees_def)
qed

section \<open>Cleaning the history\<close>

text \<open>C10: the history is cleaned only when nothing can still need it: while a worker is active, a
  Git journal is open, a launch boundary is unconsumed or a lease has not expired, cleaning
  fails and changes nothing; otherwise it empties the history, the counts it reports are the rows
  it deleted, session controls and Git modes stay, and the invariant of the store holds.\<close>

theorem clean_history_safe:
  assumes "reach store_init agent_step db" and "clean_agent_history at db = (r, db')"
  shows "case r of
      Inl e \<Rightarrow> db' = db \<and> ((\<exists>w \<in> set (workers db). worker_active (w_state w))
         \<or> (\<exists>g \<in> set (journals db). \<not> gfs_is_terminal (g_state g)) \<or> launches db \<noteq> []
         \<or> (\<exists>l \<in> set (leases db). \<not> cast_le (l_expires_at l) at))
    | Inr summary \<Rightarrow> agent_inv db' \<and> (\<forall>w \<in> set (workers db). \<not> worker_active (w_state w))
         \<and> (\<forall>g \<in> set (journals db). gfs_is_terminal (g_state g)) \<and> launches db = []
         \<and> (\<forall>l \<in> set (leases db). cast_le (l_expires_at l) at)
         \<and> controls db' = controls db \<and> session_modes db' = session_modes db
         \<and> runs db' = [] \<and> leases db' = [] \<and> journals db' = [] \<and> workers db' = []
         \<and> cs_runs_deleted summary = length (runs db) \<and> cs_leases_deleted summary = length (leases db)"
proof -
  note inv = agent.reach_inv [OF assms(1)]
  have jo: "journal_open s \<longleftrightarrow> \<not> gfs_is_terminal s" for s by (cases s) (simp_all add: journal_open_def gfs_is_terminal_def)
  let ?ps = "sql_update project_failed (\<lambda>p. p\<lparr>p_failure_count := 0, p_last_failure_at := None,
      p_last_blocked_recovery_at := None, p_updated_at := at\<rparr>) (projects db)"
  let ?d = "db\<lparr>projects := ?ps, workers := [], journals := [], launches := [], runs := [], leases := [], checkins := []\<rparr>"
  have ids: "map p_id ?ps = map p_id (projects db)" by (simp add: map_sql_update)
  then have "unique_on p_id ?ps"
    using registry_invD(1) [OF store_invD(1) [OF agent_invD(1) [OF inv]]] by (simp only: unique_on_def)
  then have "registry_inv ?d"
    by (simp add: registry_inv_def leases_ok_def workers_ok_def runs_ok_def one_active_def)
  then have clean: "agent_inv ?d"
    using inv by (simp add: agent_inv_def store_inv_def journals_wf_def one_finalizing_def)
  show ?thesis
  proof (cases r)
    case (Inl e)
    with assms(2) show ?thesis
      by (simp add: clean_agent_history_def sql_exists_iff jo split: if_splits)
  next
    case (Inr summary)
    with assms(2) clean show ?thesis
      by (auto simp: clean_agent_history_def sql_exists_iff jo split: if_splits)
  qed
qed

theorem clean_history_safe_witness:
  "agent_inv (snd (clean_agent_history (lit ''2000'') demo_session))"
proof -
  have "isl (fst (clean_agent_history (lit ''2000'') demo_session)) = False" by code_simp
  then obtain s where "clean_agent_history (lit ''2000'') demo_session = (Inr s, snd (clean_agent_history (lit ''2000'') demo_session))"
    by (metis prod.collapse sum.collapse(2))
  from clean_history_safe [OF demo_control_reach(1) this] show ?thesis by simp
qed

end
