(* ===== verification/Task_Markers.thy ===== *)
theory Task_Markers
  imports Rust_Prelude
begin

text \<open>
  The markers a task carries in its own text (\<^verbatim>\<open>src/src/task.rs\<close>): the status of a board column,
  the stop, manual and interactive markers, and the Codex session a task is linked to, with
  how each is read, written and removed.
\<close>

section \<open>Statuses\<close>

datatype TaskStatus = Todo | Doing | Done | Backlog

definition TASK_STATUSES :: "TaskStatus list" where
  "TASK_STATUSES = [Todo, Doing, Done, Backlog]"

definition SESSION_SEARCH_ORDER :: "TaskStatus list" where
  "SESSION_SEARCH_ORDER = [Doing, Todo, Backlog, Done]"

fun status_as_str :: "TaskStatus \<Rightarrow> str" where
  "status_as_str Todo = lit ''todo''"
| "status_as_str Doing = lit ''doing''"
| "status_as_str Done = lit ''done''"
| "status_as_str Backlog = lit ''backlog''"

fun status_filename :: "TaskStatus \<Rightarrow> str" where
  "status_filename Todo = lit ''todo.md''"
| "status_filename Doing = lit ''doing.md''"
| "status_filename Done = lit ''done.md''"
| "status_filename Backlog = lit ''backlog.md''"

fun status_header :: "TaskStatus \<Rightarrow> str" where
  "status_header Todo = lit ''# To Do Tasks'' @ [10]"
| "status_header Doing = lit ''# Doing Tasks'' @ [10]"
| "status_header Done = lit ''# Done Tasks'' @ [10]"
| "status_header Backlog = lit ''# Backlog Tasks'' @ [10]"

definition status_parse :: "str \<Rightarrow> TaskStatus result" where
  "status_parse v =
     (if v = lit ''backlog'' then Inr Backlog
      else if v = lit ''todo'' then Inr Todo
      else if v = lit ''doing'' then Inr Doing
      else if v = lit ''done'' then Inr Done
      else Inl ''Invalid status. Use backlog, todo, doing, or done.'')"

definition status_parse_arg :: "str \<Rightarrow> TaskStatus result" where
  "status_parse_arg v =
     (if v = lit ''0'' then Inr Backlog
      else if v = lit ''1'' then Inr Todo
      else if v = lit ''2'' then Inr Doing
      else if v = lit ''3'' then Inr Done
      else status_parse v)"

definition status_is_active :: "TaskStatus \<Rightarrow> bool" where
  "status_is_active s \<longleftrightarrow> s \<in> {Todo, Doing}"

section \<open>Words\<close>

definition last_word :: "str \<Rightarrow> str option" where
  "last_word s = (case split_whitespace s of [] \<Rightarrow> None | w # ws \<Rightarrow> Some (last (w # ws)))"

definition ends_in_ws :: "str \<Rightarrow> bool" where
  "ends_in_ws s \<longleftrightarrow> s \<noteq> [] \<and> is_ws (last s)"

definition starts_in_ws :: "str \<Rightarrow> bool" where
  "starts_in_ws s \<longleftrightarrow> s \<noteq> [] \<and> is_ws (hd s)"

section \<open>The stop marker\<close>

definition TASK_STOPPED_MARKER :: str where "TASK_STOPPED_MARKER = lit ''clt:stopped''"
definition TASK_MANUAL_MARKER :: str where "TASK_MANUAL_MARKER = lit ''clt:manual''"
definition TASK_INTERACTIVE_DONE_MARKER :: str where
  "TASK_INTERACTIVE_DONE_MARKER = lit ''clt:interactive-done''"
definition CODEX_TASK_SESSION_PREFIX :: str where "CODEX_TASK_SESSION_PREFIX = lit ''codex:''"

definition task_content_is_stopped :: "str \<Rightarrow> bool" where
  "task_content_is_stopped content \<longleftrightarrow> last_word content = Some TASK_STOPPED_MARKER"

definition task_content_without_stop_marker :: "str \<Rightarrow> str" where
  "task_content_without_stop_marker content =
     (if task_content_is_stopped content
      then (case strip_suffix (trim_end content) TASK_STOPPED_MARKER of
              Some s \<Rightarrow> trim_end s | None \<Rightarrow> content)
      else content)"

section \<open>Markers as words\<close>

definition replace_range_empty :: "nat \<Rightarrow> nat \<Rightarrow> str \<Rightarrow> str" where
  "replace_range_empty i j s = take i s @ drop j s"

definition task_content_without_marker :: "str \<Rightarrow> str \<Rightarrow> str" where
  "task_content_without_marker content marker =
     trim_end (fold (\<lambda>start result.
        let e = start + length marker in
        if (start = 0 \<or> ends_in_ws (take start content))
           \<and> (e = length content \<or> starts_in_ws (drop e content))
        then replace_range_empty
               (if take start content \<noteq> [] \<and> last (take start content) = 32 then start - 1 else start)
               e result
        else result) (rmatch_indices content marker) content)"

definition task_content_is_manual :: "str \<Rightarrow> bool" where
  "task_content_is_manual content \<longleftrightarrow> TASK_MANUAL_MARKER \<in> set (split_whitespace content)"

definition task_content_is_interactive_done :: "str \<Rightarrow> bool" where
  "task_content_is_interactive_done content \<longleftrightarrow>
     TASK_INTERACTIVE_DONE_MARKER \<in> set (split_whitespace content)"

definition task_content_without_manual_marker :: "str \<Rightarrow> str" where
  "task_content_without_manual_marker content = task_content_without_marker content TASK_MANUAL_MARKER"

definition task_content_without_interactive_done_marker :: "str \<Rightarrow> str" where
  "task_content_without_interactive_done_marker content =
     task_content_without_marker content TASK_INTERACTIVE_DONE_MARKER"

section \<open>Codex sessions\<close>

definition session_char :: "rchar \<Rightarrow> bool" where
  "session_char c \<longleftrightarrow> is_ascii_alphanumeric c \<or> c = 45"

definition valid_session :: "str \<Rightarrow> bool" where
  "valid_session s \<longleftrightarrow> s \<noteq> [] \<and> list_all session_char s"

definition codex_session_id_from_task_content :: "str \<Rightarrow> str option" where
  "codex_session_id_from_task_content content =
     (case last_word content of
        None \<Rightarrow> None
      | Some marker \<Rightarrow>
          (case strip_prefix marker CODEX_TASK_SESSION_PREFIX of
             None \<Rightarrow> None
           | Some sid \<Rightarrow> if valid_session sid then Some sid else None))"

text \<open>The whitespace-delimited session markers anywhere in the text: where each starts and ends.\<close>

definition codex_marker_at :: "str \<Rightarrow> nat \<Rightarrow> (nat \<times> nat \<times> str) option" where
  "codex_marker_at content start =
     (if start > 0 \<and> \<not> ends_in_ws (take start content) then None
      else
        let word = takeWhile (\<lambda>c. \<not> is_ws c) (drop start content) in
        case strip_prefix word CODEX_TASK_SESSION_PREFIX of
          None \<Rightarrow> None
        | Some sid \<Rightarrow> if valid_session sid then Some (start, start + length word, sid) else None)"

definition codex_session_markers_in_task_content :: "str \<Rightarrow> (nat \<times> nat \<times> str) list" where
  "codex_session_markers_in_task_content content =
     List.map_filter (codex_marker_at content) (match_indices content CODEX_TASK_SESSION_PREFIX)"

definition codex_session_id_is_uuid :: "str \<Rightarrow> bool" where
  "codex_session_id_is_uuid sid \<longleftrightarrow> length sid = 36 \<and>
     (\<forall>i < length sid. if i \<in> {8, 13, 18, 23} then sid ! i = 45 else is_ascii_hexdigit (sid ! i))"

definition recoverable_codex_session_id_from_task_content :: "str \<Rightarrow> str option" where
  "recoverable_codex_session_id_from_task_content content0 =
     (let content = task_content_without_stop_marker content0 in
      case codex_session_id_from_task_content content of
        Some sid \<Rightarrow> Some sid
      | None \<Rightarrow>
          (case filter (\<lambda>(_, e, sid). codex_session_id_is_uuid sid \<or> starts_with (drop e content) [13]
                          \<or> starts_with (drop e content) [10])
                  (codex_session_markers_in_task_content content) of
             [] \<Rightarrow> None
           | (_, _, sid) # rest \<Rightarrow>
               if list_all (\<lambda>(_, _, candidate). candidate = sid) rest then Some sid else None))"

definition task_content_without_codex_session :: "str \<Rightarrow> str" where
  "task_content_without_codex_session content =
     (let trimmed = trim_end content in
      case codex_session_id_from_task_content trimmed of
        None \<Rightarrow> trimmed
      | Some sid \<Rightarrow>
          trim_end (take (length trimmed - (length CODEX_TASK_SESSION_PREFIX + length sid)) trimmed))"

definition drop_session_markers :: "str \<Rightarrow> str \<Rightarrow> (nat \<times> nat \<times> str) list \<Rightarrow> str \<times> nat \<Rightarrow> str \<times> nat" where
  "drop_session_markers content sid markers =
     fold (\<lambda>(start, e, candidate) (result, cursor).
        if candidate \<noteq> sid then (result, cursor)
        else
          let rs = (if take start content \<noteq> [] \<and> last (take start content) \<in> {32, 9}
                    then start - 1 else start)
          in (result @ take (rs - cursor) (drop cursor content), e)) markers"

definition task_content_without_matching_codex_sessions :: "str \<Rightarrow> str \<Rightarrow> str" where
  "task_content_without_matching_codex_sessions content sid =
     (case drop_session_markers content sid (codex_session_markers_in_task_content content) ([], 0) of
        (result, cursor) \<Rightarrow> trim_end (result @ drop cursor content))"

definition task_content_without_recoverable_codex_session :: "str \<Rightarrow> str" where
  "task_content_without_recoverable_codex_session content =
     (let trimmed = trim_end content in
      case recoverable_codex_session_id_from_task_content trimmed of
        Some sid \<Rightarrow> task_content_without_matching_codex_sessions trimmed sid
      | None \<Rightarrow> trimmed)"

definition task_content_with_codex_session :: "str \<Rightarrow> str \<Rightarrow> str" where
  "task_content_with_codex_session content0 sid =
     (let stopped = task_content_is_stopped content0;
          content1 = task_content_without_codex_session (task_content_without_stop_marker content0);
          content = task_content_without_matching_codex_sessions content1 sid;
          linked = (if content = [] then CODEX_TASK_SESSION_PREFIX @ sid
                    else content @ [32] @ CODEX_TASK_SESSION_PREFIX @ sid)
      in if stopped then linked @ [32] @ TASK_STOPPED_MARKER else linked)"

definition task_content_with_manual_session :: "str \<Rightarrow> str \<Rightarrow> str" where
  "task_content_with_manual_session content0 sid =
     (let content1 = task_content_without_recoverable_codex_session (task_content_without_stop_marker content0);
          content = task_content_without_manual_marker content1
      in task_content_with_codex_session (trim_end content @ [32] @ TASK_MANUAL_MARKER) sid)"

definition task_content_with_interactive_done_marker :: "str \<Rightarrow> str" where
  "task_content_with_interactive_done_marker content0 =
     (let stopped = task_content_is_stopped content0;
          content = task_content_without_stop_marker content0;
          session = recoverable_codex_session_id_from_task_content content;
          unlinked = task_content_without_recoverable_codex_session content;
          unmarked = task_content_without_interactive_done_marker unlinked;
          marked = trim_end unmarked @ [32] @ TASK_INTERACTIVE_DONE_MARKER;
          linked = (case session of Some s \<Rightarrow> task_content_with_codex_session marked s | None \<Rightarrow> marked)
      in if stopped then linked @ [32] @ TASK_STOPPED_MARKER else linked)"

section \<open>Facts on words\<close>

lemma split_whitespace_ws: "list_all is_ws u \<Longrightarrow> split_whitespace u = []"
  by (induction u) auto

lemma takeWhile_word:
  assumes "list_all (\<lambda>c. \<not> is_ws c) w" "b = [] \<or> is_ws (hd b)"
  shows "takeWhile (\<lambda>c. \<not> is_ws c) (w @ b) = w" "dropWhile (\<lambda>c. \<not> is_ws c) (w @ b) = b"
  using assms by (induction w) (cases b; auto)+

lemma split_whitespace_word:
  assumes "w \<noteq> []" "list_all (\<lambda>c. \<not> is_ws c) w" "b = [] \<or> is_ws (hd b)"
  shows "split_whitespace (w @ b) = w # split_whitespace b"
  using assms takeWhile_word [of "tl w" b] by (cases w) auto

text \<open>Splitting distributes over a boundary between a whitespace and anything.\<close>

lemma split_whitespace_append:
  assumes "a = [] \<or> is_ws (last a) \<or> b = [] \<or> is_ws (hd b)"
  shows "split_whitespace (a @ b) = split_whitespace a @ split_whitespace b"
  using assms
proof (induction a rule: split_whitespace.induct)
  case (2 c s)
  show ?case
  proof (cases "is_ws c")
    case True
    with 2 show ?thesis by (cases "s = []") (auto split: if_splits)
  next
    case False
    define t d where "t = takeWhile (\<lambda>d. \<not> is_ws d) s" and "d = dropWhile (\<lambda>d. \<not> is_ws d) s"
    have s: "s = t @ d" by (simp add: t_def d_def)
    have w: "list_all (\<lambda>d. \<not> is_ws d) (c # t)"
      using False by (auto simp: list_all_iff t_def dest: set_takeWhileD)
    have ws: "d = [] \<or> is_ws (hd d)" using hd_dropWhile [of "\<lambda>d. \<not> is_ws d" s] by (auto simp: d_def)
    have prem: "is_ws (last (c # t @ d)) \<or> b = [] \<or> is_ws (hd b)" using "2.prems" s by simp
    have db: "d @ b = [] \<or> is_ws (hd (d @ b))"
    proof (cases "d = []")
      case True
      then have "\<not> is_ws (last (c # t @ d))" using w last_in_set [of "c # t"] by (auto simp: list_all_iff)
      with prem True show ?thesis by auto
    qed (use ws in auto)
    have "split_whitespace (d @ b) = split_whitespace d @ split_whitespace b"
    proof (cases "d = []")
      case d: False
      then show ?thesis using "2.IH"(2) [OF False] prem by (simp add: d_def [symmetric])
    qed simp
    then show ?thesis
      using split_whitespace_word [OF _ w db] split_whitespace_word [OF _ w ws] unfolding s by simp
  qed
qed simp

lemma session_char_not_ws: "session_char c \<Longrightarrow> \<not> is_ws c"
  by (auto simp: session_char_def is_ws_def is_ascii_alphanumeric_def is_ascii_alphabetic_def
      is_ascii_uppercase_def is_ascii_lowercase_def is_ascii_digit_def)

lemma marker_words:
  "list_all (\<lambda>c. \<not> is_ws c) TASK_STOPPED_MARKER" "TASK_STOPPED_MARKER \<noteq> []"
  "list_all (\<lambda>c. \<not> is_ws c) TASK_MANUAL_MARKER" "TASK_MANUAL_MARKER \<noteq> []"
  "list_all (\<lambda>c. \<not> is_ws c) TASK_INTERACTIVE_DONE_MARKER" "TASK_INTERACTIVE_DONE_MARKER \<noteq> []"
  "list_all (\<lambda>c. \<not> is_ws c) CODEX_TASK_SESSION_PREFIX" "CODEX_TASK_SESSION_PREFIX \<noteq> []"
  by (simp_all add: TASK_STOPPED_MARKER_def TASK_MANUAL_MARKER_def TASK_INTERACTIVE_DONE_MARKER_def
      CODEX_TASK_SESSION_PREFIX_def lit_def is_ws_def)

lemma session_word:
  assumes "valid_session s"
  shows "list_all (\<lambda>c. \<not> is_ws c) (CODEX_TASK_SESSION_PREFIX @ s)"
  using assms marker_words(7) session_char_not_ws by (auto simp: valid_session_def list_all_iff)

end
