(* ===== verification/Thinking.thy ===== *)
theory Thinking
  imports Task_Markers
begin

text \<open>
  Launch settings embedded in task prose (\<^verbatim>\<open>src/src/task/thinking.rs\<close>): the \<^verbatim>\<open>/think\<close> directives,
  the level in force, their removal and the cycling of the level.
\<close>

definition LEVELS :: "str list" where
  "LEVELS = [[], lit ''low'', lit ''medium'', lit ''high'', lit ''xhigh'', lit ''max'', lit ''ultra'']"

text \<open>\<^verbatim>\<open>content[offset..].find(token).unwrap()\<close>: a token of the rest of the text is always found.\<close>

definition find_from :: "str \<Rightarrow> nat \<Rightarrow> str \<Rightarrow> nat" where
  "find_from content offset token =
     (case str_find (drop offset content) token of Some i \<Rightarrow> offset + i | None \<Rightarrow> offset)"

definition think_level :: "str \<Rightarrow> str option option" where
  "think_level v =
     (if eq_ignore_ascii_case v (lit ''default'') then Some None
      else map_option Some (find (\<lambda>level. eq_ignore_ascii_case v level) (tl LEVELS)))"

fun directives_from :: "str \<Rightarrow> nat \<Rightarrow> bool \<Rightarrow> str list \<Rightarrow> ((nat \<times> nat) \<times> str option) list" where
  "directives_from content offset in_comment [] = []"
| "directives_from content offset in_comment (token # tokens) =
     (let start = find_from content offset token;
          offset = start + length token;
          in_comment = (in_comment \<or> starts_with token (lit ''<!--''))
      in if in_comment then directives_from content offset (\<not> ends_with token (lit ''-->'')) tokens
         else if token \<noteq> lit ''/think'' then directives_from content offset False tokens
         else case tokens of
                [] \<Rightarrow> []
              | v # rest \<Rightarrow>
                  (case think_level v of
                     None \<Rightarrow> directives_from content offset False tokens
                   | Some level \<Rightarrow>
                       let e = find_from content offset v + length v
                       in ((start, e), level) # directives_from content e False rest))"

definition directives :: "str \<Rightarrow> ((nat \<times> nat) \<times> str option) list" where
  "directives content = directives_from content 0 False (split_whitespace content)"

definition think_read :: "str \<Rightarrow> str option" where
  "think_read content =
     (case directives content of [] \<Rightarrow> None | d # ds \<Rightarrow> snd (last (d # ds)))"

definition horizontal :: "rchar \<Rightarrow> bool" where
  "horizontal c \<longleftrightarrow> c = 32 \<or> c = 9"

definition cut_directive :: "(nat \<times> nat) \<Rightarrow> str \<Rightarrow> str" where
  "cut_directive span result =
     (let tail = drop (snd span) result;
          e = snd span + saturating_sub (length tail) (length (trim_start_by horizontal tail));
          start = (if e = snd span then length (trim_end_by horizontal (take (fst span) result))
                   else fst span)
      in replace_range_empty start e result)"

definition think_strip :: "str \<Rightarrow> str" where
  "think_strip content =
     trim (fold (\<lambda>(span, _) result. cut_directive span result) (rev (directives content)) content)"

fun position :: "('a \<Rightarrow> bool) \<Rightarrow> 'a list \<Rightarrow> nat option" where
  "position P [] = None"
| "position P (x # xs) = (if P x then Some 0 else map_option Suc (position P xs))"

definition think_next :: "str \<Rightarrow> str" where
  "think_next current =
     (let index = (case position (\<lambda>level. level = current) LEVELS of None \<Rightarrow> 0 | Some i \<Rightarrow> i)
      in LEVELS ! ((index + 1) mod length LEVELS))"

definition think_cycle :: "str \<Rightarrow> str \<times> str option" where
  "think_cycle content =
     (let current = (case think_read content of None \<Rightarrow> [] | Some l \<Rightarrow> l);
          nxt = think_next current;
          body = think_strip content
      in if nxt = [] then (body, None)
         else let first_line_end = (case str_find body [10] of None \<Rightarrow> length body | Some i \<Rightarrow> i)
              in (take first_line_end body @ lit '' /think '' @ nxt @ drop first_line_end body, Some nxt))"

definition think_label :: "str \<Rightarrow> str \<Rightarrow> str" where
  "think_label content text =
     (case think_read content of
        Some level \<Rightarrow> lit ''[think: '' @ level @ lit ''] '' @ text
      | None \<Rightarrow> text)"

end
