(* ===== verification/Coord_Metadata.thy ===== *)
theory Coord_Metadata
  imports Task_Markers
begin

text \<open>
  Coordination metadata in a comment of the task text (\<^verbatim>\<open>src/src/task/coordination.rs\<close>).  The JSON
  codec (\<^verbatim>\<open>serde_json\<close>) and the check of a UUID (\<^verbatim>\<open>uuid\<close>) are parameters.
\<close>

definition COORD_PREFIX :: str where "COORD_PREFIX = lit ''<!-- clt-coordination: ''"
definition COORD_SUFFIX :: str where "COORD_SUFFIX = lit '' -->''"

text \<open>\<^verbatim>\<open>behavior\<close> is a \<^verbatim>\<open>BTreeMap\<close>: the association list of its entries in the order of their keys.\<close>

record Scope =
  intent :: str
  files :: "str list"
  modules :: "str list"
  interfaces :: "str list"
  resources :: "str list"
  behavior :: "(str \<times> str) list"

record Review =
  other :: str
  evidence :: str
  compatible :: bool
  reason :: str

record Metadata =
  m_id :: str
  depends_on :: "str list"
  scope :: Scope
  reviews :: "Review list"

definition default_scope :: Scope where
  "default_scope = \<lparr>intent = [], files = [], modules = [], interfaces = [], resources = [], behavior = []\<rparr>"

definition default_metadata :: Metadata where
  "default_metadata = \<lparr>m_id = [], depends_on = [], scope = default_scope, reviews = []\<rparr>"

text \<open>Where the metadata comment starts and ends.\<close>

definition coord_span :: "str \<Rightarrow> (nat \<times> nat) option result" where
  "coord_span content =
     (case str_find content COORD_PREFIX of
        None \<Rightarrow> Inr None
      | Some start \<Rightarrow>
          (case str_find (drop start content) COORD_SUFFIX of
             None \<Rightarrow> Inl ''Unterminated CLT coordination metadata''
           | Some i \<Rightarrow>
               let e = i + start + length COORD_SUFFIX
               in if contains (drop e content) COORD_PREFIX then Inl ''Duplicate CLT coordination metadata''
                  else Inr (Some (start, e))))"

definition coord_read :: "(str \<Rightarrow> Metadata option) \<Rightarrow> (str \<Rightarrow> bool) \<Rightarrow> str \<Rightarrow> Metadata result" where
  "coord_read from_json is_uuid content =
     (case coord_span content of
        Inl e \<Rightarrow> Inl e
      | Inr None \<Rightarrow> Inr default_metadata
      | Inr (Some (start, e)) \<Rightarrow>
          (case from_json (take (e - length COORD_SUFFIX - (start + length COORD_PREFIX))
                             (drop (start + length COORD_PREFIX) content)) of
             None \<Rightarrow> Inl ''Invalid CLT coordination metadata; repair it with clt coordinate''
           | Some md \<Rightarrow> if is_uuid (m_id md) then Inr md else Inl ''Invalid stable task ID''))"

definition coord_strip :: "str \<Rightarrow> str" where
  "coord_strip content =
     (case coord_span content of
        Inr (Some (start, e)) \<Rightarrow> trim (take start content @ drop e content)
      | _ \<Rightarrow> content)"

text \<open>\<^verbatim>\<open>replace('>', "\u003e")\<close>.\<close>

definition escape_gt :: "str \<Rightarrow> str" where
  "escape_gt s = concat (map (\<lambda>c. if c = 62 then [92, 117, 48, 48, 51, 101] else [c]) s)"

definition coord_write :: "(Metadata \<Rightarrow> str result) \<Rightarrow> str \<Rightarrow> Metadata \<Rightarrow> str result" where
  "coord_write to_json content metadata =
     result_bind (coord_span content) (\<lambda>_.
       let stopped = task_content_is_stopped content;
           session = recoverable_codex_session_id_from_task_content content;
           body = coord_strip (task_content_without_recoverable_codex_session
                     (task_content_without_stop_marker content))
       in result_bind (to_json metadata) (\<lambda>j.
            let json = escape_gt j;
                c1 = trim_end body @ [32] @ COORD_PREFIX @ json @ COORD_SUFFIX;
                c2 = (case session of Some s \<Rightarrow> task_content_with_codex_session c1 s | None \<Rightarrow> c1)
            in Inr (if stopped then c2 @ lit '' clt:stopped'' else c2)))"

definition coord_preserve ::
  "(str \<Rightarrow> Metadata option) \<Rightarrow> (str \<Rightarrow> bool) \<Rightarrow> (Metadata \<Rightarrow> str result) \<Rightarrow> str \<Rightarrow> str \<Rightarrow> str result" where
  "coord_preserve from_json is_uuid to_json original edited =
     result_bind (coord_read from_json is_uuid original) (\<lambda>old.
       if m_id old = [] then Inr edited
       else result_bind (coord_read from_json is_uuid edited) (\<lambda>supplied.
         if m_id supplied = [] \<or> m_id supplied = m_id old then coord_write to_json edited old
         else Inl ''A stable task ID cannot be changed by editing its description''))"

end
