(* ===== verification/Task_Text.thy ===== *)
theory Task_Text
  imports Thinking Coord_Metadata
begin

text \<open>
  The text of a task (\<^verbatim>\<open>src/src/task.rs\<close>): dated blocking notes, the normalised and the displayed
  text, the identity that survives notes and markers, and the names of task files.
\<close>

section \<open>Blocking notes\<close>

datatype TaskBlockingState = Blocked | Unblocked

definition starts_with_task_note_date :: "str \<Rightarrow> bool" where
  "starts_with_task_note_date v \<longleftrightarrow> length v \<ge> 11
     \<and> list_all is_ascii_digit (take 4 v) \<and> v ! 4 = 45
     \<and> list_all is_ascii_digit (take 2 (drop 5 v)) \<and> v ! 7 = 45
     \<and> list_all is_ascii_digit (take 2 (drop 8 v)) \<and> v ! 10 = 58"

definition word_boundary_before :: "str \<Rightarrow> nat \<Rightarrow> bool" where
  "word_boundary_before s i \<longleftrightarrow> take i s = []
     \<or> (\<not> is_ascii_alphanumeric (last (take i s)) \<and> last (take i s) \<noteq> 95)"

definition note_markers :: "(str \<times> TaskBlockingState) list" where
  "note_markers = [(lit ''BLOCKED '', Blocked), (lit ''UNBLOCKED '', Unblocked), (lit ''COMPLETED '', Unblocked)]"

definition latest_task_blocking_note_on_line :: "str \<Rightarrow> (nat \<times> TaskBlockingState) option" where
  "latest_task_blocking_note_on_line line =
     (let uppercase = to_ascii_uppercase line in
      fold (\<lambda>(marker, state) latest.
        fold (\<lambda>index latest.
            if word_boundary_before uppercase index
               \<and> starts_with_task_note_date (drop (index + length marker) uppercase)
               \<and> (case latest of None \<Rightarrow> True | Some (latest_index, _) \<Rightarrow> index > latest_index)
            then Some (index, state) else latest)
          (match_indices uppercase marker) latest) note_markers None)"

definition latest_task_blocking_state_on_line :: "str \<Rightarrow> TaskBlockingState option" where
  "latest_task_blocking_state_on_line line = map_option snd (latest_task_blocking_note_on_line line)"

definition blocking_heading_char :: "rchar \<Rightarrow> bool" where
  "blocking_heading_char c \<longleftrightarrow> c \<in> {35, 45, 42, 32}"

fun blocking_note_from :: "str \<Rightarrow> nat \<Rightarrow> nat option \<Rightarrow> str list \<Rightarrow> nat option" where
  "blocking_note_from content offset note [] = note"
| "blocking_note_from content offset note (line # rest) =
     (let heading = trim (trim_start_by blocking_heading_char (trim line));
          note1 = (if eq_ignore_ascii_case heading (lit ''blocked note:'') then Some offset else note);
          note2 = (case latest_task_blocking_note_on_line line of
                     None \<Rightarrow> note1
                   | Some (index, state) \<Rightarrow> if state = Blocked then Some (offset + index) else None)
      in blocking_note_from content (offset + length line) note2 rest)"

definition task_blocking_note :: "str \<Rightarrow> str option" where
  "task_blocking_note content =
     map_option (\<lambda>i. drop i content) (blocking_note_from content 0 None (split_inclusive_nl content))"

definition task_content_is_blocked :: "str \<Rightarrow> bool" where
  "task_content_is_blocked content \<longleftrightarrow> task_blocking_note content \<noteq> None"

section \<open>Normalised text\<close>

definition is_hash :: "rchar \<Rightarrow> bool" where "is_hash c \<longleftrightarrow> c = 35"

definition normalize_line :: "str \<Rightarrow> str" where
  "normalize_line line =
     trim (case strip_prefix (trim_start (trim_start_by is_hash line)) (lit ''- '') of
             Some t \<Rightarrow> t
           | None \<Rightarrow> (case strip_prefix (trim_start (trim_start_by is_hash line)) (lit ''* '') of
                        Some t \<Rightarrow> t | None \<Rightarrow> line))"

definition normalize_task_text :: "str \<Rightarrow> str" where
  "normalize_task_text content =
     join [32] (map normalize_line
       (filter (\<lambda>line. line \<noteq> []) (map trim (lines (task_content_without_recoverable_codex_session content)))))"

definition sentence_end :: "rchar \<Rightarrow> bool" where
  "sentence_end c \<longleftrightarrow> c \<in> {46, 33, 63}"

definition first_sentence :: "str \<Rightarrow> str option" where
  "first_sentence content =
     (let normalized = normalize_task_text (task_content_without_interactive_done_marker
                         (task_content_without_manual_marker content)) in
      if normalized = [] then None
      else let end_idx = (case position sentence_end normalized of Some i \<Rightarrow> i + 1
                          | None \<Rightarrow> length normalized)
           in Some (trim (take end_idx normalized)))"

definition single_line_content :: "str \<Rightarrow> str" where
  "single_line_content content =
     (let normalized = normalize_task_text content in
      case recoverable_codex_session_id_from_task_content content of
        Some sid \<Rightarrow> task_content_with_codex_session normalized sid
      | None \<Rightarrow> normalized)"

definition split_description_metadata :: "str \<Rightarrow> str \<times> str option" where
  "split_description_metadata v =
     (case str_rfind v (lit '' ('') of
        Some start \<Rightarrow> if ends_with v [41]
                       then (take start v, Some (take (length v - 1 - (start + 2)) (drop (start + 2) v)))
                       else (v, None)
      | None \<Rightarrow> (v, None))"

definition content_with_metadata :: "str \<Rightarrow> str option \<Rightarrow> str" where
  "content_with_metadata description metadata =
     (case metadata of Some md \<Rightarrow> description @ lit '' ('' @ md @ [41] | None \<Rightarrow> description)"

definition task_content_for_edit :: "str \<Rightarrow> str" where
  "task_content_for_edit content =
     task_content_without_interactive_done_marker (task_content_without_manual_marker
       (task_content_without_recoverable_codex_session
         (task_content_without_stop_marker (coord_strip content))))"

section \<open>The durable identity\<close>

definition note_cut :: "str \<Rightarrow> nat option" where
  "note_cut trimmed =
     (let uppercase = to_ascii_uppercase trimmed in
      fold (\<lambda>marker note_start.
        fold (\<lambda>index note_start.
            if word_boundary_before uppercase index
               \<and> starts_with_task_note_date (drop (index + length marker) uppercase)
            then Some (case note_start of None \<Rightarrow> index | Some current \<Rightarrow> min current index)
            else note_start)
          (match_indices uppercase marker) note_start)
        [lit ''COMPLETED '', lit ''BLOCKED '', lit ''UNBLOCKED ''] None)"

definition note_separator :: "rchar \<Rightarrow> bool" where
  "note_separator c \<longleftrightarrow> is_ws c \<or> c \<in> {8212, 45, 58, 59}"

definition outcome_heading :: "str \<Rightarrow> bool" where
  "outcome_heading trimmed \<longleftrightarrow>
     to_ascii_lowercase (trim_end_by (\<lambda>c. c = 58) (trim (trim_start_by is_hash trimmed)))
       \<in> {lit ''completion note'', lit ''blocked note'', lit ''unblocked note''}"

definition stable_line :: "str \<Rightarrow> str" where
  "stable_line trimmed =
     (let stable = (case note_cut trimmed of None \<Rightarrow> trimmed | Some index \<Rightarrow> take index trimmed)
      in join [32] (split_whitespace (trim_end_by note_separator stable)))"

fun canonical_lines :: "bool \<Rightarrow> str list \<Rightarrow> str list" where
  "canonical_lines skipping [] = []"
| "canonical_lines skipping (line # rest) =
     (let trimmed = trim line in
      if outcome_heading trimmed then canonical_lines True rest
      else if skipping \<and> \<not> starts_with trimmed [35] then canonical_lines True rest
      else (if stable_line trimmed = [] then [] else [stable_line trimmed]) @ canonical_lines False rest)"

definition durable_task_identity :: "str \<Rightarrow> str option" where
  "durable_task_identity content0 =
     (let content = task_content_without_interactive_done_marker
                      (task_content_without_recoverable_codex_session
                        (think_strip (coord_strip content0)));
          ls = canonical_lines False (lines content)
      in if ls = [] then None else Some (lit ''v2'' @ [10] @ join [10] ls))"

definition follow_up_session :: "str \<Rightarrow> str option" where
  "follow_up_session content =
     (case last_word content of
        None \<Rightarrow> None
      | Some marker \<Rightarrow>
          (case strip_prefix marker (lit ''clt-follow-up:'') of
             None \<Rightarrow> None
           | Some sid \<Rightarrow>
               if valid_session sid \<and> length (match_indices content (lit ''clt-follow-up:'')) = 1
                  \<and> codex_session_markers_in_task_content content = []
                  \<and> durable_task_identity content \<noteq> None
               then Some sid else None))"

definition follow_up_matches_status :: "str \<Rightarrow> TaskStatus \<Rightarrow> bool" where
  "follow_up_matches_status content status =
     (case status of
        Todo \<Rightarrow> \<not> task_content_is_blocked content
      | Doing \<Rightarrow> task_content_is_blocked content
          \<and> list_ex (\<lambda>line. latest_task_blocking_state_on_line line = Some Blocked) (lines content)
      | _ \<Rightarrow> False)"

section \<open>Names of task files\<close>

definition front_order_rank :: "str \<Rightarrow> nat option" where
  "front_order_rank name =
     (if length name > 26 \<and> starts_with name (lit ''0000-'')
         \<and> list_all is_ascii_digit (take 20 (drop 5 name)) \<and> name ! 25 = 45
      then parse_u64 (take 20 (drop 5 name)) else None)"

definition strip_order_prefix :: "str \<Rightarrow> str" where
  "strip_order_prefix name =
     (if front_order_rank name \<noteq> None then drop 26 name
      else if length name > 5 \<and> list_all is_ascii_digit (take 4 name) \<and> name ! 4 = 45 then drop 5 name
      else name)"

text \<open>\<^verbatim>\<open>char::to_lowercase\<close>, as far as its result can be an ASCII letter: of the characters outside
  ASCII only the Kelvin sign and the dotted capital I have one.\<close>

definition to_lowercase :: "rchar \<Rightarrow> str" where
  "to_lowercase c =
     (if c = 8490 then [107] else if c = 304 then [105, 775] else [ascii_lower c])"

fun slug_from :: "str \<Rightarrow> bool \<Rightarrow> str \<Rightarrow> str" where
  "slug_from slug last_was_dash [] = slug"
| "slug_from slug last_was_dash (c # cs) =
     (let (slug', dash) =
        (if is_ascii_alphanumeric c then (slug @ [c], False)
         else if \<not> last_was_dash \<and> slug \<noteq> [] then (slug @ [45], True)
         else (slug, last_was_dash))
      in if length slug' \<ge> 48 then slug' else slug_from slug' dash cs)"

definition slugify :: "str \<Rightarrow> str" where
  "slugify v =
     (let slug = trim_end_by (\<lambda>c. c = 45) (slug_from [] False (concat (map to_lowercase v)))
      in if slug = [] then lit ''task'' else slug)"

text \<open>\<^verbatim>\<open>usize\<close> has 64 bits.\<close>

definition parse_one_based_task_index :: "str \<Rightarrow> nat result" where
  "parse_one_based_task_index s =
     (case parse_u64 s of
        None \<Rightarrow> Inl ''Invalid task index. Please provide a number.''
      | Some i \<Rightarrow> if i = 0 then Inl ''Task index must be 1 or greater.'' else Inr i)"

definition looks_like_metadata :: "str \<Rightarrow> bool" where
  "looks_like_metadata v \<longleftrightarrow> 44 \<in> set v
     \<or> (list_ex is_ascii_alphabetic v
        \<and> list_all (\<lambda>c. \<not> is_ascii_lowercase c \<and> c \<noteq> 34 \<and> c \<noteq> 39) v)"

definition parse_add_task_args :: "str list \<Rightarrow> (str \<times> str option) result" where
  "parse_add_task_args args =
     (if args = [] then Inl ''Task description cannot be empty.''
      else
        let (args', metadata) =
          (if length args > 1 \<and> looks_like_metadata (last args) then (butlast args, Some (last args))
           else (args, None));
          description = join [32] args'
        in if trim description = [] then Inl ''Task description cannot be empty.''
           else Inr (description, metadata))"

definition rsplit_once :: "str \<Rightarrow> str \<Rightarrow> (str \<times> str) option" where
  "rsplit_once s p = map_option (\<lambda>i. (take i s, drop (i + length p) s)) (str_rfind s p)"

definition split_once :: "str \<Rightarrow> str \<Rightarrow> (str \<times> str) option" where
  "split_once s p = map_option (\<lambda>i. (take i s, drop (i + length p) s)) (str_find s p)"

definition is_clt_atomic_task_temporary_name :: "str \<Rightarrow> bool" where
  "is_clt_atomic_task_temporary_name name0 =
     (case strip_prefix name0 (lit ''.'') of
        None \<Rightarrow> False
      | Some name \<Rightarrow>
          (case rsplit_once name (lit ''.clt-'') of
             None \<Rightarrow> False
           | Some (original_name, suffix0) \<Rightarrow>
               (case strip_suffix suffix0 (lit ''.tmp'') of
                  None \<Rightarrow> False
                | Some suf \<Rightarrow>
                    (case split_once suf (lit ''-'') of
                       None \<Rightarrow> False
                     | Some (pid, nonce) \<Rightarrow>
                         original_name \<noteq> [] \<and> pid \<noteq> [] \<and> list_all is_ascii_digit pid
                         \<and> nonce \<noteq> [] \<and> list_all is_ascii_digit nonce))))"

section \<open>Entries\<close>

text \<open>A path of the board's file tree as the list of its components.\<close>

datatype TaskSource = MarkdownLine nat | PathSource "str list" bool

record TaskEntry =
  t_source :: TaskSource
  t_summary :: str
  t_content :: str
  t_metadata :: "str option"
  t_has_subtasks :: bool

definition task_entry_from_text :: "TaskSource \<Rightarrow> str \<Rightarrow> str \<Rightarrow> bool \<Rightarrow> TaskEntry" where
  "task_entry_from_text source text0 content has_subtasks =
     (let text = think_strip (coord_strip text0);
          summary = (case first_sentence text of Some s \<Rightarrow> s | None \<Rightarrow> trim text);
          (description, metadata) = split_description_metadata summary
      in \<lparr>t_source = source, t_summary = description, t_content = content, t_metadata = metadata,
          t_has_subtasks = has_subtasks\<rparr>)"

definition task_entry_is_ready :: "TaskEntry \<Rightarrow> bool" where
  "task_entry_is_ready entry \<longleftrightarrow> \<not> task_content_is_stopped (t_content entry)
     \<and> \<not> task_content_is_blocked (t_content entry) \<and> \<not> task_content_is_manual (t_content entry)"

definition task_display_text :: "TaskEntry \<Rightarrow> str" where
  "task_display_text entry =
     (let summary0 = think_strip (coord_strip (t_summary entry));
          summary = task_content_without_interactive_done_marker
                      (task_content_without_manual_marker (task_content_without_stop_marker summary0));
          text = (case t_metadata entry of Some md \<Rightarrow> summary @ lit '' ('' @ md @ [41] | None \<Rightarrow> summary)
      in think_label (t_content entry) text)"

definition task_full_display_text :: "TaskEntry \<Rightarrow> str" where
  "task_full_display_text entry =
     (let raw = think_strip (coord_strip (t_content entry));
          content = normalize_task_text (task_content_without_interactive_done_marker
                      (task_content_without_manual_marker (task_content_without_stop_marker raw)))
      in if content = [] then task_display_text entry else think_label (t_content entry) content)"

end
