(* ===== verification/Dependency_Graph.thy ===== *)
theory Dependency_Graph
  imports Task_Text "HOL-Library.Product_Lexorder" "HOL-Library.List_Lexorder"
begin

text \<open>
  Admission of tasks (\<^verbatim>\<open>src/src/coordination.rs\<close>): the snapshot of a board with its coordination
  metadata, the search of the dependency graph, the waits of a task and the overlap of two
  tasks, and the update of a task's coordination metadata.  Messages are kept as the values
  they are formatted from.
\<close>

section \<open>Tasks and snapshots\<close>

record Task =
  board :: "str list"
  status :: TaskStatus
  index :: nat
  entry :: TaskEntry
  meta :: Metadata
  error :: "string option"
  completion_wait :: "string option"
  owner :: string

record Snapshot =
  tasks :: "Task list"
  changed_files :: "str list"

definition task_complete :: "Task \<Rightarrow> bool" where
  "task_complete t \<longleftrightarrow> status t = Done \<and> completion_wait t = None"

definition task_active :: "Task \<Rightarrow> bool" where
  "task_active t \<longleftrightarrow> status t = Doing \<or> (status t = Done \<and> \<not> task_complete t)"

definition same_task :: "Task \<Rightarrow> Task \<Rightarrow> bool" where
  "same_task a b \<longleftrightarrow> board a = board b \<and> status a = status b \<and> index a = index b"

definition selected :: "Snapshot \<Rightarrow> str list \<Rightarrow> TaskStatus \<Rightarrow> nat \<Rightarrow> Task result" where
  "selected s b st i =
     (if i = 0 then Inl ''Task indexes start at 1''
      else case find (\<lambda>t. board t = b \<and> status t = st \<and> index t = i) (tasks s) of
             None \<Rightarrow> Inl ''Task changed; list tasks and select its current index''
           | Some t \<Rightarrow> Inr t)"

datatype graph_error = Missing_prerequisite str | Duplicate_id str | Cycle "str list" str

definition referenced :: "Snapshot \<Rightarrow> str \<Rightarrow> graph_error + Task" where
  "referenced s i =
     (case filter (\<lambda>t. m_id (meta t) = i \<and> i \<noteq> []) (tasks s) of
        [] \<Rightarrow> Inl (Missing_prerequisite i)
      | [t] \<Rightarrow> Inr t
      | _ \<Rightarrow> Inl (Duplicate_id i))"

section \<open>The search for missing prerequisites and cycles\<close>

definition snapshot_ids :: "Snapshot \<Rightarrow> str set" where
  "snapshot_ids s = (\<lambda>t. m_id (meta t)) ` set (tasks s)"

lemma finite_snapshot_ids [simp]: "finite (snapshot_ids s)"
  by (simp add: snapshot_ids_def)

lemma referenced_in: "referenced s i = Inr t \<Longrightarrow> t \<in> set (tasks s) \<and> m_id (meta t) = i \<and> i \<noteq> []"
proof -
  assume r: "referenced s i = Inr t"
  then have "filter (\<lambda>t. m_id (meta t) = i \<and> i \<noteq> []) (tasks s) = [t]"
    by (auto simp: referenced_def split: list.splits)
  then have "t \<in> set (filter (\<lambda>t. m_id (meta t) = i \<and> i \<noteq> []) (tasks s))" by simp
  then show ?thesis by auto
qed

lemma referenced_id: "referenced s i = Inr t \<Longrightarrow> i \<in> snapshot_ids s"
  using referenced_in by (force simp: snapshot_ids_def)

definition visit_measure :: "(Snapshot \<times> str list \<times> str list \<times> Task) + (Snapshot \<times> str list \<times> str list \<times> str list) \<Rightarrow> nat \<times> nat" where
  "visit_measure x = (case x of
      Inl (s, path, dn, t) \<Rightarrow> (card (snapshot_ids s - set path), if m_id (meta t) = [] then 2 + length (depends_on (meta t)) else 0)
    | Inr (s, path, dn, is) \<Rightarrow> (card (snapshot_ids s - set path), 1 + length is))"

lemma card_path_less:
  "i \<in> snapshot_ids s \<Longrightarrow> i \<notin> set path \<Longrightarrow> card (snapshot_ids s - insert i (set path)) < card (snapshot_ids s - set path)"
  by (rule psubset_card_mono) auto

text \<open>\<open>path\<close> and \<open>done\<close> are the vector and the set the recursion threads; a visit that succeeds
  leaves \<open>path\<close> as it was.\<close>

function visit :: "Snapshot \<Rightarrow> str list \<Rightarrow> str list \<Rightarrow> Task \<Rightarrow> graph_error + str list"
  and visit_all :: "Snapshot \<Rightarrow> str list \<Rightarrow> str list \<Rightarrow> str list \<Rightarrow> graph_error + str list" where
  "visit s path dn t =
     (if m_id (meta t) = [] then visit_all s path dn (depends_on (meta t))
      else case referenced s (m_id (meta t)) of
             Inl e \<Rightarrow> Inl e
           | Inr _ \<Rightarrow>
               if m_id (meta t) \<in> set path then Inl (Cycle path (m_id (meta t)))
               else if m_id (meta t) \<in> set dn then Inr dn
               else case visit_all s (path @ [m_id (meta t)]) dn (depends_on (meta t)) of
                      Inl e \<Rightarrow> Inl e
                    | Inr dn' \<Rightarrow> Inr (m_id (meta t) # dn'))"
| "visit_all s path dn [] = Inr dn"
| "visit_all s path dn (i # is) =
     (case referenced s i of
        Inl e \<Rightarrow> Inl e
      | Inr t \<Rightarrow> (case visit s path dn t of
                    Inl e \<Rightarrow> Inl e
                  | Inr dn' \<Rightarrow> visit_all s path dn' is))"
  by pat_completeness auto

termination
  by (relation "inv_image (less_than <*lex*> less_than) visit_measure")
     (auto simp: visit_measure_def intro: card_path_less referenced_id dest: referenced_in)

declare visit.simps [simp del]

text \<open>\<^verbatim>\<open>Snapshot::depends_on\<close>: the dependencies of a dependency are searched before the remaining ones,
  with one set of seen ids, so the recursion is written on the list of those still to search.\<close>

function dep_search :: "Snapshot \<Rightarrow> str \<Rightarrow> str list \<Rightarrow> str list \<Rightarrow> bool" where
  "dep_search s i seen [] = False"
| "dep_search s i seen (d # ds) =
     (if d = i then True
      else if d \<in> set seen then dep_search s i seen ds
      else case referenced s d of
             Inl _ \<Rightarrow> dep_search s i (d # seen) ds
           | Inr t \<Rightarrow> dep_search s i (d # seen) (depends_on (meta t) @ ds))"
  by pat_completeness auto

termination
proof (relation "inv_image (less_than <*lex*> less_than) (\<lambda>(s, i, seen, ds). (card (snapshot_ids s - set seen), length ds))", goal_cases)
  case (3 s i seen d ds e)
  have "card (snapshot_ids s - insert d (set seen)) \<le> card (snapshot_ids s - set seen)" by (rule card_mono) auto
  then show ?case by auto
next
  case (4 s i seen d ds t)
  then have "d \<in> snapshot_ids s" "d \<notin> set seen" by (auto dest: referenced_id)
  then show ?case using card_path_less by simp
qed auto

definition task_depends_on :: "Snapshot \<Rightarrow> Task \<Rightarrow> str \<Rightarrow> bool" where
  "task_depends_on s t i = dep_search s i [] (depends_on (meta t))"

section \<open>Overlap of two tasks\<close>

fun trim_start_dot_slash :: "str \<Rightarrow> str" where
  "trim_start_dot_slash (a # b # s) = (if a = 46 \<and> b = 47 then trim_start_dot_slash s else a # b # s)"
| "trim_start_dot_slash s = s"

definition path_overlap :: "str \<Rightarrow> str \<Rightarrow> bool" where
  "path_overlap a0 b0 \<longleftrightarrow>
     (let a = trim_start_dot_slash (trim_end_by (\<lambda>c. c = 47) a0);
          b = trim_start_dot_slash (trim_end_by (\<lambda>c. c = 47) b0);
          under = (\<lambda>x y. case strip_prefix x y of None \<Rightarrow> False | Some rest \<Rightarrow> starts_with rest [47])
      in a = b \<or> under a b \<or> under b a)"

text \<open>\<^verbatim>\<open>symbol.len() > 3\<close> counts bytes of UTF-8.\<close>

definition utf8_len :: "str \<Rightarrow> nat" where
  "utf8_len s = sum_list (map (\<lambda>c. if c < 128 then 1 else if c < 2048 then 2 else if c < 65536 then 3 else 4) s)"

definition symbol_like :: "str \<Rightarrow> bool" where
  "symbol_like y \<longleftrightarrow> utf8_len y > 3 \<and> \<not> list_ex is_ws y
     \<and> (contains y (lit ''/'') \<or> contains y (lit ''::'') \<or> contains y (lit ''_'') \<or> ends_with y (lit ''.rs''))"

fun odd_positions :: "'a list \<Rightarrow> 'a list" where
  "odd_positions (a # b # xs) = b # odd_positions xs"
| "odd_positions _ = []"

definition inferred_symbols :: "Task \<Rightarrow> str list" where
  "inferred_symbols t =
     remdups (filter symbol_like (map trim (odd_positions (split_at_char 96 (coord_strip (t_content (entry t)))))))"

datatype concern =
  Shared_module str | Shared_interface str | Shared_resource str | Shared_file str bool
| Named_by_both str | Meets_requirement str

datatype wait =
  Metadata_error string | Dependency_error graph_error | Waiting_for Task string
| Behavior_conflict Task str str str | Review_conflict Task str | Potential_overlap Task "concern list"

text \<open>The stamp of a pair of tasks; \<open>json\<close> and \<open>uuid5\<close> stand for \<^verbatim>\<open>serde_json\<close> and \<^verbatim>\<open>uuid::Uuid::new_v5\<close>.\<close>

type_synonym json_codec = "str \<times> str option \<times> Scope \<times> str list \<Rightarrow> str"

definition task_json :: "json_codec \<Rightarrow> Task \<Rightarrow> str" where
  "task_json json t = json (m_id (meta t), durable_task_identity (task_content_for_edit (t_content (entry t))),
     scope (meta t), depends_on (meta t))"

definition task_evidence :: "json_codec \<Rightarrow> (str \<Rightarrow> str) \<Rightarrow> Task \<Rightarrow> Task \<Rightarrow> str" where
  "task_evidence json uuid5 a b = uuid5 (join [10] (sort [task_json json a, task_json json b]))"

definition behavior_conflict :: "Task \<Rightarrow> Task \<Rightarrow> (str \<times> str \<times> str) option" where
  "behavior_conflict t u =
     map_option (\<lambda>(k, v). (k, v, the (map_of (behavior (scope (meta u))) k)))
       (find (\<lambda>(k, v). case map_of (behavior (scope (meta u))) k of None \<Rightarrow> False | Some v' \<Rightarrow> v \<noteq> v')
          (behavior (scope (meta t))))"

definition review_of :: "str \<Rightarrow> Task \<Rightarrow> Task \<Rightarrow> Review option" where
  "review_of stamp own peer =
     (if m_id (meta peer) = [] then None
      else find (\<lambda>r. other r = m_id (meta peer) \<and> evidence r = stamp) (reviews (meta own)))"

definition contract_of :: "Scope \<Rightarrow> str list" where
  "contract_of sc = modules sc @ interfaces sc @ resources sc"

definition meets_requirement :: "Scope \<Rightarrow> str \<Rightarrow> bool" where
  "meets_requirement sc y \<longleftrightarrow> list_ex (\<lambda>f. path_overlap f y) (files sc)
     \<or> list_ex (\<lambda>n. n = y \<or> starts_with y (n @ lit ''::'')) (contract_of sc)"

definition overlap_concerns :: "Task \<Rightarrow> Task \<Rightarrow> str list \<Rightarrow> concern list" where
  "overlap_concerns t u changed =
     (let a = scope (meta t); b = scope (meta u); ours = inferred_symbols t; theirs = inferred_symbols u
      in map Shared_module (filter (\<lambda>x. x \<in> set (modules b)) (modules a))
       @ map Shared_interface (filter (\<lambda>x. x \<in> set (interfaces b)) (interfaces a))
       @ map Shared_resource (filter (\<lambda>x. x \<in> set (resources b)) (resources a))
       @ map (\<lambda>f. Shared_file f (list_ex (path_overlap f) changed))
           (filter (\<lambda>f. list_ex (path_overlap f) (files b)) (files a))
       @ map Named_by_both (filter (\<lambda>y. y \<in> set theirs) ours)
       @ map Meets_requirement (filter (meets_requirement a) theirs @ filter (meets_requirement b) ours))"

definition overlap :: "json_codec \<Rightarrow> (str \<Rightarrow> str) \<Rightarrow> Task \<Rightarrow> Task \<Rightarrow> str list \<Rightarrow> wait option" where
  "overlap json uuid5 t u changed =
     (case behavior_conflict t u of
        Some (k, v, v') \<Rightarrow> Some (Behavior_conflict u k v v')
      | None \<Rightarrow>
          let stamp = task_evidence json uuid5 t u;
              r1 = review_of stamp t u; r2 = review_of stamp u t
          in (case r1 of
               Some r \<Rightarrow> if \<not> compatible r then Some (Review_conflict u (reason r))
                         else (case r2 of
                                 Some r' \<Rightarrow> if \<not> compatible r' then Some (Review_conflict u (reason r')) else None
                               | None \<Rightarrow> None)
             | None \<Rightarrow>
                 (case r2 of
                    Some r' \<Rightarrow> if \<not> compatible r' then Some (Review_conflict u (reason r')) else None
                  | None \<Rightarrow>
                      let cs = overlap_concerns t u changed
                      in if cs = [] then None else Some (Potential_overlap u cs))))"

section \<open>Waits and admission\<close>

definition prerequisite_waits :: "Snapshot \<Rightarrow> Task \<Rightarrow> wait list" where
  "prerequisite_waits s t =
     List.map_filter (\<lambda>i. case referenced s i of
        Inl _ \<Rightarrow> None
      | Inr o' \<Rightarrow> if task_complete o' then None
                  else Some (Waiting_for o' (case completion_wait o' of
                                None \<Rightarrow> ''prerequisite is unfinished'' | Some w \<Rightarrow> w)))
       (depends_on (meta t))"

definition overlap_waits :: "json_codec \<Rightarrow> (str \<Rightarrow> str) \<Rightarrow> Snapshot \<Rightarrow> Task \<Rightarrow> wait list" where
  "overlap_waits json uuid5 s t =
     List.map_filter (\<lambda>u. if m_id (meta t) \<noteq> [] \<and> task_depends_on s u (m_id (meta t)) then None
                          else overlap json uuid5 t u (changed_files s))
       (filter (\<lambda>u. task_active u \<and> \<not> same_task t u) (tasks s))"

definition waits :: "json_codec \<Rightarrow> (str \<Rightarrow> str) \<Rightarrow> Snapshot \<Rightarrow> Task \<Rightarrow> wait list" where
  "waits json uuid5 s t =
     (if task_complete t then []
      else case error t of
             Some e \<Rightarrow> [Metadata_error e]
           | None \<Rightarrow>
               (case visit s [] [] t of
                  Inl e \<Rightarrow> [Dependency_error e]
                | Inr _ \<Rightarrow> prerequisite_waits s t @ overlap_waits json uuid5 s t))"

definition snapshot_ready :: "json_codec \<Rightarrow> (str \<Rightarrow> str) \<Rightarrow> Snapshot \<Rightarrow> TaskEntry \<Rightarrow> bool" where
  "snapshot_ready json uuid5 s e \<longleftrightarrow> task_entry_is_ready e
     \<and> (case find (\<lambda>t. t_source (entry t) = t_source e \<and> t_content (entry t) = t_content e) (tasks s) of
          None \<Rightarrow> False
        | Some t \<Rightarrow> waits json uuid5 s t = [])"

definition session_waiting :: "json_codec \<Rightarrow> (str \<Rightarrow> str) \<Rightarrow> Snapshot \<Rightarrow> str \<Rightarrow> bool" where
  "session_waiting json uuid5 s session =
     list_ex (\<lambda>t. waits json uuid5 s t \<noteq> [])
       (filter (\<lambda>t. status t \<noteq> Done
          \<and> recoverable_codex_session_id_from_task_content (t_content (entry t)) = Some session) (tasks s))"

definition ensure_admitted ::
  "json_codec \<Rightarrow> (str \<Rightarrow> str) \<Rightarrow> Snapshot \<Rightarrow> str list \<Rightarrow> TaskStatus \<Rightarrow> nat \<Rightarrow> (string + wait list) + unit" where
  "ensure_admitted json uuid5 s b st i =
     (case selected s b st i of
        Inl e \<Rightarrow> Inl (Inl e)
      | Inr t \<Rightarrow> (if waits json uuid5 s t = [] then Inr () else Inl (Inr (waits json uuid5 s t))))"

end
