(* ===== verification/Scheduler.thy ===== *)
theory Scheduler
  imports Sessions_Runs Dependency_Graph
begin

text \<open>
  The scheduler (\<^verbatim>\<open>src/src/scheduler.rs\<close>, with the supervision of orphaned sessions of
  \<^verbatim>\<open>src/src/session_recovery.rs\<close>): what a project has to do, which work is chosen, when a project
  cools down, whose lease may be reclaimed, and how controls left by dead processes are
  reconciled.  The operating system answers through \<open>os_view\<close>; what the board and the other
  components answer is \<open>board_view\<close>.  Both are arguments.
\<close>

section \<open>Choosing the work\<close>

datatype AgentTaskSelection =
  NextTodo | ResumeDoing | RecoverBlocked | ResumeSession | SupervisorReview | SupervisorRetry

fun selection_label :: "AgentTaskSelection \<Rightarrow> string" where
  "selection_label NextTodo = ''next_todo''"
| "selection_label ResumeDoing = ''resume_doing''"
| "selection_label RecoverBlocked = ''recover_blocked''"
| "selection_label ResumeSession = ''resume_session''"
| "selection_label SupervisorReview = ''supervisor_review''"
| "selection_label SupervisorRetry = ''supervisor_retry''"

definition selection_from_label :: "string \<Rightarrow> AgentTaskSelection result" where
  "selection_from_label v =
     (if v = ''next_todo'' then Inr NextTodo
      else if v = ''resume_doing'' then Inr ResumeDoing
      else if v = ''recover_blocked'' then Inr RecoverBlocked
      else if v = ''resume_session'' then Inr ResumeSession
      else if v = ''supervisor_review'' then Inr SupervisorReview
      else if v = ''supervisor_retry'' then Inr SupervisorRetry
      else Inl ''Unknown agent worker task selection'')"

record AgentSchedulingDecisionRequest =
  has_resume_session :: bool
  resume_interrupted_task :: bool
  rq_has_blocked_task :: bool
  blocked_recovery_backoff_active :: bool
  rq_has_pending_task :: bool

definition decide_agent_scheduling_stage :: "AgentSchedulingDecisionRequest \<Rightarrow> AgentTaskSelection option" where
  "decide_agent_scheduling_stage r =
     (if has_resume_session r then Some ResumeSession
      else if resume_interrupted_task r then Some ResumeDoing
      else if rq_has_blocked_task r \<and> \<not> blocked_recovery_backoff_active r then Some RecoverBlocked
      else if rq_has_pending_task r then Some NextTodo
      else if rq_has_blocked_task r then Some RecoverBlocked
      else None)"

section \<open>Scanning a project\<close>

datatype AgentProjectScanStatus = Pending | ScanBlocked | Empty | Missing | Uninitialized | Unavailable string

record AgentProjectScan =
  scan_status :: AgentProjectScanStatus
  todo_count :: nat
  manual_todo_count :: nat
  coordination_wait_count :: nat
  blocked_todo_count :: nat
  stopped_todo_count :: nat
  doing_count :: nat
  blocked_doing_count :: nat

definition scan_from_counts :: "nat \<Rightarrow> nat \<Rightarrow> nat \<Rightarrow> nat \<Rightarrow> nat \<Rightarrow> AgentProjectScan" where
  "scan_from_counts todo blocked_todo stopped_todo doing blocked_doing =
     (let available = saturating_sub (saturating_sub todo blocked_todo) stopped_todo;
          task_count = saturating_add_u64 todo doing;
          blocked = saturating_add_u64 blocked_todo blocked_doing;
          st = (if available > 0 then Pending
                else if task_count > 0 \<and> blocked = task_count then ScanBlocked else Empty)
      in \<lparr>scan_status = st, todo_count = todo, manual_todo_count = 0, coordination_wait_count = 0,
          blocked_todo_count = blocked_todo, stopped_todo_count = stopped_todo, doing_count = doing,
          blocked_doing_count = blocked_doing\<rparr>)"

definition scan_of_status :: "AgentProjectScanStatus \<Rightarrow> AgentProjectScan" where
  "scan_of_status st =
     \<lparr>scan_status = st, todo_count = 0, manual_todo_count = 0, coordination_wait_count = 0,
      blocked_todo_count = 0, stopped_todo_count = 0, doing_count = 0, blocked_doing_count = 0\<rparr>"

definition has_pending_task :: "AgentProjectScan \<Rightarrow> bool" where
  "has_pending_task s \<longleftrightarrow> scan_status s = Pending"

definition available_todo_count :: "AgentProjectScan \<Rightarrow> nat" where
  "available_todo_count s =
     saturating_sub (saturating_sub (saturating_sub (saturating_sub (todo_count s) (manual_todo_count s))
       (blocked_todo_count s)) (stopped_todo_count s)) (coordination_wait_count s)"

definition blocked_task_count :: "AgentProjectScan \<Rightarrow> nat" where
  "blocked_task_count s = saturating_add_u64 (blocked_todo_count s) (blocked_doing_count s)"

definition has_blocked_task :: "AgentProjectScan \<Rightarrow> bool" where
  "has_blocked_task s \<longleftrightarrow> blocked_task_count s > 0"

definition has_schedulable_work :: "AgentProjectScan \<Rightarrow> bool" where
  "has_schedulable_work s \<longleftrightarrow> has_pending_task s \<or> has_blocked_task s"

text \<open>The state of the project's directory, as the file system reports it.\<close>

datatype project_dir = Is_dir | Not_dir | Not_found | Dir_error string

definition entry_manual :: "TaskEntry \<Rightarrow> bool" where
  "entry_manual e = task_content_is_manual (t_content e)"

definition entry_stopped :: "TaskEntry \<Rightarrow> bool" where
  "entry_stopped e = task_content_is_stopped (t_content e)"

definition entry_blocked :: "TaskEntry \<Rightarrow> bool" where
  "entry_blocked e = task_content_is_blocked (t_content e)"

definition count_if :: "('a \<Rightarrow> bool) \<Rightarrow> 'a list \<Rightarrow> nat" where
  "count_if P xs = length (filter P xs)"

text \<open>The scan of the entries that were read; \<open>ready\<close> is the admission of the coordination snapshot.\<close>

definition scan_entries :: "(TaskEntry \<Rightarrow> bool) \<Rightarrow> TaskEntry list \<Rightarrow> TaskEntry list \<Rightarrow> AgentProjectScan" where
  "scan_entries ready todo_all doing_all =
     (let waiting = count_if (\<lambda>e. task_entry_is_ready e \<and> \<not> ready e) todo_all;
          todo = filter (\<lambda>e. \<not> entry_manual e) todo_all;
          doing = filter (\<lambda>e. \<not> entry_manual e) doing_all;
          blocked = (\<lambda>e. entry_blocked e \<and> \<not> entry_stopped e);
          scan = (scan_from_counts (length todo) (count_if blocked todo) (count_if entry_stopped todo)
                    (length doing) (count_if blocked doing))\<lparr>coordination_wait_count := waiting\<rparr>;
          scan1 = (if available_todo_count scan = 0 \<and> scan_status scan = Pending
                   then scan\<lparr>scan_status := Empty\<rparr> else scan)
      in scan1\<lparr>manual_todo_count := length todo_all - length todo, todo_count := length todo_all,
               doing_count := length doing_all\<rparr>)"

definition scan_agent_project ::
  "project_dir \<Rightarrow> bool result \<Rightarrow> TaskEntry list result \<Rightarrow> TaskEntry list result
     \<Rightarrow> (TaskEntry \<Rightarrow> bool) result \<Rightarrow> AgentProjectScan" where
  "scan_agent_project dir existing todo doing ready =
     (case dir of
        Not_dir \<Rightarrow> scan_of_status (Unavailable ''Project path is not a directory'')
      | Not_found \<Rightarrow> scan_of_status Missing
      | Dir_error e \<Rightarrow> scan_of_status (Unavailable e)
      | Is_dir \<Rightarrow>
          (case existing of
             Inl e \<Rightarrow> scan_of_status (Unavailable e)
           | Inr False \<Rightarrow> scan_of_status Uninitialized
           | Inr True \<Rightarrow>
               (case (todo, doing, ready) of
                  (Inl e, _, _) \<Rightarrow> scan_of_status (Unavailable e)
                | (Inr _, Inl e, _) \<Rightarrow> scan_of_status (Unavailable e)
                | (Inr _, Inr _, Inl e) \<Rightarrow> scan_of_status (Unavailable e)
                | (Inr ts, Inr ds, Inr r) \<Rightarrow> scan_entries r ts ds)))"

section \<open>Cooling down\<close>

definition remaining_agent_delay :: "str option \<Rightarrow> nat \<Rightarrow> nat \<Rightarrow> nat option" where
  "remaining_agent_delay last_at now delay =
     Option.bind (Option.bind last_at parse_u64) (\<lambda>t.
       let ready_at = saturating_add_u64 t delay in if ready_at > now then Some (ready_at - now) else None)"

datatype cooldown = Failure_backoff nat | Success_cooldown nat | Blocked_backoff nat

definition agent_project_cooldown_reason :: "project_row \<Rightarrow> nat \<Rightarrow> nat \<Rightarrow> nat \<Rightarrow> cooldown option" where
  "agent_project_cooldown_reason p now success_cooldown failure_backoff =
     (case (if p_failure_count p > 0 then remaining_agent_delay (p_last_failure_at p) now failure_backoff else None) of
        Some r \<Rightarrow> Some (Failure_backoff r)
      | None \<Rightarrow> map_option Success_cooldown (remaining_agent_delay (p_last_success_at p) now success_cooldown))"

definition blocked_recovery_backoff_reason :: "project_row \<Rightarrow> nat \<Rightarrow> nat \<Rightarrow> cooldown option" where
  "blocked_recovery_backoff_reason p now failure_backoff =
     map_option Blocked_backoff (remaining_agent_delay (p_last_blocked_recovery_at p) now failure_backoff)"

definition agent_task_cooldown_reason ::
  "project_row \<Rightarrow> AgentTaskSelection \<Rightarrow> nat \<Rightarrow> nat \<Rightarrow> nat \<Rightarrow> cooldown option" where
  "agent_task_cooldown_reason p sel now success_cooldown failure_backoff =
     (if sel \<in> {ResumeDoing, ResumeSession} then
        (if p_failure_count p > 0
         then map_option Failure_backoff (remaining_agent_delay (p_last_failure_at p) now failure_backoff)
         else None)
      else case agent_project_cooldown_reason p now success_cooldown failure_backoff of
             Some r \<Rightarrow> Some r
           | None \<Rightarrow> if sel = RecoverBlocked then blocked_recovery_backoff_reason p now failure_backoff else None)"

section \<open>Settings\<close>

definition parse_agent_run_timeout :: "str option \<Rightarrow> nat result" where
  "parse_agent_run_timeout raw =
     (case raw of
        None \<Rightarrow> Inr 0
      | Some r \<Rightarrow> (case parse_u64 r of
                     None \<Rightarrow> Inl ''must be a non-negative integer number of seconds''
                   | Some s \<Rightarrow> Inr s))"

definition parse_agent_timeout_duration :: "str \<Rightarrow> nat result" where
  "parse_agent_timeout_duration raw =
     (case parse_u64 raw of
        None \<Rightarrow> Inl ''must be a positive integer number of seconds''
      | Some s \<Rightarrow> if s = 0 then Inl ''must be greater than zero'' else Inr s)"

definition parse_agent_positive_usize :: "str \<Rightarrow> nat result" where
  "parse_agent_positive_usize raw =
     (case parse_u64 raw of
        None \<Rightarrow> Inl ''must be a positive integer''
      | Some v \<Rightarrow> if v = 0 then Inl ''must be greater than zero'' else Inr v)"

definition parse_agent_bool :: "str \<Rightarrow> bool result" where
  "parse_agent_bool raw =
     (let v = to_ascii_lowercase (trim raw)
      in if v \<in> {lit ''1'', lit ''true'', lit ''yes'', lit ''on''} then Inr True
         else if v \<in> {lit ''0'', lit ''false'', lit ''no'', lit ''off''} then Inr False
         else Inl ''must be one of 1, true, yes, on, 0, false, no, off'')"

text \<open>A duration is its milliseconds; the interval is a third of the timeout within bounds.\<close>

definition agent_lease_renew_interval :: "nat \<Rightarrow> nat" where
  "agent_lease_renew_interval lease_timeout_millis = min (max (lease_timeout_millis div 3) 250) 15000"

definition agent_daemon_sleep_interval :: "nat \<Rightarrow> nat \<Rightarrow> nat" where
  "agent_daemon_sleep_interval scanned_projects poll_interval =
     (if scanned_projects = 0 then min poll_interval 5 else poll_interval)"

end
