(* ===== verification/Reconcile.thy ===== *)
theory Reconcile
  imports Scheduler
begin

text \<open>
  Owners that may have died (\<^verbatim>\<open>src/src/scheduler.rs\<close>, \<^verbatim>\<open>src/src/session_recovery.rs\<close>,
  \<^verbatim>\<open>src/src/session_control/completed.rs\<close>): the process a lease holder names, whether a lease may be
  reclaimed, and the pass that reconciles the session controls of a project with the processes that
  are still there.  Every store call is its own transaction, so an error in the middle leaves what
  was done before it.
\<close>

section \<open>Processes\<close>

text \<open>What the system says: \<^verbatim>\<open>Some True\<close> the process or process group exists, \<^verbatim>\<open>Some False\<close> it is
  proven absent, \<^verbatim>\<open>None\<close> it cannot tell.\<close>

record os_view =
  own_pid :: nat
  process_running :: "nat \<Rightarrow> bool option"
  group_running :: "nat \<Rightarrow> bool option"
  orphan_attach :: "nat \<Rightarrow> int \<Rightarrow> str \<Rightarrow> bool result"
  spawn_supervisor :: "control_row \<Rightarrow> unit result"

datatype AgentLeaseHolderLiveness = CurrentProcess | Alive | Dead | Unknown

definition agent_pid_liveness :: "os_view \<Rightarrow> nat \<Rightarrow> AgentLeaseHolderLiveness" where
  "agent_pid_liveness os pid =
     (if pid = own_pid os then CurrentProcess
      else case process_running os pid of Some True \<Rightarrow> Alive | Some False \<Rightarrow> Dead | None \<Rightarrow> Unknown)"

definition before_dash :: "str \<Rightarrow> str" where
  "before_dash = takeWhile (\<lambda>c. c \<noteq> 45)"

definition recovered_supervisor_pid :: "str \<Rightarrow> nat option" where
  "recovered_supervisor_pid holder =
     Option.bind (strip_prefix holder (lit ''clt-reattached-'')) (\<lambda>s. parse_u32 (before_dash s))"

fun find_map :: "('a \<Rightarrow> 'b option) \<Rightarrow> 'a list \<Rightarrow> 'b option" where
  "find_map f [] = None"
| "find_map f (x # xs) = (case f x of Some y \<Rightarrow> Some y | None \<Rightarrow> find_map f xs)"

definition agent_lease_holder_pid :: "str \<Rightarrow> nat option" where
  "agent_lease_holder_pid holder =
     (case recovered_supervisor_pid holder of
        Some pid \<Rightarrow> Some pid
      | None \<Rightarrow> Option.bind (find_map (strip_prefix holder)
                  [lit ''clt-agent-'', lit ''clt-scheduler-'', lit ''clt-interactive-'']) parse_u32)"

definition agent_lease_holder_liveness :: "os_view \<Rightarrow> str \<Rightarrow> AgentLeaseHolderLiveness" where
  "agent_lease_holder_liveness os holder =
     (case agent_lease_holder_pid holder of None \<Rightarrow> Unknown | Some pid \<Rightarrow> agent_pid_liveness os pid)"

definition interactive_lease_holder_pid :: "str \<Rightarrow> nat option" where
  "interactive_lease_holder_pid holder =
     (case guardian_process_id holder of
        Some pid \<Rightarrow> Some pid
      | None \<Rightarrow> find_map (\<lambda>prefix. Option.bind (strip_prefix holder prefix) (\<lambda>s. parse_u32 (before_dash s)))
          [lit ''clt-stopped-shared-interactive-'', lit ''clt-shared-interactive-'',
           lit ''clt-stopped-readonly-interactive-'', lit ''clt-readonly-interactive-'',
           lit ''clt-stopped-interactive-'', lit ''clt-idle-interactive-'', lit ''clt-interactive-''])"

definition interactive_lease_holder_liveness :: "os_view \<Rightarrow> str \<Rightarrow> AgentLeaseHolderLiveness option" where
  "interactive_lease_holder_liveness os holder = map_option (agent_pid_liveness os) (interactive_lease_holder_pid holder)"

definition interactive_lease_holder_is_proven_dead :: "os_view \<Rightarrow> str \<Rightarrow> bool" where
  "interactive_lease_holder_is_proven_dead os holder \<longleftrightarrow> interactive_lease_holder_liveness os holder = Some Dead"

definition guardian_process_is_proven_dead :: "os_view \<Rightarrow> str \<Rightarrow> bool" where
  "guardian_process_is_proven_dead os holder \<longleftrightarrow>
     (case guardian_process_id holder of None \<Rightarrow> False | Some pid \<Rightarrow> process_running os pid = Some False)"

section \<open>Reclaiming leases\<close>

definition agent_lease_is_reclaimable :: "os_view \<Rightarrow> lease_row \<Rightarrow> bool \<Rightarrow> nat \<Rightarrow> bool" where
  "agent_lease_is_reclaimable os l reclaim_current now =
     (if recovered_supervisor_pid (l_holder l) \<noteq> None then agent_lease_holder_liveness os (l_holder l) = Dead
      else if (case parse_u64 (l_expires_at l) of None \<Rightarrow> False | Some e \<Rightarrow> e \<le> now) then True
      else case agent_lease_holder_liveness os (l_holder l) of
             Dead \<Rightarrow> True | CurrentProcess \<Rightarrow> reclaim_current | Alive \<Rightarrow> False | Unknown \<Rightarrow> False)"

definition list_active_workers :: "registry \<Rightarrow> (worker_row \<times> project_row) list result" where
  "list_active_workers db = list_workers_by_terminal_state db False"

definition try_reclaim_inactive_agent_lease :: "os_view \<Rightarrow> int \<Rightarrow> lease_row \<Rightarrow> bool \<Rightarrow> nat \<Rightarrow> bool db" where
  "try_reclaim_inactive_agent_lease os pid l reclaim_current now db =
     (let ordinarily = agent_lease_is_reclaimable os l reclaim_current now;
          orphaned = (if \<not> ordinarily \<and> interactive_lease_holder_is_proven_dead os (l_holder l)
                      then map_sum id (\<lambda>cs. \<not> list_ex (\<lambda>c. sc_interactive_holder c = Some (l_holder l)) cs)
                             (session_controls_for_project db pid)
                      else Inr False)
      in case orphaned of
           Inl e \<Rightarrow> (Inl e, db)
         | Inr o' \<Rightarrow>
             if \<not> ordinarily \<and> \<not> o' then (Inr False, db)
             else (case list_active_workers db of
                     Inl e \<Rightarrow> (Inl e, db)
                   | Inr ws \<Rightarrow>
                       if list_ex (\<lambda>(w, p). w_project w = pid \<and> w_lease_holder w = l_holder l) ws
                       then (Inr False, db)
                       else release_lease pid (l_holder l) db))"

section \<open>Orphaned sessions\<close>

definition recoverable_control :: "control_row \<Rightarrow> bool" where
  "recoverable_control c \<longleftrightarrow> sc_state c \<in> {Running, StopRequested, InterruptRequested}
     \<and> sc_interactive_launch_token c = None \<and> sc_child_pid c \<noteq> None \<and> sc_run_token c \<noteq> None"

definition same_generation :: "control_row \<Rightarrow> control_row \<Rightarrow> bool" where
  "same_generation expected current \<longleftrightarrow> sc_project expected = sc_project current
     \<and> sc_session expected = sc_session current \<and> sc_child_pid expected = sc_child_pid current
     \<and> sc_run_token expected = sc_run_token current \<and> recoverable_control current"

text \<open>The last part: the dead owner's lease, if any, is reclaimed before the supervisor is spawned.\<close>

definition reclaim_and_spawn :: "os_view \<Rightarrow> int \<Rightarrow> lease_row option \<Rightarrow> control_row \<Rightarrow> nat \<Rightarrow> bool db" where
  "reclaim_and_spawn os pid lease c now db =
     (case (case lease of None \<Rightarrow> (Inr True, db)
            | Some l \<Rightarrow> try_reclaim_inactive_agent_lease os pid l False now db) of
        (Inl e, db1) \<Rightarrow> (Inl e, db1)
      | (Inr False, db1) \<Rightarrow> (Inr False, db1)
      | (Inr True, db1) \<Rightarrow> (map_sum id (\<lambda>_. True) (spawn_supervisor os c), db1))"

definition ensure_orphaned_session_supervision :: "os_view \<Rightarrow> int \<Rightarrow> str \<Rightarrow> nat \<Rightarrow> bool db" where
  "ensure_orphaned_session_supervision os pid sid now db =
     (case (session_control db pid sid, list_active_workers db) of
        (Inr control, Inr ws) \<Rightarrow>
          (case control of
             None \<Rightarrow> (Inr False, db)
           | Some c \<Rightarrow>
               let lease = map_option fst (lease_for_project db pid)
               in if \<not> recoverable_control c then (Inr False, db)
                  else if list_ex (\<lambda>(w, p). w_project w = pid) ws then (Inr False, db)
                  else if \<not> project_exists db pid then (Inr False, db)
                  else if (case lease of None \<Rightarrow> False
                           | Some l \<Rightarrow> agent_lease_holder_liveness os (l_holder l) \<noteq> Dead)
                  then (Inr False, db)
                  else (case orphan_attach os (nat (the (sc_child_pid c))) pid (the (sc_run_token c)) of
                          Inl e \<Rightarrow> (Inl e, db)
                        | Inr False \<Rightarrow> (Inr False, db)
                        | Inr True \<Rightarrow> reclaim_and_spawn os pid lease c now db))
      | (Inl e, _) \<Rightarrow> (Inl e, db)
      | (_, Inl e) \<Rightarrow> (Inl e, db))"

text \<open>One turn of the loop that watches an orphaned process: \<^verbatim>\<open>Inr True\<close> ends it.  The lease is renewed
  when \<open>renew\<close> says ten seconds have passed; \<open>running\<close> is what the process handle reports.\<close>

datatype supervise_action = No_signal | Stop_or_kill

definition supervise_attached_step ::
  "control_row \<Rightarrow> str \<Rightarrow> bool \<Rightarrow> bool result \<Rightarrow> str \<Rightarrow> str \<Rightarrow> registry \<Rightarrow> (bool \<times> supervise_action) result \<times> registry" where
  "supervise_attached_step expected holder renew running now expires db =
     (let pid = sc_project expected;
          held = (case lease_for_project db pid of None \<Rightarrow> False | Some (l, _) \<Rightarrow> l_holder l = holder)
      in if \<not> held then (Inr (True, No_signal), db)
         else case (if renew then renew_lease pid holder expires db else (Inr True, db)) of
                (Inl e, db1) \<Rightarrow> (Inl e, db1)
              | (Inr False, db1) \<Rightarrow> (Inr (True, No_signal), db1)
              | (Inr True, db1) \<Rightarrow>
                  (case session_control db1 pid (sc_session expected) of
                     Inl e \<Rightarrow> (Inl e, db1)
                   | Inr None \<Rightarrow> (Inr (True, No_signal), db1)
                   | Inr (Some current) \<Rightarrow>
                       if \<not> same_generation expected current then (Inr (True, No_signal), db1)
                       else (case running of
                               Inl e \<Rightarrow> (Inl e, db1)
                             | Inr False \<Rightarrow>
                                 (case finalize_reattached_automated_session expected holder now expires db1 of
                                    (Inl e, db2) \<Rightarrow> (Inl e, db2)
                                  | (Inr fin, db2) \<Rightarrow> (Inr (fin, No_signal), db2))
                             | Inr True \<Rightarrow>
                                 (Inr (False, if requested_action (sc_state current) \<noteq> None
                                              then Stop_or_kill else No_signal), db1))))"

section \<open>Reconciling the controls of a project\<close>

text \<open>What the board and its helpers answer: \<^verbatim>\<open>lock_board\<close> whether the board of a registered project
  can be locked (\<^verbatim>\<open>lock_project_board\<close>), \<^verbatim>\<open>completed_link\<close> whether the board has exactly one task
  linked to the session and it is in Done (\<^verbatim>\<open>collect_linked_tasks\<close>), \<^verbatim>\<open>restore_idle\<close> the restoring of
  reopened tasks (it writes the board only), \<^verbatim>\<open>restore_task\<close> the same for one session.\<close>

record board_view =
  lock_board :: "unit result"
  completed_link :: "str \<Rightarrow> bool result"
  restore_idle :: "unit result"
  restore_task :: "str \<Rightarrow> unit result"

definition lock_project_board :: "board_view \<Rightarrow> registry \<Rightarrow> int \<Rightarrow> unit result" where
  "lock_project_board bv db pid =
     (if project_exists db pid then lock_board bv else Inl ''Project is no longer registered'')"

definition retire_completed_request :: "board_view \<Rightarrow> int \<Rightarrow> str \<Rightarrow> nat \<Rightarrow> bool db" where
  "retire_completed_request bv pid sid now db =
     (case lock_project_board bv db pid of
        Inl e \<Rightarrow> (Inl e, db)
      | Inr _ \<Rightarrow>
          (case session_control db pid sid of
             Inl e \<Rightarrow> (Inl e, db)
           | Inr None \<Rightarrow> (Inr False, db)
           | Inr (Some c) \<Rightarrow>
               if sc_state c \<noteq> ResumeRequested \<or> \<not> unattended c
                  \<or> (case sc_run_token c of None \<Rightarrow> False | Some t \<Rightarrow> starts_with t git_finalization_token_prefix)
               then (Inr False, db)
               else (case completed_link bv sid of
                       Inl e \<Rightarrow> (Inl e, db)
                     | Inr False \<Rightarrow> (Inr False, db)
                     | Inr True \<Rightarrow> retire_completed_resume_request c (show_nat now) db)))"

definition recover_stale_interactive_guardian_with_task ::
  "board_view \<Rightarrow> int \<Rightarrow> str \<Rightarrow> str \<Rightarrow> int option \<Rightarrow> InteractiveGuardianDisposition \<Rightarrow> str \<Rightarrow> bool db" where
  "recover_stale_interactive_guardian_with_task bv pid sid guardian child d now db =
     (case lock_project_board bv db pid of
        Inl e \<Rightarrow> (Inl e, db)
      | Inr _ \<Rightarrow>
          (case recover_stale_interactive_guardian pid sid guardian child d now db of
             (Inl e, db1) \<Rightarrow> (Inl e, db1)
           | (Inr recovered, db1) \<Rightarrow>
               (if recovered \<and> d \<noteq> ResumeExec
                then map_sum id (\<lambda>_. recovered) (restore_task bv sid) else Inr recovered, db1)))"

definition handoff_recent :: "nat \<Rightarrow> control_row \<Rightarrow> bool" where
  "handoff_recent now c \<longleftrightarrow>
     (case parse_u64 (sc_updated_at c) of None \<Rightarrow> False | Some at \<Rightarrow> saturating_sub now at \<le> 20)"

definition matching_active_lease :: "os_view \<Rightarrow> lease_row option \<Rightarrow> bool \<Rightarrow> nat \<Rightarrow> str \<Rightarrow> bool" where
  "matching_active_lease os lease reclaim_current now holder \<longleftrightarrow>
     (case lease of None \<Rightarrow> False
      | Some l \<Rightarrow> l_holder l = holder \<and> \<not> agent_lease_is_reclaimable os l reclaim_current now
                 \<and> \<not> interactive_lease_holder_is_proven_dead os holder)"

definition requester_alive :: "os_view \<Rightarrow> str \<Rightarrow> bool" where
  "requester_alive os holder \<longleftrightarrow> agent_lease_holder_liveness os holder \<noteq> Dead
     \<and> \<not> interactive_lease_holder_is_proven_dead os holder"

text \<open>The process group of a recorded child: proven absent, or never released when no child is recorded
  (on Unix, where the exec gate replaces itself).\<close>

definition child_proven_absent :: "os_view \<Rightarrow> int option \<Rightarrow> bool" where
  "child_proven_absent os child = (case child of None \<Rightarrow> True | Some c \<Rightarrow> group_running os (nat c) = Some False)"

definition recorded_child_gone :: "os_view \<Rightarrow> control_row \<Rightarrow> bool" where
  "recorded_child_gone os c =
     (case sc_child_pid c of None \<Rightarrow> False | Some p \<Rightarrow> group_running os (nat p) = Some False)"

definition guardian_of_control :: "control_row \<Rightarrow> (str \<times> InteractiveGuardianDisposition) option" where
  "guardian_of_control c =
     (if sc_state c \<in> {Interactive, StopRequested} then
        Option.bind (sc_interactive_holder c) (\<lambda>h.
        Option.bind (from_guardian_holder h) (\<lambda>d.
          if sc_interactive_launch_token c = Some h then Some (h, d) else None))
      else None)"

definition recovery_state ::
  "os_view \<Rightarrow> lease_row option \<Rightarrow> bool \<Rightarrow> nat \<Rightarrow> control_row \<Rightarrow> AgentSessionControlState option" where
  "recovery_state os lease reclaim_current now c =
     (let lease_is_active = (case lease of None \<Rightarrow> False
            | Some l \<Rightarrow> \<not> agent_lease_is_reclaimable os l reclaim_current now);
          gone = recorded_child_gone os c
      in case sc_state c of
           Running \<Rightarrow> if \<not> lease_is_active \<and> gone then Some ResumeRequested else None
         | StopRequested \<Rightarrow> if \<not> lease_is_active \<and> gone then Some Stopped else None
         | InterruptRequested \<Rightarrow> if \<not> lease_is_active \<and> gone then Some ReadyInteractive else None
         | s \<Rightarrow>
             if s \<in> {ReadyInteractive, Interactive} then
               (let holder = sc_interactive_holder c;
                    matching = (case holder of None \<Rightarrow> False
                                | Some h \<Rightarrow> matching_active_lease os lease reclaim_current now h);
                    alive = (case holder of None \<Rightarrow> False | Some h \<Rightarrow> requester_alive os h);
                    abandoned = (\<not> matching \<and> (\<not> alive \<or> \<not> handoff_recent now c))
                in if \<not> abandoned then None
                   else if s = Interactive
                           \<and> (case holder of None \<Rightarrow> False
                              | Some h \<Rightarrow> starts_with h (lit ''clt-interactive-worker-'')
                                         \<or> starts_with h (lit ''clt-idle-interactive-worker-'')
                                         \<or> starts_with h (lit ''clt-stopped-interactive-worker-''))
                   then None
                   else if (case sc_child_pid c of None \<Rightarrow> True | Some p \<Rightarrow> process_running os (nat p) = Some False)
                   then Some ResumeRequested else None)
             else None)"

text \<open>The result of a store call is dropped, its error kept.\<close>

definition forget :: "'a result \<times> registry \<Rightarrow> unit result \<times> registry" where
  "forget r = (map_sum id (\<lambda>_. ()) (fst r), snd r)"

text \<open>\<open>expires\<close> is the expiry that the configured lease timeout gives, or the error of reading it.\<close>

definition apply_recovery ::
  "int \<Rightarrow> lease_row option \<Rightarrow> str \<Rightarrow> str result \<Rightarrow> control_row \<Rightarrow> AgentSessionControlState \<Rightarrow> unit db" where
  "apply_recovery pid lease at expires c st db =
     (if sc_state c = InterruptRequested then
        (case sc_run_token c of
           None \<Rightarrow> (Inr (), db)
         | Some token \<Rightarrow>
             (case expires of
                Inl e \<Rightarrow> (Inl e, db)
              | Inr ex \<Rightarrow> forget (finalize_reaped_automated_session pid (the (sc_child_pid c)) token
                           (case lease of None \<Rightarrow> [] | Some l \<Rightarrow> l_holder l) at ex db)))
      else if sc_state c \<in> {Running, StopRequested} then
        forget (recover_stale_automated_session_control pid (sc_session c) (sc_state c) st
                  (the (sc_child_pid c)) (sc_run_token c) at db)
      else if sc_state c \<in> {ReadyInteractive, Interactive} then
        forget (recover_stale_interactive_session_control pid (sc_session c) (sc_state c) st
                  (sc_interactive_holder c) at db)
      else forget (transition_session_control_state pid (sc_session c) (sc_state c) st at db))"

definition idle_reservation :: "str \<Rightarrow> bool" where
  "idle_reservation h \<longleftrightarrow> starts_with h (lit ''clt-idle-interactive-'') \<or> starts_with h (lit ''clt-stopped-interactive-'')"

text \<open>The steps for one control after the completed-request and idle-reservation checks.\<close>

definition reconcile_owned ::
  "os_view \<Rightarrow> board_view \<Rightarrow> int \<Rightarrow> lease_row option \<Rightarrow> bool \<Rightarrow> nat \<Rightarrow> str \<Rightarrow> str result \<Rightarrow> control_row \<Rightarrow> unit db" where
  "reconcile_owned os bv pid lease reclaim_current now at expires c db =
     (case guardian_of_control c of
        Some (h, d) \<Rightarrow>
          let abandoned = (guardian_process_is_proven_dead os h
                \<or> (\<not> matching_active_lease os lease reclaim_current now h
                   \<and> (\<not> requester_alive os h \<or> \<not> handoff_recent now c)))
          in if abandoned \<and> child_proven_absent os (sc_child_pid c)
             then forget (recover_stale_interactive_guardian_with_task bv pid (sc_session c) h (sc_child_pid c) d at db)
             else (Inr (), db)
      | None \<Rightarrow>
          let lease_is_active = (case lease of None \<Rightarrow> False
                | Some l \<Rightarrow> \<not> agent_lease_is_reclaimable os l reclaim_current now);
              db1 = (if \<not> lease_is_active \<and> \<not> recorded_child_gone os c
                        \<and> sc_state c \<in> {Running, StopRequested, InterruptRequested}
                     then snd (ensure_orphaned_session_supervision os pid (sc_session c) now db) else db)
          in (case recovery_state os lease reclaim_current now c of
                None \<Rightarrow> (Inr (), db1)
              | Some st \<Rightarrow> apply_recovery pid lease at expires c st db1))"

definition reconcile_control ::
  "os_view \<Rightarrow> board_view \<Rightarrow> int \<Rightarrow> lease_row option \<Rightarrow> bool \<Rightarrow> nat \<Rightarrow> str \<Rightarrow> str result \<Rightarrow> control_row \<Rightarrow> unit db" where
  "reconcile_control os bv pid lease reclaim_current now at expires c db =
     (case (if sc_state c = ResumeRequested then retire_completed_request bv pid (sc_session c) now db
            else (Inr False, db)) of
        (Inl e, db1) \<Rightarrow> (Inl e, db1)
      | (Inr True, db1) \<Rightarrow> (Inr (), db1)
      | (Inr False, db1) \<Rightarrow>
          (case (if sc_state c = ReadyInteractive then sc_interactive_holder c else None) of
             Some h \<Rightarrow>
               if idle_reservation h \<and> \<not> matching_active_lease os lease reclaim_current now h
                  \<and> (interactive_lease_holder_is_proven_dead os h \<or> \<not> handoff_recent now c)
               then forget (cancel_idle_session_interactive pid (sc_session c) h at db1)
               else reconcile_owned os bv pid lease reclaim_current now at expires c db1
           | None \<Rightarrow> reconcile_owned os bv pid lease reclaim_current now at expires c db1))"

fun reconcile_each :: "(control_row \<Rightarrow> unit db) \<Rightarrow> control_row list \<Rightarrow> unit db" where
  "reconcile_each f [] db = (Inr (), db)"
| "reconcile_each f (c # cs) db =
     (case f c db of (Inl e, db1) \<Rightarrow> (Inl e, db1) | (Inr _, db1) \<Rightarrow> reconcile_each f cs db1)"

definition reconcile_stale_agent_session_controls ::
  "os_view \<Rightarrow> board_view \<Rightarrow> int \<Rightarrow> lease_row option \<Rightarrow> bool \<Rightarrow> nat \<Rightarrow> str \<Rightarrow> str result \<Rightarrow> unit db" where
  "reconcile_stale_agent_session_controls os bv pid lease reclaim_current now at expires db =
     (case session_controls_for_project db pid of
        Inl e \<Rightarrow> (Inl e, db)
      | Inr cs \<Rightarrow>
          (case restore_idle bv of
             Inl e \<Rightarrow> (Inl e, db)
           | Inr _ \<Rightarrow> reconcile_each (reconcile_control os bv pid lease reclaim_current now at expires) cs db))"

end
