(* ===== verification/Reconcile_Theorems.thy ===== *)
theory Reconcile_Theorems
  imports Reconcile Control_Theorems
begin

text \<open>
  The properties of the scheduler: the scan counts exactly the tasks that may start, the delays
  and intervals stay in their bounds, the reconciliation of a project is a sequence of the
  store's transactions and never touches the control of a process that is not proven gone, and
  the supervision of an orphaned process ends when the process has.
\<close>

section \<open>The scan\<close>

lemma count_if_split: "count_if P xs = count_if (\<lambda>x. P x \<and> Q x) xs + count_if (\<lambda>x. P x \<and> \<not> Q x) xs"
  by (induction xs) (auto simp: count_if_def)

lemma count_if_cong: "(\<And>x. x \<in> set xs \<Longrightarrow> P x = Q x) \<Longrightarrow> count_if P xs = count_if Q xs"
  by (simp add: count_if_def cong: filter_cong)

lemma count_if_filter: "count_if P (filter Q xs) = count_if (\<lambda>x. Q x \<and> P x) xs"
  by (induction xs) (auto simp: count_if_def)

lemma count_if_length: "length xs = count_if P xs + count_if (\<lambda>x. \<not> P x) xs"
  by (induction xs) (auto simp: count_if_def)

text \<open>Every entry is manual, stopped, blocked, waiting for others, or free to start.\<close>

lemma todo_partition:
  fixes todo :: "TaskEntry list" and ready :: "TaskEntry \<Rightarrow> bool"
  assumes "\<And>e. e \<in> set todo \<Longrightarrow> ready e \<Longrightarrow> task_entry_is_ready e"
  defines "nm \<equiv> \<lambda>e. \<not> entry_manual e"
  shows "count_if nm todo = count_if (\<lambda>e. nm e \<and> entry_stopped e) todo
    + count_if (\<lambda>e. nm e \<and> entry_blocked e \<and> \<not> entry_stopped e) todo
    + count_if (\<lambda>e. task_entry_is_ready e \<and> \<not> ready e) todo + count_if ready todo"
  using assms(1)
proof (induction todo)
  case (Cons e todo)
  then have IH: "count_if nm todo = count_if (\<lambda>e. nm e \<and> entry_stopped e) todo
    + count_if (\<lambda>e. nm e \<and> entry_blocked e \<and> \<not> entry_stopped e) todo
    + count_if (\<lambda>e. task_entry_is_ready e \<and> \<not> ready e) todo + count_if ready todo"
    by simp
  have r: "task_entry_is_ready e \<longleftrightarrow> nm e \<and> \<not> entry_stopped e \<and> \<not> entry_blocked e"
    by (auto simp: task_entry_is_ready_def nm_def entry_manual_def entry_stopped_def entry_blocked_def)
  have "ready e \<Longrightarrow> task_entry_is_ready e" using Cons.prems by simp
  with IH r show ?case by (auto simp: count_if_def)
qed (simp add: count_if_def)

lemma scan_from_counts_simps [simp]:
  "todo_count (scan_from_counts a b c d e) = a" "manual_todo_count (scan_from_counts a b c d e) = 0"
  "coordination_wait_count (scan_from_counts a b c d e) = 0" "blocked_todo_count (scan_from_counts a b c d e) = b"
  "stopped_todo_count (scan_from_counts a b c d e) = c" "doing_count (scan_from_counts a b c d e) = d"
  "blocked_doing_count (scan_from_counts a b c d e) = e"
  "scan_status (scan_from_counts a b c d e) = Pending \<longleftrightarrow> b + c < a"
  by (auto simp: scan_from_counts_def Let_def saturating_sub_def)

text \<open>The scan of a board agrees with the tasks that may be started: the available count it
  derives from its totals is the number of Todo entries the coordination admits, and the project
  counts as pending exactly when there is one, so a project is scheduled for new work if and only
  if some task can be claimed.\<close>

theorem scan_counts_ready_tasks:
  fixes json uuid5 s
  defines "ready \<equiv> snapshot_ready json uuid5 s"
  shows "available_todo_count (scan_entries ready todo doing) = length (filter ready todo)
    \<and> (has_pending_task (scan_entries ready todo doing) \<longleftrightarrow> filter ready todo \<noteq> [])"
proof -
  have assms: "ready e \<Longrightarrow> task_entry_is_ready e" for e by (simp add: ready_def snapshot_ready_def)
  let ?nm = "\<lambda>e. \<not> entry_manual e"
  let ?b = "\<lambda>e. entry_blocked e \<and> \<not> entry_stopped e"
  define n b st w where "n = count_if ?nm todo" and "b = count_if (\<lambda>e. ?nm e \<and> ?b e) todo"
    and "st = count_if (\<lambda>e. ?nm e \<and> entry_stopped e) todo"
    and "w = count_if (\<lambda>e. task_entry_is_ready e \<and> \<not> ready e) todo"
  have part: "n = st + b + w + length (filter ready todo)"
    using todo_partition [of todo ready, OF assms] by (simp add: n_def b_def st_def w_def count_if_def)
  have len: "length (filter ?nm todo) = n" "count_if ?b (filter ?nm todo) = b"
    "count_if entry_stopped (filter ?nm todo) = st"
    by (simp_all add: n_def b_def st_def count_if_filter count_if_def)
  have le: "n \<le> length todo" by (simp add: n_def count_if_def)
  have avail: "available_todo_count (scan_entries ready todo doing) = length (filter ready todo)"
    using part le by (simp add: scan_entries_def available_todo_count_def saturating_sub_def Let_def len w_def [symmetric])
  have "has_pending_task (scan_entries ready todo doing) \<longleftrightarrow> length (filter ready todo) \<noteq> 0"
    using part by (auto simp: scan_entries_def has_pending_task_def available_todo_count_def saturating_sub_def Let_def
        len w_def [symmetric])
  with avail show ?thesis by simp
qed

section \<open>Delays and intervals\<close>

lemma parse_u64_max: "parse_u64 s = Some n \<Longrightarrow> n \<le> u64_max"
  by (auto simp: parse_u64_def parse_unsigned_def Let_def split: if_splits)

text \<open>A remaining delay is positive, ends within the range of \<^verbatim>\<open>u64\<close> whatever the delay, is at
  most the configured delay when the recorded time is not in the future, and is gone once the
  delay has passed or the recorded time cannot be read.\<close>

theorem remaining_delay_bounds:
  "case remaining_agent_delay last_at now delay of
     Some r \<Rightarrow> \<exists>t. Option.bind last_at parse_u64 = Some t \<and> 0 < r \<and> now + r \<le> u64_max \<and> now + r \<le> t + delay
       \<and> (t \<le> now \<longrightarrow> r \<le> delay)
   | None \<Rightarrow> (\<forall>t. Option.bind last_at parse_u64 = Some t \<longrightarrow> t + delay \<le> now \<or> u64_max \<le> now)"
proof (cases "Option.bind last_at parse_u64")
  case (Some t)
  define m where "m = u64_max"
  define e where "e = min (t + delay) m"
  have val: "remaining_agent_delay last_at now delay = (if e > now then Some (e - now) else None)"
    by (simp only: remaining_agent_delay_def Some saturating_add_u64_def Let_def Option.bind.simps e_def m_def)
  have le: "e \<le> m" "e \<le> t + delay" "e = m \<or> e = t + delay"
    by (simp_all add: e_def min_def)
  show ?thesis
  proof (cases "e > now")
    case True
    with le have "0 < e - now \<and> now + (e - now) \<le> m \<and> now + (e - now) \<le> t + delay
        \<and> (t \<le> now \<longrightarrow> e - now \<le> delay)" by linarith
    with True show ?thesis
      unfolding val Some m_def [symmetric] by (simp only: if_True option.case option.inject) blast
  next
    case False
    with le have "t + delay \<le> now \<or> m \<le> now" by linarith
    with False show ?thesis
      unfolding val Some m_def [symmetric] by (simp only: if_False option.case option.inject) blast
  qed
qed (simp add: remaining_agent_delay_def)

theorem remaining_delay_bounds_witness:
  "\<exists>r. remaining_agent_delay (Some (lit ''100'')) 130 60 = Some r \<and> 0 < r \<and> r \<le> 60"
proof -
  have t: "parse_u64 (lit ''100'') = Some 100"
    by (simp add: parse_u64_def parse_unsigned_def u64_max_def lit_def is_ascii_digit_def digit_val_def)
  then have "remaining_agent_delay (Some (lit ''100'')) 130 60 = Some 30"
    by (simp add: remaining_agent_delay_def saturating_add_u64_def u64_max_def)
  with t remaining_delay_bounds [of "Some (lit ''100'')" 130 60] show ?thesis by simp
qed

text \<open>A lease is renewed well before it expires: for every lease timeout that the settings accept,
  three renewal intervals fit into the timeout, and the interval lies between a quarter of a
  second and fifteen seconds.\<close>

theorem renewal_fits_timeout:
  assumes "parse_agent_timeout_duration raw = Inr seconds"
  shows "3 * agent_lease_renew_interval (1000 * seconds) \<le> 1000 * seconds
    \<and> 250 \<le> agent_lease_renew_interval (1000 * seconds) \<and> agent_lease_renew_interval (1000 * seconds) \<le> 15000"
proof -
  have "1 \<le> seconds"
    using assms by (auto simp: parse_agent_timeout_duration_def split: option.splits if_splits)
  then show ?thesis by (auto simp: agent_lease_renew_interval_def)
qed

theorem renewal_fits_timeout_witness: "3 * agent_lease_renew_interval (1000 * 60) \<le> 60000"
proof -
  have "parse_agent_timeout_duration (lit ''60'') = Inr 60"
    by (simp add: parse_agent_timeout_duration_def parse_u64_def parse_unsigned_def u64_max_def lit_def
        is_ascii_digit_def digit_val_def)
  from renewal_fits_timeout [OF this] show ?thesis by simp
qed

section \<open>Reconciliation as steps of the store\<close>

text \<open>A call either leaves the registry or is one transaction.\<close>

definition call_ok :: "registry \<Rightarrow> registry \<Rightarrow> bool" where
  "call_ok db db' \<longleftrightarrow> db' = db \<or> agent_step db db'"

lemma call_ok_refl [simp]: "call_ok db db"
  by (simp add: call_ok_def)

lemma call_ok_session: "session_step db db' \<Longrightarrow> call_ok db db'"
  by (simp add: call_ok_def agent_step_def)

lemma call_ok_registry: "registry_step db db' \<Longrightarrow> call_ok db db'"
  by (simp add: call_ok_def agent_step_def store_step_def)

lemma call_ok_steps: "steps agent_step a db \<Longrightarrow> call_ok db db' \<Longrightarrow> steps agent_step a db'"
  by (auto simp: call_ok_def intro: steps_snoc)

lemma snd_forget [simp]: "snd (forget r) = snd r"
  by (simp add: forget_def)

lemma reclaim_call: "call_ok db (snd (try_reclaim_inactive_agent_lease os pid l rc now db))"
  unfolding try_reclaim_inactive_agent_lease_def Let_def
  by (simp add: call_ok_registry step_release split: sum.split)

lemma reclaim_and_spawn_call: "call_ok db (snd (reclaim_and_spawn os pid lease c now db))"
proof (cases lease)
  case (Some l)
  then show ?thesis using reclaim_call [of db os pid l False now]
    by (cases "try_reclaim_inactive_agent_lease os pid l False now db")
      (auto simp: reclaim_and_spawn_def split: sum.split bool.split)
qed (simp add: reclaim_and_spawn_def)

lemma supervision_call: "call_ok db (snd (ensure_orphaned_session_supervision os pid sid now db))"
  unfolding ensure_orphaned_session_supervision_def Let_def
  by (simp add: reclaim_and_spawn_call split: sum.split option.split bool.split)

lemma retire_call: "call_ok db (snd (retire_completed_request bv pid sid now db))"
  unfolding retire_completed_request_def
  by (simp add: call_ok_session ses_retire split: sum.split option.split bool.split)

lemma guardian_call:
  "call_ok db (snd (recover_stale_interactive_guardian_with_task bv pid sid h child d now db))"
proof (cases "recover_stale_interactive_guardian pid sid h child d now db")
  case (Pair r db1)
  then have "call_ok db db1" using call_ok_session [OF ses_recover_guardian [of db pid sid h child d now]] by simp
  with Pair show ?thesis unfolding recover_stale_interactive_guardian_with_task_def by (auto split: sum.split)
qed

lemma apply_recovery_call:
  assumes "recovery_state os lease rc now c = Some st"
  shows "call_ok db (snd (apply_recovery pid lease at expires c st db))"
  using assms
  by (cases "sc_state c"; cases expires)
    (auto simp: recovery_state_def apply_recovery_def Let_def split: if_splits option.split
      intro!: call_ok_session ses_finalize_reaped ses_recover_automated ses_recover_interactive)

lemma reconcile_owned_steps:
  "steps agent_step a db \<Longrightarrow>
   steps agent_step a (snd (reconcile_owned os bv pid lease rc now at expires c db))"
proof (cases "guardian_of_control c")
  case None
  assume s: "steps agent_step a db"
  define db1 where "db1 = (if \<not> (case lease of None \<Rightarrow> False | Some l \<Rightarrow> \<not> agent_lease_is_reclaimable os l rc now)
      \<and> \<not> recorded_child_gone os c \<and> sc_state c \<in> {Running, StopRequested, InterruptRequested}
    then snd (ensure_orphaned_session_supervision os pid (sc_session c) now db) else db)"
  have s1: "steps agent_step a db1"
    using s call_ok_steps [OF s supervision_call] by (simp add: db1_def)
  have "reconcile_owned os bv pid lease rc now at expires c db =
      (case recovery_state os lease rc now c of None \<Rightarrow> (Inr (), db1)
       | Some st \<Rightarrow> apply_recovery pid lease at expires c st db1)"
    by (simp only: reconcile_owned_def None db1_def Let_def option.case)
  then show ?thesis
    using s1 call_ok_steps [OF s1 apply_recovery_call] by (simp split: option.split)
next
  case (Some g)
  assume "steps agent_step a db"
  then show ?thesis
    using Some call_ok_steps [OF _ guardian_call]
    by (cases g) (simp add: reconcile_owned_def Let_def)
qed

lemma reconcile_control_steps:
  assumes "steps agent_step a db"
  shows "steps agent_step a (snd (reconcile_control os bv pid lease rc now at expires c db))"
proof -
  define r where "r = (if sc_state c = ResumeRequested then retire_completed_request bv pid (sc_session c) now db
            else (Inr False, db))"
  have s1: "steps agent_step a (snd r)"
    using assms call_ok_steps [OF assms retire_call] by (simp add: r_def)
  have cancel: "steps agent_step a (snd (cancel_idle_session_interactive pid (sc_session c) h at (snd r)))" for h
    by (rule call_ok_steps [OF s1 call_ok_session [OF ses_cancel_idle]])
  show ?thesis
    unfolding reconcile_control_def r_def [symmetric]
    using s1 cancel reconcile_owned_steps [OF s1]
    by (cases r) (auto split: sum.split bool.split option.split)
qed

lemma reconcile_each_steps:
  "steps agent_step a db \<Longrightarrow>
   steps agent_step a (snd (reconcile_each (reconcile_control os bv pid lease rc now at expires) cs db))"
proof (induction cs arbitrary: db)
  case (Cons c cs)
  then show ?case
    using reconcile_control_steps [of a db os bv pid lease rc now at expires c]
    by (cases "reconcile_control os bv pid lease rc now at expires c db") (auto split: sum.split)
qed simp

lemma reconcile_steps:
  "steps agent_step db (snd (reconcile_stale_agent_session_controls os bv pid lease rc now at expires db))"
  unfolding reconcile_stale_agent_session_controls_def
  using reconcile_each_steps [OF steps_refl] steps_refl [of agent_step db] by (simp split: sum.split)

lemma steps_reach: "steps step s s' \<Longrightarrow> reach init step s \<Longrightarrow> reach init step s'"
  by (induction rule: steps.induct) (auto intro: reach_step)

section \<open>Processes that are not proven gone\<close>

text \<open>The recorded process of a control, where the system proves neither the group nor the
  process absent.\<close>

definition maybe_alive :: "os_view \<Rightarrow> control_row \<Rightarrow> bool" where
  "maybe_alive os sc \<longleftrightarrow> (case sc_child_pid sc of None \<Rightarrow> False
     | Some c \<Rightarrow> group_running os (nat c) \<noteq> Some False \<and> process_running os (nat c) \<noteq> Some False)"

lemma maybe_alive_child: "maybe_alive os sc \<Longrightarrow> \<exists>c. sc_child_pid sc = Some c"
  by (auto simp: maybe_alive_def split: option.splits)

lemma update_keeps: "sc \<in> set t \<Longrightarrow> \<not> P sc \<Longrightarrow> sc \<in> set (sql_update P f t)"
  using sql_update_mem [of sc t P f] by simp

lemma reclaim_controls [simp]:
  "controls (snd (try_reclaim_inactive_agent_lease os pid l rc now db)) = controls db"
  unfolding try_reclaim_inactive_agent_lease_def Let_def
  by (simp add: registry_controls split: sum.split)

lemma supervision_controls [simp]:
  "controls (snd (ensure_orphaned_session_supervision os pid sid now db)) = controls db"
proof -
  have "controls (snd (reclaim_and_spawn os pid lease c now db)) = controls db" for lease c
  proof (cases lease)
    case (Some l)
    then show ?thesis using reclaim_controls [of os pid l False now db]
      by (cases "try_reclaim_inactive_agent_lease os pid l False now db")
        (auto simp: reclaim_and_spawn_def split: sum.split bool.split)
  qed (simp add: reclaim_and_spawn_def)
  then show ?thesis
    unfolding ensure_orphaned_session_supervision_def Let_def
    by (simp split: sum.split option.split bool.split)
qed

lemma handed_lease_controls: "hand_lease pid f h now e db = (r, db') \<Longrightarrow> controls db' = controls db"
  by (auto simp: hand_lease_def transfer_lease_def insert_lease_def split: if_splits prod.splits sum.splits bool.splits)

lemma finalize_keeps:
  assumes "sc \<in> set (controls db)" "sc_child_pid sc \<noteq> Some child"
  shows "sc \<in> set (controls (snd (finalize_automated_session_after_exit pid child tok h re now e db)))"
proof -
  have other: "sc \<in> set (sql_update (\<lambda>c. control_at pid s c \<and> sc_state c = st \<and> sc_child_pid c = Some child
      \<and> sc_run_token c = Some tok) f (controls db))" for s st f
    using assms by (auto intro: update_keeps)
  have hand: "sc \<in> set (controls (snd (case hand_lease pid h x now e db of
        (Inl er, _) \<Rightarrow> (Inl er, db) | (Inr False, _) \<Rightarrow> (Inr False, db)
      | (Inr True, db1) \<Rightarrow> if c then (Inr False, db)
          else (Inr True, db1\<lparr>controls := sql_update (\<lambda>c. control_at pid s c \<and> sc_state c = st \<and> sc_child_pid c = Some child
      \<and> sc_run_token c = Some tok) f (controls db1)\<rparr>))))" for x c s st f
  proof (cases "hand_lease pid h x now e db")
    case (Pair r d)
    with handed_lease_controls [OF Pair] assms(1) other show ?thesis
      by (auto split: sum.split bool.split)
  qed
  show ?thesis unfolding finalize_automated_session_after_exit_def Let_def
    using assms(1) other by (simp add: hand drop_lease_def split: option.split)
qed

lemma retire_keeps:
  assumes "sc \<in> set (controls db)" "maybe_alive os sc"
  shows "sc \<in> set (controls (snd (retire_completed_request bv pid sid now db)))"
proof -
  have "sc \<in> set (controls (snd (retire_completed_resume_request c (show_nat now) db)))" for c
    using assms(1) maybe_alive_child [OF assms(2)]
    by (auto simp: retire_completed_resume_request_def Let_def unattended_def intro!: update_keeps)
  with assms(1) show ?thesis
    unfolding retire_completed_request_def lock_project_board_def by (simp split: sum.split option.split bool.split)
qed

lemma cancel_idle_keeps:
  assumes "sc \<in> set (controls db)" "maybe_alive os sc" "control_ok sc"
  shows "sc \<in> set (controls (snd (cancel_idle_session_interactive pid sid h now db)))"
proof -
  have "sc_state sc \<noteq> ReadyInteractive"
    using assms(3) maybe_alive_child [OF assms(2)] by (auto simp: control_ok_def)
  with assms(1) show ?thesis
    by (auto simp: cancel_idle_session_interactive_def Let_def control_update_def control_delete_def intro!: update_keeps)
qed

lemma guardian_keeps:
  assumes "sc \<in> set (controls db)" "sc_child_pid sc \<noteq> child"
  shows "sc \<in> set (controls (snd (recover_stale_interactive_guardian_with_task bv pid sid h child d now db)))"
proof -
  have "sc \<in> set (controls (snd (recover_stale_interactive_guardian pid sid h child d now db)))"
    using assms by (auto simp: recover_stale_interactive_guardian_def Let_def drop_lease_def intro!: update_keeps)
  with assms(1) show ?thesis
    unfolding recover_stale_interactive_guardian_with_task_def
    by (cases "recover_stale_interactive_guardian pid sid h child d now db") (auto split: sum.split)
qed

lemma recorded_gone_child:
  assumes "recorded_child_gone os c" "maybe_alive os sc"
  shows "\<exists>p. sc_child_pid c = Some p \<and> sc_child_pid sc \<noteq> Some p"
  using assms by (auto simp: recorded_child_gone_def maybe_alive_def split: option.splits)

lemma recovery_gone:
  assumes "recovery_state os lease rc now c = Some st"
  shows "sc_state c \<in> {Running, StopRequested, InterruptRequested} \<and> recorded_child_gone os c
    \<or> sc_state c \<in> {ReadyInteractive, Interactive} \<and> \<not> maybe_alive os c"
  using assms unfolding recovery_state_def Let_def maybe_alive_def
  by (cases "sc_state c") (auto split: if_splits option.splits)

lemma apply_recovery_keeps:
  assumes sc: "sc \<in> set (controls db)" "maybe_alive os sc" and same: "control_at pid (sc_session c) sc \<Longrightarrow> c = sc"
    and st: "recovery_state os lease rc now c = Some st"
  shows "sc \<in> set (controls (snd (apply_recovery pid lease at expires c st db)))"
  using recovery_gone [OF st]
proof (elim disjE conjE)
  assume run: "sc_state c \<in> {Running, StopRequested, InterruptRequested}" and gone: "recorded_child_gone os c"
  obtain p where p: "sc_child_pid c = Some p" "sc_child_pid sc \<noteq> Some p"
    using recorded_gone_child [OF gone sc(2)] by blast
  have "sc \<in> set (controls (snd (recover_stale_automated_session_control pid sid s st p t at db)))" for sid s t
    using sc(1) p by (auto simp: recover_stale_automated_session_control_def control_update_def intro!: update_keeps)
  then show ?thesis
    using run p sc(1) finalize_keeps [OF sc(1) p(2)]
    by (cases expires) (auto simp: apply_recovery_def finalize_reaped_automated_session_def split: option.split)
next
  assume i: "sc_state c \<in> {ReadyInteractive, Interactive}" and dead: "\<not> maybe_alive os c"
  have "\<not> control_at pid (sc_session c) sc" using same dead sc(2) by blast
  then have "sc \<in> set (controls (snd (recover_stale_interactive_session_control pid (sc_session c) s st h at db)))" for s h
    using sc(1) by (auto simp: recover_stale_interactive_session_control_def control_update_def intro!: update_keeps)
  then show ?thesis using i by (auto simp: apply_recovery_def)
qed

lemma reconcile_owned_keeps:
  assumes sc: "sc \<in> set (controls db)" "maybe_alive os sc" and same: "control_at pid (sc_session c) sc \<Longrightarrow> c = sc"
  shows "sc \<in> set (controls (snd (reconcile_owned os bv pid lease rc now at expires c db)))"
proof (cases "guardian_of_control c")
  case None
  define db1 where "db1 = (if \<not> (case lease of None \<Rightarrow> False | Some l \<Rightarrow> \<not> agent_lease_is_reclaimable os l rc now)
      \<and> \<not> recorded_child_gone os c \<and> sc_state c \<in> {Running, StopRequested, InterruptRequested}
    then snd (ensure_orphaned_session_supervision os pid (sc_session c) now db) else db)"
  have s1: "sc \<in> set (controls db1)" using sc(1) by (simp add: db1_def)
  have "reconcile_owned os bv pid lease rc now at expires c db =
      (case recovery_state os lease rc now c of None \<Rightarrow> (Inr (), db1)
       | Some st \<Rightarrow> apply_recovery pid lease at expires c st db1)"
    by (simp only: reconcile_owned_def None db1_def Let_def option.case)
  then show ?thesis
    using s1 apply_recovery_keeps [OF s1 sc(2) same] by (simp split: option.split)
next
  case (Some g)
  have "sc \<in> set (controls (snd (recover_stale_interactive_guardian_with_task bv pid sid h (sc_child_pid c) d at db)))"
    if "child_proven_absent os (sc_child_pid c)" for sid h d
  proof (rule guardian_keeps [OF sc(1)])
    show "sc_child_pid sc \<noteq> sc_child_pid c"
      using that sc(2) by (auto simp: child_proven_absent_def maybe_alive_def split: option.splits)
  qed
  then show ?thesis
    using Some sc(1) by (cases g) (simp add: reconcile_owned_def Let_def)
qed

lemma reconcile_control_keeps:
  assumes sc: "sc \<in> set (controls db)" "maybe_alive os sc" "control_ok sc"
    and same: "control_at pid (sc_session c) sc \<Longrightarrow> c = sc"
  shows "sc \<in> set (controls (snd (reconcile_control os bv pid lease rc now at expires c db)))"
proof -
  define r where "r = (if sc_state c = ResumeRequested then retire_completed_request bv pid (sc_session c) now db
            else (Inr False, db))"
  have s1: "sc \<in> set (controls (snd r))"
    using sc(1) retire_keeps [OF sc(1,2)] by (simp add: r_def)
  show ?thesis
    unfolding reconcile_control_def r_def [symmetric]
    using s1 cancel_idle_keeps [OF s1 sc(2,3)] reconcile_owned_keeps [OF s1 sc(2) same]
    by (cases r) (auto split: sum.split bool.split option.split)
qed

lemma reconcile_each_keeps:
  assumes "sc \<in> set (controls db)" "maybe_alive os sc" "control_ok sc"
    and "\<And>c. c \<in> set cs \<Longrightarrow> control_at pid (sc_session c) sc \<Longrightarrow> c = sc"
  shows "sc \<in> set (controls (snd (reconcile_each (reconcile_control os bv pid lease rc now at expires) cs db)))"
  using assms
proof (induction cs arbitrary: db)
  case (Cons c cs)
  then have "sc \<in> set (controls (snd (reconcile_control os bv pid lease rc now at expires c db)))"
    by (intro reconcile_control_keeps) auto
  with Cons show ?case
    by (cases "reconcile_control os bv pid lease rc now at expires c db") (auto split: sum.split)
qed simp

lemma collect_results_set: "collect_results rs = Inr xs \<Longrightarrow> x \<in> set xs \<Longrightarrow> Inr x \<in> set rs"
  by (induction rs arbitrary: xs rule: collect_results.induct) (auto split: sum.splits, (case_tac "collect_results rs"; auto)+)

lemma listed_control:
  assumes "session_controls_for_project db pid = Inr cs" "c \<in> set cs"
  shows "c \<in> set (controls db) \<and> sc_project c = pid"
  using collect_results_set [OF assms [unfolded session_controls_for_project_def]]
  by (auto simp: control_record_def split: option.splits if_splits)

definition demo_os :: "bool option \<Rightarrow> os_view" where
  "demo_os answer = \<lparr>own_pid = 5, process_running = (\<lambda>p. answer), group_running = (\<lambda>p. answer),
     orphan_attach = (\<lambda>c pid t. Inr False), spawn_supervisor = (\<lambda>c. Inr ())\<rparr>"

definition demo_board_view :: board_view where
  "demo_board_view = \<lparr>lock_board = Inr (), completed_link = (\<lambda>sid. Inr False), restore_idle = Inr (), restore_task = (\<lambda>sid. Inr ())\<rparr>"

lemma demo_session_row:
  "hd (controls demo_session) \<in> set (controls demo_session)" "sc_child_pid (hd (controls demo_session)) = Some 77"
  "sc_project (hd (controls demo_session)) = 1" "sc_state (hd (controls demo_session)) = Running"
  by code_simp+

text \<open>C16: the reconciliation of a project with the processes that are still there never touches the
  control of a process that may be alive: whatever it retires, requeues, hands over or forgets,
  and wherever it stops with an error, a control whose recorded process group and process are
  not both proven absent by the system keeps its row unchanged.\<close>

theorem reconcile_keeps_live_sessions:
  assumes "agent_inv db" "sc \<in> set (controls db)" "maybe_alive os sc"
  shows "sc \<in> set (controls (snd (reconcile_stale_agent_session_controls os bv pid lease rc now at expires db)))"
proof -
  have "sc \<in> set (controls (snd (reconcile_each (reconcile_control os bv pid lease rc now at expires) cs db)))"
    if "session_controls_for_project db pid = Inr cs" for cs
  proof (rule reconcile_each_keeps [OF assms(2,3) agent_invD(2) [OF assms(1,2)]])
    show "c = sc" if "c \<in> set cs" "control_at pid (sc_session c) sc" for c
      using listed_control [OF \<open>session_controls_for_project db pid = Inr cs\<close> that(1)] that(2) assms(2)
        unique_on_eq [OF agent_controls_unique [OF assms(1)], of c sc]
      by (simp add: control_at_def control_key_def)
  qed
  with assms(2) show ?thesis
    unfolding reconcile_stale_agent_session_controls_def by (simp split: sum.split)
qed

theorem reconcile_keeps_live_sessions_witness:
  "hd (controls demo_session) \<in> set (controls (snd (reconcile_stale_agent_session_controls (demo_os (Some True))
     demo_board_view 1 None False 2000 (lit ''2000'') (Inr (lit ''3000'')) demo_session)))"
  by (rule reconcile_keeps_live_sessions [OF agent.reach_inv [OF demo_control_reach(1)] demo_session_row(1)])
    (simp add: maybe_alive_def demo_os_def demo_session_row)



section \<open>Sessions that are over\<close>



lemma session_control_Inr:
  assumes "agent_inv db"
  shows "\<exists>r. session_control db pid sid = Inr r"
proof (cases "sql_select (control_at pid sid) (controls db)")
  case (Some sc)
  then have "control_ok sc" using sql_select_Some [OF Some] agent_invD(2) [OF assms] by blast
  then have "pid_in_range (sc_child_pid sc)" by (rule control_ok_pid)
  with Some show ?thesis
    by (cases "sc_child_pid sc") (simp_all add: session_control_def control_record_def)
qed (simp add: session_control_def)

lemma session_control_row:
  assumes "session_control db pid sid = Inr (Some sc)"
  shows "sc \<in> set (controls db) \<and> control_at pid sid sc"
proof -
  obtain x where x: "sql_select (control_at pid sid) (controls db) = Some x"
    using assms by (auto simp: session_control_def split: option.splits)
  then have "sc = x" using assms
    by (auto simp: session_control_def control_record_def split: option.splits if_splits)
  with sql_select_Some [OF x] show ?thesis by simp
qed

lemma finalize_reattached_succeeds:
  assumes inv: "agent_inv db" and lease: "l \<in> set (leases db)" "l_project l = sc_project expected" "l_holder l = holder"
    and row: "sc \<in> set (controls db)" "same_generation expected sc"
  shows "fst (finalize_reattached_automated_session expected holder now e db) = Inr True"
proof -
  let ?pid = "sc_project expected"
  have g: "sc_project sc = ?pid" "sc_session sc = sc_session expected" "sc_child_pid expected = sc_child_pid sc"
    "sc_run_token expected = sc_run_token sc" "recoverable_control sc"
    using row(2) by (simp_all add: same_generation_def)
  then obtain child tok where ct: "sc_child_pid sc = Some child" "sc_run_token sc = Some tok"
    by (auto simp: recoverable_control_def)
  have un: "unique_on control_key (controls db)" by (rule agent_controls_unique [OF inv])
  have lone: "sql_count (lease_of ?pid holder) (leases db) = 1"
  proof (rule unique_on_count_one [OF _ lease(1)])
    show "unique_on l_project (leases db)"
      using store_invD(1) [OF agent_invD(1) [OF inv]] by (simp add: registry_inv_def leases_ok_def)
  qed (simp_all add: lease_of_def lease)
  have sel: "sql_select (\<lambda>c. sc_project c = ?pid \<and> sc_child_pid c = Some child \<and> sc_run_token c = Some tok
      \<and> sc_session c = sc_session expected \<and> sc_interactive_launch_token c = None) (controls db) = Some sc"
    by (rule unique_on_select [OF un row(1)]) (use g ct in \<open>simp_all add: recoverable_control_def control_key_def\<close>)
  have one: "sql_count (\<lambda>c. control_at ?pid (sc_session sc) c \<and> sc_state c = sc_state sc
      \<and> sc_child_pid c = Some child \<and> sc_run_token c = Some tok) (controls db) = 1"
    by (rule unique_on_count_one [OF un row(1)]) (use g ct in \<open>simp_all add: control_at_def control_key_def\<close>)
  have ex: "sql_exists (lease_of ?pid holder) (leases db)"
    using lease by (auto simp: sql_exists_iff lease_of_def)
  have ho: "sc_state sc = InterruptRequested \<Longrightarrow> \<exists>h. sc_interactive_holder sc = Some h"
    using agent_invD(2) [OF inv row(1)] by (auto simp: control_ok_def)
  have "sc_state sc \<in> {Running, StopRequested, InterruptRequested}" using g(5) by (simp add: recoverable_control_def)
  then show ?thesis
    using g ct sel lone one ex ho
    by (auto simp: finalize_reattached_automated_session_def finalize_automated_session_after_exit_def
        hand_lease_def Let_def)
qed

text \<open>The supervision of a reattached process ends: in every state the store can reach, the first
  turn of its loop that finds the process group gone leaves the loop without an error, either
  because the lease or the control has moved on, or by settling the control.\<close>

theorem orphan_supervision_ends:
  assumes "agent_inv db"
  shows "fst (supervise_attached_step expected holder renew (Inr False) now expires db) = Inr (True, No_signal)"
proof -
  let ?pid = "sc_project expected"
  let ?held = "case lease_for_project db ?pid of None \<Rightarrow> False | Some (l, _) \<Rightarrow> l_holder l = holder"
  define r where "r = (if renew then renew_lease ?pid holder expires db else (Inr True, db))"
  have inv: "agent_inv (snd r)"
    using assms agent.step_inv [of db "snd (renew_lease ?pid holder expires db)"]
    by (auto simp: r_def agent_step_def store_step_def intro: step_renew)
  have val: "supervise_attached_step expected holder renew (Inr False) now expires db =
      (if \<not> ?held then (Inr (True, No_signal), db)
       else case r of (Inl e, db1) \<Rightarrow> (Inl e, db1) | (Inr False, db1) \<Rightarrow> (Inr (True, No_signal), db1)
       | (Inr True, db1) \<Rightarrow>
          (case session_control db1 ?pid (sc_session expected) of
             Inl e \<Rightarrow> (Inl e, db1) | Inr None \<Rightarrow> (Inr (True, No_signal), db1)
           | Inr (Some current) \<Rightarrow>
               if \<not> same_generation expected current then (Inr (True, No_signal), db1)
               else (case finalize_reattached_automated_session expected holder now expires db1 of
                       (Inl e, db2) \<Rightarrow> (Inl e, db2) | (Inr fin, db2) \<Rightarrow> (Inr (fin, No_signal), db2))))"
    by (simp only: supervise_attached_step_def Let_def r_def sum.case bool.case)
  show ?thesis
  proof (cases "?held \<and> fst r = Inr True")
    case False
    moreover have "\<exists>b. fst r = Inr b" by (auto simp: r_def renew_lease_def Let_def)
    ultimately show ?thesis unfolding val by (cases r) (auto split: bool.split sum.split)
  next
    case True
    then obtain db1 where r1: "r = (Inr True, db1)" by (cases r) auto
    with inv have inv1: "agent_inv db1" by simp
    let ?P = "\<lambda>l. l_project l = ?pid \<and> l_holder l = holder"
    obtain k where k: "k \<in> set (leases db)" "?P k"
      using True by (auto simp: lease_for_project_def split: option.splits dest!: sql_select_Some)
    have "\<exists>l \<in> set (leases db1). ?P l"
    proof (cases renew)
      case True
      then have "leases db1 = sql_update ?P (\<lambda>l. l\<lparr>l_expires_at := expires\<rparr>) (leases db)"
        using r1 by (auto simp: r_def renew_lease_def Let_def split: if_splits)
      then have "k\<lparr>l_expires_at := expires\<rparr> \<in> set (leases db1)"
        using k sql_update_mem [OF k(1), of ?P "\<lambda>l. l\<lparr>l_expires_at := expires\<rparr>"] by simp
      with k show ?thesis by (intro bexI) simp_all
    qed (use k r1 in \<open>auto simp: r_def\<close>)
    then obtain l where l: "l \<in> set (leases db1)" "l_project l = ?pid" "l_holder l = holder" by blast
    obtain ctl where ctl: "session_control db1 ?pid (sc_session expected) = Inr ctl"
      using session_control_Inr [OF inv1] by blast
    show ?thesis
    proof (cases ctl)
      case (Some c)
      then have "c \<in> set (controls db1)" using ctl session_control_row by blast
      then have "fst (finalize_reattached_automated_session expected holder now expires db1) = Inr True"
        if "same_generation expected c" using finalize_reattached_succeeds [OF inv1 l] that by blast
      with True r1 ctl Some show ?thesis unfolding val
        by (cases "finalize_reattached_automated_session expected holder now expires db1") auto
    qed (use True r1 ctl in \<open>simp add: val\<close>)
  qed
qed

text \<open>The run of the demonstration, reattached after its supervisor died.\<close>

definition demo_reattached :: registry where
  "demo_reattached = snd (claim_orphaned_session_supervision (hd (controls demo_session))
     (lit ''clt-reattached-9-1'') (lit ''1500'') (lit ''1800'') demo_session)"

lemma demo_reattached_reach: "reach store_init agent_step demo_reattached"
  unfolding demo_reattached_def by (rule session_reach [OF demo_control_reach(1) ses_claim_orphaned])

theorem orphan_supervision_ends_witness:
  "let r = supervise_attached_step (hd (controls demo_session)) (lit ''clt-reattached-9-1'') True (Inr False)
             (lit ''2000'') (lit ''3000'') demo_reattached
   in fst r = Inr (True, No_signal) \<and> map sc_state (controls (snd r)) = [ResumeRequested] \<and> leases (snd r) = []"
proof -
  have "map sc_state (controls (snd (supervise_attached_step (hd (controls demo_session)) (lit ''clt-reattached-9-1'')
      True (Inr False) (lit ''2000'') (lit ''3000'') demo_reattached))) = [ResumeRequested]"
    "leases (snd (supervise_attached_step (hd (controls demo_session)) (lit ''clt-reattached-9-1'')
      True (Inr False) (lit ''2000'') (lit ''3000'') demo_reattached)) = []" by code_simp+
  with orphan_supervision_ends [OF agent.reach_inv [OF demo_reattached_reach]] show ?thesis by (simp add: Let_def)
qed

end
