(* ===== verification/Project_Models.thy ===== *)
theory Project_Models
  imports Reconcile
begin

text \<open>
  The repository of registered projects, model providers and models
  (\<^verbatim>\<open>src/src/agent/repositories/projects_models.rs\<close>) and the choice of a provider's credential
  (\<^verbatim>\<open>src/src/agent.rs\<close>).  The tables of providers, models and the one row of settings are a record of
  their own; their time columns are written and never read, and are left out.  The clock of a
  statement is its argument.
\<close>

section \<open>Project settings\<close>

definition project_update :: "(project_row \<Rightarrow> bool) \<Rightarrow> (project_row \<Rightarrow> project_row) \<Rightarrow> bool db" where
  "project_update P f db =
     (Inr (0 < sql_count P (projects db)), db\<lparr>projects := sql_update P f (projects db)\<rparr>)"

definition by_id :: "int \<Rightarrow> project_row \<Rightarrow> bool" where
  "by_id pid p \<longleftrightarrow> p_id p = pid"

definition by_path :: "str \<Rightarrow> project_row \<Rightarrow> bool" where
  "by_path path p \<longleftrightarrow> p_path p = path"

definition set_project_enabled :: "int \<Rightarrow> bool \<Rightarrow> str \<Rightarrow> bool db" where
  "set_project_enabled pid enabled now =
     project_update (by_id pid) (\<lambda>p. p\<lparr>p_enabled := enabled, p_updated_at := now\<rparr>)"

definition set_project_enabled_for_path :: "str \<Rightarrow> bool \<Rightarrow> str \<Rightarrow> bool db" where
  "set_project_enabled_for_path path enabled now =
     project_update (by_path path) (\<lambda>p. p\<lparr>p_enabled := enabled, p_updated_at := now\<rparr>)"

text \<open>\<^verbatim>\<open>(SELECT id FROM projects WHERE path = ?1)\<close>\<close>

definition id_of_path :: "registry \<Rightarrow> str \<Rightarrow> int option" where
  "id_of_path db path = map_option p_id (sql_select (by_path path) (projects db))"

definition clear_project_failure_backoff_for_path :: "str \<Rightarrow> str \<Rightarrow> bool db" where
  "clear_project_failure_backoff_for_path path now db =
     (let pid = id_of_path db path in
      if 0 < sql_count (\<lambda>w. Some (w_project w) = pid \<and> worker_active (w_state w)) (workers db)
         \<or> 0 < sql_count (\<lambda>l. Some (l_project l) = pid \<and> \<not> cast_le (l_expires_at l) now) (leases db)
      then (Inl ''Cannot retry project while its agent worker or lease is active'', db)
      else project_update (by_path path) (\<lambda>p. p\<lparr>p_failure_count := 0, p_updated_at := now\<rparr>) db)"

text \<open>Before the default of a project changes, its sessions without Git keep their mode: every control
  with a run and neither a journal nor a launch boundary is pinned to \<^verbatim>\<open>off\<close>.\<close>

definition unmanaged_control :: "registry \<Rightarrow> project_row \<Rightarrow> control_row \<Rightarrow> bool" where
  "unmanaged_control db p sc \<longleftrightarrow> sc_project sc = p_id p \<and> p_git_mode p = Off \<and> sc_run_token sc \<noteq> None
     \<and> \<not> sql_exists (journal_at (sc_project sc) (sc_session sc)) (journals db)
     \<and> \<not> has_launch db (sc_project sc)"

fun insert_or_ignore_modes :: "session_mode_row list \<Rightarrow> session_mode_row table \<Rightarrow> session_mode_row table" where
  "insert_or_ignore_modes [] t = t"
| "insert_or_ignore_modes (m # ms) t =
     insert_or_ignore_modes ms
       (if sql_exists (mode_at (sm_project m) (sm_session m)) t then t else sql_insert m t)"

definition pin_unmanaged_sessions :: "(project_row \<Rightarrow> bool) \<Rightarrow> registry \<Rightarrow> registry" where
  "pin_unmanaged_sessions P db =
     (let pinned = List.map_filter (\<lambda>sc.
            if sql_exists (\<lambda>p. P p \<and> unmanaged_control db p sc) (projects db)
            then Some \<lparr>sm_project = sc_project sc, sm_session = sc_session sc, sm_git_mode = Off\<rparr> else None) (controls db)
      in db\<lparr>session_modes := insert_or_ignore_modes pinned (session_modes db)\<rparr>)"

definition set_git_mode_where :: "int option \<Rightarrow> (project_row \<Rightarrow> bool) \<Rightarrow> AgentGitMode \<Rightarrow> str \<Rightarrow> bool db" where
  "set_git_mode_where pending_migration P mode now db =
     (if (case pending_migration of None \<Rightarrow> False | Some v \<Rightarrow> v \<le> 19)
      then (Inl ''The session Git mode upgrade is waiting for active workers to finish; retry after they stop'', db)
      else project_update P (\<lambda>p. p\<lparr>p_git_mode := mode, p_updated_at := now\<rparr>) (pin_unmanaged_sessions P db))"

definition set_project_git_mode :: "int option \<Rightarrow> int \<Rightarrow> AgentGitMode \<Rightarrow> str \<Rightarrow> bool db" where
  "set_project_git_mode pending pid = set_git_mode_where pending (by_id pid)"

definition set_project_git_mode_for_path :: "int option \<Rightarrow> str \<Rightarrow> AgentGitMode \<Rightarrow> str \<Rightarrow> bool db" where
  "set_project_git_mode_for_path pending path = set_git_mode_where pending (by_path path)"

definition set_project_codex_settings ::
  "int \<Rightarrow> str option \<Rightarrow> str option \<Rightarrow> str option \<Rightarrow> bool \<Rightarrow> str \<Rightarrow> bool db" where
  "set_project_codex_settings pid provider model effort fast now =
     project_update (by_id pid) (\<lambda>p. p\<lparr>p_codex_provider := provider, p_codex_model := model,
       p_codex_reasoning_effort := effort, p_codex_fast_enabled := fast, p_updated_at := now\<rparr>)"

definition record_project_scan :: "int \<Rightarrow> str \<Rightarrow> str db" where
  "record_project_scan pid now db =
     (Inr now, snd (project_update (by_id pid) (\<lambda>p. p\<lparr>p_last_scan_at := Some now, p_updated_at := now\<rparr>) db))"

definition record_project_daemon_scan :: "int \<Rightarrow> str \<Rightarrow> str option \<Rightarrow> str \<Rightarrow> str db" where
  "record_project_daemon_scan pid status' err now db =
     (Inr now, snd (project_update (by_id pid) (\<lambda>p. p\<lparr>p_last_scan_at := Some now,
        p_last_daemon_scan_status := Some status', p_last_daemon_scan_error := err, p_updated_at := now\<rparr>) db))"

section \<open>Registering and unregistering\<close>

text \<open>A new row takes the defaults of the table.\<close>

definition new_project :: "int \<Rightarrow> str \<Rightarrow> str \<Rightarrow> str \<Rightarrow> project_row" where
  "new_project pid path name now =
     \<lparr>p_id = pid, p_path = path, p_name = name, p_enabled = True, p_git_mode = Off, p_last_run_at = None,
      p_last_success_at = None, p_last_failure_at = None, p_last_blocked_recovery_at = None, p_failure_count = 0,
      p_updated_at = now, p_registered_at = now, p_codex_provider = None, p_codex_model = None,
      p_codex_reasoning_effort = None, p_codex_fast_enabled = False, p_last_scan_at = None,
      p_last_daemon_scan_status = None, p_last_daemon_scan_error = None\<rparr>"

text \<open>The query and the write are two statements without a transaction: another connection may write
  in between, so \<open>seen\<close>, the answer of the query, may be stale when the write runs.\<close>

definition register_query :: "registry \<Rightarrow> str \<Rightarrow> bool" where
  "register_query db path \<longleftrightarrow> 0 < sql_count (by_path path) (projects db)"

definition register_write :: "bool \<Rightarrow> str \<Rightarrow> str \<Rightarrow> str \<Rightarrow> bool db" where
  "register_write seen path name now db =
     (if seen then
        (Inr (\<not> seen), snd (project_update (by_path path)
            (\<lambda>p. p\<lparr>p_name := name, p_enabled := True, p_updated_at := now\<rparr>) db))
      else if sql_exists (by_path path) (projects db) then (Inl ''UNIQUE constraint failed: projects.path'', db)
      else (Inr (\<not> seen), db\<lparr>projects := sql_insert (new_project (next_rowid p_id (projects db)) path name now) (projects db)\<rparr>))"

definition register_project :: "str \<Rightarrow> str \<Rightarrow> str \<Rightarrow> bool db" where
  "register_project path name now db = register_write (register_query db path) path name now db"

text \<open>Deleting a project deletes the rows that refer to it with \<^verbatim>\<open>ON DELETE CASCADE\<close>; deleting a run
  clears the journals that were acknowledged by it (\<^verbatim>\<open>ON DELETE SET NULL\<close>).\<close>

definition forget_run :: "(run_row \<Rightarrow> bool) \<Rightarrow> registry \<Rightarrow> journal_row \<Rightarrow> journal_row" where
  "forget_run P db g =
     (if (case g_acknowledged_run_id g of None \<Rightarrow> False
          | Some rid \<Rightarrow> sql_exists (\<lambda>r. P r \<and> r_id r = rid) (runs db))
      then g\<lparr>g_acknowledged_run_id := None\<rparr> else g)"

definition delete_project_rows :: "int \<Rightarrow> registry \<Rightarrow> registry" where
  "delete_project_rows pid db =
     \<lparr>projects = sql_delete (\<lambda>p. p_id p = pid) (projects db),
      runs = sql_delete (\<lambda>r. r_project r = pid) (runs db),
      leases = leases db,
      workers = sql_delete (\<lambda>w. w_project w = pid) (workers db),
      controls = sql_delete (\<lambda>sc. sc_project sc = pid) (controls db),
      journals = map (forget_run (\<lambda>r. r_project r = pid) db) (sql_delete (\<lambda>g. g_project g = pid) (journals db)),
      launches = sql_delete (\<lambda>a. gl_project a = pid) (launches db),
      session_modes = sql_delete (\<lambda>m. sm_project m = pid) (session_modes db),
      checkins = checkins db\<rparr>"

text \<open>A lease that refers to the project would make its deletion fail; the transaction has deleted it.
  \<open>now\<close> is \<^verbatim>\<open>agent_timestamp_seconds\<close>.\<close>

definition unregister_project :: "os_view \<Rightarrow> str \<Rightarrow> nat \<Rightarrow> bool db" where
  "unregister_project os path now db =
     (case id_of_path db path of
        None \<Rightarrow> (Inr False, db)
      | Some pid \<Rightarrow>
          if 0 < sql_count (\<lambda>w. w_project w = pid \<and> worker_active (w_state w)) (workers db)
          then (Inl ''Cannot unregister project while independent worker(s) are active'', db)
          else (case sql_select (\<lambda>l. l_project l = pid) (leases db) of
                  None \<Rightarrow> (Inr True, delete_project_rows pid db)
                | Some l \<Rightarrow>
                    if \<not> ((case parse_u64 (l_expires_at l) of None \<Rightarrow> False | Some e \<Rightarrow> e \<le> now)
                          \<or> agent_lease_holder_liveness os (l_holder l) = Dead)
                    then (Inl ''Cannot unregister project while its agent lease is active'', db)
                    else (let d = db\<lparr>leases := sql_delete (\<lambda>k. l_project k = pid \<and> l_holder k = l_holder l) (leases db)\<rparr>
                          in if sql_exists (\<lambda>k. l_project k = pid) (leases d)
                             then (Inl ''FOREIGN KEY constraint failed'', db)
                             else (Inr True, delete_project_rows pid d))))"

definition nocase :: "str \<Rightarrow> str" where
  "nocase = to_ascii_lowercase"

definition list_projects :: "registry \<Rightarrow> project_row list" where
  "list_projects db = sort_key (\<lambda>p. (nocase (p_name p), nocase (p_path p))) (projects db)"

section \<open>Providers and models\<close>

record AgentModelProvider =
  mp_id :: str
  mp_name :: str
  mp_base_url :: "str option"
  mp_env_key :: "str option"
  mp_api_key :: "str option"
  mp_built_in :: bool
  mp_enabled :: bool

record AgentModelTarget =
  mt_provider_id :: str
  mt_model_id :: str
  mt_label :: str
  mt_enabled :: bool
  mt_favorite :: bool
  mt_reasoning_effort :: "str option"

record AgentModelDefaults =
  md_provider_id :: "str option"
  md_model_id :: "str option"

text \<open>The settings have at most the row with id 1.\<close>

record model_tables =
  providers :: "AgentModelProvider table"
  targets :: "AgentModelTarget table"
  settings :: "AgentModelDefaults option"

type_synonym 'a models_db = "model_tables \<Rightarrow> 'a result \<times> model_tables"

text \<open>Without migration 18 there is no column for the key: it is read as \<^verbatim>\<open>NULL\<close> and never written.\<close>

definition visible_provider :: "bool \<Rightarrow> AgentModelProvider \<Rightarrow> AgentModelProvider" where
  "visible_provider key_available p = (if key_available then p else p\<lparr>mp_api_key := None\<rparr>)"

definition list_model_providers :: "bool \<Rightarrow> model_tables \<Rightarrow> AgentModelProvider list" where
  "list_model_providers key_available m =
     map (visible_provider key_available)
       (sort_key (\<lambda>p. (\<not> mp_built_in p, nocase (mp_name p), nocase (mp_id p))) (providers m))"

definition model_provider :: "bool \<Rightarrow> str \<Rightarrow> model_tables \<Rightarrow> AgentModelProvider option" where
  "model_provider key_available pr m =
     map_option (visible_provider key_available) (sql_select (\<lambda>p. mp_id p = pr) (providers m))"

definition list_model_targets :: "str option \<Rightarrow> model_tables \<Rightarrow> AgentModelTarget list" where
  "list_model_targets pr m =
     sort_key (\<lambda>t. (\<not> mt_favorite t, nocase (mt_label t), nocase (mt_model_id t)))
       (filter (\<lambda>t. pr = None \<or> Some (mt_provider_id t) = pr) (targets m))"

definition list_enabled_model_targets :: "model_tables \<Rightarrow> AgentModelTarget list" where
  "list_enabled_model_targets m =
     map fst (sort_key (\<lambda>(t, p). (\<not> mt_favorite t, nocase (mp_name p), nocase (mt_label t), nocase (mt_model_id t)))
       (filter (\<lambda>(t, p). mp_id p = mt_provider_id t \<and> mp_enabled p \<and> mt_enabled t)
         (List.product (targets m) (providers m))))"

definition model_defaults :: "model_tables \<Rightarrow> AgentModelDefaults" where
  "model_defaults m = (case settings m of None \<Rightarrow> \<lparr>md_provider_id = None, md_model_id = None\<rparr> | Some d \<Rightarrow> d)"

definition resolve_model_target :: "project_row \<Rightarrow> model_tables \<Rightarrow> AgentModelDefaults" where
  "resolve_model_target p m =
     (case p_codex_model p of
        Some model \<Rightarrow> \<lparr>md_provider_id = Some (case p_codex_provider p of None \<Rightarrow> lit ''openai'' | Some pr \<Rightarrow> pr),
                       md_model_id = Some model\<rparr>
      | None \<Rightarrow> model_defaults m)"

definition target_at :: "str \<Rightarrow> str \<Rightarrow> AgentModelTarget \<Rightarrow> bool" where
  "target_at pr model t \<longleftrightarrow> mt_provider_id t = pr \<and> mt_model_id t = model"

definition model_target_reasoning :: "str \<Rightarrow> str \<Rightarrow> model_tables \<Rightarrow> str option" where
  "model_target_reasoning pr model m =
     Option.bind (sql_select (target_at pr model) (targets m)) mt_reasoning_effort"

definition upsert_model_provider :: "bool \<Rightarrow> AgentModelProvider \<Rightarrow> unit models_db" where
  "upsert_model_provider key_available p m =
     (Inr (), m\<lparr>providers :=
        (if sql_exists (\<lambda>q. mp_id q = mp_id p) (providers m)
         then sql_update (\<lambda>q. mp_id q = mp_id p)
                (\<lambda>q. p\<lparr>mp_api_key := (if key_available \<and> mp_api_key p \<noteq> None then mp_api_key p else mp_api_key q)\<rparr>)
                (providers m)
         else sql_insert (visible_provider key_available p) (providers m))\<rparr>)"

definition delete_model_provider :: "str \<Rightarrow> str \<Rightarrow> registry \<times> model_tables \<Rightarrow> bool result \<times> registry \<times> model_tables" where
  "delete_model_provider pr now s =
     (let db = fst s; m = snd s;
          db1 = db\<lparr>projects := sql_update (\<lambda>p. p_codex_provider p = Some pr)
                    (\<lambda>p. p\<lparr>p_codex_provider := None, p_codex_model := None, p_updated_at := now\<rparr>) (projects db)\<rparr>;
          m1 = m\<lparr>settings := map_option (\<lambda>d. if md_provider_id d = Some pr
                    then d\<lparr>md_provider_id := None, md_model_id := None\<rparr> else d) (settings m),
                 targets := sql_delete (\<lambda>t. mt_provider_id t = pr) (targets m),
                 providers := sql_delete (\<lambda>p. mp_id p = pr) (providers m)\<rparr>
      in (Inr (0 < sql_count (\<lambda>p. mp_id p = pr) (providers m)), db1, m1))"

definition upsert_model_target :: "AgentModelTarget \<Rightarrow> unit models_db" where
  "upsert_model_target t m =
     (if \<not> sql_exists (\<lambda>p. mp_id p = mt_provider_id t) (providers m) then (Inl ''FOREIGN KEY constraint failed'', m)
      else (Inr (), m\<lparr>targets :=
        (if sql_exists (target_at (mt_provider_id t) (mt_model_id t)) (targets m)
         then sql_update (target_at (mt_provider_id t) (mt_model_id t)) (\<lambda>_. t) (targets m)
         else sql_insert t (targets m))\<rparr>))"

definition provider_update :: "str \<Rightarrow> (AgentModelProvider \<Rightarrow> AgentModelProvider) \<Rightarrow> bool models_db" where
  "provider_update pr f m =
     (Inr (0 < sql_count (\<lambda>p. mp_id p = pr) (providers m)),
      m\<lparr>providers := sql_update (\<lambda>p. mp_id p = pr) f (providers m)\<rparr>)"

definition target_update :: "str \<Rightarrow> str \<Rightarrow> (AgentModelTarget \<Rightarrow> AgentModelTarget) \<Rightarrow> bool models_db" where
  "target_update pr model f m =
     (Inr (0 < sql_count (target_at pr model) (targets m)),
      m\<lparr>targets := sql_update (target_at pr model) f (targets m)\<rparr>)"

definition set_model_provider_enabled :: "str \<Rightarrow> bool \<Rightarrow> bool models_db" where
  "set_model_provider_enabled pr enabled = provider_update pr (\<lambda>p. p\<lparr>mp_enabled := enabled\<rparr>)"

definition set_model_provider_api_key :: "bool \<Rightarrow> str \<Rightarrow> str option \<Rightarrow> bool models_db" where
  "set_model_provider_api_key key_available pr key m =
     (if \<not> key_available
      then (Inl ''Storing provider API keys is unavailable while an agent schema migration is deferred'', m)
      else provider_update pr (\<lambda>p. p\<lparr>mp_api_key := key\<rparr>) m)"

definition set_model_target_flags :: "str \<Rightarrow> str \<Rightarrow> bool \<Rightarrow> bool \<Rightarrow> bool models_db" where
  "set_model_target_flags pr model enabled favorite =
     target_update pr model (\<lambda>t. t\<lparr>mt_enabled := enabled, mt_favorite := favorite\<rparr>)"

definition set_model_target_reasoning :: "str \<Rightarrow> str \<Rightarrow> str option \<Rightarrow> bool models_db" where
  "set_model_target_reasoning pr model effort = target_update pr model (\<lambda>t. t\<lparr>mt_reasoning_effort := effort\<rparr>)"

definition set_model_default :: "str \<Rightarrow> str \<Rightarrow> unit models_db" where
  "set_model_default pr model m =
     (Inr (), m\<lparr>settings := map_option (\<lambda>d. d\<lparr>md_provider_id := Some pr, md_model_id := Some model\<rparr>) (settings m)\<rparr>)"

section \<open>Credentials\<close>

datatype AgentProviderCredentialSource = Clt | Environment

record AgentProviderCredential =
  cr_source :: AgentProviderCredentialSource
  cr_value :: str

definition agent_provider_env_key :: "str option \<Rightarrow> str" where
  "agent_provider_env_key env_key =
     (case env_key of None \<Rightarrow> lit ''OPENAI_API_KEY''
      | Some k \<Rightarrow> if trim k = [] then lit ''OPENAI_API_KEY'' else k)"

fun resolve_credential :: "(AgentProviderCredentialSource \<times> str option) list \<Rightarrow> AgentProviderCredential option" where
  "resolve_credential [] = None"
| "resolve_credential ((src, v) # rest) =
     (case v of
        Some x \<Rightarrow> if trim x \<noteq> [] then Some \<lparr>cr_source = src, cr_value = trim x\<rparr> else resolve_credential rest
      | None \<Rightarrow> resolve_credential rest)"

definition resolve_agent_provider_credential :: "str option \<Rightarrow> str option \<Rightarrow> AgentProviderCredential option" where
  "resolve_agent_provider_credential stored environment =
     resolve_credential [(Clt, stored), (Environment, environment)]"

text \<open>\<open>env\<close> is the environment of the process, \<open>config\<close> the provider of the user's Codex configuration,
  when that file can be read.\<close>

definition resolve_provider_credential ::
  "bool \<Rightarrow> (str \<Rightarrow> str option) \<Rightarrow> str \<Rightarrow> model_tables \<Rightarrow> (str \<times> AgentProviderCredential) option" where
  "resolve_provider_credential key_available env pr m =
     (let p = model_provider key_available pr m;
          env_key = agent_provider_env_key (Option.bind p mp_env_key);
          environment = (if (case p of None \<Rightarrow> True | Some q \<Rightarrow> mp_env_key q \<noteq> None) then env env_key else None)
      in map_option (\<lambda>c. (env_key, c)) (resolve_agent_provider_credential (Option.bind p mp_api_key) environment))"

definition resolve_credential_provider :: "str option \<Rightarrow> project_row \<Rightarrow> model_tables \<Rightarrow> str option" where
  "resolve_credential_provider config p m =
     (if p_codex_provider p \<noteq> None \<or> p_codex_model p \<noteq> None
      then Some (case p_codex_provider p of None \<Rightarrow> lit ''openai'' | Some pr \<Rightarrow> pr)
      else case md_provider_id (model_defaults m) of
             Some pr \<Rightarrow> Some pr
           | None \<Rightarrow> config)"

end
