(* ===== verification/Project_Store.thy ===== *)
theory Project_Store
  imports Project_Models Session_Store
begin

text \<open>
  The fourth repository joins the store: the transactions on projects interleave with those on
  workers, leases, journals and sessions.  Unregistering a project deletes rows of every table, so
  the invariant also says that an acknowledged journal names a run of its own project, and that a
  path is registered once.
\<close>

section \<open>What identifies a project\<close>

lemma registry_step_keys: "registry_step db db' \<Longrightarrow> map project_key (projects db') = map project_key (projects db)"
  using registry_step_tables [of db db'] by (simp add: git_tables_def del: map_eq_conv)

lemma git_step_keys: "git_step db db' \<Longrightarrow> map project_key (projects db') = map project_key (projects db)"
  using git_step_side [of db db'] by (simp add: side_ok_def del: map_eq_conv)

lemma session_effect_tables:
  assumes "session_effect db d"
  shows "projects d = projects db" "runs d = runs db" "journals d = journals db"
  using assms by (auto elim!: session_effectE)

lemma mark_running_core_keys:
  assumes "core (db' :: registry) = core db"
  shows "map project_key (projects db') = map project_key (projects db)" "runs db' = runs db"
  using assms by (simp_all add: core_def del: map_eq_conv)

lemma session_step_keys: "session_step db db' \<Longrightarrow> map project_key (projects db') = map project_key (projects db)"
  by (induction rule: session_step.induct)
    (simp_all add: session_effects [THEN session_effect_tables(1)] mark_running_core_keys(1) [OF mark_running_core]
      record_run_outcome_def record_daemon_checkin_def clear_daemon_checkin_def Let_def del: map_eq_conv)

lemma agent_step_keys: "agent_step db db' \<Longrightarrow> map project_key (projects db') = map project_key (projects db)"
  unfolding agent_step_def store_step_def
  by (elim disjE) (erule registry_step_keys git_step_keys session_step_keys)+

section \<open>Runs are only added\<close>

lemma record_worker_run_grows: "record_worker_run oc t db = (r, db') \<Longrightarrow> set (runs db) \<subseteq> set (runs db')"
  by (auto simp: record_worker_run_def Let_def split: if_splits option.splits)

lemma runs_insert_lease: "runs (snd (insert_lease l db)) = runs db"
  by (simp add: insert_lease_def)

lemma runs_repair: "runs (repair_recovery_fences pid now db) = runs db"
  by (simp add: repair_recovery_fences_def Let_def)

lemma runs_acquire:
  "runs (snd (try_acquire_lease pid h a e db)) = runs db"
  "runs (snd (try_acquire_git_finalization_lease pid h a e rc db)) = runs db"
  unfolding try_acquire_lease_def try_acquire_git_finalization_lease_def Let_def
  by (auto simp: runs_insert_lease runs_repair split: prod.split sum.split dest!: insert_lease_frame)

lemma runs_small:
  "runs (snd (renew_git_finalization_lease pid h e db)) = runs db"
  "runs (snd (renew_lease pid h e db)) = runs db"
  "runs (snd (release_lease pid h db)) = runs db"
  "runs (snd (reserve_worker rv c db)) = runs db"
  "runs (snd (claim_worker t p s db)) = runs db"
  "runs (snd (renew_worker t p hb e db)) = runs db"
  "runs (snd (supersede_abandoned_workers_for_lease pid h db)) = runs db"
  "runs (snd (mark_worker_service_cleaned t at db)) = runs db"
  by (simp_all add: renew_git_finalization_lease_def renew_lease_def release_lease_def reserve_worker_def
      claim_worker_def renew_worker_def supersede_abandoned_workers_for_lease_def
      mark_worker_service_cleaned_def Let_def split: option.split prod.split)

lemma runs_ending:
  "set (runs db) \<subseteq> set (runs (snd (abandon_worker ab db)))" "set (runs db) \<subseteq> set (runs (snd (finalize_worker f db)))"
  unfolding abandon_worker_def finalize_worker_def Let_def
  by (auto split: option.split prod.split sum.split dest!: record_worker_run_grows)

lemma registry_step_runs: "registry_step db db' \<Longrightarrow> set (runs db) \<subseteq> set (runs db')"
  by (induction rule: registry_step.induct) (simp_all add: runs_acquire runs_small runs_ending)

lemma session_step_runs: "session_step db db' \<Longrightarrow> set (runs db) \<subseteq> set (runs db')"
  by (induction rule: session_step.induct)
    (auto simp: session_effects [THEN session_effect_tables(2)] mark_running_core_keys(2) [OF mark_running_core]
      record_run_outcome_def record_daemon_checkin_def clear_daemon_checkin_def Let_def)

section \<open>Acknowledged journals name their own runs\<close>

definition acks_ok :: "registry \<Rightarrow> bool" where
  "acks_ok db \<longleftrightarrow> (\<forall>g \<in> set (journals db). \<forall>rid. g_acknowledged_run_id g = Some rid \<longrightarrow>
     (\<exists>r \<in> set (runs db). r_id r = rid \<and> r_project r = g_project g))"

lemma acks_okD:
  assumes "acks_ok db" "g \<in> set (journals db)" "g_acknowledged_run_id g = Some rid"
  obtains r where "r \<in> set (runs db)" "r_id r = rid" "r_project r = g_project g"
  using assms unfolding acks_ok_def by blast

lemma acks_ok_plain:
  assumes "acks_ok db" "plain_move (journals db) (journals db')" "set (runs db) \<subseteq> set (runs db')"
  shows "acks_ok db'"
  unfolding acks_ok_def
proof (intro ballI allI impI)
  fix h rid assume "h \<in> set (journals db')" "g_acknowledged_run_id h = Some rid"
  then obtain g where g: "g \<in> set (journals db)" "g_project g = g_project h" "g_acknowledged_run_id g = Some rid"
    using plain_move_acks [OF assms(2)] by blast
  then show "\<exists>r \<in> set (runs db'). r_id r = rid \<and> r_project r = g_project h"
    using acks_okD [OF assms(1) g(1,3)] assms(3) by (metis subsetD)
qed

lemma acknowledging_run_own:
  assumes "acknowledging_run pid sid at s db = (Inr rid, db1)"
  shows "set (runs db) \<subseteq> set (runs db1) \<and> (\<exists>r \<in> set (runs db1). r_id r = rid \<and> r_project r = pid)"
proof (cases "last_by r_id (filter (\<lambda>r. r_project r = pid \<and> r_codex_session_id r = Some sid) (runs db))")
  case None
  with assms show ?thesis
    by (auto simp: acknowledging_run_def Let_def recovered_run_def split: if_splits)
next
  case (Some r)
  then have "r \<in> set (rev (sort_key r_id (filter (\<lambda>r. r_project r = pid \<and> r_codex_session_id r = Some sid) (runs db))))"
    by (auto simp: last_by_def simp del: set_rev split: list.splits)
  with assms Some show ?thesis
    by (auto simp: acknowledging_run_def Let_def recovered_run_def split: if_splits)
qed

lemma acknowledge_acks:
  assumes "acks_ok db"
  shows "acks_ok (snd (acknowledge_completed_git_finalization_session pid sid now db))"
proof (cases rule: acknowledge_cases [where pid = pid and sid = sid and now = now and db = db])
  case none
  with assms show ?thesis by simp
next
  case late
  with assms show ?thesis by (simp add: acks_ok_def)
next
  case (marked g at rid db1 db2 P)
  have j: "journals db2 = journals db" and r: "runs db2 = runs db1"
    using acknowledging_run_frame [OF marked(1)] by (simp_all add: marked(2))
  note own = acknowledging_run_own [OF marked(1)]
  show ?thesis unfolding acks_ok_def marked(3)
  proof (intro ballI allI impI)
    fix h rd assume h: "h \<in> set (journals (db2\<lparr>journals := sql_update (\<lambda>g. journal_at pid sid g \<and> g_state g = Completed
        \<and> g_acknowledged_at g = None) (ack_row now rid) (journals db2), controls := sql_delete P (controls db2)\<rparr>))"
      and rd: "g_acknowledged_run_id h = Some rd"
    then obtain g0 where g0: "g0 \<in> set (journals db)"
      "h = g0 \<or> h = ack_row now rid g0 \<and> journal_at pid sid g0"
      by (auto simp: set_sql_update j split: if_splits)
    from g0(2) have "\<exists>r \<in> set (runs db1). r_id r = rd \<and> r_project r = g_project h"
    proof
      assume "h = g0"
      with g0(1) rd show ?thesis using acks_okD [OF assms, of g0 rd] own by (metis subsetD)
    next
      assume "h = ack_row now rid g0 \<and> journal_at pid sid g0"
      with rd own show ?thesis by (simp add: ack_row_def journal_at_def)
    qed
    then show "\<exists>r \<in> set (runs (db2\<lparr>journals := sql_update (\<lambda>g. journal_at pid sid g \<and> g_state g = Completed
        \<and> g_acknowledged_at g = None) (ack_row now rid) (journals db2), controls := sql_delete P (controls db2)\<rparr>)).
          r_id r = rd \<and> r_project r = g_project h" by (simp add: r)
  qed
qed

lemma fence_runs: "fence_project_for_cancellation pid sid gen i h a e db = (r, db1) \<Longrightarrow> runs db1 = runs db"
  using fence_project_frame by blast

lemma cancel_idle_runs: "runs (snd (cancel_idle_working_git_finalization pid sid gen i h a e c db)) = runs db"
proof -
  let ?first = "if c = Deletion \<and> can_delete_idle_task db pid sid gen i a then (Inr True, db)
     else fence_project_for_cancellation pid sid gen i h a e db"
  obtain r db1 where first: "?first = (r, db1)" by fastforce
  then have "runs db1 = runs db" by (auto split: if_splits dest: fence_runs)
  then show ?thesis
    unfolding cancel_idle_working_git_finalization_def Let_def first
    by (auto split: sum.split bool.split)
qed

lemma begin_recovery_runs: "runs (snd (begin_missing_git_recovery q db)) = runs db"
  unfolding begin_missing_git_recovery_def Let_def
  by (auto split: option.split prod.split sum.split bool.split dest!: insert_lease_frame)

lemmas git_core_runs = git_cores [THEN mark_running_core_keys(2)]

lemma git_step_acks:
  assumes "git_step db db'" "journals_wf (journals db)" "acks_ok db"
  shows "acks_ok db'"
  using assms(1)
proof (cases rule: git_stepE)
qed (use assms(2,3) in \<open>auto intro: acknowledge_acks acks_ok_plain plain_moves simp: git_core_runs cancel_idle_runs begin_recovery_runs\<close>)

lemma agent_step_acks:
  assumes "agent_step db db'" "journals_wf (journals db)" "acks_ok db"
  shows "acks_ok db'"
proof -
  consider "registry_step db db'" | "git_step db db'" | "session_step db db'"
    using assms(1) unfolding agent_step_def store_step_def by blast
  then show ?thesis
  proof cases
    case 1
    then show ?thesis using acks_ok_plain [OF assms(3)] registry_step_journals registry_step_runs move_keep by metis
  next
    case 2
    then show ?thesis using assms(2,3) by (rule git_step_acks)
  next
    case 3
    then show ?thesis using acks_ok_plain [OF assms(3)] session_step_plain session_step_runs by blast
  qed
qed

section \<open>The transactions on projects\<close>

text \<open>Registration is a query and a write; any other transaction may run between them.\<close>

inductive project_step :: "registry \<Rightarrow> registry \<Rightarrow> bool" where
  prj_enabled: "project_step db (snd (set_project_enabled pid b now db))"
| prj_enabled_path: "project_step db (snd (set_project_enabled_for_path path b now db))"
| prj_clear_backoff: "project_step db (snd (clear_project_failure_backoff_for_path path now db))"
| prj_git_mode: "project_step db (snd (set_project_git_mode pending pid mode now db))"
| prj_git_mode_path: "project_step db (snd (set_project_git_mode_for_path pending path mode now db))"
| prj_codex: "project_step db (snd (set_project_codex_settings pid provider model effort fast now db))"
| prj_scan: "project_step db (snd (record_project_scan pid now db))"
| prj_daemon_scan: "project_step db (snd (record_project_daemon_scan pid st err now db))"
| prj_register: "project_step db (snd (register_write seen path name now db))"
| prj_unregister: "project_step db (snd (unregister_project os path clock db))"
| prj_delete_provider: "project_step db (fst (snd (delete_model_provider pr now (db, m))))"

inductive_cases project_stepE: "project_step db db'"

definition registry_full_step :: "registry \<Rightarrow> registry \<Rightarrow> bool" where
  "registry_full_step db db' \<longleftrightarrow> agent_step db db' \<or> project_step db db'"

definition project_init :: "registry \<Rightarrow> bool" where
  "project_init db \<longleftrightarrow> store_init db \<and> unique_on p_path (projects db)"

definition project_inv :: "registry \<Rightarrow> bool" where
  "project_inv db \<longleftrightarrow> agent_inv db \<and> unique_on p_path (projects db) \<and> acks_ok db"

lemma project_invD:
  assumes "project_inv db"
  shows "agent_inv db" "unique_on p_path (projects db)" "acks_ok db"
  using assms by (simp_all add: project_inv_def)

lemma project_exists_keys:
  "map project_key ps = map project_key (projects db) \<Longrightarrow> project_exists (db\<lparr>projects := ps\<rparr>) = project_exists db"
  using project_key_ids [of ps "projects db"] by (simp add: fun_eq_iff project_exists_ids del: map_eq_conv)

text \<open>A statement that keeps the identities of the projects keeps everything else.\<close>

lemma project_inv_projects:
  assumes "project_inv db" "map project_key ps = map project_key (projects db)"
  shows "project_inv (db\<lparr>projects := ps\<rparr>)"
proof -
  note inv = project_invD [OF assms(1)] and ex = project_exists_keys [OF assms(2)]
  note st = store_invD [OF agent_invD(1) [OF inv(1)]]
  have "core (db\<lparr>projects := ps\<rparr>) = core db" by (simp add: core_def assms(2) del: map_eq_conv)
  then have "registry_inv (db\<lparr>projects := ps\<rparr>)" using st(1) by (rule registry_inv_core_db)
  moreover have "unique_on p_path ps"
    using inv(2) project_key_paths [OF assms(2)] by (simp add: unique_on_def del: map_eq_conv)
  ultimately show ?thesis
    using inv st by (simp add: project_inv_def agent_inv_def store_inv_def ex acks_ok_def)
qed

lemma project_update_inv:
  assumes "project_inv db" "\<And>p. project_key (f p) = project_key p"
  shows "project_inv (snd (project_update P f db))"
  using project_inv_projects [OF assms(1) map_sql_update [where k = project_key and f = f, OF assms(2)]]
  by (simp add: project_update_def)

lemma project_inv_modes:
  assumes "project_inv db" "unique_on mode_key t"
  shows "project_inv (db\<lparr>session_modes := t\<rparr>)"
proof -
  note inv = project_invD [OF assms(1)]
  note st = store_invD [OF agent_invD(1) [OF inv(1)]]
  have "core (db\<lparr>session_modes := t\<rparr>) = core db" by (simp add: core_def)
  then have "registry_inv (db\<lparr>session_modes := t\<rparr>)" using st(1) by (rule registry_inv_core_db)
  then show ?thesis
    using inv st assms(2) by (simp add: project_inv_def agent_inv_def store_inv_def acks_ok_def project_exists_def)
qed

lemma insert_or_ignore_unique: "unique_on mode_key t \<Longrightarrow> unique_on mode_key (insert_or_ignore_modes ms t)"
proof (induction ms t rule: insert_or_ignore_modes.induct)
  case (2 m ms t)
  have "unique_on mode_key (sql_insert m t)" if "\<not> sql_exists (mode_at (sm_project m) (sm_session m)) t"
    using that by (intro unique_on_insert [OF 2(2)]) (auto simp: mode_key_def mode_at_def sql_exists_iff)
  with 2 show ?case by simp
qed simp

lemma set_git_mode_inv:
  assumes "project_inv db"
  shows "project_inv (snd (set_git_mode_where pending P mode now db))"
proof -
  have "project_inv (pin_unmanaged_sessions P db)"
    unfolding pin_unmanaged_sessions_def Let_def
    using store_invD(6) [OF agent_invD(1) [OF project_invD(1) [OF assms]]]
    by (intro project_inv_modes [OF assms]) (rule insert_or_ignore_unique)
  then show ?thesis using assms
    by (auto simp: set_git_mode_where_def project_key_def intro!: project_update_inv)
qed

section \<open>A new project\<close>

lemma runs_ok_projects [simp]: "runs_ok (db\<lparr>projects := ps\<rparr>) = runs_ok db"
  by (simp add: runs_ok_def)

lemma register_write_inv:
  assumes "project_inv db"
  shows "project_inv (snd (register_write seen path name now db))"
proof (cases "seen \<or> sql_exists (by_path path) (projects db)")
  case True
  then show ?thesis using assms
    by (auto simp: register_write_def project_key_def intro!: project_update_inv)
next
  case False
  let ?p = "new_project (next_rowid p_id (projects db)) path name now"
  let ?db = "db\<lparr>projects := sql_insert ?p (projects db)\<rparr>"
  note inv = project_invD [OF assms]
  note st = store_invD [OF agent_invD(1) [OF inv(1)]]
  have ex: "project_exists db i \<Longrightarrow> project_exists ?db i" for i
    by (auto simp: project_exists_def sql_exists_iff)
  have "unique_on p_id (projects ?db)"
    using registry_invD(1) [OF st(1)] next_rowid_fresh [of _ "projects db" p_id]
    by (simp, intro unique_on_insert) (force simp: new_project_def)+
  moreover have "unique_on p_path (projects ?db)"
    using inv(2) False by (simp, intro unique_on_insert) (auto simp: new_project_def by_path_def sql_exists_iff)
  moreover have "registry_inv ?db"
    using st(1) ex calculation(1) by (simp add: registry_inv_def leases_ok_def)
  ultimately have "project_inv ?db"
    using inv st ex by (simp add: project_inv_def agent_inv_def store_inv_def acks_ok_def)
  then show ?thesis using False by (simp add: register_write_def)
qed

section \<open>Deleting a project\<close>

text \<open>No journal of another project is touched by the runs that go.\<close>

lemma forget_run_id:
  assumes "acks_ok db" "unique_on r_id (runs db)"
  shows "map (forget_run (\<lambda>r. r_project r = pid) db) (sql_delete (\<lambda>g. g_project g = pid) (journals db))
    = sql_delete (\<lambda>g. g_project g = pid) (journals db)"
proof (rule map_idI)
  fix g assume "g \<in> set (sql_delete (\<lambda>g. g_project g = pid) (journals db))"
  then have g: "g \<in> set (journals db)" "g_project g \<noteq> pid" by auto
  have "\<not> sql_exists (\<lambda>r. r_project r = pid \<and> r_id r = rid) (runs db)" if a: "g_acknowledged_run_id g = Some rid" for rid
  proof -
    obtain r where r: "r \<in> set (runs db)" "r_id r = rid" "r_project r = g_project g"
      using acks_okD [OF assms(1) g(1) a] by blast
    have "r_project x \<noteq> pid" if "x \<in> set (runs db)" "r_id x = rid" for x
      using unique_on_eq [OF assms(2) that(1) r(1)] that(2) r(2,3) g(2) by simp
    then show ?thesis unfolding sql_exists_iff by blast
  qed
  then show "forget_run (\<lambda>r. r_project r = pid) db g = g"
    by (simp add: forget_run_def split: option.split)
qed

lemma workers_ok_delete: "workers_ok t \<Longrightarrow> workers_ok (sql_delete P t)"
  by (auto simp: workers_ok_def unique_on_delete one_active_def)

lemma journals_wf_delete: "journals_wf t \<Longrightarrow> journals_wf (sql_delete P t)"
  by (auto simp: journals_wf_def unique_on_delete one_finalizing_def)

lemma project_exists_delete: "project_exists (delete_project_rows pid db) i \<longleftrightarrow> i \<noteq> pid \<and> project_exists db i"
  by (auto simp: delete_project_rows_def project_exists_def sql_exists_iff)

lemma delete_runs_ok:
  assumes ok: "runs_ok db" and idle: "\<forall>w \<in> set (workers db). w_project w = pid \<longrightarrow> \<not> worker_active (w_state w)"
  shows "runs_ok (delete_project_rows pid db)"
  unfolding runs_ok_def delete_project_rows_def registry.simps
proof (intro conjI ballI allI impI)
  note r = runs_okD [OF ok]
  let ?runs = "sql_delete (\<lambda>r. r_project r = pid) (runs db)"
  show "unique_on r_id ?runs" by (rule unique_on_delete [OF r(1)])
  show "x = y" if "x \<in> set ?runs" "y \<in> set ?runs" "r_worker_token x \<noteq> None" "r_worker_token x = r_worker_token y" for x y
    using that r(2) by simp
  show "\<exists>w \<in> set (sql_delete (\<lambda>w. w_project w = pid) (workers db)). w_token w = t"
    if "x \<in> set ?runs" "r_worker_token x = Some t" for x t
  proof -
    from that obtain w where w: "w \<in> set (workers db)" "w_token w = t" using r(3) by auto
    have "\<not> worker_active (w_state w)" using r(4) [OF w(1)] that w(2) by (auto simp: no_run_def)
    with r(5) [OF w(1)] obtain y where "y \<in> set (runs db)" "r_worker_token y = Some t" "r_project y = w_project w"
      using w(2) by (auto simp: run_recorded_def)
    with that have "r_project x = w_project w" using r(2) [of x y] by auto
    with that w show ?thesis by auto
  qed
  fix w assume "w \<in> set (sql_delete (\<lambda>w. w_project w = pid) (workers db))"
  then have w: "w \<in> set (workers db)" "w_project w \<noteq> pid" by auto
  show "if worker_active (w_state w) then no_run ?runs (w_token w) else run_recorded ?runs w"
    using r(4,5) [OF w(1)] w(2) unfolding no_run_def run_recorded_def by (cases "worker_active (w_state w)") fastforce+
qed

lemma delete_project_inv:
  assumes "project_inv db" "\<forall>w \<in> set (workers db). w_project w = pid \<longrightarrow> \<not> worker_active (w_state w)"
    and "\<forall>l \<in> set (leases db). l_project l \<noteq> pid"
  shows "project_inv (delete_project_rows pid db)"
proof -
  let ?d = "delete_project_rows pid db"
  note inv = project_invD [OF assms(1)]
  note st = store_invD [OF agent_invD(1) [OF inv(1)]]
  note reg = registry_invD [OF st(1)]
  have j: "journals ?d = sql_delete (\<lambda>g. g_project g = pid) (journals db)"
    using forget_run_id [OF inv(3) runs_okD(1) [OF reg(5)]] by (simp add: delete_project_rows_def)
  have t: "projects ?d = sql_delete (\<lambda>p. p_id p = pid) (projects db)" "runs ?d = sql_delete (\<lambda>r. r_project r = pid) (runs db)"
    "leases ?d = leases db" "workers ?d = sql_delete (\<lambda>w. w_project w = pid) (workers db)"
    "controls ?d = sql_delete (\<lambda>sc. sc_project sc = pid) (controls db)"
    "launches ?d = sql_delete (\<lambda>a. gl_project a = pid) (launches db)"
    "session_modes ?d = sql_delete (\<lambda>m. sm_project m = pid) (session_modes db)"
    by (simp_all add: delete_project_rows_def)
  have "registry_inv ?d"
    using reg assms(3) delete_runs_ok [OF reg(5) assms(2)] workers_ok_delete
    by (simp add: registry_inv_def leases_ok_def t project_exists_delete unique_on_delete)
  moreover have "store_inv ?d" if "registry_inv ?d"
    using that st by (simp add: store_inv_def j t project_exists_delete unique_on_delete journals_wf_delete)
  moreover have "acks_ok ?d"
    unfolding acks_ok_def j t
  proof (intro ballI allI impI)
    fix g rid assume "g \<in> set (sql_delete (\<lambda>g. g_project g = pid) (journals db))" and a: "g_acknowledged_run_id g = Some rid"
    then have g: "g \<in> set (journals db)" "g_project g \<noteq> pid" by auto
    obtain r where "r \<in> set (runs db)" "r_id r = rid" "r_project r = g_project g" using acks_okD [OF inv(3) g(1) a] by blast
    with g(2) show "\<exists>r \<in> set (sql_delete (\<lambda>r. r_project r = pid) (runs db)). r_id r = rid \<and> r_project r = g_project g" by auto
  qed
  ultimately show ?thesis
    using inv by (simp add: project_inv_def agent_inv_def t unique_on_delete)
qed

lemma project_inv_leases:
  assumes "project_inv db"
  shows "project_inv (db\<lparr>leases := sql_delete P (leases db)\<rparr>)"
  using assms registry_inv_delete_lease [of db P]
  by (simp add: project_inv_def agent_inv_def store_inv_def acks_ok_def)

lemma unregister_inv:
  assumes "project_inv db"
  shows "project_inv (snd (unregister_project os path clock db))"
proof (cases "id_of_path db path")
  case (Some pid)
  show ?thesis
  proof (cases "0 < sql_count (\<lambda>w. w_project w = pid \<and> worker_active (w_state w)) (workers db)")
    case False
    then have idle: "\<forall>w \<in> set (workers db). w_project w = pid \<longrightarrow> \<not> worker_active (w_state w)"
      by (auto simp: sql_count_pos)
    show ?thesis
    proof (cases "sql_select (\<lambda>l. l_project l = pid) (leases db)")
      case None
      then have "project_inv (delete_project_rows pid db)"
        using delete_project_inv [OF assms idle] by (simp add: sql_select_None)
      then show ?thesis using Some False None by (simp add: unregister_project_def)
    next
      case (Some l)
      let ?d = "db\<lparr>leases := sql_delete (\<lambda>k. l_project k = pid \<and> l_holder k = l_holder l) (leases db)\<rparr>"
      have "project_inv (delete_project_rows pid ?d)" if "\<not> sql_exists (\<lambda>k. l_project k = pid) (leases ?d)"
        using that idle by (intro delete_project_inv project_inv_leases [OF assms]) (auto simp: sql_exists_iff)
      then show ?thesis using \<open>id_of_path db path = Some pid\<close> False Some assms
        by (simp add: unregister_project_def Let_def)
    qed
  qed (use Some assms in \<open>simp add: unregister_project_def\<close>)
qed (use assms in \<open>simp add: unregister_project_def\<close>)

section \<open>The whole store\<close>

lemma project_step_inv: "project_step db db' \<Longrightarrow> project_inv db \<Longrightarrow> project_inv db'"
proof (induction rule: project_step.induct)
  case (prj_delete_provider db pr now m)
  show ?case
    using project_inv_projects [OF prj_delete_provider map_sql_update [where k = project_key]]
    by (simp add: delete_model_provider_def Let_def project_key_def)
qed (auto simp: set_project_enabled_def set_project_enabled_for_path_def clear_project_failure_backoff_for_path_def
    set_project_git_mode_def set_project_git_mode_for_path_def set_project_codex_settings_def record_project_scan_def
    record_project_daemon_scan_def project_key_def Let_def
    intro!: project_update_inv set_git_mode_inv register_write_inv unregister_inv)

interpretation full: invariant_system project_init registry_full_step project_inv
proof unfold_locales
  show "project_init db \<Longrightarrow> project_inv db" for db
    using agent.init_inv [of db] by (simp add: project_init_def project_inv_def acks_ok_def store_init_def)
  show "project_inv db'" if "project_inv db" "registry_full_step db db'" for db db'
  proof (cases "project_step db db'")
    case True
    then show ?thesis using that(1) by (rule project_step_inv)
  next
    case False
    then have step: "agent_step db db'" using that(2) by (simp add: registry_full_step_def)
    note inv = project_invD [OF that(1)]
    have "agent_inv db'" using inv(1) step by (rule agent.step_inv)
    moreover have "unique_on p_path (projects db')"
      using inv(2) project_key_paths [OF agent_step_keys [OF step]] by (simp add: unique_on_def del: map_eq_conv)
    moreover have "acks_ok db'"
      using agent_step_acks [OF step _ inv(3)] store_invD(2) [OF agent_invD(1) [OF inv(1)]] by blast
    ultimately show ?thesis by (simp add: project_inv_def)
  qed
qed

end
