(* ===== verification/Project_Theorems.thy ===== *)
theory Project_Theorems
  imports Project_Store Control_Theorems
begin

text \<open>
  The properties of projects, providers and models: the invariant of the whole store, what
  registering and unregistering do, the Git mode of the sessions a project already has, the
  references between the tables of models, and the provider whose credential a launch gets.
\<close>

section \<open>The invariant of all repositories\<close>


definition demo_unregistered :: registry where
  "demo_unregistered = snd (unregister_project
     \<lparr>own_pid = 5, process_running = (\<lambda>p. None), group_running = (\<lambda>p. None), orphan_attach = (\<lambda>c i t. Inr False),
      spawn_supervisor = (\<lambda>c. Inr ())\<rparr> (lit ''/p1'') 2000 demo_session)"

lemma demo_project_init: "project_init demo_init"
proof -
  have "unique_on p_path (projects demo_init)" by code_simp
  then show ?thesis
    using demo_init_ok by (simp add: project_init_def store_init_def demo_init_def empty_registry_def)
qed

lemma demo_session_full: "reach project_init registry_full_step demo_session"
  unfolding demo_session_def
  by (rule reach_step [OF reach_init [of project_init, OF demo_project_init]])
    (simp add: registry_full_step_def agent_step_def ses_mark)


section \<open>Unregistering\<close>

lemma sql_delete_cong: "(\<And>r. r \<in> set t \<Longrightarrow> P r = Q r) \<Longrightarrow> sql_delete P t = sql_delete Q t"
  by (simp add: sql_delete_def cong: filter_cong)

lemma sql_delete_twice: "sql_delete P (sql_delete Q t) = sql_delete (\<lambda>r. P r \<or> Q r) t"
  by (simp add: sql_delete_def conj_commute)



section \<open>Registering\<close>

text \<open>Registering a path leaves exactly one project with it, enabled and under the given name, and
  reports whether it is new; every other project is unchanged, and a new project starts without
  Git, workers, journals or a lease.\<close>

theorem register_project_spec:
  assumes "project_inv db" "register_project path name now db = (r, db')"
  shows "r = Inr (\<not> register_query db path)
    \<and> (\<exists>p. filter (by_path path) (projects db') = [p] \<and> p_name p = name \<and> p_enabled p
        \<and> (\<not> register_query db path \<longrightarrow> p_git_mode p = Off
             \<and> (\<forall>w \<in> set (workers db'). w_project w \<noteq> p_id p) \<and> (\<forall>l \<in> set (leases db'). l_project l \<noteq> p_id p)
             \<and> (\<forall>g \<in> set (journals db'). g_project g \<noteq> p_id p)))
    \<and> filter (\<lambda>p. \<not> by_path path p) (projects db') = filter (\<lambda>p. \<not> by_path path p) (projects db)"
proof (cases "register_query db path")
  case True
  note inv = project_invD [OF assms(1)]
  obtain p where p: "p \<in> set (projects db)" "by_path path p"
    using True by (auto simp: register_query_def sql_count_pos)
  let ?f = "\<lambda>p. p\<lparr>p_name := name, p_enabled := True, p_updated_at := now\<rparr>"
  have db': "db' = db\<lparr>projects := sql_update (by_path path) ?f (projects db)\<rparr>" and r: "r = Inr False"
    using assms(2) True by (auto simp: register_project_def register_write_def project_update_def)
  have path: "by_path path (?f q) = by_path path q" for q by (simp add: by_path_def)
  have "sql_count (by_path path) (projects db) = 1"
    using p by (intro unique_on_count_one [OF inv(2), of p]) (simp_all add: by_path_def)
  then have one: "filter (by_path path) (projects db) = [p]" using p by (intro sql_count_one) simp_all
  have upd: "filter (by_path path) (sql_update (by_path path) ?f t) = map ?f (filter (by_path path) t)"
    "filter (\<lambda>q. \<not> by_path path q) (sql_update (by_path path) ?f t) = filter (\<lambda>q. \<not> by_path path q) t" for t
    using path by (induction t) (auto simp: sql_update_def)
  show ?thesis using True by (simp add: r db' upd one)
next
  case False
  note inv = project_invD [OF assms(1)]
  note st = store_invD [OF agent_invD(1) [OF inv(1)]]
  note reg = registry_invD [OF st(1)]
  let ?id = "next_rowid p_id (projects db)"
  have none: "filter (by_path path) (projects db) = []" "\<not> sql_exists (by_path path) (projects db)"
    using False by (auto simp: register_query_def sql_count_pos sql_exists_iff filter_empty_conv)
  then have db': "db' = db\<lparr>projects := sql_insert (new_project ?id path name now) (projects db)\<rparr>" and r: "r = Inr True"
    using assms(2) False by (auto simp: register_project_def register_write_def)
  have "\<not> project_exists db ?id"
    using next_rowid_fresh [of _ "projects db" p_id] by (force simp: project_exists_def sql_exists_iff)
  moreover have "\<And>l. l \<in> set (leases db) \<Longrightarrow> project_exists db (l_project l)" using reg(2) by (simp add: leases_ok_def)
  ultimately have "w \<in> set (workers db) \<Longrightarrow> w_project w \<noteq> ?id" "l \<in> set (leases db) \<Longrightarrow> l_project l \<noteq> ?id"
    "g \<in> set (journals db) \<Longrightarrow> g_project g \<noteq> ?id" for w l g
    using reg(4) [of w] st(3) [of g] by metis+
  then show ?thesis using False none(1)
    by (simp add: r db' sql_insert_def new_project_def by_path_def)
qed

theorem register_project_spec_witness:
  "map p_id (filter (by_path (lit ''/q'')) (projects (snd (register_project (lit ''/q'') (lit ''q'') (lit ''2000'') demo_session)))) = [3]"
proof -
  let ?r = "register_project (lit ''/q'') (lit ''q'') (lit ''2000'') demo_session"
  have "map p_id (filter (by_path (lit ''/q'')) (projects (snd ?r))) = [3]" by code_simp
  with register_project_spec [OF full.reach_inv [OF demo_session_full] prod.collapse [symmetric], of "lit ''/q''" "lit ''q''" "lit ''2000''"]
  show ?thesis by blast
qed

text \<open>The answer of the query may be stale when the write runs: if the project was unregistered in
  between, the registration reports an existing project and registers nothing.\<close>

theorem stale_registration_lost:
  assumes "\<not> register_query db path"
  shows "register_write True path name now db = (Inr False, db)"
proof -
  have "sql_update (by_path path) f (projects db) = projects db" for f
    using assms by (auto simp: register_query_def sql_count_pos sql_update_def intro: map_idI)
  then show ?thesis by (simp add: register_write_def project_update_def)
qed

theorem stale_registration_lost_witness:
  "register_query demo_session (lit ''/p1'')
   \<and> register_write (register_query demo_session (lit ''/p1'')) (lit ''/p1'') (lit ''p'') (lit ''2001'') demo_unregistered
       = (Inr False, demo_unregistered)"
proof -
  have "register_query demo_session (lit ''/p1'')" "\<not> register_query demo_unregistered (lit ''/p1'')" by code_simp+
  with stale_registration_lost [of demo_unregistered "lit ''/p1''"] show ?thesis by simp
qed

section \<open>The Git mode of a project and of its sessions\<close>

lemma sql_select_update:
  assumes "\<And>r. Q (f r) = Q r"
  shows "sql_select Q (sql_update P f t) = map_option (\<lambda>r. if P r then f r else r) (sql_select Q t)"
  using assms by (induction t) (auto simp: sql_select_def sql_update_def)

lemma insert_or_ignore_lookup:
  "sql_select (mode_at pid sid) (insert_or_ignore_modes ms t)
    = (case sql_select (mode_at pid sid) t of Some m \<Rightarrow> Some m | None \<Rightarrow> sql_select (mode_at pid sid) ms)"
proof (induction ms t rule: insert_or_ignore_modes.induct)
  case (1 t)
  then show ?case by (simp add: sql_select_def split: list.split)
next
  case (2 m ms t)
  have "sql_select (mode_at pid sid) (sql_insert m t)
      = (case sql_select (mode_at pid sid) t of Some x \<Rightarrow> Some x | None \<Rightarrow> if mode_at pid sid m then Some m else None)"
    by (simp add: sql_select_def sql_insert_def split: list.split)
  moreover have "sql_select (mode_at pid sid) (m # ms) = (if mode_at pid sid m then Some m else sql_select (mode_at pid sid) ms)"
    by (simp add: sql_select_def)
  moreover have "mode_at pid sid m \<Longrightarrow> sql_exists (mode_at (sm_project m) (sm_session m)) t
      \<longleftrightarrow> sql_select (mode_at pid sid) t \<noteq> None"
    by (auto simp: mode_at_def sql_exists_iff sql_select_None)
  ultimately show ?case using 2 by (auto split: option.splits)
qed

text \<open>The mode a session resumes with: its own, or else the default of its project.\<close>

definition effective_git_mode :: "registry \<Rightarrow> int \<Rightarrow> str \<Rightarrow> AgentGitMode option" where
  "effective_git_mode db pid sid =
     (case session_git_mode None db pid sid of
        Some m \<Rightarrow> Some m
      | None \<Rightarrow> map_option p_git_mode (sql_select (\<lambda>p. p_id p = pid) (projects db)))"

text \<open>Changing the Git mode of a project changes the default of later launches only: a session whose
  mode is recorded keeps it, and a session that has run without Git, with neither a journal nor a
  launch boundary, still resumes without Git, whatever the new default.\<close>

theorem git_mode_change_keeps_sessions:
  assumes "project_inv db" "set_git_mode_where pending P mode now db = (r, db')"
    and "sc \<in> set (controls db)" "sc_run_token sc \<noteq> None"
    and "session_git_mode None db (sc_project sc) (sc_session sc) \<noteq> None
      \<or> effective_git_mode db (sc_project sc) (sc_session sc) = Some Off
         \<and> \<not> sql_exists (journal_at (sc_project sc) (sc_session sc)) (journals db) \<and> \<not> has_launch db (sc_project sc)"
  shows "effective_git_mode db' (sc_project sc) (sc_session sc) = effective_git_mode db (sc_project sc) (sc_session sc)"
proof -
  let ?at = "mode_at (sc_project sc) (sc_session sc)"
  have at: "(\<lambda>m. sm_project m = sc_project sc \<and> sm_session m = sc_session sc) = ?at" by (simp add: mode_at_def fun_eq_iff)
  let ?pin = "pin_unmanaged_sessions P db"
  let ?f = "\<lambda>p. p\<lparr>p_git_mode := mode, p_updated_at := now\<rparr>"
  consider "db' = db" | "db' = ?pin\<lparr>projects := sql_update P ?f (projects ?pin)\<rparr>"
    using assms(2) by (auto simp: set_git_mode_where_def project_update_def split: if_splits)
  then show ?thesis
  proof cases
    case 2
    obtain ms where modes: "session_modes db' = insert_or_ignore_modes ms (session_modes db)"
      and ms: "ms = List.map_filter (\<lambda>c. if sql_exists (\<lambda>p. P p \<and> unmanaged_control db p c) (projects db)
            then Some \<lparr>sm_project = sc_project c, sm_session = sc_session c, sm_git_mode = Off\<rparr> else None) (controls db)"
      by (simp add: 2 pin_unmanaged_sessions_def Let_def)
    have projs: "projects db' = sql_update P ?f (projects db)" by (simp add: 2 pin_unmanaged_sessions_def Let_def)
    have look: "session_git_mode None db' (sc_project sc) (sc_session sc)
        = (case session_git_mode None db (sc_project sc) (sc_session sc) of Some m \<Rightarrow> Some m
           | None \<Rightarrow> map_option sm_git_mode (sql_select ?at ms))"
      by (simp add: session_git_mode_def at modes insert_or_ignore_lookup split: option.split)
    show ?thesis
    proof (cases "session_git_mode None db (sc_project sc) (sc_session sc)")
      case (Some m)
      then show ?thesis using look by (simp add: effective_git_mode_def)
    next
      case None
      with assms(5) obtain p where p: "sql_select (\<lambda>p. p_id p = sc_project sc) (projects db) = Some p" "p_git_mode p = Off"
        and free: "\<not> sql_exists (journal_at (sc_project sc) (sc_session sc)) (journals db)" "\<not> has_launch db (sc_project sc)"
        by (auto simp: effective_git_mode_def)
      have old: "effective_git_mode db (sc_project sc) (sc_session sc) = Some Off" using None p by (simp add: effective_git_mode_def)
      have pin: "p \<in> set (projects db)" "p_id p = sc_project sc" using sql_select_Some [OF p(1)] by simp_all
      have off: "sm_git_mode m = Off" if "m \<in> set ms" for m
        using that by (auto simp: ms List.map_filter_def split: if_splits)
      show ?thesis
      proof (cases "P p")
        case True
        then have "sql_exists (\<lambda>p. P p \<and> unmanaged_control db p sc) (projects db)"
          using pin p(2) free assms(4) by (auto simp: sql_exists_iff unmanaged_control_def)
        then have "\<exists>m \<in> set ms. ?at m"
          using assms(3) unfolding ms List.map_filter_def
          by (intro bexI [where x = "\<lparr>sm_project = sc_project sc, sm_session = sc_session sc, sm_git_mode = Off\<rparr>"])
            (force simp: mode_at_def)+
        then obtain m where "sql_select ?at ms = Some m" using sql_select_None [of ?at ms] by blast
        then have "session_git_mode None db' (sc_project sc) (sc_session sc) = Some Off"
          using look None off sql_select_Some by force
        with old show ?thesis by (simp add: effective_git_mode_def)
      next
        case False
        have "sql_select (\<lambda>p. p_id p = sc_project sc) (projects db') = Some p"
          using False p(1) by (simp add: projs sql_select_update)
        moreover have "map_option sm_git_mode (sql_select ?at ms) \<in> {None, Some Off}"
          using off sql_select_Some [of ?at ms] by (cases "sql_select ?at ms") auto
        ultimately show ?thesis
          using look None p(2) old by (auto simp: effective_git_mode_def)
      qed
    qed
  qed simp
qed

definition demo_off :: registry where
  "demo_off = snd (set_project_git_mode None 1 Off (lit ''1500'') demo_session)"

lemma demo_off_reach: "reach project_init registry_full_step demo_off"
  unfolding demo_off_def by (rule reach_step [OF demo_session_full]) (simp add: registry_full_step_def prj_git_mode)

theorem git_mode_change_keeps_sessions_witness:
  "effective_git_mode (snd (set_git_mode_where None (by_id 1) CommitAndPush (lit ''1600'') demo_off)) 1 (lit ''s1'') = Some Off
   \<and> map p_git_mode (projects (snd (set_git_mode_where None (by_id 1) CommitAndPush (lit ''1600'') demo_off))) = [CommitAndPush, CommitAndPush]"
proof -
  let ?sc = "hd (controls demo_off)"
  have facts: "map p_git_mode (projects (snd (set_git_mode_where None (by_id 1) CommitAndPush (lit ''1600'') demo_off)))
      = [CommitAndPush, CommitAndPush]" "?sc \<in> set (controls demo_off)" "sc_run_token ?sc \<noteq> None"
    "effective_git_mode demo_off (sc_project ?sc) (sc_session ?sc) = Some Off"
    "\<not> sql_exists (journal_at (sc_project ?sc) (sc_session ?sc)) (journals demo_off)" "\<not> has_launch demo_off (sc_project ?sc)"
    "sc_project ?sc = 1" "sc_session ?sc = lit ''s1''" by code_simp+
  with git_mode_change_keeps_sessions [OF full.reach_inv [OF demo_off_reach] prod.collapse [symmetric], of ?sc]
  show ?thesis by metis
qed

section \<open>Providers and models\<close>

text \<open>The keys of the tables, and the reference of a model to its provider.\<close>

definition target_key :: "AgentModelTarget \<Rightarrow> str \<times> str" where
  "target_key t = (mt_provider_id t, mt_model_id t)"

definition models_inv :: "model_tables \<Rightarrow> bool" where
  "models_inv m \<longleftrightarrow> unique_on mp_id (providers m) \<and> unique_on target_key (targets m)
     \<and> (\<forall>t \<in> set (targets m). \<exists>p \<in> set (providers m). mp_id p = mt_provider_id t)"

inductive models_step :: "model_tables \<Rightarrow> model_tables \<Rightarrow> bool" where
  md_upsert_provider: "models_step m (snd (upsert_model_provider k p m))"
| md_delete_provider: "models_step m (snd (snd (delete_model_provider pr now (db, m))))"
| md_upsert_target: "models_step m (snd (upsert_model_target t m))"
| md_provider_enabled: "models_step m (snd (set_model_provider_enabled pr b m))"
| md_provider_key: "models_step m (snd (set_model_provider_api_key k pr key m))"
| md_target_flags: "models_step m (snd (set_model_target_flags pr md b f m))"
| md_target_reasoning: "models_step m (snd (set_model_target_reasoning pr md eff m))"
| md_default: "models_step m (snd (set_model_default pr md m))"

definition models_init :: "model_tables \<Rightarrow> bool" where
  "models_init m \<longleftrightarrow> providers m = [] \<and> targets m = []"

lemma models_inv_iff:
  "models_inv m \<longleftrightarrow> unique_on mp_id (providers m) \<and> unique_on target_key (targets m)
     \<and> mt_provider_id ` set (targets m) \<subseteq> mp_id ` set (providers m)"
proof -
  have "(\<exists>p \<in> S. mp_id p = x) \<longleftrightarrow> x \<in> mp_id ` S" for S :: "AgentModelProvider set" and x by (metis imageE imageI)
  then show ?thesis by (simp add: models_inv_def image_subset_iff)
qed

lemma models_invD:
  assumes "models_inv m"
  shows "unique_on mp_id (providers m)" "unique_on target_key (targets m)"
  using assms by (simp_all add: models_inv_def)

lemma map_image_set: "map k t' = map k t \<Longrightarrow> k ` set t' = k ` set t"
  by (metis list.set_map)

lemma providers_update_inv:
  assumes "models_inv m" "map mp_id ps = map mp_id (providers m)"
  shows "models_inv (m\<lparr>providers := ps\<rparr>)"
  using assms map_image_set [OF assms(2)] by (simp add: models_inv_iff unique_on_def)

lemma targets_update_inv:
  assumes "models_inv m" "map target_key ts = map target_key (targets m)"
  shows "models_inv (m\<lparr>targets := ts\<rparr>)"
proof -
  have "map fst (map target_key ts) = map fst (map target_key (targets m))" by (simp only: assms(2))
  then have "map mt_provider_id ts = map mt_provider_id (targets m)" by (simp add: target_key_def comp_def)
  then show ?thesis
    using assms map_image_set [of mt_provider_id ts "targets m"] by (simp add: models_inv_iff unique_on_def)
qed

lemma upsert_provider_inv: "models_inv m \<Longrightarrow> models_inv (snd (upsert_model_provider k p m))"
proof -
  assume inv: "models_inv m"
  have "models_inv (m\<lparr>providers := sql_insert (visible_provider k p) (providers m)\<rparr>)"
    if "\<not> sql_exists (\<lambda>q. mp_id q = mp_id p) (providers m)"
  proof -
    have "mp_id (visible_provider k p) = mp_id p" by (simp add: visible_provider_def)
    with that have "unique_on mp_id (sql_insert (visible_provider k p) (providers m))"
      using models_invD(1) [OF inv] by (intro unique_on_insert) (auto simp: sql_exists_iff)
    with inv show ?thesis by (auto simp: models_inv_iff)
  qed
  moreover have "models_inv (m\<lparr>providers := sql_update (\<lambda>q. mp_id q = mp_id p) f (providers m)\<rparr>)"
    if "\<And>q. mp_id (f q) = mp_id p" for f
    using inv that by (intro providers_update_inv) (auto simp: sql_update_def)
  ultimately show ?thesis by (simp add: upsert_model_provider_def)
qed

lemma upsert_target_inv: "models_inv m \<Longrightarrow> models_inv (snd (upsert_model_target t m))"
proof -
  assume inv: "models_inv m"
  have "models_inv (m\<lparr>targets := sql_insert t (targets m)\<rparr>)"
    if ex: "sql_exists (\<lambda>p. mp_id p = mt_provider_id t) (providers m)"
      and new: "\<not> sql_exists (target_at (mt_provider_id t) (mt_model_id t)) (targets m)"
  proof -
    have "unique_on target_key (sql_insert t (targets m))"
      using models_invD(2) [OF inv] new
      by (intro unique_on_insert) (auto simp: sql_exists_iff target_at_def target_key_def)
    moreover obtain p where "p \<in> set (providers m)" "mp_id p = mt_provider_id t"
      using ex by (auto simp: sql_exists_iff)
    then have "mt_provider_id t \<in> mp_id ` set (providers m)" by (metis imageI)
    ultimately show ?thesis using inv by (simp add: models_inv_iff)
  qed
  moreover have "models_inv (m\<lparr>targets := sql_update (target_at (mt_provider_id t) (mt_model_id t)) (\<lambda>_. t) (targets m)\<rparr>)"
    using inv by (intro targets_update_inv) (auto simp: sql_update_def target_at_def target_key_def)
  ultimately show ?thesis using inv by (simp add: upsert_model_target_def)
qed

lemma delete_provider_models_inv: "models_inv m \<Longrightarrow> models_inv (snd (snd (delete_model_provider pr now (db, m))))"
  by (auto simp: delete_model_provider_def Let_def models_inv_iff unique_on_delete)

lemma small_model_invs:
  assumes "models_inv m"
  shows "models_inv (snd (set_model_provider_enabled pr b m))" "models_inv (snd (set_model_provider_api_key k pr key m))"
    "models_inv (snd (set_model_target_flags pr md b f m))" "models_inv (snd (set_model_target_reasoning pr md eff m))"
    "models_inv (snd (set_model_default pr md m))"
proof -
  have p: "models_inv (m\<lparr>providers := sql_update P g (providers m)\<rparr>)" if "\<And>q. mp_id (g q) = mp_id q" for P g
    using assms map_sql_update [of mp_id g P, OF that] by (rule providers_update_inv)
  have t: "models_inv (m\<lparr>targets := sql_update P g (targets m)\<rparr>)" if "\<And>q. target_key (g q) = target_key q" for P g
    using assms map_sql_update [of target_key g P, OF that] by (rule targets_update_inv)
  show "models_inv (snd (set_model_provider_enabled pr b m))" "models_inv (snd (set_model_provider_api_key k pr key m))"
    "models_inv (snd (set_model_target_flags pr md b f m))" "models_inv (snd (set_model_target_reasoning pr md eff m))"
    using assms by (simp_all add: set_model_provider_enabled_def set_model_provider_api_key_def provider_update_def
        set_model_target_flags_def set_model_target_reasoning_def target_update_def p t target_key_def)
  show "models_inv (snd (set_model_default pr md m))" using assms by (simp add: set_model_default_def models_inv_iff)
qed

interpretation models: invariant_system models_init models_step models_inv
proof unfold_locales
  show "models_init m \<Longrightarrow> models_inv m" for m by (simp add: models_init_def models_inv_def)
  show "models_inv m \<Longrightarrow> models_step m m' \<Longrightarrow> models_inv m'" for m m'
    by (rotate_tac 1, induction rule: models_step.induct)
      (auto intro: upsert_provider_inv upsert_target_inv small_model_invs simp: delete_provider_models_inv)
qed

text \<open>In every state the model tables can reach, deleting a provider leaves no reference to it: no
  project selects it or a model of it, it is not the default, its models are gone, and the models
  that remain belong to providers that remain.\<close>

theorem deleted_provider_unreferenced:
  assumes "reach models_init models_step m" "delete_model_provider pr now (db, m) = (r, db', m')"
  shows "r = Inr (\<exists>p \<in> set (providers m). mp_id p = pr)
    \<and> (\<forall>p \<in> set (projects db'). p_codex_provider p \<noteq> Some pr)
    \<and> md_provider_id (model_defaults m') \<noteq> Some pr
    \<and> (\<forall>p \<in> set (providers m'). mp_id p \<noteq> pr)
    \<and> (\<forall>t \<in> set (targets m'). mt_provider_id t \<noteq> pr \<and> (\<exists>p \<in> set (providers m'). mp_id p = mt_provider_id t))"
proof -
  have inv: "models_inv m" using assms(1) by (rule models.reach_inv)
  have m': "m' = snd (snd (delete_model_provider pr now (db, m)))" using assms(2) by simp
  then have "models_inv m'" using inv delete_provider_models_inv by simp
  moreover have "md_provider_id (model_defaults m') \<noteq> Some pr"
    by (simp add: m' delete_model_provider_def Let_def model_defaults_def split: option.split)
  moreover have "\<forall>p \<in> set (projects db'). p_codex_provider p \<noteq> Some pr"
    using assms(2) by (auto simp: delete_model_provider_def Let_def set_sql_update)
  moreover have "r = Inr (\<exists>p \<in> set (providers m). mp_id p = pr)"
    using assms(2) by (auto simp: delete_model_provider_def Let_def sql_count_pos)
  moreover have "\<forall>p \<in> set (providers m'). mp_id p \<noteq> pr" "\<forall>t \<in> set (targets m'). mt_provider_id t \<noteq> pr"
    by (simp_all add: m' delete_model_provider_def Let_def)
  ultimately show ?thesis unfolding models_inv_def by blast
qed

definition demo_models :: model_tables where
  "demo_models = snd (upsert_model_target \<lparr>mt_provider_id = lit ''x'', mt_model_id = lit ''m'', mt_label = lit ''M'',
     mt_enabled = True, mt_favorite = False, mt_reasoning_effort = None\<rparr>
   (snd (upsert_model_provider True \<lparr>mp_id = lit ''x'', mp_name = lit ''X'', mp_base_url = None, mp_env_key = None,
     mp_api_key = None, mp_built_in = False, mp_enabled = True\<rparr>
     \<lparr>providers = [], targets = [], settings = Some \<lparr>md_provider_id = Some (lit ''x''), md_model_id = Some (lit ''m'')\<rparr>\<rparr>)))"

lemma demo_models_reach: "reach models_init models_step demo_models"
  unfolding demo_models_def
proof (rule reach_step [of models_init models_step, OF _ md_upsert_target],
    rule reach_step [of models_init models_step, OF _ md_upsert_provider])
  let ?m = "\<lparr>providers = [], targets = [], settings = Some \<lparr>md_provider_id = Some (lit ''x''), md_model_id = Some (lit ''m'')\<rparr>\<rparr>"
  show "reach models_init models_step ?m" by (rule reach_init) (simp add: models_init_def)
qed

theorem deleted_provider_unreferenced_witness:
  "length (targets demo_models) = 1
   \<and> md_provider_id (model_defaults (snd (snd (delete_model_provider (lit ''x'') (lit ''2000'') (demo_session, demo_models))))) \<noteq> Some (lit ''x'')"
proof -
  have "length (targets demo_models) = 1" by code_simp
  moreover obtain r db' m' where d: "delete_model_provider (lit ''x'') (lit ''2000'') (demo_session, demo_models) = (r, db', m')"
    by (metis prod.collapse)
  ultimately show ?thesis using deleted_provider_unreferenced [OF demo_models_reach d] by simp
qed

end
