(* ===== verification/Markdown_Board.thy ===== *)
theory Markdown_Board
  imports Task_Text "HOL-Library.Multiset"
begin

text \<open>
  Boards kept in Markdown files (\<^verbatim>\<open>src/src/task.rs\<close>): one file per status, one line per task.  Each
  operation is a function on the text of the file it reads and rewrites; the abstraction is
  the list of task lines, and every operation implements a list operation on it.
\<close>

section \<open>Files as lines\<close>

definition TASK_PREFIX :: str where "TASK_PREFIX = lit ''- ''"

definition is_task_line :: "str \<Rightarrow> bool" where
  "is_task_line line = starts_with line TASK_PREFIX"

definition write_lines :: "str list \<Rightarrow> str" where
  "write_lines ls =
     (let updated = join [10] ls in if updated = [] then updated else updated @ [10])"

fun enumerate_from :: "nat \<Rightarrow> 'a list \<Rightarrow> (nat \<times> 'a) list" where
  "enumerate_from n [] = []"
| "enumerate_from n (x # xs) = (n, x) # enumerate_from (Suc n) xs"

definition read_markdown_entries :: "str \<Rightarrow> TaskEntry list" where
  "read_markdown_entries content =
     List.map_filter (\<lambda>(line_index, line).
        map_option (\<lambda>t. task_entry_from_text (MarkdownLine line_index) t t False)
          (strip_prefix line TASK_PREFIX)) (enumerate_from 0 (lines content))"

definition task_lines :: "str list \<Rightarrow> nat list" where
  "task_lines ls = map fst (filter (\<lambda>(_, line). is_task_line line) (enumerate_from 0 ls))"

definition insert_at :: "nat \<Rightarrow> 'a \<Rightarrow> 'a list \<Rightarrow> 'a list" where
  "insert_at i x xs = take i xs @ x # drop i xs"

definition remove_at :: "nat \<Rightarrow> 'a list \<Rightarrow> 'a list" where
  "remove_at i xs = take i xs @ drop (Suc i) xs"

definition insert_content_into_markdown :: "str \<Rightarrow> nat option \<Rightarrow> str \<Rightarrow> str" where
  "insert_content_into_markdown file index content =
     (let task_line = TASK_PREFIX @ single_line_content content; ls = lines file in
      write_lines
        (case index of
           Some idx \<Rightarrow> if idx < length (task_lines ls) then insert_at (task_lines ls ! idx) task_line ls
                       else ls @ [task_line]
         | None \<Rightarrow> ls @ [task_line]))"

definition remove_markdown_line :: "str \<Rightarrow> nat \<Rightarrow> str result" where
  "remove_markdown_line file line_index =
     (let ls = lines file in
      if line_index \<ge> length ls then Inl ''Task storage changed while removing task.''
      else Inr (write_lines (remove_at line_index ls)))"

definition write_markdown_line :: "str \<Rightarrow> TaskEntry \<Rightarrow> nat \<Rightarrow> str \<Rightarrow> str result" where
  "write_markdown_line file entry line_index content =
     (let ls = lines file in
      if line_index \<ge> length ls then Inl ''Task storage changed while updating task.''
      else if strip_prefix (ls ! line_index) TASK_PREFIX \<noteq> Some (t_content entry)
      then Inl ''Task content changed while updating task; retry with a fresh read.''
      else Inr (write_lines (ls[line_index := TASK_PREFIX @ single_line_content content])))"

definition reorder_markdown_task :: "str \<Rightarrow> nat \<Rightarrow> nat \<Rightarrow> str result" where
  "reorder_markdown_task file from_idx to_idx =
     (let ls = lines file; task_indices = task_lines ls in
      if from_idx \<ge> length task_indices then Inl ''Task index out of range''
      else
        let actual_from_idx = task_indices ! from_idx;
            task_line = ls ! actual_from_idx;
            new_lines = remove_at actual_from_idx ls;
            new_task_indices = task_lines new_lines;
            insert_at_idx = (if to_idx < length new_task_indices then new_task_indices ! to_idx
                             else length new_lines)
        in Inr (write_lines (insert_at insert_at_idx task_line new_lines)))"

section \<open>Boards whose stores are all Markdown files\<close>

type_synonym md_board = "TaskStatus \<Rightarrow> str"

definition md_task_entry_at :: "md_board \<Rightarrow> TaskStatus \<Rightarrow> nat \<Rightarrow> TaskEntry result" where
  "md_task_entry_at board status task_index =
     (let entries = read_markdown_entries (board status) in
      if 0 < task_index \<and> task_index - 1 < length entries then Inr (entries ! (task_index - 1))
      else Inl ''Task index out of range.'')"

definition md_remove_task_entry :: "md_board \<Rightarrow> TaskStatus \<Rightarrow> TaskEntry \<Rightarrow> md_board result" where
  "md_remove_task_entry board status entry =
     (case t_source entry of
        MarkdownLine line_index \<Rightarrow>
          result_bind (remove_markdown_line (board status) line_index) (\<lambda>f. Inr (board(status := f)))
      | PathSource _ _ \<Rightarrow> Inl ''Failed to remove task file'')"

definition md_insert_task_content :: "md_board \<Rightarrow> TaskStatus \<Rightarrow> nat option \<Rightarrow> str \<Rightarrow> md_board" where
  "md_insert_task_content board status index content =
     board(status := insert_content_into_markdown (board status) index content)"

definition md_write_task_entry_content ::
  "md_board \<Rightarrow> TaskStatus \<Rightarrow> TaskEntry \<Rightarrow> str \<Rightarrow> md_board result" where
  "md_write_task_entry_content board status entry content =
     (case t_source entry of
        MarkdownLine line_index \<Rightarrow>
          result_bind (write_markdown_line (board status) entry line_index content)
            (\<lambda>f. Inr (board(status := f)))
      | PathSource _ _ \<Rightarrow> Inl ''Task storage changed while updating task.'')"

definition md_move_task :: "md_board \<Rightarrow> TaskStatus \<Rightarrow> TaskStatus \<Rightarrow> nat \<Rightarrow> md_board result" where
  "md_move_task board from_status to_status task_index =
     result_bind (md_task_entry_at board from_status task_index) (\<lambda>entry.
       if from_status = to_status then Inr board
       else let dest_index = (if to_status = Done then Some 0 else None)
            in md_remove_task_entry (md_insert_task_content board to_status dest_index (t_content entry))
                 from_status entry)"

definition md_prioritize_task :: "md_board \<Rightarrow> TaskStatus \<Rightarrow> TaskEntry \<Rightarrow> md_board result" where
  "md_prioritize_task board status entry =
     (case position (\<lambda>t. t_source t = t_source entry \<and> t_content t = t_content entry)
             (read_markdown_entries (board status)) of
        None \<Rightarrow> Inl ''Task disappeared before prioritization''
      | Some index \<Rightarrow>
          result_bind (reorder_markdown_task (board status) index 0) (\<lambda>f. Inr (board(status := f))))"

definition md_task_for_codex_session :: "md_board \<Rightarrow> str \<Rightarrow> bool \<Rightarrow> (TaskStatus \<times> TaskEntry) option" where
  "md_task_for_codex_session board sid recover_displaced_marker =
     find (\<lambda>(_, task). (if recover_displaced_marker
                         then recoverable_codex_session_id_from_task_content (t_content task)
                         else codex_session_id_from_task_content (t_content task)) = Some sid)
       (concat (map (\<lambda>status. map (Pair status) (read_markdown_entries (board status)))
          SESSION_SEARCH_ORDER))"

definition md_board_has_manual_task :: "md_board \<Rightarrow> str option \<Rightarrow> bool" where
  "md_board_has_manual_task board session =
     list_ex (\<lambda>status. list_ex (\<lambda>task. task_content_is_manual (t_content task)
           \<and> (case session of None \<Rightarrow> True
              | Some s \<Rightarrow> recoverable_codex_session_id_from_task_content (t_content task) = Some s))
         (read_markdown_entries (board status))) [Backlog, Todo, Doing]"

definition md_attach_codex_session ::
  "md_board \<Rightarrow> TaskStatus \<Rightarrow> TaskEntry \<Rightarrow> str \<Rightarrow> (str \<times> md_board) result" where
  "md_attach_codex_session board status entry sid =
     (case md_task_for_codex_session board sid True of
        Some (_, existing) \<Rightarrow>
          if t_source existing \<noteq> t_source entry
             \<or> codex_session_id_from_task_content (t_content existing) = Some sid
          then Inr (t_content existing, board)
          else let content = task_content_with_codex_session (t_content existing) sid
               in result_bind (md_write_task_entry_content board status existing content)
                    (\<lambda>b. Inr (content, b))
      | None \<Rightarrow>
          (case find (\<lambda>current. t_source current = t_source entry) (read_markdown_entries (board status)) of
             None \<Rightarrow> Inl ''Task storage changed before its Codex session could be attached''
           | Some current \<Rightarrow>
               if t_content current \<noteq> t_content entry
               then Inl ''Task content changed before its Codex session could be attached; retry''
               else if \<not> (case recoverable_codex_session_id_from_task_content (t_content current) of
                            None \<Rightarrow> True | Some owner \<Rightarrow> owner = sid)
               then Inl ''Task already belongs to another Codex session; preserve its existing task and Git journal''
               else let content = task_content_with_codex_session (t_content current) sid
                    in result_bind (md_write_task_entry_content board status current content)
                         (\<lambda>b. Inr (content, b))))"

end
