(* ===== verification/Markdown_Refinement.thy ===== *)
theory Markdown_Refinement
  imports Markdown_Board
begin

text \<open>
  The Markdown board implements lists of tasks: the text of a file stands for the list of its
  task lines, and inserting, removing, rewriting and reordering are the list operations.
\<close>

section \<open>Reading back what was written\<close>

definition clean_line :: "str \<Rightarrow> bool" where
  "clean_line l \<longleftrightarrow> 10 \<notin> set l \<and> (l = [] \<or> last l \<noteq> 13)"

lemma split_inclusive_nl_line:
  "10 \<notin> set l \<Longrightarrow> split_inclusive_nl (l @ 10 # rest) = (l @ [10]) # split_inclusive_nl rest"
  by (induction l) auto

lemma strip_line_ending_clean: "clean_line l \<Longrightarrow> strip_line_ending (l @ [10]) = l"
  by (auto simp: strip_line_ending_def clean_line_def strip_suffix_Some split: option.splits)

lemma lines_line: "clean_line l \<Longrightarrow> lines (l @ 10 # rest) = l # lines rest"
  by (simp add: lines_def clean_line_def split_inclusive_nl_line strip_line_ending_clean)

lemma lines_join:
  "list_all clean_line ls \<Longrightarrow> ls \<noteq> [] \<Longrightarrow> lines (join [10] ls @ [10]) = ls"
proof (induction ls rule: induct_list012)
  case (2 l)
  then show ?case using lines_line [of l "[]"] by (simp add: lines_def)
next
  case (3 l k ls)
  then show ?case using lines_line [of l "join [10] (k # ls) @ [10]"] by simp
qed simp

lemma join_Nil: "join [10] ls = [] \<longleftrightarrow> ls = [] \<or> ls = [[]]"
  by (cases ls rule: remdups_adj.cases) auto

lemma lines_write_lines:
  assumes "list_all clean_line ls"
  shows "filter is_task_line (lines (write_lines ls)) = filter is_task_line ls"
proof (cases "join [10] ls = []")
  case True
  then show ?thesis
    by (auto simp: write_lines_def join_Nil lines_def is_task_line_def TASK_PREFIX_def starts_with_def lit_def)
next
  case False
  then have "ls \<noteq> []" by auto
  with False assms show ?thesis by (simp add: write_lines_def Let_def lines_join)
qed

lemma split_inclusive_nl_chars: "l \<in> set (split_inclusive_nl s) \<Longrightarrow> set l \<subseteq> set s \<and> 10 \<notin> set (butlast l)"
proof (induction s arbitrary: l)
  case (Cons c s)
  show ?case
  proof (cases "c = 10")
    case True
    then show ?thesis using Cons by auto
  next
    case False
    show ?thesis
    proof (cases "split_inclusive_nl s")
      case Nil
      then show ?thesis using Cons False by simp
    next
      case (Cons a as)
      then show ?thesis
        using Cons.IH [of a] Cons.IH [of l] Cons.prems False by (auto split: if_splits)
    qed
  qed
qed simp

lemma strip_line_ending_cases:
  assumes "strip_line_ending l = l'"
  obtains "l' = l" "\<not> ends_with l [10]" | "l = l' @ [10]" | "l = l' @ [13, 10]"
  using assms
  by (auto simp: strip_line_ending_def strip_suffix_Some strip_suffix_def ends_with_iff split: option.splits if_splits)

lemma lines_clean:
  assumes "l \<in> set (lines s)" "13 \<notin> set s"
  shows "clean_line l"
proof -
  obtain r where r: "r \<in> set (split_inclusive_nl s)" "strip_line_ending r = l"
    using assms(1) by (auto simp: lines_def)
  note ch = split_inclusive_nl_chars [OF r(1)]
  from r(2) show ?thesis
  proof (cases rule: strip_line_ending_cases)
    case 1
    then have "10 \<notin> set r"
      using ch by (cases r rule: rev_cases) (auto simp: ends_with_iff)
    moreover have "r \<noteq> [] \<Longrightarrow> last r \<in> set s" using ch last_in_set [of r] by blast
    ultimately show ?thesis using 1 assms(2) by (auto simp: clean_line_def)
  next
    case 2
    then have "l \<noteq> [] \<Longrightarrow> last l \<in> set s" using ch last_in_set [of l] by auto
    with 2 show ?thesis using ch assms(2) by (auto simp: clean_line_def)
  next
    case 3
    then show ?thesis using ch assms(2) by auto
  qed
qed

section \<open>The tasks of a file\<close>

definition md_tasks :: "str \<Rightarrow> str list" where
  "md_tasks file = map (drop (length TASK_PREFIX)) (filter is_task_line (lines file))"

lemma task_entry_from_text_content [simp]: "t_content (task_entry_from_text src t c b) = c"
  by (simp add: task_entry_from_text_def Let_def split: prod.splits)

lemma task_entry_from_text_source [simp]: "t_source (task_entry_from_text src t c b) = src"
  by (simp add: task_entry_from_text_def Let_def split: prod.splits)

lemma map_filter_enumerate:
  "map t_content (List.map_filter (\<lambda>(i, line). map_option (\<lambda>t. task_entry_from_text (MarkdownLine i) t t False)
       (strip_prefix line TASK_PREFIX)) (enumerate_from n ls))
   = map (drop (length TASK_PREFIX)) (filter is_task_line ls)"
  by (induction ls arbitrary: n)
     (auto simp: strip_prefix_def is_task_line_def)

lemma md_tasks_entries: "md_tasks file = map t_content (read_markdown_entries file)"
  by (simp add: md_tasks_def read_markdown_entries_def map_filter_enumerate)

text \<open>The position of the \<open>k\<close>-th element with a property.\<close>

lemma positions_Suc:
  "map fst (filter (\<lambda>(_, x). P x) (enumerate_from (Suc n) xs)) = map Suc (map fst (filter (\<lambda>(_, x). P x) (enumerate_from n xs)))"
  by (induction xs arbitrary: n) auto

lemma task_lines_Nil [simp]: "task_lines [] = []"
  by (simp add: task_lines_def)

lemma task_lines_Cons:
  "task_lines (x # xs) = (if is_task_line x then [0] else []) @ map Suc (task_lines xs)"
  unfolding task_lines_def using positions_Suc [of is_task_line 0 xs] by simp

lemma length_task_lines: "length (task_lines ls) = length (filter is_task_line ls)"
  by (induction ls) (simp_all add: task_lines_Cons)

lemma task_lines_nth:
  assumes "k < length (task_lines ls)"
  shows "task_lines ls ! k < length ls \<and> is_task_line (ls ! (task_lines ls ! k))
    \<and> filter is_task_line (take (task_lines ls ! k) ls) = take k (filter is_task_line ls)
    \<and> filter is_task_line (drop (task_lines ls ! k) ls) = drop k (filter is_task_line ls)"
  using assms
proof (induction ls arbitrary: k)
  case (Cons x ls)
  show ?case
  proof (cases "is_task_line x")
    case True
    then show ?thesis using Cons.IH [of "k - 1"] Cons.prems by (cases k) (auto simp: task_lines_Cons)
  next
    case False
    then show ?thesis using Cons.IH [of k] Cons.prems by (auto simp: task_lines_Cons)
  qed
qed simp

lemma filter_insert_task:
  assumes "k < length (task_lines ls)" "is_task_line x"
  shows "filter is_task_line (insert_at (task_lines ls ! k) x ls) = insert_at k x (filter is_task_line ls)"
  using task_lines_nth [OF assms(1)] assms(2) by (simp add: insert_at_def)

lemma filter_remove_task:
  assumes "k < length (task_lines ls)"
  shows "filter is_task_line (remove_at (task_lines ls ! k) ls) = remove_at k (filter is_task_line ls)"
proof -
  let ?i = "task_lines ls ! k"
  note nth = task_lines_nth [OF assms]
  have "drop ?i ls = ls ! ?i # drop (Suc ?i) ls" using nth by (simp add: Cons_nth_drop_Suc)
  then have "filter is_task_line (drop (Suc ?i) ls) = tl (drop k (filter is_task_line ls))" using nth by (metis filter.simps(2) list.sel(3))
  then show ?thesis using nth by (simp add: remove_at_def tl_drop drop_Suc)
qed

section \<open>Task lines have no line ends\<close>

text \<open>Trimming and removing markers only drop characters.\<close>

lemma set_trim_end: "set (trim_end s) \<subseteq> set s"
  by (auto simp: trim_end_def trim_end_by_def dest: set_dropWhileD)

lemma set_trim: "set (trim s) \<subseteq> set s"
  using set_trim_end [of s] by (auto simp: trim_def trim_start_def trim_start_by_def dest: set_dropWhileD)

lemma set_without_stop_marker: "set (task_content_without_stop_marker s) \<subseteq> set s"
proof -
  have "set (trim_end u) \<subseteq> set s" if "trim_end s = u @ TASK_STOPPED_MARKER" for u
    using that set_trim_end [of s] set_trim_end [of u] by auto
  then show ?thesis
    by (auto simp: task_content_without_stop_marker_def strip_suffix_Some split: option.splits)
qed

lemma set_without_codex_session: "set (task_content_without_codex_session s) \<subseteq> set s"
proof -
  have "set (trim_end (take k (trim_end s))) \<subseteq> set s" for k
    using set_trim_end [of "take k (trim_end s)"] set_take_subset [of k "trim_end s"] set_trim_end [of s] by blast
  then show ?thesis
    using set_trim_end [of s] by (auto simp: task_content_without_codex_session_def Let_def split: option.splits)
qed

lemma set_drop_session_markers:
  "set (fst (drop_session_markers c sid ms (r, k))) \<subseteq> set r \<union> set c"
  unfolding drop_session_markers_def
proof (induction ms arbitrary: r k)
  case (Cons m ms)
  obtain start e cand where m: "m = (start, e, cand)" by (cases m)
  show ?case
    unfolding m fold_Cons o_def
    using Cons [of r k] Cons [of "r @ take ((if take start c \<noteq> [] \<and> last (take start c) \<in> {32, 9}
                    then start - 1 else start) - k) (drop k c)" e]
    by (auto simp: Let_def dest!: in_set_takeD in_set_dropD split: if_splits)
qed simp

lemma set_without_matching: "set (task_content_without_matching_codex_sessions c sid) \<subseteq> set c"
proof -
  obtain r k where rk: "drop_session_markers c sid (codex_session_markers_in_task_content c) ([], 0) = (r, k)"
    by fastforce
  have "set r \<subseteq> set c" using set_drop_session_markers [of c sid _ "[]" 0] rk by (metis fst_conv list.set(1) sup_bot_left)
  then show ?thesis
    using set_trim_end [of "r @ drop k c"] set_drop_subset [of k c]
    by (auto simp: task_content_without_matching_codex_sessions_def rk)
qed

lemma set_without_recoverable: "set (task_content_without_recoverable_codex_session c) \<subseteq> set c"
  using set_trim_end [of c] set_without_matching [of "trim_end c"]
  by (auto simp: task_content_without_recoverable_codex_session_def Let_def split: option.splits)

text \<open>A recovered session id is a valid one.\<close>

lemma codex_session_id_valid: "codex_session_id_from_task_content c = Some s \<Longrightarrow> valid_session s"
  by (auto simp: codex_session_id_from_task_content_def split: option.splits if_splits)

lemma codex_markers_valid:
  "(i, e, s) \<in> set (codex_session_markers_in_task_content c) \<Longrightarrow> valid_session s"
  by (auto simp: codex_session_markers_in_task_content_def map_filter_def codex_marker_at_def Let_def
      split: option.splits if_splits)

lemma recoverable_valid:
  assumes "recoverable_codex_session_id_from_task_content c = Some s"
  shows "valid_session s"
proof (cases "codex_session_id_from_task_content (task_content_without_stop_marker c)")
  case None
  let ?ms = "codex_session_markers_in_task_content (task_content_without_stop_marker c)"
  obtain i e rest P where "filter P ?ms = (i, e, s) # rest"
    using assms None
    by (auto simp: recoverable_codex_session_id_from_task_content_def Let_def split: list.splits if_splits)
  then have "(i, e, s) \<in> set (filter P ?ms)" by simp
  then have "(i, e, s) \<in> set ?ms" by simp
  then show ?thesis by (rule codex_markers_valid)
next
  case (Some t)
  then show ?thesis
    using assms codex_session_id_valid
    by (auto simp: recoverable_codex_session_id_from_task_content_def Let_def)
qed

lemma lines_no_nl:
  assumes "l \<in> set (lines s)"
  shows "10 \<notin> set l"
proof -
  obtain r where r: "r \<in> set (split_inclusive_nl s)" "strip_line_ending r = l"
    using assms by (auto simp: lines_def)
  note ch = split_inclusive_nl_chars [OF r(1)]
  have r1: "10 \<notin> set r" if "\<not> ends_with r [10]"
    using ch that by (cases r rule: rev_cases) (auto simp: ends_with_iff)
  from r(2) show ?thesis
    by (cases rule: strip_line_ending_cases) (use ch r1 in \<open>auto simp: butlast_append\<close>)
qed

lemma set_join: "set (join sep ls) \<subseteq> set sep \<union> \<Union> (set ` set ls)"
  by (induction sep ls rule: join.induct) auto

lemma last_join: "ls \<noteq> [] \<Longrightarrow> last ls \<noteq> [] \<Longrightarrow> join sep ls \<noteq> [] \<and> last (join sep ls) = last (last ls)"
  by (induction sep ls rule: join.induct) auto

lemma last_join_Nil: "join [c] ls \<noteq> [] \<Longrightarrow> last ls = [] \<Longrightarrow> last (join [c] ls) = c"
proof (induction "[c]" ls rule: join.induct)
  case (3 l v va)
  then show ?case by (cases "join [c] (v # va) = []") auto
qed auto

lemma trim_last: "trim s \<noteq> [] \<Longrightarrow> \<not> is_ws (last (trim s))"
proof -
  assume ne: "trim s \<noteq> []"
  have "\<exists>u. trim_end s = u @ trim s"
    unfolding trim_def trim_start_def trim_start_by_def by (metis takeWhile_dropWhile_id)
  then obtain u where "trim_end s = u @ trim s" by blast
  with ne trim_end_last [of s] show ?thesis by simp
qed

lemma set_normalize_line: "set (normalize_line l) \<subseteq> set l"
proof -
  have d: "set (trim_start (trim_start_by is_hash l)) \<subseteq> set l"
    by (auto simp: trim_start_def trim_start_by_def dest!: set_dropWhileD)
  have "set (trim t) \<subseteq> set l" if "trim_start (trim_start_by is_hash l) = p @ t" for p t
    using that d set_trim [of t] by auto
  then show ?thesis
    using set_trim [of l] unfolding normalize_line_def
    by (auto simp: strip_prefix_Some split: option.splits)
qed

lemma normalize_no_nl: "10 \<notin> set (normalize_task_text c)"
proof
  assume "10 \<in> set (normalize_task_text c)"
  then obtain l where l: "l \<in> set (lines (task_content_without_recoverable_codex_session c))" "10 \<in> set (normalize_line (trim l))"
    unfolding normalize_task_text_def by (auto dest!: subsetD [OF set_join])
  then have "10 \<in> set l" using set_normalize_line [of "trim l"] set_trim [of l] by blast
  with lines_no_nl [OF l(1)] show False by simp
qed

lemma normalize_last: "normalize_task_text c \<noteq> [] \<Longrightarrow> last (normalize_task_text c) \<noteq> 13"
proof -
  assume ne: "normalize_task_text c \<noteq> []"
  obtain ls where ls: "normalize_task_text c = join [32] (map normalize_line ls)"
    unfolding normalize_task_text_def by blast
  with ne have "ls \<noteq> []" by auto
  then have lst: "last (map normalize_line ls) = normalize_line (last ls)" by (simp add: last_map)
  show ?thesis
  proof (cases "normalize_line (last ls) = []")
    case True
    then show ?thesis using last_join_Nil [of 32 "map normalize_line ls"] ne ls lst by simp
  next
    case False
    then have "\<not> is_ws (last (normalize_line (last ls)))"
      unfolding normalize_line_def by (rule trim_last)
    then show ?thesis
      using last_join [of "map normalize_line ls"] \<open>ls \<noteq> []\<close> lst ls False by (auto simp: is_ws_def)
  qed
qed

lemma not_ws_clean: "list_all (\<lambda>c. \<not> is_ws c) w \<Longrightarrow> w \<noteq> [] \<Longrightarrow> 10 \<notin> set w \<and> last w \<noteq> 13"
proof -
  assume w: "list_all (\<lambda>c. \<not> is_ws c) w" "w \<noteq> []"
  have "is_ws 10" "is_ws 13" by (simp_all add: is_ws_def)
  with w show ?thesis by (metis last_in_set list_all_iff)
qed

lemma with_codex_session_clean:
  assumes "10 \<notin> set c" "valid_session s"
  shows "clean_line (task_content_with_codex_session c s)"
proof -
  let ?c = "task_content_without_matching_codex_sessions
    (task_content_without_codex_session (task_content_without_stop_marker c)) s"
  have nl: "10 \<notin> set ?c"
    using assms(1) set_without_matching set_without_codex_session set_without_stop_marker by blast
  let ?w = "CODEX_TASK_SESSION_PREFIX @ s"
  have w: "10 \<notin> set ?w" "last ?w \<noteq> 13" "?w \<noteq> []"
    using not_ws_clean [OF session_word [OF assms(2)]] marker_words(8) by auto
  moreover have "10 \<notin> set TASK_STOPPED_MARKER" "last TASK_STOPPED_MARKER \<noteq> 13" "TASK_STOPPED_MARKER \<noteq> []"
    using not_ws_clean [OF marker_words(1,2)] marker_words(2) by auto
  ultimately show ?thesis
    using nl by (auto simp: task_content_with_codex_session_def Let_def clean_line_def)
qed

lemma single_line_clean: "clean_line (single_line_content c)"
proof (cases "recoverable_codex_session_id_from_task_content c")
  case None
  then show ?thesis
    using normalize_no_nl [of c] normalize_last [of c] by (auto simp: single_line_content_def clean_line_def)
next
  case (Some s)
  then show ?thesis
    using with_codex_session_clean [OF normalize_no_nl recoverable_valid]
    by (simp add: single_line_content_def)
qed

end
