(* ===== verification/Board_Theorems.thy ===== *)
theory Board_Theorems
  imports Markdown_Refinement
begin

text \<open>
  The interface of a task store, its interpretation on Markdown files, and the theorems on
  inserting, removing, rewriting, reordering and moving tasks.
\<close>

section \<open>The interface of a task store\<close>

lemma mset_insert_at: "mset (insert_at i x xs) = mset xs + {#x#}"
proof -
  have "mset (take i xs) + mset (drop i xs) = mset xs" by (metis append_take_drop_id mset_append)
  then show ?thesis by (simp add: insert_at_def)
qed

text \<open>A store holds a list of tasks in order; inserting normalises the text of the task.\<close>

locale task_store =
  fixes tasks :: "'s \<Rightarrow> 'c list" and norm :: "'c \<Rightarrow> 'c" and ins :: "'s \<Rightarrow> nat option \<Rightarrow> 'c \<Rightarrow> 's"
    and rem :: "'s \<Rightarrow> nat \<Rightarrow> 's" and valid :: "'s \<Rightarrow> bool"
  assumes ins_end: "valid s \<Longrightarrow> tasks (ins s None c) = tasks s @ [norm c]"
    and ins_at: "valid s \<Longrightarrow> tasks (ins s (Some i) c) = insert_at (min i (length (tasks s))) (norm c) (tasks s)"
    and rem_at: "valid s \<Longrightarrow> k < length (tasks s) \<Longrightarrow> tasks (rem s k) = remove_at k (tasks s)"
    and valid_ins: "valid s \<Longrightarrow> valid (ins s j c)"
    and valid_rem: "valid s \<Longrightarrow> k < length (tasks s) \<Longrightarrow> valid (rem s k)"
begin

lemma length_ins: "valid s \<Longrightarrow> length (tasks (ins s j c)) = Suc (length (tasks s))"
  by (cases j) (auto simp: ins_end ins_at insert_at_def)

lemma length_rem: "valid s \<Longrightarrow> k < length (tasks s) \<Longrightarrow> Suc (length (tasks (rem s k))) = length (tasks s)"
  by (auto simp: rem_at remove_at_def)

lemma mset_ins:
  assumes "valid s"
  shows "mset (tasks (ins s j c)) = mset (tasks s) + {#norm c#}"
proof (cases j)
  case (Some i)
  then show ?thesis using assms by (simp add: ins_at mset_insert_at)
qed (simp add: assms ins_end)

lemma mset_rem:
  assumes "valid s" "k < length (tasks s)"
  shows "mset (tasks (rem s k)) + {#tasks s ! k#} = mset (tasks s)"
proof -
  have "tasks s = take k (tasks s) @ tasks s ! k # drop (Suc k) (tasks s)" using assms(2) by (rule id_take_nth_drop)
  then have "mset (tasks s) = mset (take k (tasks s)) + mset (drop (Suc k) (tasks s)) + {#tasks s ! k#}"
    by (metis add_mset_add_single mset.simps(2) mset_append union_mset_add_mset_right)
  then show ?thesis using assms by (simp add: rem_at remove_at_def)
qed

text \<open>Moving a task loses and duplicates nothing.\<close>

lemma move_conserves:
  assumes "valid src" "valid dst" "k < length (tasks src)"
  shows "mset (tasks (rem src k)) + mset (tasks (ins dst j (tasks src ! k))) + {#tasks src ! k#}
    = mset (tasks src) + mset (tasks dst) + {#norm (tasks src ! k)#}"
  using mset_rem [OF assms(1,3)] mset_ins [OF assms(2), of j "tasks src ! k"]
  by (metis (no_types, opaque_lifting) add.assoc add.commute)

end

section \<open>Markdown files are task stores\<close>

definition md_valid :: "str \<Rightarrow> bool" where
  "md_valid file \<longleftrightarrow> list_all clean_line (lines file)"

lemma md_valid_no_cr: "13 \<notin> set file \<Longrightarrow> md_valid file"
  using lines_clean by (auto simp: md_valid_def list_all_iff)

lemma lines_Nil [simp]: "lines [] = []" by (simp add: lines_def)

lemma md_valid_write: "list_all clean_line ls \<Longrightarrow> md_valid (write_lines ls)"
  by (cases "ls = []"; cases "join [10] ls = []") (auto simp: md_valid_def write_lines_def Let_def lines_join)

lemma md_tasks_write:
  "list_all clean_line ls \<Longrightarrow> md_tasks (write_lines ls) = map (drop (length TASK_PREFIX)) (filter is_task_line ls)"
  by (simp add: md_tasks_def lines_write_lines)

definition task_line :: "str \<Rightarrow> str" where
  "task_line c = TASK_PREFIX @ single_line_content c"

lemma task_line_props [simp]:
  "is_task_line (task_line c)" "clean_line (task_line c)" "drop (length TASK_PREFIX) (task_line c) = single_line_content c"
proof -
  have "10 \<notin> set TASK_PREFIX" "TASK_PREFIX \<noteq> []" "last TASK_PREFIX \<noteq> 13"
    by (simp_all add: TASK_PREFIX_def lit_def)
  then show "clean_line (task_line c)"
    using single_line_clean [of c]
    by (cases "single_line_content c = []") (auto simp: task_line_def clean_line_def)
qed (simp_all add: task_line_def is_task_line_def)

lemma map_insert_at: "map f (insert_at i x xs) = insert_at i (f x) (map f xs)"
  by (simp add: insert_at_def take_map drop_map)

lemma map_remove_at: "map f (remove_at i xs) = remove_at i (map f xs)"
  by (simp add: remove_at_def take_map drop_map)

lemma insert_at_length: "insert_at (length xs) x xs = xs @ [x]"
  by (simp add: insert_at_def)

lemma clean_insert_at: "list_all P ls \<Longrightarrow> P x \<Longrightarrow> list_all P (insert_at i x ls)"
  by (auto simp: insert_at_def list_all_iff dest: in_set_takeD in_set_dropD)

lemma clean_remove_at: "list_all P ls \<Longrightarrow> list_all P (remove_at i ls)"
  by (auto simp: remove_at_def list_all_iff dest: in_set_takeD in_set_dropD)

lemma length_md_tasks: "length (md_tasks f) = length (task_lines (lines f))"
  by (simp add: md_tasks_def length_task_lines)

lemma insert_markdown_tasks:
  assumes "md_valid f"
  shows "md_tasks (insert_content_into_markdown f None c) = md_tasks f @ [single_line_content c]"
    "md_tasks (insert_content_into_markdown f (Some i) c) = insert_at (min i (length (md_tasks f))) (single_line_content c) (md_tasks f)"
    "md_valid (insert_content_into_markdown f j c)"
proof -
  have cl: "list_all clean_line (lines f)" using assms by (simp add: md_valid_def)
  then have cl': "list_all clean_line (lines f @ [task_line c])" by simp
  have app: "md_tasks (write_lines (lines f @ [task_line c])) = md_tasks f @ [single_line_content c]"
    unfolding md_tasks_write [OF cl'] by (simp add: md_tasks_def)
  note fold = task_line_def [symmetric]
  show "md_tasks (insert_content_into_markdown f None c) = md_tasks f @ [single_line_content c]"
    using app by (simp add: insert_content_into_markdown_def Let_def fold)
  show "md_tasks (insert_content_into_markdown f (Some i) c) = insert_at (min i (length (md_tasks f))) (single_line_content c) (md_tasks f)"
  proof (cases "i < length (task_lines (lines f))")
    case True
    then show ?thesis
      using filter_insert_task [OF True task_line_props(1)] md_tasks_write [OF clean_insert_at [OF cl task_line_props(2)]]
      by (simp add: insert_content_into_markdown_def Let_def fold length_md_tasks map_insert_at)
         (simp add: md_tasks_def)
  next
    case False
    then show ?thesis
      using app by (simp add: insert_content_into_markdown_def Let_def fold length_md_tasks)
         (simp add: insert_at_length flip: length_md_tasks)
  qed
  show "md_valid (insert_content_into_markdown f j c)"
    using md_valid_write [OF cl'] md_valid_write [OF clean_insert_at [OF cl task_line_props(2)]]
    by (simp add: insert_content_into_markdown_def Let_def fold split: option.splits)
qed

text \<open>The line a task was read from.\<close>

lemma read_markdown_entries_source:
  "map t_source (read_markdown_entries f) = map MarkdownLine (task_lines (lines f))"
proof -
  have "map t_source (List.map_filter (\<lambda>(i, line). map_option (\<lambda>t. task_entry_from_text (MarkdownLine i) t t False)
       (strip_prefix line TASK_PREFIX)) (enumerate_from n ls))
     = map MarkdownLine (map fst (filter (\<lambda>(_, line). is_task_line line) (enumerate_from n ls)))" for n ls
    by (induction ls arbitrary: n) (auto simp: strip_prefix_def is_task_line_def)
  then show ?thesis by (simp add: read_markdown_entries_def task_lines_def)
qed

lemma read_markdown_entries_length: "length (read_markdown_entries f) = length (task_lines (lines f))"
  using arg_cong [OF read_markdown_entries_source [of f], of length] by simp

lemma entry_source: "k < length (read_markdown_entries f) \<Longrightarrow> t_source (read_markdown_entries f ! k) = MarkdownLine (task_lines (lines f) ! k)"
  using arg_cong [OF read_markdown_entries_source [of f], of "\<lambda>xs. xs ! k"] read_markdown_entries_length [of f] by simp

lemma entry_content: "k < length (read_markdown_entries f) \<Longrightarrow> t_content (read_markdown_entries f ! k) = md_tasks f ! k"
  by (simp add: md_tasks_entries)

lemma remove_markdown_tasks:
  assumes "md_valid f" "k < length (md_tasks f)"
  shows "\<exists>f'. remove_markdown_line f (task_lines (lines f) ! k) = Inr f' \<and> md_valid f'
    \<and> md_tasks f' = remove_at k (md_tasks f)"
proof -
  have k: "k < length (task_lines (lines f))" using assms(2) by (simp add: length_md_tasks)
  let ?ls = "remove_at (task_lines (lines f) ! k) (lines f)"
  have cl: "list_all clean_line ?ls" using assms(1) by (simp add: md_valid_def clean_remove_at)
  have "md_tasks (write_lines ?ls) = remove_at k (md_tasks f)"
    using filter_remove_task [OF k] md_tasks_write [OF cl] by (simp add: map_remove_at) (simp add: md_tasks_def)
  then show ?thesis
    using task_lines_nth [OF k] md_valid_write [OF cl] by (simp add: remove_markdown_line_def Let_def)
qed

definition md_remove_task :: "str \<Rightarrow> nat \<Rightarrow> str" where
  "md_remove_task f k = (case remove_markdown_line f (task_lines (lines f) ! k) of Inr f' \<Rightarrow> f' | Inl _ \<Rightarrow> f)"

interpretation md: task_store md_tasks single_line_content insert_content_into_markdown md_remove_task md_valid
proof unfold_locales
  fix s c i k j
  assume v: "md_valid s"
  show "md_tasks (insert_content_into_markdown s None c) = md_tasks s @ [single_line_content c]"
    "md_tasks (insert_content_into_markdown s (Some i) c) = insert_at (min i (length (md_tasks s))) (single_line_content c) (md_tasks s)"
    "md_valid (insert_content_into_markdown s j c)"
    using v by (simp_all add: insert_markdown_tasks)
  show "k < length (md_tasks s) \<Longrightarrow> md_tasks (md_remove_task s k) = remove_at k (md_tasks s)"
    "k < length (md_tasks s) \<Longrightarrow> md_valid (md_remove_task s k)"
    using remove_markdown_tasks [OF v, of k] by (auto simp: md_remove_task_def)
qed

section \<open>Theorems\<close>

text \<open>Inserting into a Markdown store puts the task, normalised to one line, at the requested
  position of the task list, or at the end where there is no such position, and changes no
  other task.\<close>

theorem insert_markdown_refines:
  assumes "md_valid f"
  shows "map t_content (read_markdown_entries (insert_content_into_markdown f index c)) =
    (case index of
       None \<Rightarrow> map t_content (read_markdown_entries f) @ [single_line_content c]
     | Some i \<Rightarrow> insert_at (min i (length (read_markdown_entries f))) (single_line_content c)
                  (map t_content (read_markdown_entries f)))"
  using assms insert_markdown_tasks(1,2) [of f]
  by (simp add: read_markdown_entries_length length_md_tasks flip: md_tasks_entries split: option.splits)

definition demo_file :: str where
  "demo_file = lit ''# To Do Tasks'' @ [10] @ lit ''- one'' @ [10] @ lit ''prose'' @ [10] @ lit ''- two'' @ [10]"

lemma demo_file_valid: "md_valid demo_file"
  by (rule md_valid_no_cr) (simp add: demo_file_def lit_def)

lemma demo_file_tasks: "md_tasks demo_file = [lit ''one'', lit ''two'']"
  by code_simp

theorem insert_markdown_refines_witness:
  "map t_content (read_markdown_entries (insert_content_into_markdown demo_file (Some 1) (lit ''new'')))
     = insert_at 1 (single_line_content (lit ''new'')) [lit ''one'', lit ''two'']"
proof -
  have "length (read_markdown_entries demo_file) = 2"
    using arg_cong [OF demo_file_tasks, of length] by (simp add: md_tasks_entries)
  then show ?thesis
    using insert_markdown_refines [OF demo_file_valid, of "Some 1" "lit ''new''"]
    by (simp add: demo_file_tasks flip: md_tasks_entries)
qed

text \<open>C15: reordering moves the task at one position of the task list to another (at most the end),
  keeps every line of the file, and fails exactly where there is no such task.\<close>

theorem reorder_markdown_refines:
  assumes "md_valid f"
  shows "case reorder_markdown_task f i j of
      Inl e \<Rightarrow> e = ''Task index out of range'' \<and> i \<ge> length (md_tasks f)
    | Inr f' \<Rightarrow> i < length (md_tasks f)
        \<and> md_tasks f' = insert_at (min j (length (md_tasks f) - 1)) (md_tasks f ! i) (remove_at i (md_tasks f))
        \<and> mset (lines f') = mset (lines f)"
proof (cases "i < length (task_lines (lines f))")
  case False
  then show ?thesis by (simp add: reorder_markdown_task_def length_md_tasks)
next
  case True
  let ?ls = "lines f" let ?a = "task_lines ?ls ! i" let ?x = "?ls ! ?a" let ?rest = "remove_at ?a ?ls"
  let ?at = "if j < length (task_lines ?rest) then task_lines ?rest ! j else length ?rest"
  let ?new = "insert_at ?at ?x ?rest"
  note nth = task_lines_nth [OF True]
  have cl: "list_all clean_line ?new"
    using assms nth by (intro clean_insert_at clean_remove_at) (auto simp: md_valid_def list_all_length)
  have rest: "filter is_task_line ?rest = remove_at i (filter is_task_line ?ls)" using True by (rule filter_remove_task)
  have len: "length (task_lines ?rest) = length (md_tasks f) - 1"
    using True rest by (simp add: length_task_lines length_md_tasks remove_at_def)
  have new: "filter is_task_line ?new = insert_at (min j (length (md_tasks f) - 1)) ?x (remove_at i (filter is_task_line ?ls))"
  proof (cases "j < length (task_lines ?rest)")
    case True
    then show ?thesis using filter_insert_task [of j ?rest ?x] nth rest len by simp
  next
    case False
    then show ?thesis
      using nth rest len length_task_lines [of ?rest] insert_at_length [of "remove_at i (filter is_task_line ?ls)" ?x]
      by (simp add: insert_at_length)
  qed
  have xi: "drop (length TASK_PREFIX) ?x = md_tasks f ! i"
  proof -
    have "drop i (filter is_task_line ?ls) \<noteq> [] \<and> hd (drop i (filter is_task_line ?ls)) = ?x"
      using nth by (metis Cons_nth_drop_Suc filter.simps(2) list.distinct(1) list.sel(1))
    then show ?thesis using True by (auto simp: md_tasks_def hd_drop_conv_nth not_le)
  qed
  have res: "reorder_markdown_task f i j = Inr (write_lines ?new)"
    using True by (simp add: reorder_markdown_task_def Let_def)
  have tasks: "md_tasks (write_lines ?new) = insert_at (min j (length (md_tasks f) - 1)) (md_tasks f ! i) (remove_at i (md_tasks f))"
    unfolding md_tasks_write [OF cl] new by (simp add: map_insert_at map_remove_at xi flip: md_tasks_def)
  have "mset ?new = mset ?ls"
    using nth id_take_nth_drop [of ?a ?ls] unfolding mset_insert_at remove_at_def
    by (metis add_mset_add_single mset.simps(2) mset_append union_mset_add_mset_right)
  moreover have "lines (write_lines ?new) = ?new"
  proof -
    have "?x \<noteq> []" using nth by (auto simp: is_task_line_def starts_with_def TASK_PREFIX_def lit_def)
    then have "?new \<noteq> []" "?new \<noteq> [[]]" by (auto simp: insert_at_def append_eq_Cons_conv)
    then show ?thesis using lines_join [OF cl] by (auto simp: write_lines_def Let_def join_Nil)
  qed
  ultimately have "mset (lines (write_lines ?new)) = mset ?ls" by metis
  with res tasks True show ?thesis by (simp add: length_md_tasks)
qed

theorem reorder_markdown_refines_witness:
  "\<exists>f'. reorder_markdown_task demo_file 1 0 = Inr f' \<and> md_tasks f' = [lit ''two'', lit ''one'']"
proof -
  have "reorder_markdown_task demo_file 1 0 \<noteq> Inl e" for e
    using reorder_markdown_refines [OF demo_file_valid, of 1 0] by (auto simp: demo_file_tasks)
  then obtain f' where f': "reorder_markdown_task demo_file 1 0 = Inr f'" by (metis sum.exhaust)
  with reorder_markdown_refines [OF demo_file_valid, of 1 0] show ?thesis
    by (simp add: demo_file_tasks insert_at_def remove_at_def)
qed

text \<open>Moving the task at an index of one status to another takes exactly that task out of the
  first list and puts its one-line text in the second (first, when the target is Done), keeps
  the other statuses, and loses or duplicates no task; an index out of range and a move to
  the same status change nothing.\<close>

theorem md_move_task_spec:
  assumes valid: "\<forall>s. md_valid (board s)"
  shows "case md_move_task board a b n of
      Inl e \<Rightarrow> n = 0 \<or> n > length (md_tasks (board a))
    | Inr board' \<Rightarrow> 0 < n \<and> n \<le> length (md_tasks (board a))
        \<and> (if a = b then board' = board
           else md_tasks (board' a) = remove_at (n - 1) (md_tasks (board a))
             \<and> md_tasks (board' b) =
                 (if b = Done then single_line_content (md_tasks (board a) ! (n - 1)) # md_tasks (board b)
                  else md_tasks (board b) @ [single_line_content (md_tasks (board a) ! (n - 1))])
             \<and> (\<forall>s. s \<noteq> a \<longrightarrow> s \<noteq> b \<longrightarrow> board' s = board s)
             \<and> mset (md_tasks (board' a)) + mset (md_tasks (board' b)) + {#md_tasks (board a) ! (n - 1)#}
                 = mset (md_tasks (board a)) + mset (md_tasks (board b))
                   + {#single_line_content (md_tasks (board a) ! (n - 1))#})"
proof (cases "0 < n \<and> n \<le> length (md_tasks (board a))")
  case False
  then have "md_move_task board a b n = Inl ''Task index out of range.''"
    by (auto simp: md_move_task_def md_task_entry_at_def result_bind_def md_tasks_entries Let_def)
  with False show ?thesis by auto
next
  case True
  then have k: "n - 1 < length (read_markdown_entries (board a))" "n - 1 < length (md_tasks (board a))"
    by (auto simp: md_tasks_entries)
  let ?t = "md_tasks (board a) ! (n - 1)"
  have at: "md_task_entry_at board a n = Inr (read_markdown_entries (board a) ! (n - 1))"
    using True k by (simp add: md_task_entry_at_def)
  show ?thesis
  proof (cases "a = b")
    case True
    then show ?thesis using at \<open>0 < n \<and> _\<close> by (simp add: md_move_task_def result_bind_def)
  next
    case False
    let ?j = "if b = Done then Some 0 else None"
    obtain f' where f': "remove_markdown_line (board a) (task_lines (lines (board a)) ! (n - 1)) = Inr f'"
      "md_tasks f' = remove_at (n - 1) (md_tasks (board a))"
      using remove_markdown_tasks [OF valid [rule_format, of a] k(2)] by blast
    have rm: "md_remove_task (board a) (n - 1) = f'" using f'(1) by (simp add: md_remove_task_def)
    have res: "md_move_task board a b n = Inr (board(b := insert_content_into_markdown (board b) ?j ?t, a := f'))"
      using False at f'(1) entry_source [OF k(1)] entry_content [OF k(1)]
      by (simp add: md_move_task_def result_bind_def md_remove_task_entry_def md_insert_task_content_def Let_def)
    have ins: "md_tasks (insert_content_into_markdown (board b) ?j ?t) =
        (if b = Done then single_line_content ?t # md_tasks (board b) else md_tasks (board b) @ [single_line_content ?t])"
      using insert_markdown_tasks(1) [OF valid [rule_format, of b], of ?t]
        insert_markdown_tasks(2) [OF valid [rule_format, of b], of 0 ?t]
      by (cases "b = Done") (simp_all add: insert_at_def)
    show ?thesis
      using res f'(2) ins False True
        md.move_conserves [OF valid [rule_format, of a] valid [rule_format, of b] k(2), of ?j, unfolded rm]
      by simp
  qed
qed

definition demo_board :: "TaskStatus \<Rightarrow> str" where
  "demo_board s = (if s = Todo then demo_file else status_header s)"

theorem md_move_task_spec_witness:
  "\<exists>b'. md_move_task demo_board Todo Doing 2 = Inr b' \<and> md_tasks (b' Todo) = [lit ''one'']"
proof -
  have h: "13 \<notin> set (status_header s)" for s by (cases s) (simp_all add: lit_def)
  have v: "\<forall>s. md_valid (demo_board s)" using demo_file_valid md_valid_no_cr [OF h] by (simp add: demo_board_def)
  have t: "md_tasks (demo_board Todo) = [lit ''one'', lit ''two'']" by (simp add: demo_board_def demo_file_tasks)
  show ?thesis
    using md_move_task_spec [OF v, where a = Todo and b = Doing and n = 2] t
    by (cases "md_move_task demo_board Todo Doing 2") (simp_all add: remove_at_def)
qed

text \<open>Rewriting a task's line replaces exactly that task by the one-line form of the new text,
  and refuses where the line no longer holds the content the entry was read with.\<close>

theorem write_markdown_refines:
  assumes "md_valid f" and "k < length (md_tasks f)"
  shows "write_markdown_line f entry (task_lines (lines f) ! k) c =
      (if t_content entry = md_tasks f ! k
       then Inr (write_lines ((lines f)[task_lines (lines f) ! k := task_line c]))
       else Inl ''Task content changed while updating task; retry with a fresh read.'')
    \<and> md_tasks (write_lines ((lines f)[task_lines (lines f) ! k := task_line c])) = (md_tasks f)[k := single_line_content c]"
proof -
  have k: "k < length (task_lines (lines f))" using assms(2) by (simp add: length_md_tasks)
  let ?i = "task_lines (lines f) ! k" let ?ls = "(lines f)[?i := task_line c]"
  note nth = task_lines_nth [OF k]
  have d: "filter is_task_line (lines f) ! k = lines f ! ?i"
  proof -
    have "drop k (filter is_task_line (lines f)) = lines f ! ?i # filter is_task_line (drop (Suc ?i) (lines f))"
      using nth by (metis Cons_nth_drop_Suc filter.simps(2))
    then show ?thesis by (metis nth_via_drop)
  qed
  have c1: "md_tasks f ! k = drop (length TASK_PREFIX) (lines f ! ?i)"
    using k d by (simp add: md_tasks_def length_task_lines)
  have "strip_prefix (lines f ! ?i) TASK_PREFIX = Some (md_tasks f ! k)"
    using nth c1 by (simp add: strip_prefix_def is_task_line_def)
  then have w: "write_markdown_line f entry ?i c = (if t_content entry = md_tasks f ! k then Inr (write_lines ?ls)
       else Inl ''Task content changed while updating task; retry with a fresh read.'')"
    using nth by (auto simp: write_markdown_line_def task_line_def Let_def)
  have cl: "list_all clean_line ?ls"
    using assms(1) by (auto simp: md_valid_def list_all_iff dest!: subsetD [OF set_update_subset_insert])
  have "filter is_task_line ?ls = (filter is_task_line (lines f))[k := task_line c]"
  proof -
    have "?ls = take ?i (lines f) @ task_line c # drop (Suc ?i) (lines f)" using nth by (simp add: upd_conv_take_nth_drop)
    moreover have "filter is_task_line (drop (Suc ?i) (lines f)) = drop (Suc k) (filter is_task_line (lines f))"
      using filter_remove_task [OF k] nth by (simp add: remove_at_def)
    ultimately show ?thesis using nth k by (simp add: upd_conv_take_nth_drop length_task_lines)
  qed
  then have "md_tasks (write_lines ?ls) = (md_tasks f)[k := single_line_content c]"
    unfolding md_tasks_write [OF cl] by (simp add: md_tasks_def map_update)
  with w show ?thesis by blast
qed

theorem write_markdown_refines_witness:
  "\<exists>f'. write_markdown_line demo_file (read_markdown_entries demo_file ! 1) (task_lines (lines demo_file) ! 1) (lit ''2'')
      = Inr f' \<and> md_tasks f' = [lit ''one'', single_line_content (lit ''2'')]"
proof -
  have "length (read_markdown_entries demo_file) = 2"
    using arg_cong [OF demo_file_tasks, of length] by (simp add: md_tasks_entries)
  then have "t_content (read_markdown_entries demo_file ! 1) = md_tasks demo_file ! 1" by (simp add: entry_content)
  then show ?thesis
    using write_markdown_refines [OF demo_file_valid, of 1 "read_markdown_entries demo_file ! 1" "lit ''2''"]
    by (simp add: demo_file_tasks)
qed

end
