(* ===== verification/Marker_Words.thy ===== *)
theory Marker_Words
  imports Task_Markers
begin

text \<open>
  Removing a marker, word by word: both removals of \<^verbatim>\<open>src/src/task.rs\<close>, the one that replaces ranges
  from the right and the one that copies from the left, delete exactly the marker's
  occurrences as a word and keep every other word in order.
\<close>

section \<open>Occurrences and words\<close>

lemma starts_with_length: "starts_with s p \<Longrightarrow> length p \<le> length s"
  by (auto simp: starts_with_iff)

lemma starts_with_word:
  assumes "list_all (\<lambda>c. \<not> is_ws c) p" "b = [] \<or> is_ws (hd b)"
  shows "starts_with (w @ b) p \<longleftrightarrow> starts_with w p"
proof
  assume "starts_with (w @ b) p"
  then obtain t where t: "w @ b = p @ t" by (auto simp: starts_with_iff)
  show "starts_with w p"
  proof (cases "length p \<le> length w")
    case True
    then show ?thesis using t by (metis append_eq_append_conv_if starts_with_def)
  next
    case False
    then have "b \<noteq> []" using t by (metis append_Nil2 length_append le_add1)
    moreover have "p ! length w = b ! 0"
      using t False by (metis linorder_le_less_linear nth_append nth_append_length_plus add.right_neutral)
    ultimately have "is_ws (p ! length w)" using assms(2) by (simp add: hd_conv_nth)
    then show ?thesis using assms(1) False by (simp add: list_all_length)
  qed
qed (auto simp: starts_with_iff)

lemma match_split:
  assumes p: "p \<noteq> []" "list_all (\<lambda>c. \<not> is_ws c) p" and b: "b = [] \<or> is_ws (hd b)"
  shows "k \<le> length w \<Longrightarrow> match_indices_from p n k (w @ b) = match_indices_from p n k w @ match_indices_from p (n + length w) 0 b"
proof (induction w arbitrary: n k)
  case (Cons x w)
  show ?case
  proof (cases k)
    case 0
    have sw: "starts_with ((x # w) @ b) p = starts_with (x # w) p" using p(2) b by (rule starts_with_word)
    have "length p - 1 \<le> length w" if "starts_with (x # w) p"
      using starts_with_length [OF that] by simp
    then show ?thesis using 0 sw Cons.IH by simp
  next
    case (Suc j)
    then show ?thesis using Cons by simp
  qed
qed simp

lemma match_indices_range:
  "i \<in> set (match_indices_from p n k w) \<Longrightarrow> n + k \<le> i \<and> i + length p \<le> n + length w \<and> starts_with (drop (i - n) w) p"
proof (induction w arbitrary: n k)
  case (Cons x w)
  show ?case
  proof (cases k)
    case 0
    show ?thesis
    proof (cases "i = n \<and> starts_with (x # w) p")
      case True
      then show ?thesis using 0 starts_with_length [of "x # w" p] by simp
    next
      case False
      then obtain j where "i \<in> set (match_indices_from p (Suc n) j w)" using Cons.prems 0 by (auto split: if_splits)
      from Cons.IH [OF this] show ?thesis using 0 by (auto simp: drop_Cons' )
    qed
  next
    case (Suc j)
    then have "i \<in> set (match_indices_from p (Suc n) j w)" using Cons.prems by simp
    from Cons.IH [OF this] show ?thesis using Suc by (auto simp: drop_Cons')
  qed
qed simp

lemma match_ws:
  assumes "p \<noteq> []" "list_all (\<lambda>c. \<not> is_ws c) p" "is_ws c"
  shows "match_indices_from p n 0 (c # s) = match_indices_from p (Suc n) 0 s"
proof -
  have "\<not> starts_with (c # s) p" using assms by (cases p) (auto simp: starts_with_iff)
  then show ?thesis by simp
qed

lemma split_trim_end [simp]: "split_whitespace (trim_end s) = split_whitespace s"
proof -
  obtain u where u: "s = trim_end s @ u" "list_all is_ws u" using trim_end_decomp by blast
  have "u = [] \<or> is_ws (hd u)" using u(2) by (cases u) auto
  then have "split_whitespace (trim_end s @ u) = split_whitespace (trim_end s) @ split_whitespace u"
    by (intro split_whitespace_append) auto
  with u split_whitespace_ws [OF u(2)] show ?thesis by simp
qed

section \<open>Removal from the right\<close>

definition marker_step :: "str \<Rightarrow> str \<Rightarrow> nat \<Rightarrow> str \<Rightarrow> str" where
  "marker_step content marker start result =
     (let e = start + length marker in
        if (start = 0 \<or> ends_in_ws (take start content))
           \<and> (e = length content \<or> starts_in_ws (drop e content))
        then replace_range_empty
               (if take start content \<noteq> [] \<and> last (take start content) = 32 then start - 1 else start)
               e result
        else result)"

lemma without_marker_fold:
  "task_content_without_marker content marker = trim_end (fold (marker_step content marker) (rmatch_indices content marker) content)"
  by (simp add: task_content_without_marker_def marker_step_def [abs_def])

text \<open>An occurrence inside a longer word is left alone.\<close>

lemma fold_noop: "(\<And>x s. x \<in> set xs \<Longrightarrow> f x s = s) \<Longrightarrow> fold f xs s = s"
  by (induction xs arbitrary: s) auto

lemma marker_step_inner:
  assumes w: "list_all (\<lambda>c. \<not> is_ws c) w" and m: "marker \<noteq> []"
    and c: "content = a @ w @ post" and i: "length a \<le> start" "start + length marker \<le> length a + length w"
    and inner: "start \<noteq> length a \<or> length marker \<noteq> length w"
  shows "marker_step content marker start result = result"
proof (cases "start = length a")
  case False
  then have "length a < start" "start \<le> length content" using i c by auto
  then have ne: "take start content \<noteq> []" by auto
  then have "last (take start content) = content ! (start - 1)"
    using \<open>length a < start\<close> \<open>start \<le> length content\<close> by (subst last_conv_nth) auto
  moreover have "content ! (start - 1) = w ! (start - 1 - length a)"
    using \<open>length a < start\<close> i m c by (simp add: nth_append) linarith
  moreover have "start - 1 - length a < length w" using \<open>length a < start\<close> i m by (cases marker) auto
  ultimately have "\<not> ends_in_ws (take start content)"
    using w ne by (simp add: ends_in_ws_def list_all_length)
  then show ?thesis using \<open>length a < start\<close> by (auto simp: marker_step_def Let_def)
next
  case True
  let ?e = "start + length marker"
  have e: "?e < length a + length w" using inner i True by simp
  then have "drop ?e content \<noteq> []" "hd (drop ?e content) = w ! length marker"
    using c True by (simp_all add: hd_drop_conv_nth nth_append)
  moreover have "length marker < length w" using e True by simp
  ultimately have "\<not> starts_in_ws (drop ?e content)" using w by (simp add: starts_in_ws_def list_all_length)
  moreover have "?e \<noteq> length content" using e c by simp
  ultimately show ?thesis by (simp add: marker_step_def Let_def)
qed

lemma match_skip_all: "length s \<le> k \<Longrightarrow> match_indices_from p n k s = []"
proof (induction s arbitrary: n k)
  case (Cons x s)
  then show ?case by (cases k) auto
qed simp

lemma match_self: "p \<noteq> [] \<Longrightarrow> match_indices_from p n 0 p = [n]"
  using starts_with_append [of p "[]"] by (cases p) (auto simp: match_skip_all)

lemma marker_step_word:
  assumes a: "a = [] \<or> is_ws (last a)" and post: "post = [] \<or> is_ws (hd post)"
  shows "marker_step (a @ marker @ post) marker (length a) (a @ marker @ Q)
    = (if a \<noteq> [] \<and> last a = 32 then butlast a @ Q else a @ Q)"
proof -
  have d: "drop (length a + length marker) (a @ marker @ X) = X" for X :: str by simp
  have "(length a = 0 \<or> ends_in_ws (take (length a) (a @ marker @ post)))
     \<and> (length a + length marker = length (a @ marker @ post) \<or> starts_in_ws (drop (length a + length marker) (a @ marker @ post)))"
    using a post by (auto simp: ends_in_ws_def starts_in_ws_def d)
  moreover have "a \<noteq> [] \<Longrightarrow> take (length a - Suc 0) a = butlast a" by (simp add: butlast_conv_take)
  ultimately show ?thesis
    unfolding marker_step_def Let_def replace_range_empty_def d by simp
qed

definition rev_starts :: "nat \<Rightarrow> str \<Rightarrow> nat \<Rightarrow> str \<Rightarrow> nat list" where
  "rev_starts len marker n t = map (\<lambda>i. len - i - length marker) (match_indices_from (rev marker) n 0 t)"

lemma marker_fold_words:
  assumes m: "marker \<noteq> []" "list_all (\<lambda>c. \<not> is_ws c) marker"
  shows "\<lbrakk>content = rev t @ post; t = [] \<or> is_ws (hd t) \<or> ((post = [] \<or> is_ws (hd post)) \<and> (Q = [] \<or> is_ws (hd Q)))\<rbrakk> \<Longrightarrow>
    split_whitespace (fold (marker_step content marker) (rev_starts (length content) marker (length post) t) (rev t @ Q))
      = filter (\<lambda>w. w \<noteq> marker) (split_whitespace (rev t)) @ split_whitespace Q"
proof (induction "length t" arbitrary: t post Q rule: less_induct)
  case less
  have rm: "rev marker \<noteq> []" "list_all (\<lambda>c. \<not> is_ws c) (rev marker)" using m by (auto simp: list_all_iff)
  show ?case
  proof (cases t)
    case Nil
    then show ?thesis by (simp add: rev_starts_def)
  next
    case (Cons c t')
    show ?thesis
    proof (cases "is_ws c")
      case True
      have "rev_starts (length content) marker (length post) t = rev_starts (length content) marker (length (c # post)) t'"
        using match_ws [OF rm True] Cons by (simp add: rev_starts_def)
      moreover have "split_whitespace (rev t) = split_whitespace (rev t')"
        using True Cons split_whitespace_append [of "rev t'" "[c]"] by simp
      moreover have "split_whitespace (c # Q) = split_whitespace Q" using True by simp
      ultimately show ?thesis
        using less.hyps [of t' "c # post" "c # Q"] less.prems(1) Cons True by simp
    next
      case False
      define wr b where "wr = c # takeWhile (\<lambda>d. \<not> is_ws d) t'" and "b = dropWhile (\<lambda>d. \<not> is_ws d) t'"
      have t: "t = wr @ b" using Cons by (simp add: wr_def b_def)
      have w: "list_all (\<lambda>c. \<not> is_ws c) (rev wr)" "rev wr \<noteq> []"
        using False by (auto simp: wr_def list_all_iff dest: set_takeWhileD)
      have b: "b = [] \<or> is_ws (hd b)" using hd_dropWhile [of "\<lambda>d. \<not> is_ws d" t'] by (auto simp: b_def)
      have bd: "post = [] \<or> is_ws (hd post)" "Q = [] \<or> is_ws (hd Q)" using less.prems(2) Cons False by auto
      have content: "content = rev b @ rev wr @ post" using less.prems(1) t by simp
      have starts: "rev_starts (length content) marker (length post) t =
          rev_starts (length content) marker (length post) wr @ rev_starts (length content) marker (length (rev wr @ post)) b"
        using match_split [OF rm b, of 0 wr "length post"] by (simp add: rev_starts_def t add.commute)
      have wordsw: "split_whitespace (rev t) = split_whitespace (rev b) @ [rev wr]"
      proof -
        have "rev b = [] \<or> is_ws (last (rev b))" using b by (auto simp: last_rev)
        then have "split_whitespace (rev b @ rev wr) = split_whitespace (rev b) @ split_whitespace (rev wr)"
          by (intro split_whitespace_append) auto
        then show ?thesis using split_whitespace_word [OF w(2,1), of "[]"] t by simp
      qed
      have lt: "length b < length t" using t by (simp add: wr_def)
      show ?thesis
      proof (cases "rev wr = marker")
        case no: False
        have "marker_step content marker x s = s" if x: "x \<in> set (rev_starts (length content) marker (length post) wr)" for x s
        proof -
          obtain i where i: "x = length content - i - length marker" "i \<in> set (match_indices_from (rev marker) (length post) 0 wr)"
            using x by (auto simp: rev_starts_def)
          note r = match_indices_range [OF i(2)]
          have "x \<noteq> length (rev b) \<or> length marker \<noteq> length (rev wr)"
          proof (rule ccontr)
            assume "\<not> ?thesis"
            then have "i = length post" "length wr = length marker" using i(1) r content by auto
            then have "wr = rev marker" using r by (auto simp: starts_with_iff)
            with no show False by simp
          qed
          then show ?thesis
            using i(1) r content by (intro marker_step_inner [OF w(1) m(1) content]) auto
        qed
        then have "fold (marker_step content marker) (rev_starts (length content) marker (length post) wr) s = s" for s
          by (rule fold_noop)
        moreover have "split_whitespace (rev wr @ Q) = rev wr # split_whitespace Q"
          using split_whitespace_word [OF w(2,1) bd(2)] .
        ultimately show ?thesis
          using less.hyps [OF lt content, of "rev wr @ Q"] b no wordsw
          unfolding starts by (auto simp: t)
      next
        case yes: True
        then have wr: "wr = rev marker" by auto
        have one: "rev_starts (length content) marker (length post) wr = [length b]"
          using match_self [OF rm(1)] content yes by (simp add: rev_starts_def wr)
        have step: "marker_step content marker (length b) (rev t @ Q) =
            (if b \<noteq> [] \<and> hd b = 32 then rev (tl b) @ Q else rev b @ Q)"
          using marker_step_word [of "rev b" post marker Q] b bd(1) content yes t
          by (auto simp: last_rev butlast_rev)
        show ?thesis
        proof (cases "b \<noteq> [] \<and> hd b = 32")
          case True
          then obtain b' where b': "b = 32 # b'" by (cases b) auto
          have ws: "is_ws 32" by (simp add: is_ws_def)
          have "rev_starts (length content) marker (length (rev wr @ post)) b
              = rev_starts (length content) marker (length (32 # rev wr @ post)) b'"
            using match_ws [OF rm ws] by (simp add: rev_starts_def b')
          moreover have "split_whitespace (rev b) = split_whitespace (rev b')"
            using ws split_whitespace_append [of "rev b'" "[32]"] by (simp add: b')
          moreover have "content = rev b' @ (32 # rev wr @ post)" using content b' by simp
          moreover have "length b' < length t" using lt b' by simp
          ultimately show ?thesis
            using less.hyps [of b' "32 # rev wr @ post" Q] bd(2) ws wordsw step True yes
            unfolding starts one by (simp add: b')
        next
          case False
          then show ?thesis
            using less.hyps [OF lt content, of Q] b wordsw step yes unfolding starts one by auto
        qed
      qed
    qed
  qed
qed

theorem without_marker_words:
  assumes "marker \<noteq> []" "list_all (\<lambda>c. \<not> is_ws c) marker"
  shows "split_whitespace (task_content_without_marker content marker) = filter (\<lambda>w. w \<noteq> marker) (split_whitespace content)"
proof -
  have "rmatch_indices content marker = rev_starts (length content) marker (length ([]::str)) (rev content)"
    by (simp add: rmatch_indices_def rev_starts_def match_indices_def)
  then show ?thesis
    using marker_fold_words [OF assms, of content "rev content" "[]" "[]"]
    by (simp add: without_marker_fold)
qed

section \<open>Removal from the left\<close>

text \<open>The session markers are the words with the prefix and a valid session id.\<close>

definition session_of_word :: "str \<Rightarrow> str option" where
  "session_of_word w = (case strip_prefix w CODEX_TASK_SESSION_PREFIX of
     None \<Rightarrow> None | Some sid \<Rightarrow> if valid_session sid then Some sid else None)"

lemma session_of_word_Some: "session_of_word w = Some s \<longleftrightarrow> w = CODEX_TASK_SESSION_PREFIX @ s \<and> valid_session s"
  by (auto simp: session_of_word_def strip_prefix_Some split: option.splits if_splits)

lemma codex_marker_at_word:
  assumes "pre = [] \<or> is_ws (last pre)" "list_all (\<lambda>c. \<not> is_ws c) w" "b = [] \<or> is_ws (hd b)"
  shows "codex_marker_at (pre @ w @ b) (length pre) = map_option (\<lambda>sid. (length pre, length pre + length w, sid)) (session_of_word w)"
  using assms takeWhile_word(1) [OF assms(2,3)]
  by (auto simp: codex_marker_at_def ends_in_ws_def session_of_word_def Let_def split: option.splits)

lemma codex_marker_at_inner:
  assumes w: "list_all (\<lambda>c. \<not> is_ws c) w" and i: "length pre < i" "i < length pre + length w"
  shows "codex_marker_at (pre @ w @ b) i = None"
proof -
  have "last (take i (pre @ w @ b)) = w ! (i - 1 - length pre)"
    using i by (subst last_conv_nth) (auto simp: nth_append)
  moreover have "i - 1 - length pre < length w" using i by simp
  ultimately have "\<not> ends_in_ws (take i (pre @ w @ b))"
    using w by (simp add: ends_in_ws_def list_all_length)
  then show ?thesis using i by (simp add: codex_marker_at_def)
qed

lemma map_filter_append: "List.map_filter f (xs @ ys) = List.map_filter f xs @ List.map_filter f ys"
  by (simp add: List.map_filter_def)

lemma map_filter_None: "(\<And>x. x \<in> set xs \<Longrightarrow> f x = None) \<Longrightarrow> List.map_filter f xs = []"
  by (simp add: List.map_filter_def)

abbreviation (input) nonws :: "str \<Rightarrow> bool" where
  "nonws w \<equiv> list_all (\<lambda>c. \<not> is_ws c) w"

lemma word_markers:
  assumes "pre = [] \<or> is_ws (last pre)" "nonws w" "w \<noteq> []" "b = [] \<or> is_ws (hd b)"
  shows "List.map_filter (codex_marker_at (pre @ w @ b)) (match_indices_from CODEX_TASK_SESSION_PREFIX (length pre) 0 w)
    = (case session_of_word w of None \<Rightarrow> [] | Some sid \<Rightarrow> [(length pre, length pre + length w, sid)])"
proof -
  let ?p = CODEX_TASK_SESSION_PREFIX
  obtain c w' where w: "w = c # w'" using assms(3) by (cases w) auto
  have inner: "List.map_filter (codex_marker_at (pre @ w @ b)) (match_indices_from ?p (Suc (length pre)) k w') = []" for k
  proof (rule map_filter_None)
    fix i assume "i \<in> set (match_indices_from ?p (Suc (length pre)) k w')"
    note r = match_indices_range [OF this]
    have "0 < length ?p" using marker_words(8) by simp
    moreover have "length w = Suc (length w')" by (simp add: w)
    ultimately have "length pre < i" "i < length pre + length w"
      using r [THEN conjunct1] r [THEN conjunct2, THEN conjunct1] by linarith+
    then show "codex_marker_at (pre @ w @ b) i = None" by (rule codex_marker_at_inner [OF assms(2)])
  qed
  have at: "codex_marker_at (pre @ w @ b) (length pre) = map_option (\<lambda>sid. (length pre, length pre + length w, sid)) (session_of_word w)"
    using assms by (intro codex_marker_at_word)
  show ?thesis
  proof (cases "starts_with w ?p")
    case True
    then show ?thesis using inner at by (simp add: w split: option.splits)
  next
    case False
    then have "session_of_word w = None" by (simp add: session_of_word_def strip_prefix_def)
    then show ?thesis using False inner by (simp add: w)
  qed
qed

text \<open>Dropping the markers of a session keeps the other words.  \<open>P\<close> is the text produced so far.\<close>

lemma drop_session_words:
  fixes sid :: str
  defines "m \<equiv> CODEX_TASK_SESSION_PREFIX @ sid"
  assumes sid: "valid_session sid"
  shows "\<lbrakk>content = pre @ s; cursor \<le> length pre; result @ drop cursor pre = P;
     pre = [] \<or> is_ws (last pre) \<or> s = [] \<or> is_ws (hd s);
     cursor = length pre \<longrightarrow> pre = [] \<or> s = [] \<or> is_ws (hd s);
     P = [] \<or> is_ws (last P) \<or> s = [] \<or> is_ws (hd s);
     drop_session_markers content sid (List.map_filter (codex_marker_at content)
        (match_indices_from CODEX_TASK_SESSION_PREFIX (length pre) 0 s)) (result, cursor) = (r, k)\<rbrakk> \<Longrightarrow>
    split_whitespace (r @ drop k content) = split_whitespace P @ filter (\<lambda>w. w \<noteq> m) (split_whitespace s)"
proof (induction "length s" arbitrary: s pre result cursor P rule: less_induct)
  case less
  let ?p = CODEX_TASK_SESSION_PREFIX
  have p: "?p \<noteq> []" "nonws ?p" using marker_words(7,8) by simp_all
  show ?case
  proof (cases s)
    case Nil
    then show ?thesis using less.prems by (auto simp: drop_session_markers_def List.map_filter_def)
  next
    case (Cons c s')
    show ?thesis
    proof (cases "is_ws c")
      case True
      have "drop_session_markers content sid (List.map_filter (codex_marker_at content)
        (match_indices_from ?p (length (pre @ [c])) 0 s')) (result, cursor) = (r, k)"
        using less.prems(7) match_ws [OF p True] Cons by simp
      moreover have "result @ drop cursor (pre @ [c]) = P @ [c]" using less.prems(2,3) by auto
      moreover have "split_whitespace (P @ [c]) = split_whitespace P"
        using True split_whitespace_append [of P "[c]"] by simp
      ultimately show ?thesis
        using less.hyps [of s' "pre @ [c]" cursor result "P @ [c]"] less.prems(1,2) Cons True by simp
    next
      case False
      define w b where "w = c # takeWhile (\<lambda>d. \<not> is_ws d) s'" and "b = dropWhile (\<lambda>d. \<not> is_ws d) s'"
      have s: "s = w @ b" using Cons by (simp add: w_def b_def)
      have w: "nonws w" "w \<noteq> []" using False by (auto simp: w_def list_all_iff dest: set_takeWhileD)
      have b: "b = [] \<or> is_ws (hd b)" using hd_dropWhile [of "\<lambda>d. \<not> is_ws d" s'] by (auto simp: b_def)
      have bd: "pre = [] \<or> is_ws (last pre)" "P = [] \<or> is_ws (last P)" "cursor = length pre \<longrightarrow> pre = []"
        using less.prems(4-6) Cons False by auto
      have lt: "length b < length s" using s w by simp
      have content: "content = (pre @ w) @ b" using less.prems(1) s by simp
      let ?later = "List.map_filter (codex_marker_at content) (match_indices_from ?p (length (pre @ w)) 0 b)"
      have ms: "List.map_filter (codex_marker_at content) (match_indices_from ?p (length pre) 0 s)
          = (case session_of_word w of None \<Rightarrow> [] | Some x \<Rightarrow> [(length pre, length pre + length w, x)]) @ ?later"
        using match_split [OF p b, of 0 w "length pre"] word_markers [OF bd(1) w b] content
        by (simp add: s map_filter_append)
      have words: "split_whitespace s = w # split_whitespace b" using split_whitespace_word [OF w(2,1) b] s by simp
      show ?thesis
      proof (cases "w = m")
        case yes: True
        then have sw: "session_of_word w = Some sid" using sid by (simp add: session_of_word_Some m_def)
        let ?rs = "if pre \<noteq> [] \<and> last pre \<in> {32, 9} then length pre - 1 else length pre"
        let ?res = "result @ take (?rs - cursor) (drop cursor content)"
        have run: "drop_session_markers content sid ?later (?res, length (pre @ w)) = (r, k)"
          using less.prems(7) content unfolding ms sw by (simp add: drop_session_markers_def Let_def)
        have P': "?res = (if pre \<noteq> [] \<and> last pre \<in> {32, 9} then butlast P else P)"
        proof (cases "pre \<noteq> [] \<and> last pre \<in> {32, 9}")
          case True
          then have "cursor < length pre" using bd(3) less.prems(2) by fastforce
          then have "drop cursor pre \<noteq> []" by simp
          then have "butlast P = result @ butlast (drop cursor pre)"
            using less.prems(3) by (metis butlast_append)
          then show ?thesis using True \<open>cursor < length pre\<close> less.prems(1)
            by (simp add: butlast_conv_take drop_take) 
        next
          case False
          then show ?thesis using less.prems(1-3) by auto
        qed
        have ws: "split_whitespace ?res = split_whitespace P"
        proof (cases "pre \<noteq> [] \<and> last pre \<in> {32, 9} \<and> P \<noteq> []")
          case True
          then have "is_ws (last P)" using bd(2) by auto
          then have "split_whitespace (butlast P @ [last P]) = split_whitespace (butlast P)"
            using split_whitespace_append [of "butlast P" "[last P]"] by simp
          then show ?thesis using True P' by simp
        next
          case False
          then show ?thesis using P' by (cases "P = []") auto
        qed
        show ?thesis
          using less.hyps [OF lt content _ _ _ _ _ run, of ?res] b ws words yes by auto
      next
        case no: False
        have "drop_session_markers content sid ?later (result, cursor) = (r, k)"
          using less.prems(7) no unfolding ms
          by (auto simp: drop_session_markers_def session_of_word_Some m_def split: option.splits)
        moreover have "result @ drop cursor (pre @ w) = P @ w" using less.prems(2,3) by auto
        moreover have "split_whitespace (P @ w) = split_whitespace P @ [w]"
          using bd(2) split_whitespace_append [of P w] split_whitespace_word [OF w(2,1), of "[]"] by auto
        ultimately show ?thesis
          using less.hyps [OF lt content, of cursor result "P @ w"] less.prems(2) b words no w by auto
      qed
    qed
  qed
qed

theorem without_matching_words:
  assumes "valid_session sid"
  shows "split_whitespace (task_content_without_matching_codex_sessions content sid)
    = filter (\<lambda>w. w \<noteq> CODEX_TASK_SESSION_PREFIX @ sid) (split_whitespace content)"
proof -
  obtain r k where rk: "drop_session_markers content sid (codex_session_markers_in_task_content content) ([], 0) = (r, k)"
    by fastforce
  then show ?thesis
    using drop_session_words [OF assms, of content "[]" content 0 "[]" "[]" r k]
    by (simp add: task_content_without_matching_codex_sessions_def codex_session_markers_in_task_content_def match_indices_def)
qed

end
