(* ===== verification/Session_Theorems.thy ===== *)
theory Session_Theorems
  imports Marker_Words
begin

text \<open>
  Linking a task to a Codex session and marking it: what the rewritten text says when it is
  read back, and which of the task's words stay.
\<close>

section \<open>Words of rewritten texts\<close>

lemma words_nonempty: "w \<in> set (split_whitespace s) \<Longrightarrow> w \<noteq> [] \<and> list_all (\<lambda>c. \<not> is_ws c) w"
proof (induction s rule: split_whitespace.induct)
  case (2 c s)
  show ?case
  proof (cases "is_ws c")
    case False
    have "list_all (\<lambda>c. \<not> is_ws c) (c # takeWhile (\<lambda>d. \<not> is_ws d) s)"
      using False by (auto simp: list_all_iff dest: set_takeWhileD)
    then show ?thesis using 2 False by auto
  qed (use 2 in auto)
qed simp

lemma last_word_words: "last_word s = (if split_whitespace s = [] then None else Some (last (split_whitespace s)))"
  by (auto simp: last_word_def split: list.splits)

lemma last_word_in: "last_word s = Some w \<Longrightarrow> w \<in> set (split_whitespace s)"
  by (auto simp: last_word_words split: if_splits)

lemmas last_word_nonempty = words_nonempty [OF last_word_in]

lemma trim_end_append: "trim_end d \<noteq> [] \<Longrightarrow> trim_end (x @ d) = x @ trim_end d"
proof (induction d rule: rev_induct)
  case (snoc c d)
  then show ?case using trim_end_snoc [of d c] trim_end_snoc [of "x @ d" c] by (auto split: if_splits)
qed simp

text \<open>A text whose last word is \<open>w\<close> ends, once trimmed, in \<open>w\<close> after whitespace or nothing.\<close>

lemma last_word_decomp:
  "last_word s = Some w \<Longrightarrow> \<exists>a. trim_end s = a @ w \<and> (a = [] \<or> is_ws (last a)) \<and> split_whitespace a = butlast (split_whitespace s)"
proof (induction s rule: split_whitespace.induct)
  case (2 c s)
  show ?case
  proof (cases "is_ws c")
    case True
    with 2 obtain a where a: "trim_end s = a @ w" "a = [] \<or> is_ws (last a)" "split_whitespace a = butlast (split_whitespace s)"
      by (auto simp: last_word_def)
    have "w \<noteq> []" using last_word_nonempty [OF 2(3)] by simp
    have "trim_end (c # s) = c # trim_end s"
      using trim_end_append [of s "[c]"] a(1) \<open>w \<noteq> []\<close> by simp
    then show ?thesis using a True by (intro exI [of _ "c # a"]) auto
  next
    case False
    define t d where "t = takeWhile (\<lambda>d. \<not> is_ws d) s" and "d = dropWhile (\<lambda>d. \<not> is_ws d) s"
    have s: "s = t @ d" by (simp add: t_def d_def)
    have words: "split_whitespace (c # s) = (c # t) # split_whitespace d" using False by (simp add: t_def d_def)
    have ct: "list_all (\<lambda>c. \<not> is_ws c) (c # t)" using False by (auto simp: t_def list_all_iff dest: set_takeWhileD)
    have ds: "d = [] \<or> is_ws (hd d)" using hd_dropWhile [of "\<lambda>d. \<not> is_ws d" s] by (auto simp: d_def)
    show ?thesis
    proof (cases "split_whitespace d = []")
      case True
      then have "w = c # t" using 2(3) words by (simp add: last_word_words)
      moreover have "trim_end (c # s) = c # t"
      proof -
        have "list_all is_ws d"
        proof (rule ccontr)
          assume "\<not> list_all is_ws d"
          then obtain x where "x \<in> set d" "\<not> is_ws x" by (auto simp: list_all_iff)
          then have "split_whitespace d \<noteq> []"
            by (induction d) auto
          with True show False by simp
        qed
        then have "dropWhile is_ws (rev d) = []" by (auto simp: list_all_iff)
        then have "trim_end (c # s) = trim_end (c # t)"
          by (simp add: s trim_end_def trim_end_by_def dropWhile_append)
        then show ?thesis using trim_end_append_word [of "c # t" "[]"] ct last_in_set [of "c # t"]
          by (auto simp: list_all_iff)
      qed
      ultimately show ?thesis using True words by (intro exI [of _ "[]"]) simp
    next
      case ne: False
      have "last_word d = Some w" using 2(3) words ne by (simp add: last_word_words)
      then obtain a where a: "trim_end d = a @ w" "a = [] \<or> is_ws (last a)" "split_whitespace a = butlast (split_whitespace d)"
        using 2(2) [OF False] by (auto simp: d_def)
      have wne: "w \<noteq> []" using last_word_nonempty [OF \<open>last_word d = Some w\<close>] by simp
      have "trim_end (c # s) = (c # t) @ trim_end d"
        using trim_end_append [of d "c # t"] a(1) wne by (simp add: s)
      moreover have aws: "a = [] \<or> is_ws (hd a)"
      proof (cases a)
        case (Cons x xs)
        obtain u where "d = trim_end d @ u" using trim_end_decomp by blast
        then have "hd d = x" using a(1) Cons by (metis append_Cons list.sel(1))
        then show ?thesis using ds Cons a(1) wne by (cases d) (auto)
      qed simp
      moreover have "a \<noteq> []"
      proof
        assume "a = []"
        then have "trim_end d = w" using a(1) by simp
        obtain u where "d = trim_end d @ u" using trim_end_decomp by blast
        then have "hd d = hd w" using \<open>trim_end d = w\<close> wne by (metis hd_append2)
        moreover have "\<not> is_ws (hd w)" using last_word_nonempty [OF \<open>last_word d = Some w\<close>] wne
          by (auto simp: list_all_iff)
        ultimately show False using ds wne \<open>trim_end d = w\<close> by (cases d) auto
      qed
      ultimately show ?thesis
        using a words split_whitespace_word [OF _ ct aws] ne
        by (intro exI [of _ "(c # t) @ a"]) auto
    qed
  qed
qed (simp add: last_word_def)

lemma last_word_append:
  assumes "w \<noteq> []" "list_all (\<lambda>c. \<not> is_ws c) w" "a = [] \<or> is_ws (last a)"
  shows "last_word (a @ w) = Some w" "split_whitespace (a @ w) = split_whitespace a @ [w]"
proof -
  show ws: "split_whitespace (a @ w) = split_whitespace a @ [w]"
    using assms split_whitespace_append [of a w] split_whitespace_word [OF assms(1,2), of "[]"] by auto
  then show "last_word (a @ w) = Some w" by (simp add: last_word_words)
qed

lemma words_without_stop:
  "split_whitespace (task_content_without_stop_marker c) =
    (if task_content_is_stopped c then butlast (split_whitespace c) else split_whitespace c)"
proof (cases "task_content_is_stopped c")
  case True
  then obtain a where "trim_end c = a @ TASK_STOPPED_MARKER" "split_whitespace a = butlast (split_whitespace c)"
    using last_word_decomp [of c TASK_STOPPED_MARKER] by (auto simp: task_content_is_stopped_def)
  then show ?thesis using True by (simp add: task_content_without_stop_marker_def)
qed (simp add: task_content_without_stop_marker_def)

lemma words_without_codex_session:
  "split_whitespace (task_content_without_codex_session c) =
    (if codex_session_id_from_task_content c = None then split_whitespace c else butlast (split_whitespace c))"
proof -
  have lw: "last_word (trim_end c) = last_word c" by (simp add: last_word_words)
  then have cs: "codex_session_id_from_task_content (trim_end c) = codex_session_id_from_task_content c"
    by (simp add: codex_session_id_from_task_content_def)
  show ?thesis
  proof (cases "codex_session_id_from_task_content c")
    case None
    then show ?thesis using cs by (simp add: task_content_without_codex_session_def Let_def)
  next
    case (Some s)
    then have "last_word c = Some (CODEX_TASK_SESSION_PREFIX @ s)"
      by (auto simp: codex_session_id_from_task_content_def strip_prefix_Some split: option.splits if_splits)
    from last_word_decomp [OF this] obtain a where "trim_end c = a @ CODEX_TASK_SESSION_PREFIX @ s"
      "split_whitespace a = butlast (split_whitespace c)" by auto
    then show ?thesis using cs Some by (simp add: task_content_without_codex_session_def Let_def)
  qed
qed

section \<open>Theorems\<close>

text \<open>The words a task keeps when it is linked to a session.\<close>

definition kept_words :: "str \<Rightarrow> str \<Rightarrow> str list" where
  "kept_words c sid =
     (let ws = split_whitespace (task_content_without_stop_marker c);
          ws' = (if codex_session_id_from_task_content (task_content_without_stop_marker c) = None then ws else butlast ws)
      in filter (\<lambda>w. w \<noteq> CODEX_TASK_SESSION_PREFIX @ sid) ws')"

lemma stopped_not_session: "TASK_STOPPED_MARKER \<noteq> CODEX_TASK_SESSION_PREFIX @ sid"
  by (simp add: TASK_STOPPED_MARKER_def CODEX_TASK_SESSION_PREFIX_def lit_def)

lemma codex_session_last:
  assumes "valid_session sid" "a = [] \<or> is_ws (last a)"
  shows "codex_session_id_from_task_content (a @ CODEX_TASK_SESSION_PREFIX @ sid) = Some sid"
    "\<not> task_content_is_stopped (a @ CODEX_TASK_SESSION_PREFIX @ sid)"
  using last_word_append [OF _ session_word [OF assms(1)] assms(2)] assms(1) marker_words(8)
  by (auto simp: codex_session_id_from_task_content_def task_content_is_stopped_def valid_session_def
      stopped_not_session [symmetric])

lemma stop_marker_last:
  assumes "\<not> is_ws (last l)" "l \<noteq> []"
  shows "task_content_is_stopped (l @ [32] @ TASK_STOPPED_MARKER)"
    "task_content_without_stop_marker (l @ [32] @ TASK_STOPPED_MARKER) = l"
proof -
  have ws: "is_ws 32" by (simp add: is_ws_def)
  show st: "task_content_is_stopped (l @ [32] @ TASK_STOPPED_MARKER)"
    using last_word_append(1) [OF marker_words(2,1), of "l @ [32]"] ws by (simp add: task_content_is_stopped_def)
  have "\<not> is_ws (last TASK_STOPPED_MARKER)"
    using marker_words(1,2) last_in_set [of TASK_STOPPED_MARKER] by (auto simp: list_all_iff)
  then have "trim_end ((l @ [32]) @ TASK_STOPPED_MARKER) = (l @ [32]) @ TASK_STOPPED_MARKER"
    using marker_words(2) by (intro trim_end_append_word)
  moreover have "trim_end (l @ [32]) = l"
    using ws assms trim_end_append_word [of l "[]"] by (simp add: trim_end_snoc)
  ultimately show "task_content_without_stop_marker (l @ [32] @ TASK_STOPPED_MARKER) = l"
    using st strip_suffix_append [of "l @ [32]" TASK_STOPPED_MARKER]
    by (simp add: task_content_without_stop_marker_def)
qed

text \<open>The shape of a linked text.\<close>

lemma with_codex_session_shape:
  assumes sid: "valid_session sid"
  obtains a where "a = [] \<or> is_ws (last a)" "split_whitespace a = kept_words c sid"
    "task_content_with_codex_session c sid = (if task_content_is_stopped c
       then (a @ CODEX_TASK_SESSION_PREFIX @ sid) @ [32] @ TASK_STOPPED_MARKER else a @ CODEX_TASK_SESSION_PREFIX @ sid)"
proof -
  let ?d = "task_content_without_matching_codex_sessions
     (task_content_without_codex_session (task_content_without_stop_marker c)) sid"
  define a where "a = (if ?d = [] then [] else ?d @ [32])"
  have ws: "is_ws 32" by (simp add: is_ws_def)
  have "split_whitespace ?d = kept_words c sid"
    by (simp add: without_matching_words [OF sid] words_without_codex_session kept_words_def Let_def)
  moreover have "split_whitespace (?d @ [32]) = split_whitespace ?d"
    using ws split_whitespace_append [of ?d "[32]"] by simp
  ultimately have "split_whitespace a = kept_words c sid" by (auto simp: a_def)
  moreover have "a = [] \<or> is_ws (last a)" using ws by (simp add: a_def)
  moreover have "task_content_with_codex_session c sid = (if task_content_is_stopped c
       then (a @ CODEX_TASK_SESSION_PREFIX @ sid) @ [32] @ TASK_STOPPED_MARKER else a @ CODEX_TASK_SESSION_PREFIX @ sid)"
    by (simp add: task_content_with_codex_session_def a_def Let_def)
  ultimately show thesis using that by blast
qed

lemma linked_last:
  assumes "valid_session sid"
  shows "\<not> is_ws (last (a @ CODEX_TASK_SESSION_PREFIX @ sid))"
  using session_word [OF assms] marker_words(8) last_in_set [of "CODEX_TASK_SESSION_PREFIX @ sid"]
  by (auto simp: list_all_iff)

lemma with_codex_session_reads:
  assumes sid: "valid_session sid"
  shows "recoverable_codex_session_id_from_task_content (task_content_with_codex_session c sid) = Some sid"
    "task_content_is_stopped (task_content_with_codex_session c sid) = task_content_is_stopped c"
    "split_whitespace (task_content_with_codex_session c sid) = kept_words c sid @ [CODEX_TASK_SESSION_PREFIX @ sid]
       @ (if task_content_is_stopped c then [TASK_STOPPED_MARKER] else [])"
proof -
  let ?w = "CODEX_TASK_SESSION_PREFIX @ sid"
  obtain a where a: "a = [] \<or> is_ws (last a)" "split_whitespace a = kept_words c sid"
    and t: "task_content_with_codex_session c sid = (if task_content_is_stopped c
       then (a @ ?w) @ [32] @ TASK_STOPPED_MARKER else a @ ?w)"
    using with_codex_session_shape [OF sid] by blast
  note cs = codex_session_last [OF sid a(1)]
  note st = stop_marker_last [OF linked_last [OF sid, of a]]
  have ne: "a @ ?w \<noteq> []" using marker_words(8) by simp
  have ws: "split_whitespace (a @ ?w) = kept_words c sid @ [?w]"
    using last_word_append(2) [OF _ session_word [OF sid] a(1)] marker_words(8) a(2) by simp
  show "task_content_is_stopped (task_content_with_codex_session c sid) = task_content_is_stopped c"
    unfolding t using cs(2) st(1) [OF ne] by simp
  have "task_content_without_stop_marker (task_content_with_codex_session c sid) = a @ ?w"
  proof -
    have "task_content_without_stop_marker (a @ ?w) = a @ ?w"
      using cs(2) by (simp add: task_content_without_stop_marker_def)
    then show ?thesis
      unfolding t by (cases "task_content_is_stopped c") (simp_all only: if_True if_False st(2) [OF ne])
  qed
  then show "recoverable_codex_session_id_from_task_content (task_content_with_codex_session c sid) = Some sid"
    using cs(1) by (simp add: recoverable_codex_session_id_from_task_content_def)
  have "split_whitespace (((a @ ?w) @ [32]) @ TASK_STOPPED_MARKER) = split_whitespace ((a @ ?w) @ [32]) @ [TASK_STOPPED_MARKER]"
    by (rule last_word_append(2) [OF marker_words(2,1)]) (simp add: is_ws_def)
  moreover have "split_whitespace ((a @ ?w) @ [32]) = split_whitespace (a @ ?w)"
    using split_whitespace_append [of "a @ ?w" "[32]"] by (simp add: is_ws_def)
  ultimately show "split_whitespace (task_content_with_codex_session c sid) = kept_words c sid @ [?w]
       @ (if task_content_is_stopped c then [TASK_STOPPED_MARKER] else [])"
    unfolding t using ws by simp
qed

text \<open>C14: after a task is linked to a session, reading it back recovers exactly that session, it is
  stopped exactly when it was, and its words are the old ones, less its earlier link and all
  links to the same session, followed by the new link and the stop marker.\<close>

theorem link_session_round_trip:
  assumes "valid_session sid"
  shows "recoverable_codex_session_id_from_task_content (task_content_with_codex_session c sid) = Some sid
    \<and> task_content_is_stopped (task_content_with_codex_session c sid) = task_content_is_stopped c
    \<and> split_whitespace (task_content_with_codex_session c sid) = kept_words c sid @ [CODEX_TASK_SESSION_PREFIX @ sid]
       @ (if task_content_is_stopped c then [TASK_STOPPED_MARKER] else [])"
  using with_codex_session_reads [OF assms] by blast

theorem link_session_round_trip_witness:
  "recoverable_codex_session_id_from_task_content
     (task_content_with_codex_session (lit ''fix it codex:old clt:stopped'') (lit ''ab-1'')) = Some (lit ''ab-1'')"
  by (rule link_session_round_trip [THEN conjunct1])
     (simp add: valid_session_def lit_def session_char_def char_defs)

text \<open>Removing a marker from a task's text deletes exactly the words equal to the marker and
  keeps all other words in order, so a task whose manual marker is removed is no longer manual.\<close>

theorem remove_marker_words:
  "split_whitespace (task_content_without_manual_marker c) = filter (\<lambda>w. w \<noteq> TASK_MANUAL_MARKER) (split_whitespace c)
   \<and> split_whitespace (task_content_without_interactive_done_marker c)
       = filter (\<lambda>w. w \<noteq> TASK_INTERACTIVE_DONE_MARKER) (split_whitespace c)
   \<and> \<not> task_content_is_manual (task_content_without_manual_marker c)
   \<and> \<not> task_content_is_interactive_done (task_content_without_interactive_done_marker c)"
  using without_marker_words [OF marker_words(4,3)] without_marker_words [OF marker_words(6,5)]
  by (simp add: task_content_without_manual_marker_def task_content_without_interactive_done_marker_def
      task_content_is_manual_def task_content_is_interactive_done_def)

text \<open>A task claimed for a manual session is manual, is not stopped, and belongs to that session.\<close>

theorem manual_session_claim:
  assumes sid: "valid_session sid"
  shows "task_content_is_manual (task_content_with_manual_session c sid)
    \<and> \<not> task_content_is_stopped (task_content_with_manual_session c sid)
    \<and> recoverable_codex_session_id_from_task_content (task_content_with_manual_session c sid) = Some sid"
proof -
  let ?b = "trim_end (task_content_without_manual_marker (task_content_without_recoverable_codex_session
     (task_content_without_stop_marker c))) @ [32] @ TASK_MANUAL_MARKER"
  have lw: "last_word ?b = Some TASK_MANUAL_MARKER"
    using last_word_append(1) [OF marker_words(4,3), of "trim_end (task_content_without_manual_marker
      (task_content_without_recoverable_codex_session (task_content_without_stop_marker c))) @ [32]"]
    by (simp add: is_ws_def)
  have ne: "TASK_MANUAL_MARKER \<noteq> TASK_STOPPED_MARKER" "TASK_MANUAL_MARKER \<noteq> CODEX_TASK_SESSION_PREFIX @ x" for x
    by (simp_all add: TASK_MANUAL_MARKER_def TASK_STOPPED_MARKER_def CODEX_TASK_SESSION_PREFIX_def lit_def)
  have ns: "\<not> task_content_is_stopped ?b" using lw ne(1) by (simp add: task_content_is_stopped_def)
  have "codex_session_id_from_task_content ?b = None"
    using lw ne(2) by (auto simp: codex_session_id_from_task_content_def strip_prefix_Some split: option.splits)
  then have "TASK_MANUAL_MARKER \<in> set (kept_words ?b sid)"
    using lw ns ne(2) last_word_in [OF lw] by (simp add: kept_words_def words_without_stop Let_def task_content_without_stop_marker_def)
  then show ?thesis
    using with_codex_session_reads [OF sid, of ?b] ns
    by (simp add: task_content_with_manual_session_def Let_def task_content_is_manual_def)
qed

theorem manual_session_claim_witness:
  "task_content_is_manual (task_content_with_manual_session (lit ''fix it'') (lit ''ab-1''))"
  by (rule manual_session_claim [THEN conjunct1])
     (simp add: valid_session_def lit_def session_char_def char_defs)

end
