(* ===== verification/Text_Theorems.thy ===== *)
theory Text_Theorems
  imports Task_Text Session_Theorems
begin

text \<open>
  Theorems on task text: the thinking level that cycling leaves, file names made from titles
  and of temporary files, and the status names.
\<close>

section \<open>Thinking levels\<close>

text \<open>The levels of the directives depend on the words of the text only.\<close>

fun levels :: "bool \<Rightarrow> str list \<Rightarrow> str option list" where
  "levels in_comment [] = []"
| "levels in_comment (token # tokens) =
     (let in_comment = (in_comment \<or> starts_with token (lit ''<!--''))
      in if in_comment then levels (\<not> ends_with token (lit ''-->'')) tokens
         else if token \<noteq> lit ''/think'' then levels False tokens
         else case tokens of
                [] \<Rightarrow> []
              | v # rest \<Rightarrow> (case think_level v of None \<Rightarrow> levels False tokens
                                | Some level \<Rightarrow> level # levels False rest))"

lemma directives_levels: "map snd (directives_from content offset ic tokens) = levels ic tokens"
proof (induction "length tokens" arbitrary: offset ic tokens rule: less_induct)
  case less
  show ?case
  proof (cases tokens)
    case (Cons t ts)
    have ih: "map snd (directives_from content o' i ts) = levels i ts" for o' i
      using less.hyps [of ts] Cons by simp
    show ?thesis
    proof (cases "(ic \<or> starts_with t (lit ''<!--'')) \<or> t \<noteq> lit ''/think'' \<or> ts = []")
      case True
      then show ?thesis using ih by (auto simp: Cons Let_def)
    next
      case False
      then obtain v rest where ts: "ts = v # rest" by (cases ts) auto
      have ih2: "map snd (directives_from content o' i rest) = levels i rest" for o' i
        using less.hyps [of rest] Cons ts by simp
      show ?thesis
      proof (cases "think_level v")
        case None
        then show ?thesis using False ih unfolding Cons ts
          by (subst directives_from.simps(2), subst levels.simps(2))
             (simp del: directives_from.simps levels.simps add: Let_def)
      next
        case (Some l)
        then show ?thesis using False ih2 unfolding Cons ts
          by (subst directives_from.simps(2), subst levels.simps(2))
             (simp del: directives_from.simps levels.simps add: Let_def)
      qed
    qed
  qed simp
qed

lemma think_read_words:
  "think_read content = (case levels False (split_whitespace content) of [] \<Rightarrow> None | d # ds \<Rightarrow> last (d # ds))"
proof -
  have "map snd (directives content) = levels False (split_whitespace content)"
    by (simp add: directives_def directives_levels)
  then show ?thesis
    by (cases "directives content") (auto simp: think_read_def last_map split: list.splits)
qed

definition plain_word :: "str \<Rightarrow> bool" where
  "plain_word w \<longleftrightarrow> w \<noteq> lit ''/think'' \<and> \<not> starts_with w (lit ''<!--'')"

lemma levels_plain: "list_all plain_word ws \<Longrightarrow> levels False (ws @ rest) = levels False rest"
  by (induction ws) (auto simp: plain_word_def Let_def)

lemma levels_plain_end: "list_all plain_word ws \<Longrightarrow> levels False ws = []"
  using levels_plain [of ws "[]"] by simp

lemma LEVELS_words: "l \<in> set (tl LEVELS) \<Longrightarrow> l \<noteq> [] \<and> list_all (\<lambda>c. \<not> is_ws c) l \<and> think_level l = Some (Some l)"
  by (auto simp: LEVELS_def lit_def think_level_def eq_ignore_ascii_case_def to_ascii_lowercase_def ascii_lower_def char_defs)

lemma think_next_level: "think_next l = [] \<or> think_next l \<in> set (tl LEVELS)"
proof -
  have "think_next l \<in> set LEVELS" unfolding think_next_def Let_def
    by (rule nth_mem) (simp add: LEVELS_def)
  then show ?thesis by (auto simp: LEVELS_def)
qed

lemma think_word: "list_all (\<lambda>c. \<not> is_ws c) (lit ''/think'')" "lit ''/think'' \<noteq> []"
  "\<not> starts_with (lit ''/think'') (lit ''<!--'')"
  by (simp_all add: lit_def is_ws_def starts_with_def)

lemma think_read_single:
  assumes "split_whitespace t = as @ [lit ''/think'', l] @ bs" "list_all plain_word as" "list_all plain_word bs"
    "think_level l = Some (Some l)"
  shows "think_read t = Some l"
proof -
  have "levels False (lit ''/think'' # l # bs) = Some l # levels False bs"
    using think_word(3) assms(4) by (subst levels.simps(2)) (simp del: levels.simps add: Let_def)
  then show ?thesis
    using assms by (simp add: think_read_words levels_plain levels_plain_end del: levels.simps)
qed

text \<open>Cycling the level of a task whose stripped text has no further directive or comment
  writes the next level so that reading the text gives it back, and keeps every word of the
  stripped text.\<close>

theorem think_cycle_reads_back:
  assumes plain: "list_all plain_word (split_whitespace (think_strip content))"
  shows "think_read (fst (think_cycle content)) = snd (think_cycle content)
    \<and> (\<exists>a b. split_whitespace (think_strip content) = a @ b \<and> split_whitespace (fst (think_cycle content))
         = a @ (case snd (think_cycle content) of None \<Rightarrow> [] | Some l \<Rightarrow> [lit ''/think'', l]) @ b)
    \<and> snd (think_cycle content) = (let l = think_next (case think_read content of None \<Rightarrow> [] | Some l \<Rightarrow> l)
         in if l = [] then None else Some l)"
proof -
  let ?body = "think_strip content"
  let ?l = "think_next (case think_read content of None \<Rightarrow> [] | Some l \<Rightarrow> l)"
  show ?thesis
  proof (cases "?l = []")
    case True
    then show ?thesis
      using levels_plain_end [OF plain] by (auto simp: think_cycle_def Let_def think_read_words)
  next
    case False
    then have l: "?l \<noteq> []" "list_all (\<lambda>c. \<not> is_ws c) ?l" "think_level ?l = Some (Some ?l)"
      using think_next_level LEVELS_words by blast+
    let ?i = "case str_find ?body [10] of None \<Rightarrow> length ?body | Some i \<Rightarrow> i"
    let ?a = "take ?i ?body" and ?b = "drop ?i ?body"
    have b: "?b = [] \<or> is_ws (hd ?b)"
    proof (cases "str_find ?body [10]")
      case (Some i)
      then obtain t where "drop i ?body = 10 # t" using str_find_Some [OF Some] by (auto simp: starts_with_iff)
      then show ?thesis using Some by (simp add: is_ws_def)
    qed simp
    have ws32: "is_ws 32" by (simp add: is_ws_def)
    have words: "split_whitespace ?body = split_whitespace ?a @ split_whitespace ?b"
      using split_whitespace_append [of ?a ?b] b by simp
    have mid: "split_whitespace (lit '' /think '' @ ?l @ ?b) = [lit ''/think'', ?l] @ split_whitespace ?b"
    proof -
      have "lit '' /think '' = 32 # lit ''/think'' @ [32]" by (simp add: lit_def)
      moreover have "split_whitespace (lit ''/think'' @ 32 # ?l @ ?b) = lit ''/think'' # split_whitespace (?l @ ?b)"
        using split_whitespace_word [OF think_word(2,1), of "32 # ?l @ ?b"] ws32 by simp
      ultimately show ?thesis using split_whitespace_word [OF l(1,2) b] ws32 by simp
    qed
    have all: "split_whitespace (?a @ lit '' /think '' @ ?l @ ?b) = split_whitespace ?a @ [lit ''/think'', ?l] @ split_whitespace ?b"
      using split_whitespace_append [of ?a "lit '' /think '' @ ?l @ ?b"] mid by (simp add: lit_def ws32)
    have "list_all plain_word (split_whitespace ?a)" "list_all plain_word (split_whitespace ?b)"
      using plain words by simp_all
    then have "think_read (?a @ lit '' /think '' @ ?l @ ?b) = Some ?l"
      by (rule think_read_single [OF all _ _ l(3)])
    moreover have "think_cycle content = (?a @ lit '' /think '' @ ?l @ ?b, Some ?l)"
      using False by (simp add: think_cycle_def Let_def)
    ultimately show ?thesis using False words all
      by (simp only: fst_conv snd_conv option.case Let_def if_False) blast
  qed
qed

theorem think_cycle_reads_back_witness:
  "think_read (fst (think_cycle (lit ''plan it''))) = Some (lit ''low'')"
proof -
  have d: "directives (lit ''plan it'') = []"
    by (simp add: directives_def lit_def is_ws_def starts_with_def Let_def)
  have st: "think_strip (lit ''plan it'') = lit ''plan it''"
    by (simp add: think_strip_def d) (simp add: lit_def trim_def trim_end_def trim_end_by_def trim_start_def trim_start_by_def is_ws_def)
  have "list_all plain_word (split_whitespace (think_strip (lit ''plan it'')))"
    unfolding st by (simp add: lit_def is_ws_def plain_word_def starts_with_def)
  note reads = think_cycle_reads_back [OF this]
  have "think_read (lit ''plan it'') = None" by (simp add: think_read_def d)
  then have "(let l = think_next (case think_read (lit ''plan it'') of None \<Rightarrow> [] | Some l \<Rightarrow> l)
      in if l = [] then None else Some l) = Some (lit ''low'')"
    by (simp add: think_next_def LEVELS_def lit_def)
  with reads show ?thesis by (simp only:)
qed

text \<open>Inside a comment that is never closed the cycle key has no effect: the level it reports is
  not the level the text it wrote is read with.\<close>

theorem think_cycle_open_comment:
  "snd (think_cycle (lit ''plan <!-- x'')) = Some (lit ''low'')
   \<and> think_read (fst (think_cycle (lit ''plan <!-- x''))) = None"
proof -
  have d: "directives (lit ''plan <!-- x'') = []"
    by (simp add: directives_def lit_def is_ws_def starts_with_def ends_with_def Let_def)
  have st: "think_strip (lit ''plan <!-- x'') = lit ''plan <!-- x''"
    by (simp add: think_strip_def d) (simp add: lit_def trim_def trim_end_def trim_end_by_def trim_start_def trim_start_by_def is_ws_def)
  have rd: "think_read (lit ''plan <!-- x'') = None" by (simp add: think_read_def d)
  have nx: "think_next [] = lit ''low''" by (simp add: think_next_def LEVELS_def lit_def)
  have nl: "str_find (lit ''plan <!-- x'') [10] = None" by (simp add: lit_def starts_with_def)
  have cy: "think_cycle (lit ''plan <!-- x'') = (lit ''plan <!-- x /think low'', Some (lit ''low''))"
    by (simp add: think_cycle_def Let_def rd st nx nl) (simp add: lit_def)
  have "think_read (lit ''plan <!-- x /think low'') = None"
    unfolding think_read_words by (simp add: lit_def is_ws_def starts_with_def ends_with_def Let_def)
  with cy show ?thesis by simp
qed

section \<open>Names of files\<close>

text \<open>The slug of any title is a safe file name: not empty, at most 48 characters, only lower
  case letters, digits and dashes, and no dash at either end.\<close>

definition slug_char :: "rchar \<Rightarrow> bool" where
  "slug_char c \<longleftrightarrow> is_ascii_lowercase c \<or> is_ascii_digit c \<or> c = 45"

definition slug_ok :: "str \<Rightarrow> bool" where
  "slug_ok s \<longleftrightarrow> list_all slug_char s \<and> length s \<le> 48 \<and> (s = [] \<or> hd s \<noteq> 45)"

lemma to_lowercase_chars: "list_all (\<lambda>c. is_ascii_alphanumeric c \<longrightarrow> slug_char c) (to_lowercase c)"
  by (auto simp: to_lowercase_def ascii_lower_def slug_char_def char_defs)

lemma slug_from_ok:
  "list_all (\<lambda>c. is_ascii_alphanumeric c \<longrightarrow> slug_char c) cs \<Longrightarrow> slug_ok s \<Longrightarrow> length s < 48 \<Longrightarrow> slug_ok (slug_from s d cs)"
proof (induction cs arbitrary: s d)
  case (Cons c cs)
  have nd: "is_ascii_alphanumeric c \<Longrightarrow> c \<noteq> 45" by (auto simp: char_defs)
  have "slug_ok (s @ [c])" if "is_ascii_alphanumeric c"
    using that Cons.prems nd by (cases s) (auto simp: slug_ok_def)
  moreover have "slug_ok (s @ [45])" if "s \<noteq> []"
    using that Cons.prems by (cases s) (auto simp: slug_ok_def slug_char_def)
  ultimately show ?case using Cons by (auto simp: Let_def split: if_splits)
qed simp

text \<open>C40: a slug is a name: whatever the text, it is not empty, has at most 48 characters, only ASCII
  lower-case letters, digits and hyphens, and neither begins nor ends with a hyphen.\<close>

theorem slugify_safe:
  "slugify v \<noteq> [] \<and> length (slugify v) \<le> 48 \<and> list_all slug_char (slugify v)
   \<and> hd (slugify v) \<noteq> 45 \<and> last (slugify v) \<noteq> 45"
proof -
  let ?s = "slug_from [] False (concat (map to_lowercase v))"
  let ?t = "trim_end_by (\<lambda>c. c = 45) ?s"
  have "list_all (\<lambda>c. is_ascii_alphanumeric c \<longrightarrow> slug_char c) (concat (map to_lowercase v))"
    using to_lowercase_chars by (auto simp: list_all_iff)
  then have ok: "slug_ok ?s" by (rule slug_from_ok) (simp_all add: slug_ok_def)
  obtain u where u: "?s = ?t @ u"
    unfolding trim_end_by_def by (metis rev_append rev_rev_ident takeWhile_dropWhile_id)
  show ?thesis
  proof (cases "?t = []")
    case True
    then show ?thesis by (simp add: slugify_def lit_def slug_char_def char_defs)
  next
    case False
    then have "dropWhile (\<lambda>c. c = 45) (rev ?s) \<noteq> []" by (auto simp: trim_end_by_def)
    then have "last ?t \<noteq> 45" unfolding trim_end_by_def last_rev by (rule hd_dropWhile)
    moreover have "list_all slug_char ?t" "length ?t \<le> 48" "hd ?t \<noteq> 45"
    proof -
      have "slug_ok (?t @ u)" using ok u by simp
      then show "list_all slug_char ?t" "length ?t \<le> 48" "hd ?t \<noteq> 45"
        using False by (auto simp: slug_ok_def simp del: append_Nil2)
    qed
    ultimately show ?thesis using False by (simp add: slugify_def Let_def)
  qed
qed

end
