(* ===== verification/Dependency_Theorems.thy ===== *)
theory Dependency_Theorems
  imports Dependency_Graph
begin

text \<open>
  Theorems on admission: the search of the dependency graph is exact, an admitted task has
  only completed prerequisites, and dependency waits cannot deadlock.
\<close>

section \<open>The dependency graph\<close>

definition dep_edge :: "Snapshot \<Rightarrow> str \<Rightarrow> str \<Rightarrow> bool" where
  "dep_edge s i j \<longleftrightarrow> (\<exists>t. referenced s i = Inr t \<and> j \<in> set (depends_on (meta t)))"

definition closed_under :: "Snapshot \<Rightarrow> str set \<Rightarrow> bool" where
  "closed_under s D \<longleftrightarrow> (\<forall>i \<in> D. \<exists>t. referenced s i = Inr t \<and> set (depends_on (meta t)) \<subseteq> D)"

definition acyclic_on :: "Snapshot \<Rightarrow> str set \<Rightarrow> bool" where
  "acyclic_on s D \<longleftrightarrow> (\<forall>i \<in> D. \<not> (dep_edge s)\<^sup>+\<^sup>+ i i)"

lemma closedE:
  assumes "closed_under s D" "i \<in> D"
  obtains t where "referenced s i = Inr t" "set (depends_on (meta t)) \<subseteq> D"
  using assms by (auto simp: closed_under_def)

lemma closed_ref: "closed_under s D \<Longrightarrow> i \<in> D \<Longrightarrow> \<exists>t. referenced s i = Inr t"
  by (erule closedE) auto

lemma closed_edge: "closed_under s D \<Longrightarrow> i \<in> D \<Longrightarrow> dep_edge s i j \<Longrightarrow> j \<in> D"
  by (erule closedE) (auto simp: dep_edge_def)

lemma closed_reach: "(dep_edge s)\<^sup>*\<^sup>* i j \<Longrightarrow> closed_under s D \<Longrightarrow> i \<in> D \<Longrightarrow> j \<in> D"
  by (induction rule: rtranclp_induct) (blast intro: closed_edge)+

lemma add_node:
  assumes "closed_under s D" "acyclic_on s D" "i \<notin> D" "referenced s i = Inr t" "set (depends_on (meta t)) \<subseteq> D"
  shows "closed_under s (insert i D) \<and> acyclic_on s (insert i D)"
proof -
  have "\<not> (dep_edge s)\<^sup>+\<^sup>+ i i"
  proof
    assume "(dep_edge s)\<^sup>+\<^sup>+ i i"
    then obtain j where "dep_edge s i j" "(dep_edge s)\<^sup>*\<^sup>* j i" by (meson tranclpD)
    then have "j \<in> D" using assms(4,5) by (auto simp: dep_edge_def)
    with \<open>(dep_edge s)\<^sup>*\<^sup>* j i\<close> assms(1,3) show False by (blast dest: closed_reach)
  qed
  moreover have "closed_under s (insert i D)"
    unfolding closed_under_def
  proof
    fix k assume "k \<in> insert i D"
    then show "\<exists>t. referenced s k = Inr t \<and> set (depends_on (meta t)) \<subseteq> insert i D"
    proof (cases "k = i")
      case True
      then show ?thesis using assms(4,5) by auto
    next
      case False
      with \<open>k \<in> insert i D\<close> obtain u where "referenced s k = Inr u" "set (depends_on (meta u)) \<subseteq> D"
        using closedE [OF assms(1), of k] by auto
      then show ?thesis by auto
    qed
  qed
  ultimately show ?thesis using assms(2) by (auto simp: acyclic_on_def)
qed

text \<open>A task of the snapshot is the one its id refers to, where the id is unique.\<close>

lemma referenced_self:
  assumes "t \<in> set (tasks s)" "m_id (meta t) \<noteq> []" "referenced s (m_id (meta t)) = Inr u"
  shows "u = t"
proof -
  have "filter (\<lambda>x. m_id (meta x) = m_id (meta t) \<and> m_id (meta t) \<noteq> []) (tasks s) = [u]"
    using assms(3) by (auto simp: referenced_def split: list.splits)
  moreover have "t \<in> set (filter (\<lambda>x. m_id (meta x) = m_id (meta t) \<and> m_id (meta t) \<noteq> []) (tasks s))"
    using assms(1,2) by simp
  ultimately show ?thesis by simp
qed

definition visit_inv :: "Snapshot \<Rightarrow> str list \<Rightarrow> str list \<Rightarrow> bool" where
  "visit_inv s path dn \<longleftrightarrow> closed_under s (set dn) \<and> acyclic_on s (set dn) \<and> set dn \<inter> set path = {}"

lemma visit_sound:
  "visit s path dn t = Inr dn' \<Longrightarrow> visit_inv s path dn \<Longrightarrow> t \<in> set (tasks s) \<Longrightarrow>
     visit_inv s path dn' \<and> set dn \<subseteq> set dn' \<and> (if m_id (meta t) = [] then set (depends_on (meta t)) \<subseteq> set dn' else m_id (meta t) \<in> set dn')"
  "visit_all s path dn is = Inr dn' \<Longrightarrow> visit_inv s path dn \<Longrightarrow>
     visit_inv s path dn' \<and> set dn \<subseteq> set dn' \<and> set is \<subseteq> set dn'"
proof (induction s path dn t and s path dn "is" arbitrary: dn' and dn' rule: visit_visit_all.induct)
  case (1 s path dn t)
  let ?i = "m_id (meta t)"
  show ?case
  proof (cases "?i = []")
    case True
    then show ?thesis using "1.IH"(1) [OF True] "1.prems" by (auto simp: visit.simps)
  next
    case False
    then obtain u where u: "referenced s ?i = Inr u" and np: "?i \<notin> set path"
      using "1.prems"(1) by (auto simp: visit.simps split: sum.splits if_splits)
    have ut: "u = t" using referenced_self [OF "1.prems"(3) False u] .
    show ?thesis
    proof (cases "?i \<in> set dn")
      case True
      then show ?thesis using "1.prems" False u np by (simp add: visit.simps)
    next
      case nd: False
      then obtain d where d: "visit_all s (path @ [?i]) dn (depends_on (meta t)) = Inr d" "dn' = ?i # d"
        using "1.prems"(1) False u np by (auto simp: visit.simps split: sum.splits)
      have "visit_inv s (path @ [?i]) dn" using "1.prems"(2) nd by (auto simp: visit_inv_def)
      note ih = "1.IH"(2) [OF False u np nd d(1) this]
      then have "?i \<notin> set d" "closed_under s (set d)" "acyclic_on s (set d)" by (auto simp: visit_inv_def)
      then have "closed_under s (insert ?i (set d)) \<and> acyclic_on s (insert ?i (set d))"
        using add_node [of s "set d" ?i t] u ut ih by auto
      then show ?thesis using ih d(2) np False by (auto simp: visit_inv_def)
    qed
  qed
next
  case (3 s path dn i "is")
  then obtain t d where t: "referenced s i = Inr t" "visit s path dn t = Inr d" "visit_all s path d is = Inr dn'"
    by (auto split: sum.splits)
  have ti: "t \<in> set (tasks s)" "m_id (meta t) = i" "i \<noteq> []" using referenced_in [OF t(1)] by auto
  note v = "3.IH"(1) [OF t(1,2) "3.prems"(2) ti(1)]
  have "visit_inv s path d" using v by blast
  note va = "3.IH"(2) [OF t(1,2,3) this]
  show ?case using v va ti by auto
qed auto

text \<open>Errors of the search are genuine.\<close>

definition genuine :: "Snapshot \<Rightarrow> graph_error \<Rightarrow> bool" where
  "genuine s e = (case e of
      Missing_prerequisite i \<Rightarrow> referenced s i = Inl e
    | Duplicate_id i \<Rightarrow> referenced s i = Inl e
    | Cycle p i \<Rightarrow> (dep_edge s)\<^sup>+\<^sup>+ i i)"

lemma referenced_genuine: "referenced s i = Inl e \<Longrightarrow> genuine s e"
  by (auto simp: genuine_def referenced_def split: list.splits)

lemma visit_genuine:
  "visit s path dn t = Inl e \<Longrightarrow> t \<in> set (tasks s) \<Longrightarrow> (m_id (meta t) = [] \<longrightarrow> path = []) \<Longrightarrow>
     \<forall>x \<in> set path. (dep_edge s)\<^sup>+\<^sup>+ x (m_id (meta t)) \<Longrightarrow> genuine s e"
  "visit_all s path dn is = Inl e \<Longrightarrow> \<forall>x \<in> set path. \<forall>i \<in> set is. (dep_edge s)\<^sup>+\<^sup>+ x i \<Longrightarrow> genuine s e"
proof (induction s path dn t and s path dn "is" arbitrary: e and e rule: visit_visit_all.induct)
  case (1 s path dn t)
  let ?i = "m_id (meta t)"
  show ?case
  proof (cases "?i = []")
    case True
    then show ?thesis using "1.IH"(1) [OF True] "1.prems" by (auto simp: visit.simps)
  next
    case False
    show ?thesis
    proof (cases "referenced s ?i")
      case (Inl e')
      then show ?thesis using "1.prems"(1) False referenced_genuine by (auto simp: visit.simps)
    next
      case (Inr u)
      have ut: "u = t" using referenced_self [OF "1.prems"(2) False Inr] .
      show ?thesis
      proof (cases "?i \<in> set path")
        case True
        then show ?thesis using "1.prems" False Inr by (auto simp: visit.simps genuine_def)
      next
        case np: False
        then have nd: "?i \<notin> set dn"
          and va: "visit_all s (path @ [?i]) dn (depends_on (meta t)) = Inl e"
          using "1.prems"(1) False Inr by (auto simp: visit.simps split: if_splits sum.splits)
        have edge: "dep_edge s ?i j" if "j \<in> set (depends_on (meta t))" for j
          using that Inr ut by (auto simp: dep_edge_def)
        have "\<forall>x \<in> set (path @ [?i]). \<forall>j \<in> set (depends_on (meta t)). (dep_edge s)\<^sup>+\<^sup>+ x j"
          using "1.prems"(4) edge by (auto intro: tranclp.trancl_into_trancl)
        then show ?thesis using "1.IH"(2) [OF False Inr np nd va] by blast
      qed
    qed
  qed
next
  case (3 s path dn i "is")
  show ?case
  proof (cases "referenced s i")
    case (Inl e')
    then show ?thesis using "3.prems" referenced_genuine by auto
  next
    case (Inr t)
    have ti: "t \<in> set (tasks s)" "m_id (meta t) = i" "i \<noteq> []" using referenced_in [OF Inr] by auto
    show ?thesis
    proof (cases "visit s path dn t")
      case (Inl e')
      then show ?thesis using "3.IH"(1) [OF Inr Inl ti(1)] "3.prems" ti Inr by auto
    next
      case d: (Inr d)
      then show ?thesis using "3.IH"(2) [OF Inr d] "3.prems" Inr by auto
    qed
  qed
qed auto

section \<open>Theorems\<close>

lemma visit_graph:
  assumes v: "visit s [] [] t = Inr dn" and t: "t \<in> set (tasks s)"
  shows "(\<forall>i j. i \<in> set (depends_on (meta t)) \<longrightarrow> (dep_edge s)\<^sup>*\<^sup>* i j \<longrightarrow>
            (\<exists>u. referenced s j = Inr u) \<and> \<not> (dep_edge s)\<^sup>+\<^sup>+ j j)
    \<and> (m_id (meta t) \<noteq> [] \<longrightarrow> \<not> (dep_edge s)\<^sup>+\<^sup>+ (m_id (meta t)) (m_id (meta t)))"
proof -
  have "visit_inv s [] []" by (simp add: visit_inv_def closed_under_def acyclic_on_def)
  note vs = visit_sound(1) [OF v this t]
  then have cl: "closed_under s (set dn)" and ac: "acyclic_on s (set dn)" by (auto simp: visit_inv_def)
  have deps: "set (depends_on (meta t)) \<subseteq> set dn"
  proof (cases "m_id (meta t) = []")
    case False
    then have i: "m_id (meta t) \<in> set dn" using vs by simp
    then obtain u where u: "referenced s (m_id (meta t)) = Inr u" "set (depends_on (meta u)) \<subseteq> set dn"
      using cl by (auto simp: closed_under_def)
    then show ?thesis using referenced_self [OF t False u(1)] by simp
  qed (use vs in simp)
  have "(\<exists>u. referenced s j = Inr u) \<and> \<not> (dep_edge s)\<^sup>+\<^sup>+ j j"
    if "i \<in> set (depends_on (meta t))" "(dep_edge s)\<^sup>*\<^sup>* i j" for i j
  proof -
    have j: "j \<in> set dn" using closed_reach [OF that(2) cl] that(1) deps by blast
    then show ?thesis using closed_ref [OF cl j] ac by (simp add: acyclic_on_def)
  qed
  moreover have "m_id (meta t) \<noteq> [] \<Longrightarrow> \<not> (dep_edge s)\<^sup>+\<^sup>+ (m_id (meta t)) (m_id (meta t))"
    using vs ac by (auto simp: acyclic_on_def)
  ultimately show ?thesis by blast
qed

text \<open>C11: the search of a task's dependency graph is exact.  Where it succeeds, every id that the
  task depends on, directly or not, refers to exactly one task and lies on no cycle, nor does
  the task itself; where it fails, the id it reports is indeed missing, duplicated or on a
  cycle.\<close>

theorem visit_exact:
  assumes t: "t \<in> set (tasks s)"
  shows "case visit s [] [] t of
      Inr _ \<Rightarrow> (\<forall>i j. i \<in> set (depends_on (meta t)) \<longrightarrow> (dep_edge s)\<^sup>*\<^sup>* i j \<longrightarrow>
                  (\<exists>u. referenced s j = Inr u) \<and> \<not> (dep_edge s)\<^sup>+\<^sup>+ j j)
              \<and> (m_id (meta t) \<noteq> [] \<longrightarrow> \<not> (dep_edge s)\<^sup>+\<^sup>+ (m_id (meta t)) (m_id (meta t)))
    | Inl e \<Rightarrow> genuine s e"
proof (cases "visit s [] [] t")
  case (Inl e)
  then show ?thesis using visit_genuine(1) [OF Inl t] by simp
next
  case (Inr dn)
  then show ?thesis using visit_graph [OF Inr t] by simp
qed

definition demo_meta :: "string \<Rightarrow> string list \<Rightarrow> Metadata" where
  "demo_meta i ds = default_metadata\<lparr>m_id := lit i, depends_on := map lit ds\<rparr>"

definition demo_task :: "TaskStatus \<Rightarrow> nat \<Rightarrow> string \<Rightarrow> string list \<Rightarrow> Task" where
  "demo_task st n i ds = \<lparr>board = [], status = st, index = n,
     entry = \<lparr>t_source = MarkdownLine n, t_summary = lit i, t_content = lit i, t_metadata = None, t_has_subtasks = False\<rparr>,
     meta = demo_meta i ds, error = None, completion_wait = None, owner = ''unclaimed''\<rparr>"

definition demo_snapshot :: Snapshot where
  "demo_snapshot = \<lparr>tasks = [demo_task Todo 1 ''a'' [''b''], demo_task Todo 2 ''b'' [''c''], demo_task Done 1 ''c'' []],
     changed_files = []\<rparr>"

definition demo_cyclic :: Snapshot where
  "demo_cyclic = \<lparr>tasks = [demo_task Todo 1 ''a'' [''b''], demo_task Todo 2 ''b'' [''a'']], changed_files = []\<rparr>"

lemmas demo_graph_defs = demo_snapshot_def demo_cyclic_def demo_task_def demo_meta_def default_metadata_def lit_def

theorem visit_exact_witness:
  "\<not> (dep_edge demo_snapshot)\<^sup>+\<^sup>+ (lit ''a'') (lit ''a'') \<and> (dep_edge demo_cyclic)\<^sup>+\<^sup>+ (lit ''a'') (lit ''a'')"
proof
  have ok: "visit demo_snapshot [] [] (demo_task Todo 1 ''a'' [''b'']) = Inr [lit ''a'', lit ''b'', lit ''c'']"
    by (simp add: demo_graph_defs visit.simps referenced_def)
  have m: "demo_task Todo 1 ''a'' [''b''] \<in> set (tasks demo_snapshot)" by (simp add: demo_snapshot_def)
  have i: "m_id (meta (demo_task Todo 1 ''a'' [''b''])) = lit ''a''" "lit ''a'' \<noteq> []"
    by (simp_all add: demo_task_def demo_meta_def lit_def)
  show "\<not> (dep_edge demo_snapshot)\<^sup>+\<^sup>+ (lit ''a'') (lit ''a'')"
    using visit_exact [OF m, unfolded ok] i by simp
  have bad: "visit demo_cyclic [] [] (demo_task Todo 1 ''a'' [''b'']) = Inl (Cycle [lit ''a'', lit ''b''] (lit ''a''))"
    by (simp add: demo_graph_defs visit.simps referenced_def)
  have m2: "demo_task Todo 1 ''a'' [''b''] \<in> set (tasks demo_cyclic)" by (simp add: demo_cyclic_def)
  show "(dep_edge demo_cyclic)\<^sup>+\<^sup>+ (lit ''a'') (lit ''a'')"
    using visit_exact [OF m2, unfolded bad] by (simp add: genuine_def)
qed

text \<open>The test whether another task waits for this one is exact: it holds where a chain of
  dependencies, through uniquely referenced tasks, leads from the other task to the id.\<close>

lemma leave_seen:
  assumes "(dep_edge s)\<^sup>*\<^sup>* x i" "x \<in> S" "i \<notin> S" "\<And>x y. x \<in> S \<Longrightarrow> dep_edge s x y \<Longrightarrow> y \<in> S \<union> T"
  shows "\<exists>y \<in> T. (dep_edge s)\<^sup>*\<^sup>* y i"
  using assms(1,2)
proof (induction rule: converse_rtranclp_induct)
  case base
  then show ?case using assms(3) by simp
next
  case (step y z)
  then show ?case using assms(4) by blast
qed

lemma dep_search_exact:
  "i \<notin> set seen \<Longrightarrow> (\<And>x y. x \<in> set seen \<Longrightarrow> dep_edge s x y \<Longrightarrow> y \<in> set seen \<union> set ds) \<Longrightarrow>
    dep_search s i seen ds \<longleftrightarrow> (\<exists>d \<in> set ds. (dep_edge s)\<^sup>*\<^sup>* d i)"
proof (induction s i seen ds rule: dep_search.induct)
  case (2 s i seen d ds)
  show ?case
  proof (cases "d = i")
    case True
    then show ?thesis by auto
  next
    case di: False
    show ?thesis
    proof (cases "d \<in> set seen")
      case True
      have inv: "\<And>x y. x \<in> set seen \<Longrightarrow> dep_edge s x y \<Longrightarrow> y \<in> set seen \<union> set ds" using "2.prems"(2) True by auto
      have "(dep_edge s)\<^sup>*\<^sup>* d i \<Longrightarrow> \<exists>y \<in> set ds. (dep_edge s)\<^sup>*\<^sup>* y i"
        using leave_seen [of s d i "set seen" "set ds"] True "2.prems"(1) inv by blast
      moreover have "dep_search s i seen ds \<longleftrightarrow> (\<exists>d \<in> set ds. (dep_edge s)\<^sup>*\<^sup>* d i)"
        using inv by (intro "2.IH"(1) [OF di True "2.prems"(1)])
      ultimately show ?thesis using True di by auto
    next
      case nd: False
      have step: "(dep_edge s)\<^sup>*\<^sup>* d i \<longleftrightarrow> (\<exists>e. dep_edge s d e \<and> (dep_edge s)\<^sup>*\<^sup>* e i)"
        using di by (metis converse_rtranclpE converse_rtranclp_into_rtranclp)
      show ?thesis
      proof (cases "referenced s d")
        case (Inl e)
        then have ne: "\<not> dep_edge s d y" for y by (simp add: dep_edge_def)
        have "dep_search s i (d # seen) ds \<longleftrightarrow> (\<exists>d \<in> set ds. (dep_edge s)\<^sup>*\<^sup>* d i)"
          using "2.prems" di ne by (intro "2.IH"(2) [OF di nd Inl]) auto
        then show ?thesis using Inl di nd ne step by auto
      next
        case (Inr t)
        then have succ: "dep_edge s d y \<longleftrightarrow> y \<in> set (depends_on (meta t))" for y by (simp add: dep_edge_def)
        have "dep_search s i (d # seen) (depends_on (meta t) @ ds) \<longleftrightarrow>
            (\<exists>d \<in> set (depends_on (meta t) @ ds). (dep_edge s)\<^sup>*\<^sup>* d i)"
          using "2.prems" di succ by (intro "2.IH"(3) [OF di nd Inr]) auto
        then show ?thesis using Inr di nd succ step by auto
      qed
    qed
  qed
qed simp

theorem task_depends_on_exact:
  "task_depends_on s t i \<longleftrightarrow> (\<exists>d \<in> set (depends_on (meta t)). (dep_edge s)\<^sup>*\<^sup>* d i)"
  unfolding task_depends_on_def by (rule dep_search_exact) simp_all

text \<open>What the search and the empty list of waits say of one prerequisite.\<close>

lemma visit_dep_ok:
  assumes v: "visit s [] [] t = Inr dn" and t: "t \<in> set (tasks s)" and i: "i \<in> set (depends_on (meta t))"
  shows "\<exists>u. referenced s i = Inr u"
proof -
  have vs: "visit_inv s [] []" by (simp add: visit_inv_def closed_under_def acyclic_on_def)
  show ?thesis
  proof (cases "m_id (meta t) = []")
    case True
    then have "i \<in> set dn" "closed_under s (set dn)"
      using visit_sound(1) [OF v vs t] i by (auto simp: visit_inv_def)
    then show ?thesis using closed_ref by metis
  next
    case False
    then have mi: "m_id (meta t) \<in> set dn" and cl: "closed_under s (set dn)"
      using visit_sound(1) [OF v vs t] by (auto simp: visit_inv_def)
    obtain w where w: "referenced s (m_id (meta t)) = Inr w" "set (depends_on (meta w)) \<subseteq> set dn"
      using closedE [OF cl mi] by blast
    then have "i \<in> set dn" using referenced_self [OF t False w(1)] i by auto
    then show ?thesis using closed_ref [OF cl] by metis
  qed
qed

lemma prerequisite_complete:
  "prerequisite_waits s t = [] \<Longrightarrow> i \<in> set (depends_on (meta t)) \<Longrightarrow> referenced s i = Inr u \<Longrightarrow> task_complete u"
  by (auto simp: prerequisite_waits_def List.map_filter_def filter_empty_conv split: if_splits)

lemma waits_NilD:
  assumes "waits json uuid5 s t = []" "\<not> task_complete t"
  shows "error t = None \<and> (\<exists>dn. visit s [] [] t = Inr dn) \<and> prerequisite_waits s t = []"
  using assms by (auto simp: waits_def split: option.splits sum.splits)



text \<open>C13: dependency waits cannot deadlock.  From any unfinished task whose graph passes the search
  there is an unfinished task (itself or one it depends on, directly or not) all of whose
  prerequisites are complete, so nothing but overlaps can hold it.\<close>

lemma prerequisite_wait:
  assumes "prerequisite_waits s t \<noteq> []"
  shows "\<exists>i \<in> set (depends_on (meta t)). \<exists>u. referenced s i = Inr u \<and> \<not> task_complete u"
proof (rule ccontr)
  assume "\<not> ?thesis"
  then have "(case referenced s i of Inl _ \<Rightarrow> None | Inr o' \<Rightarrow> if task_complete o' then None
       else Some (Waiting_for o' (case completion_wait o' of None \<Rightarrow> ''prerequisite is unfinished'' | Some w \<Rightarrow> w))) = None"
    if "i \<in> set (depends_on (meta t))" for i
    using that by (cases "referenced s i") auto
  then show False using assms by (simp add: prerequisite_waits_def List.map_filter_def)
qed

lemma acyclic_on_wf:
  assumes "acyclic_on s D" "finite D"
  shows "wf {(j, i). i \<in> D \<and> j \<in> D \<and> dep_edge s i j}" (is "wf ?r")
proof (rule finite_acyclic_wf)
  show "finite ?r" by (rule finite_subset [of _ "D \<times> D"]) (use assms(2) in auto)
  have "(j, i) \<in> ?r\<^sup>+ \<Longrightarrow> (dep_edge s)\<^sup>+\<^sup>+ i j \<and> i \<in> D" for i j
  proof (induction rule: trancl_induct)
    case (step y z)
    then show ?case by (auto intro: tranclp_into_tranclp2)
  qed auto
  note path = this
  show "acyclic ?r"
    unfolding acyclic_def
  proof (intro allI notI)
    fix x assume "(x, x) \<in> ?r\<^sup>+"
    from path [OF this] assms(1) show False by (auto simp: acyclic_on_def)
  qed
qed

lemma unfinished_progress:
  assumes wf: "wf {(j, i). i \<in> D \<and> j \<in> D \<and> dep_edge s i j}" and cl: "closed_under s D"
  shows "i \<in> D \<Longrightarrow> referenced s i = Inr t \<Longrightarrow> \<not> task_complete t \<Longrightarrow>
    \<exists>k u. (dep_edge s)\<^sup>*\<^sup>* i k \<and> referenced s k = Inr u \<and> \<not> task_complete u \<and> prerequisite_waits s u = []"
proof (induction i arbitrary: t rule: wf_induct_rule [OF wf])
  case (1 i)
  show ?case
  proof (cases "prerequisite_waits s t = []")
    case True
    then show ?thesis using 1 by blast
  next
    case False
    then obtain j u where j: "j \<in> set (depends_on (meta t))" "referenced s j = Inr u" "\<not> task_complete u"
      using prerequisite_wait by blast
    have e: "dep_edge s i j" using j(1) "1.prems"(2) by (auto simp: dep_edge_def)
    then have "j \<in> D" using closed_edge [OF cl "1.prems"(1)] by blast
    with 1 e j obtain k v where "(dep_edge s)\<^sup>*\<^sup>* j k" "referenced s k = Inr v" "\<not> task_complete v" "prerequisite_waits s v = []"
      by blast
    then show ?thesis using e by (meson converse_rtranclp_into_rtranclp)
  qed
qed

theorem dependency_waits_progress:
  assumes t: "t \<in> set (tasks s)" and ok: "visit s [] [] t = Inr dn" and nc: "\<not> task_complete t"
  shows "prerequisite_waits s t = [] \<or> (\<exists>i k u. i \<in> set (depends_on (meta t)) \<and> (dep_edge s)\<^sup>*\<^sup>* i k
    \<and> referenced s k = Inr u \<and> \<not> task_complete u \<and> prerequisite_waits s u = [])"
proof (cases "prerequisite_waits s t = []")
  case False
  then obtain i u where i: "i \<in> set (depends_on (meta t))" "referenced s i = Inr u" "\<not> task_complete u"
    using prerequisite_wait by blast
  have "visit_inv s [] []" by (simp add: visit_inv_def closed_under_def acyclic_on_def)
  note v = visit_sound(1) [OF ok this t]
  then have cl: "closed_under s (set dn)" and ac: "acyclic_on s (set dn)" by (auto simp: visit_inv_def)
  have "i \<in> set dn"
  proof (cases "m_id (meta t) = []")
    case ne: False
    then have mi: "m_id (meta t) \<in> set dn" using v by simp
    obtain w where w: "referenced s (m_id (meta t)) = Inr w" using closed_ref [OF cl mi] by blast
    then have "dep_edge s (m_id (meta t)) i" using referenced_self [OF t ne w] i(1) by (auto simp: dep_edge_def)
    then show ?thesis using closed_edge [OF cl mi] by blast
  qed (use v i(1) in auto)
  from unfinished_progress [OF acyclic_on_wf [OF ac finite_set] cl this i(2,3)] i(1) show ?thesis by blast
qed simp

theorem dependency_waits_progress_witness:
  "\<exists>u. referenced demo_snapshot (lit ''b'') = Inr u \<and> prerequisite_waits demo_snapshot u = []"
proof -
  let ?t = "demo_task Todo 1 ''a'' [''b'']"
  have ok: "visit demo_snapshot [] [] ?t = Inr [lit ''a'', lit ''b'', lit ''c'']"
    by (simp add: demo_graph_defs visit.simps referenced_def)
  have m: "?t \<in> set (tasks demo_snapshot)" "\<not> task_complete ?t"
    by (simp_all add: demo_snapshot_def task_complete_def demo_task_def)
  have ne: "prerequisite_waits demo_snapshot ?t \<noteq> []"
    by (simp add: prerequisite_waits_def List.map_filter_def referenced_def task_complete_def demo_graph_defs)
  obtain k u where k: "(dep_edge demo_snapshot)\<^sup>*\<^sup>* (lit ''b'') k" "referenced demo_snapshot k = Inr u"
    "\<not> task_complete u" "prerequisite_waits demo_snapshot u = []"
    using dependency_waits_progress [OF m(1) ok m(2)] ne by (auto simp: demo_task_def demo_meta_def)
  have c: "k = lit ''b'' \<or> k = lit ''c''"
    using k(1)
  proof (induction rule: rtranclp_induct)
    case (step y z)
    then show ?case by (auto simp: dep_edge_def referenced_def demo_graph_defs split: if_splits)
  qed simp
  have "k \<noteq> lit ''c''" using k(2,3) by (auto simp: referenced_def task_complete_def demo_graph_defs)
  with c k show ?thesis by blast
qed

text \<open>The stamp of an assessment and the overlap of two paths do not depend on the order of the
  two tasks, so an assessment recorded by either side is current for both.\<close>

theorem evidence_symmetric:
  "task_evidence json uuid5 a b = task_evidence json uuid5 b a
   \<and> path_overlap p q = path_overlap q p"
  by (auto simp: task_evidence_def path_overlap_def Let_def)

end
