(* ===== verification/Admission.thy ===== *)
theory Admission
  imports Dependency_Theorems Project_Models Markdown_Board
begin

text \<open>
  The snapshot the coordination of a project works on (\<^verbatim>\<open>src/src/coordination.rs\<close>): the tasks of the
  board and its archive with their metadata, the owners and completion waits the agent registry
  adds, and the changed paths Git reports; the ready tasks and the admission that rest on it.

  Boards are those whose stores are Markdown files and which no other board encloses.  What comes
  from outside is an argument: the site (the canonical paths of the project and its board, whether
  the board's lock can be taken, its stale temporaries removed and the agent database opened, the
  pending migration, the output of \<^verbatim>\<open>git status\<close>) and the codecs of the
  libraries for JSON and UUIDs.
\<close>

section \<open>Site and workspace\<close>

record site =
  s_root :: str
  s_path :: str
  s_lock :: "unit result"
  s_cleanup :: "unit result"
  s_registry :: "bool result"
  s_migration :: "int option"
  s_git_status :: "str option"
  s_scope_json :: json_codec
  s_uuid5 :: "str \<Rightarrow> str"
  s_new_uuid :: str
  s_is_uuid :: "str \<Rightarrow> bool"
  s_meta_of_json :: "str \<Rightarrow> Metadata option"
  s_json_of_meta :: "Metadata \<Rightarrow> str result"

text \<open>The durable state that the operations of a project share: the registry and the files of its board.\<close>

record workspace =
  ws_db :: registry
  ws_board :: md_board
  ws_archive :: str

type_synonym 'a ws = "workspace \<Rightarrow> 'a result \<times> workspace"

definition on_board :: "(md_board \<Rightarrow> md_board result) \<Rightarrow> unit ws" where
  "on_board f w = (case f (ws_board w) of Inl e \<Rightarrow> (Inl e, w) | Inr b \<Rightarrow> (Inr (), w\<lparr>ws_board := b\<rparr>))"

definition on_db :: "'a db \<Rightarrow> 'a ws" where
  "on_db f w = (case f (ws_db w) of (r, db) \<Rightarrow> (r, w\<lparr>ws_db := db\<rparr>))"

text \<open>\<^verbatim>\<open>Path::starts_with\<close> compares whole components.\<close>

definition path_components :: "str \<Rightarrow> str list" where
  "path_components p = filter (\<lambda>c. c \<noteq> [] \<and> c \<noteq> lit ''.'') (split_at_char 47 p)"

definition path_starts_with :: "str \<Rightarrow> str \<Rightarrow> bool" where
  "path_starts_with p q \<longleftrightarrow> take (length (path_components q)) (path_components p) = path_components q"

text \<open>\<^verbatim>\<open>Iterator::max_by_key\<close> keeps the last of several greatest elements.\<close>

fun max_by_key :: "('a \<Rightarrow> nat) \<Rightarrow> 'a list \<Rightarrow> 'a option" where
  "max_by_key f [] = None"
| "max_by_key f (x # xs) = (case max_by_key f xs of None \<Rightarrow> Some x | Some y \<Rightarrow> Some (if f x \<le> f y then y else x))"

section \<open>The tasks of a board\<close>

definition task_owner_label :: "str \<Rightarrow> string" where
  "task_owner_label c =
     (if task_content_is_manual c then ''CLI claimed; activity unconfirmed''
      else if recoverable_codex_session_id_from_task_content c \<noteq> None then ''saved conversation; idle''
      else ''unclaimed'')"

definition read_meta :: "site \<Rightarrow> str \<Rightarrow> Metadata result" where
  "read_meta st = coord_read (s_meta_of_json st) (s_is_uuid st)"

definition board_task :: "site \<Rightarrow> TaskStatus \<Rightarrow> nat \<times> TaskEntry \<Rightarrow> Task" where
  "board_task st sta = (\<lambda>(i, e).
     \<lparr>board = path_components (s_path st), status = sta, index = i, entry = e,
      meta = (case read_meta st (t_content e) of Inr md \<Rightarrow> md | Inl _ \<Rightarrow> default_metadata),
      error = (case read_meta st (t_content e) of Inr _ \<Rightarrow> None | Inl err \<Rightarrow> Some err),
      completion_wait = None, owner = task_owner_label (t_content e)\<rparr>)"

definition archived_task :: "site \<Rightarrow> TaskEntry \<Rightarrow> Task option" where
  "archived_task st e =
     (let md = (case read_meta st (t_content e) of Inr md \<Rightarrow> md | Inl _ \<Rightarrow> default_metadata)
      in if m_id md = [] then None
         else Some \<lparr>board = path_components (s_path st), status = Done, index = 0, entry = e, meta = md,
                    error = None, completion_wait = None, owner = ''archived''\<rparr>)"

definition collect :: "site \<Rightarrow> md_board \<Rightarrow> str \<Rightarrow> Task list" where
  "collect st b archive =
     concat (map (\<lambda>sta. map (board_task st sta) (enumerate_from 1 (read_markdown_entries (b sta)))) TASK_STATUSES)
     @ List.map_filter (archived_task st) (read_markdown_entries archive)"

section \<open>Owners and completion proofs from the registry\<close>

definition control_owner_label :: "str \<Rightarrow> control_row \<Rightarrow> string" where
  "control_owner_label c sc =
     (if task_content_is_manual c then ''CLI claimed'' else ''automated'') @ ''; ''
     @ (case sc_state sc of Running \<Rightarrow> ''running'' | Stopped \<Rightarrow> ''stopped'' | _ \<Rightarrow> ''session control pending'')"

definition completion_wait_for :: "int option \<Rightarrow> registry \<Rightarrow> int \<Rightarrow> str \<Rightarrow> string option" where
  "completion_wait_for migration db pid session =
     (case git_finalization db pid session of
        Some g \<Rightarrow> if gfs_is_terminal (g_state g) then None
                  else if g_state g = PushPending then Some ''PUSH-PENDING: waiting for publication proof''
                  else Some ''FINALIZING: waiting for task commit proof''
      | None \<Rightarrow> (case session_git_mode migration db pid session of
                   None \<Rightarrow> None
                 | Some m \<Rightarrow> if m = Off then None
                             else Some ''missing Git journal: restore the prerequisite's completion proof''))"

definition runtime_task ::
  "int option \<Rightarrow> registry \<Rightarrow> int \<Rightarrow> control_row list \<Rightarrow> journal_row list \<Rightarrow> Task \<Rightarrow> Task" where
  "runtime_task migration db pid ctls pending t =
     (let c = t_content (entry t) in
      case recoverable_codex_session_id_from_task_content c of
        None \<Rightarrow> t
      | Some session \<Rightarrow>
          let t1 = (case find (\<lambda>sc. sc_session sc = session) ctls of
                      None \<Rightarrow> t | Some sc \<Rightarrow> t\<lparr>owner := control_owner_label c sc\<rparr>)
          in if status t = Done \<and> (m_id (meta t) \<noteq> [] \<or> list_ex (\<lambda>g. g_session g = session) pending)
                \<and> completion_wait_for migration db pid session \<noteq> None
             then t1\<lparr>completion_wait := completion_wait_for migration db pid session\<rparr>
             else t1)"

definition project_above :: "registry \<Rightarrow> (project_row \<Rightarrow> bool) \<Rightarrow> project_row option" where
  "project_above db P = max_by_key (\<lambda>p. utf8_len (p_path p)) (filter P (list_projects db))"

definition load_runtime_from_store :: "site \<Rightarrow> registry \<Rightarrow> Task list \<Rightarrow> Task list result" where
  "load_runtime_from_store st db ts =
     (case project_above db (\<lambda>p. path_starts_with (s_path st) (p_path p)) of
        None \<Rightarrow> Inr ts
      | Some p \<Rightarrow> result_bind (session_controls_for_project db (p_id p)) (\<lambda>ctls.
          Inr (map (runtime_task (s_migration st) db (p_id p) ctls
                      (list_pending_git_finalizations db (Some (p_id p)))) ts)))"

definition load_runtime :: "site \<Rightarrow> registry \<Rightarrow> Task list \<Rightarrow> Task list result" where
  "load_runtime st db ts =
     result_bind (s_registry st) (\<lambda>present. if present then load_runtime_from_store st db ts else Inr ts)"

section \<open>Changed paths\<close>

text \<open>The records of \<^verbatim>\<open>git status --porcelain=v1 -z\<close>: two letters, a space and a path; a rename or
  copy is followed by a record that holds the old path alone.\<close>

fun status_paths :: "str list \<Rightarrow> str list" where
  "status_paths [] = []"
| "status_paths (r # rs) =
     (if length r < 4 then status_paths rs
      else if \<not> (list_ex (\<lambda>c. c = 82 \<or> c = 67) (take 2 r)) then drop 3 r # status_paths rs
      else (case rs of [] \<Rightarrow> [drop 3 r] | old # rs' \<Rightarrow> drop 3 r # old # status_paths rs'))"

definition changed_paths :: "str option \<Rightarrow> str list" where
  "changed_paths out = (case out of None \<Rightarrow> [] | Some s \<Rightarrow> remdups (status_paths (split_at_char 0 s)))"

section \<open>Loading\<close>

definition needs_proof :: "bool \<Rightarrow> Task list \<Rightarrow> bool" where
  "needs_proof owners ts \<longleftrightarrow> owners \<or> list_ex (\<lambda>t. m_id (meta t) \<noteq> [] \<or> inferred_symbols t \<noteq> []) ts"

definition load_with_context :: "site \<Rightarrow> bool \<Rightarrow> workspace \<Rightarrow> Snapshot result" where
  "load_with_context st owners w =
     (let ts = collect st (ws_board w) (ws_archive w) in
      result_bind
        (if needs_proof owners ts
            \<and> list_ex (\<lambda>t. recoverable_codex_session_id_from_task_content (t_content (entry t)) \<noteq> None) ts
         then load_runtime st (ws_db w) ts else Inr ts)
        (\<lambda>ts'. Inr \<lparr>tasks = ts', changed_files = changed_paths (s_git_status st)\<rparr>))"

definition load_snapshot :: "site \<Rightarrow> workspace \<Rightarrow> Snapshot result" where
  "load_snapshot st w = load_with_context st True w"

definition admission :: "site \<Rightarrow> workspace \<Rightarrow> Snapshot result" where
  "admission st w = load_with_context st False w"

section \<open>Ready tasks and admission\<close>

definition ready_tasks :: "site \<Rightarrow> workspace \<Rightarrow> TaskEntry list result" where
  "ready_tasks st w =
     result_bind (admission st w) (\<lambda>s.
       Inr (filter (snapshot_ready (s_scope_json st) (s_uuid5 st) s) (read_markdown_entries (ws_board w Todo))))"

definition project_session_waiting :: "site \<Rightarrow> workspace \<Rightarrow> str \<Rightarrow> bool result" where
  "project_session_waiting st w session =
     result_bind (admission st w) (\<lambda>s. Inr (session_waiting (s_scope_json st) (s_uuid5 st) s session))"

text \<open>The refusal by waits is one message here; \<^verbatim>\<open>ensure_admitted\<close> keeps the waits it is joined from.\<close>

definition admitted_or_error :: "(string + wait list) + unit \<Rightarrow> unit result" where
  "admitted_or_error r =
     (case r of Inr _ \<Rightarrow> Inr () | Inl (Inl e) \<Rightarrow> Inl e | Inl (Inr ws) \<Rightarrow> Inl ''Task is waiting'')"

definition ensure_board_admitted :: "site \<Rightarrow> workspace \<Rightarrow> TaskStatus \<Rightarrow> nat \<Rightarrow> unit result" where
  "ensure_board_admitted st w sta i =
     result_bind (admission st w) (\<lambda>s.
       admitted_or_error (ensure_admitted (s_scope_json st) (s_uuid5 st) s (path_components (s_path st)) sta i))"

definition manual_task :: "site \<Rightarrow> str \<Rightarrow> Metadata \<Rightarrow> Task" where
  "manual_task st content md =
     \<lparr>board = path_components (s_path st), status = Doing, index = u64_max,
      entry = task_entry_from_text (MarkdownLine u64_max) content content False, meta = md,
      error = None, completion_wait = None, owner = ''CLI claimed''\<rparr>"

definition ensure_new_manual_admitted :: "site \<Rightarrow> workspace \<Rightarrow> str \<Rightarrow> unit result" where
  "ensure_new_manual_admitted st w content =
     result_bind (admission st w) (\<lambda>s.
     result_bind (read_meta st content) (\<lambda>md.
       let t = manual_task st content md; s' = s\<lparr>tasks := tasks s @ [t]\<rparr>
       in admitted_or_error (if waits (s_scope_json st) (s_uuid5 st) s' t = [] then Inr ()
                             else Inl (Inr (waits (s_scope_json st) (s_uuid5 st) s' t)))))"

end
