(* ===== verification/Managed_Boards.thy ===== *)
theory Managed_Boards
  imports Admission
begin

text \<open>
  The operations of a user and of an automated run on a project's board
  (\<^verbatim>\<open>src/src/application.rs\<close>): each takes the board's lock, asks the Git journal of the task's
  conversation whether it may touch the task, and then writes the board.  The operations are
  programs on the workspace; an error leaves what was written before it.

  The board lock, the processes of the system and what Git reports are arguments.
\<close>

section \<open>Programs on the workspace\<close>

definition ws_bind :: "'a ws \<Rightarrow> ('a \<Rightarrow> 'b ws) \<Rightarrow> 'b ws" where
  "ws_bind m f w = (case m w of (Inl e, w') \<Rightarrow> (Inl e, w') | (Inr x, w') \<Rightarrow> f x w')"

definition ws_ok :: "'a \<Rightarrow> 'a ws" where
  "ws_ok x w = (Inr x, w)"

definition ws_get :: "(workspace \<Rightarrow> 'a result) \<Rightarrow> 'a ws" where
  "ws_get f w = (f w, w)"

definition ws_ensure :: "(workspace \<Rightarrow> bool) \<Rightarrow> string \<Rightarrow> unit ws" where
  "ws_ensure P e = ws_get (\<lambda>w. ensure (P w) e)"

definition need :: "string \<Rightarrow> 'a option \<Rightarrow> 'a result" where
  "need e x = (case x of None \<Rightarrow> Inl e | Some y \<Rightarrow> Inr y)"

definition entries :: "workspace \<Rightarrow> TaskStatus \<Rightarrow> TaskEntry list" where
  "entries w sta = read_markdown_entries (ws_board w sta)"

definition linked_session :: "TaskEntry \<Rightarrow> str option" where
  "linked_session e = recoverable_codex_session_id_from_task_content (t_content e)"

definition linked_tasks :: "workspace \<Rightarrow> str \<Rightarrow> (TaskStatus \<times> TaskEntry) list" where
  "linked_tasks w sid =
     filter (\<lambda>(_, e). linked_session e = Some sid)
       (concat (map (\<lambda>sta. map (Pair sta) (entries w sta)) SESSION_SEARCH_ORDER))"

section \<open>The fence of a managed Git journal\<close>

definition project_for_board :: "site \<Rightarrow> registry \<Rightarrow> project_row option" where
  "project_for_board st db = project_above db (\<lambda>p. path_starts_with (s_path st) (p_path p @ lit ''/tasks''))"

definition ensure_working_task_content_preserves_identity :: "str \<Rightarrow> str \<Rightarrow> unit result" where
  "ensure_working_task_content_preserves_identity bound proposed =
     ensure (durable_task_identity proposed = Some bound)
       ''Task has a Working Git journal; content edits may add outcome notes but cannot change its durable task payload''"

definition journal_allows :: "bool \<Rightarrow> str option \<Rightarrow> journal_row \<Rightarrow> unit result" where
  "journal_allows allow_working proposed g =
     (if gfs_is_terminal (g_state g) then Inr ()
      else if allow_working \<and> g_state g = Working then
        (case proposed of
           None \<Rightarrow> Inr ()
         | Some content \<Rightarrow>
             result_bind (need ''The Working Git journal has no durable task identity for this content update'' (g_task_identity g))
               (\<lambda>bound. ensure_working_task_content_preserves_identity bound content))
      else Inl ''Task has a managed Git journal; resume that exact agent session'')"

definition ensure_managed_git_task_mutation_allowed ::
  "site \<Rightarrow> registry \<Rightarrow> TaskEntry \<Rightarrow> bool \<Rightarrow> str option \<Rightarrow> unit result" where
  "ensure_managed_git_task_mutation_allowed st db e allow_working proposed =
     (case linked_session e of
        None \<Rightarrow> Inr ()
      | Some session \<Rightarrow>
          result_bind (s_registry st) (\<lambda>present.
            if \<not> present \<or> s_migration st \<noteq> None then Inr ()
            else case project_for_board st db of
                   None \<Rightarrow> Inr ()
                 | Some p \<Rightarrow> (case git_finalization db (p_id p) session of
                               None \<Rightarrow> Inr ()
                             | Some g \<Rightarrow> journal_allows allow_working proposed g)))"

definition ws_allowed :: "site \<Rightarrow> TaskEntry \<Rightarrow> bool \<Rightarrow> str option \<Rightarrow> unit ws" where
  "ws_allowed st e allow_working proposed =
     ws_get (\<lambda>w. ensure_managed_git_task_mutation_allowed st (ws_db w) e allow_working proposed)"

section \<open>Moving a task\<close>

text \<open>The destination is written before the source is removed, without the early return of
  \<^verbatim>\<open>md_move_task\<close> for a task that stays.\<close>

definition md_move_without_reordering :: "md_board \<Rightarrow> TaskStatus \<Rightarrow> TaskStatus \<Rightarrow> nat \<Rightarrow> md_board result" where
  "md_move_without_reordering b from_status to_status i =
     result_bind (md_task_entry_at b from_status i) (\<lambda>e.
       md_remove_task_entry
         (md_insert_task_content b to_status (if to_status = Done then Some 0 else None) (t_content e))
         from_status e)"

definition manual_session_to_release :: "TaskStatus \<Rightarrow> TaskEntry \<Rightarrow> workspace \<Rightarrow> str option result" where
  "manual_session_to_release to_status e w =
     (if to_status = Todo \<and> task_content_is_manual (t_content e) then
        result_bind (need ''Manual task needs its attached Codex conversation before moving to Todo'' (linked_session e))
          (\<lambda>session. result_bind
             (ensure (length (linked_tasks w session) = 1)
                ''Resolve duplicate conversation links before moving this manual task to Todo'')
             (\<lambda>_. Inr (Some session)))
      else Inr None)"

definition rewrite_linked :: "TaskStatus \<Rightarrow> str \<Rightarrow> string \<Rightarrow> (str \<Rightarrow> str) \<Rightarrow> unit ws" where
  "rewrite_linked sta session msg f =
     ws_bind (ws_get (\<lambda>w. need msg (find (\<lambda>e. linked_session e = Some session) (entries w sta))))
       (\<lambda>e. on_board (\<lambda>b. md_write_task_entry_content b sta e (f (t_content e))))"

definition clear_interactive_done :: "TaskStatus \<Rightarrow> TaskEntry \<Rightarrow> unit ws" where
  "clear_interactive_done to_status e =
     (if to_status = Done \<and> task_content_is_interactive_done (t_content e) then
        ws_bind (ws_get (\<lambda>_. need ''Reopened task needs its attached Codex conversation before completion'' (linked_session e)))
          (\<lambda>session. rewrite_linked Done session ''Reopened task disappeared before completing it''
                       task_content_without_interactive_done_marker)
      else ws_ok ())"

definition release_manual_claim :: "str option \<Rightarrow> unit ws" where
  "release_manual_claim manual =
     (case manual of
        None \<Rightarrow> ws_ok ()
      | Some session \<Rightarrow> rewrite_linked Todo session ''Moved manual task disappeared before releasing its claim''
                          task_content_without_manual_marker)"

definition move_after_lock :: "site \<Rightarrow> TaskStatus \<Rightarrow> TaskStatus \<Rightarrow> nat \<Rightarrow> unit ws" where
  "move_after_lock st from_status to_status i =
     ws_bind (ws_get (\<lambda>w. md_task_entry_at (ws_board w) from_status i)) (\<lambda>e.
     ws_bind (ws_get (\<lambda>w. if to_status \<in> {Doing, Done} \<and> from_status \<noteq> to_status
                          then ensure_board_admitted st w from_status i else Inr ())) (\<lambda>_.
     ws_bind (ws_get (manual_session_to_release to_status e)) (\<lambda>manual.
     ws_bind (on_board (\<lambda>b. if from_status \<noteq> to_status \<and> task_content_is_manual (t_content e)
                           then md_move_without_reordering b from_status to_status i
                           else md_move_task b from_status to_status i)) (\<lambda>_.
     ws_bind (clear_interactive_done to_status e) (\<lambda>_.
     release_manual_claim manual)))))"

section \<open>Idle ownership\<close>

text \<open>Retiring the workers whose process has exited and the lease of a dead owner, before a user's
  completion (\<^verbatim>\<open>src/src/worker.rs\<close>).\<close>

definition AGENT_WORKER_PROTOCOL_VERSION :: int where "AGENT_WORKER_PROTOCOL_VERSION = 2"
definition AGENT_INLINE_WORKER_SERVICE_LABEL_PREFIX :: str where
  "AGENT_INLINE_WORKER_SERVICE_LABEL_PREFIX = lit ''clt-inline-worker-''"
definition AGENT_TASK_CANCELLATION_LEASE_SECONDS :: nat where "AGENT_TASK_CANCELLATION_LEASE_SECONDS = 60"

definition is_inline_agent_worker :: "worker_row \<Rightarrow> bool" where
  "is_inline_agent_worker x \<longleftrightarrow> starts_with (w_service_label x) AGENT_INLINE_WORKER_SERVICE_LABEL_PREFIX"

definition proven_exited :: "os_view \<Rightarrow> registry \<Rightarrow> int \<Rightarrow> worker_row \<Rightarrow> bool" where
  "proven_exited os db pid x \<longleftrightarrow> w_protocol_version x \<le> AGENT_WORKER_PROTOCOL_VERSION
     \<and> Option.bind (w_pid x) (\<lambda>p. process_running os (nat p)) = Some False
     \<and> \<not> (is_inline_agent_worker x \<and> git_launch_state db pid (w_token x) \<noteq> None)"

definition exit_abandonment :: "registry \<Rightarrow> int \<Rightarrow> str \<Rightarrow> worker_row \<Rightarrow> AgentWorkerAbandonment" where
  "exit_abandonment db pid now x =
     \<lparr>ab_token = w_token x, ab_expected_state = w_state x, ab_expected_pid = w_pid x,
      ab_expected_heartbeat_at = w_heartbeat_at x, ab_finished_at = now,
      ab_error = lit ''Worker process exited before the user cancelled its managed task'',
      ab_permitted_successor = (case lease_for_project db pid of None \<Rightarrow> None
         | Some (l, _) \<Rightarrow> if l_holder l \<noteq> w_lease_holder x then Some (l_holder l) else None)\<rparr>"

definition retire_exited_worker ::
  "os_view \<Rightarrow> (worker_row \<Rightarrow> bool result) \<Rightarrow> int \<Rightarrow> str \<Rightarrow> worker_row \<Rightarrow> unit db" where
  "retire_exited_worker os drain pid now x db =
     (if \<not> proven_exited os db pid x then (Inr (), db)
      else case drain x of
             Inl e \<Rightarrow> (Inl e, db)
           | Inr False \<Rightarrow> (Inr (), db)
           | Inr True \<Rightarrow> forget (abandon_worker (exit_abandonment db pid now x) db))"

fun retire_exited_workers ::
  "os_view \<Rightarrow> (worker_row \<Rightarrow> bool result) \<Rightarrow> int \<Rightarrow> str \<Rightarrow> worker_row list \<Rightarrow> unit db" where
  "retire_exited_workers os drain pid now [] db = (Inr (), db)"
| "retire_exited_workers os drain pid now (x # xs) db =
     (case retire_exited_worker os drain pid now x db of
        (Inl e, db1) \<Rightarrow> (Inl e, db1)
      | (Inr _, db1) \<Rightarrow> retire_exited_workers os drain pid now xs db1)"

definition active_workers_of :: "registry \<Rightarrow> int \<Rightarrow> worker_row list result" where
  "active_workers_of db pid =
     map_sum id (\<lambda>ws. map fst (filter (\<lambda>(x, p). w_project x = pid) ws)) (list_active_workers db)"

definition release_dead_lease :: "os_view \<Rightarrow> int \<Rightarrow> unit db" where
  "release_dead_lease os pid db =
     (case active_workers_of db pid of
        Inl e \<Rightarrow> (Inl e, db)
      | Inr ws \<Rightarrow>
          if ws \<noteq> [] then (Inr (), db)
          else case lease_for_project db pid of
                 None \<Rightarrow> (Inr (), db)
               | Some (l, _) \<Rightarrow> if agent_lease_holder_liveness os (l_holder l) = Dead
                                then forget (release_lease pid (l_holder l) db) else (Inr (), db))"

definition reconcile_exited_project_workers ::
  "os_view \<Rightarrow> (worker_row \<Rightarrow> bool result) \<Rightarrow> int \<Rightarrow> str \<Rightarrow> unit db" where
  "reconcile_exited_project_workers os drain pid now db =
     (case session_controls_for_project db pid of
        Inl e \<Rightarrow> (Inl e, db)
      | Inr cs \<Rightarrow>
          if list_ex (\<lambda>c. \<not> idle_control c) cs then (Inr (), db)
          else case active_workers_of db pid of
                 Inl e \<Rightarrow> (Inl e, db)
               | Inr ws \<Rightarrow>
                   (case retire_exited_workers os drain pid now ws db of
                      (Inl e, db1) \<Rightarrow> (Inl e, db1)
                    | (Inr _, db1) \<Rightarrow> release_dead_lease os pid db1))"

section \<open>A user's completion or deletion of a managed task\<close>

text \<open>What the process that cancels sees: the system, the drain of a worker's service, the clock and
  a nonce.\<close>

record cancel_context =
  cc_os :: os_view
  cc_drain :: "worker_row \<Rightarrow> bool result"
  cc_now :: nat
  cc_nonce :: nat

definition task_cancellation_lease_holder :: "cancel_context \<Rightarrow> str" where
  "task_cancellation_lease_holder cc =
     lit ''clt-task-cancellation-'' @ show_nat (own_pid (cc_os cc)) @ lit ''-'' @ show_nat (cc_nonce cc)"

definition cancel_journal ::
  "cancel_context \<Rightarrow> int \<Rightarrow> str \<Rightarrow> journal_row \<Rightarrow> GitTaskCancellation \<Rightarrow> unit ws" where
  "cancel_journal cc pid session g c =
     ws_bind (on_db (reconcile_exited_project_workers (cc_os cc) (cc_drain cc) pid (show_nat (cc_now cc)))) (\<lambda>_.
     ws_bind (on_db (cancel_idle_working_git_finalization pid session (g_generation g) (g_task_identity g)
                (task_cancellation_lease_holder cc) (show_nat (cc_now cc))
                (show_nat (saturating_add_u64 (cc_now cc) AGENT_TASK_CANCELLATION_LEASE_SECONDS)) c)) (\<lambda>cancelled.
     ws_ensure (\<lambda>_. cancelled) ''Task changed while CLT was cancelling its journal; retry the action''))"

text \<open>The board is written under the fence; the fence is released whatever the writing returned.\<close>

definition mutate_under_fence :: "cancel_context \<Rightarrow> int \<Rightarrow> str \<Rightarrow> unit ws \<Rightarrow> str option ws" where
  "mutate_under_fence cc pid session mutate w =
     (case mutate w of
        (moved, w1) \<Rightarrow>
          (case on_db (release_lease pid (task_cancellation_lease_holder cc)) w1 of
             (Inl e, w2) \<Rightarrow> (Inl e, w2)
           | (Inr _, w2) \<Rightarrow> (map_sum id (\<lambda>_. Some session) moved, w2)))"

definition unmanaged :: "unit ws \<Rightarrow> str option ws" where
  "unmanaged mutate = ws_bind mutate (\<lambda>_. ws_ok None)"

definition mutate_user_managed_task_with_store ::
  "site \<Rightarrow> cancel_context \<Rightarrow> TaskEntry \<Rightarrow> GitTaskCancellation \<Rightarrow> unit ws \<Rightarrow> str option ws" where
  "mutate_user_managed_task_with_store st cc e c mutate w =
     (case linked_session e of
        None \<Rightarrow> unmanaged mutate w
      | Some session \<Rightarrow>
          (case project_for_board st (ws_db w) of
             None \<Rightarrow> unmanaged mutate w
           | Some p \<Rightarrow>
               (case git_finalization (ws_db w) (p_id p) session of
                  None \<Rightarrow> unmanaged mutate w
                | Some g \<Rightarrow>
                    if gfs_is_terminal (g_state g) then unmanaged mutate w
                    else if g_state g \<noteq> Working \<or> g_commit_oid g \<noteq> None
                    then (Inl ''Task has a managed Git journal; its commit proof is already sealed'', w)
                    else ws_bind (cancel_journal cc (p_id p) session g c)
                           (\<lambda>_. mutate_under_fence cc (p_id p) session mutate) w)))"

definition mutate_user_managed_task ::
  "site \<Rightarrow> cancel_context \<Rightarrow> TaskEntry \<Rightarrow> GitTaskCancellation \<Rightarrow> unit ws \<Rightarrow> str option ws" where
  "mutate_user_managed_task st cc e c mutate =
     (if linked_session e = None then unmanaged mutate
      else ws_bind (ws_get (\<lambda>_. s_registry st)) (\<lambda>present.
        if \<not> present \<or> s_migration st \<noteq> None then unmanaged mutate
        else mutate_user_managed_task_with_store st cc e c mutate))"

section \<open>The operations of the board\<close>

definition with_entry :: "site \<Rightarrow> TaskStatus \<Rightarrow> nat \<Rightarrow> (TaskEntry \<Rightarrow> 'a ws) \<Rightarrow> 'a ws" where
  "with_entry st sta i f =
     ws_bind (ws_get (\<lambda>_. s_lock st)) (\<lambda>_.
     ws_bind (ws_get (\<lambda>w. md_task_entry_at (ws_board w) sta i)) f)"

definition move_task_in_board ::
  "site \<Rightarrow> cancel_context \<Rightarrow> TaskStatus \<Rightarrow> TaskStatus \<Rightarrow> str \<Rightarrow> str option ws" where
  "move_task_in_board st cc from_status to_status index_arg =
     ws_bind (ws_get (\<lambda>_. parse_one_based_task_index index_arg)) (\<lambda>i.
     with_entry st from_status i (\<lambda>e.
       if to_status = Done then
         mutate_user_managed_task st cc e ExternalCompletion (move_after_lock st from_status Done i)
       else
         ws_bind (ws_allowed st e (status_is_active from_status \<and> status_is_active to_status) None) (\<lambda>_.
         ws_bind (move_after_lock st from_status to_status i) (\<lambda>_. ws_ok None))))"

definition delete_task_in_board ::
  "site \<Rightarrow> cancel_context \<Rightarrow> bool \<Rightarrow> TaskStatus \<Rightarrow> str \<Rightarrow> unit ws" where
  "delete_task_in_board st cc automated sta index_arg =
     ws_bind (ws_get (\<lambda>_. parse_one_based_task_index index_arg)) (\<lambda>i.
     with_entry st sta i (\<lambda>e.
       let remove = on_board (\<lambda>b. md_remove_task_entry b sta e) in
       if automated then ws_bind (ws_allowed st e False None) (\<lambda>_. remove)
       else ws_bind (mutate_user_managed_task st cc e Deletion remove) (\<lambda>_. ws_ok ())))"

definition move_task_to_archive_in_board :: "site \<Rightarrow> TaskStatus \<Rightarrow> str \<Rightarrow> unit ws" where
  "move_task_to_archive_in_board st from_status index_arg =
     ws_bind (ws_get (\<lambda>_. parse_one_based_task_index index_arg)) (\<lambda>i.
     with_entry st from_status i (\<lambda>e.
       ws_bind (ws_allowed st e False None) (\<lambda>_.
       ws_bind (\<lambda>w. (Inr (), w\<lparr>ws_archive := insert_content_into_markdown (ws_archive w) None (t_content e)\<rparr>)) (\<lambda>_.
       on_board (\<lambda>b. md_remove_task_entry b from_status e)))))"

definition ensure_task_not_stopped :: "TaskEntry \<Rightarrow> unit result" where
  "ensure_task_not_stopped e =
     ensure (\<not> task_content_is_stopped (t_content e))
       ''This task is stopped; press Shift+S on it to allow it to start again''"

definition same_entry :: "TaskEntry \<Rightarrow> TaskEntry \<Rightarrow> bool" where
  "same_entry a b \<longleftrightarrow> t_source a = t_source b \<and> t_content a = t_content b"

definition toggled_stop_content :: "str \<Rightarrow> str" where
  "toggled_stop_content c =
     (if task_content_is_stopped c then task_content_without_stop_marker c
      else trim_end c @ lit '' '' @ TASK_STOPPED_MARKER)"

definition toggle_task_stop_marker_in_board :: "site \<Rightarrow> TaskStatus \<Rightarrow> TaskEntry \<Rightarrow> bool ws" where
  "toggle_task_stop_marker_in_board st sta sel =
     ws_bind (ws_ensure (\<lambda>_. sta \<noteq> Done) ''Completed tasks cannot be stopped'') (\<lambda>_.
     ws_bind (ws_get (\<lambda>_. s_lock st)) (\<lambda>_.
     ws_bind (ws_get (\<lambda>w. need ''The selected task changed; select it again before stopping or starting it''
                (find (\<lambda>e. same_entry e sel) (entries w sta)))) (\<lambda>e.
     ws_bind (on_board (\<lambda>b. md_write_task_entry_content b sta e (toggled_stop_content (t_content e)))) (\<lambda>_.
     ws_ok (\<not> task_content_is_stopped (t_content e))))))"

text \<open>An edit keeps the coordination metadata, the conversation, and the markers of the task.\<close>

definition edited_content :: "TaskEntry \<Rightarrow> str \<Rightarrow> str" where
  "edited_content e d =
     (let c1 = (case linked_session e of
                  Some session \<Rightarrow> if task_content_is_manual (t_content e) then task_content_with_manual_session d session
                                  else task_content_with_codex_session d session
                | None \<Rightarrow> trim_end d);
          c2 = (if task_content_is_interactive_done (t_content e)
                then task_content_with_interactive_done_marker c1 else c1)
      in if task_content_is_stopped (t_content e)
         then task_content_without_stop_marker c2 @ lit '' '' @ TASK_STOPPED_MARKER else c2)"

definition update_task_in_board_after_lock :: "site \<Rightarrow> TaskStatus \<Rightarrow> nat \<Rightarrow> str \<Rightarrow> unit ws" where
  "update_task_in_board_after_lock st sta i new_description =
     ws_bind (ws_get (\<lambda>w. md_task_entry_at (ws_board w) sta i)) (\<lambda>e.
     ws_bind (ws_get (\<lambda>_. coord_preserve (s_meta_of_json st) (s_is_uuid st) (s_json_of_meta st)
                             (t_content e) new_description)) (\<lambda>d.
     ws_bind (ws_allowed st e True (Some (edited_content e d))) (\<lambda>_.
     on_board (\<lambda>b. md_write_task_entry_content b sta e (edited_content e d)))))"

definition update_task_in_board :: "site \<Rightarrow> TaskStatus \<Rightarrow> nat \<Rightarrow> str \<Rightarrow> unit ws" where
  "update_task_in_board st sta i d =
     ws_bind (ws_get (\<lambda>_. s_lock st)) (\<lambda>_. update_task_in_board_after_lock st sta i d)"

definition cycle_task_thinking_in_board :: "site \<Rightarrow> TaskStatus \<Rightarrow> TaskEntry \<Rightarrow> str option ws" where
  "cycle_task_thinking_in_board st sta sel =
     ws_bind (ws_ensure (\<lambda>_. sta = Todo) ''Thinking can only be cycled on Todo tasks'') (\<lambda>_.
     ws_bind (ws_get (\<lambda>_. s_lock st)) (\<lambda>_.
     ws_bind (ws_get (\<lambda>w. need ''The selected task changed; select it again before changing its thinking''
                (position (\<lambda>e. same_entry e sel) (entries w sta)))) (\<lambda>i.
     case think_cycle (task_content_for_edit (t_content sel)) of
       (content, lv) \<Rightarrow> ws_bind (update_task_in_board_after_lock st sta (i + 1) content) (\<lambda>_. ws_ok lv))))"

definition reorder_task_in_board :: "site \<Rightarrow> TaskStatus \<Rightarrow> nat \<Rightarrow> nat \<Rightarrow> unit ws" where
  "reorder_task_in_board st sta from_idx to_idx =
     with_entry st sta (from_idx + 1) (\<lambda>e.
       ws_bind (ws_allowed st e (status_is_active sta) None) (\<lambda>_.
       on_board (\<lambda>b. map_sum id (\<lambda>f. b(sta := f)) (reorder_markdown_task (b sta) from_idx to_idx))))"

end
