(* ===== verification/Automated_Moves.thy ===== *)
theory Automated_Moves
  imports Managed_Boards
begin

text \<open>
  The moves an automated run makes on the board (\<^verbatim>\<open>src/src/application.rs\<close>): activating a task in
  Doing under its Working journal, completing it with a sealed manifest, resealing it, and the
  choice between an automated and a user's completion; the follow-up of a task and the update of
  its coordination metadata (\<^verbatim>\<open>src/src/coordination.rs\<close>), and the exclusive finalization command
  (\<^verbatim>\<open>src/src/coordination/finalization.rs\<close>).

  What the Git commands report is the record \<open>git_view\<close>; the clock is an argument.
\<close>

section \<open>The run a process belongs to\<close>

record child_context =
  cx_project :: int
  cx_run_token :: str

definition validate_agent_worker_token :: "str \<Rightarrow> unit result" where
  "validate_agent_worker_token token =
     ensure (token \<noteq> [] \<and> list_all (\<lambda>c. is_ascii_alphanumeric c \<or> c = 45) token)
       ''Invalid independent agent worker token''"

text \<open>\<^verbatim>\<open>str::parse\<close> at type \<^verbatim>\<open>i64\<close>.\<close>

definition parse_i64 :: "str \<Rightarrow> int option" where
  "parse_i64 s =
     (case s of
        [] \<Rightarrow> None
      | c # rest \<Rightarrow>
          if c = 45 then (if starts_with rest (lit ''+'') then None
                          else map_option (\<lambda>n. - int n) (parse_unsigned (2 ^ 63) rest))
          else map_option int (parse_unsigned (2 ^ 63 - 1) s))"

definition automated_agent_child_context_from_values ::
  "str option \<Rightarrow> str option \<Rightarrow> child_context option result" where
  "automated_agent_child_context_from_values project_id run_token =
     (case (project_id, run_token) of
        (None, None) \<Rightarrow> Inr None
      | (Some p, Some t) \<Rightarrow>
          result_bind (need ''CLT_AGENT_PROJECT_ID must be a positive integer'' (parse_i64 p)) (\<lambda>i.
          result_bind (ensure (0 < i) ''CLT_AGENT_PROJECT_ID must be a positive integer'') (\<lambda>_.
          result_bind (validate_agent_worker_token t) (\<lambda>_.
          Inr (Some \<lparr>cx_project = i, cx_run_token = t\<rparr>))))
      | _ \<Rightarrow> Inl ''Incomplete automated agent context'')"

text \<open>The registries the polls see, one every 50 milliseconds, forty at most.\<close>

fun poll_running_session :: "child_context \<Rightarrow> registry list \<Rightarrow> str result" where
  "poll_running_session cx [] = Inl ''CLT could not observe the running Codex session''"
| "poll_running_session cx (db # dbs) =
     result_bind (session_controls_for_project db (cx_project cx)) (\<lambda>cs.
       case map sc_session (filter (\<lambda>c. sc_state c = Running \<and> sc_run_token c = Some (cx_run_token cx)) cs) of
         [] \<Rightarrow> poll_running_session cx dbs
       | [session] \<Rightarrow> Inr session
       | _ \<Rightarrow> Inl ''Automated run owns more than one running Codex session'')"

definition running_session_for_automated_child :: "child_context \<Rightarrow> registry list \<Rightarrow> str result" where
  "running_session_for_automated_child cx dbs = poll_running_session cx (take 40 dbs)"

text \<open>Inside a program nothing else moves, and every poll sees the same registry.\<close>

definition ws_running_session :: "child_context \<Rightarrow> str ws" where
  "ws_running_session cx = ws_get (\<lambda>w. running_session_for_automated_child cx (replicate 40 (ws_db w)))"

section \<open>What Git reports\<close>

record git_view =
  gv_branch :: "str option result"
  gv_head :: "str result"
  gv_is_ancestor :: "str \<Rightarrow> str \<Rightarrow> bool result"
  gv_staged_manifest :: "registry \<Rightarrow> str \<Rightarrow> str \<Rightarrow> str \<Rightarrow> str \<Rightarrow> str option \<Rightarrow> str result"
  gv_resealed_manifest :: "registry \<Rightarrow> str \<Rightarrow> str \<Rightarrow> str \<Rightarrow> str \<Rightarrow> str option \<Rightarrow> str result"
  gv_start_unchanged :: "AgentGitMode \<Rightarrow> AgentGitStartState \<Rightarrow> unit result"
  gv_start_identity :: "str \<Rightarrow> str \<Rightarrow> unit result"
  gv_legacy_off :: "str \<Rightarrow> project_row \<Rightarrow> str \<Rightarrow> bool result"

section \<open>The Git mode of a run (\<^verbatim>\<open>src/src/runner.rs\<close>)\<close>

definition legacy_git_mode :: "site \<Rightarrow> git_view \<Rightarrow> project_row \<Rightarrow> str \<Rightarrow> AgentGitMode ws" where
  "legacy_git_mode st gv p session =
     ws_bind (ws_get (\<lambda>w. session_control (ws_db w) (p_id p) session)) (\<lambda>control.
       case Option.bind control sc_stderr_path of
         None \<Rightarrow> ws_ok (p_git_mode p)
       | Some path \<Rightarrow>
           ws_bind (ws_get (\<lambda>_. gv_legacy_off gv path p session)) (\<lambda>proven.
             if \<not> proven then ws_ok (p_git_mode p)
             else ws_bind (on_db (recover_unmanaged_session_git_mode (p_id p) session path)) (\<lambda>_.
                    ws_get (\<lambda>w. Inr (case session_git_mode (s_migration st) (ws_db w) (p_id p) session of
                                       Some m \<Rightarrow> m | None \<Rightarrow> p_git_mode p)))))"

definition effective_agent_git_mode ::
  "site \<Rightarrow> git_view \<Rightarrow> project_row \<Rightarrow> str option \<Rightarrow> AgentGitMode ws" where
  "effective_agent_git_mode st gv p resume w =
     (case resume of
        None \<Rightarrow> (Inr (p_git_mode p), w)
      | Some session \<Rightarrow>
          (case git_finalization (ws_db w) (p_id p) session of
             Some g \<Rightarrow> (Inr (if gfs_is_terminal (g_state g) then p_git_mode p else g_git_mode g), w)
           | None \<Rightarrow>
               if (case s_migration st of None \<Rightarrow> False | Some v \<Rightarrow> v \<le> 19) then (Inr (p_git_mode p), w)
               else (case session_git_mode (s_migration st) (ws_db w) (p_id p) session of
                       Some m \<Rightarrow> (Inr m, w)
                     | None \<Rightarrow> legacy_git_mode st gv p session w)))"

section \<open>Dated completion notes (\<^verbatim>\<open>src/src/managed_git.rs\<close>)\<close>

definition completed_note_on_line :: "str \<Rightarrow> bool" where
  "completed_note_on_line line =
     (let u = to_ascii_uppercase line; marker = lit ''COMPLETED '' in
      list_ex (\<lambda>i. word_boundary_before u i \<and> starts_with_task_note_date (drop (i + length marker) u))
        (match_indices u marker))"

definition task_content_has_completed_note :: "str \<Rightarrow> bool" where
  "task_content_has_completed_note content \<longleftrightarrow>
     \<not> task_content_is_blocked content \<and> list_ex completed_note_on_line (lines content)"

section \<open>Activating a task\<close>

definition ws_project :: "child_context \<Rightarrow> project_row ws" where
  "ws_project cx =
     ws_get (\<lambda>w. need ''Automated agent project is no longer registered''
       (find (\<lambda>p. p_id p = cx_project cx) (list_projects (ws_db w))))"

definition ensure_root :: "site \<Rightarrow> project_row \<Rightarrow> unit ws" where
  "ensure_root st p = ws_ensure (\<lambda>_. p_path p = s_root st) ''Automated agent context project targets another path''"

fun first_error :: "unit result list \<Rightarrow> unit result" where
  "first_error [] = Inr ()"
| "first_error (r # rs) = result_bind r (\<lambda>_. first_error rs)"

definition ensure_status_conversion_allowed :: "site \<Rightarrow> TaskStatus \<Rightarrow> unit ws" where
  "ensure_status_conversion_allowed st sta =
     ws_get (\<lambda>w. first_error (map (\<lambda>e. ensure_managed_git_task_mutation_allowed st (ws_db w) e False None) (entries w sta)))"

definition todo_free_for :: "TaskEntry \<Rightarrow> str \<Rightarrow> workspace \<Rightarrow> unit result" where
  "todo_free_for e session w =
     (if (case linked_session e of None \<Rightarrow> False | Some previous \<Rightarrow> previous \<noteq> session)
      then Inl ''Selected Todo task already belongs to a different Codex session''
      else case md_task_for_codex_session (ws_board w) session True of
             None \<Rightarrow> Inr ()
           | Some (sta, linked) \<Rightarrow>
               ensure (sta = Todo \<and> t_source linked = t_source e \<and> linked_session e = Some session)
                 ''Codex session already belongs to another task'')"

definition attach_session :: "TaskStatus \<Rightarrow> TaskEntry \<Rightarrow> str \<Rightarrow> unit ws" where
  "attach_session sta e session = on_board (\<lambda>b. map_sum id snd (md_attach_codex_session b sta e session))"

definition move_task_to_doing_with_agent_session ::
  "site \<Rightarrow> str \<Rightarrow> child_context \<Rightarrow> project_row \<Rightarrow> unit ws" where
  "move_task_to_doing_with_agent_session st index_arg cx p =
     ws_bind (ensure_root st p) (\<lambda>_.
     ws_bind (ws_running_session cx) (\<lambda>session.
     ws_bind (ws_get (\<lambda>_. parse_one_based_task_index index_arg)) (\<lambda>i.
     with_entry st Todo i (\<lambda>e.
     ws_bind (ws_get (\<lambda>_. ensure_task_not_stopped e)) (\<lambda>_.
     ws_bind (ws_get (\<lambda>w. ensure_board_admitted st w Todo i)) (\<lambda>_.
     ws_bind (ws_get (todo_free_for e session)) (\<lambda>_.
     ws_bind (ws_allowed st e True None) (\<lambda>_.
     ws_bind (ensure_status_conversion_allowed st Doing) (\<lambda>_.
     ws_bind (attach_session Todo e session) (\<lambda>_.
     move_after_lock st Todo Doing i))))))))))"

text \<open>With Git on, the run already owns a Working journal; the task's identity is bound to it before
  the board shows the task in Doing.\<close>

definition working_journal_of_run :: "child_context \<Rightarrow> project_row \<Rightarrow> str \<Rightarrow> workspace \<Rightarrow> journal_row result" where
  "working_journal_of_run cx p session w =
     (case git_finalization (ws_db w) (p_id p) session of
        None \<Rightarrow> Inl ''Automated run has no atomically registered Working Git journal''
      | Some g \<Rightarrow>
          if g_state g \<noteq> Working \<or> g_owner_run_token g \<noteq> Some (cx_run_token cx)
          then Inl ''Codex session does not own the Working Git journal for automated run''
          else if g_git_mode g \<noteq> p_git_mode p then Inl ''Automated run froze another Git mode''
          else Inr g)"

definition journal_start :: "journal_row \<Rightarrow> AgentGitStartState result" where
  "journal_start g =
     (case g_starting_head g of
        None \<Rightarrow> Inl ''The atomically registered Working journal has no starting commit''
      | Some h \<Rightarrow> Inr \<lparr>gs_starting_head = h, gs_branch_ref = g_branch_ref g,
                       gs_upstream_ref = g_upstream_ref g, gs_worktree_baseline = g_worktree_baseline g\<rparr>)"

definition bind_task_identity :: "child_context \<Rightarrow> int \<Rightarrow> str \<Rightarrow> journal_row \<Rightarrow> str \<Rightarrow> str \<Rightarrow> unit ws" where
  "bind_task_identity cx pid session g ident now =
     (case g_task_identity g of
        Some i \<Rightarrow> ws_ensure (\<lambda>_. i = ident) ''Codex session already has an incompatible Git task identity''
      | None \<Rightarrow>
          ws_bind (on_db (compare_and_set_git_finalization_with_identity pid session (g_generation g) Working ident
                            (Some (cx_run_token cx)) now)) (\<lambda>bound.
          ws_ensure (\<lambda>_. bound) ''Codex session lost its running-session fence while binding Todo activation''))"

definition move_task_to_doing_with_agent_git_journal ::
  "site \<Rightarrow> git_view \<Rightarrow> str \<Rightarrow> child_context \<Rightarrow> project_row \<Rightarrow> str \<Rightarrow> unit ws" where
  "move_task_to_doing_with_agent_git_journal st gv index_arg cx p now =
     ws_bind (ensure_root st p) (\<lambda>_.
     ws_bind (ws_running_session cx) (\<lambda>session.
     ws_bind (ws_get (\<lambda>_. parse_one_based_task_index index_arg)) (\<lambda>i.
     ws_bind (ws_get (\<lambda>_. s_lock st)) (\<lambda>_.
     ws_bind (ws_get (\<lambda>_. s_cleanup st)) (\<lambda>_.
     ws_bind (ws_get (\<lambda>w. md_task_entry_at (ws_board w) Todo i)) (\<lambda>e.
     ws_bind (ws_get (\<lambda>_. ensure_task_not_stopped e)) (\<lambda>_.
     ws_bind (ws_get (\<lambda>w. ensure_board_admitted st w Todo i)) (\<lambda>_.
     ws_bind (ws_ensure (\<lambda>_. case linked_session e of None \<Rightarrow> True | Some previous \<Rightarrow> previous = session)
                ''Selected Todo task already belongs to a different Codex session'') (\<lambda>_.
     ws_bind (ws_get (\<lambda>_. need ''Automated Git task has no durable task payload'' (durable_task_identity (t_content e)))) (\<lambda>ident.
     ws_bind (ws_get (working_journal_of_run cx p session)) (\<lambda>g.
     ws_bind (ws_get (\<lambda>_. journal_start g)) (\<lambda>start.
     ws_bind (ws_get (\<lambda>_. gv_start_unchanged gv (p_git_mode p) start)) (\<lambda>_.
     ws_bind (ws_get (\<lambda>_. gv_start_identity gv (gs_starting_head start) ident)) (\<lambda>_.
     ws_bind (bind_task_identity cx (p_id p) session g ident now) (\<lambda>_.
     ws_bind (attach_session Todo e session) (\<lambda>_.
     on_board (\<lambda>b. md_move_without_reordering b Todo Doing i)))))))))))))))))"

text \<open>The command \<^verbatim>\<open>clt doing\<close> and its kin; \<open>cx\<close> is the context of the environment.\<close>

definition move_task ::
  "site \<Rightarrow> git_view \<Rightarrow> cancel_context \<Rightarrow> child_context option \<Rightarrow> TaskStatus \<Rightarrow> TaskStatus \<Rightarrow> str \<Rightarrow> str \<Rightarrow> unit ws" where
  "move_task st gv cc cx from_status to_status index_arg now =
     (case (if from_status = Todo \<and> to_status = Doing then cx else None) of
        None \<Rightarrow> ws_bind (move_task_in_board st cc from_status to_status index_arg) (\<lambda>_. ws_ok ())
      | Some c \<Rightarrow>
          ws_bind (ws_project c) (\<lambda>p.
          ws_bind (ws_running_session c) (\<lambda>session.
          ws_bind (effective_agent_git_mode st gv p (Some session)) (\<lambda>mode.
          let p' = p\<lparr>p_git_mode := mode\<rparr> in
          if mode \<noteq> Off then move_task_to_doing_with_agent_git_journal st gv index_arg c p' now
          else move_task_to_doing_with_agent_session st index_arg c p'))))"

end
