(* ===== verification/Completion.thy ===== *)
theory Completion
  imports Automated_Moves
begin

text \<open>
  Completing a task (\<^verbatim>\<open>src/src/application.rs\<close>): the provisional Done of an automated run with a sealed
  manifest, the resealing of a corrected one, and the command that chooses between them and a
  user's completion; the exclusive finalization command
  (\<^verbatim>\<open>src/src/coordination/finalization.rs\<close>), follow-ups, and the update of coordination metadata
  (\<^verbatim>\<open>src/src/coordination.rs\<close>).
\<close>

section \<open>A provisional Done\<close>

text \<open>The task a run may complete: its own conversation's, with a dated COMPLETED note.\<close>

definition own_completed_task :: "child_context \<Rightarrow> TaskEntry \<Rightarrow> str ws" where
  "own_completed_task cx e =
     ws_bind (ws_get (\<lambda>_. need ''Automated Git completion requires the selected task's terminal marker''
                (codex_session_id_from_task_content (t_content e)))) (\<lambda>session.
     ws_bind (ws_running_session cx) (\<lambda>running.
     ws_bind (ws_ensure (\<lambda>_. session = running) ''The selected task belongs to another Codex session'') (\<lambda>_.
     ws_bind (ws_ensure (\<lambda>_. task_content_has_completed_note (t_content e))
                ''Automated Git completion requires a dated COMPLETED note'') (\<lambda>_.
     ws_ok session))))"

definition journal_after :: "int \<Rightarrow> str \<Rightarrow> journal_row ws" where
  "journal_after pid session =
     ws_get (\<lambda>w. need ''The Git completion intent could not be read back'' (git_finalization (ws_db w) pid session))"

text \<open>The first completion of a Working journal freezes the staged manifest.\<close>

definition seal_working_journal ::
  "git_view \<Rightarrow> child_context \<Rightarrow> int \<Rightarrow> str \<Rightarrow> str \<Rightarrow> journal_row \<Rightarrow> str \<Rightarrow> journal_row ws" where
  "seal_working_journal gv cx pid session ident g now =
     ws_bind (ws_get (\<lambda>_. gv_branch gv)) (\<lambda>branch.
     ws_bind (ws_ensure (\<lambda>_. branch = g_branch_ref g) ''Automated Git task changed branches after entering Doing'') (\<lambda>_.
     ws_bind (ws_get (\<lambda>_. need ''Automated Git task has no frozen starting commit'' (g_starting_head g))) (\<lambda>start.
     ws_bind (ws_get (\<lambda>_. gv_head gv)) (\<lambda>head.
     ws_bind (ws_get (\<lambda>_. gv_is_ancestor gv start head)) (\<lambda>ancestor.
     ws_bind (ws_ensure (\<lambda>_. ancestor) ''Automated Git task history diverged from its frozen starting commit'') (\<lambda>_.
     ws_bind (ws_get (\<lambda>w. gv_staged_manifest gv (ws_db w) (g_worktree_baseline g) session ident start (g_branch_ref g))) (\<lambda>manifest.
     ws_bind (on_db (track_git_finalization_with_manifest pid session (g_generation g) ident manifest (cx_run_token cx) now)) (\<lambda>tracked.
     ws_bind (ws_ensure (\<lambda>_. tracked) ''Automated Git completion lost its running-session fence before recording completion intent'') (\<lambda>_.
     journal_after pid session)))))))))"

definition own_tracking_journal ::
  "child_context \<Rightarrow> int \<Rightarrow> str \<Rightarrow> journal_row \<Rightarrow> str \<Rightarrow> journal_row ws" where
  "own_tracking_journal cx pid session g now =
     ws_bind (on_db (compare_and_set_owned_git_finalization pid session (g_generation g) Tracking (cx_run_token cx) None None now)) (\<lambda>owned.
     ws_bind (ws_ensure (\<lambda>_. owned) ''Automated Git completion lost its running-session fence before moving the task'') (\<lambda>_.
     journal_after pid session))"

definition completion_intent ::
  "git_view \<Rightarrow> child_context \<Rightarrow> int \<Rightarrow> str \<Rightarrow> TaskEntry \<Rightarrow> journal_row \<Rightarrow> str \<Rightarrow> journal_row ws" where
  "completion_intent gv cx pid session e g now =
     ws_bind (ws_ensure (\<lambda>_. g_git_mode g \<noteq> Off) ''Automated Git completion journal unexpectedly has Git mode off'') (\<lambda>_.
     ws_bind (ws_get (\<lambda>_. need ''Automated Git completion task identity was not bound'' (g_task_identity g))) (\<lambda>ident.
     ws_bind (ws_get (\<lambda>_. need ''Automated Git completion could not identify the selected task payload''
                (durable_task_identity (t_content e)))) (\<lambda>selected_ident.
     ws_bind (ws_ensure (\<lambda>_. selected_ident = ident) ''Automated Git completion task content no longer matches'') (\<lambda>_.
     ws_bind (if g_state g = Working then seal_working_journal gv cx pid session ident g now
              else if g_state g = Tracking then own_tracking_journal cx pid session g now
              else ws_ok g) (\<lambda>h.
     ws_bind (ws_ensure (\<lambda>_. g_session h = session \<and> g_state h = Tracking \<and> g_task_identity h = Some ident)
                ''Task already has an incompatible Git finalization'') (\<lambda>_.
     ws_ok h))))))"

definition publish_provisional_done ::
  "child_context \<Rightarrow> int \<Rightarrow> str \<Rightarrow> TaskStatus \<Rightarrow> nat \<Rightarrow> journal_row \<Rightarrow> str \<Rightarrow> bool ws" where
  "publish_provisional_done cx pid session from_status i h now =
     ws_bind (on_board (\<lambda>b. md_move_without_reordering b from_status Done i)) (\<lambda>_.
     ws_bind (on_db (compare_and_set_owned_git_finalization pid session (g_generation h) CommitPending (cx_run_token cx) None None now)) (\<lambda>updated.
     ws_bind (ws_ensure (\<lambda>_. updated)
        ''The task moved to provisional Done, but its Git finalization changed concurrently'') (\<lambda>_.
     ws_ok True)))"

definition complete_own_task ::
  "site \<Rightarrow> git_view \<Rightarrow> child_context \<Rightarrow> project_row \<Rightarrow> TaskStatus \<Rightarrow> nat \<Rightarrow> TaskEntry \<Rightarrow> str \<Rightarrow> str \<Rightarrow> bool ws" where
  "complete_own_task st gv cx p from_status i e session now w =
     (case git_finalization (ws_db w) (p_id p) session of
        None \<Rightarrow>
          ws_bind (effective_agent_git_mode st gv p (Some session)) (\<lambda>mode.
            if mode = Off then ws_bind (move_after_lock st from_status Done i) (\<lambda>_. ws_ok False)
            else ws_get (\<lambda>_. Inl ''Automated Git completion has no start-state journal'')) w
      | Some g \<Rightarrow>
          ws_bind (completion_intent gv cx (p_id p) session e g now) (\<lambda>h.
            publish_provisional_done cx (p_id p) session from_status i h now) w)"

definition move_task_to_done_with_agent_store ::
  "site \<Rightarrow> git_view \<Rightarrow> TaskStatus \<Rightarrow> str \<Rightarrow> child_context \<Rightarrow> str \<Rightarrow> bool ws" where
  "move_task_to_done_with_agent_store st gv from_status index_arg cx now =
     ws_bind (ws_project cx) (\<lambda>p.
     ws_bind (ensure_root st p) (\<lambda>_.
     ws_bind (ws_get (\<lambda>_. parse_one_based_task_index index_arg)) (\<lambda>i.
     ws_bind (ws_get (\<lambda>_. s_lock st)) (\<lambda>_.
     ws_bind (ws_get (\<lambda>_. s_cleanup st)) (\<lambda>_.
     ws_bind (ws_get (\<lambda>w. md_task_entry_at (ws_board w) from_status i)) (\<lambda>e.
     ws_bind (own_completed_task cx e) (\<lambda>session.
     complete_own_task st gv cx p from_status i e session now)))))))"

section \<open>Resealing a provisional Done\<close>

definition reseal_journal ::
  "git_view \<Rightarrow> child_context \<Rightarrow> int \<Rightarrow> str \<Rightarrow> TaskEntry \<Rightarrow> str \<Rightarrow> bool ws" where
  "reseal_journal gv cx pid session e now =
     ws_bind (ws_get (\<lambda>w. need ''Task has no managed Git finalization'' (git_finalization (ws_db w) pid session))) (\<lambda>g.
     ws_bind (ws_ensure (\<lambda>_. g_state g = CommitPending) ''Task can only be resealed while its Git journal is COMMIT-PENDING'') (\<lambda>_.
     ws_bind (ws_get (\<lambda>_. need ''The provisional Done task has no durable identity'' (g_task_identity g))) (\<lambda>ident.
     ws_bind (ws_ensure (\<lambda>_. durable_task_identity (t_content e) = Some ident)
                ''The provisional Done task no longer matches its durable identity'') (\<lambda>_.
     ws_bind (ws_get (\<lambda>_. need ''The provisional Done task has no frozen starting commit'' (g_starting_head g))) (\<lambda>start.
     ws_bind (ws_get (\<lambda>w. gv_resealed_manifest gv (ws_db w) (g_worktree_baseline g) session ident start (g_branch_ref g))) (\<lambda>manifest.
     ws_bind (on_db (reseal_git_finalization_manifest pid session (g_generation g) ident manifest (cx_run_token cx) now)) (\<lambda>resealed.
     ws_bind (ws_ensure (\<lambda>_. resealed) ''Task lost its running-session fence while CLT was resealing'') (\<lambda>_.
     ws_ok True))))))))"

definition reseal_provisional_done_task ::
  "site \<Rightarrow> git_view \<Rightarrow> str \<Rightarrow> child_context \<Rightarrow> str \<Rightarrow> bool ws" where
  "reseal_provisional_done_task st gv index_arg cx now =
     ws_bind (ws_project cx) (\<lambda>p.
     ws_bind (ws_running_session cx) (\<lambda>running.
     ws_bind (effective_agent_git_mode st gv p (Some running)) (\<lambda>mode.
     if mode = Off then ws_ok False
     else
     ws_bind (ensure_root st p) (\<lambda>_.
     ws_bind (ws_get (\<lambda>_. parse_one_based_task_index index_arg)) (\<lambda>i.
     with_entry st Done i (\<lambda>e.
     ws_bind (ws_get (\<lambda>_. need ''Resealing a provisional Done task requires its terminal marker''
                (codex_session_id_from_task_content (t_content e)))) (\<lambda>session.
     ws_bind (ws_ensure (\<lambda>_. session = running) ''The selected task belongs to another Codex session'') (\<lambda>_.
     ws_bind (ws_ensure (\<lambda>_. task_content_has_completed_note (t_content e)) ''Resealing requires the task's dated COMPLETED note'') (\<lambda>_.
     reseal_journal gv cx (p_id p) session e now)))))))))"

section \<open>Finding the run behind a completion\<close>

definition live_run_token :: "os_view \<Rightarrow> control_row \<Rightarrow> str option" where
  "live_run_token os c =
     (if sc_state c = Running
         \<and> (case sc_child_pid c of None \<Rightarrow> False | Some i \<Rightarrow> process_running os (nat i) \<noteq> Some False)
         \<and> sc_interactive_holder c = None \<and> sc_interactive_launch_token c = None
      then sc_run_token c else None)"

definition recover_completion_context :: "site \<Rightarrow> os_view \<Rightarrow> str \<Rightarrow> child_context option ws" where
  "recover_completion_context st os session w =
     (case find (\<lambda>p. p_path p = s_root st) (list_projects (ws_db w)) of
        None \<Rightarrow> (Inr None, w)
      | Some p \<Rightarrow>
          ws_bind (ws_get (\<lambda>w. session_control (ws_db w) (p_id p) session)) (\<lambda>control.
            case Option.bind control (live_run_token os) of
              None \<Rightarrow>
                ws_bind (ws_ensure (\<lambda>w. case git_finalization (ws_db w) (p_id p) session of None \<Rightarrow> True
                                        | Some g \<Rightarrow> gfs_is_terminal (g_state g))
                          ''This conversation has unfinished managed Git work but no running owner'') (\<lambda>_.
                ws_ok None)
            | Some token \<Rightarrow>
                ws_bind (ws_get (\<lambda>_. validate_agent_worker_token token)) (\<lambda>_.
                let cx = \<lparr>cx_project = p_id p, cx_run_token = token\<rparr> in
                ws_bind (ws_running_session cx) (\<lambda>running.
                ws_bind (ws_ensure (\<lambda>_. running = session) ''The running Codex conversation changed before completion'') (\<lambda>_.
                ws_ok (Some cx))))) w)"

text \<open>The environment of the command: the context CLT set, and the conversation Codex set.\<close>

definition automated_completion_context ::
  "site \<Rightarrow> os_view \<Rightarrow> child_context option result \<Rightarrow> str option \<Rightarrow> child_context option ws" where
  "automated_completion_context st os env_context thread =
     ws_bind (ws_get (\<lambda>_. env_context)) (\<lambda>cx.
     case cx of
       Some c \<Rightarrow> ws_ok (Some c)
     | None \<Rightarrow>
         (case thread of
            None \<Rightarrow> ws_ok None
          | Some session \<Rightarrow>
              if \<not> codex_session_id_is_uuid session then ws_ok None
              else ws_bind (ws_get (\<lambda>_. s_registry st)) (\<lambda>present.
                if \<not> present then ws_ok None else recover_completion_context st os session)))"

section \<open>The exclusive finalization lock\<close>

text \<open>What the attempt to lock the file answers; a held lock's file names its owner and token.\<close>

datatype lock_attempt = Lock_taken | Lock_held str | Lock_failed string

text \<open>The token, and whether this process holds the lock itself.\<close>

definition acquire_finalization :: "lock_attempt \<Rightarrow> str option \<Rightarrow> str \<Rightarrow> str \<Rightarrow> (bool \<times> str) result" where
  "acquire_finalization attempt env_token new_token own =
     (case attempt of
        Lock_taken \<Rightarrow> Inr (True, new_token)
      | Lock_failed e \<Rightarrow> Inl e
      | Lock_held rec \<Rightarrow>
          let held_by = (case lines rec of [] \<Rightarrow> lit ''another task'' | l # _ \<Rightarrow> l);
              token = (case lines rec of _ # l # _ \<Rightarrow> l | _ \<Rightarrow> [])
          in if held_by = own \<and> token \<noteq> [] \<and> env_token = Some token then Inr (False, token)
             else Inl ''Git staging/finalization is owned by another task'')"

section \<open>The command clt done\<close>

datatype TaskDoneOutcome = Normal | Provisional | External_completion str

text \<open>\<open>acquire\<close> is \<^verbatim>\<open>finalization::acquire\<close> for the conversation, where the project has a repository.\<close>

record done_env =
  de_cancel :: cancel_context
  de_git :: git_view
  de_context :: "child_context option result"
  de_thread :: "str option"
  de_repository :: bool
  de_acquire :: "str \<Rightarrow> (bool \<times> str) result"
  de_now :: str

definition coordination_guard :: "done_env \<Rightarrow> TaskEntry \<Rightarrow> unit result" where
  "coordination_guard de e =
     (case linked_session e of
        None \<Rightarrow> Inr ()
      | Some session \<Rightarrow> if de_repository de then map_sum id (\<lambda>_. ()) (de_acquire de session) else Inr ())"

definition move_task_to_done :: "site \<Rightarrow> done_env \<Rightarrow> TaskStatus \<Rightarrow> str \<Rightarrow> TaskDoneOutcome ws" where
  "move_task_to_done st de from_status index_arg =
     ws_bind (ws_get (\<lambda>_. parse_one_based_task_index index_arg)) (\<lambda>i.
     ws_bind (ws_get (\<lambda>w. md_task_entry_at (ws_board w) from_status i)) (\<lambda>e.
     ws_bind (ws_get (\<lambda>_. coordination_guard de e)) (\<lambda>_.
     ws_bind (ws_get (\<lambda>w. if from_status \<noteq> Done then ensure_board_admitted st w from_status i else Inr ())) (\<lambda>_.
     ws_bind (automated_completion_context st (cc_os (de_cancel de)) (de_context de) (de_thread de)) (\<lambda>cx.
     case cx of
       None \<Rightarrow>
         ws_bind (move_task_in_board st (de_cancel de) from_status Done index_arg) (\<lambda>external.
         ws_ok (case external of Some session \<Rightarrow> External_completion session | None \<Rightarrow> Normal))
     | Some c \<Rightarrow>
         ws_bind (if from_status = Done then reseal_provisional_done_task st (de_git de) index_arg c (de_now de)
                  else move_task_to_done_with_agent_store st (de_git de) from_status index_arg c (de_now de)) (\<lambda>provisional.
         ws_ok (if provisional then Provisional else Normal)))))))"

section \<open>The finalization command\<close>

text \<open>The checks before the command runs, and its exit.\<close>

definition run_finalization ::
  "site \<Rightarrow> TaskStatus \<Rightarrow> nat \<Rightarrow> str option \<Rightarrow> (str \<Rightarrow> (bool \<times> str) result) \<Rightarrow> str list \<Rightarrow> (str list \<Rightarrow> bool result) \<Rightarrow> unit ws" where
  "run_finalization st sta i thread acquire command spawn =
     ws_bind (ws_get (\<lambda>w. md_task_entry_at (ws_board w) sta i)) (\<lambda>e.
     ws_bind (ws_get (\<lambda>_. need ''Finalization requires the task's existing conversation link'' (linked_session e))) (\<lambda>own.
     ws_bind (ws_ensure (\<lambda>_. case thread of None \<Rightarrow> True | Some current \<Rightarrow> current = own)
                ''Finalize only this conversation's task'') (\<lambda>_.
     ws_bind (ws_get (\<lambda>_. acquire own)) (\<lambda>_.
     ws_bind (ws_get (\<lambda>w. if sta \<noteq> Done then ensure_board_admitted st w sta i else Inr ())) (\<lambda>_.
     ws_bind (ws_get (load_snapshot st)) (\<lambda>s.
     ws_bind (ws_ensure (\<lambda>_. \<not> list_ex (\<lambda>t. completion_wait t \<noteq> None \<and> linked_session (entry t) \<noteq> Some own) (tasks s))
                ''Another task has unfinished Git proof'') (\<lambda>_.
     ws_bind (ws_ensure (\<lambda>_. command \<noteq> []) ''Pass the staging, sealing and commit command after --'') (\<lambda>_.
     ws_bind (ws_get (\<lambda>_. spawn command)) (\<lambda>success.
     ws_ensure (\<lambda>_. success) ''Finalization command failed'')))))))))"

section \<open>Follow-ups\<close>

definition squeeze :: "str \<Rightarrow> str" where
  "squeeze s = join [32] (split_whitespace s)"

definition EM_DASH :: rchar where "EM_DASH = 8212"

definition follow_up_content :: "str \<Rightarrow> str \<Rightarrow> str option \<Rightarrow> str \<Rightarrow> str \<Rightarrow> TaskStatus \<times> str" where
  "follow_up_content description evid blocker today session =
     (case blocker of
        Some why \<Rightarrow>
          (Doing, description @ [32, EM_DASH] @ lit '' BLOCKED '' @ today @ lit '': '' @ why
             @ (if evid = why then [] else lit '' Evidence: '' @ evid) @ lit '' clt-follow-up:'' @ session)
      | None \<Rightarrow>
          (Todo, description @ [32, EM_DASH] @ lit '' Follow-up evidence: '' @ evid @ lit '' clt-follow-up:'' @ session))"

definition find_follow_up :: "workspace \<Rightarrow> str \<Rightarrow> (TaskStatus \<times> TaskEntry) option" where
  "find_follow_up w session =
     find (\<lambda>(_, e). follow_up_session (t_content e) = Some session)
       (concat (map (\<lambda>sta. map (Pair sta) (entries w sta)) TASK_STATUSES))"

definition file_follow_up :: "str \<Rightarrow> TaskStatus \<Rightarrow> str \<Rightarrow> TaskStatus ws" where
  "file_follow_up session sta content w =
     (case find_follow_up w session of
        Some (existing_status, e) \<Rightarrow>
          if existing_status = sta \<and> trim (t_content e) = content then (Inr sta, w)
          else (Inl ''This task already has a follow-up; update that entry instead of creating another'', w)
      | None \<Rightarrow> (Inr sta, w\<lparr>ws_board := md_insert_task_content (ws_board w) sta None content\<rparr>))"

definition add_follow_up ::
  "site \<Rightarrow> TaskStatus \<Rightarrow> str \<Rightarrow> str \<Rightarrow> str \<Rightarrow> str option \<Rightarrow> str \<Rightarrow> TaskStatus ws" where
  "add_follow_up st from_status index_arg description0 evidence0 blocker0 today =
     (let description = squeeze description0; evid = squeeze evidence0; blocker = map_option squeeze blocker0 in
      ws_bind (ws_ensure (\<lambda>_. from_status = Doing) ''Follow-ups require a Doing parent task'') (\<lambda>_.
      ws_bind (ws_ensure (\<lambda>_. description \<noteq> [] \<and> evid \<noteq> [] \<and> blocker \<noteq> Some [])
                 ''Follow-up description, evidence, and any blocked reason must be non-empty'') (\<lambda>_.
      ws_bind (ws_get (\<lambda>_. s_lock st)) (\<lambda>_.
      ws_bind (ws_get (\<lambda>_. parse_one_based_task_index index_arg)) (\<lambda>i.
      ws_bind (ws_get (\<lambda>w. md_task_entry_at (ws_board w) from_status i)) (\<lambda>parent.
      ws_bind (ws_get (\<lambda>_. need ''Follow-ups require the parent task's terminal marker''
                 (codex_session_id_from_task_content (t_content parent)))) (\<lambda>session.
      ws_bind (ws_allowed st parent True (Some (t_content parent))) (\<lambda>_.
      case follow_up_content description evid blocker today session of
        (sta, content) \<Rightarrow>
          ws_bind (ws_ensure (\<lambda>_. follow_up_session content = Some session \<and> follow_up_matches_status content sta)
            ''Follow-up text must preserve its requested state and must not contain session or follow-up markers'') (\<lambda>_.
          file_follow_up session sta content)))))))))"

section \<open>Updating coordination metadata\<close>

record Update =
  u_depends_on :: "str list"
  u_remove_dependency :: "str list"
  u_scope :: "Scope option"
  u_review :: "(str \<times> bool \<times> str) option"

definition graph_ok :: "graph_error + 'a \<Rightarrow> 'a result" where
  "graph_ok r = (case r of Inl _ \<Rightarrow> Inl ''Dependency error'' | Inr x \<Rightarrow> Inr x)"

fun add_dependencies :: "Snapshot \<Rightarrow> str \<Rightarrow> str list \<Rightarrow> str list \<Rightarrow> str list result" where
  "add_dependencies s own [] deps = Inr deps"
| "add_dependencies s own (d # ds) deps =
     (if d = own then Inl ''A task cannot depend on itself''
      else result_bind (graph_ok (referenced s d)) (\<lambda>_.
        add_dependencies s own ds (if d \<in> set deps then deps else deps @ [d])))"

text \<open>The metadata after the update, before a review is added.\<close>

definition update_meta :: "site \<Rightarrow> Snapshot \<Rightarrow> Metadata \<Rightarrow> Update \<Rightarrow> Metadata result" where
  "update_meta st s md0 u =
     (let md = (if m_id md0 = [] then md0\<lparr>m_id := s_new_uuid st\<rparr> else md0) in
      result_bind (add_dependencies s (m_id md) (u_depends_on u) (depends_on md)) (\<lambda>deps.
        let md1 = md\<lparr>depends_on := filter (\<lambda>d. d \<notin> set (u_remove_dependency u)) deps\<rparr>
        in Inr (case u_scope u of None \<Rightarrow> md1 | Some sc \<Rightarrow> md1\<lparr>scope := sc\<rparr>)))"

definition with_task_meta :: "Snapshot \<Rightarrow> Task \<Rightarrow> Metadata \<Rightarrow> Snapshot" where
  "with_task_meta s sel md =
     (case position (same_task sel) (tasks s) of
        None \<Rightarrow> s
      | Some k \<Rightarrow> s\<lparr>tasks := (tasks s)[k := (tasks s ! k)\<lparr>meta := md\<rparr>]\<rparr>)"

definition review_meta :: "site \<Rightarrow> Snapshot \<Rightarrow> Task \<Rightarrow> Metadata \<Rightarrow> (str \<times> bool \<times> str) option \<Rightarrow> Metadata result" where
  "review_meta st s updated md assessment =
     (case assessment of
        None \<Rightarrow> Inr md
      | Some (peer_id, ok, why) \<Rightarrow>
          result_bind (ensure (trim why \<noteq> []) ''An assessment needs concrete evidence and a reason'') (\<lambda>_.
          result_bind (graph_ok (referenced s peer_id)) (\<lambda>peer.
          result_bind (ensure (\<not> same_task updated peer) ''A task cannot assess itself'') (\<lambda>_.
          Inr (md\<lparr>reviews := filter (\<lambda>r. other r \<noteq> peer_id) (reviews md)
                   @ [\<lparr>other = peer_id, evidence = task_evidence (s_scope_json st) (s_uuid5 st) updated peer,
                       compatible = ok, reason = why\<rparr>]\<rparr>)))))"

definition updated_meta :: "site \<Rightarrow> Snapshot \<Rightarrow> Task \<Rightarrow> Update \<Rightarrow> Metadata result" where
  "updated_meta st s sel u =
     result_bind (read_meta st (t_content (entry sel))) (\<lambda>md0.
     result_bind (update_meta st s md0 u) (\<lambda>md.
       let s' = with_task_meta s sel md; updated = sel\<lparr>meta := md\<rparr> in
       result_bind (graph_ok (visit s' [] [] updated)) (\<lambda>_. review_meta st s' updated md (u_review u))))"

definition update_coordination :: "site \<Rightarrow> TaskStatus \<Rightarrow> nat \<Rightarrow> Update \<Rightarrow> str ws" where
  "update_coordination st sta i u =
     ws_bind (ws_get (\<lambda>_. s_lock st)) (\<lambda>_.
     ws_bind (ws_get (load_snapshot st)) (\<lambda>s.
     ws_bind (ws_get (\<lambda>_. selected s (path_components (s_path st)) sta i)) (\<lambda>sel.
     ws_bind (ws_ensure (\<lambda>_. completion_wait sel = None) ''Provisional tasks cannot change coordination metadata'') (\<lambda>_.
     ws_bind (ws_ensure (\<lambda>_. sta \<noteq> Done \<or> (u_depends_on u = [] \<and> u_remove_dependency u = []
                \<and> u_scope u = None \<and> u_review u = None)) ''Completed tasks can only receive a stable ID'') (\<lambda>_.
     ws_bind (ws_get (\<lambda>_. updated_meta st s sel u)) (\<lambda>md.
     ws_bind (ws_get (\<lambda>_. coord_write (s_json_of_meta st) (t_content (entry sel)) md)) (\<lambda>content.
     ws_bind (ws_allowed st (entry sel) True (Some content)) (\<lambda>_.
     ws_bind (on_board (\<lambda>b. md_write_task_entry_content b sta (entry sel) content)) (\<lambda>_.
     ws_ok (m_id md))))))))))"

end
