(* ===== verification/Board_Programs.thy ===== *)
theory Board_Programs
  imports Completion Reconcile_Theorems
begin

text \<open>
  What the programs on the workspace leave alone.  \<^verbatim>\<open>workspace_relation\<close> is the interface: a relation
  between the workspace before and after that composition preserves; it is interpreted on \<^verbatim>\<open>same
  registry\<close> and on \<^verbatim>\<open>a sequence of the store's transactions\<close>, and every operation of the board is
  classified by it.
\<close>

section \<open>Relations that programs keep\<close>

definition keeps :: "(workspace \<Rightarrow> workspace \<Rightarrow> bool) \<Rightarrow> 'a ws \<Rightarrow> bool" where
  "keeps R m \<longleftrightarrow> (\<forall>w. R w (snd (m w)))"

lemma keepsI: "(\<And>w. R w (snd (m w))) \<Longrightarrow> keeps R m"
  by (simp add: keeps_def)

lemma keepsD: "keeps R m \<Longrightarrow> m w = (r, w') \<Longrightarrow> R w w'"
  unfolding keeps_def by (metis snd_conv)

lemma keeps_if: "(P \<Longrightarrow> keeps R m) \<Longrightarrow> (\<not> P \<Longrightarrow> keeps R m') \<Longrightarrow> keeps R (if P then m else m')"
  by simp

lemma keeps_option: "(x = None \<Longrightarrow> keeps R m) \<Longrightarrow> (\<And>y. x = Some y \<Longrightarrow> keeps R (f y)) \<Longrightarrow> keeps R (case x of None \<Rightarrow> m | Some y \<Rightarrow> f y)"
  by (cases x) simp_all

lemma keeps_prod: "(\<And>a b. x = (a, b) \<Longrightarrow> keeps R (f a b)) \<Longrightarrow> keeps R (case x of (a, b) \<Rightarrow> f a b)"
  by (cases x) simp

locale workspace_relation =
  fixes R :: "workspace \<Rightarrow> workspace \<Rightarrow> bool"
  assumes refl_on: "R w w" and trans_on: "R a b \<Longrightarrow> R b c \<Longrightarrow> R a c"
begin

lemma keeps_get: "keeps R (ws_get f)" and keeps_ok: "keeps R (ws_ok x)" and keeps_ensure: "keeps R (ws_ensure P e)"
  by (simp_all add: keeps_def ws_get_def ws_ok_def ws_ensure_def refl_on)

lemma keeps_bind:
  assumes "keeps R m" and "\<And>x. keeps R (f x)"
  shows "keeps R (ws_bind m f)"
proof (rule keepsI)
  fix w
  obtain r w1 where m: "m w = (r, w1)" by fastforce
  then have "R w w1" using keepsD [OF assms(1)] by blast
  moreover have "R w1 (snd (f x w1))" for x using assms(2) by (simp add: keeps_def)
  ultimately show "R w (snd (ws_bind m f w))"
    by (cases r) (auto simp: ws_bind_def m intro: trans_on)
qed

lemma keeps_entry: "(\<And>e. keeps R (f e)) \<Longrightarrow> keeps R (with_entry st sta i f)"
  unfolding with_entry_def by (intro keeps_bind keeps_get)

lemma keeps_unmanaged: "keeps R m \<Longrightarrow> keeps R (unmanaged m)"
  unfolding unmanaged_def by (intro keeps_bind keeps_ok)

lemma keeps_allowed: "keeps R (ws_allowed st e b c)"
  unfolding ws_allowed_def by (rule keeps_get)

lemmas keeps_basic = keeps_bind keeps_get keeps_ok keeps_ensure keeps_entry keeps_unmanaged keeps_allowed
  keeps_if keeps_option keeps_prod

end

definition same_registry :: "workspace \<Rightarrow> workspace \<Rightarrow> bool" where
  "same_registry w w' \<longleftrightarrow> ws_db w' = ws_db w"

definition same_files :: "workspace \<Rightarrow> workspace \<Rightarrow> bool" where
  "same_files w w' \<longleftrightarrow> ws_board w' = ws_board w \<and> ws_archive w' = ws_archive w"

definition runs_store :: "workspace \<Rightarrow> workspace \<Rightarrow> bool" where
  "runs_store w w' \<longleftrightarrow> steps agent_step (ws_db w) (ws_db w')"

lemma steps_trans: "steps step b c \<Longrightarrow> steps step a b \<Longrightarrow> steps step a c"
  by (induction rule: steps.induct) (auto intro: steps_snoc)

interpretation same_db: workspace_relation same_registry
  by unfold_locales (simp_all add: same_registry_def)

interpretation same_md: workspace_relation same_files
  by unfold_locales (simp_all add: same_files_def)

interpretation on_store: workspace_relation runs_store
  by unfold_locales (auto simp: runs_store_def intro: steps_refl steps_trans)

lemma snd_on_db [simp]: "snd (on_db f w) = w\<lparr>ws_db := snd (f (ws_db w))\<rparr>"
  by (simp add: on_db_def split: prod.split)

lemma on_board_same_db: "keeps same_registry (on_board f)"
  by (rule keepsI) (simp add: same_registry_def on_board_def split: sum.split)

lemma on_board_store: "keeps runs_store (on_board f)"
  by (rule keepsI) (auto simp: runs_store_def on_board_def intro: steps_refl split: sum.split)

lemma on_db_files: "keeps same_files (on_db f)"
  by (rule keepsI) (simp add: same_files_def)

lemma on_db_store: "(\<And>db. steps agent_step db (snd (f db))) \<Longrightarrow> keeps runs_store (on_db f)"
  by (rule keepsI) (simp add: runs_store_def)

section \<open>The operations that leave the registry alone\<close>

lemmas db_kept = same_db.keeps_basic on_board_same_db

lemma move_after_lock_db: "keeps same_registry (move_after_lock st a b i)"
  unfolding move_after_lock_def clear_interactive_done_def release_manual_claim_def rewrite_linked_def
  by (intro db_kept)

lemma update_after_lock_db: "keeps same_registry (update_task_in_board_after_lock st sta i d)"
  unfolding update_task_in_board_after_lock_def by (intro db_kept)

lemma update_task_db: "keeps same_registry (update_task_in_board st sta i d)"
  unfolding update_task_in_board_def by (intro db_kept update_after_lock_db)

lemma cycle_thinking_db: "keeps same_registry (cycle_task_thinking_in_board st sta e)"
  unfolding cycle_task_thinking_in_board_def by (intro db_kept update_after_lock_db)

lemma reorder_task_db: "keeps same_registry (reorder_task_in_board st sta i j)"
  unfolding reorder_task_in_board_def by (intro db_kept)

lemma toggle_stop_db: "keeps same_registry (toggle_task_stop_marker_in_board st sta e)"
  unfolding toggle_task_stop_marker_in_board_def by (intro db_kept)

lemma archive_db: "keeps same_registry (move_task_to_archive_in_board st sta i)"
  unfolding move_task_to_archive_in_board_def
  by (intro db_kept) (simp add: keeps_def same_registry_def)

lemma follow_up_db: "keeps same_registry (add_follow_up st sta i d ev bl today)"
  unfolding add_follow_up_def Let_def
  by (intro db_kept) (auto simp: keeps_def same_registry_def file_follow_up_def split: option.split)

lemma update_coordination_db: "keeps same_registry (update_coordination st sta i u)"
  unfolding update_coordination_def by (intro db_kept)

section \<open>The operations that write the registry\<close>

lemma call_one: "call_ok db db' \<Longrightarrow> steps agent_step db db'"
  by (rule call_ok_steps [OF steps_refl])

lemma call_git: "git_step db db' \<Longrightarrow> call_ok db db'"
  by (simp add: call_ok_def agent_step_def store_step_def)

lemma active_workers_active:
  assumes "active_workers_of db pid = Inr xs" "x \<in> set xs"
  shows "worker_active (w_state x) \<and> w_project x = pid"
proof -
  obtain ws where ws: "list_active_workers db = Inr ws" "xs = map fst (filter (\<lambda>(x, p). w_project x = pid) ws)"
    using assms(1) by (cases "list_active_workers db") (auto simp: active_workers_of_def)
  then have "ws = sort_key (\<lambda>(w, p). (str_to_i64 (w_created_at w), w_token w))
      (List.map_filter (join_project db w_project) (filter (\<lambda>w. worker_active (w_state w)) (workers db)))"
    unfolding list_active_workers_def list_workers_by_terminal_state_def Let_def by (simp split: if_splits)
  with assms(2) ws(2) show ?thesis
    by (auto simp: List.map_filter_def join_project_def split: option.splits)
qed

lemma retire_exited_call:
  "worker_active (w_state x) \<Longrightarrow> call_ok db (snd (retire_exited_worker os drain pid now x db))"
  using call_ok_registry [OF step_abandon, of "exit_abandonment db pid now x" db]
  by (simp add: retire_exited_worker_def exit_abandonment_def split: sum.split bool.split)

lemma retire_exited_steps:
  "\<forall>x \<in> set xs. worker_active (w_state x) \<Longrightarrow> steps agent_step db (snd (retire_exited_workers os drain pid now xs db))"
proof (induction xs arbitrary: db)
  case (Cons x xs)
  obtain r db1 where one: "retire_exited_worker os drain pid now x db = (r, db1)" by fastforce
  have "call_ok db db1" using retire_exited_call [of x db os drain pid now] Cons.prems by (simp add: one)
  then have s: "steps agent_step db db1" by (rule call_one)
  have "steps agent_step db1 (snd (retire_exited_workers os drain pid now xs db1))"
    using Cons.prems by (intro Cons.IH) simp
  with s show ?case by (auto simp: one intro: steps_trans split: sum.split)
qed (simp add: steps_refl)

lemma release_dead_call: "call_ok db (snd (release_dead_lease os pid db))"
  unfolding release_dead_lease_def
  by (auto intro!: call_ok_registry step_release split: sum.split option.split)

lemma reconcile_exited_steps:
  "steps agent_step db (snd (reconcile_exited_project_workers os drain pid now db))"
proof (cases "session_controls_for_project db pid")
  case (Inr cs)
  show ?thesis
  proof (cases "active_workers_of db pid")
    case ws: (Inr ws)
    obtain r db1 where all: "retire_exited_workers os drain pid now ws db = (r, db1)" by fastforce
    have s: "steps agent_step db db1"
      using retire_exited_steps [of ws db os drain pid now] active_workers_active [OF ws] by (simp add: all)
    then have "steps agent_step db (snd (release_dead_lease os pid db1))"
      by (rule steps_trans [OF call_one [OF release_dead_call]])
    with s show ?thesis
      by (simp add: reconcile_exited_project_workers_def Inr ws all steps_refl split: sum.split)
  qed (simp add: reconcile_exited_project_workers_def Inr steps_refl)
qed (simp add: reconcile_exited_project_workers_def steps_refl)

lemma same_registry_store: "keeps same_registry m \<Longrightarrow> keeps runs_store m"
  by (simp add: keeps_def same_registry_def runs_store_def steps_refl)

lemmas store_kept = on_store.keeps_basic on_board_store

lemmas kept_calls = on_db_store [OF call_one [OF call_git]] on_db_store [OF call_one [OF call_ok_registry]]

lemma git_cas_calls:
  "keeps runs_store (on_db (compare_and_set_git_finalization_with_identity pid sid gen nx i ow at))"
  "keeps runs_store (on_db (compare_and_set_owned_git_finalization pid sid gen nx t oid err at))"
  "keeps runs_store (on_db (track_git_finalization_with_manifest pid sid gen ident b t at))"
  "keeps runs_store (on_db (reseal_git_finalization_manifest pid sid gen ident b t at))"
  unfolding compare_and_set_git_finalization_with_identity_def compare_and_set_owned_git_finalization_def
    track_git_finalization_with_manifest_def reseal_git_finalization_manifest_def
  by (rule kept_calls(1), rule git_compare_and_set)+

lemma cancel_journal_store: "keeps runs_store (cancel_journal cc pid session g c)"
  unfolding cancel_journal_def
  by (intro store_kept on_db_store reconcile_exited_steps call_one [OF call_git] git_cancel_idle)

lemma release_call: "call_ok db (snd (release_lease pid h db))"
  by (rule call_ok_registry) (rule step_release)

lemma mutate_under_fence_store:
  assumes "keeps runs_store mutate"
  shows "keeps runs_store (mutate_under_fence cc pid session mutate)"
proof (rule keepsI)
  fix w
  obtain r w1 where m: "mutate w = (r, w1)" by fastforce
  have "runs_store w w1" using assms m by (rule keepsD)
  moreover have "runs_store w1 (snd (on_db (release_lease pid (task_cancellation_lease_holder cc)) w1))"
    using call_one [OF release_call] by (simp add: runs_store_def)
  ultimately show "runs_store w (snd (mutate_under_fence cc pid session mutate w))"
    unfolding mutate_under_fence_def m
    by (auto intro: on_store.trans_on simp del: snd_on_db split: prod.split sum.split)
qed

lemma mutate_user_store:
  assumes "keeps runs_store mutate"
  shows "keeps runs_store (mutate_user_managed_task st cc e c mutate)"
proof -
  have "keeps runs_store (mutate_user_managed_task_with_store st cc e c mutate)"
  proof (rule keepsI)
    fix w
    have "runs_store w (snd (unmanaged mutate w))"
      using on_store.keeps_unmanaged [OF assms] by (simp add: keeps_def)
    moreover have "runs_store w (snd (ws_bind (cancel_journal cc pid session g c)
        (\<lambda>_. mutate_under_fence cc pid session mutate) w))" for pid session g
    proof -
      have "keeps runs_store (ws_bind (cancel_journal cc pid session g c) (\<lambda>_. mutate_under_fence cc pid session mutate))"
        by (intro store_kept cancel_journal_store mutate_under_fence_store assms)
      then show ?thesis by (simp add: keeps_def)
    qed
    ultimately show "runs_store w (snd (mutate_user_managed_task_with_store st cc e c mutate w))"
      by (simp add: mutate_user_managed_task_with_store_def on_store.refl_on split: option.split)
  qed
  then show ?thesis
    unfolding mutate_user_managed_task_def by (intro store_kept assms)
qed

lemma move_in_board_store: "keeps runs_store (move_task_in_board st cc a b i)"
  unfolding move_task_in_board_def
  by (intro store_kept mutate_user_store same_registry_store [OF move_after_lock_db])

lemma delete_store: "keeps runs_store (delete_task_in_board st cc automated sta i)"
  unfolding delete_task_in_board_def Let_def by (intro store_kept mutate_user_store)

lemma effective_mode_store: "keeps runs_store (effective_agent_git_mode st gv p r)"
proof -
  have l: "keeps runs_store (legacy_git_mode st gv p session)" for session
    unfolding legacy_git_mode_def by (intro store_kept kept_calls(1) git_unmanaged)
  show ?thesis
    by (rule keepsI) (use l in \<open>simp add: effective_agent_git_mode_def keeps_def on_store.refl_on split: option.split\<close>)
qed

lemma attach_store: "keeps runs_store (attach_session sta e session)"
  unfolding attach_session_def by (rule on_board_store)

lemma doing_store:
  "keeps runs_store (move_task_to_doing_with_agent_session st i cx p)"
  "keeps runs_store (move_task_to_doing_with_agent_git_journal st gv i cx p now)"
  unfolding move_task_to_doing_with_agent_session_def move_task_to_doing_with_agent_git_journal_def ensure_root_def
    ws_running_session_def ensure_status_conversion_allowed_def bind_task_identity_def
  by (intro store_kept attach_store git_cas_calls same_registry_store [OF move_after_lock_db])+

lemma move_task_store: "keeps runs_store (move_task st gv cc cx a b i now)"
  unfolding move_task_def ws_project_def ws_running_session_def Let_def
  by (intro store_kept move_in_board_store doing_store effective_mode_store)

lemma done_with_agent_store: "keeps runs_store (move_task_to_done_with_agent_store st gv a i cx now)"
proof -
  have intent: "keeps runs_store (completion_intent gv cx pid session e g now)" for pid session e g
    unfolding completion_intent_def seal_working_journal_def own_tracking_journal_def journal_after_def
    by (intro store_kept git_cas_calls)
  have publish: "keeps runs_store (publish_provisional_done cx pid session a j h now)" for pid session j h
    unfolding publish_provisional_done_def by (intro store_kept git_cas_calls)
  have none: "keeps runs_store (ws_bind (effective_agent_git_mode st gv p r) (\<lambda>mode.
      if mode = Off then ws_bind (move_after_lock st a Done j) (\<lambda>_. ws_ok False) else ws_get (\<lambda>_. Inl msg)))" for p r j msg
    by (intro store_kept effective_mode_store same_registry_store [OF move_after_lock_db])
  have own: "keeps runs_store (complete_own_task st gv cx p a j e session now)" for p j e session
  proof (rule keepsI)
    fix w
    show "runs_store w (snd (complete_own_task st gv cx p a j e session now w))"
      using none on_store.keeps_bind [OF intent publish]
      by (simp add: complete_own_task_def keeps_def split: option.split)
  qed
  show ?thesis
    unfolding move_task_to_done_with_agent_store_def ws_project_def ensure_root_def own_completed_task_def
      ws_running_session_def
    by (intro store_kept own)
qed

lemma reseal_store: "keeps runs_store (reseal_provisional_done_task st gv i cx now)"
  unfolding reseal_provisional_done_task_def reseal_journal_def ws_project_def ws_running_session_def ensure_root_def
  by (intro store_kept git_cas_calls effective_mode_store)

lemma completion_context_store: "keeps runs_store (automated_completion_context st os env thread)"
proof -
  have "keeps runs_store (recover_completion_context st os session)" for session
  proof (rule keepsI)
    fix w
    show "runs_store w (snd (recover_completion_context st os session w))"
      unfolding recover_completion_context_def ws_running_session_def
      by (auto simp: ws_bind_def ws_get_def ws_ensure_def ws_ok_def Let_def intro: on_store.refl_on
          split: option.split sum.split)
  qed
  then show ?thesis unfolding automated_completion_context_def by (intro store_kept)
qed

lemma move_to_done_store: "keeps runs_store (move_task_to_done st de a i)"
  unfolding move_task_to_done_def
  by (intro store_kept completion_context_store move_in_board_store reseal_store done_with_agent_store)

end
