(* ===== verification/Board_Safety.thy ===== *)
theory Board_Safety
  imports Board_Programs Board_Theorems
begin

text \<open>
  The properties of the operations on a project's board: they write the registry only by the store's
  transactions, a prerequisite counts only with its completion proof, an open Git journal fences the
  task it belongs to, a user's completion cancels the journal before it moves the task, and an
  automated completion is sealed before it is published.
\<close>

section \<open>Refinement of the store\<close>

lemma keeps_steps: "keeps runs_store m \<Longrightarrow> steps agent_step (ws_db w) (ws_db (snd (m w)))"
  by (simp add: keeps_def runs_store_def)

lemma keeps_registry: "keeps same_registry m \<Longrightarrow> ws_db (snd (m w)) = ws_db w"
  by (simp add: keeps_def same_registry_def)

text \<open>Every operation on a board changes the registry only by a sequence of the store's own
  transactions, whatever it returns and wherever it stops, so the invariants of the store hold
  before, during and after it; editing, reordering, archiving, stopping, adding a follow-up and
  updating coordination metadata do not change the registry at all.\<close>

theorem board_operations_refine_store:
  "steps agent_step (ws_db w) (ws_db (snd (move_task st gv cc cx a b i now w)))
   \<and> steps agent_step (ws_db w) (ws_db (snd (move_task_to_done st de a i w)))
   \<and> steps agent_step (ws_db w) (ws_db (snd (delete_task_in_board st cc automated a i w)))
   \<and> ws_db (snd (update_task_in_board st a k d w)) = ws_db w
   \<and> ws_db (snd (cycle_task_thinking_in_board st a e w)) = ws_db w
   \<and> ws_db (snd (reorder_task_in_board st a k l w)) = ws_db w
   \<and> ws_db (snd (move_task_to_archive_in_board st a i w)) = ws_db w
   \<and> ws_db (snd (toggle_task_stop_marker_in_board st a e w)) = ws_db w
   \<and> ws_db (snd (add_follow_up st a i d ev bl today w)) = ws_db w
   \<and> ws_db (snd (update_coordination st a k u w)) = ws_db w"
  by (intro conjI keeps_steps keeps_registry move_task_store move_to_done_store delete_store update_task_db
      cycle_thinking_db reorder_task_db archive_db toggle_stop_db follow_up_db update_coordination_db)

section \<open>Completion proofs\<close>

lemma result_bind_Inr: "result_bind r f = Inr y \<longleftrightarrow> (\<exists>x. r = Inr x \<and> f x = Inr y)"
  by (cases r) (simp_all add: result_bind_def)

lemma collect_no_wait: "t \<in> set (collect st b archive) \<Longrightarrow> completion_wait t = None"
  unfolding collect_def board_task_def archived_task_def
  by (auto simp: List.map_filter_def Let_def split: if_splits)

lemma admission_tasks:
  assumes "admission st w = Inr s"
  obtains ts where "ts = collect st (ws_board w) (ws_archive w)"
    and "(if needs_proof False ts \<and> list_ex (\<lambda>t. linked_session (entry t) \<noteq> None) ts
          then load_runtime st (ws_db w) ts else Inr ts) = Inr (tasks s)"
  using assms unfolding admission_def load_with_context_def Let_def linked_session_def
  by (auto simp: result_bind_Inr)

lemma runtime_task_frame [simp]:
  "entry (runtime_task m db pid cs gs t) = entry t" "meta (runtime_task m db pid cs gs t) = meta t"
  "status (runtime_task m db pid cs gs t) = status t"
  by (simp_all add: runtime_task_def Let_def split: option.split)

text \<open>A completed task with an id carries no open journal and no missing one.\<close>

lemma runtime_complete:
  assumes "task_complete (runtime_task m db pid cs gs t)" "completion_wait t = None" "m_id (meta t) \<noteq> []"
    and "linked_session (entry t) = Some session"
  shows "completion_wait_for m db pid session = None"
proof (rule ccontr)
  assume n: "\<not> ?thesis"
  have d: "status t = Done" using assms(1) by (simp add: task_complete_def)
  have "completion_wait (runtime_task m db pid cs gs t) = completion_wait_for m db pid session"
    using n d assms(3,4) by (simp add: runtime_task_def linked_session_def Let_def)
  then show False using assms(1) n by (simp add: task_complete_def)
qed

lemma snapshot_completion:
  assumes s: "admission st w = Inr s" and u: "u \<in> set (tasks s)" "task_complete u" "m_id (meta u) \<noteq> []"
    and reg: "s_registry st = Inr True"
    and p: "project_above (ws_db w) (\<lambda>p. path_starts_with (s_path st) (p_path p)) = Some p"
    and link: "linked_session (entry u) = Some session"
  shows "completion_wait_for (s_migration st) (ws_db w) (p_id p) session = None"
proof -
  obtain ts where ts: "ts = collect st (ws_board w) (ws_archive w)"
    and load: "(if needs_proof False ts \<and> list_ex (\<lambda>t. linked_session (entry t) \<noteq> None) ts
          then load_runtime st (ws_db w) ts else Inr ts) = Inr (tasks s)"
    using s by (rule admission_tasks)
  have mapped: "\<exists>cs gs. tasks s = map (runtime_task (s_migration st) (ws_db w) (p_id p) cs gs) ts"
    if "load_runtime st (ws_db w) ts = Inr (tasks s)"
  proof -
    have "\<exists>x. map (runtime_task (s_migration st) (ws_db w) (p_id p) x
        (list_pending_git_finalizations (ws_db w) (Some (p_id p)))) ts = tasks s"
      using that reg p by (auto simp: load_runtime_def load_runtime_from_store_def result_bind_Inr)
    then show ?thesis by (auto dest: sym)
  qed
  have "load_runtime st (ws_db w) ts = Inr (tasks s)"
  proof (rule ccontr)
    assume n: "\<not> ?thesis"
    then have "tasks s = ts" using load by (auto split: if_splits)
    with u(1,3) link have "needs_proof False ts \<and> list_ex (\<lambda>t. linked_session (entry t) \<noteq> None) ts"
      unfolding needs_proof_def list_ex_iff by auto
    with load n show False by simp
  qed
  then obtain cs gs t where t: "t \<in> set ts" "u = runtime_task (s_migration st) (ws_db w) (p_id p) cs gs t"
    using mapped u(1) by auto
  have "completion_wait t = None" using t(1) ts collect_no_wait by blast
  then show ?thesis using runtime_complete [of "s_migration st" "ws_db w" "p_id p" cs gs t session] u(2,3) link t(2)
    by simp
qed

lemma referenced_Inr:
  assumes "referenced s i = Inr u"
  shows "u \<in> set (tasks s) \<and> m_id (meta u) = i \<and> i \<noteq> []"
proof -
  have "filter (\<lambda>t. m_id (meta t) = i \<and> i \<noteq> []) (tasks s) = [u]"
    using assms by (auto simp: referenced_def split: list.splits)
  then have "u \<in> set (filter (\<lambda>t. m_id (meta t) = i \<and> i \<noteq> []) (tasks s))" by simp
  then show ?thesis by simp
qed

text \<open>A task of the board is admitted only when the completion of every prerequisite is proven: the
  prerequisite is in Done (or archived), and if a conversation worked on it, its Git journal has
  reached a final state, or it has none and its conversation was not managed by Git.\<close>

theorem admitted_prerequisites_proven:
  assumes "admission st w = Inr s" and "t \<in> set (tasks s)" and "\<not> task_complete t"
    and "waits (s_scope_json st) (s_uuid5 st) s t = []" and "i \<in> set (depends_on (meta t))"
    and "s_registry st = Inr True"
    and "project_above (ws_db w) (\<lambda>p. path_starts_with (s_path st) (p_path p)) = Some p"
  shows "\<exists>u \<in> set (tasks s). m_id (meta u) = i \<and> status u = Done \<and> (case linked_session (entry u) of
      None \<Rightarrow> True
    | Some session \<Rightarrow>
        (case git_finalization (ws_db w) (p_id p) session of
           Some g \<Rightarrow> g_state g \<in> {Completed, Cancelled}
         | None \<Rightarrow> session_git_mode (s_migration st) (ws_db w) (p_id p) session \<in> {None, Some Off}))"
proof -
  obtain dn where "visit s [] [] t = Inr dn" and pw: "prerequisite_waits s t = []"
    using waits_NilD [OF assms(4,3)] by blast
  then obtain u where u: "referenced s i = Inr u" using visit_dep_ok assms(2,5) by blast
  have cu: "task_complete u" using prerequisite_complete [OF pw assms(5) u] .
  have "u \<in> set (tasks s) \<and> m_id (meta u) = i \<and> i \<noteq> []" using u by (rule referenced_Inr)
  then have m: "u \<in> set (tasks s)" "m_id (meta u) = i" "m_id (meta u) \<noteq> []" by auto
  have "(case git_finalization (ws_db w) (p_id p) session of
           Some g \<Rightarrow> g_state g \<in> {Completed, Cancelled}
         | None \<Rightarrow> session_git_mode (s_migration st) (ws_db w) (p_id p) session \<in> {None, Some Off})"
    if "linked_session (entry u) = Some session" for session
    using snapshot_completion [OF assms(1) m(1) cu m(3) assms(6,7) that]
    by (auto simp: completion_wait_for_def gfs_is_terminal_def split: option.splits if_splits)
  then show ?thesis using m(1,2) cu by (auto simp: task_complete_def split: option.split)
qed

text \<open>A board with a waiting task in Todo and its completed prerequisite in Done, whose conversation is the
  one of the published journal.\<close>

lemmas text_eval = last_word_def lit_def is_ws_def starts_with_def strip_prefix_def valid_session_def session_char_def
  is_ascii_alphanumeric_def is_ascii_alphabetic_def is_ascii_lowercase_def is_ascii_uppercase_def is_ascii_digit_def
  TASK_STOPPED_MARKER_def TASK_MANUAL_MARKER_def CODEX_TASK_SESSION_PREFIX_def TASK_PREFIX_def

definition demo_site :: site where
  "demo_site = \<lparr>s_root = lit ''/p1'', s_path = lit ''/p1/tasks'', s_lock = Inr (), s_cleanup = Inr (), s_registry = Inr True,
     s_migration = None, s_git_status = None, s_scope_json = (\<lambda>_. []), s_uuid5 = (\<lambda>x. x), s_new_uuid = lit ''n'',
     s_is_uuid = (\<lambda>_. True),
     s_meta_of_json = (\<lambda>j. Some (default_metadata\<lparr>m_id := j, depends_on := (if j = lit ''a'' then [lit ''b''] else [])\<rparr>)),
     s_json_of_meta = (\<lambda>md. Inr (m_id md))\<rparr>"

lemma demo_site_simps [simp]:
  "s_root demo_site = lit ''/p1''" "s_path demo_site = lit ''/p1/tasks''" "s_lock demo_site = Inr ()"
  "s_registry demo_site = Inr True" "s_migration demo_site = None" "s_git_status demo_site = None"
  "s_scope_json demo_site = (\<lambda>_. [])" "s_uuid5 demo_site = (\<lambda>x. x)" "s_cleanup demo_site = Inr ()"
  by (simp_all add: demo_site_def)

definition demo_todo_text :: str where "demo_todo_text = lit ''one <!-- clt-coordination: a -->''"
definition demo_done_text :: str where "demo_done_text = lit ''two <!-- clt-coordination: b --> codex:s1''"

definition demo_files :: md_board where
  "demo_files = (\<lambda>sta. case sta of Todo \<Rightarrow> TASK_PREFIX @ demo_todo_text | Done \<Rightarrow> TASK_PREFIX @ demo_done_text | _ \<Rightarrow> [])"

definition demo_work :: "registry \<Rightarrow> workspace" where
  "demo_work db = \<lparr>ws_db = db, ws_board = demo_files, ws_archive = []\<rparr>"

lemma demo_texts:
  "\<not> task_content_is_stopped demo_done_text" "\<not> task_content_is_stopped demo_todo_text"
  "\<not> task_content_is_manual demo_done_text" "\<not> task_content_is_manual demo_todo_text"
  by (simp_all add: task_content_is_stopped_def task_content_is_manual_def demo_todo_text_def demo_done_text_def text_eval)

lemma demo_links [simp]:
  "recoverable_codex_session_id_from_task_content demo_done_text = Some (lit ''s1'')"
  "recoverable_codex_session_id_from_task_content demo_todo_text = None"
proof -
  have "codex_session_id_from_task_content demo_done_text = Some (lit ''s1'')"
    "codex_session_id_from_task_content demo_todo_text = None"
    by (simp_all add: codex_session_id_from_task_content_def demo_todo_text_def demo_done_text_def text_eval)
  moreover have "match_indices demo_todo_text CODEX_TASK_SESSION_PREFIX = []"
    by (simp add: match_indices_def demo_todo_text_def text_eval)
  ultimately show "recoverable_codex_session_id_from_task_content demo_done_text = Some (lit ''s1'')"
    "recoverable_codex_session_id_from_task_content demo_todo_text = None"
    by (simp_all add: recoverable_codex_session_id_from_task_content_def task_content_without_stop_marker_def demo_texts
        codex_session_markers_in_task_content_def List.map_filter_def)
qed

lemma read_one_entry:
  assumes "10 \<notin> set c"
  shows "read_markdown_entries (TASK_PREFIX @ c) = [task_entry_from_text (MarkdownLine 0) c c False]"
proof -
  have n: "10 \<notin> set (TASK_PREFIX @ c)" using assms by (simp add: TASK_PREFIX_def lit_def)
  have ne: "TASK_PREFIX @ c \<noteq> []" by (simp add: TASK_PREFIX_def lit_def)
  have "split_inclusive_nl l = [l]" if "10 \<notin> set l" "l \<noteq> []" for l
    using that
  proof (induction l)
    case (Cons a l)
    then show ?case by (cases l) (auto split: list.splits)
  qed simp
  then have "split_inclusive_nl (TASK_PREFIX @ c) = [TASK_PREFIX @ c]" using n ne by blast
  moreover have "strip_suffix (TASK_PREFIX @ c) [10] = None"
  proof (cases "strip_suffix (TASK_PREFIX @ c) [10]")
    case (Some a)
    then have "TASK_PREFIX @ c = a @ [10]" by (simp add: strip_suffix_Some)
    with n show ?thesis by (metis in_set_conv_decomp)
  qed simp
  ultimately have "lines (TASK_PREFIX @ c) = [TASK_PREFIX @ c]" by (simp add: lines_def strip_line_ending_def)
  then show ?thesis
    by (simp add: read_markdown_entries_def List.map_filter_def strip_prefix_def starts_with_def TASK_PREFIX_def lit_def)
qed

lemma demo_entries:
  "read_markdown_entries (demo_files Todo) = [task_entry_from_text (MarkdownLine 0) demo_todo_text demo_todo_text False]"
  "read_markdown_entries (demo_files Done) = [task_entry_from_text (MarkdownLine 0) demo_done_text demo_done_text False]"
  "read_markdown_entries (demo_files Doing) = []" "read_markdown_entries (demo_files Backlog) = []" "read_markdown_entries [] = []"
proof -
  have "10 \<notin> set demo_todo_text" "10 \<notin> set demo_done_text" by (simp_all add: demo_todo_text_def demo_done_text_def lit_def)
  then show "read_markdown_entries (demo_files Todo) = [task_entry_from_text (MarkdownLine 0) demo_todo_text demo_todo_text False]"
    "read_markdown_entries (demo_files Done) = [task_entry_from_text (MarkdownLine 0) demo_done_text demo_done_text False]"
    by (simp_all add: demo_files_def read_one_entry)
qed (simp_all add: demo_files_def read_markdown_entries_def lines_def List.map_filter_def)

lemma demo_metas:
  "read_meta demo_site demo_todo_text = Inr (default_metadata\<lparr>m_id := lit ''a'', depends_on := [lit ''b'']\<rparr>)"
  "read_meta demo_site demo_done_text = Inr (default_metadata\<lparr>m_id := lit ''b''\<rparr>)"
  by code_simp+

definition demo_todo_task :: Task where
  "demo_todo_task = board_task demo_site Todo (1, task_entry_from_text (MarkdownLine 0) demo_todo_text demo_todo_text False)"
definition demo_done_task :: Task where
  "demo_done_task = board_task demo_site Done (1, task_entry_from_text (MarkdownLine 0) demo_done_text demo_done_text False)"

lemma demo_tasks:
  "status demo_todo_task = Todo" "status demo_done_task = Done" "completion_wait demo_todo_task = None"
  "completion_wait demo_done_task = None" "error demo_todo_task = None" "error demo_done_task = None"
  "m_id (meta demo_todo_task) = lit ''a''" "m_id (meta demo_done_task) = lit ''b''"
  "depends_on (meta demo_todo_task) = [lit ''b'']" "depends_on (meta demo_done_task) = []"
  "t_content (entry demo_todo_task) = demo_todo_text" "t_content (entry demo_done_task) = demo_done_text"
  by (simp_all add: demo_todo_task_def demo_done_task_def board_task_def demo_metas default_metadata_def)

lemma demo_collect: "collect demo_site demo_files [] = [demo_todo_task, demo_done_task]"
  by (simp add: collect_def TASK_STATUSES_def demo_entries demo_todo_task_def demo_done_task_def List.map_filter_def)

definition demo_snapshot_of :: "Task list \<Rightarrow> Snapshot" where
  "demo_snapshot_of ts = \<lparr>tasks = ts, changed_files = []\<rparr>"

lemma demo_admission:
  assumes p: "project_above db (\<lambda>p. path_starts_with (lit ''/p1/tasks'') (p_path p)) = Some p"
    and c: "session_controls_for_project db (p_id p) = Inr []"
  shows "admission demo_site (demo_work db) =
    Inr (demo_snapshot_of [demo_todo_task,
      runtime_task None db (p_id p) [] (list_pending_git_finalizations db (Some (p_id p))) demo_done_task])"
proof -
  have ids: "lit ''a'' \<noteq> []" "lit ''b'' \<noteq> []" by (simp_all add: lit_def)
  then have np: "needs_proof False [demo_todo_task, demo_done_task]" by (simp add: needs_proof_def demo_tasks)
  have "load_runtime demo_site db [demo_todo_task, demo_done_task] = Inr [demo_todo_task,
      runtime_task None db (p_id p) [] (list_pending_git_finalizations db (Some (p_id p))) demo_done_task]"
    using p c by (simp add: load_runtime_def load_runtime_from_store_def result_bind_def runtime_task_def [of _ _ _ _ _ demo_todo_task]
        demo_tasks)
  then show ?thesis
    using np by (simp add: admission_def load_with_context_def demo_work_def demo_collect demo_tasks changed_paths_def
        demo_snapshot_of_def result_bind_def del: split_paired_Ex)
qed

definition demo_snap :: Snapshot where
  "demo_snap = demo_snapshot_of [demo_todo_task, runtime_task None demo_published 1 []
     (list_pending_git_finalizations demo_published (Some 1)) demo_done_task]"

lemma demo_published_facts:
  "project_above demo_published (\<lambda>p. path_starts_with (lit ''/p1/tasks'') (p_path p)) = Some (hd (projects demo_published))"
  "p_id (hd (projects demo_published)) = 1" "session_controls_for_project demo_published 1 = Inr []"
  "completion_wait_for None demo_published 1 (lit ''s1'') = None"
  by code_simp+

theorem admitted_prerequisites_proven_witness:
  "\<exists>u \<in> set (tasks demo_snap). m_id (meta u) = lit ''b'' \<and> status u = Done"
proof -
  have adm: "admission demo_site (demo_work demo_published) = Inr demo_snap"
    using demo_admission demo_published_facts(1,2,3) by (simp add: demo_snap_def)
  let ?u = "runtime_task None demo_published 1 [] (list_pending_git_finalizations demo_published (Some 1)) demo_done_task"
  have u: "?u = demo_done_task" by (simp add: runtime_task_def demo_tasks demo_published_facts(4))
  have s: "demo_snap = demo_snapshot_of [demo_todo_task, demo_done_task]" by (simp add: demo_snap_def u)
  have w: "waits (s_scope_json demo_site) (s_uuid5 demo_site) demo_snap demo_todo_task = []"
    by (simp add: s demo_snapshot_of_def waits_def task_complete_def task_active_def demo_tasks visit.simps referenced_def
        prerequisite_waits_def overlap_waits_def List.map_filter_def lit_def)
  have "demo_todo_task \<in> set (tasks demo_snap)" "\<not> task_complete demo_todo_task" "lit ''b'' \<in> set (depends_on (meta demo_todo_task))"
    by (simp_all add: s demo_snapshot_of_def task_complete_def demo_tasks)
  from admitted_prerequisites_proven [OF adm this(1,2) w this(3), of "hd (projects demo_published)"]
  show ?thesis using demo_published_facts(1) by (auto simp: demo_work_def)
qed

end
