(* ===== verification/Fence_Theorems.thy ===== *)
theory Fence_Theorems
  imports Board_Safety
begin

text \<open>
  What the Git journal of a task's conversation allows: while it is open the task may be edited only
  without changing what the journal is bound to and moved only between the active lists, and a
  user's completion goes through the cancellation of the journal.
\<close>

section \<open>Running a program to its end\<close>

lemma ws_bind_Inr: "ws_bind m f w = (Inr y, w') \<longleftrightarrow> (\<exists>x w1. m w = (Inr x, w1) \<and> f x w1 = (Inr y, w'))"
  by (auto simp: ws_bind_def split: prod.splits sum.splits)

lemma ws_get_Inr [simp]: "ws_get f w = (Inr x, w') \<longleftrightarrow> f w = Inr x \<and> w' = w"
  by (auto simp: ws_get_def)

lemma ws_ok_Inr [simp]: "ws_ok y w = (Inr x, w') \<longleftrightarrow> y = x \<and> w' = w"
  by (auto simp: ws_ok_def)

lemma ensure_Inr [simp]: "ensure b e = Inr x \<longleftrightarrow> b"
  by (auto simp: ensure_def)

lemma map_sum_Inr: "map_sum id f x = Inr y \<longleftrightarrow> (\<exists>z. x = Inr z \<and> f z = y)"
  by (cases x) auto

lemma ws_ensure_Inr [simp]: "ws_ensure P e w = (Inr x, w') \<longleftrightarrow> P w \<and> w' = w"
  by (auto simp: ws_ensure_def)

lemma need_Inr [simp]: "need e x = Inr y \<longleftrightarrow> x = Some y"
  by (auto simp: need_def split: option.split)

lemma on_board_Inr: "on_board f w = (Inr x, w') \<longleftrightarrow> (\<exists>b. f (ws_board w) = Inr b \<and> w' = w\<lparr>ws_board := b\<rparr>)"
  by (auto simp: on_board_def split: sum.splits)

lemma on_db_Inr: "on_db f w = (Inr x, w') \<longleftrightarrow> (\<exists>db. f (ws_db w) = (Inr x, db) \<and> w' = w\<lparr>ws_db := db\<rparr>)"
  by (auto simp: on_db_def split: prod.splits)

lemmas ws_runs = ws_bind_Inr on_board_Inr on_db_Inr

text \<open>A program that stops at its first check changes nothing.\<close>

lemma ws_bind_get: "ws_bind (ws_get g) f w = (case g w of Inl e \<Rightarrow> (Inl e, w) | Inr x \<Rightarrow> f x w)"
  by (simp add: ws_bind_def ws_get_def split: sum.split)

definition refused :: "'a ws \<Rightarrow> workspace \<Rightarrow> bool" where
  "refused m w \<longleftrightarrow> \<not> is_ok (fst (m w)) \<and> snd (m w) = w"

lemma refused_get: "refused (ws_bind (ws_get g) f) w \<longleftrightarrow> (case g w of Inl e \<Rightarrow> True | Inr x \<Rightarrow> refused (f x) w)"
  by (simp add: refused_def ws_bind_get is_ok_def split: sum.split)

lemma refused_entry:
  assumes "md_task_entry_at (ws_board w) a k = Inr e" "refused (f e) w"
  shows "refused (with_entry st a k f) w"
  using assms by (simp add: with_entry_def refused_get split: sum.split)

section \<open>The fence\<close>

definition fenced_by :: "site \<Rightarrow> workspace \<Rightarrow> TaskEntry \<Rightarrow> project_row \<Rightarrow> str \<Rightarrow> journal_row \<Rightarrow> bool" where
  "fenced_by st w e p s g \<longleftrightarrow> linked_session e = Some s \<and> s_registry st = Inr True \<and> s_migration st = None
     \<and> project_for_board st (ws_db w) = Some p \<and> git_finalization (ws_db w) (p_id p) s = Some g
     \<and> \<not> gfs_is_terminal (g_state g)"

lemma fence_allows:
  "fenced_by st w e p s g \<Longrightarrow>
     ensure_managed_git_task_mutation_allowed st (ws_db w) e allow proposed = journal_allows allow proposed g"
  by (simp add: fenced_by_def ensure_managed_git_task_mutation_allowed_def result_bind_def)

lemma journal_refuses:
  "\<not> gfs_is_terminal (g_state g) \<Longrightarrow> \<not> (allow \<and> g_state g = Working) \<Longrightarrow> \<exists>err. journal_allows allow proposed g = Inl err"
  by (auto simp: journal_allows_def)

lemma refused_fence:
  assumes "fenced_by st w e p s g" "\<not> (allow \<and> g_state g = Working)"
  shows "refused (ws_bind (ws_allowed st e allow proposed) f) w"
  using journal_refuses [of g allow proposed] assms fence_allows [OF assms(1)]
  by (auto simp: ws_allowed_def refused_get fenced_by_def)

lemma journal_allows_content:
  assumes "journal_allows True (Some c) g = Inr ()" "\<not> gfs_is_terminal (g_state g)"
  shows "g_state g = Working \<and> durable_task_identity c = g_task_identity g \<and> g_task_identity g \<noteq> None"
  using assms by (auto simp: journal_allows_def result_bind_Inr ensure_working_task_content_preserves_identity_def
      split: if_splits)


section \<open>A user's completion\<close>

lemma fence_granted:
  assumes "fence_project_for_cancellation pid sid gen ident h at ex db = (Inr True, db1)"
  shows "\<not> has_active_worker db pid \<and> (\<forall>sc \<in> set (controls db). sc_project sc = pid \<longrightarrow> idle_control sc)
    \<and> (\<forall>l \<in> set (leases db1). l_project l = pid \<longrightarrow> l_holder l = h)"
proof -
  let ?ls = "sql_delete (\<lambda>l. l_project l = pid \<and> cast_le (l_expires_at l) at) (leases db)"
  have "\<not> has_active_worker db pid" "\<not> sql_exists (\<lambda>sc. sc_project sc = pid \<and> \<not> idle_control sc) (controls db)"
    "\<not> sql_exists (\<lambda>l. l_project l = pid) ?ls"
    "leases db1 = sql_insert \<lparr>l_project = pid, l_holder = h, l_acquired_at = at, l_expires_at = ex\<rparr> ?ls"
    using assms by (simp_all add: fence_project_for_cancellation_def insert_lease_def Let_def split: if_splits) auto
  then show ?thesis by (auto simp: sql_exists_iff)
qed

lemma cancel_idle_effect:
  assumes "cancel_idle_working_git_finalization pid sid gen ident h at ex ExternalCompletion db = (Inr True, db')"
  shows "(\<exists>g \<in> set (journals db). journal_at pid sid g \<and> g_state g = Working
       \<and> cancel_row (Some (cancellation_reason ExternalCompletion)) at g \<in> set (journals db'))
    \<and> \<not> has_active_worker db' pid \<and> (\<forall>sc \<in> set (controls db'). sc_project sc = pid \<longrightarrow> idle_control sc)
    \<and> (\<forall>l \<in> set (leases db'). l_project l = pid \<longrightarrow> l_holder l = h)"
proof -
  let ?mine = "\<lambda>g. journal_at pid sid g \<and> g_state g = Working \<and> g_generation g = gen \<and> g_task_identity g = ident"
  obtain r db1 where fence: "fence_project_for_cancellation pid sid gen ident h at ex db = (r, db1)" by fastforce
  have fr: "journals db1 = journals db" "workers db1 = workers db" "controls db1 = controls db"
    using fence_project_frame [OF fence] by simp_all
  have r: "r = Inr True"
    using assms fence by (auto simp: cancel_idle_working_git_finalization_def Let_def split: sum.splits bool.splits)
  let ?db2 = "clear_cancelled_attempt_failure pid sid at db1"
  have out: "sql_count ?mine (journals ?db2) = 1"
    "db' = ?db2\<lparr>journals := sql_update ?mine (cancel_row (Some (cancellation_reason ExternalCompletion)) at) (journals ?db2),
       controls := sql_delete (\<lambda>sc. control_at pid sid sc \<and> idle_control sc) (controls ?db2)\<rparr>"
    using assms fence r by (auto simp: cancel_idle_working_git_finalization_def Let_def split: if_splits)
  have j2: "journals ?db2 = journals db" "workers ?db2 = workers db" "controls ?db2 = controls db" "leases ?db2 = leases db1"
    using fr by (simp_all add: clear_cancelled_attempt_failure_def)
  have "0 < sql_count ?mine (journals db)" using out(1) j2(1) by simp
  then obtain g where g: "g \<in> set (journals db)" "?mine g" unfolding sql_count_pos by blast
  have "cancel_row (Some (cancellation_reason ExternalCompletion)) at g \<in> set (journals db')"
    using sql_update_mem [of g "journals db" ?mine] g out(2) j2(1) by auto
  moreover have "\<not> has_active_worker db pid" "\<forall>sc \<in> set (controls db). sc_project sc = pid \<longrightarrow> idle_control sc"
    and "\<forall>l \<in> set (leases db1). l_project l = pid \<longrightarrow> l_holder l = h"
    using fence_granted fence r by blast+
  moreover have "has_active_worker db' pid = has_active_worker db pid"
    using out(2) j2(2) by (simp add: has_active_worker_def)
  moreover have "set (controls db') \<subseteq> set (controls db)" "leases db' = leases db1" using out(2) j2 by auto
  ultimately show ?thesis using g by auto
qed

lemma journal_row_reads:
  assumes "store_inv db" "h \<in> set (journals db)" "journal_key h = (pid, sid)"
  shows "git_finalization db pid sid = Some h"
  using git_finalization_iff [OF store_invD(2) [OF assms(1)]] assms(2,3) by blast

lemma lease_none: "lease_holder_of db pid = None \<longleftrightarrow> (\<forall>l \<in> set (leases db). l_project l \<noteq> pid)"
  by (auto simp: lease_holder_of_def sql_select_None)

text \<open>When a user's move to Done of a task with an open journal succeeds, the journal was unsealed
  and is cancelled, under a fence that excludes every active worker, every session in use and every
  lease of the project and is released again.\<close>

theorem user_completion_cancels_journal:
  assumes inv: "reach store_init agent_step (ws_db w)"
    and f: "fenced_by st w e p s g" and e: "md_task_entry_at (ws_board w) a k = Inr e"
    and i: "parse_one_based_task_index i = Inr k"
    and run: "move_task_in_board st cc a Done i w = (Inr r, w')"
  shows "r = Some s \<and> g_state g = Working \<and> g_commit_oid g = None
    \<and> (\<exists>h. git_finalization (ws_db w') (p_id p) s = Some h \<and> g_state h = Cancelled)
    \<and> \<not> has_active_worker (ws_db w') (p_id p)
    \<and> (\<forall>sc \<in> set (controls (ws_db w')). sc_project sc = p_id p \<longrightarrow> idle_control sc)
    \<and> lease_holder_of (ws_db w') (p_id p) = None"
proof -
  let ?m = "move_after_lock st a Done k"
  have link: "linked_session e = Some s" and reg: "s_registry st = Inr True" "s_migration st = None"
    and p: "project_for_board st (ws_db w) = Some p" and g: "git_finalization (ws_db w) (p_id p) s = Some g"
    and nt: "\<not> gfs_is_terminal (g_state g)"
    using f by (simp_all add: fenced_by_def)
  have "mutate_user_managed_task st cc e ExternalCompletion ?m w = (Inr r, w')"
    using run e i by (auto simp: move_task_in_board_def with_entry_def ws_runs)
  then have m: "mutate_user_managed_task_with_store st cc e ExternalCompletion ?m w = (Inr r, w')"
    using link reg by (auto simp: mutate_user_managed_task_def ws_runs)
  then have work: "g_state g = Working" "g_commit_oid g = None"
    using link p g nt by (auto simp: mutate_user_managed_task_with_store_def split: if_splits)
  then obtain x w1 where cancel: "cancel_journal cc (p_id p) s g ExternalCompletion w = (Inr x, w1)"
    and fence: "mutate_under_fence cc (p_id p) s ?m w1 = (Inr r, w')"
    using m link p g nt by (auto simp: mutate_user_managed_task_with_store_def ws_runs)
  let ?h = "task_cancellation_lease_holder cc"
  obtain db1 db2 where eff: "cancel_idle_working_git_finalization (p_id p) s (g_generation g) (g_task_identity g) ?h
       (show_nat (cc_now cc)) (show_nat (saturating_add_u64 (cc_now cc) AGENT_TASK_CANCELLATION_LEASE_SECONDS))
       ExternalCompletion db1 = (Inr True, db2)" and w1: "ws_db w1 = db2"
    using cancel by (auto simp: cancel_journal_def ws_runs)
  obtain w2 where move: "?m w1 = (Inr (), w2)" and r: "r = Some s"
    and w': "w' = w2\<lparr>ws_db := snd (release_lease (p_id p) ?h (ws_db w2))\<rparr>"
    using fence by (auto simp: mutate_under_fence_def on_db_def release_lease_def Let_def map_sum_Inr split: prod.splits sum.splits)
  have "ws_db w2 = db2"
    using keepsD [OF move_after_lock_db move] w1 by (simp add: same_registry_def)
  then have db': "ws_db w' = db2\<lparr>leases := sql_delete (\<lambda>l. l_project l = p_id p \<and> l_holder l = ?h) (leases db2)\<rparr>"
    by (simp add: w' release_lease_def Let_def)
  note eff' = cancel_idle_effect [OF eff]
  obtain j where j: "journal_at (p_id p) s j"
    "cancel_row (Some (cancellation_reason ExternalCompletion)) (show_nat (cc_now cc)) j \<in> set (journals db2)"
    using eff' by blast
  have "store_inv (ws_db w')"
    using keepsD [OF move_in_board_store run] agent_steps_store inv by (auto simp: runs_store_def)
  then have "\<exists>h. git_finalization (ws_db w') (p_id p) s = Some h \<and> g_state h = Cancelled"
    using j journal_row_reads [of "ws_db w'"] by (fastforce simp: db' journal_at_key cancel_row_def journal_key_def)
  moreover have "\<not> has_active_worker (ws_db w') (p_id p)"
    using eff' by (simp add: db' has_active_worker_def)
  moreover have "lease_holder_of (ws_db w') (p_id p) = None"
    using eff' by (auto simp: lease_none db')
  moreover have "\<forall>sc \<in> set (controls (ws_db w')). sc_project sc = p_id p \<longrightarrow> idle_control sc"
    using eff' by (simp add: db')
  ultimately show ?thesis using r work by blast
qed

section \<open>A completion that admission refuses\<close>

text \<open>The journal is cancelled before the move is tried. When the task then turns out to wait for its
  prerequisites, the board keeps the task where it was, and its journal stays cancelled.\<close>

lemma refused_completion_loses_journal:
  assumes inv: "reach store_init agent_step (ws_db w)" and f: "fenced_by st w e p s g"
    and cancel: "cancel_journal cc (p_id p) s g ExternalCompletion w = (Inr (), w1)"
    and e: "md_task_entry_at (ws_board w) a k = Inr e" and a: "a \<noteq> Done" and idle: "g_state g = Working" "g_commit_oid g = None"
    and waits: "ensure_board_admitted st w1 a k = Inl err"
  shows "\<exists>w'. mutate_user_managed_task_with_store st cc e ExternalCompletion (move_after_lock st a Done k) w = (Inl err, w')
    \<and> ws_board w' = ws_board w \<and> (\<exists>h. git_finalization (ws_db w') (p_id p) s = Some h \<and> g_state h = Cancelled)"
proof -
  let ?h = "task_cancellation_lease_holder cc" and ?m = "move_after_lock st a Done k"
  have link: "linked_session e = Some s" and p: "project_for_board st (ws_db w) = Some p"
    and g: "git_finalization (ws_db w) (p_id p) s = Some g" and nt: "\<not> gfs_is_terminal (g_state g)"
    using f by (simp_all add: fenced_by_def)
  obtain db1 db2 where eff: "cancel_idle_working_git_finalization (p_id p) s (g_generation g) (g_task_identity g) ?h
       (show_nat (cc_now cc)) (show_nat (saturating_add_u64 (cc_now cc) AGENT_TASK_CANCELLATION_LEASE_SECONDS))
       ExternalCompletion db1 = (Inr True, db2)" and w1: "w1 = w\<lparr>ws_db := db2\<rparr>"
    using cancel by (auto simp: cancel_journal_def ws_runs)
  have m: "?m w1 = (Inl err, w1)"
    using e a waits by (simp add: move_after_lock_def ws_bind_def ws_get_def w1)
  let ?w = "w1\<lparr>ws_db := snd (release_lease (p_id p) ?h db2)\<rparr>"
  have "mutate_user_managed_task_with_store st cc e ExternalCompletion ?m w = (Inl err, ?w)"
    using link p g nt idle cancel m
    by (simp add: mutate_user_managed_task_with_store_def mutate_under_fence_def ws_bind_def on_db_def w1 release_lease_def Let_def)
  moreover obtain j where j: "journal_at (p_id p) s j"
    "cancel_row (Some (cancellation_reason ExternalCompletion)) (show_nat (cc_now cc)) j \<in> set (journals db2)"
    using cancel_idle_effect [OF eff] by blast
  moreover have "store_inv db2"
    using keepsD [OF cancel_journal_store cancel] agent_steps_store inv w1 by (auto simp: runs_store_def)
  ultimately show ?thesis
    using journal_row_reads [of db2]
    by (fastforce simp: w1 release_lease_def Let_def journal_at_key cancel_row_def journal_key_def git_finalization_def)
qed

section \<open>A journal under a completed task\<close>

definition demo_fenced_work :: workspace where
  "demo_fenced_work = demo_work demo_journal"

definition demo_entry :: TaskEntry where
  "demo_entry = task_entry_from_text (MarkdownLine 0) demo_done_text demo_done_text False"

definition demo_cancel :: cancel_context where
  "demo_cancel = \<lparr>cc_os = demo_os None, cc_drain = (\<lambda>_. Inr True), cc_now = 2000, cc_nonce = 7\<rparr>"

lemma demo_fenced_by:
  "fenced_by demo_site demo_fenced_work demo_entry (hd (projects demo_journal)) (lit ''s1'') (new_journal demo_new)"
proof -
  have "project_for_board demo_site demo_journal = Some (hd (projects demo_journal))"
    "git_finalization demo_journal (p_id (hd (projects demo_journal))) (lit ''s1'') = Some (new_journal demo_new)"
    "\<not> gfs_is_terminal (g_state (new_journal demo_new))"
    by code_simp+
  then show ?thesis by (simp add: fenced_by_def demo_fenced_work_def demo_work_def linked_session_def demo_entry_def)
qed

lemma demo_entry_at: "md_task_entry_at (ws_board demo_fenced_work) Done 1 = Inr demo_entry"
  by (simp add: md_task_entry_at_def demo_fenced_work_def demo_work_def demo_entries demo_entry_def)

lemma parse_one: "parse_one_based_task_index (lit ''1'') = Inr 1"
  by (simp add: parse_one_based_task_index_def parse_u64_def parse_unsigned_def u64_max_def lit_def is_ascii_digit_def digit_val_def)


lemma demo_completion:
  "\<exists>r w'. move_task_in_board demo_site demo_cancel Done Done (lit ''1'') demo_fenced_work = (Inr r, w')"
proof -
  let ?g = "new_journal demo_new" and ?p = "hd (projects demo_journal)"
  have rec: "reconcile_exited_project_workers (cc_os demo_cancel) (cc_drain demo_cancel) 1 (show_nat (cc_now demo_cancel)) demo_journal
      = (Inr (), demo_journal)" by code_simp
  have until: "saturating_add_u64 (cc_now demo_cancel) AGENT_TASK_CANCELLATION_LEASE_SECONDS = 2060"
    by (simp add: demo_cancel_def saturating_add_u64_def AGENT_TASK_CANCELLATION_LEASE_SECONDS_def u64_max_def)
  have "fst (cancel_idle_working_git_finalization 1 (lit ''s1'') (g_generation ?g) (g_task_identity ?g)
      (task_cancellation_lease_holder demo_cancel) (show_nat (cc_now demo_cancel)) (show_nat 2060) ExternalCompletion demo_journal)
      = Inr True" by code_simp
  then obtain db2 where can: "cancel_idle_working_git_finalization 1 (lit ''s1'') (g_generation ?g) (g_task_identity ?g)
      (task_cancellation_lease_holder demo_cancel) (show_nat (cc_now demo_cancel)) (show_nat 2060) ExternalCompletion demo_journal
      = (Inr True, db2)" by (cases "cancel_idle_working_git_finalization 1 (lit ''s1'') (g_generation ?g) (g_task_identity ?g)
      (task_cancellation_lease_holder demo_cancel) (show_nat (cc_now demo_cancel)) (show_nat 2060) ExternalCompletion demo_journal") simp
  have "\<not> task_content_is_interactive_done demo_done_text"
    by (simp add: task_content_is_interactive_done_def demo_done_text_def text_eval TASK_INTERACTIVE_DONE_MARKER_def)
  then have stays: "move_after_lock demo_site Done Done 1 (demo_fenced_work\<lparr>ws_db := db\<rparr>) = (Inr (), demo_fenced_work\<lparr>ws_db := db\<rparr>)" for db
    using demo_entry_at
    by (simp add: move_after_lock_def ws_bind_def ws_get_def manual_session_to_release_def on_board_def md_move_task_def
        result_bind_def clear_interactive_done_def release_manual_claim_def ws_ok_def demo_entry_def)
  have pid: "p_id ?p = 1" by code_simp
  have db: "ws_db demo_fenced_work = demo_journal" "demo_fenced_work\<lparr>ws_db := demo_journal\<rparr> = demo_fenced_work"
    by (simp_all add: demo_fenced_work_def demo_work_def)
  have g: "g_state ?g = Working" "g_commit_oid ?g = None" by code_simp+
  show ?thesis
    using demo_fenced_by demo_entry_at parse_one rec can stays [of db2]
    by (simp add: move_task_in_board_def with_entry_def mutate_user_managed_task_def mutate_user_managed_task_with_store_def
        fenced_by_def cancel_journal_def mutate_under_fence_def ws_bind_def ws_get_def on_db_def pid until db g
        release_lease_def Let_def ws_ensure_def ensure_def)
qed

theorem user_completion_cancels_journal_witness:
  "\<exists>r w' h. move_task_in_board demo_site demo_cancel Done Done (lit ''1'') demo_fenced_work = (Inr r, w')
     \<and> git_finalization (ws_db w') (p_id (hd (projects demo_journal))) (lit ''s1'') = Some h \<and> g_state h = Cancelled"
proof -
  obtain r w' where run: "move_task_in_board demo_site demo_cancel Done Done (lit ''1'') demo_fenced_work = (Inr r, w')"
    using demo_completion by blast
  have "reach store_init agent_step (ws_db demo_fenced_work)"
    using demo_journal_reach by (simp add: demo_fenced_work_def demo_work_def)
  from user_completion_cancels_journal [OF this demo_fenced_by demo_entry_at parse_one run] run show ?thesis by blast
qed

end
