(* ===== verification/Completion_Theorems.thy ===== *)
theory Completion_Theorems
  imports Fence_Theorems
begin

text \<open>
  The completion of a task by the run that works on it: what it requires, what it seals before the
  board shows the task in Done, and what is left when a user's completion is refused.
\<close>

section \<open>An accepted compare-and-set\<close>

lemma cas_accepted:
  assumes wf: "journals_wf (journals db)" and acc: "compare_and_set_git_finalization q db = (Inr True, db')"
  obtains g where "git_finalization db (cq_project q) (cq_session q) = Some g"
    and "git_finalization db' (cq_project q) (cq_session q) = Some (cas_row q g)"
    and "cas_rejection g q = None" and "journals_wf (journals db')"
    and "cq_require_running_owner q \<Longrightarrow>
      \<exists>sc \<in> set (controls db). running_owner (cq_project q) (cq_session q) (the (cq_owner_run_token q)) sc"
proof -
  let ?mine = "\<lambda>g. journal_at (cq_project q) (cq_session q) g \<and> g_generation g = cq_expected_generation q"
  from acc obtain g where g: "git_finalization db (cq_project q) (cq_session q) = Some g"
      "g_generation g = cq_expected_generation q" "cas_rejection g q = None"
    and j: "journals db' = sql_update ?mine (cas_row q) (journals db)"
    and own: "cq_require_running_owner q \<longrightarrow>
      sql_count (running_owner (cq_project q) (cq_session q) (the (cq_owner_run_token q))) (controls db) = 1"
    by (auto simp: compare_and_set_git_finalization_def Let_def split: option.splits if_splits)
  have wf': "journals_wf (journals db')"
    using plain_move_wf [OF compare_and_set_move [OF wf, of q] wf] acc by simp
  have "g \<in> set (journals db)" "?mine g" using git_finalization_Some [OF g(1)] g(2) by auto
  then have "cas_row q g \<in> set (journals db')" using sql_update_mem [of g "journals db" ?mine "cas_row q"] j by simp
  then have "git_finalization db' (cq_project q) (cq_session q) = Some (cas_row q g)"
    using git_finalization_iff [OF wf'] \<open>?mine g\<close> by (simp add: journal_at_key)
  moreover have "\<exists>sc \<in> set (controls db). running_owner (cq_project q) (cq_session q) (the (cq_owner_run_token q)) sc"
    if "cq_require_running_owner q"
  proof -
    have "0 < sql_count (running_owner (cq_project q) (cq_session q) (the (cq_owner_run_token q))) (controls db)"
      using own that by simp
    then show ?thesis unfolding sql_count_pos .
  qed
  ultimately show ?thesis using that g(1,3) wf' by blast
qed

lemma owned_cas:
  assumes "journals_wf (journals db)"
    and "compare_and_set_owned_git_finalization pid sid gen nxt t None None now db = (Inr True, db')"
  obtains g h where "git_finalization db pid sid = Some g" and "git_finalization db' pid sid = Some h"
    and "g_state h = nxt" and "g_task_identity h = g_task_identity g" and "g_worktree_baseline h = g_worktree_baseline g"
    and "g_owner_run_token h = Some t" and "g_commit_oid h = g_commit_oid g" and "journals_wf (journals db')"
    and "\<exists>sc \<in> set (controls db). running_owner pid sid t sc"
proof -
  let ?q = "\<lparr>cq_project = pid, cq_session = sid, cq_expected_generation = gen, cq_next_state = nxt, cq_task_identity = None,
    cq_worktree_baseline = None, cq_require_running_owner = True, cq_owner_run_token = Some t, cq_commit_oid = None,
    cq_last_error = None, cq_updated_at = now\<rparr>"
  have acc: "compare_and_set_git_finalization ?q db = (Inr True, db')"
    using assms(2) by (simp add: compare_and_set_owned_git_finalization_def)
  obtain g where g: "git_finalization db pid sid = Some g" "git_finalization db' pid sid = Some (cas_row ?q g)"
    "journals_wf (journals db')" "\<exists>sc \<in> set (controls db). running_owner pid sid t sc"
    by (rule cas_accepted [OF assms(1) acc]) simp
  show ?thesis
    by (rule that [OF g(1,2)]) (use g(3,4) in \<open>simp_all add: cas_row_def option_or_def split: option.split\<close>)
qed

lemma tracking_cas:
  assumes "journals_wf (journals db)"
    and "track_git_finalization_with_manifest pid sid gen ident m t now db = (Inr True, db')"
  obtains g h where "git_finalization db pid sid = Some g" and "git_finalization db' pid sid = Some h"
    and "g_state h = Tracking" and "g_worktree_baseline h = m" and "g_task_identity h \<noteq> None"
    and "g_commit_oid h = g_commit_oid g" and "journals_wf (journals db')"
proof -
  let ?q = "\<lparr>cq_project = pid, cq_session = sid, cq_expected_generation = gen, cq_next_state = Tracking, cq_task_identity = Some ident,
    cq_worktree_baseline = Some m, cq_require_running_owner = True, cq_owner_run_token = Some t, cq_commit_oid = None,
    cq_last_error = None, cq_updated_at = now\<rparr>"
  have acc: "compare_and_set_git_finalization ?q db = (Inr True, db')"
    using assms(2) by (simp add: track_git_finalization_with_manifest_def)
  obtain g where g: "git_finalization db pid sid = Some g" "git_finalization db' pid sid = Some (cas_row ?q g)"
    "journals_wf (journals db')" "\<exists>sc \<in> set (controls db). running_owner pid sid t sc"
    by (rule cas_accepted [OF assms(1) acc]) simp
  show ?thesis
    by (rule that [OF g(1,2)]) (use g(3,4) in \<open>simp_all add: cas_row_def option_or_def split: option.split\<close>)
qed

section \<open>The completion intent\<close>

lemma seal_journal:
  assumes "seal_working_journal gv cx pid session ident g now w = (Inr h, w')" "journals_wf (journals (ws_db w))"
  shows "git_finalization (ws_db w') pid session = Some h \<and> journals_wf (journals (ws_db w')) \<and> ws_board w' = ws_board w
    \<and> gv_branch gv = Inr (g_branch_ref g)
    \<and> (\<exists>start m. g_starting_head g = Some start
         \<and> gv_staged_manifest gv (ws_db w) (g_worktree_baseline g) session ident start (g_branch_ref g) = Inr m
         \<and> g_worktree_baseline h = m)"
proof -
  obtain start m db' where run: "gv_branch gv = Inr (g_branch_ref g)" "g_starting_head g = Some start"
      "gv_staged_manifest gv (ws_db w) (g_worktree_baseline g) session ident start (g_branch_ref g) = Inr m"
      "track_git_finalization_with_manifest pid session (g_generation g) ident m (cx_run_token cx) now (ws_db w) = (Inr True, db')"
      "git_finalization db' pid session = Some h" "w' = w\<lparr>ws_db := db'\<rparr>"
    using assms(1) by (auto simp: seal_working_journal_def journal_after_def ws_runs)
  from tracking_cas [OF assms(2) run(4)] run show ?thesis by auto
qed

lemma own_tracking:
  assumes "own_tracking_journal cx pid session g now w = (Inr h, w')" "journals_wf (journals (ws_db w))"
  shows "git_finalization (ws_db w') pid session = Some h \<and> journals_wf (journals (ws_db w')) \<and> ws_board w' = ws_board w"
proof -
  obtain db' where run: "compare_and_set_owned_git_finalization pid session (g_generation g) Tracking (cx_run_token cx) None None now (ws_db w) = (Inr True, db')"
      "git_finalization db' pid session = Some h" "w' = w\<lparr>ws_db := db'\<rparr>"
    using assms(1) by (auto simp: own_tracking_journal_def journal_after_def ws_runs)
  from owned_cas [OF assms(2) run(1)] run show ?thesis by auto
qed

lemma intent_journal:
  assumes run: "completion_intent gv cx pid session e g now w = (Inr h, w')" and wf: "journals_wf (journals (ws_db w))"
    and g: "git_finalization (ws_db w) pid session = Some g"
  shows "git_finalization (ws_db w') pid session = Some h \<and> journals_wf (journals (ws_db w')) \<and> ws_board w' = ws_board w
    \<and> g_state g \<in> {Working, Tracking} \<and> g_state h = Tracking
    \<and> g_task_identity g \<noteq> None \<and> durable_task_identity (t_content e) = g_task_identity g \<and> g_task_identity h = g_task_identity g
    \<and> (g_state g = Working \<longrightarrow> gv_branch gv = Inr (g_branch_ref g)
         \<and> (\<exists>start m. g_starting_head g = Some start
              \<and> gv_staged_manifest gv (ws_db w) (g_worktree_baseline g) session (the (g_task_identity g)) start (g_branch_ref g) = Inr m
              \<and> g_worktree_baseline h = m))"
proof -
  obtain ident where ident: "g_task_identity g = Some ident" "durable_task_identity (t_content e) = Some ident"
    and step: "(if g_state g = Working then seal_working_journal gv cx pid session ident g now
              else if g_state g = Tracking then own_tracking_journal cx pid session g now
              else ws_ok g) w = (Inr h, w')"
    and h: "g_state h = Tracking" "g_task_identity h = Some ident"
    using run by (auto simp: completion_intent_def ws_runs)
  consider (seal) "g_state g = Working" "seal_working_journal gv cx pid session ident g now w = (Inr h, w')"
    | (own) "g_state g = Tracking" "own_tracking_journal cx pid session g now w = (Inr h, w')"
    | (rest) "g_state g \<noteq> Working" "g_state g \<noteq> Tracking" "h = g"
    using step by (auto split: if_splits)
  then show ?thesis
  proof cases
    case seal
    then show ?thesis using seal_journal [OF seal(2) wf] ident h by auto
  next
    case own
    then show ?thesis using own_tracking [OF own(2) wf] ident h by auto
  next
    case rest
    then show ?thesis using h by simp
  qed
qed

lemma find_SomeD: "find P xs = Some x \<Longrightarrow> x \<in> set xs \<and> P x"
  by (auto simp: find_Some_iff)

text \<open>C22: an automated run brings a task to provisional Done only in this way: the task is its own
  conversation's and carries a dated COMPLETED note, the project is the one of the run, its text
  still has the identity the journal is bound to, the journal was Working or Tracking and, if it was
  Working, took the staged manifest of the frozen branch; the run still owns the running session
  when the task moves, exactly that task moves, and the journal waits for the commit.\<close>

theorem automated_completion_sealed:
  assumes wf: "journals_wf (journals (ws_db w))"
    and run: "move_task_to_done_with_agent_store st gv a i cx now w = (Inr True, w')"
  shows "\<exists>p k e session g h. p \<in> set (projects (ws_db w)) \<and> p_id p = cx_project cx \<and> p_path p = s_root st
    \<and> md_task_entry_at (ws_board w) a k = Inr e
    \<and> codex_session_id_from_task_content (t_content e) = Some session \<and> task_content_has_completed_note (t_content e)
    \<and> git_finalization (ws_db w) (p_id p) session = Some g \<and> g_state g \<in> {Working, Tracking}
    \<and> g_task_identity g \<noteq> None \<and> durable_task_identity (t_content e) = g_task_identity g
    \<and> (g_state g = Working \<longrightarrow> gv_branch gv = Inr (g_branch_ref g)
         \<and> (\<exists>start. g_starting_head g = Some start
              \<and> gv_staged_manifest gv (ws_db w) (g_worktree_baseline g) session (the (g_task_identity g)) start (g_branch_ref g)
                = Inr (g_worktree_baseline h)))
    \<and> git_finalization (ws_db w') (p_id p) session = Some h \<and> g_state h = CommitPending
    \<and> g_task_identity h = g_task_identity g \<and> g_owner_run_token h = Some (cx_run_token cx)
    \<and> md_move_without_reordering (ws_board w) a Done k = Inr (ws_board w')"
proof -
  obtain p k e session where p: "find (\<lambda>p. p_id p = cx_project cx) (list_projects (ws_db w)) = Some p" "p_path p = s_root st"
    and e: "md_task_entry_at (ws_board w) a k = Inr e" "codex_session_id_from_task_content (t_content e) = Some session"
      "task_content_has_completed_note (t_content e)"
    and own: "complete_own_task st gv cx p a k e session now w = (Inr True, w')"
    using run by (auto simp: move_task_to_done_with_agent_store_def ws_project_def ensure_root_def own_completed_task_def
        ws_running_session_def ws_runs)
  have "\<not> (\<exists>w1. ws_bind f (\<lambda>_. ws_ok False) w1 = (Inr True, w2))" for f :: "unit ws" and w2
    by (auto simp: ws_runs)
  then obtain g where g: "git_finalization (ws_db w) (p_id p) session = Some g"
    using own by (auto simp: complete_own_task_def ws_runs split: option.splits if_splits)
  obtain h1 w1 where intent: "completion_intent gv cx (p_id p) session e g now w = (Inr h1, w1)"
    and publish: "publish_provisional_done cx (p_id p) session a k h1 now w1 = (Inr True, w')"
    using own g by (auto simp: complete_own_task_def ws_runs)
  note int = intent_journal [OF intent wf g]
  obtain b db2 where move: "md_move_without_reordering (ws_board w1) a Done k = Inr b"
    and cas: "compare_and_set_owned_git_finalization (p_id p) session (g_generation h1) CommitPending (cx_run_token cx) None None now (ws_db w1) = (Inr True, db2)"
    and w': "w' = w1\<lparr>ws_board := b, ws_db := db2\<rparr>"
    using publish by (auto simp: publish_provisional_done_def ws_runs)
  obtain g1 h where fin: "git_finalization (ws_db w1) (p_id p) session = Some g1" "git_finalization db2 (p_id p) session = Some h"
    "g_state h = CommitPending" "g_task_identity h = g_task_identity g1" "g_worktree_baseline h = g_worktree_baseline g1"
    "g_owner_run_token h = Some (cx_run_token cx)"
    using owned_cas [OF _ cas] int by metis
  have g1: "g1 = h1" using fin(1) int by simp
  have "p \<in> set (projects (ws_db w))" "p_id p = cx_project cx"
    using find_SomeD [OF p(1)] by (simp_all add: list_projects_def)
  moreover have "g_state g = Working \<longrightarrow> gv_branch gv = Inr (g_branch_ref g) \<and> (\<exists>start. g_starting_head g = Some start
      \<and> gv_staged_manifest gv (ws_db w) (g_worktree_baseline g) session (the (g_task_identity g)) start (g_branch_ref g)
        = Inr (g_worktree_baseline h))"
    using int fin(5) g1 by auto
  ultimately show ?thesis
    using p(2) e g int fin g1 move w' by (intro exI [of _ p] exI [of _ k] exI [of _ e] exI [of _ session] exI [of _ g] exI [of _ h]) simp
qed

section \<open>A run that completes its task\<close>

definition demo_note_text :: str where "demo_note_text = lit ''two COMPLETED 2024-01-01: ok codex:s1''"

lemmas note_eval = text_eval trim_def trim_start_def trim_end_def trim_start_by_def trim_end_by_def match_indices_def
  rmatch_indices_def to_ascii_lowercase_def ascii_lower_def to_ascii_uppercase_def ascii_upper_def
  word_boundary_before_def starts_with_task_note_date_def is_hash_def

lemma note_session: "codex_session_id_from_task_content demo_note_text = Some (lit ''s1'')"
  by (simp add: codex_session_id_from_task_content_def demo_note_text_def note_eval)

lemma note_link [simp]: "recoverable_codex_session_id_from_task_content demo_note_text = Some (lit ''s1'')"
proof -
  have "\<not> task_content_is_stopped demo_note_text" by (simp add: task_content_is_stopped_def demo_note_text_def note_eval)
  then show ?thesis
    by (simp add: recoverable_codex_session_id_from_task_content_def task_content_without_stop_marker_def note_session)
qed

lemma note_completed: "task_content_has_completed_note demo_note_text"
proof -
  have up: "to_ascii_uppercase demo_note_text = lit ''TWO COMPLETED 2024-01-01: OK CODEX:S1''"
    by (simp add: demo_note_text_def note_eval)
  have ls: "split_inclusive_nl demo_note_text = [demo_note_text]" "lines demo_note_text = [demo_note_text]"
    by (simp_all add: lines_def demo_note_text_def strip_line_ending_def strip_suffix_def ends_with_def note_eval)
  have "completed_note_on_line demo_note_text"
    by (simp add: completed_note_on_line_def up text_eval match_indices_def word_boundary_before_def
        starts_with_task_note_date_def) (simp add: demo_note_text_def text_eval match_indices_def word_boundary_before_def
        starts_with_task_note_date_def)?
  moreover have "latest_task_blocking_note_on_line demo_note_text = Some (4, Unblocked)"
    by (simp add: latest_task_blocking_note_on_line_def up note_markers_def text_eval match_indices_def word_boundary_before_def
        starts_with_task_note_date_def) (simp add: demo_note_text_def text_eval match_indices_def word_boundary_before_def
        starts_with_task_note_date_def)?
  ultimately show ?thesis
    by (simp add: task_content_has_completed_note_def task_content_is_blocked_def task_blocking_note_def ls)
qed

lemma note_span: "coord_span demo_note_text = Inr None" "coord_strip demo_note_text = demo_note_text"
  by (simp_all add: coord_strip_def coord_span_def demo_note_text_def COORD_PREFIX_def note_eval)

lemma note_identity: "durable_task_identity demo_note_text = Some (lit ''v2'' @ [10] @ lit ''two'')"
proof -
  let ?t = "lit ''two COMPLETED 2024-01-01: ok''"
  have th: "think_strip demo_note_text = demo_note_text"
    by (simp add: think_strip_def directives_def demo_note_text_def note_eval)
  have te: "trim_end demo_note_text = demo_note_text" by (simp add: demo_note_text_def note_eval)
  have "task_content_without_matching_codex_sessions demo_note_text (lit ''s1'') = ?t"
    by (simp add: task_content_without_matching_codex_sessions_def codex_session_markers_in_task_content_def
        drop_session_markers_def codex_marker_at_def ends_in_ws_def Let_def List.map_filter_def demo_note_text_def note_eval)
  then have rec: "task_content_without_recoverable_codex_session demo_note_text = ?t"
    by (simp add: task_content_without_recoverable_codex_session_def te)
  have im: "task_content_without_interactive_done_marker ?t = ?t"
    by (simp add: task_content_without_interactive_done_marker_def task_content_without_marker_def
        TASK_INTERACTIVE_DONE_MARKER_def note_eval)
  have "lines ?t = [?t]" by (simp add: lines_def strip_line_ending_def strip_suffix_def ends_with_def note_eval)
  moreover have "canonical_lines False [?t] = [lit ''two'']"
    by (simp add: outcome_heading_def stable_line_def note_cut_def note_separator_def note_eval)
  ultimately show ?thesis by (simp add: durable_task_identity_def note_span th rec im)
qed

text \<open>The registry of the running session, with the journal it is tracking.\<close>

definition demo_tracking :: registry where
  "demo_tracking = demo_session\<lparr>journals := [(new_journal demo_new)\<lparr>g_state := Tracking,
     g_task_identity := Some (lit ''v2'' @ [10] @ lit ''two''), g_owner_run_token := Some (lit ''t1'')\<rparr>]\<rparr>"

definition demo_run_work :: workspace where
  "demo_run_work = \<lparr>ws_db = demo_tracking, ws_board = (\<lambda>sta. if sta = Doing then TASK_PREFIX @ demo_note_text else []),
     ws_archive = []\<rparr>"

definition demo_git :: git_view where
  "demo_git = \<lparr>gv_branch = Inr None, gv_head = Inr [], gv_is_ancestor = (\<lambda>_ _. Inr True),
     gv_staged_manifest = (\<lambda>_ _ _ _ _ _. Inr []), gv_resealed_manifest = (\<lambda>_ _ _ _ _ _. Inr []),
     gv_start_unchanged = (\<lambda>_ _. Inr ()), gv_start_identity = (\<lambda>_ _. Inr ()), gv_legacy_off = (\<lambda>_ _ _. Inr False)\<rparr>"

definition demo_context :: child_context where
  "demo_context = \<lparr>cx_project = 1, cx_run_token = lit ''t1''\<rparr>"

definition demo_owned :: registry where
  "demo_owned = snd (compare_and_set_owned_git_finalization 1 (lit ''s1'') 0 Tracking (lit ''t1'') None None (lit ''2000'') demo_tracking)"

definition demo_pending :: registry where
  "demo_pending = snd (compare_and_set_owned_git_finalization 1 (lit ''s1'') 1 CommitPending (lit ''t1'') None None (lit ''2000'') demo_owned)"

definition demo_run_entry :: TaskEntry where
  "demo_run_entry = task_entry_from_text (MarkdownLine 0) demo_note_text demo_note_text False"

lemma demo_run_lines: "lines (ws_board demo_run_work Doing) = [TASK_PREFIX @ demo_note_text]"
  by (simp add: demo_run_work_def demo_note_text_def lines_def strip_line_ending_def strip_suffix_def ends_with_def text_eval)

lemma demo_run_entry_at: "md_task_entry_at (ws_board demo_run_work) Doing 1 = Inr demo_run_entry"
proof -
  have "10 \<notin> set demo_note_text" by (simp add: demo_note_text_def lit_def)
  then show ?thesis
    by (simp add: md_task_entry_at_def demo_run_work_def read_one_entry demo_run_entry_def)
qed

lemma demo_run_own: "own_completed_task demo_context demo_run_entry demo_run_work = (Inr (lit ''s1''), demo_run_work)"
proof -
  have "poll_running_session demo_context (replicate 40 demo_tracking) = Inr (lit ''s1'')" by code_simp
  then show ?thesis
    by (simp add: own_completed_task_def ws_running_session_def running_session_for_automated_child_def ws_bind_def ws_get_def
        ws_ensure_def ws_ok_def demo_run_entry_def note_session note_completed demo_run_work_def need_def ensure_def)
qed

lemma demo_run_moves:
  "\<exists>b. md_move_without_reordering (ws_board demo_run_work) Doing Done 1 = Inr b"
  using demo_run_entry_at demo_run_lines
  by (simp add: md_move_without_reordering_def md_remove_task_entry_def md_insert_task_content_def remove_markdown_line_def
      demo_run_entry_def result_bind_def)

lemma demo_intent:
  assumes g: "g = hd (journals demo_tracking)" and h: "git_finalization demo_owned 1 (lit ''s1'') = Some h"
  shows "completion_intent demo_git demo_context 1 (lit ''s1'') demo_run_entry g (lit ''2000'') demo_run_work
    = (Inr h, demo_run_work\<lparr>ws_db := demo_owned\<rparr>)"
proof -
  have j: "g_generation g = 0" "g_state g = Tracking" "g_git_mode g \<noteq> Off" "g_task_identity g = Some (lit ''v2'' @ [10] @ lit ''two'')"
    by (simp_all add: g demo_tracking_def new_journal_def demo_new_def)
  have "compare_and_set_owned_git_finalization 1 (lit ''s1'') 0 Tracking (lit ''t1'') None None (lit ''2000'') demo_tracking = (Inr True, demo_owned)"
  proof -
    have "fst (compare_and_set_owned_git_finalization 1 (lit ''s1'') 0 Tracking (lit ''t1'') None None (lit ''2000'') demo_tracking) = Inr True"
      by code_simp
    then show ?thesis by (simp add: demo_owned_def prod_eq_iff)
  qed
  moreover have "git_finalization demo_owned 1 (lit ''s1'') = Some (the (git_finalization demo_owned 1 (lit ''s1'')))"
    using h by simp
  moreover have "g_session h = lit ''s1'' \<and> g_state h = Tracking \<and> g_task_identity h = Some (lit ''v2'' @ [10] @ lit ''two'')"
  proof -
    have "map_option (\<lambda>h. g_session h = lit ''s1'' \<and> g_state h = Tracking \<and> g_task_identity h = Some (lit ''v2'' @ [10] @ lit ''two''))
       (git_finalization demo_owned 1 (lit ''s1'')) = Some True" by code_simp
    then show ?thesis using h by simp
  qed
  ultimately show ?thesis
    using j h note_identity
    by (simp add: completion_intent_def own_tracking_journal_def journal_after_def ws_bind_def ws_get_def ws_ensure_def ws_ok_def
        on_db_def need_def ensure_def demo_run_entry_def demo_run_work_def demo_context_def)
qed

lemma demo_run_completes:
  "\<exists>w'. move_task_to_done_with_agent_store demo_site demo_git Doing (lit ''1'') demo_context (lit ''2000'') demo_run_work = (Inr True, w')"
proof -
  let ?g = "hd (journals demo_tracking)" and ?p = "hd (projects demo_tracking)"
  have p: "find (\<lambda>p. p_id p = 1) (list_projects demo_tracking) = Some ?p" "p_path ?p = lit ''/p1'' \<and> p_id ?p = 1"
    by code_simp+
  have g: "git_finalization demo_tracking 1 (lit ''s1'') = Some ?g" by code_simp
  have "git_finalization demo_owned 1 (lit ''s1'') \<noteq> None" by code_simp
  then obtain h where h: "git_finalization demo_owned 1 (lit ''s1'') = Some h" by blast
  have "map_option g_generation (git_finalization demo_owned 1 (lit ''s1'')) = Some 1" by code_simp
  then have gen: "g_generation h = 1" using h by simp
  have "fst (compare_and_set_owned_git_finalization 1 (lit ''s1'') 1 CommitPending (lit ''t1'') None None (lit ''2000'') demo_owned) = Inr True"
    by code_simp
  then have cas: "compare_and_set_owned_git_finalization 1 (lit ''s1'') 1 CommitPending (lit ''t1'') None None (lit ''2000'') demo_owned
      = (Inr True, demo_pending)" by (simp add: demo_pending_def prod_eq_iff)
  obtain b where b: "md_move_without_reordering (ws_board demo_run_work) Doing Done 1 = Inr b" using demo_run_moves by blast
  have db: "ws_db demo_run_work = demo_tracking" by (simp add: demo_run_work_def)
  have own: "complete_own_task demo_site demo_git demo_context ?p Doing 1 demo_run_entry (lit ''s1'') (lit ''2000'') demo_run_work
      = (Inr True, demo_run_work\<lparr>ws_board := b, ws_db := demo_pending\<rparr>)"
    using p(2) g h gen cas b demo_intent [OF refl h]
    by (simp add: complete_own_task_def publish_provisional_done_def ws_bind_def ws_get_def ws_ensure_def ws_ok_def on_board_def on_db_def
        ensure_def db demo_context_def)
  show ?thesis
    using p own demo_run_entry_at demo_run_own parse_one
    by (simp add: move_task_to_done_with_agent_store_def ws_project_def ensure_root_def ws_bind_def ws_get_def ws_ensure_def
        need_def ensure_def db demo_context_def)
qed

theorem automated_completion_sealed_witness:
  "\<exists>w' (p :: project_row) h. move_task_to_done_with_agent_store demo_site demo_git Doing (lit ''1'') demo_context (lit ''2000'') demo_run_work = (Inr True, w')
     \<and> git_finalization (ws_db w') (p_id p) (lit ''s1'') = Some h \<and> g_state h = CommitPending"
proof -
  obtain w' where run: "move_task_to_done_with_agent_store demo_site demo_git Doing (lit ''1'') demo_context (lit ''2000'') demo_run_work
      = (Inr True, w')" using demo_run_completes by blast
  have wf: "journals_wf (journals (ws_db demo_run_work))"
  proof -
    have "journals_wf (journals demo_tracking)" by code_simp
    then show ?thesis by (simp add: demo_run_work_def)
  qed
  obtain p :: project_row and k and e :: TaskEntry and session h where res: "md_task_entry_at (ws_board demo_run_work) Doing k = Inr e"
    "codex_session_id_from_task_content (t_content e) = Some session"
    "git_finalization (ws_db w') (p_id p) session = Some h" "g_state h = CommitPending"
    using automated_completion_sealed [OF wf run] by blast
  have "10 \<notin> set demo_note_text" by (simp add: demo_note_text_def lit_def)
  then have "read_markdown_entries (ws_board demo_run_work Doing) = [demo_run_entry]"
    by (simp add: demo_run_work_def read_one_entry demo_run_entry_def)
  then have "e = demo_run_entry" using res(1) by (simp add: md_task_entry_at_def split: if_splits)
  then have "session = lit ''s1''" using res(2) by (simp add: demo_run_entry_def note_session)
  then show ?thesis using run res by blast
qed

end
