(* ===== verification/Update_Theorems.thy ===== *)
theory Update_Theorems
  imports Completion_Theorems
begin

text \<open>
  The update of a task's coordination metadata: what a successful update leaves on the board, and
  that the graph it writes has no missing prerequisite and no cycle.
\<close>

section \<open>The selected task\<close>

lemma find_position:
  "find P xs = Some x \<Longrightarrow> \<exists>k. position P xs = Some k \<and> k < length xs \<and> xs ! k = x"
proof (induction xs)
  case (Cons y ys)
  show ?case
  proof (cases "P y")
    case False
    then obtain k where "position P ys = Some k" "k < length ys" "ys ! k = x" using Cons by auto
    then show ?thesis using False by (intro exI [of _ "Suc k"]) simp
  qed (use Cons.prems in auto)
qed simp_all

lemma selected_Inr:
  assumes "selected s b sta i = Inr sel"
  shows "find (same_task sel) (tasks s) = Some sel"
proof -
  have f: "find (\<lambda>t. board t = b \<and> status t = sta \<and> index t = i) (tasks s) = Some sel"
    using assms by (auto simp: selected_def split: if_splits option.splits)
  then have "board sel = b \<and> status sel = sta \<and> index sel = i" using find_SomeD by fastforce
  then have "same_task sel = (\<lambda>t. board t = b \<and> status t = sta \<and> index t = i)"
    by (auto simp: same_task_def fun_eq_iff)
  then show ?thesis using f by simp
qed

lemma with_task_meta_mem:
  assumes "selected s b sta i = Inr sel"
  shows "sel\<lparr>meta := md\<rparr> \<in> set (tasks (with_task_meta s sel md))"
proof -
  obtain k where k: "position (same_task sel) (tasks s) = Some k" "k < length (tasks s)" "tasks s ! k = sel"
    using find_position [OF selected_Inr [OF assms]] by blast
  then have "with_task_meta s sel md = s\<lparr>tasks := (tasks s)[k := sel\<lparr>meta := md\<rparr>]\<rparr>" by (simp add: with_task_meta_def)
  then show ?thesis using k(2) by (auto simp: set_update_memI)
qed

section \<open>The new metadata\<close>

lemma graph_ok_Inr: "graph_ok r = Inr x \<longleftrightarrow> r = Inr x"
  by (auto simp: graph_ok_def split: sum.splits)

lemma add_dependencies_Cons:
  "add_dependencies s own (d # ds) deps = Inr deps' \<longleftrightarrow> d \<noteq> own \<and> (\<exists>t. referenced s d = Inr t)
     \<and> add_dependencies s own ds (if d \<in> set deps then deps else deps @ [d]) = Inr deps'"
  by (cases "d = own") (simp_all only: add_dependencies.simps if_True if_False result_bind_Inr graph_ok_Inr, simp_all)

lemma add_dependencies_Inr:
  "add_dependencies s own ds deps = Inr deps' \<Longrightarrow>
     set deps' = set deps \<union> set ds \<and> own \<notin> set ds \<and> (\<forall>d \<in> set ds. \<exists>t. referenced s d = Inr t) \<and> (distinct deps \<longrightarrow> distinct deps')"
proof (induction ds arbitrary: deps)
  case (Cons d ds)
  note run = Cons.prems [unfolded add_dependencies_Cons]
  note ih = Cons.IH [OF conjunct2 [OF conjunct2 [OF run]]]
  show ?case
    using ih run by (simp split: if_split_asm) blast
qed simp

lemma update_meta_Inr:
  assumes "update_meta st s md0 u = Inr md"
  shows "m_id md = (if m_id md0 = [] then s_new_uuid st else m_id md0) \<and> m_id md \<notin> set (u_depends_on u)
    \<and> set (depends_on md) = (set (depends_on md0) \<union> set (u_depends_on u)) - set (u_remove_dependency u)
    \<and> reviews md = reviews md0 \<and> scope md = (case u_scope u of None \<Rightarrow> scope md0 | Some sc \<Rightarrow> sc)"
proof -
  let ?md = "if m_id md0 = [] then md0\<lparr>m_id := s_new_uuid st\<rparr> else md0"
  obtain deps where deps: "add_dependencies s (m_id ?md) (u_depends_on u) (depends_on ?md) = Inr deps"
    and md: "md = (let md1 = ?md\<lparr>depends_on := filter (\<lambda>d. d \<notin> set (u_remove_dependency u)) deps\<rparr>
        in case u_scope u of None \<Rightarrow> md1 | Some sc \<Rightarrow> md1\<lparr>scope := sc\<rparr>)"
    using assms by (auto simp: update_meta_def Let_def result_bind_Inr)
  show ?thesis using add_dependencies_Inr [OF deps] unfolding md by (auto simp: Let_def split: option.split)
qed

lemma review_meta_Inr:
  assumes "review_meta st s updated md r = Inr md'"
  shows "m_id md' = m_id md \<and> depends_on md' = depends_on md \<and> scope md' = scope md
    \<and> (case r of None \<Rightarrow> md' = md
       | Some (i, ok, why) \<Rightarrow> trim why \<noteq> [] \<and> (\<exists>peer. referenced s i = Inr peer \<and> \<not> same_task updated peer
           \<and> review_of (task_evidence (s_scope_json st) (s_uuid5 st) updated peer) (updated\<lparr>meta := md'\<rparr>) peer
             = Some \<lparr>other = i, evidence = task_evidence (s_scope_json st) (s_uuid5 st) updated peer, compatible = ok, reason = why\<rparr>))"
proof (cases r)
  case (Some x)
  obtain i ok why where x: "x = (i, ok, why)" by (cases x)
  obtain peer where run: "trim why \<noteq> []" "referenced s i = Inr peer" "\<not> same_task updated peer"
    and md': "md' = md\<lparr>reviews := filter (\<lambda>r. other r \<noteq> i) (reviews md)
                @ [\<lparr>other = i, evidence = task_evidence (s_scope_json st) (s_uuid5 st) updated peer, compatible = ok, reason = why\<rparr>]\<rparr>"
    using assms by (auto simp: review_meta_def Some x result_bind_Inr graph_ok_Inr)
  have i: "m_id (meta peer) = i" "i \<noteq> []" using referenced_Inr [OF run(2)] by simp_all
  have "find (\<lambda>r. other r = i \<and> evidence r = e) (filter (\<lambda>r. other r \<noteq> i) rs @ [q]) =
      (if other q = i \<and> evidence q = e then Some q else None)" for e rs and q :: Review
    by (induction rs) auto
  then show ?thesis using run i by (auto simp: Some x review_of_def md')
qed (use assms in \<open>simp add: review_meta_def\<close>)

section \<open>The update\<close>

text \<open>A successful update of coordination metadata writes exactly the selected task's text and no
  registry; the task keeps its identifier (or takes the fresh one), has the dependencies asked for
  and none on itself, and in the snapshot with the new metadata every prerequisite it reaches exists
  and is on no cycle; a recorded assessment is the one that later admissions find for the pair.\<close>

theorem coordination_update_sound:
  assumes run: "update_coordination st sta i u w = (Inr own, w')"
  shows "\<exists>s sel md0 md s' content. load_snapshot st w = Inr s \<and> selected s (path_components (s_path st)) sta i = Inr sel
    \<and> read_meta st (t_content (entry sel)) = Inr md0
    \<and> own = (if m_id md0 = [] then s_new_uuid st else m_id md0) \<and> m_id md = own
    \<and> set (depends_on md) = (set (depends_on md0) \<union> set (u_depends_on u)) - set (u_remove_dependency u)
    \<and> own \<notin> set (u_depends_on u)
    \<and> (\<exists>unreviewed. m_id unreviewed = own \<and> depends_on unreviewed = depends_on md \<and> s' = with_task_meta s sel unreviewed)
    \<and> (\<forall>d \<in> set (depends_on md). \<forall>j. (dep_edge s')\<^sup>*\<^sup>* d j \<longrightarrow> (\<exists>t. referenced s' j = Inr t) \<and> \<not> (dep_edge s')\<^sup>+\<^sup>+ j j)
    \<and> (own \<noteq> [] \<longrightarrow> \<not> (dep_edge s')\<^sup>+\<^sup>+ own own)
    \<and> (case u_review u of None \<Rightarrow> reviews md = reviews md0
       | Some (peer_id, ok, why) \<Rightarrow> (\<exists>peer r. referenced s' peer_id = Inr peer \<and> compatible r = ok \<and> reason r = why
           \<and> review_of (task_evidence (s_scope_json st) (s_uuid5 st) (sel\<lparr>meta := md\<rparr>) peer) (sel\<lparr>meta := md\<rparr>) peer = Some r))
    \<and> coord_write (s_json_of_meta st) (t_content (entry sel)) md = Inr content
    \<and> md_write_task_entry_content (ws_board w) sta (entry sel) content = Inr (ws_board w') \<and> ws_db w' = ws_db w"
proof -
  obtain s sel md content where l: "load_snapshot st w = Inr s" "selected s (path_components (s_path st)) sta i = Inr sel"
    and md: "updated_meta st s sel u = Inr md" "own = m_id md"
    and stored: "coord_write (s_json_of_meta st) (t_content (entry sel)) md = Inr content"
      "md_write_task_entry_content (ws_board w) sta (entry sel) content = Inr (ws_board w')" "ws_db w' = ws_db w"
    using run by (auto simp: update_coordination_def ws_allowed_def ws_runs)
  obtain md0 md1 dn where m: "read_meta st (t_content (entry sel)) = Inr md0" "update_meta st s md0 u = Inr md1"
    "visit (with_task_meta s sel md1) [] [] (sel\<lparr>meta := md1\<rparr>) = Inr dn"
    "review_meta st (with_task_meta s sel md1) (sel\<lparr>meta := md1\<rparr>) md1 (u_review u) = Inr md"
    using md(1) by (auto simp: updated_meta_def Let_def result_bind_Inr graph_ok_Inr)
  let ?s = "with_task_meta s sel md1"
  note um = update_meta_Inr [OF m(2)] and rm = review_meta_Inr [OF m(4)]
  note visit_graph [OF m(3) with_task_meta_mem [OF l(2)]]
  then have graph: "\<forall>d \<in> set (depends_on md). \<forall>j. (dep_edge ?s)\<^sup>*\<^sup>* d j \<longrightarrow> (\<exists>t. referenced ?s j = Inr t) \<and> \<not> (dep_edge ?s)\<^sup>+\<^sup>+ j j"
    "own \<noteq> [] \<longrightarrow> \<not> (dep_edge ?s)\<^sup>+\<^sup>+ own own"
    using rm md(2) by auto
  have rev: "case u_review u of None \<Rightarrow> reviews md = reviews md0
       | Some (peer_id, ok, why) \<Rightarrow> (\<exists>peer r. referenced ?s peer_id = Inr peer \<and> compatible r = ok \<and> reason r = why
           \<and> review_of (task_evidence (s_scope_json st) (s_uuid5 st) (sel\<lparr>meta := md\<rparr>) peer) (sel\<lparr>meta := md\<rparr>) peer = Some r)"
  proof (cases "u_review u")
    case (Some x)
    obtain peer_id ok why where x: "x = (peer_id, ok, why)" by (cases x)
    obtain peer where "referenced ?s peer_id = Inr peer"
      "review_of (task_evidence (s_scope_json st) (s_uuid5 st) (sel\<lparr>meta := md1\<rparr>) peer) (sel\<lparr>meta := md\<rparr>) peer
         = Some \<lparr>other = peer_id, evidence = task_evidence (s_scope_json st) (s_uuid5 st) (sel\<lparr>meta := md1\<rparr>) peer,
             compatible = ok, reason = why\<rparr>"
      using rm by (auto simp: Some x)
    moreover have "task_evidence (s_scope_json st) (s_uuid5 st) (sel\<lparr>meta := md1\<rparr>) peer
        = task_evidence (s_scope_json st) (s_uuid5 st) (sel\<lparr>meta := md\<rparr>) peer"
      using rm by (simp add: task_evidence_def task_json_def)
    ultimately show ?thesis by (auto simp: Some x)
  qed (use rm um in simp)
  show ?thesis
    apply (rule exI [of _ s], rule exI [of _ sel], rule exI [of _ md0], rule exI [of _ md], rule exI [of _ ?s], rule exI [of _ content])
    using l m(1) um rm md(2) graph rev stored by auto
qed

section \<open>An update on the board\<close>

definition demo_meta_update :: Update where
  "demo_meta_update = \<lparr>u_depends_on = [lit ''b''], u_remove_dependency = [], u_scope = None, u_review = None\<rparr>"

lemma demo_load: "load_snapshot demo_site (demo_work demo_published) = Inr (demo_snapshot_of [demo_todo_task, demo_done_task])"
proof -
  have u: "runtime_task None demo_published 1 [] (list_pending_git_finalizations demo_published (Some 1)) demo_done_task = demo_done_task"
    by (simp add: runtime_task_def demo_tasks demo_published_facts(4))
  have "load_runtime demo_site demo_published [demo_todo_task, demo_done_task] = Inr [demo_todo_task, demo_done_task]"
    using demo_published_facts(1,2,3) u
    by (simp add: load_runtime_def load_runtime_from_store_def result_bind_def runtime_task_def [of _ _ _ _ _ demo_todo_task] demo_tasks)
  then show ?thesis
    by (simp add: load_snapshot_def load_with_context_def needs_proof_def Let_def demo_work_def demo_collect demo_tasks changed_paths_def
        demo_snapshot_of_def result_bind_def)
qed

lemma demo_updated:
  "updated_meta demo_site (demo_snapshot_of [demo_todo_task, demo_done_task]) demo_todo_task demo_meta_update
     = Inr (default_metadata\<lparr>m_id := lit ''a'', depends_on := [lit ''b'']\<rparr>)"
proof -
  let ?md = "default_metadata\<lparr>m_id := lit ''a'', depends_on := [lit ''b'']\<rparr>"
  have m: "meta demo_todo_task = ?md" by (simp add: demo_todo_task_def board_task_def demo_metas)
  have same: "with_task_meta (demo_snapshot_of [demo_todo_task, demo_done_task]) demo_todo_task ?md
      = demo_snapshot_of [demo_todo_task, demo_done_task]" "demo_todo_task\<lparr>meta := ?md\<rparr> = demo_todo_task"
    by (simp_all add: with_task_meta_def same_task_def demo_snapshot_of_def m [symmetric])
  have "visit (demo_snapshot_of [demo_todo_task, demo_done_task]) [] [] demo_todo_task = Inr [lit ''a'', lit ''b'']"
    by (simp add: demo_snapshot_of_def visit.simps referenced_def demo_tasks lit_def)
  moreover have "update_meta demo_site (demo_snapshot_of [demo_todo_task, demo_done_task]) ?md demo_meta_update = Inr ?md"
    by (simp add: update_meta_def demo_meta_update_def demo_snapshot_of_def referenced_def demo_tasks lit_def result_bind_def graph_ok_def
        default_metadata_def)
  ultimately show ?thesis
    using same by (simp add: updated_meta_def demo_tasks demo_metas result_bind_def graph_ok_def review_meta_def demo_meta_update_def)
qed

lemma demo_todo_span: "\<exists>x. coord_span demo_todo_text = Inr x"
proof -
  have "(case coord_span demo_todo_text of Inl _ \<Rightarrow> False | Inr _ \<Rightarrow> True)" by code_simp
  then show ?thesis by (cases "coord_span demo_todo_text") simp_all
qed

lemma demo_meta_update_runs: "\<exists>w'. update_coordination demo_site Todo 1 demo_meta_update (demo_work demo_published) = (Inr (lit ''a''), w')"
proof -
  let ?md = "default_metadata\<lparr>m_id := lit ''a'', depends_on := [lit ''b'']\<rparr>" and ?e = "entry demo_todo_task"
  have sel: "selected (demo_snapshot_of [demo_todo_task, demo_done_task]) (path_components (lit ''/p1/tasks'')) Todo 1 = Inr demo_todo_task"
    by (simp add: selected_def demo_snapshot_of_def demo_todo_task_def board_task_def demo_site_def)
  obtain c where c: "coord_write (s_json_of_meta demo_site) demo_todo_text ?md = Inr c"
    using demo_todo_span by (auto simp: coord_write_def result_bind_def demo_site_def Let_def)
  have e: "t_source ?e = MarkdownLine 0" "t_content ?e = demo_todo_text"
    by (simp_all add: demo_todo_task_def board_task_def)
  have "lines (demo_files Todo) = [TASK_PREFIX @ demo_todo_text]"
    by (simp add: demo_files_def demo_todo_text_def lines_def strip_line_ending_def strip_suffix_def ends_with_def text_eval)
  then have b: "\<exists>b. md_write_task_entry_content demo_files Todo ?e c = Inr b"
    by (simp add: md_write_task_entry_content_def write_markdown_line_def e result_bind_def strip_prefix_def starts_with_def)
  show ?thesis
    using b c demo_load demo_updated sel e
    by (auto simp: update_coordination_def ws_bind_def ws_get_def ws_ensure_def ws_ok_def ensure_def demo_tasks ws_allowed_def
        ensure_managed_git_task_mutation_allowed_def linked_session_def on_board_def demo_work_def)
qed

theorem coordination_update_sound_witness:
  "\<exists>w' content. update_coordination demo_site Todo 1 demo_meta_update (demo_work demo_published) = (Inr (lit ''a''), w')
     \<and> (\<exists>e. md_write_task_entry_content demo_files Todo e content = Inr (ws_board w'))"
proof -
  obtain w' where run: "update_coordination demo_site Todo 1 demo_meta_update (demo_work demo_published) = (Inr (lit ''a''), w')"
    using demo_meta_update_runs by blast
  have "ws_board (demo_work demo_published) = demo_files" by (simp add: demo_work_def)
  then show ?thesis using run coordination_update_sound [OF run] by metis
qed

end
