(* ===== verification/Activation_Theorems.thy ===== *)
theory Activation_Theorems
  imports Update_Theorems
begin

text \<open>
  The activation of a task by an automated run with Git on: the task is admitted and its identity is
  bound to the run's Working journal before the board shows it in Doing.
\<close>

section \<open>Binding the identity\<close>

lemma identity_cas:
  assumes "journals_wf (journals db)"
    and "compare_and_set_git_finalization_with_identity pid sid gen Working ident (Some t) now db = (Inr True, db')"
  obtains g h where "git_finalization db pid sid = Some g" and "git_finalization db' pid sid = Some h"
    and "g_state h = Working" and "g_task_identity h = option_or (g_task_identity g) (Some ident)" and "g_owner_run_token h = Some t"
    and "g_starting_head h = g_starting_head g" and "g_branch_ref h = g_branch_ref g" and "g_worktree_baseline h = g_worktree_baseline g"
    and "\<exists>sc \<in> set (controls db). running_owner pid sid t sc"
proof -
  let ?q = "\<lparr>cq_project = pid, cq_session = sid, cq_expected_generation = gen, cq_next_state = Working, cq_task_identity = Some ident,
    cq_worktree_baseline = None, cq_require_running_owner = True, cq_owner_run_token = Some t, cq_commit_oid = None,
    cq_last_error = None, cq_updated_at = now\<rparr>"
  have acc: "compare_and_set_git_finalization ?q db = (Inr True, db')"
    using assms(2) by (simp add: compare_and_set_git_finalization_with_identity_def)
  obtain g where g: "git_finalization db pid sid = Some g" "git_finalization db' pid sid = Some (cas_row ?q g)"
    "\<exists>sc \<in> set (controls db). running_owner pid sid t sc"
    by (rule cas_accepted [OF assms(1) acc]) simp
  show ?thesis
    by (rule that [OF g(1,2)]) (use g(3) in \<open>simp_all add: cas_row_def\<close>)
qed

lemma bind_identity_effect:
  assumes wf: "journals_wf (journals (ws_db w))" and g: "git_finalization (ws_db w) pid session = Some g"
    and own: "g_state g = Working" "g_owner_run_token g = Some (cx_run_token cx)"
    and run: "bind_task_identity cx pid session g ident now w = (Inr (), w')"
  shows "ws_board w' = ws_board w \<and> g_task_identity g \<in> {None, Some ident}
    \<and> (\<exists>h. git_finalization (ws_db w') pid session = Some h \<and> g_state h = Working \<and> g_task_identity h = Some ident
         \<and> g_owner_run_token h = Some (cx_run_token cx) \<and> g_starting_head h = g_starting_head g
         \<and> g_branch_ref h = g_branch_ref g \<and> g_worktree_baseline h = g_worktree_baseline g)"
proof (cases "g_task_identity g")
  case None
  then obtain db' where cas: "compare_and_set_git_finalization_with_identity pid session (g_generation g) Working ident
      (Some (cx_run_token cx)) now (ws_db w) = (Inr True, db')" and w': "w' = w\<lparr>ws_db := db'\<rparr>"
    using run by (auto simp: bind_task_identity_def ws_runs)
  obtain g' h where "git_finalization (ws_db w) pid session = Some g'" "git_finalization db' pid session = Some h"
    "g_state h = Working" "g_task_identity h = option_or (g_task_identity g') (Some ident)" "g_owner_run_token h = Some (cx_run_token cx)"
    "g_starting_head h = g_starting_head g'" "g_branch_ref h = g_branch_ref g'" "g_worktree_baseline h = g_worktree_baseline g'"
    by (rule identity_cas [OF wf cas])
  then show ?thesis using g None by (simp add: w' option_or_def)
next
  case (Some i)
  then show ?thesis using run g own by (simp add: bind_task_identity_def)
qed

lemma attach_keeps_db: "attach_session sta e session w = (Inr (), w') \<Longrightarrow>
   ws_db w' = ws_db w \<and> (\<exists>c. md_attach_codex_session (ws_board w) sta e session = Inr (c, ws_board w'))"
  by (auto simp: attach_session_def on_board_Inr map_sum_Inr)

text \<open>C21: when an automated run moves a Todo task to Doing with Git on, the task was admitted and not
  stopped and belongs to no other conversation; the run's own journal is Working, has the start it
  had before, and is bound to the identity of exactly the task that moved.\<close>

theorem activation_binds_journal:
  assumes wf: "journals_wf (journals (ws_db w))"
    and run: "move_task_to_doing_with_agent_git_journal st gv a cx p now w = (Inr (), w')"
  shows "\<exists>k e session ident g h c b. md_task_entry_at (ws_board w) Todo k = Inr e \<and> \<not> task_content_is_stopped (t_content e)
    \<and> ensure_board_admitted st w Todo k = Inr () \<and> linked_session e \<in> {None, Some session}
    \<and> durable_task_identity (t_content e) = Some ident
    \<and> git_finalization (ws_db w) (p_id p) session = Some g \<and> g_state g = Working
    \<and> g_owner_run_token g = Some (cx_run_token cx) \<and> g_git_mode g = p_git_mode p \<and> g_task_identity g \<in> {None, Some ident}
    \<and> git_finalization (ws_db w') (p_id p) session = Some h \<and> g_state h = Working \<and> g_task_identity h = Some ident
    \<and> g_owner_run_token h = Some (cx_run_token cx) \<and> g_starting_head h = g_starting_head g \<and> g_starting_head g \<noteq> None
    \<and> g_branch_ref h = g_branch_ref g \<and> g_worktree_baseline h = g_worktree_baseline g
    \<and> md_attach_codex_session (ws_board w) Todo e session = Inr (c, b)
    \<and> md_move_without_reordering b Todo Doing k = Inr (ws_board w')"
proof -
  obtain k e session ident g start w1 w2 where e: "md_task_entry_at (ws_board w) Todo k = Inr e" "ensure_task_not_stopped e = Inr ()"
      "ensure_board_admitted st w Todo k = Inr ()" "case linked_session e of None \<Rightarrow> True | Some previous \<Rightarrow> previous = session"
      "durable_task_identity (t_content e) = Some ident"
    and g: "working_journal_of_run cx p session w = Inr g" "journal_start g = Inr start"
    and bind: "bind_task_identity cx (p_id p) session g ident now w = (Inr (), w1)"
    and att: "attach_session Todo e session w1 = (Inr (), w2)"
    and move: "on_board (\<lambda>b. md_move_without_reordering b Todo Doing k) w2 = (Inr (), w')"
    using run unfolding move_task_to_doing_with_agent_git_journal_def ensure_root_def ws_running_session_def
    by (simp add: ws_bind_Inr) blast
  have j: "git_finalization (ws_db w) (p_id p) session = Some g" "g_state g = Working" "g_owner_run_token g = Some (cx_run_token cx)"
    "g_git_mode g = p_git_mode p" using g(1) by (auto simp: working_journal_of_run_def split: option.splits if_splits)
  have "g_starting_head g \<noteq> None" using g(2) by (auto simp: journal_start_def split: option.splits)
  moreover have "\<not> task_content_is_stopped (t_content e)" using e(2) by (simp add: ensure_task_not_stopped_def ensure_def split: if_splits)
  moreover have "linked_session e \<in> {None, Some session}" using e(4) by (auto split: option.splits)
  moreover obtain h where "git_finalization (ws_db w1) (p_id p) session = Some h" "g_state h = Working" "g_task_identity h = Some ident"
    "g_owner_run_token h = Some (cx_run_token cx)" "g_starting_head h = g_starting_head g" "g_branch_ref h = g_branch_ref g"
    "g_worktree_baseline h = g_worktree_baseline g" "g_task_identity g \<in> {None, Some ident}" "ws_board w1 = ws_board w"
    using bind_identity_effect [OF wf j(1-3) bind] by blast
  moreover obtain c where "md_attach_codex_session (ws_board w1) Todo e session = Inr (c, ws_board w2)" "ws_db w2 = ws_db w1"
    using attach_keeps_db [OF att] by blast
  moreover obtain b where "md_move_without_reordering (ws_board w2) Todo Doing k = Inr b" "w' = w2\<lparr>ws_board := b\<rparr>"
    using move by (auto simp: on_board_Inr)
  ultimately show ?thesis
    using e(1,3,5) j
    by (intro exI [of _ k] exI [of _ e] exI [of _ session] exI [of _ ident] exI [of _ g] exI [of _ h] exI [of _ c]
        exI [of _ "ws_board w2"]) simp
qed

section \<open>A task a run activates\<close>

definition demo_working :: registry where
  "demo_working = demo_session\<lparr>journals := [(new_journal demo_new)\<lparr>g_owner_run_token := Some (lit ''t1'')\<rparr>]\<rparr>"

definition demo_todo_work :: workspace where
  "demo_todo_work = \<lparr>ws_db = demo_working, ws_board = (\<lambda>sta. if sta = Todo then TASK_PREFIX @ demo_note_text else []),
     ws_archive = []\<rparr>"

definition demo_pushed_project :: project_row where
  "demo_pushed_project = (hd (projects demo_working))\<lparr>p_git_mode := CommitAndPush\<rparr>"

definition demo_note_task :: Task where
  "demo_note_task = board_task demo_site Todo (1, demo_run_entry)"

lemma demo_todo_entries:
  "read_markdown_entries (ws_board demo_todo_work Todo) = [demo_run_entry]"
  "sta \<noteq> Todo \<Longrightarrow> read_markdown_entries (ws_board demo_todo_work sta) = []"
proof -
  have "10 \<notin> set demo_note_text" by (simp add: demo_note_text_def lit_def)
  then show "read_markdown_entries (ws_board demo_todo_work Todo) = [demo_run_entry]"
    by (simp add: demo_todo_work_def read_one_entry demo_run_entry_def)
qed (simp add: demo_todo_work_def demo_entries)

lemma demo_todo_admitted: "ensure_board_admitted demo_site demo_todo_work Todo 1 = Inr ()"
proof -
  have md: "read_meta demo_site demo_note_text = Inr default_metadata"
    by (simp add: read_meta_def coord_read_def note_span)
  have "split_at_char 96 demo_note_text = [demo_note_text]" by (simp add: demo_note_text_def lit_def)
  then have "inferred_symbols demo_note_task = []"
    by (simp add: inferred_symbols_def demo_note_task_def board_task_def demo_run_entry_def note_span)
  moreover have "collect demo_site (ws_board demo_todo_work) [] = [demo_note_task]"
    by (simp add: collect_def TASK_STATUSES_def demo_todo_entries demo_note_task_def demo_entries List.map_filter_def)
  moreover have t: "m_id (meta demo_note_task) = []" "depends_on (meta demo_note_task) = []" "error demo_note_task = None"
    "status demo_note_task = Todo" "index demo_note_task = 1" "board demo_note_task = path_components (lit ''/p1/tasks'')"
    by (simp_all add: demo_note_task_def board_task_def demo_run_entry_def md default_metadata_def)
  ultimately have adm: "admission demo_site demo_todo_work = Inr (demo_snapshot_of [demo_note_task])"
    by (simp add: admission_def load_with_context_def needs_proof_def Let_def changed_paths_def demo_snapshot_of_def result_bind_def
        demo_todo_work_def)
  have "waits (\<lambda>_. []) (\<lambda>x. x) (demo_snapshot_of [demo_note_task]) demo_note_task = []"
    using t by (simp add: demo_snapshot_of_def waits_def task_complete_def task_active_def visit.simps prerequisite_waits_def
        overlap_waits_def List.map_filter_def)
  then show ?thesis
    using t adm by (simp add: ensure_board_admitted_def result_bind_def ensure_admitted_def selected_def demo_snapshot_of_def
        admitted_or_error_def)
qed

definition demo_bound :: registry where
  "demo_bound = snd (compare_and_set_git_finalization_with_identity 1 (lit ''s1'') 0 Working (lit ''v2'' @ [10] @ lit ''two'')
     (Some (lit ''t1'')) (lit ''2000'') demo_working)"

lemma demo_activation:
  "\<exists>w'. move_task_to_doing_with_agent_git_journal demo_site demo_git (lit ''1'') demo_context demo_pushed_project (lit ''2000'')
     demo_todo_work = (Inr (), w')"
proof -
  let ?g = "hd (journals demo_working)"
  have p: "p_path demo_pushed_project = lit ''/p1'' \<and> p_id demo_pushed_project = 1 \<and> p_git_mode demo_pushed_project = CommitAndPush"
    by code_simp
  have session: "poll_running_session demo_context (replicate 40 demo_working) = Inr (lit ''s1'')" by code_simp
  have g: "git_finalization demo_working 1 (lit ''s1'') = Some ?g" by code_simp
  have j: "g_state ?g = Working" "g_owner_run_token ?g = Some (lit ''t1'')" "g_git_mode ?g = CommitAndPush"
    "g_starting_head ?g = Some (lit ''abc'')" "g_task_identity ?g = None" "g_generation ?g = 0"
    by (simp_all add: demo_working_def new_journal_def demo_new_def)
  have "fst (compare_and_set_git_finalization_with_identity 1 (lit ''s1'') 0 Working (lit ''v2'' @ [10] @ lit ''two'')
     (Some (lit ''t1'')) (lit ''2000'') demo_working) = Inr True" by code_simp
  then have cas: "compare_and_set_git_finalization_with_identity 1 (lit ''s1'') 0 Working (lit ''v2'' @ [10] @ lit ''two'')
     (Some (lit ''t1'')) (lit ''2000'') demo_working = (Inr True, demo_bound)" by (simp add: demo_bound_def prod_eq_iff)
  have e: "t_content demo_run_entry = demo_note_text" "t_source demo_run_entry = MarkdownLine 0" by (simp_all add: demo_run_entry_def)
  have att: "md_attach_codex_session (ws_board demo_todo_work) Todo demo_run_entry (lit ''s1'') = Inr (demo_note_text, ws_board demo_todo_work)"
    by (simp add: md_attach_codex_session_def md_task_for_codex_session_def SESSION_SEARCH_ORDER_def demo_todo_entries e note_session note_link)
  have "lines (ws_board demo_todo_work Todo) = [TASK_PREFIX @ demo_note_text]"
    using demo_run_lines by (simp add: demo_todo_work_def demo_run_work_def)
  then have "\<exists>b. md_move_without_reordering (ws_board demo_todo_work) Todo Doing 1 = Inr b"
    by (simp add: md_move_without_reordering_def md_task_entry_at_def demo_todo_entries md_remove_task_entry_def
        md_insert_task_content_def remove_markdown_line_def e result_bind_def)
  then obtain b where move: "md_move_without_reordering (ws_board demo_todo_work) Todo Doing 1 = Inr b" by blast
  have at: "md_task_entry_at (ws_board demo_todo_work) Todo 1 = Inr demo_run_entry"
    by (simp add: md_task_entry_at_def demo_todo_entries)
  have ns: "ensure_task_not_stopped demo_run_entry = Inr ()"
    by (simp add: ensure_task_not_stopped_def e task_content_is_stopped_def demo_note_text_def note_eval ensure_def)
  have bound: "bind_task_identity demo_context 1 (lit ''s1'') ?g (lit ''v2'' @ [10] @ lit ''two'') (lit ''2000'') demo_todo_work
      = (Inr (), demo_todo_work\<lparr>ws_db := demo_bound\<rparr>)"
    using cas j by (simp add: bind_task_identity_def ws_bind_def on_db_def ws_ensure_def ws_get_def ensure_def demo_context_def demo_todo_work_def)
  have db: "ws_db demo_todo_work = demo_working" by (simp add: demo_todo_work_def)
  show ?thesis
    using p session g j at ns bound att move demo_todo_admitted note_identity parse_one
    by (simp add: move_task_to_doing_with_agent_git_journal_def ensure_root_def ws_running_session_def running_session_for_automated_child_def
        working_journal_of_run_def journal_start_def attach_session_def on_board_def ws_bind_def ws_get_def ws_ensure_def ensure_def
        need_def e linked_session_def db demo_git_def demo_context_def)
qed

theorem activation_binds_journal_witness:
  "\<exists>w' session h. move_task_to_doing_with_agent_git_journal demo_site demo_git (lit ''1'') demo_context demo_pushed_project (lit ''2000'')
     demo_todo_work = (Inr (), w')
     \<and> git_finalization (ws_db w') (p_id demo_pushed_project) session = Some h \<and> g_state h = Working \<and> g_task_identity h \<noteq> None"
proof -
  obtain w' where run: "move_task_to_doing_with_agent_git_journal demo_site demo_git (lit ''1'') demo_context demo_pushed_project
      (lit ''2000'') demo_todo_work = (Inr (), w')" using demo_activation by blast
  have "journals_wf (journals demo_working)" by code_simp
  then have "journals_wf (journals (ws_db demo_todo_work))" by (simp add: demo_todo_work_def)
  from activation_binds_journal [OF this run] run show ?thesis by blast
qed

end
