(* ===== verification/Supervisor.thy ===== *)
theory Supervisor
  imports Completion Scheduler "HOL-Library.Word"
begin

text \<open>
  The supervisor of blocked work (\<^verbatim>\<open>src/src/supervisor.rs\<close>, \<^verbatim>\<open>src/src/agent/repositories/supervisor.rs\<close>):
  its settings and saved reviews, the evidence a review is bound to, the gate in front of a project's
  scheduling, the beginning and the end of a review, and the retry it may approve.

  The JSON library, the history and the diagnostics of Git and the date are arguments; documents
  that are only stored and read back are values of an arbitrary type, evidence is text.
\<close>

section \<open>Settings and reviews\<close>

record SupervisorSettings =
  st_enabled :: bool
  st_provider :: "str option"
  st_model :: "str option"
  st_thinking :: "str option"
  st_fast :: bool

definition default_supervisor_settings :: SupervisorSettings where
  "default_supervisor_settings = \<lparr>st_enabled = False, st_provider = None, st_model = None,
     st_thinking = Some (lit ''high''), st_fast = False\<rparr>"

datatype DecisionKind = Retry | Wait | User | Replan | Repair

record Decision =
  d_kind :: DecisionKind
  d_task :: nat
  d_reason :: str
  d_next_action :: str

record SupervisorReview =
  v_evidence :: str
  v_state :: string
  v_attempts :: "32 word"
  v_retries :: "32 word"
  v_decision :: "Decision option"
  v_retry_session :: "str option"
  v_error :: "str option"

definition MAX_REVIEWS :: "32 word" where "MAX_REVIEWS = 2"
definition MAX_RETRIES :: "32 word" where "MAX_RETRIES = 2"

fun decision_debug :: "DecisionKind \<Rightarrow> string" where
  "decision_debug Retry = ''Retry''"
| "decision_debug Wait = ''Wait''"
| "decision_debug User = ''User''"
| "decision_debug Replan = ''Replan''"
| "decision_debug Repair = ''Repair''"

definition review_message :: "SupervisorReview \<Rightarrow> str" where
  "review_message r =
     (case v_error r of
        Some e \<Rightarrow> lit ''Supervisor needs attention: '' @ e @ lit ''. Press r to review again.''
      | None \<Rightarrow>
          (case v_decision r of
             Some d \<Rightarrow> lit ''Supervisor '' @ lit (decision_debug (d_kind d)) @ lit '': '' @ d_reason d
                        @ lit '' Next: '' @ d_next_action d
           | None \<Rightarrow> lit ''Supervisor review pending; project work is waiting.''))"

datatype Gate = Gate_normal | Gate_review | Gate_retry str | Gate_hold str

definition control_allows_review :: "control_row \<Rightarrow> bool" where
  "control_allows_review c \<longleftrightarrow> sc_state c \<in> {Stopped, ResumeRequested} \<and> sc_child_pid c = None
     \<and> sc_interactive_holder c = None \<and> sc_interactive_launch_token c = None"

section \<open>The state of a project under supervision\<close>

text \<open>The row of \<^verbatim>\<open>agent_settings\<close>, if there is one, holds a document or null.\<close>

record 'j review_row =
  rv_project :: int
  rv_evidence :: str
  rv_record :: 'j
  rv_updated_at :: str

record 'j sup =
  su_work :: workspace
  su_settings :: "'j option option"
  su_reviews :: "'j review_row table"

record seal_facts =
  sf_session :: str
  sf_generation :: int
  sf_state :: string
  sf_manifest :: str
  sf_last_error :: "str option"
  sf_head :: str
  sf_diagnostic :: str

record review_facts =
  rf_board :: str
  rf_finalizations :: "seal_facts list"
  rf_failures :: "(str \<times> (int \<times> string \<times> str option) option) list"
  rf_eligibility :: "(str \<times> bool) list"

record 'j sup_env =
  se_site :: site
  se_head :: "str result"
  se_diagnostic :: "journal_row \<Rightarrow> str result"
  se_value :: "str \<Rightarrow> str result"
  se_board_json :: "(str \<times> str) list \<Rightarrow> str result"
  se_facts_json :: "review_facts \<Rightarrow> str result"
  se_review_json :: "SupervisorReview \<Rightarrow> 'j result"
  se_review_of_json :: "'j \<Rightarrow> SupervisorReview option"
  se_settings_json :: "SupervisorSettings \<Rightarrow> 'j result"
  se_settings_of_json :: "'j \<Rightarrow> SupervisorSettings option"
  se_today :: str
  se_now :: str

type_synonym ('a, 'j) sv = "'j sup \<Rightarrow> 'a result \<times> 'j sup"

definition sv_bind :: "('a, 'j) sv \<Rightarrow> ('a \<Rightarrow> ('b, 'j) sv) \<Rightarrow> ('b, 'j) sv" where
  "sv_bind m f v = (case m v of (Inl e, v') \<Rightarrow> (Inl e, v') | (Inr x, v') \<Rightarrow> f x v')"

definition sv_ok :: "'a \<Rightarrow> ('a, 'j) sv" where
  "sv_ok x v = (Inr x, v)"

definition sv_get :: "('j sup \<Rightarrow> 'a result) \<Rightarrow> ('a, 'j) sv" where
  "sv_get f v = (f v, v)"

definition sv_ensure :: "('j sup \<Rightarrow> bool) \<Rightarrow> string \<Rightarrow> (unit, 'j) sv" where
  "sv_ensure P e = sv_get (\<lambda>v. ensure (P v) e)"

definition on_work :: "'a ws \<Rightarrow> ('a, 'j) sv" where
  "on_work m v = (case m (su_work v) of (r, w) \<Rightarrow> (r, v\<lparr>su_work := w\<rparr>))"

section \<open>The repository of settings and reviews\<close>

definition before_supervisor :: "site \<Rightarrow> bool" where
  "before_supervisor st = (case s_migration st of None \<Rightarrow> False | Some i \<Rightarrow> i \<le> 20)"

definition supervisor_settings :: "'j sup_env \<Rightarrow> 'j sup \<Rightarrow> SupervisorSettings result" where
  "supervisor_settings env v =
     (if before_supervisor (se_site env) then Inr default_supervisor_settings
      else case su_settings v of
             Some (Some j) \<Rightarrow> need ''Invalid supervisor settings'' (se_settings_of_json env j)
           | _ \<Rightarrow> Inr default_supervisor_settings)"

definition set_supervisor_settings :: "'j sup_env \<Rightarrow> SupervisorSettings \<Rightarrow> (unit, 'j) sv" where
  "set_supervisor_settings env s =
     sv_bind (sv_ensure (\<lambda>_. s_migration (se_site env) = None) ''Supervisor upgrade is waiting for older workers to finish'') (\<lambda>_.
     sv_bind (sv_get (\<lambda>_. se_settings_json env s)) (\<lambda>j v.
     (Inr (), v\<lparr>su_settings := map_option (\<lambda>_. Some j) (su_settings v)\<rparr>)))"

definition supervisor_review :: "'j sup_env \<Rightarrow> int \<Rightarrow> 'j sup \<Rightarrow> SupervisorReview option result" where
  "supervisor_review env pid v =
     (if before_supervisor (se_site env) then Inr None
      else case sql_select (\<lambda>r. rv_project r = pid) (su_reviews v) of
             None \<Rightarrow> Inr None
           | Some r \<Rightarrow> map_sum id Some (need ''Invalid supervisor review'' (se_review_of_json env (rv_record r))))"

text \<open>The table comes with migration 20; its foreign key refuses a review of a project that is not
  registered.\<close>

definition save_supervisor_review :: "'j sup_env \<Rightarrow> int \<Rightarrow> SupervisorReview \<Rightarrow> (unit, 'j) sv" where
  "save_supervisor_review env pid r =
     sv_bind (sv_get (\<lambda>_. se_review_json env r)) (\<lambda>j.
     sv_bind (sv_ensure (\<lambda>_. \<not> before_supervisor (se_site env)) ''no such table: supervisor_reviews'') (\<lambda>_.
     sv_bind (sv_ensure (\<lambda>v. project_exists (ws_db (su_work v)) pid) ''FOREIGN KEY constraint failed'') (\<lambda>_ v.
     let row = \<lparr>rv_project = pid, rv_evidence = v_evidence r, rv_record = j, rv_updated_at = se_now env\<rparr> in
     (Inr (), v\<lparr>su_reviews := (if sql_exists (\<lambda>x. rv_project x = pid) (su_reviews v)
                              then sql_update (\<lambda>x. rv_project x = pid) (\<lambda>_. row) (su_reviews v)
                              else sql_insert row (su_reviews v))\<rparr>))))"

definition clear_supervisor_review :: "'j sup_env \<Rightarrow> int \<Rightarrow> (unit, 'j) sv" where
  "clear_supervisor_review env pid v =
     (if before_supervisor (se_site env) then (Inr (), v)
      else (Inr (), v\<lparr>su_reviews := sql_delete (\<lambda>x. rv_project x = pid) (su_reviews v)\<rparr>))"

section \<open>Candidates of a review\<close>

definition failed_run :: "run_row \<Rightarrow> bool" where
  "failed_run r \<longleftrightarrow> r_finished_at r \<noteq> None \<and> r_status r \<in> {''failure'', ''timeout''}"

definition in_lists :: "workspace \<Rightarrow> TaskStatus list \<Rightarrow> (TaskEntry \<Rightarrow> bool) \<Rightarrow> (TaskStatus \<times> TaskEntry) list" where
  "in_lists w stas P = concat (map (\<lambda>sta. map (Pair sta) (filter P (entries w sta))) stas)"

definition failed_twice :: "registry \<Rightarrow> int \<Rightarrow> str \<Rightarrow> bool" where
  "failed_twice db pid session =
     (case latest_run_for_codex_session db pid session False None of
        None \<Rightarrow> False
      | Some (latest, _) \<Rightarrow> failed_run latest
          \<and> (case latest_run_for_codex_session db pid session False (Some (r_id latest)) of
               None \<Rightarrow> False
             | Some (previous, _) \<Rightarrow> failed_run previous))"

definition repeated_failure_candidates :: "workspace \<Rightarrow> int \<Rightarrow> (TaskStatus \<times> TaskEntry) list" where
  "repeated_failure_candidates w pid =
     in_lists w [Todo, Doing] (\<lambda>e. \<not> task_content_is_stopped (t_content e) \<and> \<not> task_content_is_manual (t_content e)
       \<and> \<not> task_content_is_blocked (t_content e)
       \<and> (case linked_session e of None \<Rightarrow> False | Some session \<Rightarrow> failed_twice (ws_db w) pid session))"

definition blocked_candidates :: "workspace \<Rightarrow> (TaskStatus \<times> TaskEntry) list" where
  "blocked_candidates w =
     in_lists w [Todo, Doing] (\<lambda>e. task_content_is_blocked (t_content e) \<and> \<not> task_content_is_stopped (t_content e)
       \<and> \<not> task_content_is_manual (t_content e))"

definition sealed_journals :: "registry \<Rightarrow> int \<Rightarrow> journal_row list" where
  "sealed_journals db pid = filter (\<lambda>g. gfs_is_finalizing (g_state g)) (list_pending_git_finalizations db (Some pid))"

definition has_sealed_finalization :: "registry \<Rightarrow> int \<Rightarrow> bool" where
  "has_sealed_finalization db pid \<longleftrightarrow> sealed_journals db pid \<noteq> []"

definition sealed_candidate :: "workspace \<Rightarrow> journal_row \<Rightarrow> (TaskStatus \<times> TaskEntry) option" where
  "sealed_candidate w g =
     (case linked_tasks w (g_session g) of
        [(sta, e)] \<Rightarrow>
          if (status_is_active sta \<or> sta = Done) \<and> \<not> task_content_is_stopped (t_content e)
             \<and> \<not> task_content_is_manual (t_content e)
          then Some (sta, e) else None
      | _ \<Rightarrow> None)"

text \<open>Each repeated failure is added unless an equal candidate is already there.\<close>

definition same_candidate :: "TaskStatus \<times> TaskEntry \<Rightarrow> TaskStatus \<times> TaskEntry \<Rightarrow> bool" where
  "same_candidate = (\<lambda>(sta, e) (sta', e'). sta = sta' \<and> same_entry e e')"

definition review_candidates :: "workspace \<Rightarrow> int \<Rightarrow> (TaskStatus \<times> TaskEntry) list" where
  "review_candidates w pid =
     (if has_sealed_finalization (ws_db w) pid
      then List.map_filter (sealed_candidate w) (sealed_journals (ws_db w) pid)
      else foldl (\<lambda>cs c. if list_ex (\<lambda>c'. same_candidate c' c) cs then cs else cs @ [c])
             (blocked_candidates w) (repeated_failure_candidates w pid))"

definition retry_session_is_idle :: "registry \<Rightarrow> int \<Rightarrow> str \<Rightarrow> bool result" where
  "retry_session_is_idle db pid session =
     map_sum id (\<lambda>c. case c of None \<Rightarrow> True
                     | Some c \<Rightarrow> sc_state c = ResumeRequested \<and> sc_child_pid c = None
                         \<and> sc_interactive_holder c = None \<and> sc_interactive_launch_token c = None)
       (session_control db pid session)"

definition retry_status_available :: "registry \<Rightarrow> int \<Rightarrow> TaskStatus \<Rightarrow> str \<Rightarrow> bool" where
  "retry_status_available db pid sta session \<longleftrightarrow> status_is_active sta
     \<or> (sta = Done \<and> (case git_finalization db pid session of None \<Rightarrow> False | Some g \<Rightarrow> gfs_is_finalizing (g_state g)))"

text \<open>Nothing but the journal of a task that still works, or no journal, leaves it unsealed.\<close>

definition unsealed_session :: "registry \<Rightarrow> int \<Rightarrow> str \<Rightarrow> bool" where
  "unsealed_session db pid session =
     (case git_finalization db pid session of None \<Rightarrow> True | Some g \<Rightarrow> g_state g = Working)"

section \<open>The evidence\<close>

definition board_evidence :: "'j sup_env \<Rightarrow> workspace \<Rightarrow> str result" where
  "board_evidence env w =
     se_board_json env (concat (map (\<lambda>sta. map (\<lambda>e. (status_as_str sta, t_content e)) (entries w sta)) [Todo, Doing, Done]))"

definition seal_evidence :: "'j sup_env \<Rightarrow> journal_row \<Rightarrow> seal_facts result" where
  "seal_evidence env g =
     result_bind (se_value env (g_worktree_baseline g)) (\<lambda>manifest.
     result_bind (se_head env) (\<lambda>head.
     result_bind (se_diagnostic env g) (\<lambda>diagnostic.
     Inr \<lparr>sf_session = g_session g, sf_generation = g_generation g, sf_state = gfs_status_label (g_state g),
          sf_manifest = manifest, sf_last_error = g_last_error g, sf_head = head, sf_diagnostic = diagnostic\<rparr>)))"

definition failure_evidence :: "registry \<Rightarrow> int \<Rightarrow> TaskStatus \<times> TaskEntry \<Rightarrow> str \<times> (int \<times> string \<times> str option) option" where
  "failure_evidence db pid = (\<lambda>(_, e).
     let session = the (linked_session e)
     in (session, map_option (\<lambda>(r, _). (r_id r, r_status r, r_summary r)) (latest_run_for_codex_session db pid session False None)))"

definition eligibility_evidence :: "registry \<Rightarrow> int \<Rightarrow> str \<Rightarrow> (str \<times> bool) result" where
  "eligibility_evidence db pid session = map_sum id (Pair session) (retry_session_is_idle db pid session)"

definition review_evidence :: "'j sup_env \<Rightarrow> int \<Rightarrow> workspace \<Rightarrow> str result" where
  "review_evidence env pid w =
     result_bind (collect_results (map (seal_evidence env) (sealed_journals (ws_db w) pid))) (\<lambda>seals.
     result_bind (collect_results (map (eligibility_evidence (ws_db w) pid)
                    (List.map_filter (\<lambda>(_, e). linked_session e) (review_candidates w pid)))) (\<lambda>eligible.
     result_bind (board_evidence env w) (\<lambda>board_text.
     se_facts_json env \<lparr>rf_board = board_text, rf_finalizations = seals,
       rf_failures = map (failure_evidence (ws_db w) pid) (repeated_failure_candidates w pid),
       rf_eligibility = eligible\<rparr>)))"

section \<open>The gate\<close>

definition queued_blockers_can_wait :: "site \<Rightarrow> workspace \<Rightarrow> bool result" where
  "queued_blockers_can_wait st w =
     (if list_ex (\<lambda>(sta, _). sta = Doing) (blocked_candidates w) then Inr False
      else map_sum id (\<lambda>ts. ts \<noteq> []) (ready_tasks st w))"

definition awaits_retry :: "SupervisorReview option \<Rightarrow> bool" where
  "awaits_retry previous \<longleftrightarrow> (case previous of None \<Rightarrow> False | Some r \<Rightarrow> v_state r = ''retry'')"

definition open_gate :: "'j sup_env \<Rightarrow> int \<Rightarrow> SupervisorReview option \<Rightarrow> (Gate, 'j) sv" where
  "open_gate env pid previous =
     sv_bind (if previous = None then sv_ok () else clear_supervisor_review env pid) (\<lambda>_. sv_ok Gate_normal)"

definition retry_session_of :: "SupervisorReview option \<Rightarrow> str option" where
  "retry_session_of previous = (if awaits_retry previous then Option.bind previous v_retry_session else None)"

text \<open>What an approved retry decides before the evidence is judged, if it decides anything.\<close>

definition approved_retry :: "'j sup_env \<Rightarrow> int \<Rightarrow> SupervisorReview \<Rightarrow> workspace \<Rightarrow> Gate option result" where
  "approved_retry env pid r w =
     (case v_retry_session r of
        None \<Rightarrow> Inr None
      | Some session \<Rightarrow>
          (case linked_tasks w session of
             [(sta, e)] \<Rightarrow>
               if retry_status_available (ws_db w) pid sta session \<and> \<not> task_content_is_blocked (t_content e) then
                 (if task_content_is_stopped (t_content e) \<or> task_content_is_manual (t_content e)
                  then Inr (Some (Gate_hold (lit ''Supervisor-approved task is stopped or manually owned.'')))
                  else if has_sealed_finalization (ws_db w) pid
                  then map_sum id (\<lambda>current. Some (if v_evidence r \<noteq> current then Gate_review else Gate_retry session))
                         (review_evidence env pid w)
                  else Inr (Some (Gate_retry session)))
               else Inr None
           | _ \<Rightarrow> Inr None))"

text \<open>A saved hold of the whole project that only waits is judged again.\<close>

definition held_wait_can_move :: "int \<Rightarrow> SupervisorReview \<Rightarrow> workspace \<Rightarrow> bool result" where
  "held_wait_can_move pid r w =
     (case (v_state r = ''held'' \<and> v_error r = None, v_decision r) of
        (True, Some d) \<Rightarrow>
          if d_kind d \<noteq> Wait then Inr False
          else let cs = review_candidates w pid; i = d_task d - 1 in
            if \<not> i < length cs \<or> fst (cs ! i) \<noteq> Doing then Inr False
            else (case linked_session (snd (cs ! i)) of
                    None \<Rightarrow> Inr False
                  | Some session \<Rightarrow> map_sum id (\<lambda>idle. idle \<and> unsealed_session (ws_db w) pid session)
                                     (retry_session_is_idle (ws_db w) pid session))
      | _ \<Rightarrow> Inr False)"

definition judged_gate :: "SupervisorReview \<Rightarrow> Gate" where
  "judged_gate r =
     (if v_state r = ''pending'' \<or> (v_state r = ''reviewing'' \<and> v_attempts r < MAX_REVIEWS) then Gate_review
      else if v_state r = ''reviewing''
      then Gate_hold (lit ''Supervisor review attempt limit reached; press r to review again.'')
      else Gate_hold (review_message r))"

definition judge_evidence :: "'j sup_env \<Rightarrow> int \<Rightarrow> SupervisorReview option \<Rightarrow> (Gate, 'j) sv" where
  "judge_evidence env pid previous =
     sv_bind (sv_get (\<lambda>v. review_evidence env pid (su_work v))) (\<lambda>current.
     case previous of
       None \<Rightarrow> sv_ok Gate_review
     | Some r \<Rightarrow>
         if v_evidence r \<noteq> current then sv_ok Gate_review
         else if v_state r = ''retry'' then
           sv_ok (case v_retry_session r of Some session \<Rightarrow> Gate_retry session
                  | None \<Rightarrow> Gate_hold (lit ''Supervisor retry has no original session; press r to review again.''))
         else sv_bind (sv_get (\<lambda>v. held_wait_can_move pid r (su_work v))) (\<lambda>upgrade.
           if upgrade then
             sv_bind (save_supervisor_review env pid (r\<lparr>v_state := ''pending'', v_attempts := 0\<rparr>)) (\<lambda>_. sv_ok Gate_review)
           else sv_ok (judged_gate r)))"

definition gate_blocked :: "'j sup_env \<Rightarrow> int \<Rightarrow> bool \<Rightarrow> SupervisorReview option \<Rightarrow> (Gate, 'j) sv" where
  "gate_blocked env pid has_blocked previous =
     sv_bind (sv_get (\<lambda>v. case previous of
                Some r \<Rightarrow> if v_state r = ''retry'' then approved_retry env pid r (su_work v) else Inr None
              | None \<Rightarrow> Inr None)) (\<lambda>decided.
     case decided of
       Some g \<Rightarrow> sv_ok g
     | None \<Rightarrow> if awaits_retry previous \<and> \<not> has_blocked then open_gate env pid previous
               else judge_evidence env pid previous)"

definition gate :: "'j sup_env \<Rightarrow> int \<Rightarrow> bool \<Rightarrow> (Gate, 'j) sv" where
  "gate env pid has_blocked0 =
     sv_bind (sv_get (supervisor_settings env)) (\<lambda>s.
     if \<not> st_enabled s then sv_ok Gate_normal
     else sv_bind (sv_get (supervisor_review env pid)) (\<lambda>previous v.
       let w = su_work v;
           sealed = has_sealed_finalization (ws_db w) pid;
           repeated = repeated_failure_candidates w pid \<noteq> [];
           has_blocked = has_blocked0 \<or> repeated \<or> (sealed \<and> review_candidates w pid \<noteq> [])
       in sv_bind (sv_get (\<lambda>_. if \<not> sealed \<and> \<not> repeated \<and> \<not> awaits_retry previous
                              then queued_blockers_can_wait (se_site env) w else Inr False)) (\<lambda>can_wait.
          if can_wait then open_gate env pid previous
          else sv_bind (sv_get (\<lambda>_. case retry_session_of previous of None \<Rightarrow> Inr True
                                    | Some session \<Rightarrow> retry_session_is_idle (ws_db w) pid session)) (\<lambda>idle.
          if \<not> idle then sv_ok (Gate_hold (lit ''Supervisor-approved task is stopped or owned by another session control; preserve that control.''))
          else if \<not> has_blocked \<and> \<not> awaits_retry previous then open_gate env pid previous
          else gate_blocked env pid has_blocked previous)) v))"

section \<open>Beginning a review\<close>

text \<open>\<^verbatim>\<open>u32\<close> addition wraps in a release build.\<close>

definition new_review :: "str \<Rightarrow> SupervisorReview option \<Rightarrow> SupervisorReview" where
  "new_review current old =
     (let attempts = (case old of Some r \<Rightarrow> if v_evidence r = current then v_attempts r else 0 | None \<Rightarrow> 0) + 1;
          r = \<lparr>v_evidence = current, v_state = ''reviewing'', v_attempts = attempts,
               v_retries = (case old of Some r \<Rightarrow> v_retries r | None \<Rightarrow> 0), v_decision = None, v_retry_session = None, v_error = None\<rparr>
      in if MAX_REVIEWS < attempts then r\<lparr>v_state := ''held'', v_error := Some (lit ''Review attempt limit reached'')\<rparr> else r)"

definition begin_review :: "'j sup_env \<Rightarrow> int \<Rightarrow> (SupervisorReview, 'j) sv" where
  "begin_review env pid =
     sv_bind (sv_get (\<lambda>v. review_evidence env pid (su_work v))) (\<lambda>current.
     sv_bind (sv_get (supervisor_review env pid)) (\<lambda>old.
     let r = new_review current old in
     sv_bind (save_supervisor_review env pid r) (\<lambda>_.
     sv_bind (sv_ensure (\<lambda>_. v_attempts r \<le> MAX_REVIEWS) ''Supervisor review attempt limit reached'') (\<lambda>_.
     sv_ok r))))"

text \<open>The settings a review runs with; it is never given managed Git.\<close>

definition configured_project :: "'j sup_env \<Rightarrow> project_row \<Rightarrow> 'j sup \<Rightarrow> project_row result" where
  "configured_project env p v =
     map_sum id (\<lambda>s. p\<lparr>p_git_mode := Off, p_codex_provider := st_provider s, p_codex_model := st_model s,
                      p_codex_reasoning_effort := st_thinking s, p_codex_fast_enabled := st_fast s\<rparr>)
       (supervisor_settings env v)"

section \<open>Ending a review\<close>

text \<open>A note is put in front of the session marker of a task.\<close>

definition note_before_session :: "str \<Rightarrow> str \<Rightarrow> str \<Rightarrow> string \<Rightarrow> str result" where
  "note_before_session content session note e =
     (case str_rfind content (lit ''codex:'' @ session) of
        None \<Rightarrow> Inl e
      | Some i \<Rightarrow> Inr (trim_end (take i content) @ [10, 10] @ note @ drop i content))"

definition retry_review :: "int \<Rightarrow> workspace \<Rightarrow> TaskEntry \<Rightarrow> SupervisorReview \<Rightarrow> SupervisorReview result" where
  "retry_review pid w e r =
     result_bind (ensure (v_retries r < MAX_RETRIES) ''Supervisor retry budget exhausted; user review is required'') (\<lambda>_.
     result_bind (need ''Cannot retry an unlinked task; a plan or user decision is required'' (linked_session e)) (\<lambda>session.
     result_bind (retry_session_is_idle (ws_db w) pid session) (\<lambda>idle.
     result_bind (ensure idle ''Original task session is busy or stopped'') (\<lambda>_.
     result_bind (ensure (length (linked_tasks w session) = 1) ''Original task session has ambiguous task links'') (\<lambda>_.
     Inr (r\<lparr>v_retry_session := Some session, v_retries := v_retries r + 1, v_state := ''retry''\<rparr>))))))"

text \<open>The review with the decision, and the task it is about.\<close>

definition decided_review ::
  "int \<Rightarrow> workspace \<Rightarrow> SupervisorReview \<Rightarrow> Decision \<Rightarrow> (SupervisorReview \<times> TaskStatus \<times> TaskEntry) result" where
  "decided_review pid w r d =
     result_bind (ensure (trim (d_reason d) \<noteq> [] \<and> trim (d_next_action d) \<noteq> [])
       ''Supervisor must provide its reasoning and an actionable next step'') (\<lambda>_.
     let cs = review_candidates w pid in
     result_bind (ensure (d_task d \<noteq> 0) ''Invalid supervisor task index'') (\<lambda>_.
     result_bind (ensure (d_task d - 1 < length cs) ''Supervisor selected a task outside its evidence'') (\<lambda>_.
     let (sta, e) = cs ! (d_task d - 1) in
     result_bind (if d_kind d = Retry then retry_review pid w e (r\<lparr>v_state := ''held''\<rparr>) else Inr (r\<lparr>v_state := ''held''\<rparr>)) (\<lambda>r'.
     Inr (r'\<lparr>v_decision := Some d, v_error := None\<rparr>, sta, e)))))"

definition wait_note :: "str \<Rightarrow> Decision \<Rightarrow> str" where
  "wait_note today d = lit ''BLOCKED '' @ today @ lit '': Supervisor wait: '' @ d_reason d @ lit '' Next: '' @ d_next_action d @ [32]"

definition can_defer :: "int \<Rightarrow> workspace \<Rightarrow> TaskEntry \<Rightarrow> bool result" where
  "can_defer pid w e =
     (case linked_session e of
        None \<Rightarrow> Inr True
      | Some session \<Rightarrow> map_sum id (\<lambda>idle. idle \<and> unsealed_session (ws_db w) pid session)
                         (retry_session_is_idle (ws_db w) pid session))"

text \<open>The waiting task goes back to Todo with its blocker and its conversation.\<close>

definition defer_waiting :: "'j sup_env \<Rightarrow> int \<Rightarrow> TaskEntry \<Rightarrow> Decision \<Rightarrow> unit ws" where
  "defer_waiting env pid e d =
     ws_bind (ws_get (\<lambda>w. need ''The waiting task changed before deferral'' (position (\<lambda>x. same_entry x e) (entries w Doing)))) (\<lambda>i.
     ws_bind (if task_content_is_blocked (t_content e) then ws_ok ()
              else ws_bind (ws_get (\<lambda>_. need ''A failed runtime task lost its session'' (linked_session e))) (\<lambda>session.
                   ws_bind (ws_get (\<lambda>_. note_before_session (t_content e) session (wait_note (se_today env) d)
                                     ''Waiting task lost its session marker'')) (\<lambda>content.
                   on_board (\<lambda>b. md_write_task_entry_content b Doing e content)))) (\<lambda>_.
     on_board (\<lambda>b. md_move_without_reordering b Doing Todo (i + 1))))"

definition save_with_evidence :: "'j sup_env \<Rightarrow> int \<Rightarrow> SupervisorReview \<Rightarrow> (unit, 'j) sv" where
  "save_with_evidence env pid r =
     sv_bind (sv_get (\<lambda>v. review_evidence env pid (su_work v))) (\<lambda>current.
     save_supervisor_review env pid (r\<lparr>v_evidence := current\<rparr>))"

text \<open>\<open>output\<close> is what the reviewer left in its file.\<close>

definition apply_decision :: "'j sup_env \<Rightarrow> int \<Rightarrow> SupervisorReview \<Rightarrow> TaskStatus \<Rightarrow> TaskEntry \<Rightarrow> Decision \<Rightarrow> (unit, 'j) sv" where
  "apply_decision env pid r sta e d =
     sv_bind (save_supervisor_review env pid r) (\<lambda>_.
     if d_kind d = Wait \<and> sta = Doing then
       sv_bind (sv_get (\<lambda>v. can_defer pid (su_work v) e)) (\<lambda>can.
       if can then sv_bind (on_work (defer_waiting env pid e d)) (\<lambda>_. save_with_evidence env pid r)
       else sv_ok ())
     else sv_ok ())"

definition finish_review :: "'j sup_env \<Rightarrow> int \<Rightarrow> Decision result \<Rightarrow> (str, 'j) sv" where
  "finish_review env pid output =
     sv_bind (sv_get (\<lambda>_. s_lock (se_site env))) (\<lambda>_.
     sv_bind (sv_get (supervisor_settings env)) (\<lambda>s.
     sv_bind (sv_ensure (\<lambda>_. st_enabled s) ''Supervisor was disabled during review; decision was not applied'') (\<lambda>_.
     sv_bind (sv_get (supervisor_review env pid)) (\<lambda>saved.
     sv_bind (sv_get (\<lambda>_. need ''Supervisor review disappeared'' saved)) (\<lambda>r.
     sv_bind (sv_get (\<lambda>v. review_evidence env pid (su_work v))) (\<lambda>current.
     sv_bind (sv_ensure (\<lambda>_. v_evidence r = current)
        ''Project evidence changed during supervisor review; discard this decision and review the new evidence'') (\<lambda>_.
     sv_bind (sv_get (\<lambda>_. output)) (\<lambda>d.
     sv_bind (sv_get (\<lambda>v. decided_review pid (su_work v) r d)) (\<lambda>(r', sta, e).
     sv_bind (apply_decision env pid r' sta e d) (\<lambda>_.
     sv_ok (review_message r')))))))))))"

section \<open>An approved retry\<close>

definition retry_note :: "str \<Rightarrow> str" where
  "retry_note today = lit ''UNBLOCKED '' @ today
     @ lit '': Supervisor approved a concrete new attempt; consult the saved supervisor decision. ''"

definition unblock_retry :: "'j sup_env \<Rightarrow> int \<Rightarrow> str \<Rightarrow> SupervisorReview \<Rightarrow> TaskStatus \<times> TaskEntry \<Rightarrow> (unit, 'j) sv" where
  "unblock_retry env pid session r = (\<lambda>(sta, e).
     if \<not> task_content_is_blocked (t_content e) \<or> sta = Done then sv_ok ()
     else sv_bind (sv_get (\<lambda>_. note_before_session (t_content e) session (retry_note (se_today env))
                         ''Original task session marker disappeared'')) (\<lambda>content.
          sv_bind (on_work (on_board (\<lambda>b. md_write_task_entry_content b sta e content))) (\<lambda>_.
          save_with_evidence env pid r)))"

definition retry_task_available :: "int \<Rightarrow> str \<Rightarrow> TaskStatus \<times> TaskEntry \<Rightarrow> workspace \<Rightarrow> bool" where
  "retry_task_available pid session = (\<lambda>(sta, e) w. retry_status_available (ws_db w) pid sta session
     \<and> \<not> task_content_is_stopped (t_content e) \<and> \<not> task_content_is_manual (t_content e))"

definition prepare_retry :: "'j sup_env \<Rightarrow> int \<Rightarrow> (unit, 'j) sv" where
  "prepare_retry env pid =
     sv_bind (sv_get (\<lambda>_. s_lock (se_site env))) (\<lambda>_.
     sv_bind (sv_get (supervisor_review env pid)) (\<lambda>saved.
     sv_bind (sv_get (\<lambda>_. need ''Supervisor retry decision disappeared'' saved)) (\<lambda>r.
     sv_bind (sv_ensure (\<lambda>_. v_state r = ''retry'' \<and> map_option d_kind (v_decision r) = Some Retry)
        ''No approved supervisor retry exists'') (\<lambda>_.
     sv_bind (sv_get (\<lambda>_. need ''Supervisor retry has no original session'' (v_retry_session r))) (\<lambda>session.
     sv_bind (sv_get (\<lambda>v. retry_session_is_idle (ws_db (su_work v)) pid session)) (\<lambda>idle.
     sv_bind (sv_ensure (\<lambda>_. idle) ''Original retry session is busy or stopped'') (\<lambda>_.
     sv_bind (sv_get (\<lambda>v. case linked_tasks (su_work v) session of [t] \<Rightarrow> Inr t
                          | _ \<Rightarrow> Inl ''Original retry session must belong to exactly one task'')) (\<lambda>t.
     sv_bind (sv_ensure (\<lambda>v. retry_task_available pid session t (su_work v)) ''Supervisor retry task is no longer available'') (\<lambda>_.
     sv_bind (sv_get (\<lambda>v. review_evidence env pid (su_work v))) (\<lambda>current.
     sv_bind (sv_ensure (\<lambda>_. v_evidence r = current) ''Retry evidence changed; a new supervisor review is required'') (\<lambda>_.
     unblock_retry env pid session r t)))))))))))"

definition hold_error :: "'j sup_env \<Rightarrow> int \<Rightarrow> str \<Rightarrow> (unit, 'j) sv" where
  "hold_error env pid e =
     sv_bind (sv_get (supervisor_review env pid)) (\<lambda>saved.
     case saved of None \<Rightarrow> sv_ok ()
     | Some r \<Rightarrow> save_supervisor_review env pid (r\<lparr>v_state := ''held'', v_error := Some e\<rparr>))"

section \<open>After a run\<close>

definition ended_note :: "str \<Rightarrow> string \<Rightarrow> str" where
  "ended_note today run_status = lit ''BLOCKED '' @ today @ lit '': Supervisor-approved attempt ended with '' @ lit run_status
     @ lit ''; review its runtime diagnostics before continuing. ''"

definition block_failed_retry :: "'j sup_env \<Rightarrow> string \<Rightarrow> str \<Rightarrow> unit ws" where
  "block_failed_retry env run_status session =
     ws_bind (ws_get (\<lambda>_. s_lock (se_site env))) (\<lambda>_ w.
     case linked_tasks w session of
       [(sta, e)] \<Rightarrow>
         if status_is_active sta \<and> \<not> task_content_is_blocked (t_content e) then
           ws_bind (ws_get (\<lambda>_. note_before_session (t_content e) session (ended_note (se_today env) run_status)
                             ''Retry task lost its session marker'')) (\<lambda>content.
           on_board (\<lambda>b. md_write_task_entry_content b sta e content)) w
         else (Inr (), w)
     | _ \<Rightarrow> (Inr (), w))"

definition pending_review :: "str \<Rightarrow> SupervisorReview option \<Rightarrow> SupervisorReview" where
  "pending_review current old = \<lparr>v_evidence = current, v_state = ''pending'', v_attempts = 0,
     v_retries = (case old of Some r \<Rightarrow> v_retries r | None \<Rightarrow> 0), v_decision = None, v_retry_session = None, v_error = None\<rparr>"

definition requeue_review :: "'j sup_env \<Rightarrow> int \<Rightarrow> SupervisorReview option \<Rightarrow> (unit, 'j) sv" where
  "requeue_review env pid old v =
     (if review_candidates (su_work v) pid = [] then clear_supervisor_review env pid v
      else sv_bind (sv_get (\<lambda>v. review_evidence env pid (su_work v))) (\<lambda>current.
           save_supervisor_review env pid (pending_review current old)) v)"

definition review_due :: "registry \<Rightarrow> int \<Rightarrow> AgentTaskSelection \<Rightarrow> string \<Rightarrow> bool" where
  "review_due db pid selection run_status \<longleftrightarrow> run_status = ''blocked'' \<or> selection = SupervisorRetry
     \<or> (has_sealed_finalization db pid \<and> run_status \<notin> {''stopped'', ''handoff''})"

definition after_task_run :: "'j sup_env \<Rightarrow> int \<Rightarrow> AgentTaskSelection \<Rightarrow> string \<Rightarrow> (unit, 'j) sv" where
  "after_task_run env pid selection run_status =
     sv_bind (sv_get (supervisor_settings env)) (\<lambda>s v.
     if \<not> st_enabled s \<or> \<not> review_due (ws_db (su_work v)) pid selection run_status then (Inr (), v)
     else sv_bind (sv_get (supervisor_review env pid)) (\<lambda>old.
       if selection = SupervisorRetry \<and> run_status \<in> {''stopped'', ''handoff''} then sv_ok ()
       else sv_bind (case Option.bind old v_retry_session of
                       Some session \<Rightarrow>
                         if selection = SupervisorRetry \<and> run_status \<notin> {''success'', ''blocked''}
                         then on_work (block_failed_retry env run_status session) else sv_ok ()
                     | None \<Rightarrow> sv_ok ()) (\<lambda>_.
            requeue_review env pid old)) v)"

end
