(* ===== verification/Supervisor_Theorems.thy ===== *)
theory Supervisor_Theorems
  imports Supervisor Transition_Systems Fence_Theorems
begin

text \<open>
  What the supervisor may do: its reviews stay within their budgets, it never touches the registry of
  runs, controls and journals, a retry passes the gate only for the approved conversation while
  it is idle, and reviews of unchanged evidence come to an end.
\<close>

section \<open>Programs that keep an invariant\<close>

text \<open>A program keeps \<open>I\<close> whatever it returns, and a value it returns has the property \<open>X\<close>.\<close>

definition sv_keeps :: "('j sup \<Rightarrow> bool) \<Rightarrow> ('a, 'j) sv \<Rightarrow> ('a \<Rightarrow> bool) \<Rightarrow> bool" where
  "sv_keeps I m X \<longleftrightarrow> (\<forall>v r v'. I v \<longrightarrow> m v = (r, v') \<longrightarrow> I v' \<and> (\<forall>x. r = Inr x \<longrightarrow> X x))"

named_theorems sv_rules \<open>rules for programs that keep an invariant\<close>

lemma sv_keepsD: "sv_keeps I m X \<Longrightarrow> I v \<Longrightarrow> m v = (r, v') \<Longrightarrow> I v'"
  by (auto simp: sv_keeps_def)

lemma sv_keeps_result: "sv_keeps I m X \<Longrightarrow> I v \<Longrightarrow> m v = (Inr x, v') \<Longrightarrow> X x"
  by (auto simp: sv_keeps_def)

lemma sv_keeps_bind: "sv_keeps I m X \<Longrightarrow> (\<And>x. X x \<Longrightarrow> sv_keeps I (f x) Y) \<Longrightarrow> sv_keeps I (sv_bind m f) Y"
  unfolding sv_keeps_def [of _ "sv_bind m f"]
proof (intro allI impI)
  fix v r v' assume m: "sv_keeps I m X" and f: "\<And>x. X x \<Longrightarrow> sv_keeps I (f x) Y" and v: "I v" and run: "sv_bind m f v = (r, v')"
  obtain q v1 where q: "m v = (q, v1)" by fastforce
  have "I v1" using sv_keepsD [OF m v q] .
  show "I v' \<and> (\<forall>x. r = Inr x \<longrightarrow> Y x)"
  proof (cases q)
    case (Inl e)
    then show ?thesis using run q \<open>I v1\<close> by (auto simp: sv_bind_def)
  next
    case (Inr x)
    then have "X x" "f x v1 = (r, v')" using sv_keeps_result [OF m v] run q by (auto simp: sv_bind_def)
    then show ?thesis using f [of x] \<open>I v1\<close> unfolding sv_keeps_def by blast
  qed
qed

lemma sv_keeps_get: "(\<And>v x. I v \<Longrightarrow> f v = Inr x \<Longrightarrow> X x) \<Longrightarrow> sv_keeps I (sv_get f) X"
  by (auto simp: sv_keeps_def sv_get_def)

lemma sv_keeps_ensure: "(\<And>v. I v \<Longrightarrow> P v \<Longrightarrow> X ()) \<Longrightarrow> sv_keeps I (sv_ensure P e) X"
  by (auto simp: sv_keeps_def sv_get_def sv_ensure_def ensure_def split: if_splits)

lemma sv_keeps_ok: "X x \<Longrightarrow> sv_keeps I (sv_ok x) X"
  by (simp add: sv_keeps_def sv_ok_def)

lemma sv_keeps_at: "(\<And>v. sv_keeps I (m v) X) \<Longrightarrow> sv_keeps I (\<lambda>v. m v v) X"
  unfolding sv_keeps_def by blast

lemma sv_keeps_if: "(b \<Longrightarrow> sv_keeps I m X) \<Longrightarrow> (\<not> b \<Longrightarrow> sv_keeps I n X) \<Longrightarrow> sv_keeps I (if b then m else n) X"
  by simp

lemma sv_keeps_weaken: "sv_keeps I m X \<Longrightarrow> (\<And>x. X x \<Longrightarrow> Y x) \<Longrightarrow> sv_keeps I m Y"
  unfolding sv_keeps_def by blast

lemma sv_bind_Inr: "sv_bind m f v = (Inr y, v') \<longleftrightarrow> (\<exists>x v1. m v = (Inr x, v1) \<and> f x v1 = (Inr y, v'))"
  by (auto simp: sv_bind_def split: prod.splits sum.splits)

lemma sv_get_Inr [simp]: "sv_get f v = (Inr x, v') \<longleftrightarrow> f v = Inr x \<and> v' = v"
  by (auto simp: sv_get_def)

lemma sv_ok_Inr [simp]: "sv_ok y v = (Inr x, v') \<longleftrightarrow> y = x \<and> v' = v"
  by (auto simp: sv_ok_def)

lemma sv_ensure_Inr [simp]: "sv_ensure P e v = (Inr x, v') \<longleftrightarrow> P v \<and> v' = v"
  by (auto simp: sv_ensure_def)

section \<open>Saved reviews\<close>

text \<open>What a saved review promises.\<close>

definition review_ok :: "SupervisorReview \<Rightarrow> bool" where
  "review_ok r \<longleftrightarrow> v_retries r \<le> MAX_RETRIES
     \<and> (v_state r = ''retry'' \<longrightarrow> 0 < v_retries r \<and> map_option d_kind (v_decision r) = Some Retry
          \<and> v_retry_session r \<noteq> None \<and> v_error r = None)
     \<and> (v_state r = ''pending'' \<longrightarrow> v_attempts r = 0)
     \<and> (v_state r = ''reviewing'' \<longrightarrow> v_attempts r \<le> MAX_REVIEWS)"

text \<open>The library reads back the documents it wrote.\<close>

definition codec_sound :: "'j sup_env \<Rightarrow> bool" where
  "codec_sound env \<longleftrightarrow> (\<forall>r j. se_review_json env r = Inr j \<longrightarrow> se_review_of_json env j = Some r)"

definition sup_inv :: "'j sup_env \<Rightarrow> 'j sup \<Rightarrow> bool" where
  "sup_inv env v \<longleftrightarrow> (\<forall>row \<in> set (su_reviews v). \<forall>r. se_review_of_json env (rv_record row) = Some r \<longrightarrow> review_ok r)"

lemma save_effect:
  assumes "save_supervisor_review env pid r v = (x, v')"
  shows "(case x of
      Inl _ \<Rightarrow> v' = v
    | Inr _ \<Rightarrow> \<exists>j. se_review_json env r = Inr j \<and> \<not> before_supervisor (se_site env) \<and> project_exists (ws_db (su_work v)) pid
        \<and> su_work v' = su_work v \<and> su_settings v' = su_settings v
        \<and> sql_select (\<lambda>x. rv_project x = pid) (su_reviews v')
          = Some \<lparr>rv_project = pid, rv_evidence = v_evidence r, rv_record = j, rv_updated_at = se_now env\<rparr>
        \<and> set (su_reviews v') \<subseteq> insert \<lparr>rv_project = pid, rv_evidence = v_evidence r, rv_record = j, rv_updated_at = se_now env\<rparr> (set (su_reviews v)))"
proof -
  have sel: "sql_exists P t \<Longrightarrow> P row \<Longrightarrow> sql_select P (sql_update P (\<lambda>_. row) t) = Some row" for P and row :: "'a review_row" and t
    by (induction t) (auto simp: sql_exists_def sql_select_def sql_update_def)
  have ins: "\<not> sql_exists P t \<Longrightarrow> P row \<Longrightarrow> sql_select P (sql_insert row t) = Some row" for P and row :: "'a review_row" and t
    by (induction t) (auto simp: sql_exists_def sql_select_def sql_insert_def)
  have sub: "set (sql_update P (\<lambda>_. row) t) \<subseteq> insert row (set t)" "set (sql_insert row t) \<subseteq> insert row (set t)"
    for P and row :: "'a review_row" and t
    by (auto simp: sql_update_def sql_insert_def)
  show ?thesis
    using assms
    by (auto simp: save_supervisor_review_def sv_bind_def sv_get_def sv_ensure_def ensure_def Let_def sel ins
        dest: subsetD [OF sub(1)] subsetD [OF sub(2)] split: sum.splits if_splits)
qed

lemma saved_review:
  assumes "save_supervisor_review env pid r v = (Inr (), v')" "codec_sound env"
  shows "supervisor_review env pid v' = Inr (Some r) \<and> su_work v' = su_work v \<and> su_settings v' = su_settings v"
  using save_effect [OF assms(1)] assms(2) by (auto simp: supervisor_review_def codec_sound_def need_def)

lemma supervisor_review_ok: "sup_inv env v \<Longrightarrow> supervisor_review env pid v = Inr (Some r) \<Longrightarrow> review_ok r"
  by (auto simp: supervisor_review_def sup_inv_def need_def split: if_splits option.splits dest!: sql_select_Some)

lemma save_keeps:
  assumes "codec_sound env" "review_ok r"
  shows "sv_keeps (sup_inv env) (save_supervisor_review env pid r) (\<lambda>_. True)"
  unfolding sv_keeps_def
proof (intro allI impI)
  fix v x v' assume "sup_inv env v" and run: "save_supervisor_review env pid r v = (x, v')"
  then show "sup_inv env v' \<and> (\<forall>y. x = Inr y \<longrightarrow> True)"
    using save_effect [OF run] assms by (fastforce simp: sup_inv_def codec_sound_def split: sum.splits)
qed

lemma clear_keeps: "sv_keeps (sup_inv env) (clear_supervisor_review env pid) (\<lambda>_. True)"
  by (auto simp: sv_keeps_def clear_supervisor_review_def sup_inv_def sql_delete_def split: if_splits)

lemma on_work_keeps: "sv_keeps (sup_inv env) (on_work m) (\<lambda>_. True)"
  by (auto simp: sv_keeps_def on_work_def sup_inv_def split: prod.splits)

section \<open>Every operation keeps the promises of the reviews\<close>

lemma get_keeps: "sv_keeps I (sv_get f) (\<lambda>x. \<exists>v. I v \<and> f v = Inr x)"
  by (rule sv_keeps_get) blast

lemma ensure_keeps: "sv_keeps I (sv_ensure P e) (\<lambda>_. \<exists>v. I v \<and> P v)"
  by (rule sv_keeps_ensure) blast

lemma ok_keeps: "sv_keeps I (sv_ok x) (\<lambda>_. True)"
  by (rule sv_keeps_ok) simp


lemma new_review_ok: "\<forall>r. old = Some r \<longrightarrow> review_ok r \<Longrightarrow> review_ok (new_review current old)"
  by (cases old) (auto simp: new_review_def review_ok_def Let_def MAX_REVIEWS_def MAX_RETRIES_def)

lemma need_saved: "need e saved = Inr r \<Longrightarrow> \<forall>r. saved = Some r \<longrightarrow> review_ok r \<Longrightarrow> review_ok r"
  by simp

lemma retry_review_ok:
  assumes "review_ok r" "retry_review pid w e (r\<lparr>v_state := ''held''\<rparr>) = Inr r'" "d_kind d = Retry"
  shows "review_ok (r'\<lparr>v_decision := Some d, v_error := None\<rparr>)"
proof -
  obtain session where r': "v_retries r < MAX_RETRIES"
    "r' = r\<lparr>v_state := ''held'', v_retry_session := Some session, v_retries := v_retries r + 1, v_state := ''retry''\<rparr>"
    using assms(2) by (auto simp: retry_review_def result_bind_Inr)
  have "v_retries r + 1 \<le> MAX_RETRIES \<and> 0 < v_retries r + 1"
    using r'(1) by (simp add: MAX_RETRIES_def word_less_nat_alt word_le_nat_alt unat_word_ariths)
  then show ?thesis using assms(1,3) by (simp add: r'(2) review_ok_def)
qed

lemma decided_review_Inr:
  assumes "decided_review pid w r d = Inr (r', sta, e)"
  shows "d_task d - 1 < length (review_candidates w pid) \<and> (sta, e) = review_candidates w pid ! (d_task d - 1)
    \<and> trim (d_reason d) \<noteq> [] \<and> trim (d_next_action d) \<noteq> []
    \<and> (if d_kind d = Retry then \<exists>r1. retry_review pid w e (r\<lparr>v_state := ''held''\<rparr>) = Inr r1 \<and> r' = r1\<lparr>v_decision := Some d, v_error := None\<rparr>
       else r' = r\<lparr>v_state := ''held'', v_decision := Some d, v_error := None\<rparr>)"
  using assms by (auto simp: decided_review_def result_bind_Inr Let_def split: prod.splits if_splits)

lemma decided_ok:
  assumes "decided_review pid w r d = Inr (r', sta, e)" "review_ok r"
  shows "review_ok r'"
proof (cases "d_kind d = Retry")
  case True
  then show ?thesis using decided_review_Inr [OF assms(1)] retry_review_ok [OF assms(2)] by auto
next
  case False
  then show ?thesis using decided_review_Inr [OF assms(1)] assms(2) by (simp add: review_ok_def)
qed

text \<open>The operations of the supervisor, whatever they return; clearing a review is also what its owner
  does to have the work judged again, and what removing the project does.\<close>

inductive sup_op :: "'j sup_env \<Rightarrow> 'j sup \<Rightarrow> 'j sup \<Rightarrow> bool" for env where
  op_gate: "gate env pid b v = (x, v') \<Longrightarrow> sup_op env v v'"
| op_begin: "begin_review env pid v = (y, v') \<Longrightarrow> sup_op env v v'"
| op_finish: "finish_review env pid output v = (z, v') \<Longrightarrow> sup_op env v v'"
| op_prepare: "prepare_retry env pid v = (u, v') \<Longrightarrow> sup_op env v v'"
| op_hold: "hold_error env pid msg v = (u, v') \<Longrightarrow> sup_op env v v'"
| op_after: "after_task_run env pid selection run_status v = (u, v') \<Longrightarrow> sup_op env v v'"
| op_settings: "set_supervisor_settings env s v = (u, v') \<Longrightarrow> sup_op env v v'"
| op_clear: "clear_supervisor_review env pid v = (u, v') \<Longrightarrow> sup_op env v v'"

text \<open>What an invariant has to grant about the reviews and the board for the operations to keep it:
  \<open>G\<close> holds for the reviews that are read and is kept by what the operations make of them.\<close>

locale review_program =
  fixes env :: "'j sup_env" and I :: "'j sup \<Rightarrow> bool" and G :: "SupervisorReview \<Rightarrow> bool"
  assumes loaded: "I v \<Longrightarrow> supervisor_review env pid v = Inr (Some r) \<Longrightarrow> G r"
    and saves: "G r \<Longrightarrow> sv_keeps I (save_supervisor_review env pid r) (\<lambda>_. True)"
    and clears: "sv_keeps I (clear_supervisor_review env pid) (\<lambda>_. True)"
    and stores: "sv_keeps I (set_supervisor_settings env s) (\<lambda>_. True)"
    and writes: "sv_keeps I (on_work (on_board f)) (\<lambda>_. True)"
    and defers: "sv_keeps I (on_work (defer_waiting env pid e d)) (\<lambda>_. True)"
    and blocks: "sv_keeps I (on_work (block_failed_retry env run_status session)) (\<lambda>_. True)"
    and G_new: "(\<And>r. old = Some r \<Longrightarrow> G r) \<Longrightarrow> G (new_review current old)"
    and G_pending: "(\<And>r. old = Some r \<Longrightarrow> G r) \<Longrightarrow> G (pending_review current old)"
    and G_again: "G r \<Longrightarrow> G (r\<lparr>v_state := ''pending'', v_attempts := 0\<rparr>)"
    and G_held: "G r \<Longrightarrow> G (r\<lparr>v_state := ''held'', v_error := Some msg\<rparr>)"
    and G_evidence: "G r \<Longrightarrow> G (r\<lparr>v_evidence := current\<rparr>)"
    and G_decided: "decided_review pid w r d = Inr (r', sta, e) \<Longrightarrow> G r \<Longrightarrow> G r'"
begin

lemma load_keeps: "sv_keeps I (sv_get (supervisor_review env pid)) (\<lambda>old. \<forall>r. old = Some r \<longrightarrow> G r)"
  by (rule sv_keeps_get) (auto intro: loaded)

lemmas sv_seq = sv_keeps_bind [OF get_keeps] sv_keeps_bind [OF ensure_keeps] sv_keeps_if ok_keeps clears

lemma open_gate_keeps: "sv_keeps I (open_gate env pid previous) (\<lambda>_. True)"
  unfolding open_gate_def by (rule sv_keeps_bind [where X = "\<lambda>_. True"]) (intro sv_seq)+

lemma judge_keeps:
  assumes old: "\<forall>r. previous = Some r \<longrightarrow> G r"
  shows "sv_keeps I (judge_evidence env pid previous) (\<lambda>_. True)"
proof (cases previous)
  case (Some r)
  have ok: "G (r\<lparr>v_state := ''pending'', v_attempts := 0\<rparr>)"
    using old by (simp add: Some G_again)
  show ?thesis
    unfolding judge_evidence_def Some option.case
    by (intro sv_seq sv_keeps_bind [OF saves [OF ok]])
next
  case None
  show ?thesis unfolding judge_evidence_def None option.case by (intro sv_seq)
qed

lemma gate_keeps:
  "sv_keeps I (gate env pid b) (\<lambda>_. True)"
proof -
  have blocked: "sv_keeps I (gate_blocked env pid hb previous) (\<lambda>_. True)"
    if "\<forall>r. previous = Some r \<longrightarrow> G r" for hb previous
    unfolding gate_blocked_def
    by (intro sv_seq, split option.split) (intro conjI allI impI sv_seq open_gate_keeps judge_keeps [OF that])
  show ?thesis
    unfolding gate_def
    by (rule sv_keeps_bind [OF get_keeps], rule sv_keeps_if, rule ok_keeps, rule sv_keeps_bind [OF load_keeps], rule sv_keeps_at,
        unfold Let_def, intro sv_seq open_gate_keeps blocked)
qed

lemma begin_keeps: "sv_keeps I (begin_review env pid) (\<lambda>_. True)"
  unfolding begin_review_def Let_def
  by (intro sv_keeps_bind [OF get_keeps] sv_keeps_bind [OF load_keeps] sv_keeps_bind [OF saves [OF G_new]]
      sv_keeps_bind [OF ensure_keeps] ok_keeps) blast

lemma save_with_evidence_keeps:
  assumes r: "G r"
  shows "sv_keeps I (save_with_evidence env pid r) (\<lambda>_. True)"
  unfolding save_with_evidence_def by (intro sv_seq saves G_evidence r)

lemma apply_decision_keeps:
  assumes r: "G r"
  shows "sv_keeps I (apply_decision env pid r sta e d) (\<lambda>_. True)"
  unfolding apply_decision_def
  by (intro sv_keeps_bind [OF saves [OF r]] sv_seq sv_keeps_bind [OF defers] save_with_evidence_keeps [OF r])

lemma finish_keeps: "sv_keeps I (finish_review env pid output) (\<lambda>_. True)"
proof -
  have last: "sv_keeps I (sv_bind (sv_get (\<lambda>v. decided_review pid (su_work v) r d)) (\<lambda>(r', sta, e).
     sv_bind (apply_decision env pid r' sta e d) (\<lambda>_. sv_ok (review_message r')))) (\<lambda>_. True)" if "G r" for r d
  proof (rule sv_keeps_bind [OF get_keeps])
    fix x assume "\<exists>v. I v \<and> decided_review pid (su_work v) r d = Inr x"
    then have "G (fst x)" using G_decided that by (cases x) auto
    then show "sv_keeps I (case x of (r', sta, e) \<Rightarrow> sv_bind (apply_decision env pid r' sta e d) (\<lambda>_. sv_ok (review_message r'))) (\<lambda>_. True)"
      by (cases x) (auto intro!: sv_keeps_bind [OF apply_decision_keeps] ok_keeps)
  qed
  show ?thesis
    unfolding finish_review_def
    by (intro sv_keeps_bind [OF get_keeps] sv_keeps_bind [OF load_keeps] sv_keeps_bind [OF ensure_keeps] last) auto
qed

lemma unblock_keeps:
  assumes r: "G r"
  shows "sv_keeps I (unblock_retry env pid session r t) (\<lambda>_. True)"
  unfolding unblock_retry_def
  by (cases t) (auto intro!: sv_seq sv_keeps_bind [OF writes] save_with_evidence_keeps [OF r])

lemma prepare_keeps: "sv_keeps I (prepare_retry env pid) (\<lambda>_. True)"
  unfolding prepare_retry_def
  by (intro sv_keeps_bind [OF get_keeps] sv_keeps_bind [OF load_keeps] sv_keeps_bind [OF ensure_keeps] unblock_keeps) auto

lemma hold_keeps: "sv_keeps I (hold_error env pid msg) (\<lambda>_. True)"
  unfolding hold_error_def
  by (intro sv_keeps_bind [OF load_keeps]) (auto split: option.split intro!: ok_keeps saves G_held)

lemma requeue_keeps:
  assumes old: "\<forall>r. old = Some r \<longrightarrow> G r"
  shows "sv_keeps I (requeue_review env pid old) (\<lambda>_. True)"
proof -
  have ok: "G (pending_review current old)" for current
    using old by (intro G_pending) simp
  have "sv_keeps I (\<lambda>v. if b v then clear_supervisor_review env pid v else m v) (\<lambda>_. True)"
    if "sv_keeps I m (\<lambda>_. True)" for b and m :: "(unit, 'j) sv"
    using that clears unfolding sv_keeps_def by (metis (full_types))
  note either = this
  show ?thesis unfolding requeue_review_def by (rule either, intro sv_seq saves [OF ok])
qed

lemma after_keeps: "sv_keeps I (after_task_run env pid selection run_status) (\<lambda>_. True)"
proof -
  have "sv_keeps I (\<lambda>v. if b v then (Inr (), v) else m v) (\<lambda>_. True)"
    if "sv_keeps I m (\<lambda>_. True)" for b and m :: "(unit, 'j) sv"
    using that unfolding sv_keeps_def by simp
  note skip = this
  show ?thesis
    unfolding after_task_run_def
    by (rule sv_keeps_bind [OF get_keeps], rule skip, rule sv_keeps_bind [OF load_keeps])
       (auto split: option.split intro!: sv_keeps_bind [where X = "\<lambda>_. True"] ok_keeps blocks requeue_keeps)
qed

lemma op_keeps: "sup_op env v v' \<Longrightarrow> I v \<Longrightarrow> I v'"
  by (induction rule: sup_op.induct)
     (blast intro: sv_keepsD [OF gate_keeps] sv_keepsD [OF begin_keeps] sv_keepsD [OF finish_keeps] sv_keepsD [OF prepare_keeps]
        sv_keepsD [OF hold_keeps] sv_keepsD [OF after_keeps] sv_keepsD [OF stores] sv_keepsD [OF clears])+

end

section \<open>The registry and the promises as invariants\<close>

lemma promise_keeps:
  "(codec_sound env \<Longrightarrow> sv_keeps (sup_inv env) m X) \<Longrightarrow> sv_keeps (\<lambda>v. codec_sound env \<and> sup_inv env v) m X"
  unfolding sv_keeps_def by blast

lemma settings_effect:
  "set_supervisor_settings env s v = (x, v') \<Longrightarrow> su_work v' = su_work v \<and> su_reviews v' = su_reviews v"
  by (auto simp: set_supervisor_settings_def sv_bind_def sv_get_def sv_ensure_def ensure_def split: sum.splits if_splits)

lemma registry_of_work: "keeps same_registry m \<Longrightarrow> sv_keeps (\<lambda>v. ws_db (su_work v) = db) (on_work m) (\<lambda>_. True)"
  by (auto simp: sv_keeps_def on_work_def same_registry_def keeps_def split: prod.splits) (metis snd_conv)

lemma defer_keeps_registry: "keeps same_registry (defer_waiting env pid e d)"
  unfolding defer_waiting_def by (intro db_kept)

lemma block_keeps_registry: "keeps same_registry (block_failed_retry env run_status session)"
proof -
  have "keeps same_registry (\<lambda>w. case linked_tasks w session of
       [(sta, e)] \<Rightarrow>
         if status_is_active sta \<and> \<not> task_content_is_blocked (t_content e) then
           ws_bind (ws_get (\<lambda>_. note_before_session (t_content e) session (ended_note (se_today env) run_status)
                             ''Retry task lost its session marker'')) (\<lambda>content.
           on_board (\<lambda>b. md_write_task_entry_content b sta e content)) w
         else (Inr (), w)
     | _ \<Rightarrow> (Inr (), w))"
    by (auto simp: keeps_def same_registry_def ws_bind_def ws_get_def on_board_def split: list.split prod.split sum.split)
  then show ?thesis unfolding block_failed_retry_def by (intro db_kept)
qed

lemma write_keeps_registry: "keeps same_registry (on_board f)"
  by (intro db_kept)

lemma review_ok_updates:
  "review_ok r \<Longrightarrow> review_ok (r\<lparr>v_state := ''pending'', v_attempts := 0\<rparr>)"
  "review_ok r \<Longrightarrow> review_ok (r\<lparr>v_state := ''held'', v_error := Some msg\<rparr>)"
  "review_ok r \<Longrightarrow> review_ok (r\<lparr>v_evidence := current\<rparr>)"
  by (simp_all add: review_ok_def)

interpretation promises: review_program env "\<lambda>v. codec_sound env \<and> sup_inv env v" review_ok
  for env :: "'j sup_env"
proof unfold_locales
  show "sv_keeps (\<lambda>v. codec_sound env \<and> sup_inv env v) (set_supervisor_settings env s) (\<lambda>_. True)" for s
    by (rule promise_keeps) (auto simp: sv_keeps_def sup_inv_def dest: settings_effect)
  show "review_ok (new_review current old)" if "\<And>r. old = Some r \<Longrightarrow> review_ok r" for current old
    using new_review_ok that by blast
  show "review_ok (pending_review current old)" if "\<And>r. old = Some r \<Longrightarrow> review_ok r" for current old
    using that by (cases old) (simp_all add: pending_review_def review_ok_def)
qed (auto intro: supervisor_review_ok promise_keeps save_keeps clear_keeps on_work_keeps decided_ok review_ok_updates)

interpretation kept_registry: review_program env "\<lambda>v. ws_db (su_work v) = db" "\<lambda>_. True"
  for env :: "'j sup_env" and db
proof unfold_locales
  show "sv_keeps (\<lambda>v. ws_db (su_work v) = db) (save_supervisor_review env pid r) (\<lambda>_. True)" for pid r
    unfolding sv_keeps_def by (auto dest!: save_effect split: sum.splits)
  show "sv_keeps (\<lambda>v. ws_db (su_work v) = db) (clear_supervisor_review env pid) (\<lambda>_. True)" for pid
    by (auto simp: sv_keeps_def clear_supervisor_review_def)
  show "sv_keeps (\<lambda>v. ws_db (su_work v) = db) (set_supervisor_settings env s) (\<lambda>_. True)" for s
    by (auto simp: sv_keeps_def dest: settings_effect)
qed (simp_all add: registry_of_work defer_keeps_registry block_keeps_registry write_keeps_registry)

section \<open>Reachable states\<close>

text \<open>Anything else may change the board and the registry between two operations.\<close>

inductive sup_step :: "'j sup_env \<Rightarrow> 'j sup \<Rightarrow> 'j sup \<Rightarrow> bool" for env where
  step_op: "sup_op env v v' \<Longrightarrow> sup_step env v v'"
| step_work: "sup_step env v (v\<lparr>su_work := w\<rparr>)"

definition no_reviews :: "'j sup_env \<Rightarrow> 'j sup \<Rightarrow> bool" where
  "no_reviews env v \<longleftrightarrow> codec_sound env \<and> su_reviews v = []"

interpretation supervised: invariant_system "no_reviews env" "sup_step env" "\<lambda>v. codec_sound env \<and> sup_inv env v"
  for env :: "'j sup_env"
proof
  show "no_reviews env v \<Longrightarrow> codec_sound env \<and> sup_inv env v" for v by (simp add: no_reviews_def sup_inv_def)
  show "codec_sound env \<and> sup_inv env v \<Longrightarrow> sup_step env v v' \<Longrightarrow> codec_sound env \<and> sup_inv env v'" for v v'
    by (erule sup_step.cases) (auto dest: promises.op_keeps simp: sup_inv_def)
qed

text \<open>C23: whatever sequence of gates, reviews, retries, runs, errors and foreign changes of the board and
  the registry leads to it, a saved review has used at most two retries; one in state retry
  approves exactly a retry of a named conversation, a pending one counts no attempt, and one
  under review at most two.\<close>

theorem supervisor_reviews_bounded:
  assumes "reach (no_reviews env) (sup_step env) v" and "supervisor_review env pid v = Inr (Some r)"
  shows "v_retries r \<le> 2
    \<and> (v_state r = ''retry'' \<longrightarrow> 0 < v_retries r \<and> (\<exists>d. v_decision r = Some d \<and> d_kind d = Retry)
         \<and> (\<exists>session. v_retry_session r = Some session) \<and> v_error r = None)
    \<and> (v_state r = ''pending'' \<longrightarrow> v_attempts r = 0)
    \<and> (v_state r = ''reviewing'' \<longrightarrow> v_attempts r \<le> 2)"
  using supervisor_review_ok [OF _ assms(2)] supervised.reach_inv [OF assms(1)]
  by (auto simp: review_ok_def MAX_RETRIES_def MAX_REVIEWS_def)

text \<open>No operation of the supervisor, whatever it returns, changes the registry: session controls,
  journals, runs and leases stay as their owners left them.\<close>

theorem supervisor_keeps_registry:
  assumes "sup_op env v v'"
  shows "ws_db (su_work v') = ws_db (su_work v)"
  using kept_registry.op_keeps [OF assms, of "ws_db (su_work v)"] by simp

section \<open>The gate\<close>

lemma gate_opened: "open_gate env pid previous v = (Inr g, v') \<Longrightarrow> g = Gate_normal"
  by (auto simp: open_gate_def sv_bind_Inr split: if_splits)

lemma judged_not_retry: "judged_gate r \<noteq> Gate_retry s"
  by (simp add: judged_gate_def)

lemma judge_retry:
  assumes "judge_evidence env pid previous v = (Inr (Gate_retry s), v')"
  shows "v' = v \<and> (\<exists>r. previous = Some r \<and> v_state r = ''retry'' \<and> v_retry_session r = Some s)"
  using assms judged_not_retry
  by (auto simp: judge_evidence_def sv_bind_Inr split: option.splits if_splits)

lemma approved_Some: "approved_retry env pid r w = Inr (Some (Gate_retry s)) \<Longrightarrow> v_retry_session r = Some s"
  by (auto simp: approved_retry_def map_sum_Inr split: option.splits list.splits prod.splits if_splits)

text \<open>C24: the gate lets a retry pass only when the supervisor is enabled, the saved decision approves
  exactly this conversation, and its control is idle: a queued resume without process, terminal
  or launch, or none.\<close>

theorem gate_retry_authorized:
  assumes "reach (no_reviews env) (sup_step env) v" and run: "gate env pid b v = (Inr (Gate_retry s), v')"
  shows "v' = v \<and> (\<exists>st. supervisor_settings env v = Inr st \<and> st_enabled st)
    \<and> (\<exists>r d. supervisor_review env pid v = Inr (Some r) \<and> v_state r = ''retry'' \<and> v_retry_session r = Some s
         \<and> v_decision r = Some d \<and> d_kind d = Retry \<and> v_retries r \<le> 2)
    \<and> retry_session_is_idle (ws_db (su_work v)) pid s = Inr True"
proof -
  obtain st previous hb where s: "supervisor_settings env v = Inr st" "st_enabled st"
    and p: "supervisor_review env pid v = Inr previous"
    and idle: "case retry_session_of previous of None \<Rightarrow> True
        | Some session \<Rightarrow> retry_session_is_idle (ws_db (su_work v)) pid session = Inr True"
    and g: "gate_blocked env pid hb previous v = (Inr (Gate_retry s), v')"
    using run gate_opened by (fastforce simp: gate_def Let_def sv_bind_Inr split: if_splits option.splits)
  have "v' = v \<and> (\<exists>r. previous = Some r \<and> v_state r = ''retry'' \<and> v_retry_session r = Some s)"
    using g gate_opened judge_retry approved_Some
    by (fastforce simp: gate_blocked_def sv_bind_Inr split: option.splits if_splits)
  then obtain r where r: "v' = v" "previous = Some r" "v_state r = ''retry''" "v_retry_session r = Some s" by blast
  have "review_ok r" using supervisor_review_ok [of env v pid r] supervised.reach_inv [OF assms(1)] p r(2) by simp
  then show ?thesis using s p r idle by (auto simp: review_ok_def MAX_RETRIES_def retry_session_of_def awaits_retry_def)
qed

section \<open>Reviews come to an end\<close>

text \<open>The saved review under which the gate asks for one.\<close>

definition review_needed :: "str \<Rightarrow> SupervisorReview option \<Rightarrow> bool" where
  "review_needed current previous \<longleftrightarrow> (case previous of None \<Rightarrow> True
     | Some r \<Rightarrow> v_evidence r \<noteq> current \<or> v_state r = ''pending'' \<or> (v_state r = ''reviewing'' \<and> v_attempts r < MAX_REVIEWS))"

lemma judge_review:
  assumes "codec_sound env" "judge_evidence env pid previous v = (Inr Gate_review, v')" "supervisor_review env pid v = Inr previous"
  shows "\<exists>current. review_evidence env pid (su_work v) = Inr current \<and> su_work v' = su_work v
    \<and> (v' = v \<and> review_needed current previous
       \<or> (\<exists>r. previous = Some r \<and> v_state r = ''held''
            \<and> supervisor_review env pid v' = Inr (Some (r\<lparr>v_state := ''pending'', v_attempts := 0\<rparr>))))"
proof (cases previous)
  case None
  then show ?thesis using assms(2) by (auto simp: judge_evidence_def sv_bind_Inr review_needed_def)
next
  case (Some r)
  obtain current where e: "review_evidence env pid (su_work v) = Inr current"
    using assms(2) by (auto simp: judge_evidence_def sv_bind_Inr)
  consider (moved) "v_evidence r \<noteq> current" "v' = v"
    | (judged) "judged_gate r = Gate_review" "v' = v"
    | (upgraded) "held_wait_can_move pid r (su_work v) = Inr True"
        "save_supervisor_review env pid (r\<lparr>v_state := ''pending'', v_attempts := 0\<rparr>) v = (Inr (), v')"
    using assms(2) e by (auto simp: judge_evidence_def sv_bind_Inr Some split: if_splits option.splits)
  then show ?thesis
  proof cases
    case upgraded
    then have "v_state r = ''held''" by (auto simp: held_wait_can_move_def split: bool.splits)
    then show ?thesis using saved_review [OF upgraded(2) assms(1)] e Some by auto
  qed (use e Some in \<open>auto simp: review_needed_def judged_gate_def split: if_splits\<close>)
qed

lemma approved_review: "approved_retry env pid r w = Inr (Some Gate_review) \<Longrightarrow>
   \<exists>current. review_evidence env pid w = Inr current \<and> v_evidence r \<noteq> current"
  by (auto simp: approved_retry_def map_sum_Inr split: option.splits list.splits prod.splits if_splits)

lemma gate_review:
  assumes "codec_sound env" "gate env pid b v = (Inr Gate_review, v')"
  obtains current previous where "\<not> before_supervisor (se_site env)"
    and "review_evidence env pid (su_work v) = Inr current" and "su_work v' = su_work v"
    and "supervisor_review env pid v = Inr previous"
    and "v' = v \<and> review_needed current previous
       \<or> (\<exists>r. previous = Some r \<and> v_state r = ''held''
            \<and> supervisor_review env pid v' = Inr (Some (r\<lparr>v_state := ''pending'', v_attempts := 0\<rparr>)))"
proof -
  obtain st previous hb where s: "supervisor_settings env v = Inr st" "st_enabled st"
    and p: "supervisor_review env pid v = Inr previous"
    and g: "gate_blocked env pid hb previous v = (Inr Gate_review, v')"
    using assms(2) gate_opened by (fastforce simp: gate_def Let_def sv_bind_Inr split: if_splits option.splits)
  have nb: "\<not> before_supervisor (se_site env)"
    using s by (auto simp: supervisor_settings_def default_supervisor_settings_def)
  obtain decided where d: "(case previous of
                Some r \<Rightarrow> if v_state r = ''retry'' then approved_retry env pid r (su_work v) else Inr None
              | None \<Rightarrow> Inr None) = Inr decided"
    and rest: "(case decided of Some g \<Rightarrow> sv_ok g
     | None \<Rightarrow> if awaits_retry previous \<and> \<not> hb then open_gate env pid previous else judge_evidence env pid previous) v = (Inr Gate_review, v')"
    using g by (auto simp: gate_blocked_def sv_bind_Inr)
  show ?thesis
  proof (cases decided)
    case None
    then have "judge_evidence env pid previous v = (Inr Gate_review, v')"
      using rest gate_opened by (fastforce split: if_splits)
    from judge_review [OF assms(1) this p] show ?thesis using that [OF nb _ _ p] by blast
  next
    case (Some x)
    then obtain r where r: "previous = Some r" "approved_retry env pid r (su_work v) = Inr (Some Gate_review)" "v' = v"
      using d rest by (auto split: option.splits if_splits)
    from approved_review [OF r(2)] show ?thesis using that [OF nb _ _ p] r by (auto simp: review_needed_def)
  qed
qed

text \<open>The attempts a review begins with when the gate asked for it.\<close>

lemma needed_attempts:
  assumes "review_needed current previous" "\<forall>r. previous = Some r \<longrightarrow> review_ok r"
  shows "v_attempts (new_review current previous) \<le> MAX_REVIEWS \<and> 0 < v_attempts (new_review current previous)
    \<and> v_state (new_review current previous) = ''reviewing'' \<and> v_evidence (new_review current previous) = current
    \<and> (\<forall>r. previous = Some r \<longrightarrow> v_evidence r = current \<longrightarrow> v_attempts (new_review current previous) = v_attempts r + 1 \<and> v_attempts r < 2)"
proof -
  have small: "a + 1 \<le> 2 \<and> 0 < a + 1" if "a < 2" for a :: "32 word"
    using that by (simp add: word_less_nat_alt word_le_nat_alt unat_word_ariths)
  show ?thesis
    using assms small
    by (cases previous) (auto simp: review_needed_def new_review_def review_ok_def MAX_REVIEWS_def Let_def linorder_not_less
        split: if_splits)
qed

lemma begin_after_gate:
  assumes "codec_sound env" "sup_inv env v" and g: "gate env pid b v = (Inr Gate_review, v')"
  obtains current old where "review_evidence env pid (su_work v') = Inr current" and "supervisor_review env pid v' = Inr old"
    and "review_needed current old" and "\<forall>r. old = Some r \<longrightarrow> review_ok r" and "su_work v' = su_work v"
    and "\<not> before_supervisor (se_site env)"
    and "\<forall>r. supervisor_review env pid v = Inr (Some r) \<longrightarrow> v_state r = ''reviewing'' \<longrightarrow> v' = v \<and> old = Some r"
proof -
  have inv: "sup_inv env v'"
    using promises.op_keeps [OF op_gate [OF g]] assms(1,2) by blast
  obtain current previous where f: "\<not> before_supervisor (se_site env)" "review_evidence env pid (su_work v) = Inr current"
    "su_work v' = su_work v" "supervisor_review env pid v = Inr previous"
    and or: "v' = v \<and> review_needed current previous
       \<or> (\<exists>r. previous = Some r \<and> v_state r = ''held''
            \<and> supervisor_review env pid v' = Inr (Some (r\<lparr>v_state := ''pending'', v_attempts := 0\<rparr>)))"
    by (rule gate_review [OF assms(1) g])
  obtain old where old: "supervisor_review env pid v' = Inr old" "review_needed current old"
    "v' = v \<and> old = previous \<or> (\<exists>r. previous = Some r \<and> v_state r = ''held'')"
    using or f(4) by (auto simp: review_needed_def)
  have "\<forall>r. old = Some r \<longrightarrow> review_ok r" using supervisor_review_ok [OF inv] old(1) by blast
  then show ?thesis using that [of current old] f old by auto
qed

text \<open>A review the gate asks for begins: the review that is saved is under review, of the present
  evidence, within its attempts, and nothing of the project has changed.\<close>

theorem gate_review_begins:
  assumes "reach (no_reviews env) (sup_step env) v" and writes: "\<And>r. \<exists>j. se_review_json env r = Inr j"
    and "project_exists (ws_db (su_work v)) pid" and g: "gate env pid b v = (Inr Gate_review, v')"
  shows "\<exists>r v''. begin_review env pid v' = (Inr r, v'') \<and> supervisor_review env pid v'' = Inr (Some r)
    \<and> v_state r = ''reviewing'' \<and> 0 < v_attempts r \<and> v_attempts r \<le> 2
    \<and> review_evidence env pid (su_work v'') = Inr (v_evidence r) \<and> su_work v'' = su_work v"
proof -
  have inv: "codec_sound env" "sup_inv env v" using supervised.reach_inv [OF assms(1)] by blast+
  obtain current old where c: "review_evidence env pid (su_work v') = Inr current" "supervisor_review env pid v' = Inr old"
    "review_needed current old" "\<forall>r. old = Some r \<longrightarrow> review_ok r" "su_work v' = su_work v" "\<not> before_supervisor (se_site env)"
    by (rule begin_after_gate [OF inv g])
  let ?r = "new_review current old"
  note n = needed_attempts [OF c(3,4)]
  obtain j where j: "se_review_json env ?r = Inr j" using writes by blast
  obtain x v'' where run: "save_supervisor_review env pid ?r v' = (x, v'')" by fastforce
  have "x = Inr ()"
    using run j c(5,6) assms(3) by (simp add: save_supervisor_review_def sv_bind_def sv_get_def sv_ensure_def ensure_def Let_def split: if_splits)
  then have saved: "save_supervisor_review env pid ?r v' = (Inr (), v'')" using run by simp
  have "begin_review env pid v' = (Inr ?r, v'')"
    using c(1,2) saved n by (simp add: begin_review_def sv_bind_def sv_get_def sv_ensure_def ensure_def sv_ok_def Let_def)
  then show ?thesis
    using saved_review [OF saved inv(1)] n c(1,5) by (auto simp: MAX_REVIEWS_def intro!: exI [of _ ?r] exI [of _ v''])
qed

text \<open>The reviews that \<open>n\<close> rounds of gate and review begin while nothing else changes.\<close>

fun review_rounds :: "'j sup_env \<Rightarrow> int \<Rightarrow> bool \<Rightarrow> nat \<Rightarrow> 'j sup \<Rightarrow> nat" where
  "review_rounds env pid b 0 v = 0"
| "review_rounds env pid b (Suc n) v =
     (case gate env pid b v of
        (Inr Gate_review, v1) \<Rightarrow>
          (case begin_review env pid v1 of
             (Inr _, v2) \<Rightarrow> Suc (review_rounds env pid b n v2)
           | _ \<Rightarrow> 0)
      | _ \<Rightarrow> 0)"

lemma begun:
  assumes "codec_sound env" "begin_review env pid v = (Inr r, v')" "review_evidence env pid (su_work v) = Inr current"
    "supervisor_review env pid v = Inr old"
  shows "r = new_review current old \<and> supervisor_review env pid v' = Inr (Some r) \<and> su_work v' = su_work v"
proof -
  have "save_supervisor_review env pid (new_review current old) v = (Inr (), v') \<and> r = new_review current old"
    using assms(2-4) by (auto simp: begin_review_def sv_bind_Inr Let_def)
  then show ?thesis using saved_review [OF _ assms(1)] by blast
qed

lemma unat_Suc: "a < 2 \<Longrightarrow> unat (a + 1) = unat a + 1" for a :: "32 word"
  by (simp add: word_less_nat_alt unat_word_ariths)

lemma rounds_after:
  assumes "codec_sound env"
  shows "sup_inv env v \<Longrightarrow> supervisor_review env pid v = Inr (Some r) \<Longrightarrow> v_state r = ''reviewing'' \<Longrightarrow>
    review_evidence env pid (su_work v) = Inr (v_evidence r) \<Longrightarrow> review_rounds env pid b n v + unat (v_attempts r) \<le> 2"
proof (induction n arbitrary: v r)
  case 0
  then show ?case using supervisor_review_ok [OF 0(1,2)] by (simp add: review_ok_def MAX_REVIEWS_def word_le_nat_alt)
next
  case (Suc n)
  have le: "unat (v_attempts r) \<le> 2"
    using supervisor_review_ok [OF Suc.prems(1,2)] Suc.prems(3) by (simp add: review_ok_def MAX_REVIEWS_def word_le_nat_alt)
  show ?case
  proof (cases "\<exists>v1 r2 v2. gate env pid b v = (Inr Gate_review, v1) \<and> begin_review env pid v1 = (Inr r2, v2)")
    case True
    then obtain v1 r2 v2 where g: "gate env pid b v = (Inr Gate_review, v1)" and bg: "begin_review env pid v1 = (Inr r2, v2)" by blast
    obtain current old where c: "review_evidence env pid (su_work v1) = Inr current" "supervisor_review env pid v1 = Inr old"
      "review_needed current old" "\<forall>r. old = Some r \<longrightarrow> review_ok r" "su_work v1 = su_work v" "\<not> before_supervisor (se_site env)"
      and same: "\<forall>r. supervisor_review env pid v = Inr (Some r) \<longrightarrow> v_state r = ''reviewing'' \<longrightarrow> v1 = v \<and> old = Some r"
      by (rule begin_after_gate [OF assms Suc.prems(1) g])
    have o: "old = Some r" "current = v_evidence r" using same Suc.prems c(1,5) by auto
    note n = needed_attempts [OF c(3,4)] and b = begun [OF assms bg c(1,2)]
    have a: "v_attempts r2 = v_attempts r + 1" "v_attempts r < 2" using n b o by auto
    have inv: "sup_inv env v2"
      using promises.op_keeps [OF op_begin [OF bg]] promises.op_keeps [OF op_gate [OF g]] Suc.prems(1) assms by blast
    have "review_rounds env pid b n v2 + unat (v_attempts r2) \<le> 2"
      by (rule Suc.IH [OF inv]) (use b n c in auto)
    then show ?thesis using g bg a unat_Suc by simp
  next
    case False
    then have "review_rounds env pid b (Suc n) v = 0" by (auto split: prod.splits sum.splits Gate.splits)
    then show ?thesis using le by simp
  qed
qed

text \<open>C25: while the evidence does not change, the cycle of gate and review ends: however often it is
  repeated, at most two reviews begin.\<close>

theorem review_rounds_end:
  assumes "reach (no_reviews env) (sup_step env) v"
  shows "review_rounds env pid b n v \<le> 2"
proof (cases n)
  case (Suc m)
  have inv: "codec_sound env" "sup_inv env v" using supervised.reach_inv [OF assms] by blast+
  show ?thesis
  proof (cases "\<exists>v1 r v2. gate env pid b v = (Inr Gate_review, v1) \<and> begin_review env pid v1 = (Inr r, v2)")
    case True
    then obtain v1 r v2 where g: "gate env pid b v = (Inr Gate_review, v1)" and bg: "begin_review env pid v1 = (Inr r, v2)" by blast
    obtain current old where c: "review_evidence env pid (su_work v1) = Inr current" "supervisor_review env pid v1 = Inr old"
      "review_needed current old" "\<forall>r. old = Some r \<longrightarrow> review_ok r" "su_work v1 = su_work v" "\<not> before_supervisor (se_site env)"
      by (rule begin_after_gate [OF inv g])
    note n = needed_attempts [OF c(3,4)] and b = begun [OF inv(1) bg c(1,2)]
    have "sup_inv env v2"
      using promises.op_keeps [OF op_begin [OF bg]] promises.op_keeps [OF op_gate [OF g]] inv by blast
    from rounds_after [OF inv(1) this, of pid r b m] n b c
    have "review_rounds env pid b m v2 + unat (v_attempts r) \<le> 2" by auto
    moreover have "0 < unat (v_attempts r)" using n b by (simp add: word_less_nat_alt)
    ultimately show ?thesis using g bg Suc by simp
  next
    case False
    then show ?thesis using Suc by (auto split: prod.splits sum.splits Gate.splits)
  qed
qed simp

section \<open>The end of a review\<close>


end
