(* ===== verification/Supervisor_Examples.thy ===== *)
theory Supervisor_Examples
  imports Supervisor_Theorems Completion_Theorems
begin

text \<open>
  A project with one blocked task in Doing under an enabled supervisor: the gate asks for a review,
  the review begins and approves a retry, and the gate lets the retry pass.  Every theorem on the
  supervisor is applied to a state of this run.
\<close>

section \<open>A blocked task under review\<close>

definition demo_blocked_text :: str where "demo_blocked_text = lit ''two BLOCKED 2024-01-01: no codex:s1''"

lemma blocked_session: "codex_session_id_from_task_content demo_blocked_text = Some (lit ''s1'')"
  by (simp add: codex_session_id_from_task_content_def demo_blocked_text_def note_eval)

lemma blocked_marks: "\<not> task_content_is_stopped demo_blocked_text" "\<not> task_content_is_manual demo_blocked_text"
  by (simp_all add: task_content_is_stopped_def task_content_is_manual_def demo_blocked_text_def note_eval)

lemma blocked_link: "recoverable_codex_session_id_from_task_content demo_blocked_text = Some (lit ''s1'')"
  by (simp add: recoverable_codex_session_id_from_task_content_def task_content_without_stop_marker_def blocked_session blocked_marks)

lemma blocked_blocked: "task_content_is_blocked demo_blocked_text"
proof -
  have up: "to_ascii_uppercase demo_blocked_text = lit ''TWO BLOCKED 2024-01-01: NO CODEX:S1''"
    by (simp add: demo_blocked_text_def note_eval)
  have ls: "split_inclusive_nl demo_blocked_text = [demo_blocked_text]"
    by (simp add: demo_blocked_text_def note_eval)
  have "latest_task_blocking_note_on_line demo_blocked_text = Some (4, Blocked)"
    by (simp add: latest_task_blocking_note_on_line_def up note_markers_def text_eval match_indices_def word_boundary_before_def
        starts_with_task_note_date_def) (simp add: demo_blocked_text_def text_eval match_indices_def word_boundary_before_def
        starts_with_task_note_date_def)?
  then show ?thesis
    by (simp add: task_content_is_blocked_def task_blocking_note_def ls)
qed

definition demo_blocked_work :: workspace where
  "demo_blocked_work = \<lparr>ws_db = demo_init, ws_board = (\<lambda>sta. if sta = Doing then TASK_PREFIX @ demo_blocked_text else []),
     ws_archive = []\<rparr>"

definition demo_blocked_entry :: TaskEntry where
  "demo_blocked_entry = task_entry_from_text (MarkdownLine 0) demo_blocked_text demo_blocked_text False"

definition demo_settings :: SupervisorSettings where
  "demo_settings = default_supervisor_settings\<lparr>st_enabled := True\<rparr>"

definition demo_sup_env :: "(SupervisorReview + SupervisorSettings) sup_env" where
  "demo_sup_env = \<lparr>se_site = demo_site, se_head = Inr [], se_diagnostic = (\<lambda>_. Inr []), se_value = Inr,
     se_board_json = (\<lambda>xs. Inr (concat (map snd xs))), se_facts_json = (\<lambda>f. Inr (rf_board f)),
     se_review_json = (\<lambda>r. Inr (Inl r)), se_review_of_json = (\<lambda>j. case j of Inl r \<Rightarrow> Some r | Inr _ \<Rightarrow> None),
     se_settings_json = (\<lambda>s. Inr (Inr s)), se_settings_of_json = (\<lambda>j. case j of Inl _ \<Rightarrow> None | Inr s \<Rightarrow> Some s),
     se_today = lit ''2024-01-02'', se_now = lit ''2000''\<rparr>"

lemma demo_env_simps [simp]:
  "se_site demo_sup_env = demo_site" "se_review_json demo_sup_env r = Inr (Inl r)"
  "se_review_of_json demo_sup_env (Inl r) = Some r" "se_settings_of_json demo_sup_env (Inr s) = Some s"
  "se_board_json demo_sup_env xs = Inr (concat (map snd xs))" "se_facts_json demo_sup_env f = Inr (rf_board f)"
  "before_supervisor demo_site = False"
  by (simp_all add: demo_sup_env_def before_supervisor_def)

definition demo_sup :: "(SupervisorReview + SupervisorSettings) sup" where
  "demo_sup = \<lparr>su_work = demo_blocked_work, su_settings = Some (Some (Inr demo_settings)), su_reviews = []\<rparr>"

lemma demo_sup_reach: "reach (no_reviews demo_sup_env) (sup_step demo_sup_env) demo_sup"
  by (rule reach_init) (auto simp: no_reviews_def codec_sound_def demo_sup_def)

text \<open>The state with one saved review.\<close>

definition demo_with :: "SupervisorReview \<Rightarrow> (SupervisorReview + SupervisorSettings) sup" where
  "demo_with r = demo_sup\<lparr>su_reviews := [\<lparr>rv_project = 1, rv_evidence = v_evidence r, rv_record = Inl r, rv_updated_at = se_now demo_sup_env\<rparr>]\<rparr>"

lemma blocked_entries:
  "entries demo_blocked_work Doing = [demo_blocked_entry]" "sta \<noteq> Doing \<Longrightarrow> entries demo_blocked_work sta = []"
proof -
  have "10 \<notin> set demo_blocked_text" by (simp add: demo_blocked_text_def lit_def)
  then show "entries demo_blocked_work Doing = [demo_blocked_entry]"
    by (simp add: entries_def demo_blocked_work_def read_one_entry demo_blocked_entry_def)
qed (simp add: entries_def demo_blocked_work_def demo_entries)

lemma blocked_entry_facts:
  "t_content demo_blocked_entry = demo_blocked_text" "linked_session demo_blocked_entry = Some (lit ''s1'')"
  by (simp_all add: demo_blocked_entry_def linked_session_def blocked_link)

lemma demo_lists:
  "blocked_candidates demo_blocked_work = [(Doing, demo_blocked_entry)]" "repeated_failure_candidates demo_blocked_work 1 = []"
  "linked_tasks demo_blocked_work (lit ''s1'') = [(Doing, demo_blocked_entry)]"
  by (simp_all add: blocked_candidates_def repeated_failure_candidates_def in_lists_def blocked_entries blocked_entry_facts
      blocked_marks blocked_blocked linked_tasks_def SESSION_SEARCH_ORDER_def)

lemma demo_registry_facts:
  "list_pending_git_finalizations demo_init (Some 1) = []" "session_control demo_init 1 (lit ''s1'') = Inr None"
  "project_exists demo_init 1"
  by code_simp+

lemma demo_review_facts:
  "\<not> has_sealed_finalization (ws_db demo_blocked_work) 1" "review_candidates demo_blocked_work 1 = [(Doing, demo_blocked_entry)]"
  "retry_session_is_idle (ws_db demo_blocked_work) 1 (lit ''s1'') = Inr True"
  "queued_blockers_can_wait demo_site demo_blocked_work = Inr False"
  "review_evidence demo_sup_env 1 demo_blocked_work = Inr demo_blocked_text"
proof -
  have db: "ws_db demo_blocked_work = demo_init" by (simp add: demo_blocked_work_def)
  show s: "\<not> has_sealed_finalization (ws_db demo_blocked_work) 1"
    by (simp add: has_sealed_finalization_def sealed_journals_def db demo_registry_facts)
  show c: "review_candidates demo_blocked_work 1 = [(Doing, demo_blocked_entry)]"
    using s by (simp add: review_candidates_def demo_lists)
  show i: "retry_session_is_idle (ws_db demo_blocked_work) 1 (lit ''s1'') = Inr True"
    by (simp add: retry_session_is_idle_def db demo_registry_facts)
  show "queued_blockers_can_wait demo_site demo_blocked_work = Inr False"
    by (simp add: queued_blockers_can_wait_def demo_lists)
  show "review_evidence demo_sup_env 1 demo_blocked_work = Inr demo_blocked_text"
    using i by (simp add: review_evidence_def c demo_lists sealed_journals_def db demo_registry_facts eligibility_evidence_def
        blocked_entry_facts List.map_filter_def board_evidence_def blocked_entries result_bind_def)
qed

lemma demo_loads:
  "supervisor_settings demo_sup_env demo_sup = Inr demo_settings" "supervisor_settings demo_sup_env (demo_with r) = Inr demo_settings"
  "supervisor_review demo_sup_env 1 demo_sup = Inr None" "supervisor_review demo_sup_env 1 (demo_with r) = Inr (Some r)"
  "su_work demo_sup = demo_blocked_work" "su_work (demo_with r) = demo_blocked_work"
  by (simp_all add: supervisor_settings_def supervisor_review_def demo_sup_def demo_with_def sql_select_def need_def)

lemma demo_saves:
  "save_supervisor_review demo_sup_env 1 r demo_sup = (Inr (), demo_with r)"
  "save_supervisor_review demo_sup_env 1 r (demo_with r') = (Inr (), demo_with r)"
proof -
  have "ws_db demo_blocked_work = demo_init" by (simp add: demo_blocked_work_def)
  then show "save_supervisor_review demo_sup_env 1 r demo_sup = (Inr (), demo_with r)"
    "save_supervisor_review demo_sup_env 1 r (demo_with r') = (Inr (), demo_with r)"
    using demo_registry_facts(3)
    by (simp_all add: save_supervisor_review_def sv_bind_def sv_get_def sv_ensure_def ensure_def Let_def demo_sup_def demo_with_def
        sql_exists_def sql_insert_def sql_update_def)
qed

lemmas demo_run = sv_bind_def sv_get_def sv_ensure_def ensure_def sv_ok_def Let_def demo_loads demo_saves demo_review_facts demo_lists

lemma demo_enabled: "st_enabled demo_settings"
  by (simp add: demo_settings_def default_supervisor_settings_def)

definition demo_begun :: SupervisorReview where
  "demo_begun = new_review demo_blocked_text None"

definition demo_retry :: Decision where
  "demo_retry = \<lparr>d_kind = Retry, d_task = 1, d_reason = lit ''x'', d_next_action = lit ''y''\<rparr>"

definition demo_approved :: SupervisorReview where
  "demo_approved = demo_begun\<lparr>v_state := ''retry'', v_retry_session := Some (lit ''s1''), v_retries := 1, v_decision := Some demo_retry\<rparr>"

lemma one_review: "MAX_REVIEWS < 1 \<longleftrightarrow> False" "MAX_REVIEWS = 0 \<longleftrightarrow> False" "1 \<le> MAX_REVIEWS"
  by (simp_all add: MAX_REVIEWS_def)

lemma demo_gate: "gate demo_sup_env 1 True demo_sup = (Inr Gate_review, demo_sup)"
  by (simp add: gate_def gate_blocked_def judge_evidence_def demo_run demo_enabled awaits_retry_def retry_session_of_def)

lemma demo_begin: "begin_review demo_sup_env 1 demo_sup = (Inr demo_begun, demo_with demo_begun)"
proof -
  have "v_attempts demo_begun \<le> MAX_REVIEWS" by (simp add: demo_begun_def new_review_def Let_def one_review)
  then show ?thesis by (simp add: begin_review_def demo_run demo_begun_def [symmetric])
qed

lemma demo_finish: "finish_review demo_sup_env 1 (Inr demo_retry) (demo_with demo_begun) = (Inr (review_message demo_approved), demo_with demo_approved)"
proof -
  have "v_evidence demo_begun = demo_blocked_text" "v_retries demo_begun = 0" "v_error demo_begun = None"
    by (simp_all add: demo_begun_def new_review_def Let_def one_review)
  moreover have "trim (lit ''x'') \<noteq> []" "trim (lit ''y'') \<noteq> []" by (simp_all add: note_eval)
  ultimately have "decided_review 1 demo_blocked_work demo_begun demo_retry = Inr (demo_approved, Doing, demo_blocked_entry)"
    by (simp add: decided_review_def retry_review_def demo_run result_bind_def need_def demo_retry_def demo_approved_def blocked_entry_facts
        MAX_RETRIES_def)
  then show ?thesis
    using \<open>v_evidence demo_begun = demo_blocked_text\<close>
    by (simp add: finish_review_def apply_decision_def demo_run demo_enabled need_def demo_retry_def)
qed

lemma demo_gate_retry: "gate demo_sup_env 1 True (demo_with demo_approved) = (Inr (Gate_retry (lit ''s1'')), demo_with demo_approved)"
proof -
  have "v_evidence demo_approved = demo_blocked_text" "v_state demo_approved = ''retry''" "v_retry_session demo_approved = Some (lit ''s1'')"
    by (simp_all add: demo_approved_def demo_begun_def new_review_def Let_def)
  then show ?thesis
    by (simp add: gate_def gate_blocked_def judge_evidence_def approved_retry_def demo_run demo_enabled awaits_retry_def
        retry_session_of_def retry_status_available_def status_is_active_def blocked_entry_facts blocked_blocked)
qed

lemma demo_approved_reach: "reach (no_reviews demo_sup_env) (sup_step demo_sup_env) (demo_with demo_approved)"
  using demo_sup_reach step_op [OF op_begin [OF demo_begin]] step_op [OF op_finish [OF demo_finish]] by (blast intro: reach_step)

theorem supervisor_reviews_bounded_witness:
  "supervisor_review demo_sup_env 1 (demo_with demo_approved) = Inr (Some demo_approved) \<and> v_retries demo_approved \<le> 2"
  using supervisor_reviews_bounded [OF demo_approved_reach demo_loads(4)] demo_loads(4) by blast

theorem supervisor_keeps_registry_witness:
  "ws_db (su_work (demo_with demo_begun)) = ws_db (su_work demo_sup)"
  by (rule supervisor_keeps_registry [OF op_begin [OF demo_begin]])

theorem gate_retry_authorized_witness:
  "\<exists>r. supervisor_review demo_sup_env 1 (demo_with demo_approved) = Inr (Some r) \<and> v_state r = ''retry''"
  using gate_retry_authorized [OF demo_approved_reach demo_gate_retry] by blast

theorem gate_review_begins_witness:
  "\<exists>r v''. begin_review demo_sup_env 1 demo_sup = (Inr r, v'') \<and> v_state r = ''reviewing''"
proof -
  have "\<exists>j. se_review_json demo_sup_env r = Inr j" for r by simp
  moreover have "project_exists (ws_db (su_work demo_sup)) 1"
    using demo_registry_facts(3) by (simp add: demo_loads demo_blocked_work_def)
  ultimately show ?thesis using gate_review_begins [OF demo_sup_reach _ _ demo_gate] by blast
qed

theorem review_rounds_end_witness: "review_rounds demo_sup_env 1 True 5 demo_sup \<le> 2"
  by (rule review_rounds_end [OF demo_sup_reach])


end
