(* ===== verification/Run_Tasks.thy ===== *)
theory Run_Tasks
  imports Automated_Moves Scheduler
begin

text \<open>
  The tasks of a run (\<^verbatim>\<open>src/src/worker.rs\<close>): the contents and blocked tasks a job remembers before its run,
  the task that is found to be new, completed or blocked after it, the conversation a run resumes,
  and the linking of the run's conversation with its task while it runs and when it has ended.

  The functions read the board of the workspace; the board's lock is taken where the code takes it.
\<close>

section \<open>Entries that are new\<close>

text \<open>The counts of a \<^verbatim>\<open>HashMap\<close>, and the entries that no count is left for.\<close>

definition tally :: "'k list \<Rightarrow> ('k \<rightharpoonup> nat)" where
  "tally ks = foldl (\<lambda>m k. m(k \<mapsto> (case m k of None \<Rightarrow> 0 | Some n \<Rightarrow> n) + 1)) Map.empty ks"

fun unmatched :: "('e \<Rightarrow> 'k) \<Rightarrow> ('k \<rightharpoonup> nat) \<Rightarrow> 'e list \<Rightarrow> 'e list" where
  "unmatched key m [] = []"
| "unmatched key m (e # es) =
     (case m (key e) of
        None \<Rightarrow> e # unmatched key m es
      | Some 0 \<Rightarrow> e # unmatched key m es
      | Some (Suc n) \<Rightarrow> unmatched key (m(key e \<mapsto> n)) es)"

definition sole :: "'e list \<Rightarrow> 'e option" where
  "sole xs = (case xs of [x] \<Rightarrow> Some x | _ \<Rightarrow> None)"

text \<open>The positions whose entry, left out, leaves the contents from before.\<close>

definition insertion_points :: "str list \<Rightarrow> TaskEntry list \<Rightarrow> nat list" where
  "insertion_points contents_before entries_after =
     filter (\<lambda>i. map t_content (take i entries_after @ drop (Suc i) entries_after) = contents_before)
       [0..<length entries_after]"

definition newly_added_task_entry :: "str list \<Rightarrow> TaskEntry list \<Rightarrow> TaskEntry option" where
  "newly_added_task_entry contents_before entries_after =
     (if length entries_after \<le> length contents_before then None
      else case (if length entries_after = length contents_before + 1
                 then insertion_points contents_before entries_after else []) of
             [i] \<Rightarrow> Some (entries_after ! i)
           | _ # _ # _ \<Rightarrow> None
           | [] \<Rightarrow> sole (unmatched t_content (tally contents_before) entries_after))"

section \<open>What a job remembers\<close>

type_synonym BlockedTaskSnapshot = "TaskStatus \<times> str"

record AgentRunJob =
  job_project :: project_row
  job_holder :: str
  job_worker_token :: "str option"
  job_max_global_jobs :: nat
  job_selection :: AgentTaskSelection
  job_resume_session :: "str option"
  job_blocked_before :: nat
  job_done_before :: "str list"
  job_snapshots_before :: "BlockedTaskSnapshot list"

definition task_contents_for_status :: "workspace \<Rightarrow> TaskStatus \<Rightarrow> str list" where
  "task_contents_for_status w sta = map t_content (entries w sta)"

definition completed_task_contents :: "workspace \<Rightarrow> str list" where
  "completed_task_contents w = map t_content (entries w Done)"

definition blocked_tasks :: "workspace \<Rightarrow> (TaskStatus \<times> TaskEntry) list" where
  "blocked_tasks w =
     concat (map (\<lambda>sta. map (Pair sta)
       (filter (\<lambda>e. entry_blocked e \<and> \<not> entry_stopped e \<and> \<not> task_content_is_manual (t_content e)) (entries w sta)))
       [Todo, Doing])"

definition snapshot_of :: "TaskStatus \<times> TaskEntry \<Rightarrow> BlockedTaskSnapshot" where
  "snapshot_of = (\<lambda>(sta, e). (sta, trim_end (t_content e)))"

definition blocked_task_snapshots :: "workspace \<Rightarrow> BlockedTaskSnapshot list" where
  "blocked_task_snapshots w = map snapshot_of (blocked_tasks w)"

section \<open>What has changed since\<close>

definition blocked_task_after_run ::
  "workspace \<Rightarrow> BlockedTaskSnapshot list \<Rightarrow> bool \<Rightarrow> (TaskStatus \<times> TaskEntry) option" where
  "blocked_task_after_run w snapshots_before allow_unchanged_single_task =
     (case sole (unmatched snapshot_of (tally snapshots_before) (blocked_tasks w)) of
        Some t \<Rightarrow> Some t
      | None \<Rightarrow> if allow_unchanged_single_task then sole (blocked_tasks w) else None)"

definition newly_completed_task :: "workspace \<Rightarrow> str list \<Rightarrow> TaskEntry option" where
  "newly_completed_task w contents_before =
     newly_added_task_entry (filter (\<lambda>c. \<not> task_content_is_manual c) contents_before)
       (filter (\<lambda>e. \<not> task_content_is_manual (t_content e)) (entries w Done))"

text \<open>\<open>scan\<close> is the scan of the project after the run.\<close>

definition blocked_recovery_made_no_progress :: "AgentRunJob \<Rightarrow> AgentProjectScan \<Rightarrow> workspace \<Rightarrow> bool" where
  "blocked_recovery_made_no_progress job scan w =
     (if job_selection job \<noteq> RecoverBlocked then False
      else if (case newly_completed_task w (job_done_before job) of
                 None \<Rightarrow> False
               | Some completed \<Rightarrow> task_content_has_completed_note (t_content completed)
                   \<and> durable_task_identity (t_content completed) \<noteq> None
                   \<and> list_ex (\<lambda>(_, c). durable_task_identity c = durable_task_identity (t_content completed))
                       (job_snapshots_before job))
      then False
      else blocked_task_count scan \<ge> job_blocked_before job)"

section \<open>The conversation a run resumes\<close>

text \<open>\<open>todo_present\<close> tells whether the board has a Todo store.\<close>

definition automated_codex_session_to_resume ::
  "site \<Rightarrow> bool result \<Rightarrow> AgentTaskSelection \<Rightarrow> workspace \<Rightarrow> str option result" where
  "automated_codex_session_to_resume st todo_present sel w =
     (let only = (\<lambda>ts. Inr (Option.bind (sole ts) linked_session)) in
      case sel of
        NextTodo \<Rightarrow> result_bind todo_present (\<lambda>present.
          if \<not> present then Inr None
          else result_bind (ready_tasks st w) (\<lambda>ts.
            Inr (case ts of [] \<Rightarrow> None | t # _ \<Rightarrow> linked_session t)))
      | ResumeDoing \<Rightarrow> only (filter (\<lambda>e. \<not> task_content_is_manual (t_content e)) (entries w Doing))
      | RecoverBlocked \<Rightarrow> only (map snd (blocked_tasks w))
      | _ \<Rightarrow> Inr None)"

section \<open>Linking the conversation of a running task\<close>

definition sole_blocked_follow_up :: "BlockedTaskSnapshot list \<Rightarrow> TaskEntry list \<Rightarrow> TaskEntry option" where
  "sole_blocked_follow_up snapshots ts =
     (case sole snapshots of
        Some (Doing, c) \<Rightarrow> sole (filter (\<lambda>e. c = trim_end (t_content e) \<and> linked_session e = None) ts)
      | _ \<Rightarrow> None)"

definition active_task_of_run ::
  "AgentTaskSelection \<Rightarrow> str list \<Rightarrow> BlockedTaskSnapshot list \<Rightarrow> workspace \<Rightarrow> TaskEntry option" where
  "active_task_of_run sel doing_before snapshots_before w =
     (let ts = filter (\<lambda>e. \<not> task_content_is_manual (t_content e)) (entries w Doing);
          newly_started = newly_added_task_entry (filter (\<lambda>c. \<not> task_content_is_manual c) doing_before) ts
      in case sel of
           NextTodo \<Rightarrow> newly_started
         | ResumeDoing \<Rightarrow> sole ts
         | RecoverBlocked \<Rightarrow> (case newly_started of Some e \<Rightarrow> Some e | None \<Rightarrow> sole_blocked_follow_up snapshots_before ts)
         | _ \<Rightarrow> None)"

definition may_attach :: "str \<Rightarrow> str option \<Rightarrow> TaskEntry \<Rightarrow> bool" where
  "may_attach session selected_identity e \<longleftrightarrow>
     (case linked_session e of None \<Rightarrow> True | Some own \<Rightarrow> own = session)
     \<and> (case selected_identity of None \<Rightarrow> True | Some i \<Rightarrow> durable_task_identity (t_content e) = Some i)"

definition attach_codex_session_to_active_task ::
  "site \<Rightarrow> AgentTaskSelection \<Rightarrow> str list \<Rightarrow> BlockedTaskSnapshot list \<Rightarrow> str \<Rightarrow> str option \<Rightarrow> bool ws" where
  "attach_codex_session_to_active_task st sel doing_before snapshots_before session selected_identity =
     (if sel = SupervisorReview then ws_ok True
      else ws_bind (ws_get (\<lambda>_. s_lock st)) (\<lambda>_ w.
        if md_task_for_codex_session (ws_board w) session True \<noteq> None then (Inr True, w)
        else case active_task_of_run sel doing_before snapshots_before w of
               None \<Rightarrow> (Inr False, w)
             | Some e \<Rightarrow>
                 if \<not> may_attach session selected_identity e then (Inr False, w)
                 else ws_bind (attach_session Doing e session) (\<lambda>_. ws_ok True) w))"

section \<open>Linking the conversation of a finished run\<close>

datatype AgentSessionLinkResult = AlreadyLinked | ExactResumePreserved | Attached | NoEligibleTask

definition task_of_finished_run :: "AgentRunJob \<Rightarrow> workspace \<Rightarrow> (TaskStatus \<times> TaskEntry) option" where
  "task_of_finished_run job w =
     (let completed = map_option (Pair Done) (newly_completed_task w (job_done_before job));
          blocked = blocked_task_after_run w (job_snapshots_before job) (completed = None \<and> job_selection job \<noteq> NextTodo)
      in case (completed, blocked) of
           (Some t, None) \<Rightarrow> Some t
         | (None, Some t) \<Rightarrow> Some t
         | _ \<Rightarrow> None)"

definition link_agent_session_after_run_stage ::
  "site \<Rightarrow> AgentRunJob \<Rightarrow> str \<Rightarrow> string \<Rightarrow> AgentSessionLinkResult ws" where
  "link_agent_session_after_run_stage st job session run_status =
     (if job_selection job = SupervisorReview then ws_ok ExactResumePreserved
      else ws_bind (ws_get (\<lambda>_. s_lock st)) (\<lambda>_ w.
        if md_task_for_codex_session (ws_board w) session False \<noteq> None then (Inr AlreadyLinked, w)
        else if job_selection job = ResumeSession then
          (if md_task_for_codex_session (ws_board w) session True \<noteq> None then (Inr ExactResumePreserved, w)
           else (Inl ''The task marker for exact Codex session disappeared before handback'', w))
        else case task_of_finished_run job w of
               Some (sta, e) \<Rightarrow> ws_bind (attach_session sta e session) (\<lambda>_. ws_ok Attached) w
             | None \<Rightarrow>
                 if run_status \<in> {''success'', ''blocked'', ''stopped'', ''handoff''}
                 then (Inl ''Could not identify exactly one completed or blocked task for Codex session'', w)
                 else (Inr NoEligibleTask, w)))"

end
