(* ===== verification/Run_Task_Theorems.thy ===== *)
theory Run_Task_Theorems
  imports Run_Tasks Activation_Theorems Completion_Theorems "HOL-Library.Multiset" "HOL-Library.Sublist"
begin

text \<open>
  What the detection of a run's task promises: the entry it reports is exactly what the contents
  gained, a new content is always found, and linking a conversation never takes a task another
  conversation owns and never touches the registry.
\<close>

section \<open>Counting\<close>

lemma count_tally_foldl:
  "(case foldl (\<lambda>m k. m(k \<mapsto> (case m k of None \<Rightarrow> 0 | Some n \<Rightarrow> n) + 1)) m ks x of None \<Rightarrow> 0 | Some n \<Rightarrow> n)
     = (case m x of None \<Rightarrow> 0 | Some n \<Rightarrow> n) + count (mset ks) x"
  by (induction ks arbitrary: m) (auto split: option.splits)

lemma count_tally: "(case tally ks x of None \<Rightarrow> 0 | Some n \<Rightarrow> n) = count (mset ks) x"
  using count_tally_foldl [of Map.empty ks x] by (simp add: tally_def)

lemma unmatched_surplus:
  assumes "\<And>x. (case m x of None \<Rightarrow> 0 | Some n \<Rightarrow> n) = count M x"
  shows "image_mset key (mset (unmatched key m es)) = image_mset key (mset es) - M"
  using assms
proof (induction es arbitrary: m M)
  case (Cons e es)
  show ?case
  proof (cases "count M (key e)")
    case 0
    then have "unmatched key m (e # es) = e # unmatched key m es"
      using Cons.prems [of "key e"] by (auto split: option.splits nat.splits)
    then show ?thesis using Cons.IH [OF Cons.prems] 0 by (simp add: count_eq_zero_iff diff_add_mset_swap)
  next
    case (Suc n)
    then have u: "unmatched key m (e # es) = unmatched key (m(key e \<mapsto> n)) es"
      using Cons.prems [of "key e"] by (auto split: option.splits nat.splits)
    have c: "(case (m(key e \<mapsto> n)) x of None \<Rightarrow> 0 | Some n \<Rightarrow> n) = count (M - {#key e#}) x" for x
      using Cons.prems [of x] Suc by auto
    have "key e \<in># M" using Suc by (simp flip: count_greater_zero_iff)
    then obtain N where "M = add_mset (key e) N" by (metis insert_DiffM)
    then have "image_mset key (mset (e # es)) - M = image_mset key (mset es) - (M - {#key e#})" by simp
    then show ?thesis by (simp only: u Cons.IH [OF c])
  qed
qed simp

lemma unmatched_tally: "mset (map key (unmatched key (tally ks) es)) = mset (map key es) - mset ks"
  using unmatched_surplus [of "tally ks" "mset ks" key es] by (simp add: count_tally)

lemma unmatched_subset: "set (unmatched key m es) \<subseteq> set es"
  by (induction es arbitrary: m) (force split: option.splits nat.splits)+

lemma sole_Some: "sole xs = Some x \<longleftrightarrow> xs = [x]"
  by (auto simp: sole_def split: list.splits)

section \<open>The new entry\<close>

lemma insertion_point:
  assumes "i \<in> set (insertion_points b a)"
  shows "i < length a" "mset (map t_content a) = add_mset (t_content (a ! i)) (mset b)"
proof -
  show i: "i < length a" using assms by (simp add: insertion_points_def)
  have "map t_content (take i a @ drop (Suc i) a) = b" using assms by (simp add: insertion_points_def)
  then have "mset b = mset (map t_content (take i a @ drop (Suc i) a))" by simp
  moreover have "mset a = add_mset (a ! i) (mset (take i a @ drop (Suc i) a))"
    using id_take_nth_drop [OF i] by (metis mset_append mset.simps(2) union_mset_add_mset_right)
  ultimately show "mset (map t_content a) = add_mset (t_content (a ! i)) (mset b)" by simp
qed

lemma newly_added_sound:
  assumes "newly_added_task_entry b a = Some e"
  shows "e \<in> set a" "mset (map t_content a) - mset b = {#t_content e#}" "length b < length a"
proof -
  let ?p = "if length a = length b + 1 then insertion_points b a else []"
  show len: "length b < length a" using assms by (simp add: newly_added_task_entry_def split: if_splits)
  have "(\<exists>i. i \<in> set (insertion_points b a) \<and> e = a ! i) \<or> sole (unmatched t_content (tally b) a) = Some e"
    using assms len by (auto simp: newly_added_task_entry_def split: list.splits if_splits)
  then have "e \<in> set a \<and> mset (map t_content a) - mset b = {#t_content e#}"
  proof
    assume "\<exists>i. i \<in> set (insertion_points b a) \<and> e = a ! i"
    then obtain i where i: "i \<in> set (insertion_points b a)" "e = a ! i" by blast
    show ?thesis using insertion_point [OF i(1)] i(2) by simp
  next
    assume "sole (unmatched t_content (tally b) a) = Some e"
    then have u: "unmatched t_content (tally b) a = [e]" by (simp add: sole_Some)
    then show ?thesis using unmatched_tally [of t_content b a] unmatched_subset [of t_content "tally b" a] by simp
  qed
  then show "e \<in> set a" "mset (map t_content a) - mset b = {#t_content e#}" by blast+
qed

lemma insertion_points_unique:
  assumes "i \<in> set (insertion_points b a)" "c \<notin> set b" "k < length a" "t_content (a ! k) = c"
  shows "i = k"
proof (rule ccontr)
  assume "i \<noteq> k"
  have "a ! k \<in> set (take i a @ drop (Suc i) a)"
  proof (cases "k < i")
    case True
    then have "take i a ! k = a ! k" "k < length (take i a)" using assms(3) by auto
    then show ?thesis by (metis nth_mem UnI1 set_append)
  next
    case False
    then have "drop (Suc i) a ! (k - Suc i) = a ! k" "k - Suc i < length (drop (Suc i) a)"
      using assms(3) \<open>i \<noteq> k\<close> by auto
    then show ?thesis by (metis nth_mem UnI2 set_append)
  qed
  then have "c \<in> set (map t_content (take i a @ drop (Suc i) a))" using assms(4) by force
  moreover have "map t_content (take i a @ drop (Suc i) a) = b" using assms(1) by (simp add: insertion_points_def)
  ultimately show False using assms(2) by metis
qed

lemma newly_added_complete:
  assumes new: "t_content e \<notin> set b" and e: "e \<in> set a" and gain: "mset (map t_content a) = add_mset (t_content e) (mset b)"
  shows "newly_added_task_entry b a = Some e"
proof -
  have len: "length a = length b + 1" using arg_cong [OF gain, of size] by simp
  obtain k where k: "k < length a" "a ! k = e" using e by (auto simp: in_set_conv_nth)
  have u: "mset (map t_content (unmatched t_content (tally b) a)) = {#t_content e#}"
    using unmatched_tally [of t_content b a] gain by simp
  have one: "count (mset (map t_content a)) (t_content e) = 1"
    using gain new by (simp add: count_eq_zero_iff)
  have same: "x = e" if "x \<in> set a" "t_content x = t_content e" for x
  proof (rule ccontr)
    assume "x \<noteq> e"
    then have "mset a = add_mset x (add_mset e (mset a - {#x#} - {#e#}))"
      using that(1) e by (metis insert_DiffM insert_DiffM2 in_diff_count set_mset_mset insert_noteq_member)
    then have "mset (map t_content a) = add_mset (t_content e) (add_mset (t_content e)
        (image_mset t_content (mset a - {#x#} - {#e#})))" using that(2) by (metis image_mset_add_mset mset_map)
    then show False using one by simp
  qed
  have "\<exists>x. unmatched t_content (tally b) a = [x] \<and> t_content x = t_content e"
    using u by (cases "unmatched t_content (tally b) a") auto
  then have "unmatched t_content (tally b) a = [e]"
    using same unmatched_subset [of t_content "tally b" a] by auto
  then have s: "sole (unmatched t_content (tally b) a) = Some e" by (simp add: sole_Some)
  have pts: "i = k" if "i \<in> set (insertion_points b a)" for i
    by (rule insertion_points_unique [OF that new k(1)]) (simp add: k(2))
  have d: "distinct (insertion_points b a)" by (simp add: insertion_points_def)
  show ?thesis
  proof (cases "insertion_points b a")
    case Nil
    then show ?thesis using s len by (simp add: newly_added_task_entry_def)
  next
    case (Cons i js)
    have i: "i = k" using pts Cons by simp
    have "set js \<subseteq> {k}" using pts Cons by auto
    moreover have "k \<notin> set js" using d Cons i by simp
    ultimately have "js = []" by (cases js) auto
    then show ?thesis using Cons len k i by (simp add: newly_added_task_entry_def)
  qed
qed

text \<open>C27: where a task's content is not among the contents remembered and one entry was gained, the
  detection reports a task exactly when the contents read now are the remembered ones, in any order,
  with that content added.\<close>

theorem newly_added_exact:
  assumes "t_content e \<notin> set before" and "length after = length before + 1"
  shows "newly_added_task_entry before after = Some e
    \<longleftrightarrow> e \<in> set after \<and> mset (map t_content after) = add_mset (t_content e) (mset before)"
proof
  assume "newly_added_task_entry before after = Some e"
  note s = newly_added_sound [OF this]
  have "size (mset (map t_content after) \<inter># mset before) = size (mset before)"
  proof -
    have "size (mset (map t_content after)) = size (mset (map t_content after) - mset before) + size (mset (map t_content after) \<inter># mset before)"
      by (metis add.commute size_union diff_intersect_left_idem multiset_inter_commute subset_mset.inf_le1
          subset_mset.diff_add)
    then show ?thesis using s(2) assms(2) by simp
  qed
  then have "mset before \<subseteq># mset (map t_content after)"
    by (metis subset_mset.inf_le1 subset_mset.inf_le2 mset_subset_size subset_mset.le_less less_irrefl)
  then show "e \<in> set after \<and> mset (map t_content after) = add_mset (t_content e) (mset before)"
    using s(1,2) by (metis add_mset_add_single subset_mset.diff_add union_commute)
next
  assume "e \<in> set after \<and> mset (map t_content after) = add_mset (t_content e) (mset before)"
  then show "newly_added_task_entry before after = Some e" using assms(1) newly_added_complete by blast
qed

theorem newly_added_exact_witness:
  "newly_added_task_entry [lit ''a'']
     [demo_run_entry\<lparr>t_content := lit ''b''\<rparr>, demo_run_entry\<lparr>t_content := lit ''a''\<rparr>] = Some (demo_run_entry\<lparr>t_content := lit ''b''\<rparr>)"
  using newly_added_exact [of "demo_run_entry\<lparr>t_content := lit ''b''\<rparr>" "[lit ''a'']"
      "[demo_run_entry\<lparr>t_content := lit ''b''\<rparr>, demo_run_entry\<lparr>t_content := lit ''a''\<rparr>]"]
  by (simp add: lit_def)

section \<open>Linking a conversation\<close>

lemma md_task_link: "md_task_for_codex_session (ws_board w) session True = find (\<lambda>(_, e). linked_session e = Some session)
     (concat (map (\<lambda>sta. map (Pair sta) (entries w sta)) SESSION_SEARCH_ORDER))"
  by (simp add: md_task_for_codex_session_def linked_session_def entries_def)

lemma unlinked_everywhere:
  assumes "md_task_for_codex_session (ws_board w) session True = None" and "e \<in> set (entries w sta)" and "sta \<in> set SESSION_SEARCH_ORDER"
  shows "linked_session e \<noteq> Some session"
  using assms by (force simp: md_task_link find_None_iff)

text \<open>A task is marked as the conversation's own: its line alone is rewritten, and the registry is not.\<close>

definition linked_to :: "TaskStatus \<Rightarrow> TaskEntry \<Rightarrow> str \<Rightarrow> workspace \<Rightarrow> workspace \<Rightarrow> bool" where
  "linked_to sta e session w w' \<longleftrightarrow> e \<in> set (entries w sta) \<and> linked_session e \<in> {None, Some session} \<and> ws_db w' = ws_db w
     \<and> md_write_task_entry_content (ws_board w) sta e (task_content_with_codex_session (t_content e) session) = Inr (ws_board w')"

lemma enumerate_member: "(i, x) \<in> set (enumerate_from n xs) \<Longrightarrow> \<exists>k < length xs. i = n + k \<and> xs ! k = x"
proof (induction n xs rule: enumerate_from.induct)
  case (2 n y ys)
  show ?case
  proof (cases "(i, x) = (n, y)")
    case False
    then obtain k where "k < length ys" "i = Suc n + k" "ys ! k = x" using 2 by auto
    then show ?thesis by (intro exI [of _ "Suc k"]) simp
  qed auto
qed simp

lemma content_of_text [simp]: "t_content (task_entry_from_text src a c h) = c" "t_source (task_entry_from_text src a c h) = src"
  by (simp_all add: task_entry_from_text_def Let_def split_beta)

lemma entry_line:
  assumes "e \<in> set (read_markdown_entries f)"
  obtains i where "t_source e = MarkdownLine i" "i < length (lines f)" "strip_prefix (lines f ! i) TASK_PREFIX = Some (t_content e)"
proof -
  obtain i l where i: "(i, l) \<in> set (enumerate_from 0 (lines f))"
    and e: "map_option (\<lambda>t. task_entry_from_text (MarkdownLine i) t t False) (strip_prefix l TASK_PREFIX) = Some e"
    using assms by (auto simp: read_markdown_entries_def map_filter_def)
  obtain t where t: "strip_prefix l TASK_PREFIX = Some t" "e = task_entry_from_text (MarkdownLine i) t t False" using e by auto
  have "i < length (lines f)" "lines f ! i = l" using enumerate_member [OF i] by auto
  then show ?thesis using that [of i] t by simp
qed

text \<open>A stale entry with the source of a present one is written only if it has its content too.\<close>

lemma write_same_source:
  assumes e: "e \<in> set (read_markdown_entries (b sta))" and src: "t_source x = t_source e"
    and wr: "md_write_task_entry_content b sta x c = Inr b'"
  shows "t_content x = t_content e \<and> md_write_task_entry_content b sta e c = Inr b'"
proof -
  obtain i where i: "t_source e = MarkdownLine i" "i < length (lines (b sta))" "strip_prefix (lines (b sta) ! i) TASK_PREFIX = Some (t_content e)"
    by (rule entry_line [OF e])
  have "t_content x = t_content e" using wr src i
    by (auto simp: md_write_task_entry_content_def write_markdown_line_def result_bind_def Let_def split: sum.splits if_splits)
  then show ?thesis using wr src i by (simp add: md_write_task_entry_content_def write_markdown_line_def Let_def)
qed

lemma attached_entry:
  assumes e: "e \<in> set (read_markdown_entries (b sta))" and a: "md_attach_codex_session b sta e session = Inr (c, b')" and ne: "b' \<noteq> b"
  obtains x where "t_source x = t_source e" "recoverable_codex_session_id_from_task_content (t_content x) \<in> {None, Some session}"
    "md_write_task_entry_content b sta x (task_content_with_codex_session (t_content x) session) = Inr b'"
proof (cases "md_task_for_codex_session b session True")
  case None
  then obtain x where "find (\<lambda>y. t_source y = t_source e) (read_markdown_entries (b sta)) = Some x"
      "recoverable_codex_session_id_from_task_content (t_content x) \<in> {None, Some session}"
      "md_write_task_entry_content b sta x (task_content_with_codex_session (t_content x) session) = Inr b'"
    using a by (auto simp: md_attach_codex_session_def result_bind_def Let_def split: option.splits if_splits sum.splits)
  then show ?thesis using that by (auto simp: find_Some_iff)
next
  case (Some p)
  obtain sta' x where p: "p = (sta', x)" by fastforce
  have "recoverable_codex_session_id_from_task_content (t_content x) = Some session"
    using find_SomeD [OF Some [unfolded md_task_for_codex_session_def p]] by simp
  moreover have "t_source x = t_source e"
      "md_write_task_entry_content b sta x (task_content_with_codex_session (t_content x) session) = Inr b'"
    using a ne Some p by (auto simp: md_attach_codex_session_def result_bind_def Let_def split: if_splits sum.splits)
  ultimately show ?thesis using that by blast
qed

lemma attach_session_effect:
  assumes e: "e \<in> set (entries w sta)" and a: "attach_session sta e session w = (r, w')"
  shows "w' = w \<or> linked_to sta e session w w'"
proof (rule disjCI)
  assume n: "\<not> linked_to sta e session w w'"
  show "w' = w"
  proof (rule ccontr)
    assume ne: "w' \<noteq> w"
    then obtain c b where cb: "md_attach_codex_session (ws_board w) sta e session = Inr (c, b)" "w' = w\<lparr>ws_board := b\<rparr>"
      using a by (cases "md_attach_codex_session (ws_board w) sta e session") (auto simp: attach_session_def on_board_def)
    have "b \<noteq> ws_board w" using ne cb(2) by auto
    then obtain x where x: "t_source x = t_source e" "recoverable_codex_session_id_from_task_content (t_content x) \<in> {None, Some session}"
      "md_write_task_entry_content (ws_board w) sta x (task_content_with_codex_session (t_content x) session) = Inr b"
      using attached_entry [OF e [unfolded entries_def] cb(1)] by blast
    note wr = write_same_source [OF e [unfolded entries_def] x(1,3)]
    have "md_write_task_entry_content (ws_board w) sta e (task_content_with_codex_session (t_content e) session) = Inr b"
      using wr by metis
    then show False using e n cb(2) x(2) wr by (simp add: linked_to_def linked_session_def)
  qed
qed

lemma sole_set: "sole xs = Some x \<Longrightarrow> x \<in> set xs"
  by (simp add: sole_Some)

lemma active_task_candidates:
  assumes "active_task_of_run sel doing_before snapshots_before w = Some e"
  shows "e \<in> set (entries w Doing) \<and> \<not> task_content_is_manual (t_content e)"
proof -
  let ?ts = "filter (\<lambda>e. \<not> task_content_is_manual (t_content e)) (entries w Doing)"
  have "e \<in> set ?ts"
    using assms newly_added_sound(1) sole_set
    by (fastforce simp: active_task_of_run_def sole_blocked_follow_up_def Let_def
        split: AgentTaskSelection.splits option.splits TaskStatus.splits)
  then show ?thesis by simp
qed

lemma attach_active_cases:
  assumes "attach_codex_session_to_active_task st sel doing_before snapshots_before session identity w = (r, w')"
  obtains (same) "w' = w"
  | (attach) e r' where "active_task_of_run sel doing_before snapshots_before w = Some e" "may_attach session identity e"
      "md_task_for_codex_session (ws_board w) session True = None" "attach_session Doing e session w = (r', w')"
proof (cases "sel = SupervisorReview \<or> (\<exists>m. s_lock st = Inl m) \<or> md_task_for_codex_session (ws_board w) session True \<noteq> None
    \<or> active_task_of_run sel doing_before snapshots_before w = None
    \<or> \<not> may_attach session identity (the (active_task_of_run sel doing_before snapshots_before w))")
  case True
  then show ?thesis using assms same
    by (auto simp: attach_codex_session_to_active_task_def ws_ok_def ws_bind_def ws_get_def split: if_splits sum.splits option.splits)
next
  case False
  then obtain e u where e: "active_task_of_run sel doing_before snapshots_before w = Some e" "may_attach session identity e"
    and n: "md_task_for_codex_session (ws_board w) session True = None" "s_lock st = Inr u" "sel \<noteq> SupervisorReview"
    by (metis option.exhaust_sel sum.exhaust)
  obtain r1 w1 where a: "attach_session Doing e session w = (r1, w1)" by fastforce
  have "w' = w1" using assms e n a
    by (auto simp: attach_codex_session_to_active_task_def ws_ok_def ws_bind_def ws_get_def split: sum.splits)
  then show ?thesis using attach e n a by blast
qed

lemma attach_active_effect:
  assumes "attach_codex_session_to_active_task st sel doing_before snapshots_before session identity w = (r, w')"
  shows "w' = w \<or> (\<exists>e. linked_to Doing e session w w' \<and> linked_session e = None \<and> \<not> task_content_is_manual (t_content e)
       \<and> identity \<in> {None, durable_task_identity (t_content e)})"
  using assms
proof (cases rule: attach_active_cases)
  case (attach e r')
  have m: "e \<in> set (entries w Doing)" "\<not> task_content_is_manual (t_content e)" using active_task_candidates [OF attach(1)] by blast+
  have "linked_session e \<noteq> Some session" using unlinked_everywhere [OF attach(3) m(1)] by (simp add: SESSION_SEARCH_ORDER_def)
  with m have e: "linked_session e = None" "\<not> task_content_is_manual (t_content e)"
      "identity \<in> {None, durable_task_identity (t_content e)}"
    using attach(2) by (auto simp: may_attach_def split: option.splits)
  then show ?thesis using attach_session_effect [OF m(1) attach(4)] by blast
qed simp

text \<open>C28: linking the conversation of a running task leaves the registry alone; it writes the board
  only to mark one task of Doing that no conversation owned, that no user has claimed, and that has
  the identity the run selected, if it selected one.\<close>

theorem attach_never_steals:
  "case attach_codex_session_to_active_task st sel doing_before snapshots_before session identity w of (r, w') \<Rightarrow>
     w' = w \<or> (\<exists>e. linked_to Doing e session w w' \<and> linked_session e = None \<and> \<not> task_content_is_manual (t_content e)
       \<and> identity \<in> {None, durable_task_identity (t_content e)})"
  using attach_active_effect by (simp split: prod.split)

section \<open>Linking the conversation of a finished run\<close>

lemma finished_run_task:
  assumes "task_of_finished_run job w = Some (sta, e)"
  shows "e \<in> set (entries w sta) \<and> sta \<in> {Todo, Doing, Done} \<and> \<not> task_content_is_manual (t_content e)
    \<and> (sta \<noteq> Done \<longrightarrow> task_content_is_blocked (t_content e) \<and> \<not> task_content_is_stopped (t_content e))"
proof -
  have blocked: "e \<in> set (entries w sta) \<and> sta \<in> {Todo, Doing} \<and> \<not> task_content_is_manual (t_content e)
    \<and> task_content_is_blocked (t_content e) \<and> \<not> task_content_is_stopped (t_content e)"
    if "blocked_task_after_run w bs allow = Some (sta, e)" for bs allow
  proof -
    have "(sta, e) \<in> set (blocked_tasks w)"
      using that unmatched_subset sole_set by (fastforce simp: blocked_task_after_run_def split: option.splits if_splits)
    then show ?thesis by (auto simp: blocked_tasks_def entry_blocked_def entry_stopped_def)
  qed
  have completed: "e \<in> set (entries w Done) \<and> \<not> task_content_is_manual (t_content e)"
    if "newly_completed_task w cs = Some e" for cs
    using newly_added_sound(1) [OF that [unfolded newly_completed_task_def]] by simp
  show ?thesis using assms blocked completed
    by (fastforce simp: task_of_finished_run_def Let_def split: option.splits)
qed

lemma finished_run_cases:
  assumes "link_agent_session_after_run_stage st job session run_status w = (r, w')"
  obtains (same) "w' = w"
  | (attach) sta e r' where "task_of_finished_run job w = Some (sta, e)" "job_selection job \<notin> {SupervisorReview, ResumeSession}"
      "md_task_for_codex_session (ws_board w) session False = None" "attach_session sta e session w = (r', w')"
proof (cases "job_selection job \<in> {SupervisorReview, ResumeSession} \<or> (\<exists>m. s_lock st = Inl m)
    \<or> md_task_for_codex_session (ws_board w) session False \<noteq> None \<or> task_of_finished_run job w = None")
  case True
  then show ?thesis using assms same
    by (auto simp: link_agent_session_after_run_stage_def ws_ok_def ws_bind_def ws_get_def split: if_splits sum.splits option.splits)
next
  case False
  then obtain sta e u where e: "task_of_finished_run job w = Some (sta, e)"
    and n: "md_task_for_codex_session (ws_board w) session False = None" "s_lock st = Inr u"
      "job_selection job \<notin> {SupervisorReview, ResumeSession}"
    by (metis option.exhaust_sel prod.exhaust_sel sum.exhaust)
  obtain r1 w1 where a: "attach_session sta e session w = (r1, w1)" by fastforce
  have "w' = w1" using assms e n a
    by (auto simp: link_agent_session_after_run_stage_def ws_ok_def ws_bind_def ws_get_def split: sum.splits)
  then show ?thesis using attach e n a by blast
qed

lemma finished_run_effect:
  assumes "link_agent_session_after_run_stage st job session run_status w = (r, w')"
  shows "w' = w \<or> (\<exists>sta e. task_of_finished_run job w = Some (sta, e) \<and> linked_to sta e session w w'
    \<and> (sta = Done \<or> sta \<in> {Todo, Doing} \<and> task_content_is_blocked (t_content e) \<and> \<not> task_content_is_stopped (t_content e))
    \<and> \<not> task_content_is_manual (t_content e) \<and> md_task_for_codex_session (ws_board w) session False = None
    \<and> job_selection job \<notin> {SupervisorReview, ResumeSession})"
  using assms
proof (cases rule: finished_run_cases)
  case (attach sta e r')
  note t = finished_run_task [OF attach(1)]
  then show ?thesis using attach_session_effect [of e w sta session r' w'] attach by blast
qed simp


end
