(* ===== verification/Worker_Dispatch.thy ===== *)
theory Worker_Dispatch
  imports Run_Tasks Reconcile Managed_Boards
begin

text \<open>
  The dispatch of workers and the reconciliation of those that exist (\<^verbatim>\<open>src/src/worker.rs\<close>): a pass over
  the active workers that leaves, launches again or abandons each of them, the cleaning of
  services that have ended, the reservation of an independent worker before its service is launched, and the
  durable reservation of the scheduler's own process for a run with Git.

  What the system answers is an argument: the processes, whether a service could be drained,
  prepared or launched, the clock, fresh tokens, and the JSON of command lines.  Output on the
  terminal is left out.  An operation that asks the clock several times asks one that stands still.
\<close>

section \<open>Reconciling active workers\<close>

definition AGENT_WORKER_STARTUP_TIMEOUT_SECONDS :: nat where "AGENT_WORKER_STARTUP_TIMEOUT_SECONDS = 60"
definition AGENT_WORKER_HEARTBEAT_TIMEOUT_SECONDS :: nat where "AGENT_WORKER_HEARTBEAT_TIMEOUT_SECONDS = 60"

definition agent_worker_observation_is_stale :: "str option \<Rightarrow> nat \<Rightarrow> nat \<Rightarrow> bool" where
  "agent_worker_observation_is_stale raw now timeout_seconds =
     (case Option.bind raw parse_u64 of
        None \<Rightarrow> True
      | Some observed \<Rightarrow> timeout_seconds \<le> saturating_sub now observed)"

record AgentWorkerLaunchSpec =
  spec_executable :: str
  spec_token :: str
  spec_project :: int
  spec_selection :: AgentTaskSelection
  spec_resume_session :: "str option"
  spec_service_label :: str
  spec_arguments :: "str list option"
  spec_codex_path :: "str option"
  spec_path :: str

record worker_env =
  we_os :: os_view
  we_registered :: "str \<Rightarrow> bool"
  we_now :: nat
  we_drain :: "worker_row \<Rightarrow> bool result"
  we_launch :: "AgentWorkerLaunchSpec \<Rightarrow> unit result"
  we_arguments :: "str \<Rightarrow> str list result"

definition worker_process_state :: "os_view \<Rightarrow> worker_row \<Rightarrow> bool option" where
  "worker_process_state os x = Option.bind (w_pid x) (\<lambda>p. process_running os (nat p))"

definition worker_in_run :: "worker_row \<Rightarrow> bool" where
  "worker_in_run x \<longleftrightarrow> w_state x \<in> {WRunning, WFinalizing}"

definition own_process :: "os_view \<Rightarrow> worker_row \<Rightarrow> bool" where
  "own_process os x \<longleftrightarrow> w_pid x = Some (int (own_pid os))"

definition owns_project_lease :: "registry \<Rightarrow> worker_row \<Rightarrow> bool" where
  "owns_project_lease db x =
     (case lease_for_project db (w_project x) of None \<Rightarrow> False | Some (l, _) \<Rightarrow> l_holder l = w_lease_holder x)"

text \<open>The workers a pass leaves alone before it looks at their age.\<close>

definition waits_for_worker :: "worker_env \<Rightarrow> registry \<Rightarrow> worker_row \<Rightarrow> bool" where
  "waits_for_worker env db x \<longleftrightarrow>
     w_protocol_version x > AGENT_WORKER_PROTOCOL_VERSION
     \<or> (is_inline_agent_worker x \<and> git_launch_state db (w_project x) (w_token x) \<noteq> None)
     \<or> (is_inline_agent_worker x \<and> own_process (we_os env) x \<and> we_registered env (w_token x) \<and> worker_in_run x)
     \<or> (is_inline_agent_worker x \<and> \<not> own_process (we_os env) x \<and> w_pid x \<noteq> None
        \<and> worker_process_state (we_os env) x \<noteq> Some False \<and> worker_in_run x)"

definition startup_stale :: "worker_env \<Rightarrow> worker_row \<Rightarrow> bool" where
  "startup_stale env x \<longleftrightarrow> w_state x = WDispatching
     \<and> agent_worker_observation_is_stale (Some (w_created_at x)) (we_now env) AGENT_WORKER_STARTUP_TIMEOUT_SECONDS"

definition heartbeat_stale :: "worker_env \<Rightarrow> worker_row \<Rightarrow> bool" where
  "heartbeat_stale env x \<longleftrightarrow> worker_in_run x
     \<and> agent_worker_observation_is_stale (w_heartbeat_at x) (we_now env) AGENT_WORKER_HEARTBEAT_TIMEOUT_SECONDS"

definition abandonment_reason :: "worker_env \<Rightarrow> registry \<Rightarrow> worker_row \<Rightarrow> str option" where
  "abandonment_reason env db x =
     (if is_inline_agent_worker x \<and> w_state x = WDispatching
      then Some (lit ''Inline worker reservation was not atomically claimed'')
      else if is_inline_agent_worker x \<and> own_process (we_os env) x \<and> \<not> we_registered env (w_token x)
      then Some (lit ''Inline worker generation is no longer owned by this CLT process'')
      else if \<not> owns_project_lease db x then
        (if worker_process_state (we_os env) x = Some True \<and> \<not> heartbeat_stale env x then None
         else Some (lit ''Worker no longer owns its project lease''))
      else if startup_stale env x
      then Some (lit ''Worker did not claim its durable reservation within '' @ show_nat AGENT_WORKER_STARTUP_TIMEOUT_SECONDS
                 @ lit '' seconds'')
      else if worker_in_run x \<and> worker_process_state (we_os env) x = Some False
      then Some (lit ''Worker process exited before durable finalization'')
      else if heartbeat_stale env x
      then Some (lit ''Worker heartbeat was stale for at least '' @ show_nat AGENT_WORKER_HEARTBEAT_TIMEOUT_SECONDS
                 @ lit '' seconds'')
      else if w_state x = WRunning \<and> w_pid x = None then Some (lit ''Running worker is missing its process ID'')
      else None)"

text \<open>An abandonment is fenced by the row the pass has read.\<close>

definition observed_abandonment :: "worker_row \<Rightarrow> str \<Rightarrow> str \<Rightarrow> str option \<Rightarrow> AgentWorkerAbandonment" where
  "observed_abandonment x now why successor =
     \<lparr>ab_token = w_token x, ab_expected_state = w_state x, ab_expected_pid = w_pid x,
      ab_expected_heartbeat_at = w_heartbeat_at x, ab_finished_at = now, ab_error = why,
      ab_permitted_successor = successor\<rparr>"

definition permitted_successor :: "registry \<Rightarrow> worker_row \<Rightarrow> str option" where
  "permitted_successor db x =
     (case lease_for_project db (w_project x) of
        None \<Rightarrow> None
      | Some (l, _) \<Rightarrow> if l_holder l \<noteq> w_lease_holder x then Some (l_holder l) else None)"

definition durable_selection :: "str \<Rightarrow> AgentTaskSelection option" where
  "durable_selection v =
     find (\<lambda>s. lit (selection_label s) = v)
       [NextTodo, ResumeDoing, RecoverBlocked, ResumeSession, SupervisorReview, SupervisorRetry]"

definition relaunch_spec :: "worker_row \<Rightarrow> AgentTaskSelection \<Rightarrow> str list \<Rightarrow> AgentWorkerLaunchSpec" where
  "relaunch_spec x sel args =
     \<lparr>spec_executable = w_binary_path x, spec_token = w_token x, spec_project = w_project x, spec_selection = sel,
      spec_resume_session = w_resume_session_id x, spec_service_label = w_service_label x, spec_arguments = Some args,
      spec_codex_path = w_codex_path x, spec_path = w_path_env x\<rparr>"

text \<open>A worker that was never claimed is launched again; the result lists what was launched.  A failed
  launch is tried again by a later pass.\<close>

definition relaunch_dispatching :: "worker_env \<Rightarrow> worker_row \<Rightarrow> AgentWorkerLaunchSpec list db" where
  "relaunch_dispatching env x db =
     (case durable_selection (w_task_selection x) of
        None \<Rightarrow>
          (case we_drain env x of
             Inl e \<Rightarrow> (Inl e, db)
           | Inr False \<Rightarrow> (Inr [], db)
           | Inr True \<Rightarrow>
               (case abandon_worker (observed_abandonment x (show_nat (we_now env))
                       (lit ''Invalid durable worker task selection: Unknown agent worker task selection: '' @ w_task_selection x) None) db of
                  (Inl e, db1) \<Rightarrow> (Inl e, db1)
                | (Inr _, db1) \<Rightarrow> (Inr [], db1)))
      | Some sel \<Rightarrow>
          (case we_arguments env (w_command_arguments x) of
             Inl e \<Rightarrow> (Inl e, db)
           | Inr args \<Rightarrow> (Inr (case we_launch env (relaunch_spec x sel args) of
                                Inl _ \<Rightarrow> [] | Inr _ \<Rightarrow> [relaunch_spec x sel args]), db)))"

definition reconcile_worker :: "worker_env \<Rightarrow> worker_row \<Rightarrow> AgentWorkerLaunchSpec list db" where
  "reconcile_worker env x db =
     (if waits_for_worker env db x then (Inr [], db)
      else case abandonment_reason env db x of
             Some why \<Rightarrow>
               if we_drain env x \<noteq> Inr True then (Inr [], db)
               else (case abandon_worker (observed_abandonment x (show_nat (we_now env)) why (permitted_successor db x)) db of
                       (Inl e, db1) \<Rightarrow> (Inl e, db1)
                     | (Inr _, db1) \<Rightarrow> (Inr [], db1))
           | None \<Rightarrow> if w_state x = WDispatching then relaunch_dispatching env x db else (Inr [], db))"

fun reconcile_each :: "worker_env \<Rightarrow> worker_row list \<Rightarrow> AgentWorkerLaunchSpec list db" where
  "reconcile_each env [] db = (Inr [], db)"
| "reconcile_each env (x # xs) db =
     (case reconcile_worker env x db of
        (Inl e, db1) \<Rightarrow> (Inl e, db1)
      | (Inr ls, db1) \<Rightarrow>
          (case reconcile_each env xs db1 of
             (Inl e, db2) \<Rightarrow> (Inl e, db2)
           | (Inr ms, db2) \<Rightarrow> (Inr (ls @ ms), db2)))"

text \<open>The active workers after the pass, with what it launched.\<close>

definition reconcile_agent_worker_effects_stage ::
  "worker_env \<Rightarrow> ((worker_row \<times> project_row) list \<times> AgentWorkerLaunchSpec list) db" where
  "reconcile_agent_worker_effects_stage env db =
     (case list_active_workers db of
        Inl e \<Rightarrow> (Inl e, db)
      | Inr ws \<Rightarrow>
          (case reconcile_each env (map fst ws) db of
             (Inl e, db1) \<Rightarrow> (Inl e, db1)
           | (Inr ls, db1) \<Rightarrow> (map_sum id (\<lambda>ws'. (ws', ls)) (list_active_workers db1), db1)))"

section \<open>Services that have ended\<close>

definition list_terminal_workers :: "registry \<Rightarrow> (worker_row \<times> project_row) list result" where
  "list_terminal_workers db = list_workers_by_terminal_state db True"

text \<open>\<open>remove\<close> is the removal of the worker's directory, if there is one.\<close>

fun clean_services ::
  "(worker_row \<Rightarrow> bool result) \<Rightarrow> (str \<Rightarrow> unit result) \<Rightarrow> str \<Rightarrow> worker_row list \<Rightarrow> unit db" where
  "clean_services drain remove now [] db = (Inr (), db)"
| "clean_services drain remove now (x # xs) db =
     (case drain x of
        Inl e \<Rightarrow> (Inl e, db)
      | Inr False \<Rightarrow> (Inl ''Agent worker service is still active after its drain request'', db)
      | Inr True \<Rightarrow>
          (case remove (w_token x) of
             Inl e \<Rightarrow> (Inl e, db)
           | Inr _ \<Rightarrow> clean_services drain remove now xs (snd (mark_worker_service_cleaned (w_token x) now db))))"

definition cleanup_terminal_agent_worker_services ::
  "(worker_row \<Rightarrow> bool result) \<Rightarrow> (str \<Rightarrow> unit result) \<Rightarrow> str \<Rightarrow> str option \<Rightarrow> unit db" where
  "cleanup_terminal_agent_worker_services drain remove now project_path db =
     (case list_terminal_workers db of
        Inl e \<Rightarrow> (Inl e, db)
      | Inr ws \<Rightarrow> clean_services drain remove now
          (map fst (filter (\<lambda>(x, p). w_service_cleaned_at x = None
             \<and> (case project_path of None \<Rightarrow> True | Some path \<Rightarrow> p_path p = path)) ws)) db)"

section \<open>Dispatching an independent worker\<close>

definition release_agent_job_lease_for_shutdown :: "AgentRunJob \<Rightarrow> unit db" where
  "release_agent_job_lease_for_shutdown job = forget \<circ> release_lease (p_id (job_project job)) (job_holder job)"

text \<open>What a dispatch knows of the service it sets up: its token and label, the executable, the
  environment, and the serialised command line.\<close>

record service_setup =
  setup_token :: str
  setup_label :: str
  setup_executable :: str
  setup_codex_path :: "str option"
  setup_path :: str
  setup_command_line :: "str result"
  setup_prepare :: "unit result"
  setup_launch :: "unit result"

definition job_reservation :: "AgentRunJob \<Rightarrow> service_setup \<Rightarrow> str \<Rightarrow> str \<Rightarrow> AgentWorkerReservation" where
  "job_reservation job setup arguments created_at =
     \<lparr>res_project = p_id (job_project job), res_token = setup_token setup, res_expected_lease_holder = job_holder job,
      res_max_active_workers = job_max_global_jobs job, res_protocol_version = AGENT_WORKER_PROTOCOL_VERSION,
      res_service_label = setup_label setup, res_binary_path = setup_executable setup, res_command_arguments = arguments,
      res_path_env = setup_path setup, res_codex_path = setup_codex_path setup,
      res_task_selection = lit (selection_label (job_selection job)),
      res_resume_session_id = job_resume_session job, res_created_at = created_at\<rparr>"

definition launch_abandonment :: "service_setup \<Rightarrow> str \<Rightarrow> string \<Rightarrow> AgentWorkerAbandonment" where
  "launch_abandonment setup created_at e =
     \<lparr>ab_token = setup_token setup, ab_expected_state = WDispatching, ab_expected_pid = None,
      ab_expected_heartbeat_at = Some created_at, ab_finished_at = created_at,
      ab_error = lit ''Worker service launch failed: '' @ lit e, ab_permitted_successor = None\<rparr>"

definition dispatch_independent_agent_worker_with :: "service_setup \<Rightarrow> AgentRunJob \<Rightarrow> str \<Rightarrow> unit db" where
  "dispatch_independent_agent_worker_with setup job created_at db =
     (let release = release_agent_job_lease_for_shutdown job in
      case setup_prepare setup of
        Inl e \<Rightarrow> (case release db of (Inl e', db1) \<Rightarrow> (Inl e', db1) | (Inr _, db1) \<Rightarrow> (Inl e, db1))
      | Inr _ \<Rightarrow>
          (case setup_command_line setup of
             Inl e \<Rightarrow> (Inl e, db)
           | Inr arguments \<Rightarrow>
               (case reserve_worker (job_reservation job setup arguments created_at) None db of
                  (Inl e, db1) \<Rightarrow> (Inl e, snd (release db1))
                | (Inr False, db1) \<Rightarrow>
                    (case release db1 of
                       (Inl e', db2) \<Rightarrow> (Inl e', db2)
                     | (Inr _, db2) \<Rightarrow> (Inl ''Project lost its lease before worker could be reserved'', db2))
                | (Inr True, db1) \<Rightarrow>
                    (case setup_launch setup of
                       Inr _ \<Rightarrow> (Inr (), db1)
                     | Inl e \<Rightarrow>
                         (case abandon_worker (launch_abandonment setup created_at e) db1 of
                            (Inl e', db2) \<Rightarrow> (Inl e', db2)
                          | (Inr True, db2) \<Rightarrow> (Inl e, db2)
                          | (Inr False, db2) \<Rightarrow> (Inr (), db2))))))"

section \<open>A run inside the scheduler's process\<close>

text \<open>A run with Git needs a durable worker; the job is then held by that worker.\<close>

definition inline_job :: "AgentRunJob \<Rightarrow> str \<Rightarrow> AgentRunJob" where
  "inline_job job token = job\<lparr>job_holder := worker_lease_holder token, job_worker_token := Some token\<rparr>"

definition reserve_inline_worker :: "os_view \<Rightarrow> service_setup \<Rightarrow> AgentRunJob \<Rightarrow> str \<Rightarrow> AgentRunJob db" where
  "reserve_inline_worker os setup job started_at db =
     (let release = release_lease (p_id (job_project job)) (job_holder job);
          label = AGENT_INLINE_WORKER_SERVICE_LABEL_PREFIX @ setup_token setup;
          refuse = (\<lambda>e db'. (case release db' of (Inl e', db2) \<Rightarrow> (Inl e', db2) | (Inr _, db2) \<Rightarrow> (Inl e, db2)))
      in case setup_command_line setup of
           Inl e \<Rightarrow> (Inl e, db)
         | Inr arguments \<Rightarrow>
             (case reserve_worker (job_reservation job (setup\<lparr>setup_label := label\<rparr>) arguments started_at)
                     (Some (int (own_pid os), started_at)) db of
                (Inl e, db1) \<Rightarrow>
                  (case list_active_workers db1 of
                     Inl _ \<Rightarrow> (Inl e, db1)
                   | Inr ws \<Rightarrow>
                       if list_ex (\<lambda>(x, p). w_token x = setup_token setup \<and> w_project x = p_id (job_project job)
                            \<and> w_state x = WRunning \<and> own_process os x
                            \<and> w_lease_holder x = worker_lease_holder (setup_token setup)) ws
                       then (Inr (inline_job job (setup_token setup)), db1)
                       else (Inl e, snd (release db1)))
              | (Inr False, db1) \<Rightarrow>
                  refuse ''Project lost its lease or global worker capacity before inline ownership could be reserved'' db1
              | (Inr True, db1) \<Rightarrow> (Inr (inline_job job (setup_token setup)), db1)))"

section \<open>A worker that failed\<close>

definition abandon_agent_worker_after_error :: "str \<Rightarrow> string \<Rightarrow> str \<Rightarrow> unit db" where
  "abandon_agent_worker_after_error token e now db =
     (case list_active_workers db of
        Inl e' \<Rightarrow> (Inl e', db)
      | Inr ws \<Rightarrow>
          (case find (\<lambda>x. w_token x = token) (map fst ws) of
             None \<Rightarrow> (Inr (), db)
           | Some x \<Rightarrow>
               if is_inline_agent_worker x \<and> git_launch_state db (w_project x) token \<noteq> None then (Inr (), db)
               else forget (abandon_worker (observed_abandonment x now (lit ''Independent worker failed: '' @ lit e)
                                              (permitted_successor db x)) db)))"

section \<open>The fence of a worker that runs\<close>

definition renew_agent_job_worker_fence :: "nat \<Rightarrow> nat result \<Rightarrow> nat \<Rightarrow> AgentRunJob \<Rightarrow> unit db" where
  "renew_agent_job_worker_fence pid lease_timeout now job db =
     (case job_worker_token job of
        None \<Rightarrow> (Inr (), db)
      | Some token \<Rightarrow>
          (case lease_timeout of
             Inl e \<Rightarrow> (Inl e, db)
           | Inr timeout \<Rightarrow>
               (case renew_worker token (int pid) (show_nat now) (show_nat (saturating_add_u64 now timeout)) db of
                  (Inl e, db1) \<Rightarrow> (Inl e, db1)
                | (Inr True, db1) \<Rightarrow> (Inr (), db1)
                | (Inr False, db1) \<Rightarrow> (Inl ''Agent worker lost its durable ownership fence'', db1))))"

end
