(* ===== verification/Dispatch_Theorems.thy ===== *)
theory Dispatch_Theorems
  imports Worker_Dispatch Worker_Theorems
begin

text \<open>
  What a reconciliation pass may do to the active workers: it leaves a worker alone that lives, that a
  newer program runs or that could not be drained, it takes a worker whose process has exited, and
  it never disturbs the lease of another.  And what a dispatch leaves of the scheduler's lease.
\<close>

section \<open>The frame of an abandonment\<close>

lemma abandon_cases:
  assumes "registry_inv db" and "worker_active (ab_expected_state a)"
  obtains (refused) "abandon_worker a db = (Inr False, db)"
  | (gone) w where "w \<in> set (workers db)" "abandon_fenced a w" "worker_active (w_state w)"
      "abandon_worker a db = (Inr True, abandoned_db a w db)"
proof (cases "sql_select (abandon_fenced a) (workers db)")
  case None
  then show ?thesis using refused by (simp add: abandon_worker_def)
next
  case (Some w)
  then have w: "w \<in> set (workers db)" "abandon_fenced a w" by (simp_all add: sql_select_Some)
  with assms(2) have aw: "worker_active (w_state w)" by (simp add: abandon_fenced_def)
  show ?thesis
  proof (cases "lease_holder_of db (w_project w) \<in> {None, Some (w_lease_holder w), ab_permitted_successor a}")
    case True
    then show ?thesis using abandon_worker_effect [OF assms(1) w aw True] gone w aw by blast
  next
    case False
    then show ?thesis using Some refused by (simp add: abandon_worker_def)
  qed
qed

text \<open>Rows with the property \<open>P\<close> stand, an active one with the lease of its project.\<close>

definition undisturbed :: "(worker_row \<Rightarrow> bool) \<Rightarrow> registry \<Rightarrow> registry \<Rightarrow> bool" where
  "undisturbed P db db' \<longleftrightarrow> registry_inv db' \<and> launches db' = launches db \<and> set (leases db') \<subseteq> set (leases db)
     \<and> set (runs db) \<subseteq> set (runs db')
     \<and> (\<forall>v \<in> set (workers db). P v \<longrightarrow> v \<in> set (workers db')
          \<and> (worker_active (w_state v) \<longrightarrow> lease_holder_of db' (w_project v) = lease_holder_of db (w_project v)))"

lemma undisturbed_refl: "registry_inv db \<Longrightarrow> undisturbed P db db"
  by (simp add: undisturbed_def)

lemma undisturbed_trans: "undisturbed P db1 db2 \<Longrightarrow> undisturbed P db2 db3 \<Longrightarrow> undisturbed P db1 db3"
  by (auto simp: undisturbed_def)

lemma undisturbed_mono: "undisturbed P db db' \<Longrightarrow> (\<And>v. Q v \<Longrightarrow> P v) \<Longrightarrow> undisturbed Q db db'"
  by (auto simp: undisturbed_def)

lemma other_lease:
  assumes "lease_holder_of db (w_project w) = Some (w_lease_holder w)" and "p \<noteq> w_project w"
  shows "lease_holder_of (d\<lparr>leases := sql_delete (own_lease w) (leases db)\<rparr>) p = lease_holder_of db p"
  using assms(2) by (simp add: lease_holder_of_def sql_select_def sql_delete_def own_lease_def)
    (induction "leases db"; simp; metis)

lemma abandon_undisturbed:
  assumes inv: "registry_inv db" and act: "worker_active (ab_expected_state a)" and ab: "abandon_worker a db = (r, db')"
  shows "undisturbed (\<lambda>v. \<not> abandon_fenced a v) db db'"
  using inv act
proof (cases rule: abandon_cases)
  case refused
  then show ?thesis using ab inv by (simp add: undisturbed_refl)
next
  case (gone w)
  have db': "db' = abandoned_db a w db" using gone ab by simp
  have "registry_inv db'" using abandoned_db_inv [OF inv] gone db' by blast
  moreover have "launches db' = launches db" "set (leases db') \<subseteq> set (leases db)" "set (runs db) \<subseteq> set (runs db')"
    by (auto simp: db' abandoned_db_def Let_def sql_insert_def sql_delete_def)
  moreover have "v \<in> set (workers db')" if "v \<in> set (workers db)" "\<not> abandon_fenced a v" for v
    using in_sql_update [OF that(1), of "abandon_fenced a" "abandon_row a (next_rowid r_id (runs db))"] that(2)
    by (simp add: db' abandoned_db_def Let_def)
  moreover have "lease_holder_of db' (w_project v) = lease_holder_of db (w_project v)"
    if "v \<in> set (workers db)" "\<not> abandon_fenced a v" "worker_active (w_state v)" for v
  proof -
    have "w_project v \<noteq> w_project w"
      using registry_invD(3) [OF inv] that gone by (auto simp: workers_ok_def one_active_def)
    then show ?thesis
      by (auto simp: db' abandoned_db_def Let_def other_lease) (simp_all add: lease_holder_of_def)
  qed
  ultimately show ?thesis by (auto simp: undisturbed_def)
qed

section \<open>One worker of a pass\<close>

definition same_observation :: "worker_row \<Rightarrow> worker_row \<Rightarrow> bool" where
  "same_observation y v \<longleftrightarrow> w_token v = w_token y \<and> w_state v = w_state y \<and> w_pid v = w_pid y \<and> w_heartbeat_at v = w_heartbeat_at y"

lemma observed_fenced [simp]: "abandon_fenced (observed_abandonment y now e s) v \<longleftrightarrow> same_observation y v"
  by (simp add: abandon_fenced_def observed_abandonment_def same_observation_def)

lemma observed_state [simp]: "ab_expected_state (observed_abandonment y now e s) = w_state y"
  by (simp add: observed_abandonment_def)

text \<open>The workers a pass leaves alone.\<close>

definition healthy :: "worker_env \<Rightarrow> worker_row \<Rightarrow> bool" where
  "healthy env x \<longleftrightarrow> \<not> (is_inline_agent_worker x \<and> own_process (we_os env) x \<and> \<not> we_registered env (w_token x))
     \<and> (if w_state x = WDispatching
        then \<not> is_inline_agent_worker x \<and> \<not> startup_stale env x \<and> durable_selection (w_task_selection x) \<noteq> None
        else worker_process_state (we_os env) x \<noteq> Some False \<and> \<not> heartbeat_stale env x \<and> w_pid x \<noteq> None)"

definition spared :: "worker_env \<Rightarrow> registry \<Rightarrow> worker_row \<Rightarrow> bool" where
  "spared env db x \<longleftrightarrow> waits_for_worker env db x \<or> we_drain env x \<noteq> Inr True \<or> (healthy env x \<and> owns_project_lease db x)"

lemma reconcile_spared:
  assumes "spared env db x" and "reconcile_worker env x db = (r, db')"
  shows "db' = db"
proof (cases "waits_for_worker env db x")
  case False
  have n: "abandonment_reason env db x = None" if "healthy env x" "owns_project_lease db x"
    using that by (auto simp: healthy_def abandonment_reason_def startup_stale_def heartbeat_stale_def worker_in_run_def split: if_splits)
  have "we_drain env x \<noteq> Inr True \<or> (healthy env x \<and> owns_project_lease db x)" using assms(1) False by (simp add: spared_def)
  then show ?thesis
    using assms(2) False n
    by (auto simp: reconcile_worker_def relaunch_dispatching_def healthy_def
        split: option.splits sum.splits bool.splits if_splits)
qed (use assms(2) in \<open>simp add: reconcile_worker_def\<close>)

lemma reconcile_worker_writes:
  assumes "reconcile_worker env y db = (r, db')"
  shows "db' = db \<or> (\<exists>now e s q. abandon_worker (observed_abandonment y now e s) db = (q, db'))"
proof (cases "\<exists>now e s. db' = snd (abandon_worker (observed_abandonment y now e s) db)")
  case True
  then show ?thesis by (metis prod.collapse)
next
  case False
  then show ?thesis using assms
    unfolding reconcile_worker_def relaunch_dispatching_def
    by (auto split: if_splits option.splits sum.splits bool.splits prod.splits)
qed

lemma reconcile_worker_undisturbed:
  assumes inv: "registry_inv db" and act: "worker_active (w_state y)" and rec: "reconcile_worker env y db = (r, db')"
  shows "undisturbed (\<lambda>v. \<not> same_observation y v) db db'"
  using reconcile_worker_writes [OF rec]
proof (elim disjE exE)
  show ?thesis if "db' = db" using that undisturbed_refl [OF inv] by simp
  show ?thesis if "abandon_worker (observed_abandonment y now e s) db = (q, db')" for now e s q
    using abandon_undisturbed [OF inv _ that] act by simp
qed

section \<open>A pass\<close>

lemma lease_project_present:
  assumes "registry_inv db" and "sql_select (\<lambda>l. l_project l = p) (leases db) = Some l"
  obtains q where "sql_select (\<lambda>q. p_id q = p) (projects db) = Some q"
proof -
  have l: "l \<in> set (leases db)" "l_project l = p" using sql_select_Some [OF assms(2)] by simp_all
  then have "project_exists db p" using registry_invD(2) [OF assms(1)] by (auto simp: leases_ok_def)
  then have "sql_select (\<lambda>q. p_id q = p) (projects db) \<noteq> None" by (auto simp: project_exists_def sql_exists_def sql_select_None list_ex_iff)
  then show ?thesis using that by blast
qed

lemma owns_lease_holder:
  assumes "registry_inv db"
  shows "map_option (l_holder \<circ> fst) (lease_for_project db p) = lease_holder_of db p"
proof (cases "sql_select (\<lambda>l. l_project l = p) (leases db)")
  case (Some l)
  then obtain q where "sql_select (\<lambda>q. p_id q = p) (projects db) = Some q" by (rule lease_project_present [OF assms])
  moreover have "l_project l = p" using sql_select_Some [OF Some] by simp
  ultimately show ?thesis using Some by (simp add: lease_for_project_def lease_holder_of_def)
qed (simp add: lease_for_project_def lease_holder_of_def)

lemma owns_project_lease_iff:
  "registry_inv db \<Longrightarrow> owns_project_lease db x \<longleftrightarrow> lease_holder_of db (w_project x) = Some (w_lease_holder x)"
  using owns_lease_holder [of db "w_project x"]
  by (cases "lease_for_project db (w_project x)") (auto simp: owns_project_lease_def)

lemma permitted_successor_iff:
  "registry_inv db \<Longrightarrow> lease_holder_of db (w_project x) \<in> {None, Some (w_lease_holder x), permitted_successor db x}"
  using owns_lease_holder [of db "w_project x"]
  by (cases "lease_for_project db (w_project x)") (auto simp: permitted_successor_def split: if_splits)

lemma spared_stable:
  assumes "registry_inv db" "registry_inv db'" "launches db' = launches db"
    "lease_holder_of db' (w_project x) = lease_holder_of db (w_project x)"
  shows "spared env db' x \<longleftrightarrow> spared env db x"
  using assms by (simp add: spared_def waits_for_worker_def owns_project_lease_iff git_launch_state_def)

lemma reconcile_each_undisturbed:
  assumes "registry_inv db" and "\<forall>y \<in> set xs. worker_active (w_state y)" and "reconcile_each env xs db = (r, db')"
    and "\<forall>y \<in> set xs. \<forall>v. P v \<longrightarrow> \<not> same_observation y v"
  shows "undisturbed P db db'"
  using assms
proof (induction xs arbitrary: db r)
  case Nil
  then show ?case by (simp add: undisturbed_refl)
next
  case (Cons y ys)
  obtain q d where q: "reconcile_worker env y db = (q, d)" by fastforce
  have u: "undisturbed P db d"
    by (rule undisturbed_mono [OF reconcile_worker_undisturbed [OF Cons.prems(1) _ q]]) (use Cons.prems in auto)
  show ?case
  proof (cases q)
    case (Inl e)
    then show ?thesis using u q Cons.prems(3) by simp
  next
    case (Inr ls)
    obtain q2 where q2: "reconcile_each env ys d = (q2, db')"
      using Cons.prems(3) q Inr by (auto split: sum.splits prod.splits)
    have "undisturbed P d db'"
      by (rule Cons.IH [OF _ _ q2]) (use u Cons.prems in \<open>auto simp: undisturbed_def\<close>)
    then show ?thesis using u undisturbed_trans by blast
  qed
qed

lemma reconcile_each_spares:
  assumes "registry_inv db" and "\<forall>y \<in> set xs. worker_active (w_state y) \<and> (w_token y = w_token x \<longrightarrow> y = x)"
    and "x \<in> set (workers db)" "worker_active (w_state x)" "spared env db x" and "reconcile_each env xs db = (r, db')"
  shows "registry_inv db' \<and> x \<in> set (workers db') \<and> lease_holder_of db' (w_project x) = lease_holder_of db (w_project x)"
  using assms
proof (induction xs arbitrary: db r)
  case (Cons y ys)
  obtain q d where q: "reconcile_worker env y db = (q, d)" by fastforce
  have d: "registry_inv d \<and> x \<in> set (workers d) \<and> lease_holder_of d (w_project x) = lease_holder_of db (w_project x)
      \<and> launches d = launches db"
  proof (cases "y = x")
    case True
    then have "d = db" using reconcile_spared [OF Cons.prems(5)] q by blast
    then show ?thesis using Cons.prems by simp
  next
    case False
    then have "\<not> same_observation y x" using Cons.prems(2) by (auto simp: same_observation_def)
    then show ?thesis using reconcile_worker_undisturbed [OF Cons.prems(1) _ q] Cons.prems by (auto simp: undisturbed_def)
  qed
  show ?case
  proof (cases q)
    case (Inl e)
    then show ?thesis using d q Cons.prems(6) by simp
  next
    case (Inr ls)
    obtain q2 where q2: "reconcile_each env ys d = (q2, db')"
      using Cons.prems(6) q Inr by (auto split: sum.splits prod.splits)
    have "registry_inv db' \<and> x \<in> set (workers db') \<and> lease_holder_of db' (w_project x) = lease_holder_of d (w_project x)"
      by (rule Cons.IH [OF _ _ _ _ _ q2]) (use d Cons.prems spared_stable [of db d x env] in auto)
    then show ?thesis using d by simp
  qed
qed auto

lemma active_listed:
  assumes "list_active_workers db = Inr ws"
  shows "y \<in> set (map fst ws) \<Longrightarrow> y \<in> set (workers db) \<and> worker_active (w_state y)"
  using assms
  by (auto simp: list_active_workers_def list_workers_by_terminal_state_def Let_def join_project_def map_filter_def split: if_splits option.splits)


section \<open>An exited worker\<close>

lemma abandoned_row_stays:
  assumes "registry_inv db" "worker_active (w_state y)" "reconcile_worker env y db = (r, db')"
    and "v \<in> set (workers db)" "\<not> worker_active (w_state v)"
  shows "v \<in> set (workers db')"
proof -
  have "\<not> same_observation y v" using assms(2,5) by (auto simp: same_observation_def)
  then show ?thesis using reconcile_worker_undisturbed [OF assms(1-3)] assms(4) by (simp add: undisturbed_def)
qed

text \<open>The worker is abandoned: its run is recorded as failed, and its lease is gone.\<close>

definition reaped :: "worker_row \<Rightarrow> registry \<Rightarrow> bool" where
  "reaped x db \<longleftrightarrow> (\<exists>v \<in> set (workers db). w_token v = w_token x \<and> w_state v = WAbandoned
       \<and> (\<exists>r \<in> set (runs db). r_worker_token r = Some (w_token x) \<and> w_run_id v = Some (r_id r) \<and> r_status r = ''failure''))
     \<and> (\<forall>l \<in> set (leases db). \<not> own_lease x l)"

lemma reaped_stays:
  assumes "reaped x db" "registry_inv db" "worker_active (w_state y)" "reconcile_worker env y db = (r, db')"
  shows "reaped x db'"
proof -
  obtain v r' where v: "v \<in> set (workers db)" "w_token v = w_token x" "w_state v = WAbandoned" "r' \<in> set (runs db)"
      "r_worker_token r' = Some (w_token x)" "w_run_id v = Some (r_id r')" "r_status r' = ''failure''"
    using assms(1) unfolding reaped_def by blast
  have "v \<in> set (workers db')" using abandoned_row_stays [OF assms(2-4) v(1)] v(3) by simp
  moreover have "set (leases db') \<subseteq> set (leases db)" "set (runs db) \<subseteq> set (runs db')"
    using reconcile_worker_undisturbed [OF assms(2-4)] by (simp_all add: undisturbed_def)
  ultimately show ?thesis using v assms(1) unfolding reaped_def by blast
qed

lemma abandoned_db_reaped:
  assumes inv: "registry_inv db" and x: "x \<in> set (workers db)"
  shows "reaped x (abandoned_db (observed_abandonment x now e s) x db)"
proof -
  let ?a = "observed_abandonment x now e s" and ?rid = "next_rowid r_id (runs db)"
  let ?d = "abandoned_db ?a x db"
  have "abandon_row ?a ?rid x \<in> set (workers ?d)"
    using in_sql_update [OF x, of "abandon_fenced ?a" "abandon_row ?a ?rid"]
    by (simp add: abandoned_db_def Let_def same_observation_def)
  moreover have "outcome_row (abandonment_outcome ?a x) (w_token x) ?rid \<in> set (runs ?d)"
    by (simp add: abandoned_db_def Let_def sql_insert_def)
  moreover have "\<not> own_lease x l" if l: "l \<in> set (leases ?d)" for l
  proof
    assume o: "own_lease x l"
    have "l \<in> set (leases db)" using l by (auto simp: abandoned_db_def Let_def sql_delete_def split: if_splits)
    then have "lease_holder_of db (w_project x) = Some (w_lease_holder x)"
      using o lease_holder_of_Some [OF registry_invD(2) [OF inv]] by (auto simp: own_lease_def)
    then show False using l o by (simp add: abandoned_db_def Let_def sql_delete_def)
  qed
  ultimately show ?thesis
    unfolding reaped_def
    by (intro conjI bexI [of _ "abandon_row ?a ?rid x"] bexI [of _ "outcome_row (abandonment_outcome ?a x) (w_token x) ?rid"])
       (simp_all add: abandon_row_def outcome_row_def abandonment_outcome_def)
qed

text \<open>A worker in its run whose process has exited, and whose service is drained.\<close>

definition exited_worker :: "worker_env \<Rightarrow> worker_row \<Rightarrow> bool" where
  "exited_worker env x \<longleftrightarrow> worker_in_run x \<and> w_protocol_version x \<le> AGENT_WORKER_PROTOCOL_VERSION
     \<and> \<not> is_inline_agent_worker x \<and> worker_process_state (we_os env) x = Some False \<and> we_drain env x = Inr True"

lemma reconcile_exited:
  assumes inv: "registry_inv db" and x: "x \<in> set (workers db)" "exited_worker env x"
  shows "\<exists>db'. reconcile_worker env x db = (Inr [], db') \<and> reaped x db'"
proof -
  have act: "worker_active (w_state x)" using x(2) by (auto simp: exited_worker_def worker_in_run_def)
  have "abandonment_reason env db x \<noteq> None" using x(2) by (auto simp: exited_worker_def abandonment_reason_def split: if_splits)
  then obtain why where why: "abandonment_reason env db x = Some why" by blast
  let ?a = "observed_abandonment x (show_nat (we_now env)) why (permitted_successor db x)"
  have "abandon_worker ?a db = (Inr True, abandoned_db ?a x db)"
    by (rule abandon_worker_effect [OF inv x(1) _ act])
       (use permitted_successor_iff [OF inv, of x] in \<open>simp_all add: observed_abandonment_def abandon_fenced_def\<close>)
  moreover have "\<not> waits_for_worker env db x" using x(2) by (auto simp: exited_worker_def waits_for_worker_def)
  ultimately have "reconcile_worker env x db = (Inr [], abandoned_db ?a x db)"
    using why x(2) by (simp add: reconcile_worker_def exited_worker_def)
  then show ?thesis using abandoned_db_reaped [OF inv x(1)] by blast
qed

lemma reconcile_each_reaps:
  assumes "registry_inv db" and "\<forall>y \<in> set xs. worker_active (w_state y) \<and> (w_token y = w_token x \<longrightarrow> y = x)"
    and "(x \<in> set xs \<and> x \<in> set (workers db)) \<or> reaped x db" and "exited_worker env x" and "reconcile_each env xs db = (Inr ls, db')"
  shows "reaped x db'"
  using assms
proof (induction xs arbitrary: db ls)
  case (Cons y ys)
  obtain q d where q: "reconcile_worker env y db = (q, d)" by fastforce
  then obtain ms where ms: "reconcile_each env ys d = (Inr ms, db')"
    using Cons.prems(5) by (auto split: sum.splits prod.splits)
  have act: "worker_active (w_state y)" using Cons.prems(2) by simp
  note u = reconcile_worker_undisturbed [OF Cons.prems(1) act q]
  have "(x \<in> set ys \<and> x \<in> set (workers d)) \<or> reaped x d"
    using Cons.prems(3)
  proof
    assume r: "reaped x db"
    show ?thesis using reaped_stays [OF r Cons.prems(1) act q] by simp
  next
    assume x: "x \<in> set (y # ys) \<and> x \<in> set (workers db)"
    show ?thesis
    proof (cases "y = x")
      case True
      then show ?thesis using reconcile_exited [OF Cons.prems(1) _ Cons.prems(4)] x q by auto
    next
      case False
      then have "\<not> same_observation y x" using Cons.prems(2) by (auto simp: same_observation_def)
      then show ?thesis using u x False by (auto simp: undisturbed_def)
    qed
  qed
  moreover have "registry_inv d" using u by (simp add: undisturbed_def)
  ultimately show ?case using Cons.IH [OF _ _ _ Cons.prems(4) ms] Cons.prems(2) by simp
qed simp


section \<open>What a dispatch leaves of the scheduler's lease\<close>

lemma release_gone:
  assumes "registry_inv db"
  shows "lease_holder_of (snd (release_lease p h db)) p \<noteq> Some h" "registry_inv (snd (release_lease p h db))"
    "workers (snd (release_lease p h db)) = workers db"
proof -
  show inv: "registry_inv (snd (release_lease p h db))" by (rule release_lease_inv [OF assms])
  show "lease_holder_of (snd (release_lease p h db)) p \<noteq> Some h"
    using lease_holder_of_Some [OF registry_invD(2) [OF inv]] by (auto simp: release_lease_def Let_def sql_delete_def)
  show "workers (snd (release_lease p h db)) = workers db" by (simp add: release_lease_def Let_def)
qed

lemma reserved_active_rows:
  assumes "x \<in> set (workers (reserved_db q db))" "worker_active (w_state x)"
  shows "x = reserved_worker q \<or> x \<in> set (workers db)"
  using assms by (auto simp: reserved_db_def set_sql_update sql_insert_def split: if_splits)

lemma abandoned_active_rows:
  assumes "x \<in> set (workers (abandoned_db a w db))" "worker_active (w_state x)"
  shows "x \<in> set (workers db) \<and> \<not> abandon_fenced a x"
  using assms by (auto simp: abandoned_db_def Let_def set_sql_update abandon_row_def split: if_splits)

lemma reserve_unclaimed:
  assumes "reserve_worker q None db = (Inr True, d)"
  shows "d = reserved_db q db"
proof -
  have "reserved_db q db = db\<lparr>
     workers := sql_insert (reserved_worker q) (workers db),
     leases := sql_update (\<lambda>l. l_project l = res_project q \<and> l_holder l = res_expected_lease_holder q)
                  (\<lambda>l. l\<lparr>l_holder := w_lease_holder (reserved_worker q)\<rparr>) (leases db),
     workers := sql_update (\<lambda>v. w_project v = res_project q \<and> w_state v = WAbandoned \<and> w_token v \<noteq> res_token q)
                  (\<lambda>v. v\<lparr>w_state := WSuperseded\<rparr>) (sql_insert (reserved_worker q) (workers db))\<rparr>"
    by (simp add: reserved_db_def reserved_worker_def)
  then show ?thesis using assms by (auto simp: reserve_worker_def Let_def split: if_splits)
qed


section \<open>An instance\<close>

definition demo_current :: AgentWorkerReservation where
  "demo_current = demo_reservation\<lparr>res_protocol_version := 2\<rparr>"

definition demo_run :: registry where
  "demo_run = snd (claim_worker (lit ''t1'') 42 (lit ''1002'') (snd (reserve_worker demo_current None demo_leased)))"

definition demo_runner :: worker_row where
  "demo_runner = claim_row 42 (lit ''1002'') (reserved_worker demo_current)"

lemma demo_leased_reach: "reach registry_init registry_step demo_leased"
  unfolding demo_leased_def by (rule reach_step [OF reach_init [of registry_init, OF demo_init_ok]]) (rule step_acquire)

lemma demo_run_inv: "registry_inv demo_run" "registry_inv demo_leased"
proof -
  have "reach registry_init registry_step demo_run"
    unfolding demo_run_def
    by (rule reach_step [OF reach_step [OF demo_leased_reach]]) (rule step_reserve, rule step_claim)
  then show "registry_inv demo_run" by (rule reg.reach_inv)
  show "registry_inv demo_leased" using demo_leased_reach by (rule reg.reach_inv)
qed

lemma demo_run_rows: "workers demo_run = [demo_runner]" "map l_holder (leases demo_run) = [worker_lease_holder (lit ''t1'')]"
    "map l_project (leases demo_run) = [1]"
  by code_simp+

definition demo_env :: "bool \<Rightarrow> nat \<Rightarrow> worker_env" where
  "demo_env alive now = \<lparr>we_os = \<lparr>own_pid = 7, process_running = \<lambda>_. Some alive, group_running = \<lambda>_. None, orphan_attach = \<lambda>_ _ _. Inr False, spawn_supervisor = \<lambda>_. Inr ()\<rparr>, we_registered = \<lambda>_. False, we_now = now,
     we_drain = \<lambda>_. Inr True, we_launch = \<lambda>_. Inr (), we_arguments = \<lambda>_. Inr []\<rparr>"

lemma demo_facts:
  "worker_active (w_state demo_runner)" "demo_runner \<in> set (workers demo_run)"
  "spared (demo_env True 1010) demo_run demo_runner" "exited_worker (demo_env False 1010) demo_runner"
proof -
  show "worker_active (w_state demo_runner)" by code_simp
  show "demo_runner \<in> set (workers demo_run)" by (simp add: demo_run_rows)
  have "parse_u64 (lit ''1002'') = Some 1002"
    by (simp add: parse_u64_def parse_unsigned_def u64_max_def lit_def is_ascii_digit_def digit_val_def)
  then have "healthy (demo_env True 1010) demo_runner"
    by (simp add: healthy_def demo_env_def demo_runner_def claim_row_def worker_process_state_def heartbeat_stale_def own_process_def
        agent_worker_observation_is_stale_def AGENT_WORKER_HEARTBEAT_TIMEOUT_SECONDS_def saturating_sub_def)
  moreover have "lease_holder_of demo_run 1 = Some (worker_lease_holder (lit ''t1''))" by code_simp
  then have "owns_project_lease demo_run demo_runner"
    by (simp add: owns_project_lease_iff demo_run_inv demo_runner_def claim_row_def reserved_worker_def demo_current_def demo_reservation_def)
  ultimately show "spared (demo_env True 1010) demo_run demo_runner" by (simp add: spared_def)
  show "exited_worker (demo_env False 1010) demo_runner" by code_simp
qed


lemma listing_succeeds:
  assumes "\<forall>x \<in> set (workers db). case w_pid x of None \<Rightarrow> True | Some i \<Rightarrow> 0 \<le> i \<and> i \<le> int u32_max"
  shows "\<exists>ws. list_active_workers db = Inr ws"
  using assms
  by (auto simp: list_active_workers_def list_workers_by_terminal_state_def Let_def list_all_iff map_filter_def join_project_def
      split: option.splits)

lemma reconcile_keeps_pids:
  assumes "registry_inv db" "worker_active (w_state y)" "reconcile_worker env y db = (r, db')"
  shows "w_pid ` set (workers db') \<subseteq> w_pid ` set (workers db)"
  using reconcile_worker_writes [OF assms(3)]
proof (elim disjE exE)
  fix now e s q assume ab: "abandon_worker (observed_abandonment y now e s) db = (q, db')"
  have "worker_active (ab_expected_state (observed_abandonment y now e s))" using assms(2) by simp
  with assms(1) show ?thesis
  proof (cases rule: abandon_cases)
    case refused
    then show ?thesis using ab by simp
  next
    case (gone w)
    then have "db' = abandoned_db (observed_abandonment y now e s) w db" using ab by simp
    then show ?thesis by (auto simp: abandoned_db_def Let_def set_sql_update abandon_row_def)
  qed
qed simp


definition demo_setup :: "unit result \<Rightarrow> service_setup" where
  "demo_setup launch = \<lparr>setup_token = lit ''t2'', setup_label = lit ''clt-w-t2'', setup_executable = lit ''/bin/clt'',
     setup_codex_path = None, setup_path = lit ''/bin'', setup_command_line = Inr (lit ''[]''), setup_prepare = Inr (),
     setup_launch = launch\<rparr>"

definition demo_job :: AgentRunJob where
  "demo_job = \<lparr>job_project = demo_project 1, job_holder = lit ''pid-7'', job_worker_token = None, job_max_global_jobs = 2,
     job_selection = NextTodo, job_resume_session = None, job_blocked_before = 0, job_done_before = [], job_snapshots_before = []\<rparr>"


end
