(* ===== verification/Git_Finalizer.thy ===== *)
theory Git_Finalizer
  imports Completion Run_Tasks
begin

text \<open>
  The finalizer of managed Git journals (\<^verbatim>\<open>src/src/managed_git.rs\<close>): its lease, the reconciliation that takes a
  journal from Working through the commit proof and the publication proof, the repair of the board
  around it, and the retirement of journals that no task needs.

  The answers of Git are the record \<open>git_proof\<close>, one for every round of the loop since Git may change
  between rounds; the decoding of a worktree baseline is one of them.  The heartbeat of the lease
  runs beside the finalizer; its recorded error is a field of the lease.
\<close>

section \<open>Answers of Git\<close>

record worktree_baseline =
  wb_version :: nat
  wb_staged_patches :: "(str \<times> str) list option"
  wb_staged_index_tree :: "str option"
  wb_manifest_parent_head :: "str option"
  wb_upstream_remote :: "str option"
  wb_upstream_merge_ref :: "str option"
  wb_upstream_push_url :: "str option"

record git_proof =
  gp_baseline :: "str \<Rightarrow> worktree_baseline result"
  gp_sealed_field :: "str \<Rightarrow> bool"
  gp_lock :: "str \<Rightarrow> unit result"
  gp_branch :: "str option result"
  gp_head :: "str result"
  gp_is_ancestor :: "str \<Rightarrow> str \<Rightarrow> bool result"
  gp_range_is_safe :: "str \<Rightarrow> str \<Rightarrow> str \<Rightarrow> bool result"
  gp_find_commit :: "str \<Rightarrow> str option \<Rightarrow> str \<Rightarrow> str \<Rightarrow> bool \<Rightarrow> str option result"
  gp_matches_manifest :: "str \<Rightarrow> str \<Rightarrow> str \<Rightarrow> str \<Rightarrow> bool result"
  gp_is_retained :: "str option \<Rightarrow> str \<Rightarrow> str \<Rightarrow> str \<Rightarrow> bool result"
  gp_standard_environment :: "unit result"
  gp_changed_paths :: "str \<Rightarrow> str \<Rightarrow> str list result"
  gp_done_mode :: "str \<Rightarrow> str option result"
  gp_done_blob :: "str \<Rightarrow> str result"
  gp_references :: "str \<Rightarrow> str list result"
  gp_remote_urls :: "str list result"
  gp_remote_tips :: "str \<Rightarrow> str list result"
  gp_checked_branch :: "nat \<Rightarrow> str option result"
  gp_checked_head :: "nat \<Rightarrow> str result"
  gp_lock_index :: "unit result"
  gp_index_done :: "str result"
  gp_stage_done :: "str \<Rightarrow> unit result"
  gp_amend :: "journal_row \<Rightarrow> str \<Rightarrow> str \<Rightarrow> str result"
  gp_agent_identity :: "str \<Rightarrow> bool result"
  gp_trailers :: "str \<Rightarrow> str list result"
  gp_publish_index :: "unit result"
  gp_update_ref :: "str \<Rightarrow> str \<Rightarrow> str \<Rightarrow> unit result"
  gp_fetch_tip :: "bool \<Rightarrow> str option \<Rightarrow> str option \<Rightarrow> worktree_baseline \<Rightarrow> str option result"
  gp_tip_proves :: "str \<Rightarrow> str \<Rightarrow> str \<Rightarrow> str \<Rightarrow> bool \<Rightarrow> bool result"
  gp_push :: "str option \<Rightarrow> str option \<Rightarrow> worktree_baseline \<Rightarrow> str \<Rightarrow> unit result"

section \<open>The lease of a finalizer\<close>

record finalizer =
  fz_project :: int
  fz_holder :: str
  fz_heartbeat_error :: "string option"

definition ensure_owned :: "str \<Rightarrow> finalizer \<Rightarrow> unit ws" where
  "ensure_owned now fz =
     ws_bind (ws_get (\<lambda>_. case fz_heartbeat_error fz of Some e \<Rightarrow> Inl e | None \<Rightarrow> Inr ())) (\<lambda>_.
     ws_ensure (\<lambda>w. git_finalization_lease_is_owned (ws_db w) (fz_project fz) (fz_holder fz) now)
       ''Git finalizer lost its exact project lease'')"

definition ensure_agent_git_finalization_fence :: "str \<Rightarrow> finalizer option \<Rightarrow> unit ws" where
  "ensure_agent_git_finalization_fence now lease = (case lease of None \<Rightarrow> ws_ok () | Some fz \<Rightarrow> ensure_owned now fz)"

definition reclaimable_holder :: "os_view \<Rightarrow> bool \<Rightarrow> registry \<Rightarrow> int \<Rightarrow> str option" where
  "reclaimable_holder os reclaim_current db pid =
     (case lease_for_project db pid of
        None \<Rightarrow> None
      | Some (l, _) \<Rightarrow>
          if agent_lease_holder_liveness os (l_holder l) = Dead
             \<or> (reclaim_current \<and> agent_lease_holder_liveness os (l_holder l) = CurrentProcess)
          then Some (l_holder l) else None)"

definition try_acquire_agent_git_finalization_lease_with_timeout ::
  "os_view \<Rightarrow> int \<Rightarrow> bool \<Rightarrow> str \<Rightarrow> nat \<Rightarrow> nat \<Rightarrow> finalizer option ws" where
  "try_acquire_agent_git_finalization_lease_with_timeout os pid reclaim_current holder now timeout w =
     ws_bind (on_db (try_acquire_git_finalization_lease pid holder (show_nat now)
                (show_nat (saturating_add_u64 now (max timeout 1))) (reclaimable_holder os reclaim_current (ws_db w) pid))) (\<lambda>acquired.
     ws_ok (if acquired then Some \<lparr>fz_project = pid, fz_holder = holder, fz_heartbeat_error = None\<rparr> else None)) w"

text \<open>The lease is given back whatever the fence says; the fence's error comes first.\<close>

definition release_finalizer :: "str \<Rightarrow> finalizer \<Rightarrow> unit ws" where
  "release_finalizer now fz w =
     (case ensure_owned now fz w of
        (owned, w1) \<Rightarrow>
          (case on_db (release_lease (fz_project fz) (fz_holder fz)) w1 of
             (released, w2) \<Rightarrow> (result_bind owned (\<lambda>_. map_sum id (\<lambda>_. ()) released), w2)))"

text \<open>Three attempts to save the error of a push.\<close>

fun save_push_error :: "nat \<Rightarrow> str \<Rightarrow> int \<Rightarrow> str \<Rightarrow> finalizer \<Rightarrow> unit ws" where
  "save_push_error 0 now pid e fz w =
     (Inl ''Git push retry state changed repeatedly before CLT could persist its retry backoff'', w)"
| "save_push_error (Suc n) now pid e fz w =
     ws_bind (ensure_owned now fz) (\<lambda>_ w.
       case find (\<lambda>g. g_state g = PushPending) (list_pending_git_finalizations (ws_db w) (Some pid)) of
         None \<Rightarrow> (Inr (), w)
       | Some g \<Rightarrow>
           ws_bind (ensure_owned now fz) (\<lambda>_.
           ws_bind (on_db (compare_and_set_git_finalization_blocking (g_project g) (g_session g) (g_generation g) PushPending
                      (g_owner_run_token g) None (Some e) now)) (\<lambda>changed.
           if changed then ws_ok () else save_push_error n now pid e fz)) w) w"

definition record_agent_git_push_retry_error_message :: "str \<Rightarrow> int \<Rightarrow> str \<Rightarrow> finalizer \<Rightarrow> unit ws" where
  "record_agent_git_push_retry_error_message = save_push_error 3"

definition agent_git_push_retry_backoff_remaining :: "journal_row list \<Rightarrow> nat \<Rightarrow> nat \<Rightarrow> nat option" where
  "agent_git_push_retry_backoff_remaining gs now failure_backoff =
     Option.bind (find (\<lambda>g. g_state g = PushPending \<and> g_last_error g \<noteq> None) gs)
       (\<lambda>g. remaining_agent_delay (Some (g_updated_at g)) now failure_backoff)"

section \<open>What the board shows\<close>

definition terminal_task :: "workspace \<Rightarrow> str \<Rightarrow> (TaskStatus \<times> TaskEntry) option" where
  "terminal_task w session = md_task_for_codex_session (ws_board w) session False"

definition worktree_contains_completed_done_task :: "workspace \<Rightarrow> str \<Rightarrow> bool" where
  "worktree_contains_completed_done_task w session =
     (case terminal_task w session of None \<Rightarrow> False
      | Some (sta, e) \<Rightarrow> sta = Done \<and> task_content_has_completed_note (t_content e))"

text \<open>Any file of the task tree holds the marker.\<close>

definition task_tree_contains_session_marker :: "workspace \<Rightarrow> str \<Rightarrow> bool" where
  "task_tree_contains_session_marker w session =
     list_ex (\<lambda>file. str_find file (lit ''codex:'' @ session) \<noteq> None)
       (ws_archive w # map (ws_board w) TASK_STATUSES)"

definition matching_agent_session_tasks :: "workspace \<Rightarrow> TaskStatus \<Rightarrow> str \<Rightarrow> str \<Rightarrow> TaskEntry list" where
  "matching_agent_session_tasks w sta session ident =
     filter (\<lambda>e. codex_session_id_from_task_content (t_content e) = Some session
        \<and> durable_task_identity (t_content e) = Some ident \<and> task_content_has_completed_note (t_content e)) (entries w sta)"

definition task_identity_entries :: "workspace \<Rightarrow> str \<Rightarrow> (TaskStatus \<times> TaskEntry) list" where
  "task_identity_entries w ident = concat (map (\<lambda>sta. map (Pair sta) (filter (\<lambda>e. durable_task_identity (t_content e) = Some ident) (entries w sta))) TASK_STATUSES)"

section \<open>Repairing the Done move of a tracked journal\<close>

text \<open>Removes the last of the matching entries until \<open>keep\<close> are left; \<open>n\<close> bounds the removals.\<close>

fun remove_duplicates :: "nat \<Rightarrow> nat \<Rightarrow> TaskStatus \<Rightarrow> str \<Rightarrow> str \<Rightarrow> unit ws" where
  "remove_duplicates 0 keep sta session ident w = (Inr (), w)"
| "remove_duplicates (Suc n) keep sta session ident w =
     (let ds = matching_agent_session_tasks w sta session ident in
      if length ds \<le> keep then (Inr (), w)
      else ws_bind (on_board (\<lambda>b. md_remove_task_entry b sta (last ds)))
             (\<lambda>_. remove_duplicates n keep sta session ident) w)"

definition plain_source :: "TaskSource \<Rightarrow> bool" where
  "plain_source src = (case src of MarkdownLine _ \<Rightarrow> True | PathSource _ is_dir \<Rightarrow> \<not> is_dir)"

definition move_tracked_entry :: "TaskStatus \<Rightarrow> TaskEntry \<Rightarrow> bool ws" where
  "move_tracked_entry sta e =
     ws_bind (ws_get (\<lambda>w. need ''The tracked Git task changed while CLT was repairing its Done move''
                (position (\<lambda>x. t_source x = t_source e) (entries w sta)))) (\<lambda>i.
     ws_bind (on_board (\<lambda>b. md_move_without_reordering b sta Done (i + 1))) (\<lambda>_.
     ws_ok True))"

definition keep_one_done_entry :: "str \<Rightarrow> str \<Rightarrow> bool ws" where
  "keep_one_done_entry session ident =
     ws_bind (\<lambda>w. remove_duplicates (length (entries w Done)) 1 Done session ident w) (\<lambda>_.
     ws_bind (\<lambda>w. remove_duplicates (length (entries w Todo)) 0 Todo session ident w) (\<lambda>_.
     ws_bind (\<lambda>w. remove_duplicates (length (entries w Doing)) 0 Doing session ident w) (\<lambda>_.
     ws_ok True)))"

definition repair_tracking_after_lock :: "str \<Rightarrow> str \<Rightarrow> bool ws" where
  "repair_tracking_after_lock session ident w =
     (let gone = matching_agent_session_tasks w Done session ident;
          active = concat (map (\<lambda>sta. map (Pair sta) (matching_agent_session_tasks w sta session ident)) [Todo, Doing])
      in if matching_agent_session_tasks w Backlog session ident \<noteq> [] then (Inr False, w)
         else if gone = [] then
           (case active of [(sta, e)] \<Rightarrow> move_tracked_entry sta e w | _ \<Rightarrow> (Inr False, w))
         else if (active \<noteq> [] \<or> length gone > 1)
              \<and> \<not> list_all (\<lambda>e. plain_source (t_source e) \<and> trim_end (t_content e) = trim_end (t_content (hd gone)))
                     (gone @ map snd active)
         then (Inr False, w)
         else keep_one_done_entry session ident w)"

definition repair_tracking_agent_git_board :: "site \<Rightarrow> str \<Rightarrow> str \<Rightarrow> bool ws" where
  "repair_tracking_agent_git_board st session ident =
     ws_bind (ws_get (\<lambda>_. s_lock st)) (\<lambda>_.
     ws_bind (ws_get (\<lambda>_. s_cleanup st)) (\<lambda>_.
     repair_tracking_after_lock session ident))"

section \<open>Retiring journals\<close>

definition exact_working_git_finalization_snapshot :: "journal_row \<Rightarrow> journal_row \<Rightarrow> bool" where
  "exact_working_git_finalization_snapshot current expected \<longleftrightarrow>
     g_state current = Working \<and> g_state expected = Working
     \<and> g_project current = g_project expected \<and> g_session current = g_session expected
     \<and> g_generation current = g_generation expected \<and> g_task_identity current = g_task_identity expected
     \<and> g_owner_run_token current = g_owner_run_token expected \<and> g_git_mode current = g_git_mode expected
     \<and> g_starting_head current = g_starting_head expected \<and> g_branch_ref current = g_branch_ref expected
     \<and> g_upstream_ref current = g_upstream_ref expected \<and> g_worktree_baseline current = g_worktree_baseline expected
     \<and> g_commit_oid current = g_commit_oid expected \<and> g_created_at current = g_created_at expected"

text \<open>A run that never claimed a task retires the journal it owns.\<close>

definition cancel_unlinked_working_git_finalization :: "site \<Rightarrow> str \<Rightarrow> journal_row \<Rightarrow> str \<Rightarrow> bool ws" where
  "cancel_unlinked_working_git_finalization st now g owner_token =
     ws_bind (ws_get (\<lambda>_. s_lock st)) (\<lambda>_ w.
     if terminal_task w (g_session g) \<noteq> None then (Inr False, w)
     else case git_finalization (ws_db w) (g_project g) (g_session g) of
            None \<Rightarrow> (Inr False, w)
          | Some current \<Rightarrow>
              if \<not> exact_working_git_finalization_snapshot current g \<or> g_owner_run_token current \<noteq> Some owner_token
              then (Inr False, w)
              else on_db (compare_and_set_owned_git_finalization (g_project current) (g_session current) (g_generation current)
                     Cancelled owner_token None None now) w)"

definition retire_unlinked_working_git_finalization_after_run :: "site \<Rightarrow> str \<Rightarrow> journal_row \<Rightarrow> str option \<Rightarrow> bool ws" where
  "retire_unlinked_working_git_finalization_after_run st now g run_token =
     (case run_token of
        None \<Rightarrow> ws_ok False
      | Some t \<Rightarrow> if g_owner_run_token g \<noteq> Some t then ws_ok False else cancel_unlinked_working_git_finalization st now g t)"

definition orphan_reason :: str where
  "orphan_reason = lit ''Abandoned unbound Git journal: no task identity or board marker remains''"

definition cancel_orphaned_under_lock :: "site \<Rightarrow> str \<Rightarrow> finalizer \<Rightarrow> journal_row \<Rightarrow> bool ws" where
  "cancel_orphaned_under_lock st now fz g =
     ws_bind (ws_ensure (\<lambda>_. fz_project fz = g_project g) ''Orphan journal recovery requires the matching project lease'') (\<lambda>_.
     ws_bind (ws_get (\<lambda>w. need ''Orphan journal project is no longer registered''
                (find (\<lambda>p. p_id p = g_project g) (list_projects (ws_db w))))) (\<lambda>p.
     ws_bind (ws_ensure (\<lambda>_. p_path p = s_root st) ''Orphan journal recovery requires the registered project directory'') (\<lambda>_.
     ws_bind (ensure_owned now fz) (\<lambda>_.
     ws_bind (ws_get (\<lambda>_. s_lock st)) (\<lambda>_ w.
     if task_tree_contains_session_marker w (g_session g) then (Inr False, w)
     else ws_bind (ensure_owned now fz) (\<lambda>_.
          on_db (cancel_orphaned_working_git_finalization g (fz_holder fz) orphan_reason now now)) w)))))"

definition cancel_orphaned_journal :: "site \<Rightarrow> git_proof \<Rightarrow> str \<Rightarrow> finalizer \<Rightarrow> journal_row \<Rightarrow> bool ws" where
  "cancel_orphaned_journal st gp now fz g =
     (if g_state g \<noteq> Working \<or> g_task_identity g \<noteq> None \<or> g_commit_oid g \<noteq> None \<or> g_owner_run_token g \<noteq> None
      then ws_ok False
      else case gp_baseline gp (g_worktree_baseline g) of
             Inl _ \<Rightarrow> ws_ok False
           | Inr _ \<Rightarrow> if gp_sealed_field gp (g_worktree_baseline g) then ws_ok False
                      else cancel_orphaned_under_lock st now fz g)"

definition AGENT_ABANDONED_UNBOUND_JOURNAL_REASON :: str where
  "AGENT_ABANDONED_UNBOUND_JOURNAL_REASON = lit ''Managed Git proof was cancelled because its run ended before claiming a task''"

text \<open>The task of an unbound journal is unfinished, displaced or ambiguous: the journal stays.\<close>

definition unbound_journal_needed :: "workspace \<Rightarrow> str \<Rightarrow> bool" where
  "unbound_journal_needed w session =
     (case linked_tasks w session of
        [] \<Rightarrow> task_tree_contains_session_marker w session
      | [(sta, _)] \<Rightarrow> sta \<noteq> Done
      | _ \<Rightarrow> True)"

fun retire_unbound :: "int \<Rightarrow> str \<Rightarrow> journal_row list \<Rightarrow> nat ws" where
  "retire_unbound pid now [] w = (Inr 0, w)"
| "retire_unbound pid now (g # gs) w =
     (if unbound_journal_needed w (g_session g) then retire_unbound pid now gs w
      else ws_bind (on_db (retire_abandoned_unbound_git_finalization pid (g_session g) (g_generation g)
                      (linked_tasks w (g_session g) \<noteq> []) AGENT_ABANDONED_UNBOUND_JOURNAL_REASON now)) (\<lambda>gone.
           ws_bind (retire_unbound pid now gs) (\<lambda>n. ws_ok (if gone then Suc n else n))) w)"

definition retire_abandoned_unbound_git_journals :: "site \<Rightarrow> int \<Rightarrow> str \<Rightarrow> nat ws" where
  "retire_abandoned_unbound_git_journals st pid now w =
     (let gs = filter (\<lambda>g. g_state g = Working \<and> g_task_identity g = None \<and> g_commit_oid g = None)
                 (list_pending_git_finalizations (ws_db w) (Some pid))
      in if gs = [] then (Inr 0, w)
         else ws_bind (ws_get (\<lambda>_. s_lock st)) (\<lambda>_. retire_unbound pid now gs) w)"

text \<open>The same task has a proven completion in another session.\<close>

definition superseding_journal :: "git_proof \<Rightarrow> workspace \<Rightarrow> journal_row \<Rightarrow> journal_row option" where
  "superseding_journal gp w g =
     (case g_task_identity g of
        None \<Rightarrow> None
      | Some ident \<Rightarrow>
          (case task_identity_entries w ident of
             [(Done, e)] \<Rightarrow>
               Option.bind (codex_session_id_from_task_content (t_content e)) (\<lambda>session.
               Option.bind (git_finalization (ws_db w) (g_project g) session) (\<lambda>c.
               if g_state c = Completed \<and> g_task_identity c = g_task_identity g \<and> g_branch_ref c = g_branch_ref g
                  \<and> g_git_mode c = g_git_mode g \<and> g_upstream_ref c = g_upstream_ref g
                  \<and> task_content_has_completed_note (t_content e)
               then Some c else None))
           | _ \<Rightarrow> None))"

definition superseding_proof :: "git_proof \<Rightarrow> worktree_baseline \<Rightarrow> journal_row \<Rightarrow> journal_row \<Rightarrow> bool result" where
  "superseding_proof gp b g c =
     (case (g_starting_head g, g_commit_oid c, g_starting_head c, g_task_identity g) of
        (Some start, Some commit, Some completed_start, Some ident) \<Rightarrow>
          result_bind (gp_baseline gp (g_worktree_baseline c)) (\<lambda>cb.
          if wb_upstream_remote b \<noteq> wb_upstream_remote cb \<or> wb_upstream_merge_ref b \<noteq> wb_upstream_merge_ref cb
             \<or> wb_upstream_push_url b \<noteq> wb_upstream_push_url cb then Inr False
          else result_bind (gp_is_ancestor gp start completed_start) (\<lambda>ancestor. if \<not> ancestor then Inr False
          else result_bind (gp_is_retained gp (g_branch_ref c) commit (g_session c) ident) (\<lambda>retained. if \<not> retained then Inr False
          else result_bind (gp_find_commit gp (case wb_manifest_parent_head cb of Some h \<Rightarrow> h | None \<Rightarrow> completed_start)
                  (g_branch_ref c) (g_session c) ident (wb_version cb = 1)) (\<lambda>found. if found \<noteq> Some commit then Inr False
          else gp_matches_manifest gp commit (g_session c) ident (g_worktree_baseline c)))))
      | _ \<Rightarrow> Inr False)"

definition retire_superseded :: "site \<Rightarrow> git_proof \<Rightarrow> str \<Rightarrow> journal_row \<Rightarrow> bool ws" where
  "retire_superseded st gp now g =
     (if g_task_identity g = None \<or> g_state g \<noteq> Working \<or> g_commit_oid g \<noteq> None then ws_ok False
      else case gp_baseline gp (g_worktree_baseline g) of
             Inl _ \<Rightarrow> ws_ok False
           | Inr b \<Rightarrow>
               if gp_sealed_field gp (g_worktree_baseline g) then ws_ok False
               else ws_bind (ws_get (\<lambda>_. s_lock st)) (\<lambda>_ w.
                 if task_tree_contains_session_marker w (g_session g) then (Inr False, w)
                 else case superseding_journal gp w g of
                        None \<Rightarrow> (Inr False, w)
                      | Some c \<Rightarrow>
                          ws_bind (ws_get (\<lambda>_. superseding_proof gp b g c)) (\<lambda>proven.
                          if \<not> proven then ws_ok False
                          else on_db (retire_superseded_working_git_finalization g c now)) w))"

fun count_retired :: "(journal_row \<Rightarrow> bool ws) \<Rightarrow> journal_row list \<Rightarrow> nat ws" where
  "count_retired f [] w = (Inr 0, w)"
| "count_retired f (g # gs) w =
     ws_bind (f g) (\<lambda>gone. ws_bind (count_retired f gs) (\<lambda>n. ws_ok (if gone then Suc n else n))) w"

definition retire_superseded_working_git_journals :: "site \<Rightarrow> git_proof \<Rightarrow> int \<Rightarrow> str \<Rightarrow> nat ws" where
  "retire_superseded_working_git_journals st gp pid now w =
     count_retired (retire_superseded st gp now) (list_pending_git_finalizations (ws_db w) (Some pid)) w"

definition cancel_orphans_under_lease :: "site \<Rightarrow> git_proof \<Rightarrow> str \<Rightarrow> int \<Rightarrow> finalizer \<Rightarrow> nat ws" where
  "cancel_orphans_under_lease st gp now pid fz w =
     (case count_retired (cancel_orphaned_journal st gp now fz) (list_pending_git_finalizations (ws_db w) (Some pid)) w of
        (retired, w1) \<Rightarrow>
          (case release_finalizer now fz w1 of
             (released, w2) \<Rightarrow> (result_bind retired (\<lambda>n. map_sum id (\<lambda>_. n) released), w2)))"

definition AGENT_GIT_FINALIZATION_LEASE_SECONDS :: nat where "AGENT_GIT_FINALIZATION_LEASE_SECONDS = 30 * 8 + 60"

definition reconcile_orphaned_agent_git_journals :: "site \<Rightarrow> git_proof \<Rightarrow> os_view \<Rightarrow> int \<Rightarrow> str \<Rightarrow> nat \<Rightarrow> nat ws" where
  "reconcile_orphaned_agent_git_journals st gp os pid holder now =
     ws_bind (retire_abandoned_unbound_git_journals st pid (show_nat now)) (\<lambda>a.
     ws_bind (retire_superseded_working_git_journals st gp pid (show_nat now)) (\<lambda>b w.
     if list_pending_git_finalizations (ws_db w) (Some pid) = [] then (Inr (a + b), w)
     else ws_bind (try_acquire_agent_git_finalization_lease_with_timeout os pid False holder now AGENT_GIT_FINALIZATION_LEASE_SECONDS) (\<lambda>lease.
          ws_bind (ws_get (\<lambda>_. need ''Project is still owned by an agent or interactive session; retry reconciliation after it stops'' lease)) (\<lambda>fz.
          ws_bind (cancel_orphans_under_lease st gp (show_nat now) pid fz) (\<lambda>c.
          ws_ok (a + b + c)))) w))"

end
