(* ===== verification/Git_Repair.thy ===== *)
theory Git_Repair
  imports Git_Finalizer
begin

text \<open>
  The repair of a misplaced Done entry (\<^verbatim>\<open>src/src/managed_git/repair.rs\<close>): the task's commit has the
  sealed tree but for the position of the task's own line in \<^verbatim>\<open>tasks/done.md\<close>.  The commit is amended in
  an isolated checkout and published only where it is unpublished, still the head of its branch, and
  the registry and the board still say that the task waits for its finalization.

  \<^verbatim>\<open>gp_lock_index\<close> is the locked copy of the shared index, \<^verbatim>\<open>gp_amend\<close> the amended commit of the isolated
  checkout with the sealed tree; the checks are repeated three times, and the branch and the head
  may be different each time.
\<close>

section \<open>The selected line\<close>

definition is_selected_line :: "str \<Rightarrow> str \<Rightarrow> bool" where
  "is_selected_line session l \<longleftrightarrow>
     starts_with l TASK_PREFIX \<and> codex_session_id_from_task_content (trim l) = Some session"

definition selected_line_removed :: "str \<Rightarrow> str \<Rightarrow> (str \<times> str) option" where
  "selected_line_removed text session =
     (case filter (is_selected_line session) (split_inclusive_nl text) of
        [l] \<Rightarrow> Some (l, concat (filter (\<lambda>l. \<not> is_selected_line session l) (split_inclusive_nl text)))
      | _ \<Rightarrow> None)"

definition DONE_PATH :: str where "DONE_PATH = lit ''tasks/done.md''"

definition is_only_selected_order :: "git_proof \<Rightarrow> str \<Rightarrow> str \<Rightarrow> str \<Rightarrow> bool result" where
  "is_only_selected_order gp commit tree session =
     result_bind (gp_changed_paths gp commit tree) (\<lambda>paths.
     if paths \<noteq> [DONE_PATH] then Inr False
     else result_bind (gp_done_mode gp commit) (\<lambda>old_mode.
          result_bind (gp_done_mode gp tree) (\<lambda>new_mode.
          if old_mode \<noteq> new_mode then Inr False
          else result_bind (gp_done_blob gp commit) (\<lambda>old.
               result_bind (gp_done_blob gp tree) (\<lambda>new.
               Inr (selected_line_removed old session \<noteq> None
                    \<and> selected_line_removed old session = selected_line_removed new session))))))"

section \<open>The staged board\<close>

definition split_once :: "str \<Rightarrow> str \<Rightarrow> (str \<times> str) option" where
  "split_once s p = map_option (\<lambda>i. (take i s, drop (i + length p) s)) (str_find s p)"

text \<open>The line of the sealed Done board and the heading before it.\<close>

definition sealed_entry :: "str \<Rightarrow> str \<Rightarrow> (str \<times> str) result" where
  "sealed_entry expected session =
     result_bind (need ''Sealed Done entry is ambiguous'' (selected_line_removed expected session)) (\<lambda>(own_line, _).
     result_bind (need ''Sealed Done entry disappeared'' (split_once expected own_line)) (\<lambda>(heading, _).
     result_bind (ensure (\<not> list_ex (\<lambda>l. starts_with l TASK_PREFIX) (lines heading))
        ''Automatic order repair requires the selected task to be the first Done entry'') (\<lambda>_.
     Inr (own_line, heading))))"

text \<open>The staged Done board with the selected line where the sealed board has it.\<close>

definition corrected_board :: "str \<Rightarrow> str \<Rightarrow> str \<Rightarrow> str \<Rightarrow> str result" where
  "corrected_board own_line heading staged session =
     result_bind (need ''Shared index no longer has the exact selected Done entry'' (selected_line_removed staged session)) (\<lambda>(staged_selected, remainder).
     result_bind (ensure (staged_selected = own_line \<and> starts_with remainder heading)
        ''Shared index changed the selected task or board heading; preserve those edits for explicit recovery'') (\<lambda>_.
     Inr (heading @ own_line @ drop (length heading) remainder)))"

definition correct_shared_index :: "git_proof \<Rightarrow> str \<Rightarrow> str \<Rightarrow> unit result" where
  "correct_shared_index gp sealed session =
     result_bind (gp_done_blob gp sealed) (\<lambda>expected.
     result_bind (sealed_entry expected session) (\<lambda>(own_line, heading).
     result_bind (gp_index_done gp) (\<lambda>staged.
     result_bind (corrected_board own_line heading staged session) (\<lambda>corrected.
     if corrected = staged then Inr () else gp_stage_done gp corrected))))"

section \<open>The commit is unpublished\<close>

fun none_publishes :: "git_proof \<Rightarrow> str \<Rightarrow> str list \<Rightarrow> unit result" where
  "none_publishes gp commit [] = Inr ()"
| "none_publishes gp commit (t # ts) =
     result_bind (gp_is_ancestor gp commit t) (\<lambda>published.
     result_bind (ensure (\<not> published)
        ''The task commit is already published; automatic board-order repair will not rewrite it'') (\<lambda>_.
     none_publishes gp commit ts))"

fun no_remote_publishes :: "git_proof \<Rightarrow> str \<Rightarrow> str list \<Rightarrow> unit result" where
  "no_remote_publishes gp commit [] = Inr ()"
| "no_remote_publishes gp commit (u # us) =
     result_bind (gp_remote_tips gp u) (\<lambda>tips.
     result_bind (none_publishes gp commit tips) (\<lambda>_.
     no_remote_publishes gp commit us))"

definition require_unpublished :: "git_proof \<Rightarrow> str \<Rightarrow> str \<Rightarrow> worktree_baseline \<Rightarrow> unit result" where
  "require_unpublished gp branch commit b =
     result_bind (gp_references gp commit) (\<lambda>refs.
     result_bind (ensure (list_all (\<lambda>r. r = branch) refs)
        ''Automatic board-order repair cannot rewrite a commit retained by another local or remote reference'') (\<lambda>_.
     result_bind (gp_remote_urls gp) (\<lambda>remotes.
     let urls = remdups (remotes @ (case wb_upstream_push_url b of None \<Rightarrow> [] | Some u \<Rightarrow> [u])) in
     result_bind (ensure (length urls \<le> 8)
        ''Automatic board repair needs a bounded publication check; inspect the configured remotes'') (\<lambda>_.
     no_remote_publishes gp commit urls))))"

section \<open>The repair\<close>

definition waits_for_finalization :: "journal_row \<Rightarrow> control_row \<Rightarrow> bool" where
  "waits_for_finalization g c \<longleftrightarrow>
     sc_state c = ResumeRequested
     \<and> sc_run_token c = Some (recovery_token (g_generation g))
     \<and> sc_child_pid c = None \<and> sc_interactive_holder c = None \<and> sc_interactive_launch_token c = None"

definition repair_recheck ::
  "git_proof \<Rightarrow> str \<Rightarrow> finalizer \<Rightarrow> journal_row \<Rightarrow> str \<Rightarrow> str \<Rightarrow> str \<Rightarrow> nat \<Rightarrow> unit ws" where
  "repair_recheck gp now fz g commit branch ident i =
     ws_bind (ensure_owned now fz) (\<lambda>_.
     ws_bind (ws_ensure (\<lambda>w. list_ex (\<lambda>p. p_id p = g_project g \<and> p_enabled p) (list_projects (ws_db w)))
        ''Project was paused during automatic board repair'') (\<lambda>_.
     ws_bind (ws_get (\<lambda>w. session_control (ws_db w) (g_project g) (g_session g))) (\<lambda>control.
     ws_bind (ws_ensure (\<lambda>_. case control of None \<Rightarrow> False | Some c \<Rightarrow> waits_for_finalization g c)
        ''Task session was stopped or acquired during automatic board repair'') (\<lambda>_.
     ws_bind (ws_ensure (\<lambda>w. case linked_tasks w (g_session g) of
                  [(sta, e)] \<Rightarrow> sta = Done \<and> \<not> entry_stopped e \<and> \<not> task_content_is_manual (t_content e)
                | _ \<Rightarrow> False)
        ''Task was stopped, claimed, or moved during automatic board repair'') (\<lambda>_.
     ws_bind (ws_ensure (\<lambda>w. git_finalization (ws_db w) (g_project g) (g_session g) = Some g)
        ''Git journal changed during automatic board repair'') (\<lambda>_.
     ws_bind (ws_get (\<lambda>_. gp_checked_branch gp i)) (\<lambda>current.
     ws_bind (ws_ensure (\<lambda>_. current = g_branch_ref g) ''Git task branch changed'') (\<lambda>_.
     ws_bind (ws_get (\<lambda>_. gp_checked_head gp i)) (\<lambda>head.
     ws_bind (ws_ensure (\<lambda>_. head = commit)
        ''Automatic board-order repair requires the task commit to remain HEAD'') (\<lambda>_.
     ws_bind (ws_get (\<lambda>_. gp_is_retained gp (Some branch) commit (g_session g) ident)) (\<lambda>retained.
     ws_ensure (\<lambda>_. retained) ''Task ownership changed during automatic board repair'')))))))))))"

definition amended_commit_proven :: "git_proof \<Rightarrow> journal_row \<Rightarrow> str \<Rightarrow> str \<Rightarrow> bool result" where
  "amended_commit_proven gp g ident repaired =
     result_bind (gp_matches_manifest gp repaired (g_session g) ident (g_worktree_baseline g)) (\<lambda>matches.
     if \<not> matches then Inr False
     else result_bind (gp_agent_identity gp repaired) (\<lambda>own.
          if \<not> own then Inr False
          else result_bind (gp_trailers gp repaired) (\<lambda>trailers. Inr (trailers = [lit ''codex:'' @ g_session g]))))"

definition amend_and_publish ::
  "git_proof \<Rightarrow> str \<Rightarrow> finalizer \<Rightarrow> journal_row \<Rightarrow> str \<Rightarrow> str \<Rightarrow> str \<Rightarrow> str \<Rightarrow> worktree_baseline \<Rightarrow> bool ws" where
  "amend_and_publish gp now fz g commit tree branch ident b =
     ws_bind (repair_recheck gp now fz g commit branch ident 0) (\<lambda>_.
     ws_bind (ws_get (\<lambda>_. require_unpublished gp branch commit b)) (\<lambda>_.
     ws_bind (repair_recheck gp now fz g commit branch ident 1) (\<lambda>_.
     ws_bind (ws_get (\<lambda>_. gp_lock_index gp)) (\<lambda>_.
     ws_bind (ws_get (\<lambda>_. correct_shared_index gp tree (g_session g))) (\<lambda>_.
     ws_bind (ws_get (\<lambda>_. gp_amend gp g commit tree)) (\<lambda>repaired.
     ws_bind (ws_get (\<lambda>_. amended_commit_proven gp g ident repaired)) (\<lambda>proven.
     ws_bind (ws_ensure (\<lambda>_. proven)
        ''Repair hooks changed the sealed task payload or identity; preserve the original task commit'') (\<lambda>_.
     ws_bind (repair_recheck gp now fz g commit branch ident 2) (\<lambda>_.
     ws_bind (ws_get (\<lambda>_. gp_publish_index gp)) (\<lambda>_.
     ws_bind (ws_get (\<lambda>_. gp_update_ref gp branch repaired commit)) (\<lambda>_.
     ws_bind (ensure_owned now fz) (\<lambda>_.
     ws_ok True))))))))))))"

definition repair_board_order :: "site \<Rightarrow> git_proof \<Rightarrow> finalizer option \<Rightarrow> str \<Rightarrow> journal_row \<Rightarrow> str \<Rightarrow> bool ws" where
  "repair_board_order st gp lease now g commit =
     (case lease of
        None \<Rightarrow> ws_ok False
      | Some fz \<Rightarrow>
          ws_bind (ws_get (\<lambda>_. gp_standard_environment gp)) (\<lambda>_.
          ws_bind (ws_get (\<lambda>_. gp_baseline gp (g_worktree_baseline g))) (\<lambda>b.
          case (wb_staged_index_tree b, g_branch_ref g, g_task_identity g) of
            (Some tree, Some branch, Some ident) \<Rightarrow>
              if wb_version b < 2 \<or> g_state g \<noteq> CommitPending \<or> g_commit_oid g \<noteq> None then ws_ok False
              else ws_bind (ws_get (\<lambda>_. is_only_selected_order gp commit tree (g_session g))) (\<lambda>only_order.
                   if \<not> only_order then ws_ok False
                   else ws_bind (ws_get (\<lambda>_. s_lock st)) (\<lambda>_.
                        amend_and_publish gp now fz g commit tree branch ident b))
          | _ \<Rightarrow> ws_ok False)))"

end
