(* ===== verification/Git_Rounds.thy ===== *)
theory Git_Rounds
  imports Git_Repair
begin

text \<open>
  The reconciliation of one managed Git journal (\<^verbatim>\<open>src/src/managed_git.rs\<close>): at most six rounds, each of
  which proves the step of the journal's present state and writes it, or leaves the journal as it
  is; and the pass over a project's pending journals that saves the error of a sealed one.
\<close>

section \<open>What a round decides\<close>

text \<open>The journal is returned, read again for the next round, or tried again as it was read.\<close>

datatype round_end = Settled journal_row | Read_again | Same_again

definition journal_now :: "string \<Rightarrow> journal_row \<Rightarrow> journal_row ws" where
  "journal_now e g = ws_get (\<lambda>w. need e (git_finalization (ws_db w) (g_project g) (g_session g)))"

text \<open>Whether the compare-and-set was accepted, the next round reads the journal.\<close>

definition advance_journal :: "str option \<Rightarrow> str \<Rightarrow> journal_row \<Rightarrow> GitFinalizationState \<Rightarrow> str option \<Rightarrow> round_end ws" where
  "advance_journal owner_token now g next_state oid =
     ws_bind (on_db (compare_and_set_git_finalization_blocking (g_project g) (g_session g) (g_generation g) next_state
                (option_or owner_token (g_owner_run_token g)) oid None now)) (\<lambda>_. ws_ok Read_again)"

definition agent_git_manifest_parent_is_current :: "git_proof \<Rightarrow> journal_row \<Rightarrow> bool result" where
  "agent_git_manifest_parent_is_current gp g =
     result_bind (gp_branch gp) (\<lambda>branch.
     if branch \<noteq> g_branch_ref g then Inr False
     else result_bind (gp_head gp) (\<lambda>head.
          result_bind (gp_baseline gp (g_worktree_baseline g)) (\<lambda>b.
          if wb_version b \<ge> 2 then Inr (wb_manifest_parent_head b = Some head)
          else case g_starting_head g of None \<Rightarrow> Inr False | Some start \<Rightarrow> gp_is_ancestor gp start head)))"

section \<open>The rounds\<close>

definition unsealed_baseline :: "worktree_baseline \<Rightarrow> bool" where
  "unsealed_baseline b \<longleftrightarrow> wb_version b \<ge> 2
     \<and> (wb_staged_patches b = None \<or> wb_staged_index_tree b = None \<or> wb_manifest_parent_head b = None)"

text \<open>Working: an orphan is retired; a sealed manifest whose task is in Done recovers its intent.\<close>

definition recover_working :: "git_proof \<Rightarrow> finalizer option \<Rightarrow> str option \<Rightarrow> str \<Rightarrow> journal_row \<Rightarrow> round_end ws" where
  "recover_working gp lease owner_token now g =
     (case g_task_identity g of
        None \<Rightarrow> ws_ok (Settled g)
      | Some ident \<Rightarrow>
          ws_bind (ws_get (\<lambda>_. gp_baseline gp (g_worktree_baseline g))) (\<lambda>b.
          if unsealed_baseline b then ws_ok (Settled g)
          else ws_bind (ws_get (\<lambda>w. if \<not> worktree_contains_completed_done_task w (g_session g) then Inr False
                                   else agent_git_manifest_parent_is_current gp g)) (\<lambda>ready.
            if \<not> ready then ws_ok (Settled g)
            else ws_bind (ensure_agent_git_finalization_fence now lease) (\<lambda>_.
                 ws_bind (on_db (recover_git_finalization_intent (g_project g) (g_session g) (g_generation g) ident
                            (option_or owner_token (g_owner_run_token g)) now)) (\<lambda>_. ws_ok Read_again)))))"

definition round_working :: "site \<Rightarrow> git_proof \<Rightarrow> finalizer option \<Rightarrow> str option \<Rightarrow> str \<Rightarrow> journal_row \<Rightarrow> round_end ws" where
  "round_working st gp lease owner_token now g =
     ws_bind (case lease of None \<Rightarrow> ws_ok False | Some fz \<Rightarrow> cancel_orphaned_journal st gp now fz g) (\<lambda>cancelled.
     if cancelled then ws_bind (journal_now ''Retired orphan Git journal disappeared'' g) (\<lambda>h. ws_ok (Settled h))
     else recover_working gp lease owner_token now g)"

definition round_tracking :: "site \<Rightarrow> git_proof \<Rightarrow> finalizer option \<Rightarrow> str option \<Rightarrow> str \<Rightarrow> journal_row \<Rightarrow> round_end ws" where
  "round_tracking st gp lease owner_token now g =
     (case g_task_identity g of
        None \<Rightarrow> ws_ok (Settled g)
      | Some ident \<Rightarrow>
          ws_bind (ws_get (\<lambda>_. agent_git_manifest_parent_is_current gp g)) (\<lambda>current.
          if \<not> current then ws_ok (Settled g)
          else ws_bind (ensure_agent_git_finalization_fence now lease) (\<lambda>_.
               ws_bind (repair_tracking_agent_git_board st (g_session g) ident) (\<lambda>repaired.
               if \<not> repaired then ws_ok (Settled g)
               else ws_bind (ensure_agent_git_finalization_fence now lease) (\<lambda>_ w.
                    if \<not> worktree_contains_completed_done_task w (g_session g) then (Inr (Settled g), w)
                    else ws_bind (ensure_agent_git_finalization_fence now lease) (\<lambda>_.
                         advance_journal owner_token now g CommitPending None) w)))))"

definition next_after_commit :: "AgentGitMode \<Rightarrow> GitFinalizationState result" where
  "next_after_commit mode =
     (case mode of Off \<Rightarrow> Inl ''Pending Git finalization unexpectedly has Git mode off''
      | Commit \<Rightarrow> Inr Completed | CommitAndPush \<Rightarrow> Inr PushPending)"

definition proof_start :: "worktree_baseline \<Rightarrow> str \<Rightarrow> str" where
  "proof_start b start = (if wb_version b \<ge> 2 then (case wb_manifest_parent_head b of Some h \<Rightarrow> h | None \<Rightarrow> start) else start)"

text \<open>The proof of the commit found: it is the sealed manifest, and it is still on the branch.\<close>

definition prove_commit :: "site \<Rightarrow> git_proof \<Rightarrow> finalizer option \<Rightarrow> str option \<Rightarrow> str \<Rightarrow> journal_row \<Rightarrow> str \<Rightarrow> str \<Rightarrow> round_end ws" where
  "prove_commit st gp lease owner_token now g ident oid =
     ws_bind (ws_get (\<lambda>_. gp_matches_manifest gp oid (g_session g) ident (g_worktree_baseline g))) (\<lambda>matches.
     if \<not> matches then
       ws_bind (repair_board_order st gp lease now g oid) (\<lambda>repaired.
       if repaired then ws_ok Same_again
       else ws_get (\<lambda>_. Inl ''The task commit does not have the sealed tree''))
     else ws_bind (ws_get (\<lambda>_. gp_is_retained gp (g_branch_ref g) oid (g_session g) ident)) (\<lambda>retained.
          ws_bind (ws_ensure (\<lambda>_. retained) ''The task commit is no longer retained'') (\<lambda>_.
          ws_bind (ensure_agent_git_finalization_fence now lease) (\<lambda>_.
          ws_bind (ws_get (\<lambda>_. next_after_commit (g_git_mode g))) (\<lambda>next_state.
          advance_journal owner_token now g next_state (Some oid))))))"

definition round_commit :: "site \<Rightarrow> git_proof \<Rightarrow> finalizer option \<Rightarrow> str option \<Rightarrow> str \<Rightarrow> journal_row \<Rightarrow> round_end ws" where
  "round_commit st gp lease owner_token now g =
     (case (g_starting_head g, g_task_identity g) of
        (Some start, Some ident) \<Rightarrow>
          ws_bind (ws_get (\<lambda>_. gp_baseline gp (g_worktree_baseline g))) (\<lambda>b.
          ws_bind (ws_get (\<lambda>_. gp_find_commit gp (proof_start b start) (g_branch_ref g) (g_session g) ident (wb_version b = 1))) (\<lambda>found.
          case found of None \<Rightarrow> ws_ok (Settled g) | Some oid \<Rightarrow> prove_commit st gp lease owner_token now g ident oid))
      | _ \<Rightarrow> ws_ok (Settled g))"

text \<open>The tip of the upstream after at most one push; \<open>None\<close> where it cannot be known.\<close>

definition published_tip :: "git_proof \<Rightarrow> worktree_baseline \<Rightarrow> journal_row \<Rightarrow> str \<Rightarrow> str \<Rightarrow> str option result" where
  "published_tip gp b g ident oid =
     result_bind (gp_fetch_tip gp False (g_branch_ref g) (g_upstream_ref g) b) (\<lambda>tip.
     result_bind (case tip of None \<Rightarrow> Inr False
                  | Some t \<Rightarrow> gp_tip_proves gp t oid (g_session g) ident (wb_version b = 1)) (\<lambda>already.
     if already then Inr tip
     else result_bind (gp_push gp (g_branch_ref g) (g_upstream_ref g) b oid) (\<lambda>_. gp_fetch_tip gp True (g_branch_ref g) (g_upstream_ref g) b)))"

definition round_push :: "git_proof \<Rightarrow> finalizer option \<Rightarrow> str option \<Rightarrow> str \<Rightarrow> journal_row \<Rightarrow> round_end ws" where
  "round_push gp lease owner_token now g =
     (case g_task_identity g of
        None \<Rightarrow> ws_ok (Settled g)
      | Some ident \<Rightarrow>
          ws_bind (ws_get (\<lambda>_. gp_baseline gp (g_worktree_baseline g))) (\<lambda>b.
          case g_commit_oid g of
            None \<Rightarrow> ws_ok (Settled g)
          | Some oid \<Rightarrow>
              let retained = gp_is_retained gp (g_branch_ref g) oid (g_session g) ident in
              ws_bind (ws_get (\<lambda>_. result_bind (gp_matches_manifest gp oid (g_session g) ident (g_worktree_baseline g))
                                     (\<lambda>matches. if matches then retained else Inr False))) (\<lambda>proven.
              if \<not> proven then ws_ok (Settled g)
              else ws_bind (ws_get (\<lambda>_. published_tip gp b g ident oid)) (\<lambda>tip.
              case tip of
                None \<Rightarrow> ws_ok (Settled g)
              | Some t \<Rightarrow>
                  ws_bind (ws_get (\<lambda>_. result_bind (gp_tip_proves gp t oid (g_session g) ident (wb_version b = 1))
                                         (\<lambda>there. if there then retained else Inr False))) (\<lambda>published.
                  if \<not> published then ws_ok (Settled g)
                  else ws_bind (ensure_agent_git_finalization_fence now lease) (\<lambda>_.
                       advance_journal owner_token now g Completed (Some oid)))))))"

definition reconcile_round :: "site \<Rightarrow> git_proof \<Rightarrow> finalizer option \<Rightarrow> str option \<Rightarrow> str \<Rightarrow> journal_row \<Rightarrow> round_end ws" where
  "reconcile_round st gp lease owner_token now g =
     ws_bind (ensure_agent_git_finalization_fence now lease) (\<lambda>_.
     case g_state g of
       Working \<Rightarrow> round_working st gp lease owner_token now g
     | Tracking \<Rightarrow> round_tracking st gp lease owner_token now g
     | CommitPending \<Rightarrow> round_commit st gp lease owner_token now g
     | PushPending \<Rightarrow> round_push gp lease owner_token now g
     | _ \<Rightarrow> ws_ok (Settled g))"

text \<open>The exclusive finalization lock is taken once, in the first round that finalizes; round \<open>i\<close> has
  the answers \<open>gps i\<close>.\<close>

fun reconcile_rounds ::
  "nat \<Rightarrow> nat \<Rightarrow> bool \<Rightarrow> site \<Rightarrow> (nat \<Rightarrow> git_proof) \<Rightarrow> finalizer option \<Rightarrow> str option \<Rightarrow> str \<Rightarrow> journal_row \<Rightarrow> journal_row ws" where
  "reconcile_rounds 0 i locked st gps lease owner_token now g w =
     (Inl ''Git finalization changed too many times during reconciliation'', w)"
| "reconcile_rounds (Suc n) i locked st gps lease owner_token now g w =
     ws_bind (ws_get (\<lambda>_. if gfs_is_finalizing (g_state g) \<and> \<not> locked then gp_lock (gps i) (g_session g) else Inr ())) (\<lambda>_.
     ws_bind (reconcile_round st (gps i) lease owner_token now g) (\<lambda>end_of_round.
     let go = reconcile_rounds n (Suc i) (locked \<or> gfs_is_finalizing (g_state g)) st gps lease owner_token now in
     case end_of_round of
       Settled h \<Rightarrow> ws_ok h
     | Same_again \<Rightarrow> go g
     | Read_again \<Rightarrow> ws_bind (journal_now ''Git finalization disappeared after a successful reconciliation step'' g) go)) w"

definition reconcile_agent_git_finalization ::
  "site \<Rightarrow> (nat \<Rightarrow> git_proof) \<Rightarrow> finalizer option \<Rightarrow> str option \<Rightarrow> str \<Rightarrow> journal_row \<Rightarrow> journal_row ws" where
  "reconcile_agent_git_finalization = reconcile_rounds 6 0 False"

section \<open>All pending journals of a project\<close>

text \<open>The error of a sealed journal is saved while the finalizer owns its lease.\<close>

definition save_reconcile_error :: "str \<Rightarrow> finalizer \<Rightarrow> journal_row \<Rightarrow> string \<Rightarrow> unit ws" where
  "save_reconcile_error now fz g e =
     ws_bind (ensure_owned now fz) (\<lambda>_.
     if g_last_error g = Some (lit e) then ws_ok ()
     else ws_bind (on_db (compare_and_set_git_finalization_blocking (g_project g) (g_session g) (g_generation g) (g_state g)
                     (g_owner_run_token g) None (Some (lit e)) now)) (\<lambda>_. ws_ok ()))"

definition reconcile_pending ::
  "site \<Rightarrow> (nat \<Rightarrow> git_proof) \<Rightarrow> finalizer option \<Rightarrow> str \<Rightarrow> journal_row \<Rightarrow> journal_row ws" where
  "reconcile_pending st gps lease now g w =
     (case reconcile_agent_git_finalization st gps lease None now g w of
        (Inr h, w1) \<Rightarrow> (Inr h, w1)
      | (Inl e, w1) \<Rightarrow>
          (case lease of
             Some fz \<Rightarrow>
               if gfs_is_finalizing (g_state g)
               then ws_bind (save_reconcile_error now fz g e) (\<lambda>_. ws_get (\<lambda>_. Inl e)) w1
               else (Inl e, w1)
           | None \<Rightarrow> (Inl e, w1)))"

fun reconcile_all ::
  "site \<Rightarrow> (str \<Rightarrow> nat \<Rightarrow> git_proof) \<Rightarrow> finalizer option \<Rightarrow> str \<Rightarrow> journal_row list \<Rightarrow> journal_row list ws" where
  "reconcile_all st gps lease now [] w = (Inr [], w)"
| "reconcile_all st gps lease now (g # gs) w =
     ws_bind (reconcile_pending st (gps (g_session g)) lease now g) (\<lambda>h.
     ws_bind (reconcile_all st gps lease now gs) (\<lambda>hs. ws_ok (h # hs))) w"

definition reconcile_pending_agent_git_finalizations ::
  "site \<Rightarrow> (str \<Rightarrow> nat \<Rightarrow> git_proof) \<Rightarrow> int \<Rightarrow> finalizer option \<Rightarrow> str \<Rightarrow> journal_row list ws" where
  "reconcile_pending_agent_git_finalizations st gps pid lease now w =
     reconcile_all st gps lease now (list_pending_git_finalizations (ws_db w) (Some pid)) w"

end
