(* ===== verification/Git_Round_Theorems.thy ===== *)
theory Git_Round_Theorems
  imports Git_Rounds Board_Safety Completion_Theorems
begin

text \<open>
  What the reconciliation of a journal guarantees: it completes a journal only in a round in which
  Git proved the commit and, for a journal that publishes, the tip of the upstream; it writes the
  registry by the store's transactions only; and with all proofs given it completes.
\<close>

section \<open>The programs of a round leave the registry to the store\<close>

lemma fence_db: "keeps same_registry (ensure_agent_git_finalization_fence now lease)"
  and ensure_owned_db: "keeps same_registry (ensure_owned now fz)"
  unfolding ensure_agent_git_finalization_fence_def ensure_owned_def by (intro db_kept)+

lemma remove_duplicates_db: "keeps same_registry (remove_duplicates n k sta session ident)"
proof (induction n)
  case (Suc n)
  show ?case
  proof (rule keepsI)
    fix w
    show "same_registry w (snd (remove_duplicates (Suc n) k sta session ident w))"
      using keepsD [OF same_db.keeps_bind [OF on_board_same_db Suc], of _ w] 
      by (simp add: Let_def same_db.refl_on) (auto simp: keeps_def intro: same_db.keeps_bind [OF on_board_same_db Suc, unfolded keeps_def, rule_format])
  qed
qed (simp add: keeps_def same_registry_def)

lemma repair_tracking_db: "keeps same_registry (repair_tracking_agent_git_board st session ident)"
proof -
  have drop: "keeps same_registry (\<lambda>w. remove_duplicates (length (entries w sta)) k sta session ident w)" for sta k
    using remove_duplicates_db by (simp add: keeps_def)
  have move: "keeps same_registry (move_tracked_entry sta e)" for sta e
    unfolding move_tracked_entry_def by (intro db_kept)
  have clean: "keeps same_registry (keep_one_done_entry session ident)"
    unfolding keep_one_done_entry_def by (intro db_kept drop)
  have "keeps same_registry (repair_tracking_after_lock session ident)"
  proof (rule keepsI)
    fix w
    show "same_registry w (snd (repair_tracking_after_lock session ident w))"
      unfolding repair_tracking_after_lock_def Let_def
      by (simp add: same_db.refl_on keepsD [OF move] keepsD [OF clean] move [unfolded keeps_def] clean [unfolded keeps_def]
          split: list.split prod.split)
  qed
  then show ?thesis unfolding repair_tracking_agent_git_board_def by (intro db_kept)
qed

lemma recheck_db: "keeps same_registry (repair_recheck gp now fz g c b i n)"
  unfolding repair_recheck_def by (intro db_kept ensure_owned_db)

lemma repair_order_db: "keeps same_registry (repair_board_order st gp lease now g c)"
proof -
  have amend: "keeps same_registry (amend_and_publish gp now fz g c tree branch ident b)" for fz tree branch ident b
    unfolding amend_and_publish_def by (intro db_kept ensure_owned_db recheck_db)
  show ?thesis unfolding repair_board_order_def by (intro db_kept amend)
qed

lemma store_cond: "keeps runs_store a \<Longrightarrow> keeps runs_store b \<Longrightarrow> keeps runs_store (\<lambda>w. if P w then a w else b w)"
  by (simp add: keeps_def)

lemma store_same: "keeps runs_store (\<lambda>w. (r, w))"
  by (simp add: keeps_def on_store.refl_on)

lemma published_calls:
  "keeps runs_store (on_db (compare_and_set_git_finalization_blocking pid sid gen nx ow oid err at))"
  "keeps runs_store (on_db (recover_git_finalization_intent pid sid gen ident ow at))"
  "keeps runs_store (on_db (cancel_orphaned_working_git_finalization g h r at t))"
  unfolding compare_and_set_git_finalization_blocking_def recover_git_finalization_intent_def
  by (rule kept_calls(1), rule git_compare_and_set git_cancel_orphaned)+

lemma cancel_orphaned_store: "keeps runs_store (cancel_orphaned_journal st gp now fz g)"
proof -
  have "keeps runs_store (cancel_orphaned_under_lock st now fz g)"
  proof -
    have rest: "keeps runs_store (ws_bind (ensure_owned now fz) (\<lambda>_.
        on_db (cancel_orphaned_working_git_finalization g (fz_holder fz) orphan_reason now now)))"
      by (intro store_kept published_calls same_registry_store [OF ensure_owned_db])
    have "keeps runs_store (\<lambda>w. if task_tree_contains_session_marker w (g_session g) then (Inr False, w)
        else ws_bind (ensure_owned now fz) (\<lambda>_.
          on_db (cancel_orphaned_working_git_finalization g (fz_holder fz) orphan_reason now now)) w)"
      by (intro store_cond store_same rest)
    then show ?thesis
      unfolding cancel_orphaned_under_lock_def by (intro store_kept same_registry_store [OF ensure_owned_db])
  qed
  then show ?thesis
    unfolding cancel_orphaned_journal_def by (auto simp: on_store.keeps_ok split: sum.split)
qed

lemma advance_store: "keeps runs_store (advance_journal ow now g nx oid)"
  unfolding advance_journal_def by (intro store_kept published_calls)

lemma journal_now_store: "keeps runs_store (journal_now e g)"
  unfolding journal_now_def by (intro store_kept)

lemma round_store: "keeps runs_store (reconcile_round st gp lease ow now g)"
proof -
  note db = same_registry_store [OF fence_db] same_registry_store [OF repair_tracking_db] same_registry_store [OF repair_order_db]
  note kept = store_kept db advance_store journal_now_store published_calls
  have recover: "keeps runs_store (recover_working gp lease ow now g)"
    unfolding recover_working_def by (intro kept)
  have cancel: "keeps runs_store (case lease of None \<Rightarrow> ws_ok False | Some fz \<Rightarrow> cancel_orphaned_journal st gp now fz g)"
    using cancel_orphaned_store by (simp add: on_store.keeps_ok split: option.split)
  have "keeps runs_store (round_working st gp lease ow now g)"
    unfolding round_working_def by (intro kept recover cancel)
  moreover have "keeps runs_store (round_tracking st gp lease ow now g)"
  proof -
    have "keeps runs_store (\<lambda>w. if \<not> worktree_contains_completed_done_task w (g_session g) then (Inr (Settled g), w)
        else ws_bind (ensure_agent_git_finalization_fence now lease) (\<lambda>_. advance_journal ow now g CommitPending None) w)"
      by (intro store_cond store_same store_kept db advance_store)
    then show ?thesis unfolding round_tracking_def by (intro kept)
  qed
  moreover have "keeps runs_store (round_commit st gp lease ow now g)"
    unfolding round_commit_def prove_commit_def by (intro kept)
  moreover have "keeps runs_store (round_push gp lease ow now g)"
    unfolding round_push_def Let_def by (intro kept)
  ultimately show ?thesis
    unfolding reconcile_round_def by (intro kept) (simp add: on_store.keeps_ok split: GitFinalizationState.split)
qed

lemma rounds_store: "keeps runs_store (reconcile_rounds n i locked st gps lease ow now g)"
proof (induction n arbitrary: i locked g)
  case (Suc n)
  have ends: "keeps runs_store (case r of Settled h \<Rightarrow> ws_ok h
      | Read_again \<Rightarrow> ws_bind (journal_now e g) (reconcile_rounds n j l st gps lease ow now)
      | Same_again \<Rightarrow> reconcile_rounds n j l st gps lease ow now g)" for r j l e
    by (cases r) (auto intro!: store_kept journal_now_store Suc)
  have "keeps runs_store (ws_bind (ws_get f) (\<lambda>_. ws_bind (reconcile_round st (gps i) lease ow now g) (\<lambda>r.
      case r of Settled h \<Rightarrow> ws_ok h
      | Read_again \<Rightarrow> ws_bind (journal_now e g) (reconcile_rounds n (Suc i) l st gps lease ow now)
      | Same_again \<Rightarrow> reconcile_rounds n (Suc i) l st gps lease ow now g)))" (is "keeps _ (?prog f l e)")
    for f :: "workspace \<Rightarrow> unit result" and l e
    by (intro store_kept round_store ends)
  moreover have "reconcile_rounds (Suc n) i locked st gps lease ow now g w
     = ?prog (\<lambda>_. if gfs_is_finalizing (g_state g) \<and> \<not> locked then gp_lock (gps i) (g_session g) else Inr ())
         (locked \<or> gfs_is_finalizing (g_state g)) ''Git finalization disappeared after a successful reconciliation step'' w" for w
    by (simp only: reconcile_rounds.simps Let_def)
  ultimately show ?case by (simp only: keeps_def simp_thms)
qed (simp add: keeps_def on_store.refl_on)

section \<open>What one round may do\<close>

definition row_of :: "journal_row \<Rightarrow> workspace \<Rightarrow> journal_row option" where
  "row_of g w = git_finalization (ws_db w) (g_project g) (g_session g)"

lemma ensure_owned_Inr: "ensure_owned now fz w = (Inr x, w') \<Longrightarrow> w' = w"
  by (auto simp: ensure_owned_def ws_runs)

lemma fence_Inr: "ensure_agent_git_finalization_fence now lease w = (Inr x, w') \<Longrightarrow> w' = w"
  by (auto simp: ensure_agent_git_finalization_fence_def ensure_owned_Inr split: option.splits)

lemma same_db_run: "keeps same_registry m \<Longrightarrow> m w = (r, w') \<Longrightarrow> ws_db w' = ws_db w"
  using keepsD [of same_registry m w r w'] by (simp add: same_registry_def)

text \<open>An accepted write moves the row one state on and keeps what the proofs speak of.\<close>

definition moved_row :: "journal_row \<Rightarrow> GitFinalizationState \<Rightarrow> str option \<Rightarrow> journal_row \<Rightarrow> bool" where
  "moved_row g nx oid h \<longleftrightarrow> g_state h = nx \<and> g_git_mode h = g_git_mode g \<and> g_project h = g_project g \<and> g_session h = g_session g
     \<and> g_task_identity h = g_task_identity g \<and> g_worktree_baseline h = g_worktree_baseline g
     \<and> g_branch_ref h = g_branch_ref g \<and> g_upstream_ref h = g_upstream_ref g \<and> g_starting_head h = g_starting_head g
     \<and> g_commit_oid h = (if oid = None then g_commit_oid g else oid)"

lemma advance_effect:
  assumes run: "advance_journal ow now g nx oid w = (Inr r, w')" and wf: "journals_wf (journals (ws_db w))"
    and g: "row_of g w = Some g"
  shows "r = Read_again \<and> journals_wf (journals (ws_db w')) \<and> (\<exists>h. row_of g w' = Some h \<and> (h = g \<or> moved_row g nx oid h))"
proof -
  let ?q = "\<lparr>cq_project = g_project g, cq_session = g_session g, cq_expected_generation = g_generation g, cq_next_state = nx,
    cq_task_identity = None, cq_worktree_baseline = None, cq_require_running_owner = False,
    cq_owner_run_token = option_or ow (g_owner_run_token g), cq_commit_oid = oid, cq_last_error = None, cq_updated_at = now\<rparr>"
  obtain b db' where cas: "compare_and_set_git_finalization ?q (ws_db w) = (Inr b, db')" and r: "r = Read_again" "w' = w\<lparr>ws_db := db'\<rparr>"
    using run by (auto simp: advance_journal_def compare_and_set_git_finalization_blocking_def ws_runs)
  show ?thesis
  proof (cases b)
    case True
    with cas have acc: "compare_and_set_git_finalization ?q (ws_db w) = (Inr True, db')" by simp
    from cas_accepted [OF wf acc] obtain g0 where "git_finalization (ws_db w) (g_project g) (g_session g) = Some g0"
      "git_finalization db' (g_project g) (g_session g) = Some (cas_row ?q g0)" "journals_wf (journals db')" by auto
    then show ?thesis using g r by (auto simp: row_of_def moved_row_def cas_row_def option_or_def split: option.splits)
  next
    case False
    then have "db' = ws_db w" using cas cas_refused [OF wf, of ?q db'] by (auto simp: cas_attempt_def)
    then show ?thesis using r wf g by (auto simp: row_of_def)
  qed
qed

lemma recover_effect:
  assumes acc: "recover_git_finalization_intent (g_project g) (g_session g) gen ident ow now (ws_db w) = (Inr b, db')"
    and wf: "journals_wf (journals (ws_db w))" and g: "row_of g w = Some g"
  shows "journals_wf (journals db') \<and> (\<exists>h. git_finalization db' (g_project g) (g_session g) = Some h \<and> (h = g \<or> g_state h = Tracking))"
proof -
  let ?q = "\<lparr>cq_project = g_project g, cq_session = g_session g, cq_expected_generation = gen, cq_next_state = Tracking,
    cq_task_identity = Some ident, cq_worktree_baseline = None, cq_require_running_owner = False,
    cq_owner_run_token = ow, cq_commit_oid = None, cq_last_error = None, cq_updated_at = now\<rparr>"
  have cas: "compare_and_set_git_finalization ?q (ws_db w) = (Inr b, db')" using acc by (simp add: recover_git_finalization_intent_def)
  show ?thesis
  proof (cases b)
    case True
    with cas have acc: "compare_and_set_git_finalization ?q (ws_db w) = (Inr True, db')" by simp
    from cas_accepted [OF wf acc] obtain g0 where "git_finalization db' (g_project g) (g_session g) = Some (cas_row ?q g0)"
      "journals_wf (journals db')" by auto
    then show ?thesis by (auto simp: cas_row_def)
  next
    case False
    then have "db' = ws_db w" using cas cas_refused [OF wf, of ?q db'] by (auto simp: cas_attempt_def)
    then show ?thesis using wf g by (auto simp: row_of_def)
  qed
qed

lemma cancel_effect:
  assumes acc: "cancel_orphaned_working_git_finalization g holder why at now (ws_db w) = (Inr b, db')"
    and wf: "journals_wf (journals (ws_db w))" and g: "row_of g w = Some g" "g_state g = Working"
  shows "journals_wf (journals db') \<and> (\<not> b \<longrightarrow> db' = ws_db w)
    \<and> (\<forall>h. git_finalization db' (g_project g) (g_session g) = Some h \<longrightarrow> g_state h \<noteq> Completed)"
proof -
  have move: "plain_move (journals (ws_db w)) (journals db')"
    using cancel_orphaned_move [of "ws_db w" g holder why at now] by (simp add: acc)
  have "g_state h \<noteq> Completed" if h: "git_finalization db' (g_project g) (g_session g) = Some h" for h
  proof
    assume "g_state h = Completed"
    moreover have "g \<in> set (journals (ws_db w))" "h \<in> set (journals db')" "journal_key h = journal_key g"
      using git_finalization_Some [OF g(1) [unfolded row_of_def]] git_finalization_Some [OF h]
      by (simp_all add: journal_key_def journal_at_def)
    ultimately have "g_state g = (if g_git_mode g = CommitAndPush then PushPending else CommitPending)"
      using plain_move_completes [OF move wf] g(2) by auto
    then show False using g(2) by (simp split: if_splits)
  qed
  moreover have "\<not> b \<Longrightarrow> db' = ws_db w"
    using acc by (auto simp: cancel_orphaned_working_git_finalization_def Let_def split: option.splits if_splits)
  ultimately show ?thesis using plain_move_wf [OF move wf] by blast
qed

text \<open>Git proved at this round that the journal's commit is its sealed manifest and still on its branch,
  and, for a journal that publishes, that the tip of the upstream contains it.\<close>

definition completion_proven :: "git_proof \<Rightarrow> journal_row \<Rightarrow> bool" where
  "completion_proven gp g \<longleftrightarrow> (\<exists>oid ident. g_commit_oid g = Some oid \<and> g_task_identity g = Some ident
     \<and> gp_matches_manifest gp oid (g_session g) ident (g_worktree_baseline g) = Inr True
     \<and> gp_is_retained gp (g_branch_ref g) oid (g_session g) ident = Inr True
     \<and> (g_git_mode g = CommitAndPush \<longrightarrow> (\<exists>b again tip. gp_baseline gp (g_worktree_baseline g) = Inr b
          \<and> gp_fetch_tip gp again (g_branch_ref g) (g_upstream_ref g) b = Inr (Some tip)
          \<and> gp_tip_proves gp tip oid (g_session g) ident (wb_version b = 1) = Inr True)))"

definition round_ok :: "git_proof \<Rightarrow> journal_row \<Rightarrow> round_end \<Rightarrow> workspace \<Rightarrow> bool" where
  "round_ok gp g r w' \<longleftrightarrow> journals_wf (journals (ws_db w')) \<and> (\<exists>h. row_of g w' = Some h
     \<and> (h = g \<or> g_state h \<noteq> Completed \<or> completion_proven gp h)
     \<and> (case r of Settled k \<Rightarrow> k = h | Same_again \<Rightarrow> h = g | Read_again \<Rightarrow> True))"

lemma same_row: "ws_db w' = ws_db w \<Longrightarrow> row_of g w' = row_of g w"
  by (simp add: row_of_def)

lemma round_ok_same:
  assumes "journals_wf (journals (ws_db w))" "row_of g w = Some g" "ws_db w' = ws_db w" "r = Settled g \<or> r = Same_again"
  shows "round_ok gp g r w'"
  using assms same_row [OF assms(3)] by (auto simp: round_ok_def)

lemma round_ok_advance:
  assumes "advance_journal ow now g nx oid w1 = (Inr r, w')" and "journals_wf (journals (ws_db w))" "row_of g w = Some g"
    and "ws_db w1 = ws_db w" and "nx = Completed \<Longrightarrow> completion_proven gp (g\<lparr>g_commit_oid := oid\<rparr>) \<and> oid \<noteq> None"
  shows "round_ok gp g r w'"
proof -
  have "journals_wf (journals (ws_db w1))" "row_of g w1 = Some g" using assms(2-4) same_row [OF assms(4)] by simp_all
  from advance_effect [OF assms(1) this] obtain h where h: "r = Read_again" "journals_wf (journals (ws_db w'))"
    "row_of g w' = Some h" "h = g \<or> moved_row g nx oid h" by blast
  moreover have "completion_proven gp h" if "moved_row g nx oid h" "g_state h = Completed"
    using assms(5) that by (auto simp: moved_row_def completion_proven_def)
  ultimately show ?thesis by (auto simp: round_ok_def)
qed

lemma cancel_journal_ok:
  assumes run: "cancel_orphaned_journal st gp now fz g w = (Inr b, w1)"
    and wf: "journals_wf (journals (ws_db w))" and g: "row_of g w = Some g"
  shows "journals_wf (journals (ws_db w1)) \<and> (\<not> b \<longrightarrow> ws_db w1 = ws_db w) \<and> (\<forall>h. b \<longrightarrow> row_of g w1 = Some h \<longrightarrow> g_state h \<noteq> Completed)"
proof (cases "g_state g = Working")
  case True
  have under: "\<exists>db'. (b = False \<and> w1 = w) \<or> (w1 = w\<lparr>ws_db := db'\<rparr>
      \<and> cancel_orphaned_working_git_finalization g (fz_holder fz) orphan_reason now now (ws_db w) = (Inr b, db'))"
    if r: "cancel_orphaned_under_lock st now fz g w = (Inr b, w1)"
  proof -
    obtain wa where wa: "ensure_owned now fz w = (Inr (), wa)"
      and rest: "(if task_tree_contains_session_marker wa (g_session g) then (Inr False, wa)
        else ws_bind (ensure_owned now fz) (\<lambda>_. on_db (cancel_orphaned_working_git_finalization g (fz_holder fz) orphan_reason now now)) wa) = (Inr b, w1)"
      using r by (auto simp: cancel_orphaned_under_lock_def ws_runs)
    have wa: "wa = w" using wa by (rule ensure_owned_Inr)
    show ?thesis using rest ensure_owned_Inr [of now fz w] by (auto simp: wa ws_runs split: if_splits)
  qed
  have "b = False \<and> w1 = w \<or> cancel_orphaned_under_lock st now fz g w = (Inr b, w1)"
    using run by (auto simp: cancel_orphaned_journal_def split: if_splits sum.splits)
  with under obtain db' where "(b = False \<and> w1 = w) \<or> (w1 = w\<lparr>ws_db := db'\<rparr>
      \<and> cancel_orphaned_working_git_finalization g (fz_holder fz) orphan_reason now now (ws_db w) = (Inr b, db'))" by blast
  then show ?thesis using cancel_effect [OF _ wf g True] wf by (auto simp: row_of_def)
next
  case False
  then show ?thesis using run wf by (auto simp: cancel_orphaned_journal_def)
qed

lemma published_tip_fetched:
  "published_tip gp b g ident oid = Inr (Some t) \<Longrightarrow> \<exists>again. gp_fetch_tip gp again (g_branch_ref g) (g_upstream_ref g) b = Inr (Some t)"
  by (auto simp: published_tip_def result_bind_Inr split: option.splits if_splits)

lemma working_ok:
  assumes run: "round_working st gp lease ow now g w = (Inr r, w')"
    and wf: "journals_wf (journals (ws_db w))" and g: "row_of g w = Some g" "g_state g = Working"
  shows "round_ok gp g r w'"
proof -
  obtain b w1 where cancel: "(case lease of None \<Rightarrow> ws_ok False | Some fz \<Rightarrow> cancel_orphaned_journal st gp now fz g) w = (Inr b, w1)"
    and rest: "(if b then ws_bind (journal_now ''Retired orphan Git journal disappeared'' g) (\<lambda>h. ws_ok (Settled h))
        else recover_working gp lease ow now g) w1 = (Inr r, w')"
    using run by (auto simp: round_working_def ws_runs)
  have c: "journals_wf (journals (ws_db w1)) \<and> (\<not> b \<longrightarrow> ws_db w1 = ws_db w) \<and> (\<forall>h. b \<longrightarrow> row_of g w1 = Some h \<longrightarrow> g_state h \<noteq> Completed)"
    using cancel cancel_journal_ok [OF _ wf g(1)] wf by (auto split: option.splits)
  show ?thesis
  proof (cases b)
    case True
    then show ?thesis using rest c by (auto simp: ws_runs journal_now_def round_ok_def row_of_def)
  next
    case False
    then have same: "ws_db w1 = ws_db w" and rec: "recover_working gp lease ow now g w1 = (Inr r, w')" using c rest by auto
    then have g1: "row_of g w1 = Some g" "journals_wf (journals (ws_db w1))" using g(1) wf same_row [OF same] by simp_all
    consider "r = Settled g" "w' = w1"
      | ident b db' where "recover_git_finalization_intent (g_project g) (g_session g) (g_generation g) ident
          (option_or ow (g_owner_run_token g)) now (ws_db w1) = (Inr b, db')" "r = Read_again" "w' = w1\<lparr>ws_db := db'\<rparr>"
      using rec by (auto simp: recover_working_def ws_runs dest!: fence_Inr split: option.splits if_splits)
    then show ?thesis
    proof cases
      case 1
      then show ?thesis using round_ok_same [OF wf g(1) same] by simp
    next
      case 2
      then show ?thesis using recover_effect [OF 2(1) g1(2,1)] g(2) by (auto simp: round_ok_def row_of_def)
    qed
  qed
qed

lemma tracking_ok:
  assumes run: "round_tracking st gp lease ow now g w = (Inr r, w')"
    and wf: "journals_wf (journals (ws_db w))" and g: "row_of g w = Some g"
  shows "round_ok gp g r w'"
proof -
  have rep: "ws_db w1 = ws_db w" if "repair_tracking_agent_git_board st (g_session g) ident w = (Inr x, w1)" for ident x w1
    using same_db_run [OF repair_tracking_db that] .
  consider "r = Settled g" "ws_db w' = ws_db w"
    | w1 where "advance_journal ow now g CommitPending None w1 = (Inr r, w')" "ws_db w1 = ws_db w"
    using run by (auto simp: round_tracking_def ws_runs dest!: fence_Inr rep split: option.splits if_splits)
  then show ?thesis
  proof cases
    case 1
    then show ?thesis using round_ok_same [OF wf g] by simp
  next
    case 2
    show ?thesis by (rule round_ok_advance [OF 2(1) wf g 2(2)]) simp
  qed
qed

lemma commit_ok:
  assumes run: "round_commit st gp lease ow now g w = (Inr r, w')"
    and wf: "journals_wf (journals (ws_db w))" and g: "row_of g w = Some g"
  shows "round_ok gp g r w'"
proof -
  consider "r = Settled g" "w' = w"
    | ident oid where "g_task_identity g = Some ident" "prove_commit st gp lease ow now g ident oid w = (Inr r, w')"
    using run by (auto simp: round_commit_def ws_runs split: option.splits)
  then show ?thesis
  proof cases
    case 1
    then show ?thesis using round_ok_same [OF wf g] by simp
  next
    case 2
    have rep: "ws_db w1 = ws_db w" if "repair_board_order st gp lease now g oid w = (Inr x, w1)" for x w1
      using same_db_run [OF repair_order_db that] .
    consider "r = Same_again" "ws_db w' = ws_db w"
      | nx where "advance_journal ow now g nx (Some oid) w = (Inr r, w')" "next_after_commit (g_git_mode g) = Inr nx"
          "gp_matches_manifest gp oid (g_session g) ident (g_worktree_baseline g) = Inr True"
          "gp_is_retained gp (g_branch_ref g) oid (g_session g) ident = Inr True"
      using 2(2) by (auto simp: prove_commit_def ws_runs dest!: fence_Inr rep split: if_splits)
    then show ?thesis
    proof cases
      case 1
      then show ?thesis using round_ok_same [OF wf g] by simp
    next
      case (2 nx)
      have "g_git_mode g = Commit" if "nx = Completed"
        using 2(2) that by (auto simp: next_after_commit_def split: AgentGitMode.splits)
      then show ?thesis
        using round_ok_advance [OF 2(1) wf g] 2(3,4) \<open>g_task_identity g = Some ident\<close> by (auto simp: completion_proven_def)
    qed
  qed
qed

lemma push_ok:
  assumes run: "round_push gp lease ow now g w = (Inr r, w')"
    and wf: "journals_wf (journals (ws_db w))" and g: "row_of g w = Some g"
  shows "round_ok gp g r w'"
proof -
  consider "r = Settled g" "w' = w"
    | ident b oid t where "advance_journal ow now g Completed (Some oid) w = (Inr r, w')" "g_task_identity g = Some ident"
        "gp_baseline gp (g_worktree_baseline g) = Inr b"
        "gp_matches_manifest gp oid (g_session g) ident (g_worktree_baseline g) = Inr True"
        "gp_is_retained gp (g_branch_ref g) oid (g_session g) ident = Inr True"
        "published_tip gp b g ident oid = Inr (Some t)" "gp_tip_proves gp t oid (g_session g) ident (wb_version b = 1) = Inr True"
    using run by (auto simp: round_push_def ws_runs Let_def result_bind_Inr dest!: fence_Inr split: option.splits if_splits)
  then show ?thesis
  proof cases
    case 1
    then show ?thesis using round_ok_same [OF wf g] by simp
  next
    case 2
    then show ?thesis using round_ok_advance [OF 2(1) wf g] published_tip_fetched [OF 2(6)] by (auto simp: completion_proven_def)
  qed
qed

lemma reconcile_round_ok:
  assumes run: "reconcile_round st gp lease ow now g w = (Inr r, w')"
    and wf: "journals_wf (journals (ws_db w))" and g: "row_of g w = Some g"
  shows "round_ok gp g r w'"
  using run working_ok [OF _ wf g] tracking_ok [OF _ wf g] commit_ok [OF _ wf g] push_ok [OF _ wf g] round_ok_same [OF wf g]
  by (auto simp: reconcile_round_def ws_runs dest!: fence_Inr split: GitFinalizationState.splits)

lemma rounds_ok:
  assumes run: "reconcile_rounds n i locked st gps lease ow now g w = (Inr h, w')"
    and wf: "journals_wf (journals (ws_db w))" and g: "row_of g w = Some g"
    and before: "g_state g = Completed \<longrightarrow> (\<exists>j<i. completion_proven (gps j) g)"
  shows "row_of h w' = Some h \<and> (g_state h = Completed \<longrightarrow> (\<exists>j<i + n. completion_proven (gps j) h))"
  using assms
proof (induction n arbitrary: i locked g w)
  case (Suc n)
  obtain r w1 where one: "reconcile_round st (gps i) lease ow now g w = (Inr r, w1)"
    and rest: "(case r of Settled h \<Rightarrow> ws_ok h
       | Read_again \<Rightarrow> ws_bind (journal_now ''Git finalization disappeared after a successful reconciliation step'' g)
           (reconcile_rounds n (Suc i) (locked \<or> gfs_is_finalizing (g_state g)) st gps lease ow now)
       | Same_again \<Rightarrow> reconcile_rounds n (Suc i) (locked \<or> gfs_is_finalizing (g_state g)) st gps lease ow now g) w1 = (Inr h, w')"
    using Suc.prems(1) by (auto simp: ws_runs Let_def)
  obtain k where k: "journals_wf (journals (ws_db w1))" "row_of g w1 = Some k"
      "k = g \<or> g_state k \<noteq> Completed \<or> completion_proven (gps i) k"
      "case r of Settled m \<Rightarrow> m = k | Same_again \<Rightarrow> k = g | Read_again \<Rightarrow> True"
    using reconcile_round_ok [OF one Suc.prems(2,3)] unfolding round_ok_def by blast
  have "g_project k = g_project g \<and> g_session k = g_session g"
    using git_finalization_Some [OF k(2) [unfolded row_of_def]] by (simp add: journal_at_def)
  then have row: "row_of k w1 = Some k" using k(2) by (simp add: row_of_def)
  have proven: "g_state k = Completed \<longrightarrow> (\<exists>j<Suc i. completion_proven (gps j) k)"
    using k(3) Suc.prems(4) by (auto intro: less_SucI)
  show ?case
  proof (cases r)
    case (Settled m)
    have "g_state k = Completed \<longrightarrow> (\<exists>j<i + Suc n. completion_proven (gps j) k)"
    proof
      assume "g_state k = Completed"
      then obtain j where "j < Suc i" "completion_proven (gps j) k" using proven by blast
      then show "\<exists>j<i + Suc n. completion_proven (gps j) k" by (intro exI [of _ j]) simp
    qed
    then show ?thesis using Settled rest k(4) row by auto
  next
    case Read_again
    then show ?thesis using rest k(2) Suc.IH [OF _ k(1) row proven] by (auto simp: ws_runs journal_now_def row_of_def)
  next
    case Same_again
    then show ?thesis using rest k(4) Suc.IH [OF _ k(1) row proven] by auto
  qed
qed simp

text \<open>C33: the reconciliation of a journal that is not completed returns it completed only if, in one of
  its six rounds, Git proved that the commit has the sealed manifest and is still retained by the
  branch and, for a journal that publishes, that the fetched tip of the frozen upstream contains it;
  the returned journal is then the registry's row, and whatever happens the registry is changed by
  the store's transactions only.\<close>

theorem completion_needs_proof:
  assumes "journals_wf (journals (ws_db w))" and "git_finalization (ws_db w) (g_project g) (g_session g) = Some g"
    and "\<not> gfs_is_terminal (g_state g)"
  shows "case reconcile_agent_git_finalization st gps lease ow now g w of (r, w') \<Rightarrow>
     steps agent_step (ws_db w) (ws_db w')
     \<and> (case r of Inl _ \<Rightarrow> True
        | Inr h \<Rightarrow> git_finalization (ws_db w') (g_project h) (g_session h) = Some h
            \<and> (g_state h = Completed \<longrightarrow> (\<exists>j<6. completion_proven (gps j) h)))"
proof -
  obtain r w' where run: "reconcile_rounds 6 0 False st gps lease ow now g w = (r, w')" by fastforce
  have "g_state g \<noteq> Completed" using assms(3) by (auto simp: gfs_is_terminal_def)
  then have "row_of h w' = Some h \<and> (g_state h = Completed \<longrightarrow> (\<exists>j<6. completion_proven (gps j) h))" if "r = Inr h" for h
    using rounds_ok [OF run [unfolded that] assms(1)] assms(2) by (simp add: row_of_def)
  moreover have "steps agent_step (ws_db w) (ws_db w')"
    using keepsD [OF rounds_store run] by (simp add: runs_store_def)
  ultimately show ?thesis
    by (simp add: reconcile_agent_git_finalization_def run row_of_def split: sum.split)
qed

section \<open>A proven journal is completed\<close>

definition fence_held :: "str \<Rightarrow> finalizer option \<Rightarrow> workspace \<Rightarrow> bool" where
  "fence_held now lease w \<longleftrightarrow> (case lease of None \<Rightarrow> True
     | Some fz \<Rightarrow> fz_heartbeat_error fz = None \<and> git_finalization_lease_is_owned (ws_db w) (fz_project fz) (fz_holder fz) now)"

lemma fence_passes: "fence_held now lease w \<Longrightarrow> ensure_agent_git_finalization_fence now lease w = (Inr (), w)"
  by (auto simp: fence_held_def ensure_agent_git_finalization_fence_def ensure_owned_def ws_ok_def ws_bind_get ws_ensure_def
      ws_get_def ensure_def split: option.splits)

lemma owned_stays:
  assumes wf: "journals_wf (journals db)" and owned: "git_finalization_lease_is_owned db pid h now"
  shows "git_finalization_lease_is_owned (snd (compare_and_set_git_finalization q db)) pid h now"
proof -
  let ?db = "snd (compare_and_set_git_finalization q db)"
  have allow: "controls_allow_finalization db pid" "\<not> has_active_worker db pid"
    and c: "sql_count (\<lambda>l. l_project l = pid \<and> l_holder l = h \<and> \<not> cast_le (l_expires_at l) now) (leases db) = 1"
    using owned by (cases "controls_allow_finalization db pid \<and> \<not> has_active_worker db pid";
        auto simp: git_finalization_lease_is_owned_def sql_count_def)+
  have fr: "leases ?db = leases db \<and> workers ?db = workers db"
    using wf by (cases rule: compare_and_set_cases [where q = q]) simp_all
  have "controls_allow_finalization ?db pid" using compare_and_set_keeps_fences [OF wf allow(1)] .
  moreover have "\<not> has_active_worker ?db pid" using allow(2) by (simp add: has_active_worker_def fr)
  ultimately show ?thesis using c by (simp add: git_finalization_lease_is_owned_def fr)
qed

lemma advance_runs:
  assumes wf: "journals_wf (journals (ws_db w))" and g: "row_of g w = Some g" and st: "gfs_is_finalizing (g_state g)"
    and legal: "can_transition_to (g_state g) nx" "nx = PushPending \<Longrightarrow> g_git_mode g = CommitAndPush"
      "g_commit_oid g \<in> {None, Some oid}" "nx = Completed \<Longrightarrow> g_state g = (if g_git_mode g = Commit then CommitPending else PushPending)"
    and gen: "g_generation g < i64_max" and held: "fence_held now lease w"
  shows "\<exists>w' h. advance_journal ow now g nx (Some oid) w = (Inr Read_again, w') \<and> journals_wf (journals (ws_db w'))
    \<and> row_of g w' = Some h \<and> moved_row g nx (Some oid) h \<and> g_generation h = g_generation g + 1 \<and> fence_held now lease w'"
proof -
  let ?q = "\<lparr>cq_project = g_project g, cq_session = g_session g, cq_expected_generation = g_generation g, cq_next_state = nx,
    cq_task_identity = None, cq_worktree_baseline = None, cq_require_running_owner = False,
    cq_owner_run_token = option_or ow (g_owner_run_token g), cq_commit_oid = Some oid, cq_last_error = None, cq_updated_at = now\<rparr>"
  have row: "git_finalization (ws_db w) (cq_project ?q) (cq_session ?q) = Some g" using g by (simp add: row_of_def)
  have gin: "g \<in> set (journals (ws_db w))" using git_finalization_Some [OF row] by simp
  then have jw: "journal_wf g" and one: "one_finalizing (journals (ws_db w))" using wf by (simp_all add: journals_wf_def)
  have "cas_rejection g ?q = None"
  proof -
    have "g_task_identity g \<noteq> None" using jw st by (simp add: journal_wf_def)
    moreover have "\<not> (nx = Completed \<and> (g_git_mode g = Commit \<and> g_state g \<noteq> CommitPending
        \<or> g_git_mode g = CommitAndPush \<and> g_state g \<noteq> PushPending))" using legal(4) by auto
    moreover have "\<not> (g_commit_oid g \<noteq> None \<and> Some oid \<noteq> None \<and> g_commit_oid g \<noteq> Some oid)" using legal(3) by auto
    ultimately show ?thesis using legal(1,2) by (simp add: cas_rejection_def option_or_def)
  qed
  moreover have "\<not> finalizing_conflict (ws_db w) ?q"
    using one gin st by (auto simp: finalizing_conflict_def sql_exists_iff one_finalizing_def)
  ultimately have "fst (compare_and_set_git_finalization ?q (ws_db w)) = Inr True"
    using compare_and_set_accepts [OF wf row] gen by simp
  then obtain db' where acc: "compare_and_set_git_finalization ?q (ws_db w) = (Inr True, db')" by (metis prod.collapse)
  obtain g0 where g0: "git_finalization (ws_db w) (cq_project ?q) (cq_session ?q) = Some g0"
      "git_finalization db' (cq_project ?q) (cq_session ?q) = Some (cas_row ?q g0)" "journals_wf (journals db')"
    by (rule cas_accepted [OF wf acc])
  then have h: "git_finalization db' (g_project g) (g_session g) = Some (cas_row ?q g)" using row by simp
  have "fence_held now lease (w\<lparr>ws_db := db'\<rparr>)"
    using held owned_stays [OF wf, of _ _ now ?q] by (simp add: fence_held_def acc split: option.splits)
  moreover have "moved_row g nx (Some oid) (cas_row ?q g)" "g_generation (cas_row ?q g) = g_generation g + 1"
    by (simp_all add: moved_row_def cas_row_def option_or_def split: option.split)
  moreover have "advance_journal ow now g nx (Some oid) w = (Inr Read_again, w\<lparr>ws_db := db'\<rparr>)"
    using acc by (simp add: advance_journal_def compare_and_set_git_finalization_blocking_def ws_bind_def on_db_def ws_ok_def)
  ultimately show ?thesis using h g0(3) by (simp add: row_of_def)
qed

text \<open>Git gives the lock and every proof the journal needs.\<close>

definition git_answers :: "git_proof \<Rightarrow> journal_row \<Rightarrow> str \<Rightarrow> bool" where
  "git_answers gp g oid \<longleftrightarrow> gp_lock gp (g_session g) = Inr () \<and> (\<exists>ident start b. g_task_identity g = Some ident \<and> g_starting_head g = Some start
     \<and> gp_baseline gp (g_worktree_baseline g) = Inr b
     \<and> gp_find_commit gp (proof_start b start) (g_branch_ref g) (g_session g) ident (wb_version b = 1) = Inr (Some oid)
     \<and> gp_matches_manifest gp oid (g_session g) ident (g_worktree_baseline g) = Inr True
     \<and> gp_is_retained gp (g_branch_ref g) oid (g_session g) ident = Inr True
     \<and> (g_git_mode g = CommitAndPush \<longrightarrow> (\<exists>tip. published_tip gp b g ident oid = Inr (Some tip)
          \<and> gp_tip_proves gp tip oid (g_session g) ident (wb_version b = 1) = Inr True)))"

lemma git_answers_moved:
  assumes "moved_row g nx oid h"
  shows "git_answers gp h c \<longleftrightarrow> git_answers gp g c"
proof -
  have e: "g_git_mode h = g_git_mode g" "g_session h = g_session g" "g_task_identity h = g_task_identity g"
    "g_worktree_baseline h = g_worktree_baseline g" "g_branch_ref h = g_branch_ref g" "g_upstream_ref h = g_upstream_ref g"
    "g_starting_head h = g_starting_head g" using assms by (simp_all add: moved_row_def)
  show ?thesis unfolding git_answers_def published_tip_def e ..
qed

lemma commit_round_runs:
  assumes "journals_wf (journals (ws_db w))" "row_of g w = Some g" "g_state g = CommitPending"
    "g_commit_oid g \<in> {None, Some oid}" "g_generation g < i64_max" and held: "fence_held now lease w"
    and ans: "git_answers gp g oid" and nx: "next_after_commit (g_git_mode g) = Inr nx"
  shows "\<exists>w' h. reconcile_round st gp lease ow now g w = (Inr Read_again, w') \<and> journals_wf (journals (ws_db w'))
    \<and> row_of g w' = Some h \<and> moved_row g nx (Some oid) h \<and> g_generation h = g_generation g + 1 \<and> fence_held now lease w'"
proof -
  have mode: "nx = (if g_git_mode g = Commit then Completed else PushPending)" "g_git_mode g \<noteq> Off"
    using nx by (auto simp: next_after_commit_def split: AgentGitMode.splits)
  obtain ident start b where a: "g_task_identity g = Some ident" "g_starting_head g = Some start"
     "gp_baseline gp (g_worktree_baseline g) = Inr b"
     "gp_find_commit gp (proof_start b start) (g_branch_ref g) (g_session g) ident (wb_version b = 1) = Inr (Some oid)"
     "gp_matches_manifest gp oid (g_session g) ident (g_worktree_baseline g) = Inr True"
     "gp_is_retained gp (g_branch_ref g) oid (g_session g) ident = Inr True"
    using ans unfolding git_answers_def by blast
  have "g_git_mode g = CommitAndPush" if "g_git_mode g \<noteq> Commit" using that mode(2) by (cases "g_git_mode g") auto
  then have "\<exists>w' h. advance_journal ow now g nx (Some oid) w = (Inr Read_again, w') \<and> journals_wf (journals (ws_db w'))
    \<and> row_of g w' = Some h \<and> moved_row g nx (Some oid) h \<and> g_generation h = g_generation g + 1 \<and> fence_held now lease w'"
    using assms mode by (intro advance_runs) (auto simp: gfs_is_finalizing_def split: if_splits)
  moreover have "reconcile_round st gp lease ow now g w = advance_journal ow now g nx (Some oid) w"
    using assms(3) a nx
    by (simp add: reconcile_round_def round_commit_def prove_commit_def ws_bind_def fence_passes [OF held] ws_get_def ws_ensure_def
        ensure_def del: One_nat_def)
  ultimately show ?thesis by simp
qed

lemma push_round_runs:
  assumes "journals_wf (journals (ws_db w))" "row_of g w = Some g" "g_state g = PushPending"
    "g_commit_oid g = Some oid" "g_generation g < i64_max" and held: "fence_held now lease w" and ans: "git_answers gp g oid"
  shows "\<exists>w' h. reconcile_round st gp lease ow now g w = (Inr Read_again, w') \<and> journals_wf (journals (ws_db w'))
    \<and> row_of g w' = Some h \<and> moved_row g Completed (Some oid) h \<and> fence_held now lease w'"
proof -
  have "g \<in> set (journals (ws_db w))" using git_finalization_Some assms(2) by (auto simp: row_of_def)
  then have mode: "g_git_mode g = CommitAndPush" using assms(1,3) by (simp add: journals_wf_def journal_wf_def)
  obtain ident start b tip where a: "g_task_identity g = Some ident"
     "gp_baseline gp (g_worktree_baseline g) = Inr b"
     "gp_matches_manifest gp oid (g_session g) ident (g_worktree_baseline g) = Inr True"
     "gp_is_retained gp (g_branch_ref g) oid (g_session g) ident = Inr True"
     "published_tip gp b g ident oid = Inr (Some tip)" "gp_tip_proves gp tip oid (g_session g) ident (wb_version b = 1) = Inr True"
    using ans mode unfolding git_answers_def by blast
  have "\<exists>w' h. advance_journal ow now g Completed (Some oid) w = (Inr Read_again, w') \<and> journals_wf (journals (ws_db w'))
    \<and> row_of g w' = Some h \<and> moved_row g Completed (Some oid) h \<and> g_generation h = g_generation g + 1 \<and> fence_held now lease w'"
    using assms mode by (intro advance_runs) (auto simp: gfs_is_finalizing_def)
  moreover have "reconcile_round st gp lease ow now g w = advance_journal ow now g Completed (Some oid) w"
    using assms(3,4) a
    by (simp add: reconcile_round_def round_push_def Let_def result_bind_def ws_bind_def fence_passes [OF held] ws_get_def
        del: One_nat_def)
  ultimately show ?thesis by (simp only: simp_thms) blast
qed

declare reconcile_rounds.simps [simp del]

lemma next_round:
  assumes "reconcile_round st (gps i) lease ow now g w = (Inr Read_again, w1)" "row_of g w1 = Some h"
    and "gfs_is_finalizing (g_state g) \<and> \<not> locked \<Longrightarrow> gp_lock (gps i) (g_session g) = Inr ()"
  shows "reconcile_rounds (Suc n) i locked st gps lease ow now g w
    = reconcile_rounds n (Suc i) (locked \<or> gfs_is_finalizing (g_state g)) st gps lease ow now h w1"
  using assms by (simp add: reconcile_rounds.simps(2) ws_bind_def ws_get_def journal_now_def need_def row_of_def)

lemma last_round:
  assumes "g_state g = Completed" "fence_held now lease w"
  shows "reconcile_rounds (Suc n) i locked st gps lease ow now g w = (Inr g, w)"
  using assms(1) by (simp add: reconcile_rounds.simps(2) ws_bind_def ws_get_def reconcile_round_def fence_passes [OF assms(2)] ws_ok_def gfs_is_finalizing_def)

lemma push_completes:
  assumes "journals_wf (journals (ws_db w))" "row_of g w = Some g" "g_state g = PushPending"
    "g_commit_oid g = Some oid" "g_generation g < i64_max" "fence_held now lease w" "git_answers (gps i) g oid"
  shows "\<exists>h w'. reconcile_rounds (Suc (Suc n)) i locked st gps lease ow now g w = (Inr h, w') \<and> g_state h = Completed \<and> g_commit_oid h = Some oid"
proof -
  obtain w1 h where r: "reconcile_round st (gps i) lease ow now g w = (Inr Read_again, w1)" "row_of g w1 = Some h"
      "moved_row g Completed (Some oid) h" "fence_held now lease w1"
    using push_round_runs [OF assms] by blast
  have "gp_lock (gps i) (g_session g) = Inr ()" using assms(7) by (simp add: git_answers_def)
  then have "reconcile_rounds (Suc (Suc n)) i locked st gps lease ow now g w
      = reconcile_rounds (Suc n) (Suc i) (locked \<or> gfs_is_finalizing (g_state g)) st gps lease ow now h w1"
    by (intro next_round r)
  moreover have "g_state h = Completed" "g_commit_oid h = Some oid" using r(3) by (simp_all add: moved_row_def)
  ultimately show ?thesis using last_round [of h now lease w1] r(4) by auto
qed


section \<open>A journal that waits for its commit\<close>

definition demo_proof :: git_proof where
  "demo_proof = \<lparr>gp_baseline = (\<lambda>_. Inr \<lparr>wb_version = 2, wb_staged_patches = None, wb_staged_index_tree = None,
       wb_manifest_parent_head = None, wb_upstream_remote = None, wb_upstream_merge_ref = None, wb_upstream_push_url = None\<rparr>),
     gp_sealed_field = (\<lambda>_. True), gp_lock = (\<lambda>_. Inr ()), gp_branch = Inr None, gp_head = Inr [], gp_is_ancestor = (\<lambda>_ _. Inr True),
     gp_range_is_safe = (\<lambda>_ _ _. Inr True), gp_find_commit = (\<lambda>_ _ _ _ _. Inr (Some (lit ''c0ffee''))),
     gp_matches_manifest = (\<lambda>_ _ _ _. Inr True), gp_is_retained = (\<lambda>_ _ _ _. Inr True), gp_standard_environment = Inr (),
     gp_changed_paths = (\<lambda>_ _. Inr []), gp_done_mode = (\<lambda>_. Inr None), gp_done_blob = (\<lambda>_. Inr []), gp_references = (\<lambda>_. Inr []),
     gp_remote_urls = Inr [], gp_remote_tips = (\<lambda>_. Inr []), gp_checked_branch = (\<lambda>_. Inr None), gp_checked_head = (\<lambda>_. Inr []),
     gp_lock_index = Inr (), gp_index_done = Inr [], gp_stage_done = (\<lambda>_. Inr ()), gp_amend = (\<lambda>_ _ _. Inr []),
     gp_agent_identity = (\<lambda>_. Inr True), gp_trailers = (\<lambda>_. Inr []), gp_publish_index = Inr (), gp_update_ref = (\<lambda>_ _ _. Inr ()),
     gp_fetch_tip = (\<lambda>_ _ _ _. Inr (Some (lit ''c0ffee''))), gp_tip_proves = (\<lambda>_ _ _ _ _. Inr True), gp_push = (\<lambda>_ _ _ _. Inr ())\<rparr>"

definition demo_waiting :: workspace where
  "demo_waiting = demo_run_work\<lparr>ws_db := demo_pending\<rparr>"

definition demo_journal_row :: journal_row where
  "demo_journal_row = the (git_finalization demo_pending 1 (lit ''s1''))"

lemma demo_waiting_facts:
  "journals_wf (journals (ws_db demo_waiting))"
  "git_finalization (ws_db demo_waiting) (g_project demo_journal_row) (g_session demo_journal_row) = Some demo_journal_row"
  "g_state demo_journal_row = CommitPending" "g_commit_oid demo_journal_row = None" "g_generation demo_journal_row + 1 < i64_max"
  "g_task_identity demo_journal_row \<noteq> None" "g_starting_head demo_journal_row \<noteq> None"
  by code_simp+

lemma demo_answers: "git_answers demo_proof demo_journal_row (lit ''c0ffee'')"
  using demo_waiting_facts(6,7)
  by (auto simp: git_answers_def demo_proof_def published_tip_def result_bind_def)


lemma demo_completes:
  "fst (map_prod (map_sum id g_state) id (reconcile_agent_git_finalization demo_site (\<lambda>_. demo_proof) None None (lit ''2000'') demo_journal_row demo_waiting))
    = Inr Completed"
  by code_simp

theorem completion_needs_proof_witness:
  "\<exists>h w'. reconcile_agent_git_finalization demo_site (\<lambda>_. demo_proof) None None (lit ''2000'') demo_journal_row demo_waiting = (Inr h, w')
     \<and> g_state h = Completed \<and> completion_proven demo_proof h \<and> steps agent_step (ws_db demo_waiting) (ws_db w')"
proof -
  obtain r w' where run: "reconcile_agent_git_finalization demo_site (\<lambda>_. demo_proof) None None (lit ''2000'') demo_journal_row demo_waiting = (r, w')"
    by fastforce
  obtain h where h: "r = Inr h" "g_state h = Completed" using demo_completes by (cases r) (simp_all add: run)
  have "\<not> gfs_is_terminal (g_state demo_journal_row)" by (simp add: demo_waiting_facts(3) gfs_is_terminal_def)
  from completion_needs_proof [OF demo_waiting_facts(1,2) this, where st = demo_site and gps = "\<lambda>_. demo_proof"
      and lease = None and ow = None and now = "lit ''2000''"]
  show ?thesis using h by (simp add: run)
qed

end
