(* ===== verification/Worker_Runs.thy ===== *)
theory Worker_Runs
  imports Worker_Dispatch Git_Rounds Supervisor
begin

text \<open>
  The run of an agent's job (\<^verbatim>\<open>src/src/worker.rs\<close>): what is prepared before Codex runs, what its report
  becomes after the board and the Git journal were looked at, how a requested stop or interrupt is
  resolved, how the session's control is closed, when the task is deferred, and how the result
  is recorded and the worker or the lease given back.

  Codex itself is the argument \<^verbatim>\<open>re_run\<close> (\<^verbatim>\<open>AgentRunner::run_project\<close>); it may change the registry and the
  board.  The clock is asked before and after Codex.  Texts of summaries leave out paths.
\<close>

section \<open>What Codex reports\<close>

record AgentRunResult =
  rr_status :: string
  rr_exit_code :: "int option"
  rr_log_dir :: str
  rr_stdout :: str
  rr_stderr :: str
  rr_summary :: str
  rr_session :: "str option"
  rr_run_token :: "str option"
  rr_action :: "AgentSessionControlAction option"
  rr_decision :: "Decision result"

record 'j run_env =
  re_sup :: "'j sup_env"
  re_os :: os_view
  re_view :: git_view
  re_proofs :: "nat \<Rightarrow> git_proof"
  re_todo_present :: "bool result"
  re_lease_timeout :: "nat result"
  re_started :: nat
  re_now :: nat
  re_fuel :: nat
  re_run :: "project_row \<Rightarrow> AgentTaskSelection \<Rightarrow> str option \<Rightarrow> str \<Rightarrow> str option \<Rightarrow> 'j sup \<Rightarrow> AgentRunResult result \<times> 'j sup"

text \<open>The variables the stages of a run change.\<close>

record run_report =
  rp_status :: string
  rp_exit_code :: "int option"
  rp_log_dir :: "str option"
  rp_stdout :: "str option"
  rp_stderr :: "str option"
  rp_summary :: str
  rp_session :: "str option"
  rp_run_token :: "str option"
  rp_action :: "AgentSessionControlAction option"
  rp_git_pending :: bool
  rp_push_pending :: bool

record AgentRunCompletion =
  rc_run_id :: int
  rc_project :: project_row
  rc_status :: string
  rc_summary :: str
  rc_stdout :: "str option"
  rc_stderr :: "str option"

definition re_site :: "'j run_env \<Rightarrow> site" where "re_site env = se_site (re_sup env)"
definition re_stamp :: "'j run_env \<Rightarrow> str" where "re_stamp env = show_nat (re_now env)"
definition job_pid :: "AgentRunJob \<Rightarrow> int" where "job_pid job = p_id (job_project job)"

definition ws_try :: "'a ws \<Rightarrow> 'a result ws" where
  "ws_try m w = (case m w of (r, w') \<Rightarrow> (Inr r, w'))"

definition sv_try :: "('a, 'j) sv \<Rightarrow> ('a result, 'j) sv" where
  "sv_try m v = (case m v of (r, v') \<Rightarrow> (Inr r, v'))"

section \<open>Before Codex runs\<close>

definition agent_git_mode_for_launch :: "site \<Rightarrow> git_view \<Rightarrow> project_row \<Rightarrow> str option \<Rightarrow> AgentGitMode ws" where
  "agent_git_mode_for_launch st gv p resume =
     ws_bind (effective_agent_git_mode st gv p resume) (\<lambda>mode. ws_ok (if mode = Off then p_git_mode p else mode))"

definition launch_session :: "'j run_env \<Rightarrow> AgentRunJob \<Rightarrow> workspace \<Rightarrow> str option result" where
  "launch_session env job w =
     (case job_resume_session job of
        Some s \<Rightarrow> Inr (Some s)
      | None \<Rightarrow> automated_codex_session_to_resume (re_site env) (re_todo_present env) (job_selection job) w)"

definition agent_job_uses_git :: "'j run_env \<Rightarrow> AgentRunJob \<Rightarrow> bool ws" where
  "agent_job_uses_git env job =
     (if job_selection job = SupervisorReview then ws_ok False
      else ws_bind (ws_get (launch_session env job)) (\<lambda>s.
           ws_bind (agent_git_mode_for_launch (re_site env) (re_view env) (job_project job) s) (\<lambda>mode. ws_ok (mode \<noteq> Off))))"

definition proof_recovery_requested :: "AgentRunJob \<Rightarrow> workspace \<Rightarrow> bool result" where
  "proof_recovery_requested job w =
     (case job_resume_session job of
        None \<Rightarrow> Inr False
      | Some s \<Rightarrow> map_sum id (\<lambda>c. case Option.bind c sc_run_token of None \<Rightarrow> False
                               | Some t \<Rightarrow> starts_with t git_finalization_token_prefix)
                   (session_control (ws_db w) (job_pid job) s))"

definition supersede_for_resume :: "AgentRunJob \<Rightarrow> unit ws" where
  "supersede_for_resume job =
     (if job_worker_token job = None \<and> job_selection job = ResumeDoing
      then ws_bind (on_db (supersede_abandoned_workers_for_lease (job_pid job) (job_holder job))) (\<lambda>_. ws_ok ())
      else ws_ok ())"

definition supervise_start :: "'j run_env \<Rightarrow> AgentRunJob \<Rightarrow> (AgentRunJob, 'j) sv" where
  "supervise_start env job =
     sv_bind (if job_selection job = SupervisorRetry then prepare_retry (re_sup env) (job_pid job) else sv_ok ()) (\<lambda>_.
     if job_selection job = SupervisorReview
     then sv_bind (begin_review (re_sup env) (job_pid job)) (\<lambda>_.
          sv_bind (sv_get (configured_project (re_sup env) (job_project job))) (\<lambda>p. sv_ok (job\<lparr>job_project := p\<rparr>)))
     else sv_ok job)"

text \<open>The job with its Git mode, the journal before the run, and whether its proof is being recovered.\<close>

definition prepare_run :: "'j run_env \<Rightarrow> AgentRunJob \<Rightarrow> (AgentRunJob \<times> journal_row option \<times> bool, 'j) sv" where
  "prepare_run env job0 =
     sv_bind (sv_get (\<lambda>v. launch_session env job0 (su_work v))) (\<lambda>s.
     sv_bind (on_work (agent_git_mode_for_launch (re_site env) (re_view env) (job_project job0) s)) (\<lambda>mode.
     let job = job0\<lparr>job_project := (job_project job0)\<lparr>p_git_mode := mode\<rparr>\<rparr> in
     sv_bind (on_work (supersede_for_resume job)) (\<lambda>_.
     sv_bind (sv_get (\<lambda>v. Inr (Option.bind (job_resume_session job) (git_finalization (ws_db (su_work v)) (job_pid job))))) (\<lambda>journal.
     sv_bind (sv_get (\<lambda>v. proof_recovery_requested job (su_work v))) (\<lambda>recovery.
     sv_bind (supervise_start env job) (\<lambda>job'.
     sv_ok (job', journal, recovery)))))))"

definition renew_fence :: "'j run_env \<Rightarrow> AgentRunJob \<Rightarrow> unit ws" where
  "renew_fence env job = on_db (renew_agent_job_worker_fence (own_pid (re_os env)) (re_lease_timeout env) (re_now env) job)"

section \<open>The report of the run\<close>

definition runner_error :: "string \<Rightarrow> str" where
  "runner_error e = lit ''Codex runner failed before completion: '' @ lit e"

definition failed_report :: "AgentRunJob \<Rightarrow> string \<Rightarrow> run_report" where
  "failed_report job e =
     \<lparr>rp_status = ''failure'', rp_exit_code = None, rp_log_dir = None, rp_stdout = None, rp_stderr = None,
      rp_summary = runner_error e, rp_session = job_resume_session job, rp_run_token = None, rp_action = None,
      rp_git_pending = False, rp_push_pending = False\<rparr>"

definition report_of :: "AgentRunResult \<Rightarrow> run_report" where
  "report_of r =
     \<lparr>rp_status = rr_status r, rp_exit_code = rr_exit_code r, rp_log_dir = Some (rr_log_dir r), rp_stdout = Some (rr_stdout r),
      rp_stderr = Some (rr_stderr r), rp_summary = rr_summary r, rp_session = rr_session r, rp_run_token = rr_run_token r,
      rp_action = rr_action r, rp_git_pending = False, rp_push_pending = False\<rparr>"

text \<open>The decision of a review is applied; a review without one is held.\<close>

definition review_report :: "'j run_env \<Rightarrow> AgentRunJob \<Rightarrow> AgentRunResult \<Rightarrow> run_report \<Rightarrow> (run_report, 'j) sv" where
  "review_report env job r rp =
     (if job_selection job \<noteq> SupervisorReview then sv_ok rp
      else sv_bind (sv_try (if rp_status rp = ''success'' then finish_review (re_sup env) (job_pid job) (rr_decision r)
                            else sv_get (\<lambda>_. Inl ''Supervisor stopped without a decision''))) (\<lambda>decision.
           case decision of
             Inr message \<Rightarrow> sv_ok (rp\<lparr>rp_summary := message\<rparr>)
           | Inl e \<Rightarrow>
               let text = lit ''Supervisor needs attention: '' @ lit e in
               sv_bind (hold_error (re_sup env) (job_pid job) text) (\<lambda>_.
               sv_ok (rp\<lparr>rp_summary := text, rp_status := (if rp_action rp = None then ''failure'' else rp_status rp)\<rparr>))))"

definition project_scan :: "site \<Rightarrow> workspace \<Rightarrow> AgentProjectScan" where
  "project_scan st w =
     scan_agent_project Is_dir (Inr True) (Inr (entries w Todo)) (Inr (entries w Doing))
       (map_sum id (snapshot_ready (s_scope_json st) (s_uuid5 st)) (admission st w))"

definition progress_report :: "'j run_env \<Rightarrow> AgentRunJob \<Rightarrow> workspace \<Rightarrow> run_report \<Rightarrow> run_report" where
  "progress_report env job w rp =
     (if rp_status rp \<in> {''success'', ''idle''} \<and> blocked_recovery_made_no_progress job (project_scan (re_site env) w) w
      then rp\<lparr>rp_status := ''blocked'',
              rp_summary := lit ''Blocked-task recovery left '' @ show_nat (job_blocked_before job)
                @ lit '' blocked task(s) unresolved across todo and doing; retry after the recovery backoff. Runner result: ''
                @ rp_summary rp\<rparr>
      else rp)"

definition scan_error :: "AgentProjectScan \<Rightarrow> string option" where
  "scan_error s = (case scan_status s of Unavailable e \<Rightarrow> Some e | _ \<Rightarrow> None)"

definition session_on_active_task :: "AgentRunJob \<Rightarrow> workspace \<Rightarrow> run_report \<Rightarrow> bool" where
  "session_on_active_task job w rp =
     (case option_or (rp_session rp) (job_resume_session job) of
        None \<Rightarrow> False
      | Some s \<Rightarrow> (case md_task_for_codex_session (ws_board w) s True of None \<Rightarrow> False | Some (sta, _) \<Rightarrow> status_is_active sta))"

text \<open>A report that nothing was left to do counts only where the board agrees.\<close>

definition idle_report :: "'j run_env \<Rightarrow> AgentRunJob \<Rightarrow> workspace \<Rightarrow> run_report \<Rightarrow> run_report" where
  "idle_report env job w rp =
     (let scan = project_scan (re_site env) w in
      if rp_status rp = ''idle''
         \<and> (has_pending_task scan \<or> session_on_active_task job w rp \<or> scan_error scan \<noteq> None)
      then rp\<lparr>rp_status := ''failure'',
              rp_summary := lit ''Codex reported no available tasks, but the board still has '' @ show_nat (available_todo_count scan)
                @ lit '' ready Todo task(s) and '' @ show_nat (doing_count scan)
                @ lit '' Doing task(s). No-task report was not accepted; retry after the failure backoff.''\<rparr>
      else rp)"

definition link_report :: "'j run_env \<Rightarrow> AgentRunJob \<Rightarrow> run_report \<Rightarrow> run_report ws" where
  "link_report env job rp =
     (case rp_session rp of
        None \<Rightarrow> ws_ok rp
      | Some s \<Rightarrow>
          ws_bind (ws_try (link_agent_session_after_run_stage (re_site env) job s (rp_status rp))) (\<lambda>linked.
          case linked of
            Inr _ \<Rightarrow> ws_ok rp
          | Inl e \<Rightarrow> ws_ok (rp\<lparr>rp_status := ''failure'',
                       rp_summary := rp_summary rp @ lit '' Failed to persist the Codex session marker on the task: '' @ lit e\<rparr>)))"

definition result_report :: "'j run_env \<Rightarrow> AgentRunJob \<Rightarrow> AgentRunResult result \<Rightarrow> (run_report, 'j) sv" where
  "result_report env job run =
     (case run of
        Inl e \<Rightarrow> sv_ok (failed_report job e)
      | Inr r \<Rightarrow>
          sv_bind (review_report env job r (report_of r)) (\<lambda>rp.
          sv_bind (sv_get (\<lambda>v. Inr (idle_report env job (su_work v) (progress_report env job (su_work v) rp)))) (\<lambda>rp.
          on_work (link_report env job rp))))"

section \<open>The Git journal after the run\<close>

definition report_session :: "AgentRunJob \<Rightarrow> run_report \<Rightarrow> str option" where
  "report_session job rp = option_or (rp_session rp) (job_resume_session job)"

definition failing :: "string \<Rightarrow> run_report \<Rightarrow> run_report" where
  "failing text rp = rp\<lparr>rp_status := ''failure'', rp_summary := lit text\<rparr>"

definition blocking :: "string \<Rightarrow> run_report \<Rightarrow> run_report" where
  "blocking text rp = rp\<lparr>rp_status := ''blocked'', rp_summary := lit text\<rparr>"

text \<open>The journal and its state before the run's own reconciliation.\<close>

definition reconcile_session ::
  "'j run_env \<Rightarrow> AgentRunJob \<Rightarrow> run_report \<Rightarrow> str \<Rightarrow> (GitFinalizationState \<times> journal_row) option ws" where
  "reconcile_session env job rp s w =
     (case git_finalization (ws_db w) (job_pid job) s of
        None \<Rightarrow> (Inr None, w)
      | Some g \<Rightarrow>
          ws_bind (reconcile_agent_git_finalization (re_site env) (re_proofs env) None (rp_run_token rp) (re_stamp env) g)
            (\<lambda>h. ws_ok (Some (g_state g, h))) w)"

text \<open>The completion belongs to this run: it happened in it, or its token or its recovery stands behind it.\<close>

definition completes_in_run :: "journal_row option \<Rightarrow> bool \<Rightarrow> run_report \<Rightarrow> GitFinalizationState \<Rightarrow> journal_row \<Rightarrow> bool" where
  "completes_in_run before recovery rp initial g \<longleftrightarrow>
     \<not> gfs_is_terminal initial
     \<or> (case before of None \<Rightarrow> False
        | Some b \<Rightarrow> \<not> gfs_is_terminal (g_state b) \<and> g_session b = g_session g \<and> g_generation g > g_generation b)
     \<or> (case rp_run_token rp of None \<Rightarrow> False | Some t \<Rightarrow> g_owner_run_token g = Some t)
     \<or> recovery"

definition proven_report :: "journal_row \<Rightarrow> run_report \<Rightarrow> run_report" where
  "proven_report g rp =
     rp\<lparr>rp_status := ''success'', rp_summary := lit ''CLT proved the task-specific Git finalization at commit ''
          @ (case g_commit_oid g of None \<Rightarrow> lit ''unknown'' | Some oid \<Rightarrow> take 12 oid) @ lit ''.''\<rparr>"

definition task_durably_blocked :: "(TaskStatus \<times> TaskEntry) option \<Rightarrow> bool" where
  "task_durably_blocked t = (case t of None \<Rightarrow> False | Some (sta, e) \<Rightarrow> status_is_active sta \<and> entry_blocked e)"

definition working_report :: "'j run_env \<Rightarrow> AgentRunJob \<Rightarrow> run_report \<Rightarrow> journal_row \<Rightarrow> run_report ws" where
  "working_report env job rp g =
     (let unbound = (g_task_identity g = None \<and> g_commit_oid g = None)
      in ws_bind (ws_get (\<lambda>w. Inr (terminal_task w (g_session g)))) (\<lambda>linked.
         ws_bind (ws_get (\<lambda>w. project_session_waiting (re_site env) w (g_session g))) (\<lambda>waiting.
         if waiting then ws_ok (blocking ''The task has a coordination wait; its work and exact Git journal are preserved. CLT reevaluates its prerequisite/overlap automatically; see clt context.'' rp)
         else if task_durably_blocked linked then ws_ok (blocking ''The linked task recorded a durable blocker; its pre-run Git journal remains available for a later recovery without finalizing the task.'' rp)
         else if linked = None \<and> (rp_status rp = ''idle'' \<or> unbound) then
           ws_bind (retire_unlinked_working_git_finalization_after_run (re_site env) (re_stamp env) g (rp_run_token rp)) (\<lambda>cancelled.
           ws_ok (if cancelled then rp
                  else (failing ''An unused Git journal could not be cancelled because its task link or running generation changed.'' rp)\<lparr>rp_git_pending := True\<rparr>))
         else ws_ok (if rp_status rp = ''blocked'' then rp
                     else (failing ''The task's Git journal remains WORKING; CLT preserved this exact Codex session because the task is neither durably blocked nor finalized.'' rp)\<lparr>rp_git_pending := True\<rparr>))))"

definition open_journal_report :: "'j run_env \<Rightarrow> run_report \<Rightarrow> journal_row \<Rightarrow> run_report ws" where
  "open_journal_report env rp g =
     (if g_state g = PushPending then
        ws_ok ((failing ''The sealed task commit remains PUSH-PENDING; CLT will retry its exact frozen-OID publication without resuming Codex or scheduling another project task.'' rp)\<lparr>rp_push_pending := True\<rparr>)
      else if gfs_is_terminal (g_state g) then ws_ok rp
      else ws_bind (ws_get (\<lambda>_. se_diagnostic (re_sup env) g)) (\<lambda>diagnostic.
           ws_ok (rp\<lparr>rp_git_pending := True, rp_status := ''failure'',
             rp_summary := lit ''Task Git finalization remains '' @ lit (gfs_status_label (g_state g)) @ lit '': '' @ diagnostic
               @ lit '' CLT preserves this exact session; the enabled supervisor will assess recovery before another attempt.''\<rparr>)))"

text \<open>The proof failed: only a sealed and proven commit leaves the session.\<close>

definition failed_proof_report :: "AgentRunJob \<Rightarrow> str \<Rightarrow> string \<Rightarrow> run_report \<Rightarrow> workspace \<Rightarrow> run_report" where
  "failed_proof_report job s e rp w =
     (if (case git_finalization (ws_db w) (job_pid job) s of None \<Rightarrow> False | Some g \<Rightarrow> g_state g = PushPending)
      then (failing (''The sealed task commit remains PUSH-PENDING after CLT's bounded publication attempt; CLT will retry without resuming Codex: '' @ e) rp)\<lparr>rp_push_pending := True\<rparr>
      else (failing (''Git finalization proof failed and remains resumable in this exact session: '' @ e) rp)\<lparr>rp_git_pending := True\<rparr>)"

definition journal_report ::
  "'j run_env \<Rightarrow> AgentRunJob \<Rightarrow> journal_row option \<Rightarrow> bool \<Rightarrow> str \<Rightarrow> run_report \<Rightarrow> (GitFinalizationState \<times> journal_row) option result \<Rightarrow> run_report ws" where
  "journal_report env job before recovery s rp finalization =
     (case finalization of
        Inl e \<Rightarrow> ws_get (\<lambda>w. Inr (failed_proof_report job s e rp w))
      | Inr None \<Rightarrow>
          ws_get (\<lambda>w. Inr (if p_git_mode (job_project job) \<noteq> Off \<and> worktree_contains_completed_done_task w s
            then (failing ''The task entered Done without its required durable Git finalization record; CLT preserved the exact session for recovery.'' rp)\<lparr>rp_git_pending := True\<rparr>
            else rp))
      | Inr (Some (initial, g)) \<Rightarrow>
          if g_state g = Completed \<and> completes_in_run before recovery rp initial g then ws_ok (proven_report g rp)
          else if g_state g = Working then working_report env job rp g
          else open_journal_report env rp g)"

definition git_report :: "'j run_env \<Rightarrow> AgentRunJob \<Rightarrow> journal_row option \<Rightarrow> bool \<Rightarrow> run_report \<Rightarrow> run_report ws" where
  "git_report env job before recovery rp =
     (case (rp_action rp, report_session job rp) of
        (None, Some s) \<Rightarrow>
          ws_bind (ws_try (reconcile_session env job rp s)) (\<lambda>finalization.
          journal_report env job before recovery s rp finalization)
      | _ \<Rightarrow> ws_ok rp)"

definition branch_recovery_error :: "AgentRunResult result \<Rightarrow> str option" where
  "branch_recovery_error run =
     (case run of Inr _ \<Rightarrow> None
      | Inl e \<Rightarrow> if contains (runner_error e) (lit ''Git task branch changed:'') then Some (runner_error e) else None)"

definition branch_report :: "AgentRunResult result \<Rightarrow> run_report \<Rightarrow> run_report" where
  "branch_report run rp =
     (case branch_recovery_error run of
        Some text \<Rightarrow> if rp_status rp = ''success'' then rp
                     else rp\<lparr>rp_status := ''failure'', rp_summary := text, rp_git_pending := True\<rparr>
      | None \<Rightarrow> rp)"

section \<open>The session's control\<close>

definition keeps_exact_session :: "AgentRunJob \<Rightarrow> run_report \<Rightarrow> bool" where
  "keeps_exact_session job rp \<longleftrightarrow> \<not> rp_push_pending rp
     \<and> (rp_git_pending rp \<or> (job_selection job = ResumeSession \<and> rp_status rp \<notin> {''success'', ''idle'', ''blocked''}))"

text \<open>The loop ends when the control is gone, is another run's, was requested to stop or interrupt, or was
  cleared; \<open>Spinning\<close> is a loop that has used its fuel.\<close>

datatype resolution = Resolved "AgentSessionControlAction option" | Spinning

fun resolve_control :: "nat \<Rightarrow> int \<Rightarrow> str \<Rightarrow> str \<Rightarrow> bool \<Rightarrow> resolution db" where
  "resolve_control 0 pid s t preserve db = (Inr Spinning, db)"
| "resolve_control (Suc n) pid s t preserve db =
     (case session_control db pid s of
        Inl e \<Rightarrow> (Inl e, db)
      | Inr None \<Rightarrow> (Inr (Resolved None), db)
      | Inr (Some c) \<Rightarrow>
          if sc_run_token c \<noteq> Some t then (Inr (Resolved None), db)
          else (case requested_action (sc_state c) of
                  Some a \<Rightarrow> (Inr (Resolved (Some a)), db)
                | None \<Rightarrow>
                    if sc_state c \<noteq> Running \<or> preserve then (Inr (Resolved None), db)
                    else (case clear_running_session_control pid s (Some t) db of
                            (Inl e, db1) \<Rightarrow> (Inl e, db1)
                          | (Inr True, db1) \<Rightarrow> (Inr (Resolved None), db1)
                          | (Inr False, db1) \<Rightarrow> resolve_control n pid s t preserve db1)))"

definition control_report :: "'j run_env \<Rightarrow> AgentRunJob \<Rightarrow> run_report \<Rightarrow> run_report ws" where
  "control_report env job rp =
     (case (rp_action rp, rp_session rp, rp_run_token rp) of
        (None, Some s, Some t) \<Rightarrow>
          ws_bind (ws_try (on_db (resolve_control (re_fuel env) (job_pid job) s t (keeps_exact_session job rp)))) (\<lambda>r.
          case r of
            Inl e \<Rightarrow> ws_ok (rp\<lparr>rp_status := ''failure'', rp_summary := rp_summary rp @ lit '' Failed to resolve Codex session control: '' @ lit e\<rparr>)
          | Inr (Resolved a) \<Rightarrow> ws_ok (rp\<lparr>rp_action := a\<rparr>)
          | Inr Spinning \<Rightarrow> ws_get (\<lambda>_. Inl ''The session control is not resolved yet''))
      | _ \<Rightarrow> ws_ok rp)"

definition action_report :: "run_report \<Rightarrow> run_report" where
  "action_report rp =
     (case rp_action rp of
        None \<Rightarrow> rp
      | Some Stop \<Rightarrow> rp\<lparr>rp_status := ''stopped'', rp_summary := lit ''Codex task session stopped and remains resumable.''\<rparr>
      | Some Interrupt \<Rightarrow> rp\<lparr>rp_status := ''handoff'', rp_summary := lit ''Codex task session is ready for interactive handoff.''\<rparr>)"

definition stop_session :: "'j run_env \<Rightarrow> AgentRunJob \<Rightarrow> run_report \<Rightarrow> unit ws" where
  "stop_session env job rp =
     ws_bind (ws_get (\<lambda>_. need ''Stopped Codex run did not report the session ID needed for resumption'' (rp_session rp))) (\<lambda>s.
     ws_bind (ws_get (\<lambda>_. need ''Stopped Codex run did not report its session-control generation'' (rp_run_token rp))) (\<lambda>t.
     ws_bind (on_db (complete_session_stop (job_pid job) s t (re_stamp env))) (\<lambda>stopped.
     if stopped then ws_ok ()
     else ws_bind (ws_get (\<lambda>w. session_control (ws_db w) (job_pid job) s)) (\<lambda>control.
          ws_ensure (\<lambda>_. case control of None \<Rightarrow> False
                     | Some c \<Rightarrow> sc_state c = Stopped \<and> sc_run_token c = Some t \<and> sc_child_pid c = None)
            ''Codex session changed before its stop could be finalized''))))"

definition handed_over :: "registry \<Rightarrow> int \<Rightarrow> str \<Rightarrow> control_row option \<Rightarrow> str option" where
  "handed_over db pid t control =
     Option.bind control (\<lambda>c. Option.bind (sc_interactive_holder c) (\<lambda>h.
       if sc_state c = ReadyInteractive \<and> sc_run_token c = Some t \<and> sc_child_pid c = None
          \<and> (case lease_for_project db pid of None \<Rightarrow> False | Some (l, _) \<Rightarrow> l_holder l = h)
       then Some h else None))"

definition hand_over_session :: "'j run_env \<Rightarrow> AgentRunJob \<Rightarrow> run_report \<Rightarrow> str ws" where
  "hand_over_session env job rp =
     ws_bind (ws_get (\<lambda>_. need ''Interrupted Codex run did not report the session ID needed for handoff'' (rp_session rp))) (\<lambda>s.
     ws_bind (ws_get (\<lambda>_. need ''Interrupted Codex run did not report its session-control generation'' (rp_run_token rp))) (\<lambda>t.
     ws_bind (ws_get (\<lambda>_. re_lease_timeout env)) (\<lambda>timeout.
     ws_bind (on_db (complete_session_interrupt_handoff (job_pid job) s t (job_holder job) (re_stamp env)
                (show_nat (saturating_add_u64 (re_now env) (max timeout 60))))) (\<lambda>successor.
     case successor of
       Some h \<Rightarrow> ws_ok h
     | None \<Rightarrow>
         ws_bind (ws_get (\<lambda>w. session_control (ws_db w) (job_pid job) s)) (\<lambda>control.
         ws_get (\<lambda>w. need ''Codex session changed before its interactive handoff completed''
                   (handed_over (ws_db w) (job_pid job) t control)))))))"

definition clear_session :: "AgentRunJob \<Rightarrow> run_report \<Rightarrow> unit ws" where
  "clear_session job rp =
     (case report_session job rp of
        None \<Rightarrow> ws_ok ()
      | Some s \<Rightarrow>
          if keeps_exact_session job rp then ws_ok ()
          else ws_bind (on_db (clear_running_session_control (job_pid job) s (rp_run_token rp))) (\<lambda>_. ws_ok ()))"

text \<open>The holder the lease was handed over to, if it was.\<close>

definition close_session :: "'j run_env \<Rightarrow> AgentRunJob \<Rightarrow> run_report \<Rightarrow> str option ws" where
  "close_session env job rp =
     (case rp_action rp of
        Some Stop \<Rightarrow> ws_bind (stop_session env job rp) (\<lambda>_. ws_ok None)
      | Some Interrupt \<Rightarrow> ws_bind (hand_over_session env job rp) (\<lambda>h. ws_ok (Some h))
      | None \<Rightarrow> ws_bind (clear_session job rp) (\<lambda>_. ws_ok None))"

section \<open>Deferring a waiting task\<close>

definition may_be_deferred :: "AgentRunJob \<Rightarrow> str \<Rightarrow> registry \<Rightarrow> bool result" where
  "may_be_deferred job s db =
     result_bind (session_control db (job_pid job) s) (\<lambda>control.
     if (case control of None \<Rightarrow> False
         | Some c \<Rightarrow> sc_state c \<noteq> ResumeRequested \<or> sc_child_pid c \<noteq> None \<or> sc_interactive_holder c \<noteq> None
             \<or> sc_interactive_launch_token c \<noteq> None)
     then Inr False
     else Inr (case git_finalization db (job_pid job) s of None \<Rightarrow> True | Some g \<Rightarrow> g_state g = Working))"

definition queue_in_todo :: "TaskStatus \<Rightarrow> TaskEntry \<Rightarrow> bool ws" where
  "queue_in_todo sta e w =
     (if sta \<noteq> Doing then (Inr True, w)
      else case position (\<lambda>x. t_source x = t_source e \<and> t_content x = t_content e) (entries w sta) of
             None \<Rightarrow> (Inr False, w)
           | Some i \<Rightarrow> ws_bind (on_board (\<lambda>b. md_move_without_reordering b sta Todo (i + 1))) (\<lambda>_. ws_ok True) w)"

text \<open>The waits of the board are asked only for a task that is not blocked.\<close>

definition waits_in_active_list :: "'j run_env \<Rightarrow> str \<Rightarrow> TaskStatus \<Rightarrow> TaskEntry \<Rightarrow> workspace \<Rightarrow> bool result" where
  "waits_in_active_list env s sta e w =
     (if \<not> status_is_active sta then Inr False
      else result_bind (if entry_blocked e then Inr True else project_session_waiting (re_site env) w s) (\<lambda>waits.
           Inr (waits \<and> \<not> entry_stopped e \<and> \<not> task_content_is_manual (t_content e))))"

definition defer_blocked_task_after_run :: "'j run_env \<Rightarrow> AgentRunJob \<Rightarrow> str \<Rightarrow> bool ws" where
  "defer_blocked_task_after_run env job s =
     ws_bind (ws_get (\<lambda>_. s_lock (re_site env))) (\<lambda>_.
     ws_bind (renew_fence env job) (\<lambda>_.
     ws_bind (ws_get (\<lambda>w. may_be_deferred job s (ws_db w))) (\<lambda>idle w.
     if \<not> idle then (Inr False, w)
     else case linked_tasks w s of
            [(sta, e)] \<Rightarrow>
              ws_bind (ws_get (waits_in_active_list env s sta e)) (\<lambda>waits.
              if waits then queue_in_todo sta e else ws_ok False) w
          | _ \<Rightarrow> (Inr False, w))))"

definition defer_report :: "'j run_env \<Rightarrow> AgentRunJob \<Rightarrow> bool \<Rightarrow> run_report \<Rightarrow> run_report ws" where
  "defer_report env job closed rp =
     (case report_session job rp of
        Some s \<Rightarrow>
          if closed \<and> rp_action rp = None \<and> \<not> rp_git_pending rp \<and> \<not> rp_push_pending rp \<and> job_selection job \<noteq> SupervisorReview
          then ws_bind (defer_blocked_task_after_run env job s) (\<lambda>deferred.
               ws_ok (if deferred
                      then rp\<lparr>rp_status := ''blocked'',
                              rp_summary := lit ''The waiting task is queued in Todo with its work and session preserved. '' @ rp_summary rp\<rparr>
                      else rp))
          else ws_ok rp
      | None \<Rightarrow> ws_ok rp)"

section \<open>Recording the result\<close>

definition job_finalization :: "'j run_env \<Rightarrow> str \<Rightarrow> str \<Rightarrow> run_report \<Rightarrow> AgentWorkerFinalization" where
  "job_finalization env token holder rp =
     \<lparr>fin_token = token, fin_expected_pid = Some (int (own_pid (re_os env))), fin_expected_lease_holder = holder,
      fin_status = rp_status rp, fin_finished_at = re_stamp env, fin_exit_code = rp_exit_code rp, fin_log_dir = rp_log_dir rp,
      fin_stdout_path = rp_stdout rp, fin_stderr_path = rp_stderr rp, fin_summary = Some (rp_summary rp),
      fin_codex_session_id = rp_session rp, fin_error = None\<rparr>"

definition job_outcome :: "'j run_env \<Rightarrow> AgentRunJob \<Rightarrow> run_report \<Rightarrow> AgentRunOutcome" where
  "job_outcome env job rp =
     \<lparr>o_project = job_pid job, o_status = rp_status rp, o_started_at = show_nat (re_started env),
      o_finished_at = Some (re_stamp env), o_exit_code = rp_exit_code rp, o_log_dir = rp_log_dir rp, o_stdout_path = rp_stdout rp,
      o_stderr_path = rp_stderr rp, o_summary = Some (rp_summary rp), o_codex_session_id = rp_session rp\<rparr>"

text \<open>A worker's run ends with its worker; the lease of another run is given back whatever the record says.\<close>

definition record_agent_result_stage :: "'j run_env \<Rightarrow> AgentRunJob \<Rightarrow> str option \<Rightarrow> run_report \<Rightarrow> int db" where
  "record_agent_result_stage env job successor rp db =
     (case job_worker_token job of
        Some token \<Rightarrow>
          (case finalize_worker (job_finalization env token (case successor of None \<Rightarrow> job_holder job | Some h \<Rightarrow> h) rp) db of
             (Inl e, db1) \<Rightarrow> (Inl e, db1)
           | (Inr None, db1) \<Rightarrow> (Inl ''Agent worker lost its finalization fence'', db1)
           | (Inr (Some rid), db1) \<Rightarrow> (Inr rid, db1))
      | None \<Rightarrow>
          (case record_run_outcome (job_outcome env job rp) db of
             (recorded, db1) \<Rightarrow>
               if successor \<noteq> None then (recorded, db1)
               else (case release_lease (job_pid job) (job_holder job) db1 of
                       (released, db2) \<Rightarrow> (result_bind recorded (\<lambda>rid. map_sum id (\<lambda>_. rid) released), db2))))"

section \<open>The run\<close>

definition supervise_end :: "'j run_env \<Rightarrow> AgentRunJob \<Rightarrow> run_report \<Rightarrow> (unit, 'j) sv" where
  "supervise_end env job rp =
     (if job_selection job = SupervisorReview
      then (if rp_status rp = ''success'' then sv_ok () else hold_error (re_sup env) (job_pid job) (rp_summary rp))
      else after_task_run (re_sup env) (job_pid job) (job_selection job) (rp_status rp))"

definition lifecycle_report :: "str option result \<Rightarrow> run_report \<Rightarrow> run_report" where
  "lifecycle_report closed rp =
     (case closed of
        Inr _ \<Rightarrow> rp
      | Inl e \<Rightarrow> rp\<lparr>rp_status := ''failure'', rp_summary := rp_summary rp @ lit '' Failed to finalize Codex session control: '' @ lit e\<rparr>)"

definition end_run :: "'j run_env \<Rightarrow> AgentRunJob \<Rightarrow> run_report \<Rightarrow> (AgentRunCompletion, 'j) sv" where
  "end_run env job rp0 =
     sv_bind (on_work (ws_try (close_session env job rp0))) (\<lambda>closed.
     sv_bind (on_work (defer_report env job (is_ok closed) (lifecycle_report closed rp0))) (\<lambda>rp.
     sv_bind (supervise_end env job rp) (\<lambda>_.
     sv_bind (on_work (on_db (record_agent_result_stage env job (case closed of Inl _ \<Rightarrow> None | Inr h \<Rightarrow> h) rp))) (\<lambda>rid.
     sv_bind (sv_get (\<lambda>_. closed)) (\<lambda>_.
     sv_ok \<lparr>rc_run_id = rid, rc_project = job_project job, rc_status = rp_status rp, rc_summary = rp_summary rp,
            rc_stdout = rp_stdout rp, rc_stderr = rp_stderr rp\<rparr>)))))"

definition run_agent_job_inner :: "'j run_env \<Rightarrow> AgentRunJob \<Rightarrow> (AgentRunCompletion, 'j) sv" where
  "run_agent_job_inner env job0 =
     sv_bind (prepare_run env job0) (\<lambda>(job, before, recovery).
     sv_bind (sv_try (re_run env (job_project job) (job_selection job) (job_resume_session job) (job_holder job) (job_worker_token job))) (\<lambda>run.
     sv_bind (on_work (renew_fence env job)) (\<lambda>_.
     sv_bind (result_report env job run) (\<lambda>rp.
     sv_bind (on_work (git_report env job before recovery rp)) (\<lambda>rp.
     sv_bind (on_work (control_report env job (branch_report run rp))) (\<lambda>rp.
     sv_bind (on_work (renew_fence env job)) (\<lambda>_.
     end_run env job (action_report rp))))))))"

definition ensure_durable_inline_git_worker :: "'j run_env \<Rightarrow> service_setup \<Rightarrow> AgentRunJob \<Rightarrow> AgentRunJob ws" where
  "ensure_durable_inline_git_worker env setup job =
     (if job_worker_token job \<noteq> None then ws_ok job
      else ws_bind (agent_job_uses_git env job) (\<lambda>uses.
           if \<not> uses then ws_ok job else on_db (reserve_inline_worker (re_os env) setup job (show_nat (re_started env)))))"

text \<open>Whether or not the abandonment succeeds, the error of the run is returned.\<close>

definition abandon_after_error :: "'j run_env \<Rightarrow> AgentRunJob \<Rightarrow> string \<Rightarrow> unit ws" where
  "abandon_after_error env job e =
     (case job_worker_token job of
        None \<Rightarrow> ws_ok ()
      | Some token \<Rightarrow> ws_bind (ws_try (on_db (abandon_agent_worker_after_error token e (re_stamp env)))) (\<lambda>_. ws_ok ()))"

definition run_agent_job :: "'j run_env \<Rightarrow> service_setup \<Rightarrow> AgentRunJob \<Rightarrow> (AgentRunCompletion, 'j) sv" where
  "run_agent_job env setup job0 =
     sv_bind (on_work (ensure_durable_inline_git_worker env setup job0)) (\<lambda>job.
     sv_bind (sv_try (run_agent_job_inner env job)) (\<lambda>completion.
     case completion of
       Inr c \<Rightarrow> sv_ok c
     | Inl e \<Rightarrow> sv_bind (on_work (abandon_after_error env job e)) (\<lambda>_. sv_get (\<lambda>_. Inl e))))"

section \<open>The process of an independent worker\<close>

definition reservation_matches :: "int \<Rightarrow> str \<Rightarrow> AgentTaskSelection \<Rightarrow> str option \<Rightarrow> worker_row \<Rightarrow> bool" where
  "reservation_matches pid token sel resume x \<longleftrightarrow>
     w_project x = pid \<and> w_protocol_version x = AGENT_WORKER_PROTOCOL_VERSION
     \<and> w_task_selection x = lit (selection_label sel) \<and> w_resume_session_id x = resume
     \<and> w_lease_holder x = worker_lease_holder token"

definition worker_job :: "'j run_env \<Rightarrow> nat \<Rightarrow> str \<Rightarrow> AgentTaskSelection \<Rightarrow> str option \<Rightarrow> project_row \<Rightarrow> workspace \<Rightarrow> AgentRunJob" where
  "worker_job env max_jobs token sel resume p w =
     \<lparr>job_project = p, job_holder = worker_lease_holder token, job_worker_token = Some token, job_max_global_jobs = max_jobs,
      job_selection = sel, job_resume_session = resume, job_blocked_before = blocked_task_count (project_scan (re_site env) w),
      job_done_before = completed_task_contents w, job_snapshots_before = blocked_task_snapshots w\<rparr>"

definition claimed_worker_run ::
  "'j run_env \<Rightarrow> service_setup \<Rightarrow> unit result \<Rightarrow> nat result \<Rightarrow> int \<Rightarrow> str \<Rightarrow> AgentTaskSelection \<Rightarrow> str option \<Rightarrow> (AgentRunCompletion, 'j) sv" where
  "claimed_worker_run env setup runner max_jobs pid token sel resume =
     sv_bind (sv_get (\<lambda>v. need ''Registered project no longer exists''
                        (find (\<lambda>p. p_id p = pid) (list_projects (ws_db (su_work v)))))) (\<lambda>p.
     sv_bind (sv_get (\<lambda>_. runner)) (\<lambda>_.
     sv_bind (sv_get (\<lambda>_. max_jobs)) (\<lambda>n.
     sv_bind (sv_get (\<lambda>v. Inr (worker_job env n token sel resume p (su_work v)))) (\<lambda>job.
     run_agent_job env setup job))))"

definition run_independent_agent_worker ::
  "'j run_env \<Rightarrow> service_setup \<Rightarrow> unit result \<Rightarrow> nat result \<Rightarrow> int \<Rightarrow> str \<Rightarrow> AgentTaskSelection \<Rightarrow> str option \<Rightarrow> (AgentRunCompletion, 'j) sv" where
  "run_independent_agent_worker env setup runner max_jobs pid token sel resume =
     sv_bind (sv_get (\<lambda>_. validate_agent_worker_token token)) (\<lambda>_.
     sv_bind (sv_get (\<lambda>v. list_active_workers (ws_db (su_work v)))) (\<lambda>active.
     sv_bind (sv_get (\<lambda>_. need ''Agent worker reservation is no longer active''
                        (find (\<lambda>x. w_token x = token) (map fst active)))) (\<lambda>x.
     sv_bind (sv_ensure (\<lambda>_. reservation_matches pid token sel resume x)
        ''Agent worker arguments do not match its durable reservation'') (\<lambda>_.
     sv_bind (on_work (on_db (claim_worker token (int (own_pid (re_os env))) (show_nat (re_started env))))) (\<lambda>claimed.
     sv_bind (sv_ensure (\<lambda>_. claimed) ''Agent worker lost its startup fence'') (\<lambda>_.
     sv_bind (sv_try (claimed_worker_run env setup runner max_jobs pid token sel resume)) (\<lambda>completion.
     case completion of
       Inr c \<Rightarrow> sv_ok c
     | Inl e \<Rightarrow> sv_bind (on_work (on_db (abandon_agent_worker_after_error token e (re_stamp env)))) (\<lambda>_. sv_get (\<lambda>_. Inl e)))))))))"

end
