(* ===== verification/Worker_Run_Theorems.thy ===== *)
theory Worker_Run_Theorems
  imports Worker_Runs Git_Round_Theorems Supervisor_Theorems Dispatch_Theorems
begin

text \<open>
  A run changes the registry by the store's transactions only: what every part of it does to the
  registry, part by part, and the whole run.
\<close>

section \<open>Programs over the registry, the board and the reviews\<close>

definition sv_store :: "('a, 'j) sv \<Rightarrow> bool" where
  "sv_store m \<longleftrightarrow> (\<forall>v. runs_store (su_work v) (su_work (snd (m v))))"

lemma sv_storeI: "(\<And>v. runs_store (su_work v) (su_work (snd (m v)))) \<Longrightarrow> sv_store m"
  by (simp add: sv_store_def)

lemma sv_storeD: "sv_store m \<Longrightarrow> m v = (r, v') \<Longrightarrow> runs_store (su_work v) (su_work v')"
  by (metis sv_store_def snd_conv)

lemma sv_store_bind:
  assumes "sv_store m" and "\<And>x. sv_store (f x)"
  shows "sv_store (sv_bind m f)"
proof (rule sv_storeI)
  fix v
  obtain r v1 where m: "m v = (r, v1)" by fastforce
  then have "runs_store (su_work v) (su_work v1)" using sv_storeD [OF assms(1)] by blast
  moreover have "runs_store (su_work v1) (su_work (snd (f x v1)))" for x using assms(2) by (simp add: sv_store_def)
  ultimately show "runs_store (su_work v) (su_work (snd (sv_bind m f v)))"
    by (cases r) (auto simp: sv_bind_def m intro: on_store.trans_on)
qed

lemma sv_store_get: "sv_store (sv_get f)" and sv_store_ok: "sv_store (sv_ok x)" and sv_store_ensure: "sv_store (sv_ensure P e)"
  by (simp_all add: sv_store_def sv_get_def sv_ok_def sv_ensure_def on_store.refl_on)

lemma sv_store_work:
  assumes m: "keeps runs_store m"
  shows "sv_store (on_work m :: ('a, 'j) sv)"
proof (rule sv_storeI)
  fix v :: "'j sup"
  obtain r w' where r: "m (su_work v) = (r, w')" by fastforce
  then show "runs_store (su_work v) (su_work (snd (on_work m v)))" using keepsD [OF m r] by (simp add: on_work_def)
qed

lemma sv_store_try: "sv_store m \<Longrightarrow> sv_store (sv_try m)"
  by (simp add: sv_store_def sv_try_def split: prod.split) (metis snd_conv)

lemma sv_store_if: "sv_store a \<Longrightarrow> sv_store b \<Longrightarrow> sv_store (if c then a else b)"
  by simp

lemma sv_store_option: "sv_store a \<Longrightarrow> (\<And>x. sv_store (f x)) \<Longrightarrow> sv_store (case y of None \<Rightarrow> a | Some x \<Rightarrow> f x)"
  by (cases y) auto

lemma sv_store_sum: "(\<And>x. sv_store (f x)) \<Longrightarrow> (\<And>x. sv_store (g x)) \<Longrightarrow> sv_store (case y of Inl x \<Rightarrow> f x | Inr x \<Rightarrow> g x)"
  by (cases y) auto

lemma sv_store_prod: "(\<And>x z. sv_store (f x z)) \<Longrightarrow> sv_store (case y of (x, z) \<Rightarrow> f x z)"
  by (cases y) auto

lemma supervised: "(\<And>v v' r. m v = (r, v') \<Longrightarrow> sup_op env v v') \<Longrightarrow> sv_store m"
  by (rule sv_storeI) (metis prod.collapse supervisor_keeps_registry runs_store_def steps_refl)

lemma supervisor_store:
  "sv_store (begin_review env pid)" "sv_store (finish_review env pid out)" "sv_store (prepare_retry env pid)"
  "sv_store (hold_error env pid msg)" "sv_store (after_task_run env pid sel st)"
  by (rule supervised, erule sup_op.intros)+

lemmas sv_kept = sv_store_bind sv_store_get sv_store_ok sv_store_ensure sv_store_try sv_store_if sv_store_option sv_store_sum
  sv_store_prod supervisor_store

section \<open>The parts of a run keep the store\<close>

lemma ws_try_store: "keeps runs_store m \<Longrightarrow> keeps runs_store (ws_try m)"
  by (simp add: keeps_def ws_try_def split: prod.split) (metis snd_conv)

lemma store_sum: "(\<And>x. keeps runs_store (f x)) \<Longrightarrow> (\<And>x. keeps runs_store (g x)) \<Longrightarrow> keeps runs_store (case y of Inl x \<Rightarrow> f x | Inr x \<Rightarrow> g x)"
  by (cases y) auto

lemma session_calls:
  "keeps runs_store (on_db (complete_session_stop pid s t now))"
  "keeps runs_store (on_db (complete_session_interrupt_handoff pid s t h now e))"
  "keeps runs_store (on_db (clear_running_session_control pid s tok))"
  by (rule on_db_store, rule call_one, rule call_ok_session, rule session_step.intros)+

lemma registry_calls:
  "keeps runs_store (on_db (supersede_abandoned_workers_for_lease pid h))"
  "keeps runs_store (on_db (renew_worker t p hb e))" "keeps runs_store (on_db (claim_worker t p at))"
  by (rule on_db_store, rule call_one, rule call_ok_registry, rule registry_step.intros)+

lemma renew_steps: "steps agent_step db (snd (renew_agent_job_worker_fence pid timeout now job db))"
proof -
  have "steps agent_step db (snd (renew_worker t p hb e db))" for t p hb e
    by (rule call_one, rule call_ok_registry, rule step_renew_worker)
  then show ?thesis
    by (auto simp: renew_agent_job_worker_fence_def steps_refl split: option.split sum.split prod.split bool.split) (metis snd_conv)+
qed

lemma renew_store: "keeps runs_store (renew_fence env job)"
  unfolding renew_fence_def by (rule on_db_store) (rule renew_steps)

lemma mode_store: "keeps runs_store (agent_git_mode_for_launch st gv p r)"
  unfolding agent_git_mode_for_launch_def by (intro store_kept effective_mode_store)

lemma prepare_store: "sv_store (prepare_run env job)"
  unfolding prepare_run_def supervise_start_def supersede_for_resume_def Let_def
  by (intro sv_kept sv_store_work store_kept mode_store registry_calls)

lemma link_store: "keeps runs_store (link_agent_session_after_run_stage st job s rs)"
proof -
  have attach: "keeps runs_store (ws_bind (attach_session sta e s) (\<lambda>_. ws_ok Attached))" for sta e
    by (intro store_kept attach_store)
  have "keeps runs_store (\<lambda>w. case task_of_finished_run job w of
      Some (sta, e) \<Rightarrow> ws_bind (attach_session sta e s) (\<lambda>_. ws_ok Attached) w
    | None \<Rightarrow> if rs \<in> {''success'', ''blocked'', ''stopped'', ''handoff''}
              then (Inl ''Could not identify exactly one completed or blocked task for Codex session'', w)
              else (Inr NoEligibleTask, w))"
    using attach by (simp add: keeps_def on_store.refl_on split: option.split prod.split)
  then show ?thesis
    unfolding link_agent_session_after_run_stage_def by (intro store_kept store_cond store_same)
qed

lemma result_store: "sv_store (result_report env job run)"
  unfolding result_report_def review_report_def link_report_def Let_def
  by (intro sv_kept sv_store_work store_kept ws_try_store store_sum link_store)

lemma retire_store: "keeps runs_store (retire_unlinked_working_git_finalization_after_run st now g t)"
proof -
  have cas: "keeps runs_store (\<lambda>w. on_db (compare_and_set_owned_git_finalization a b c d t' e f now) w)" for a b c d t' e f
    using git_cas_calls(2) by simp
  have "keeps runs_store (cancel_unlinked_working_git_finalization st now g t')" for t'
    unfolding cancel_unlinked_working_git_finalization_def
  proof (intro store_kept)
    show "keeps runs_store (\<lambda>w. if terminal_task w (g_session g) \<noteq> None then (Inr False, w)
       else case git_finalization (ws_db w) (g_project g) (g_session g) of None \<Rightarrow> (Inr False, w)
            | Some current \<Rightarrow> if \<not> exact_working_git_finalization_snapshot current g \<or> g_owner_run_token current \<noteq> Some t'
                then (Inr False, w)
                else on_db (compare_and_set_owned_git_finalization (g_project current) (g_session current) (g_generation current)
                       Cancelled t' None None now) w)"
      using cas by (auto simp: keeps_def on_store.refl_on split: option.split)
  qed
  then show ?thesis
    unfolding retire_unlinked_working_git_finalization_after_run_def by (intro store_kept)
qed

lemma working_store: "keeps runs_store (working_report env job rp g)"
  unfolding working_report_def Let_def by (intro store_kept retire_store)

lemma git_store: "keeps runs_store (git_report env job before recovery rp)"
proof -
  have rec: "keeps runs_store (reconcile_session env job rp s)" for s
  proof (rule keepsI)
    fix w
    have "keeps runs_store (ws_bind (reconcile_agent_git_finalization st gps lease ow now g) (\<lambda>h. ws_ok (Some (x, h))))"
      for st gps lease ow now g and x :: GitFinalizationState
      unfolding reconcile_agent_git_finalization_def by (intro store_kept rounds_store)
    then show "runs_store w (snd (reconcile_session env job rp s w))"
      by (simp add: reconcile_session_def keeps_def on_store.refl_on split: option.split)
  qed
  have "keeps runs_store (journal_report env job before recovery s rp f)" for s f
    unfolding journal_report_def open_journal_report_def by (intro store_kept store_sum working_store)
  then show ?thesis
    unfolding git_report_def by (intro store_kept ws_try_store rec)
qed

lemma resolve_steps: "steps agent_step db (snd (resolve_control n pid s t preserve db))"
proof (induction n arbitrary: db)
  case (Suc n)
  obtain r db1 where c: "clear_running_session_control pid s (Some t) db = (r, db1)" by fastforce
  have one: "steps agent_step db db1"
    using call_one [OF call_ok_session [OF ses_clear_running, of db pid s "Some t"]] by (simp add: c)
  have "steps agent_step db (snd (resolve_control n pid s t preserve db1))"
    using steps_trans [OF Suc one] .
  with one show ?case by (auto simp: c steps_refl split: sum.split option.split bool.split)
qed (simp add: steps_refl)

lemma store_resolution: "(\<And>a. keeps runs_store (f a)) \<Longrightarrow> keeps runs_store g
    \<Longrightarrow> keeps runs_store (case r of Resolved a \<Rightarrow> f a | Spinning \<Rightarrow> g)"
  by (cases r) auto

lemma control_store: "keeps runs_store (control_report env job rp)"
  unfolding control_report_def
  by (intro store_kept ws_try_store store_sum store_resolution on_db_store resolve_steps)

lemma close_store: "keeps runs_store (close_session env job rp)"
proof -
  have "keeps runs_store (stop_session env job rp)" "keeps runs_store (hand_over_session env job rp)"
    "keeps runs_store (clear_session job rp)"
    unfolding stop_session_def hand_over_session_def clear_session_def by (intro store_kept session_calls)+
  then show ?thesis
    unfolding close_session_def by (auto intro!: store_kept split: option.split AgentSessionControlAction.split)
qed

lemma defer_store: "keeps runs_store (defer_report env job closed rp)"
proof -
  have queue: "keeps runs_store (queue_in_todo sta e)" for sta e
  proof (rule keepsI)
    fix w
    have "keeps runs_store (ws_bind (on_board f) (\<lambda>_. ws_ok True))" for f by (intro store_kept)
    then show "runs_store w (snd (queue_in_todo sta e w))"
      by (simp add: queue_in_todo_def keeps_def on_store.refl_on split: option.split)
  qed
  have waits: "keeps runs_store (ws_bind (ws_get f) (\<lambda>x. if x then queue_in_todo sta e else ws_ok False))" for f sta e
    by (intro store_kept queue)
  have sole: "keeps runs_store (\<lambda>w. if \<not> idle then (Inr False, w)
      else case linked_tasks w s of
             [(sta, e)] \<Rightarrow> ws_bind (ws_get (waits_in_active_list env s sta e)) (\<lambda>waits.
               if waits then queue_in_todo sta e else ws_ok False) w
           | _ \<Rightarrow> (Inr False, w))" for idle s
    using waits by (simp add: keeps_def on_store.refl_on split: list.split prod.split)
  have "keeps runs_store (defer_blocked_task_after_run env job s)" for s
    unfolding defer_blocked_task_after_run_def by (intro store_kept renew_store sole)
  then show ?thesis unfolding defer_report_def by (intro store_kept)
qed

lemma record_steps: "steps agent_step db (snd (record_agent_result_stage env job successor rp db))"
proof (cases "job_worker_token job")
  case (Some token)
  obtain r db1 where f: "finalize_worker (job_finalization env token (case successor of None \<Rightarrow> job_holder job | Some h \<Rightarrow> h) rp) db = (r, db1)"
    by fastforce
  have "steps agent_step db db1"
    using call_one [OF call_ok_registry [OF step_finalize]] f by (metis snd_conv)
  then show ?thesis by (auto simp: record_agent_result_stage_def Some f split: sum.split option.split)
next
  case None
  obtain r db1 where rec: "record_run_outcome (job_outcome env job rp) db = (r, db1)" by fastforce
  have one: "steps agent_step db db1"
    using call_one [OF call_ok_session [OF ses_record_run, of db "job_outcome env job rp"]] by (simp add: rec)
  moreover have "steps agent_step db (snd (release_lease pid h db1))" for pid h
    by (rule steps_trans [OF call_one [OF release_call] one])
  ultimately show ?thesis
    by (simp add: record_agent_result_stage_def None rec split: prod.split) (metis snd_conv)
qed

lemma end_store: "sv_store (end_run env job rp)"
  unfolding end_run_def supervise_end_def
  by (intro sv_kept sv_store_work ws_try_store close_store defer_store on_db_store record_steps)

definition runner_keeps :: "'j run_env \<Rightarrow> bool" where
  "runner_keeps env \<longleftrightarrow> (\<forall>p sel r h t. sv_store (re_run env p sel r h t))"

lemma inner_store: "runner_keeps env \<Longrightarrow> sv_store (run_agent_job_inner env job)"
  unfolding run_agent_job_inner_def
  by (intro sv_kept sv_store_work prepare_store renew_store result_store git_store control_store end_store)
    (simp add: runner_keeps_def)

section \<open>Around the run\<close>

lemma reserve_steps: "steps agent_step db (snd (reserve_inline_worker os setup job at db))"
proof (cases "setup_command_line setup")
  case (Inr arguments)
  let ?r = "job_reservation job (setup\<lparr>setup_label := AGENT_INLINE_WORKER_SERVICE_LABEL_PREFIX @ setup_token setup\<rparr>) arguments at"
  obtain r db1 where res: "reserve_worker ?r (Some (int (own_pid os), at)) db = (r, db1)" by fastforce
  have one: "steps agent_step db db1"
    using call_one [OF call_ok_registry [OF step_reserve, of db ?r "Some (int (own_pid os), at)"]] by (simp add: res)
  obtain q db2 where rel: "release_lease (job_pid job) (job_holder job) db1 = (q, db2)" by fastforce
  have "steps agent_step db db2"
    using steps_trans [OF call_one [OF release_call] one, of "job_pid job" "job_holder job"] by (simp add: rel)
  with one rel show ?thesis
    by (auto simp: reserve_inline_worker_def Inr res job_pid_def Let_def split: sum.split bool.split)
qed (simp add: reserve_inline_worker_def steps_refl)

lemma ensure_inline_store: "keeps runs_store (ensure_durable_inline_git_worker env setup job)"
  unfolding ensure_durable_inline_git_worker_def agent_job_uses_git_def
  by (intro store_kept mode_store on_db_store reserve_steps)

lemma abandon_error_steps: "steps agent_step db (snd (abandon_agent_worker_after_error t e now db))"
proof -
  have "steps agent_step db (snd (forget (abandon_worker (observed_abandonment x now msg s) db)))"
    if "worker_active (w_state x)" for x msg s
  proof -
    have "steps agent_step db (snd (abandon_worker (observed_abandonment x now msg s) db))"
      by (rule call_one, rule call_ok_registry, rule step_abandon) (simp add: observed_abandonment_def that)
    then show ?thesis by (simp add: forget_def split: prod.split)
  qed
  moreover have "worker_active (w_state x)" if "list_active_workers db = Inr ws" "find P (map fst ws) = Some x" for ws P x
  proof -
    have "x \<in> fst ` set ws" using find_SomeD [OF that(2)] by auto
    then show ?thesis
      using that(1) by (auto simp: list_active_workers_def list_workers_by_terminal_state_def Let_def map_filter_def join_project_def
          split: if_splits option.splits)
  qed
  ultimately show ?thesis
    by (auto simp: abandon_agent_worker_after_error_def steps_refl split: sum.split option.split)
qed

lemma abandon_error_store: "keeps runs_store (on_db (abandon_agent_worker_after_error t e now))"
  by (rule on_db_store) (rule abandon_error_steps)

lemma job_store: "runner_keeps env \<Longrightarrow> sv_store (run_agent_job env setup job)"
  unfolding run_agent_job_def abandon_after_error_def
  by (intro sv_kept sv_store_work ensure_inline_store inner_store store_kept ws_try_store abandon_error_store)

lemma worker_store: "runner_keeps env \<Longrightarrow> sv_store (run_independent_agent_worker env setup runner n pid t sel r)"
  unfolding run_independent_agent_worker_def claimed_worker_run_def
  by (intro sv_kept sv_store_work registry_calls job_store abandon_error_store)


end
