(* ===== verification/Worker_Run_Safety.thy ===== *)
theory Worker_Run_Safety
  imports Worker_Run_Theorems Supervisor_Examples Git_Theorems
begin

text \<open>
  How a run ends: a run that succeeds completes the worker it was given and names the run recorded for
  it, a run that fails leaves no active worker behind but one whose Git launch must be recovered, success is
  reported only over a closed journal, and the loop that resolves the session's control ends but for one case.
  A run whose loop does not end is cut off by the fuel \<open>re_fuel\<close>; it is an error of the model that the
  program never returns.
\<close>

section \<open>Runs of programs that succeed\<close>

definition sup_inv :: "'j sup \<Rightarrow> bool" where
  "sup_inv v \<longleftrightarrow> agent_inv (ws_db (su_work v))"

lemma sup_inv_kept: "sv_store m \<Longrightarrow> m v = (r, v') \<Longrightarrow> sup_inv v \<Longrightarrow> sup_inv v'"
  using sv_storeD agent.steps_inv unfolding sup_inv_def runs_store_def by blast

lemma sv_bind_InrE:
  assumes "sv_bind m f v = (Inr x, v2)" "sup_inv v" "sv_store m"
  obtains y v1 where "m v = (Inr y, v1)" "f y v1 = (Inr x, v2)" "sup_inv v1"
proof -
  obtain r v1 where m: "m v = (r, v1)" by fastforce
  moreover have "sup_inv v1" using sup_inv_kept [OF assms(3) m assms(2)] .
  ultimately show thesis using assms(1) that by (cases r) (auto simp: sv_bind_def)
qed

definition sv_post :: "('a \<Rightarrow> bool) \<Rightarrow> ('a, 'j) sv \<Rightarrow> bool" where
  "sv_post P m \<longleftrightarrow> (\<forall>v x v'. m v = (Inr x, v') \<longrightarrow> P x)"

lemma sv_post_bind: "sv_post Q m \<Longrightarrow> (\<And>x. Q x \<Longrightarrow> sv_post P (f x)) \<Longrightarrow> sv_post P (sv_bind m f)"
  unfolding sv_post_def sv_bind_def by (fastforce split: prod.splits sum.splits)

lemma sv_post_any: "(\<And>x. sv_post P (f x)) \<Longrightarrow> sv_post P (sv_bind m f)"
  unfolding sv_post_def sv_bind_def by (fastforce split: prod.splits sum.splits)

lemma sv_post_ok: "P x \<Longrightarrow> sv_post P (sv_ok x)"
  by (simp add: sv_post_def sv_ok_def)

lemma start_keeps_token: "sv_post (\<lambda>j. job_worker_token j = job_worker_token job) (supervise_start env job)"
  unfolding supervise_start_def
proof (rule sv_post_any)
  fix u
  show "sv_post (\<lambda>j. job_worker_token j = job_worker_token job)
    (if job_selection job = SupervisorReview
     then sv_bind (begin_review (re_sup env) (job_pid job)) (\<lambda>_.
          sv_bind (sv_get (configured_project (re_sup env) (job_project job))) (\<lambda>p. sv_ok (job\<lparr>job_project := p\<rparr>)))
     else sv_ok job)"
    by (cases "job_selection job = SupervisorReview") (auto intro!: sv_post_any sv_post_ok)
qed

lemma prepare_keeps_token: "sv_post (\<lambda>(j, _). job_worker_token j = job_worker_token job) (prepare_run env job)"
  unfolding prepare_run_def Let_def
  by (rule sv_post_any, rule sv_post_any, rule sv_post_any, rule sv_post_any, rule sv_post_any,
      rule sv_post_bind [OF start_keeps_token], rule sv_post_ok) simp

section \<open>The worker of a run\<close>

definition worker_completed :: "str \<Rightarrow> int \<Rightarrow> registry \<Rightarrow> bool" where
  "worker_completed t rid db \<longleftrightarrow> (\<exists>x \<in> set (workers db). w_token x = t \<and> w_state x = WCompleted \<and> w_run_id x = Some rid)"

lemma record_completes:
  assumes "agent_inv db" "job_worker_token job = Some t" "record_agent_result_stage env job successor rp db = (Inr rid, db')"
  shows "worker_completed t rid db'"
proof -
  let ?f = "job_finalization env t (case successor of None \<Rightarrow> job_holder job | Some h \<Rightarrow> h) rp"
  have "finalize_worker ?f db = (Inr (Some rid), db')"
    using assms(3) by (auto simp: record_agent_result_stage_def assms(2) split: prod.splits sum.splits option.splits)
  from finalize_worker_Some [OF store_invD(1) [OF agent_invD(1) [OF assms(1)]] this]
  show ?thesis by (simp add: worker_completed_def job_finalization_def)
qed

lemma end_completes:
  assumes "sup_inv v" "job_worker_token job = Some t" "end_run env job rp v = (Inr c, v')"
  shows "worker_completed t (rc_run_id c) (ws_db (su_work v'))"
proof -
  from assms(3) [unfolded end_run_def] assms(1)
  obtain closed v1 where 1: "sup_inv v1" and e1: "sv_bind (on_work (defer_report env job (is_ok closed) (lifecycle_report closed rp)))
      (\<lambda>rp. sv_bind (supervise_end env job rp) (\<lambda>_.
       sv_bind (on_work (on_db (record_agent_result_stage env job (case closed of Inl _ \<Rightarrow> None | Inr h \<Rightarrow> h) rp))) (\<lambda>rid.
       sv_bind (sv_get (\<lambda>_. closed)) (\<lambda>_.
       sv_ok \<lparr>rc_run_id = rid, rc_project = job_project job, rc_status = rp_status rp, rc_summary = rp_summary rp,
              rc_stdout = rp_stdout rp, rc_stderr = rp_stderr rp\<rparr>)))) v1 = (Inr c, v')"
    by (rule sv_bind_InrE) (intro sv_store_work ws_try_store close_store)
  from e1 1 obtain rp1 v2 where 2: "sup_inv v2" and e2: "sv_bind (supervise_end env job rp1) (\<lambda>_.
       sv_bind (on_work (on_db (record_agent_result_stage env job (case closed of Inl _ \<Rightarrow> None | Inr h \<Rightarrow> h) rp1))) (\<lambda>rid.
       sv_bind (sv_get (\<lambda>_. closed)) (\<lambda>_.
       sv_ok \<lparr>rc_run_id = rid, rc_project = job_project job, rc_status = rp_status rp1, rc_summary = rp_summary rp1,
              rc_stdout = rp_stdout rp1, rc_stderr = rp_stderr rp1\<rparr>))) v2 = (Inr c, v')"
    by (rule sv_bind_InrE) (intro sv_store_work defer_store)
  have sup: "sv_store (supervise_end env job rp1)" unfolding supervise_end_def by (intro sv_kept)
  from e2 2 sup obtain u v3 where 3: "sup_inv v3" and e3:
     "sv_bind (on_work (on_db (record_agent_result_stage env job (case closed of Inl _ \<Rightarrow> None | Inr h \<Rightarrow> h) rp1))) (\<lambda>rid.
       sv_bind (sv_get (\<lambda>_. closed)) (\<lambda>_.
       sv_ok \<lparr>rc_run_id = rid, rc_project = job_project job, rc_status = rp_status rp1, rc_summary = rp_summary rp1,
              rc_stdout = rp_stdout rp1, rc_stderr = rp_stderr rp1\<rparr>)) v3 = (Inr c, v')"
    by (rule sv_bind_InrE)
  obtain r db where rec: "record_agent_result_stage env job (case closed of Inl _ \<Rightarrow> None | Inr h \<Rightarrow> h) rp1 (ws_db (su_work v3)) = (r, db)"
    by fastforce
  with e3 have "r = Inr (rc_run_id c) \<and> ws_db (su_work v') = db"
    by (cases r; cases closed) (auto simp: sv_bind_def on_work_def on_db_def sv_get_def sv_ok_def)
  with rec record_completes [OF _ assms(2), of "ws_db (su_work v3)"] 3 show ?thesis by (simp add: sup_inv_def)
qed

lemma inner_completes:
  assumes keeps: "runner_keeps env" and inv: "sup_inv v" and tok: "job_worker_token job = Some t"
    and run: "run_agent_job_inner env job v = (Inr c, v')"
  shows "worker_completed t (rc_run_id c) (ws_db (su_work v'))"
proof -
  from run [unfolded run_agent_job_inner_def] inv prepare_store
  obtain y v1 where p: "prepare_run env job v = (Inr y, v1)" "sup_inv v1" and e: "(case y of (job, before, recovery) \<Rightarrow>
     sv_bind (sv_try (re_run env (job_project job) (job_selection job) (job_resume_session job) (job_holder job) (job_worker_token job))) (\<lambda>run.
     sv_bind (on_work (renew_fence env job)) (\<lambda>_.
     sv_bind (result_report env job run) (\<lambda>rp.
     sv_bind (on_work (git_report env job before recovery rp)) (\<lambda>rp.
     sv_bind (on_work (control_report env job (branch_report run rp))) (\<lambda>rp.
     sv_bind (on_work (renew_fence env job)) (\<lambda>_.
     end_run env job (action_report rp)))))))) v1 = (Inr c, v')" by (rule sv_bind_InrE)
  obtain j before recovery where y: "y = (j, before, recovery)" by (cases y)
  have jt: "job_worker_token j = Some t" using prepare_keeps_token [of job env] p(1) tok unfolding sv_post_def y by fastforce
  have runner: "sv_store (sv_try (re_run env p sel r h tk))" for p sel r h tk
    using keeps by (simp add: runner_keeps_def sv_store_try)
  note stages = sv_bind_InrE [OF _ _ runner] sv_bind_InrE [OF _ _ sv_store_work [OF renew_store]]
    sv_bind_InrE [OF _ _ result_store] sv_bind_InrE [OF _ _ sv_store_work [OF git_store]]
    sv_bind_InrE [OF _ _ sv_store_work [OF control_store]]
  obtain v2 rp where "end_run env j (action_report rp) v2 = (Inr c, v')" "sup_inv v2"
    using e p(2) unfolding y prod.case by (elim stages) blast
  then show ?thesis using end_completes jt by blast
qed

section \<open>A run that fails\<close>

definition worker_settled :: "str \<Rightarrow> registry \<Rightarrow> bool" where
  "worker_settled t db \<longleftrightarrow> (\<forall>x \<in> set (workers db). w_token x = t \<and> worker_active (w_state x)
      \<longrightarrow> is_inline_agent_worker x \<and> git_launch_state db (w_project x) t \<noteq> None)"

lemma listed:
  assumes "registry_inv db" "list_active_workers db = Inr ws" "x \<in> set (workers db)" "worker_active (w_state x)"
  shows "x \<in> set (map fst ws)"
proof -
  obtain p where "join_project db w_project x = Some (x, p)"
    using registry_invD(4) [OF assms(1,3)]
    by (cases "sql_select (\<lambda>p. p_id p = w_project x) (projects db)")
       (auto simp: join_project_def project_exists_def sql_exists_def sql_select_None list_ex_iff)
  then show ?thesis
    using assms(2-4) by (force simp: list_active_workers_def list_workers_by_terminal_state_def Let_def map_filter_def split: if_splits)
qed

lemma listed_row:
  "list_active_workers db = Inr ws \<Longrightarrow> x \<in> set (map fst ws) \<Longrightarrow> x \<in> set (workers db) \<and> worker_active (w_state x)"
  by (auto simp: list_active_workers_def list_workers_by_terminal_state_def Let_def map_filter_def join_project_def
      split: if_splits option.splits)

lemma error_settles:
  assumes inv: "registry_inv db" and run: "abandon_agent_worker_after_error t e now db = (r, db')"
  shows "worker_settled t db' \<or> (\<exists>e'. list_active_workers db' = Inl e')"
proof (cases "list_active_workers db")
  case (Inl e')
  then show ?thesis using run by (auto simp: abandon_agent_worker_after_error_def)
next
  case (Inr ws)
  show ?thesis
  proof (cases "find (\<lambda>x. w_token x = t) (map fst ws)")
    case None
    then have "db' = db" using run Inr by (simp add: abandon_agent_worker_after_error_def)
    moreover have "w_token x \<noteq> t" if "x \<in> set (map fst ws)" for x using None that by (auto simp: find_None_iff)
    ultimately have "worker_settled t db'" using listed [OF inv Inr] unfolding worker_settled_def by blast
    then show ?thesis ..
  next
    case (Some x)
    then have x: "w_token x = t" "x \<in> set (workers db)" "worker_active (w_state x)"
      using find_SomeD [OF Some] listed_row [OF Inr] by auto
    have own: "y = x" if "y \<in> set (workers db)" "w_token y = t" for y
      using workers_ok_token [OF registry_invD(3) [OF inv] that(1) x(2)] that(2) x(1) by simp
    show ?thesis
    proof (cases "is_inline_agent_worker x \<and> git_launch_state db (w_project x) t \<noteq> None")
      case True
      then have "db' = db" using run Inr Some by (simp add: abandon_agent_worker_after_error_def)
      with True own show ?thesis by (auto simp: worker_settled_def)
    next
      case False
      let ?a = "observed_abandonment x now (lit ''Independent worker failed: '' @ lit e) (permitted_successor db x)"
      have fen: "abandon_fenced ?a x" by (simp add: observed_abandonment_def abandon_fenced_def)
      have "abandon_worker ?a db = (Inr True, abandoned_db ?a x db)"
        by (rule abandon_worker_effect [OF inv x(2) fen x(3)])
          (use permitted_successor_iff [OF inv, of x] in \<open>simp add: observed_abandonment_def\<close>)
      moreover have "abandon_agent_worker_after_error t e now db = forget (abandon_worker ?a db)"
        using False Inr Some by (auto simp: abandon_agent_worker_after_error_def)
      ultimately have "db' = abandoned_db ?a x db" using run by (simp add: forget_def)
      then have "\<not> (w_token y = t \<and> worker_active (w_state y))" if "y \<in> set (workers db')" for y
        using abandoned_active_rows that own fen by blast
      then show ?thesis by (auto simp: worker_settled_def)
    qed
  qed
qed

text \<open>C37: a run that was given a worker settles it: if it succeeds, the worker is completed and points to the
  run the completion names; if it fails at any stage, none of its steps leaves the worker active, unless the worker
  is the scheduler's own process and the boundary of its Git launch awaits recovery, or the active workers cannot
  be listed.\<close>

theorem run_settles_worker:
  assumes keeps: "runner_keeps env" and inv: "agent_inv (ws_db (su_work v))" and tok: "job_worker_token job = Some t"
  shows "case run_agent_job env setup job v of
      (Inr c, v') \<Rightarrow> worker_completed t (rc_run_id c) (ws_db (su_work v'))
    | (Inl e, v') \<Rightarrow> worker_settled t (ws_db (su_work v')) \<or> (\<exists>e'. list_active_workers (ws_db (su_work v')) = Inl e')"
proof -
  have v: "sup_inv v" using inv by (simp add: sup_inv_def)
  obtain r v1 where inner: "run_agent_job_inner env job v = (r, v1)" by fastforce
  show ?thesis
  proof (cases r)
    case (Inr c)
    then have "run_agent_job env setup job v = (Inr c, v1)"
      using inner by (simp add: run_agent_job_def sv_bind_def on_work_def ensure_durable_inline_git_worker_def tok ws_ok_def sv_try_def sv_ok_def)
    then show ?thesis using inner_completes [OF keeps v tok] inner Inr by simp
  next
    case (Inl e)
    obtain q db where ab: "abandon_agent_worker_after_error t e (re_stamp env) (ws_db (su_work v1)) = (q, db)" by fastforce
    have "agent_inv (ws_db (su_work v1))"
      using sup_inv_kept [OF inner_store [OF keeps] inner v] by (simp add: sup_inv_def)
    then have "worker_settled t db \<or> (\<exists>e'. list_active_workers db = Inl e')"
      using error_settles [OF store_invD(1) [OF agent_invD(1)] ab] by blast
    moreover have "\<exists>v'. run_agent_job env setup job v = (Inl e, v') \<and> ws_db (su_work v') = db"
      using inner ab
      by (simp add: Inl run_agent_job_def sv_bind_def on_work_def on_db_def ensure_durable_inline_git_worker_def tok ws_ok_def
          sv_try_def sv_get_def abandon_after_error_def ws_bind_def ws_try_def)
    ultimately show ?thesis by auto
  qed
qed

section \<open>The loop that resolves the control\<close>

text \<open>The loop goes on only where the control runs with this token and its worker has lost its fence.\<close>

definition unfenced_running :: "registry \<Rightarrow> int \<Rightarrow> str \<Rightarrow> str \<Rightarrow> bool" where
  "unfenced_running db pid s t \<longleftrightarrow>
     (\<exists>c. session_control db pid s = Inr (Some c) \<and> sc_state c = Running \<and> sc_run_token c = Some t)
     \<and> known_worker db t \<and> \<not> fenced_worker db pid t"

lemma clear_round:
  assumes "session_control db pid s = Inr (Some c)" "sc_state c = Running" "sc_run_token c = Some t"
  shows "clear_running_session_control pid s (Some t) db =
    (if known_worker db t \<and> \<not> fenced_worker db pid t then (Inr False, db)
     else (Inr True, snd (clear_running_session_control pid s (Some t) db)))"
proof -
  obtain sc where sc: "sql_select (control_at pid s) (controls db) = Some sc" "control_record sc = Inr c"
    using assms(1) by (auto simp: session_control_def map_sum_def split: option.splits sum.splits)
  then have "sc_state sc = Running" "sc_run_token sc = Some t"
    using assms(2,3) by (auto simp: control_record_def split: if_splits option.splits)
  then have "0 < sql_count (\<lambda>sc. control_at pid s sc \<and> sc_state sc = Running \<and> sc_run_token sc = Some t) (controls db)"
    using sql_select_Some [OF sc(1)] by (auto simp: sql_count_pos)
  then show ?thesis by (simp add: clear_running_session_control_def control_delete_def)
qed

lemma requested_running: "requested_action Running = None" by simp

lemma unfenced_spins: "unfenced_running db pid s t \<Longrightarrow> resolve_control n pid s t False db = (Inr Spinning, db)"
proof (induction n)
  case (Suc n)
  then show ?case using clear_round [of db pid s _ t] by (auto simp: unfenced_running_def)
qed simp


section \<open>Success needs a closed journal\<close>

lemma rounds_row:
  assumes "reconcile_rounds n i locked st gps lease ow now g w = (Inr h, w')"
    and "journals_wf (journals (ws_db w))" and "row_of g w = Some g"
  shows "journals_wf (journals (ws_db w')) \<and> row_of g w' = Some h \<and> (h = g \<or> g_state h \<noteq> Completed \<or> (\<exists>j<i + n. completion_proven (gps j) h))"
  using assms
proof (induction n arbitrary: i locked g w)
  case (Suc n)
  obtain r w1 where one: "reconcile_round st (gps i) lease ow now g w = (Inr r, w1)"
    and rest: "(case r of Settled h \<Rightarrow> ws_ok h
       | Read_again \<Rightarrow> ws_bind (journal_now ''Git finalization disappeared after a successful reconciliation step'' g)
           (reconcile_rounds n (Suc i) (locked \<or> gfs_is_finalizing (g_state g)) st gps lease ow now)
       | Same_again \<Rightarrow> reconcile_rounds n (Suc i) (locked \<or> gfs_is_finalizing (g_state g)) st gps lease ow now g) w1 = (Inr h, w')"
    using Suc.prems(1) by (auto simp: ws_runs Let_def)
  obtain k where k: "journals_wf (journals (ws_db w1))" "row_of g w1 = Some k"
      "k = g \<or> g_state k \<noteq> Completed \<or> completion_proven (gps i) k"
      "case r of Settled m \<Rightarrow> m = k | Same_again \<Rightarrow> k = g | Read_again \<Rightarrow> True"
    using reconcile_round_ok [OF one Suc.prems(2,3)] unfolding round_ok_def by blast
  have key: "g_project k = g_project g" "g_session k = g_session g"
    using git_finalization_Some [OF k(2) [unfolded row_of_def]] by (simp_all add: journal_at_def)
  then have same: "row_of k = row_of g" by (simp add: row_of_def fun_eq_iff)
  have last: "h = k \<Longrightarrow> h = g \<or> g_state h \<noteq> Completed \<or> (\<exists>j<i + Suc n. completion_proven (gps j) h)"
    using k(3) by (auto intro!: exI [of _ i])
  have go: "journals_wf (journals (ws_db w')) \<and> row_of k w' = Some h \<and> (h = k \<or> g_state h \<noteq> Completed \<or> (\<exists>j<Suc i + n. completion_proven (gps j) h))"
    if "reconcile_rounds n (Suc i) l st gps lease ow now k w1 = (Inr h, w')" for l
    using Suc.IH [OF that k(1)] k(2) by (simp add: same)
  show ?case
  proof (cases r)
    case (Settled m)
    then show ?thesis using rest k(1,2,4) last by auto
  next
    case Read_again
    then show ?thesis using rest k(2) go last by (auto simp: ws_runs journal_now_def row_of_def key)
  next
    case Same_again
    then show ?thesis using rest k(4) go last by auto
  qed
qed simp

definition closed_by_run :: "'j run_env \<Rightarrow> AgentRunJob \<Rightarrow> str \<Rightarrow> workspace \<Rightarrow> workspace \<Rightarrow> bool" where
  "closed_by_run env job s w w' \<longleftrightarrow>
     (case git_finalization (ws_db w') (job_pid job) s of
        None \<Rightarrow> p_git_mode (job_project job) = Off \<or> \<not> worktree_contains_completed_done_task w' s
      | Some h \<Rightarrow> g_state h = Cancelled
          \<or> (g_state h = Completed \<and> (git_finalization (ws_db w) (job_pid job) s = Some h
                \<or> (\<exists>j<6. completion_proven (re_proofs env j) h))))"

lemma reconcile_session_row:
  assumes run: "reconcile_session env job rp s w = (Inr f, w')" and wf: "journals_wf (journals (ws_db w))"
  shows "case f of None \<Rightarrow> w' = w \<and> git_finalization (ws_db w) (job_pid job) s = None
    | Some (initial, h) \<Rightarrow> journals_wf (journals (ws_db w')) \<and> git_finalization (ws_db w') (job_pid job) s = Some h
        \<and> (g_state h = Completed \<longrightarrow> closed_by_run env job s w w')"
proof (cases "git_finalization (ws_db w) (job_pid job) s")
  case None
  then show ?thesis using run by (simp add: reconcile_session_def)
next
  case (Some g)
  have key: "g_project g = job_pid job" "g_session g = s" using git_finalization_Some [OF Some] by (simp_all add: journal_at_def)
  obtain h where h: "f = Some (g_state g, h)"
    "reconcile_rounds 6 0 False (re_site env) (re_proofs env) None (rp_run_token rp) (re_stamp env) g w = (Inr h, w')"
    using run by (auto simp: reconcile_session_def Some reconcile_agent_git_finalization_def ws_runs)
  from rounds_row [OF h(2) wf] Some key show ?thesis
    by (auto simp: row_of_def h(1) closed_by_run_def)
qed

lemma cancelled_row:
  assumes run: "retire_unlinked_working_git_finalization_after_run st now g t w = (Inr True, w')"
    and wf: "journals_wf (journals (ws_db w))"
  shows "\<exists>h. git_finalization (ws_db w') (g_project g) (g_session g) = Some h \<and> g_state h = Cancelled"
proof -
  obtain t' where t': "cancel_unlinked_working_git_finalization st now g t' w = (Inr True, w')"
    using run by (auto simp: retire_unlinked_working_git_finalization_after_run_def ws_ok_def split: option.splits if_splits)
  define attempt where "attempt c =
    on_db (compare_and_set_owned_git_finalization (g_project c) (g_session c) (g_generation c) Cancelled t' None None now) w" for c :: journal_row
  have "(if terminal_task w (g_session g) \<noteq> None then (Inr False, w)
     else case git_finalization (ws_db w) (g_project g) (g_session g) of
            None \<Rightarrow> (Inr False, w)
          | Some c \<Rightarrow> if \<not> exact_working_git_finalization_snapshot c g \<or> g_owner_run_token c \<noteq> Some t'
              then (Inr False, w) else attempt c) = (Inr True, w')"
    using t' unfolding cancel_unlinked_working_git_finalization_def attempt_def ws_bind_Inr ws_get_Inr by blast
  then obtain c where c: "exact_working_git_finalization_snapshot c g" and cas: "attempt c = (Inr True, w')"
    by (simp split: if_splits option.splits) blast
  have key: "g_project c = g_project g" "g_session c = g_session g"
    using c by (simp_all add: exact_working_git_finalization_snapshot_def)
  obtain db' where acc: "compare_and_set_owned_git_finalization (g_project c) (g_session c) (g_generation c) Cancelled t' None None now (ws_db w) = (Inr True, db')"
    and w': "w' = w\<lparr>ws_db := db'\<rparr>"
    using cas by (cases "compare_and_set_owned_git_finalization (g_project c) (g_session c) (g_generation c) Cancelled t' None None now (ws_db w)")
      (simp add: on_db_def attempt_def)
  define q where "q = \<lparr>cq_project = g_project c, cq_session = g_session c, cq_expected_generation = g_generation c, cq_next_state = Cancelled,
    cq_task_identity = None, cq_worktree_baseline = None, cq_require_running_owner = True,
    cq_owner_run_token = Some t', cq_commit_oid = None, cq_last_error = None, cq_updated_at = now\<rparr>"
  have "compare_and_set_git_finalization q (ws_db w) = (Inr True, db')"
    using acc by (simp only: compare_and_set_owned_git_finalization_def q_def)
  from cas_accepted [OF wf this] obtain g0 where "git_finalization db' (cq_project q) (cq_session q) = Some (cas_row q g0)" by blast
  then show ?thesis by (intro exI [of _ "cas_row q g0"]) (simp add: w' key q_def cas_row_def)
qed

lemma closed_stays:
  "ws_db w1 = ws_db w' \<Longrightarrow> git_finalization (ws_db w') (job_pid job) s = Some h \<Longrightarrow> closed_by_run env job s w w' \<Longrightarrow> closed_by_run env job s w w1"
  by (simp add: closed_by_run_def)

lemma working_closes:
  assumes run: "working_report env job rp h w1 = (Inr rp', w')" and ok: "rp_status rp' = ''success''"
    and wf: "journals_wf (journals (ws_db w1))" and key: "g_project h = job_pid job" "g_session h = s"
  shows "closed_by_run env job s w w'"
proof -
  let ?retire = "retire_unlinked_working_git_finalization_after_run (re_site env) (re_stamp env) h (rp_run_token rp)"
  let ?task = "terminal_task w1 (g_session h)"
  obtain waiting where "(if waiting then ws_ok (blocking ''The task has a coordination wait; its work and exact Git journal are preserved. CLT reevaluates its prerequisite/overlap automatically; see clt context.'' rp)
         else if task_durably_blocked ?task then ws_ok (blocking ''The linked task recorded a durable blocker; its pre-run Git journal remains available for a later recovery without finalizing the task.'' rp)
         else if ?task = None \<and> (rp_status rp = ''idle'' \<or> g_task_identity h = None \<and> g_commit_oid h = None) then
           ws_bind ?retire (\<lambda>cancelled.
           ws_ok (if cancelled then rp
                  else (failing ''An unused Git journal could not be cancelled because its task link or running generation changed.'' rp)\<lparr>rp_git_pending := True\<rparr>))
         else ws_ok (if rp_status rp = ''blocked'' then rp
                     else (failing ''The task's Git journal remains WORKING; CLT preserved this exact Codex session because the task is neither durably blocked nor finalized.'' rp)\<lparr>rp_git_pending := True\<rparr>)) w1 = (Inr rp', w')"
    using run unfolding working_report_def Let_def ws_bind_Inr ws_get_Inr by auto
  then obtain cancelled where c: "?retire w1 = (Inr cancelled, w')"
      "rp' = (if cancelled then rp
         else (failing ''An unused Git journal could not be cancelled because its task link or running generation changed.'' rp)\<lparr>rp_git_pending := True\<rparr>)"
    using ok by (auto simp: ws_ok_def blocking_def failing_def ws_bind_Inr split: if_splits)
  then have "?retire w1 = (Inr True, w')" using ok by (cases cancelled) (auto simp: failing_def)
  from cancelled_row [OF this wf] show ?thesis by (auto simp: closed_by_run_def key)
qed

text \<open>C38: after the stage that looks at the Git journal, a run may report success only if its session has no
  journal, and then with Git no task it has completed, or the journal is cancelled, or it is
  completed: before the run already, or by Git's proof in one of the rounds of this run's reconciliation.\<close>

theorem success_needs_closed_journal:
  assumes wf: "journals_wf (journals (ws_db w))" and "rp_action rp = None" and s: "report_session job rp = Some s"
  shows "case git_report env job before recovery rp w of (r, w') \<Rightarrow>
     (case r of Inl _ \<Rightarrow> True | Inr rp' \<Rightarrow> rp_status rp' = ''success'' \<longrightarrow> closed_by_run env job s w w')"
proof -
  obtain r w' where run: "git_report env job before recovery rp w = (r, w')" by fastforce
  have "closed_by_run env job s w w'" if r: "r = Inr rp'" and ok: "rp_status rp' = ''success''" for rp'
  proof -
    obtain f w1 where f: "reconcile_session env job rp s w = (f, w1)" by fastforce
    have rest: "journal_report env job before recovery s rp f w1 = (Inr rp', w')"
      using run f by (simp add: git_report_def assms(2) s r ws_bind_def ws_try_def)
    show ?thesis
    proof (cases f)
      case (Inl e)
      then show ?thesis using rest ok by (auto simp: journal_report_def failed_proof_report_def failing_def split: if_splits)
    next
      case (Inr q)
      note row = reconcile_session_row [OF f [unfolded Inr] wf]
      show ?thesis
      proof (cases q)
        case None
        then show ?thesis using rest row ok Inr
          by (auto simp: journal_report_def closed_by_run_def failing_def split: if_splits)
      next
        case (Some ih)
        obtain initial h where ih: "ih = (initial, h)" by fastforce
        have h: "journals_wf (journals (ws_db w1))" "git_finalization (ws_db w1) (job_pid job) s = Some h" "g_state h = Completed \<Longrightarrow> closed_by_run env job s w w1"
          using row by (simp_all add: Some ih)
        have key: "g_project h = job_pid job" "g_session h = s" using git_finalization_Some [OF h(2)] by (simp_all add: journal_at_def)
        have body: "(if g_state h = Completed \<and> completes_in_run before recovery rp initial h then ws_ok (proven_report h rp)
          else if g_state h = Working then working_report env job rp h else open_journal_report env rp h) w1 = (Inr rp', w')"
          using rest by (simp add: journal_report_def Inr Some ih)
        consider "g_state h = Completed \<and> w' = w1" | "g_state h = Working" "working_report env job rp h w1 = (Inr rp', w')"
          | "g_state h \<noteq> Working" "open_journal_report env rp h w1 = (Inr rp', w')"
          using body by (auto simp: ws_ok_def split: if_splits)
        then show ?thesis
        proof cases
          case 1
          then show ?thesis using h(3) by simp
        next
          case 2
          then show ?thesis using working_closes [OF _ ok h(1) key] by blast
        next
          case 3
          then have "gfs_is_terminal (g_state h) \<and> w' = w1"
            using ok by (auto simp: open_journal_report_def failing_def ws_ok_def ws_bind_Inr split: if_splits)
          then show ?thesis using h(2,3) by (auto simp: gfs_is_terminal_def closed_by_run_def)
        qed
      qed
    qed
  qed
  then show ?thesis by (simp add: run split: sum.split)
qed

section \<open>An instance\<close>

text \<open>A worker that claimed its task, with a Codex process that shows a sign of life and then exits.\<close>

definition demo_run_env :: "(SupervisorReview + SupervisorSettings) run_env" where
  "demo_run_env = \<lparr>re_sup = demo_sup_env, re_os = (demo_os None)\<lparr>own_pid := 42\<rparr>,
     re_view = demo_git, re_proofs = (\<lambda>_. demo_proof), re_todo_present = Inr True, re_lease_timeout = Inr 60,
     re_started = 1002, re_now = 1005, re_fuel = 1,
     re_run = (\<lambda>_ _ _ _ _. sv_bind (on_work (on_db (renew_worker (lit ''t1'') 42 (lit ''1004'') (lit ''1064''))))
                 (\<lambda>_. sv_get (\<lambda>_. Inl ''Codex exited'')))\<rparr>"

definition demo_run_start :: "(SupervisorReview + SupervisorSettings) sup" where
  "demo_run_start = demo_sup\<lparr>su_work := demo_blocked_work\<lparr>ws_db := demo_run\<rparr>\<rparr>"

definition demo_run_job :: AgentRunJob where
  "demo_run_job = demo_job\<lparr>job_holder := worker_lease_holder (lit ''t1''), job_worker_token := Some (lit ''t1'')\<rparr>"

lemma demo_runner_keeps: "runner_keeps demo_run_env"
  unfolding runner_keeps_def demo_run_env_def run_env.simps
  by (intro allI sv_kept sv_store_work registry_calls)

lemma demo_run_agent: "agent_inv demo_run"
proof -
  have one: "steps agent_step db (snd (claim_worker t p at db))" "steps agent_step db (snd (reserve_worker q pa db))"
    "steps agent_step db (snd (try_acquire_lease l h at e db))" for db t p at q pa l h e
    by (rule call_one, rule call_ok_registry, rule registry_step.intros)+
  have "steps agent_step demo_init demo_run"
    unfolding demo_run_def demo_leased_def by (rule steps_trans [OF one(1)], rule steps_trans [OF one(2)], rule one(3))
  moreover have "store_init demo_init"
    using demo_init_ok by (simp add: store_init_def demo_init_def empty_registry_def)
  ultimately show ?thesis using agent.reach_inv [OF reach_steps [OF _ reach_init]] by blast
qed

lemma demo_start_db: "ws_db (su_work demo_run_start) = demo_run"
  by (simp add: demo_run_start_def)


theorem run_settles_worker_witness:
  "(\<exists>x \<in> set (workers (ws_db (su_work demo_run_start))). w_token x = lit ''t1'' \<and> worker_active (w_state x))
   \<and> (case run_agent_job demo_run_env (demo_setup (Inr ())) demo_run_job demo_run_start of
        (Inr c, v') \<Rightarrow> worker_completed (lit ''t1'') (rc_run_id c) (ws_db (su_work v'))
      | (Inl e, v') \<Rightarrow> worker_settled (lit ''t1'') (ws_db (su_work v'))
          \<or> (\<exists>e'. list_active_workers (ws_db (su_work v')) = Inl e'))"
proof
  have "w_token demo_runner = lit ''t1'' \<and> worker_active (w_state demo_runner)" by code_simp
  then show "\<exists>x \<in> set (workers (ws_db (su_work demo_run_start))). w_token x = lit ''t1'' \<and> worker_active (w_state x)"
    by (simp add: demo_start_db demo_run_rows)
  have "job_worker_token demo_run_job = Some (lit ''t1'')" by (simp add: demo_run_job_def)
  from run_settles_worker [OF demo_runner_keeps _ this, of demo_run_start "demo_setup (Inr ())"] demo_run_agent
  show "case run_agent_job demo_run_env (demo_setup (Inr ())) demo_run_job demo_run_start of
        (Inr c, v') \<Rightarrow> worker_completed (lit ''t1'') (rc_run_id c) (ws_db (su_work v'))
      | (Inl e, v') \<Rightarrow> worker_settled (lit ''t1'') (ws_db (su_work v'))
          \<or> (\<exists>e'. list_active_workers (ws_db (su_work v')) = Inl e')"
    by (simp only: demo_start_db)
qed

text \<open>A run whose commit Git proves: the report becomes a success.\<close>

definition demo_report :: run_report where
  "demo_report = (failed_report demo_run_job ''Codex exited'')\<lparr>rp_session := Some (lit ''s1'')\<rparr>"

lemma demo_report_facts:
  "rp_action demo_report = None" "report_session demo_run_job demo_report = Some (lit ''s1'')"
  by (simp_all add: demo_report_def failed_report_def report_session_def option_or_def)

lemma demo_report_runs:
  "map_sum id rp_status (fst (git_report (demo_run_env\<lparr>re_now := 2000\<rparr>) demo_run_job None False demo_report demo_waiting)) = Inr ''success''"
  by code_simp

theorem success_needs_closed_journal_witness:
  "\<exists>rp' w'. git_report (demo_run_env\<lparr>re_now := 2000\<rparr>) demo_run_job None False demo_report demo_waiting = (Inr rp', w')
     \<and> rp_status rp' = ''success'' \<and> closed_by_run (demo_run_env\<lparr>re_now := 2000\<rparr>) demo_run_job (lit ''s1'') demo_waiting w'"
proof -
  obtain r w' where run: "git_report (demo_run_env\<lparr>re_now := 2000\<rparr>) demo_run_job None False demo_report demo_waiting = (r, w')"
    by fastforce
  obtain rp' where rp': "r = Inr rp'" "rp_status rp' = ''success''" using demo_report_runs by (cases r) (simp_all add: run)
  from success_needs_closed_journal [OF demo_waiting_facts(1) demo_report_facts, of "demo_run_env\<lparr>re_now := 2000\<rparr>" None False]
  show ?thesis by (simp add: run rp')
qed

end
