(* ===== verification/Spec2Isabelle.thy ===== *)
theory Spec2Isabelle
  imports Worker_Theorems Control_Theorems Reconcile_Theorems Project_Theorems Board_Theorems Text_Theorems Dependency_Theorems
    Activation_Theorems Supervisor_Examples Run_Task_Theorems Dispatch_Theorems Git_Round_Theorems Git_Repair_Theorems
    Worker_Run_Safety
begin

text \<open>
  \<^bold>\<open>clt-rs\<close> is a task board for the terminal whose tasks are carried out by Codex agents.  A
  supervisor scans the registered projects, takes a project's lease, dispatches a worker
  process for a task, and the worker runs Codex, records its run and commits or publishes
  the result through a journal.  The registry of projects, runs, leases, workers, session
  controls and Git journals is an SQL database; boards are Markdown files.

  Theories: \<^verbatim>\<open>Rust_Prelude\<close> (strings and integers of the standard library), \<^verbatim>\<open>Sql_Tables\<close> (tables
  and statements), \<^verbatim>\<open>Agent_Types\<close> (\<^verbatim>\<open>src/src/agent.rs\<close>: enumerations, rows, registry),
  \<^verbatim>\<open>Workers_Leases\<close> (\<^verbatim>\<open>src/src/agent/repositories/workers_leases.rs\<close>), \<^verbatim>\<open>Lease_Safety\<close>,
  \<^verbatim>\<open>Lease_Properties\<close> and \<^verbatim>\<open>Worker_Theorems\<close> (its invariant, interfaces and theorems),
  \<^verbatim>\<open>Transition_Systems\<close> (the interfaces of stores with invariants and of exclusive leases).
\<close>

end
